(* ===== verification/GC_Prelude.thy ===== *)
theory GC_Prelude
  imports Main "HOL-Library.AList"
begin

text \<open>
  Shared vocabulary of the development: the parts of the Go language and of its standard
  library that the agent uses in more than one package.

  \<^item> Go strings and byte slices are byte sequences: \<open>string\<close>, a list of 8-bit
    characters. The case and white-space functions of package \<^verbatim>\<open>strings\<close> are
    written for ASCII text, which is what rule ids, tactics, unit names and \<^verbatim>\<open>/proc\<close>
    records are; on other bytes they are the identity.
  \<^item> Go's \<^verbatim>\<open>int\<close> is 64 bits wide. Values are \<open>int\<close>; where the operands
    come from configuration the wrap-around is written out with \<open>wrap64\<close>.
  \<^item> A point in time is the number of nanoseconds since Go's zero time, so that
    \<^verbatim>\<open>Time.IsZero\<close> is equality with 0. \<^verbatim>\<open>Time.Sub\<close> saturates.
  \<^item> A Go map is an association list with distinct keys (\<open>gomap\<close>), so that
    \<^verbatim>\<open>len\<close> and iteration are executable.
\<close>

section \<open>Collections of facts\<close>

named_theorems gomap "laws of the association-list view of Go maps"

section \<open>Integers and time\<close>

definition max_int64 :: int where "max_int64 = 2 ^ 63 - 1"
definition min_int64 :: int where "min_int64 = - (2 ^ 63)"

text \<open>Two's complement wrap-around of a 64-bit signed result.\<close>

definition wrap64 :: "int \<Rightarrow> int" where
  "wrap64 x = (x + 2 ^ 63) mod 2 ^ 64 - 2 ^ 63"

lemma wrap64_bounds: "min_int64 \<le> wrap64 x \<and> wrap64 x \<le> max_int64"
proof -
  have "0 \<le> (x + 2 ^ 63) mod 2 ^ 64" "(x + 2 ^ 63) mod 2 ^ 64 < (2 ^ 64 :: int)"
    by simp_all
  then show ?thesis by (simp add: wrap64_def min_int64_def max_int64_def)
qed

lemma wrap64_id [simp]: "min_int64 \<le> x \<Longrightarrow> x \<le> max_int64 \<Longrightarrow> wrap64 x = x"
  by (simp add: wrap64_def min_int64_def max_int64_def)

lemma wrap64_small: "\<bar>x\<bar> < 2 ^ 62 \<Longrightarrow> wrap64 x = x"
  by (rule wrap64_id) (simp_all add: min_int64_def max_int64_def)

type_synonym time = int
type_synonym duration = int

abbreviation (input) zero_time :: time where "zero_time \<equiv> 0"
abbreviation (input) IsZero :: "time \<Rightarrow> bool" where "IsZero t \<equiv> t = zero_time"

definition millisecond :: duration where "millisecond = 1000000"
definition second :: duration where "second = 1000 * millisecond"
definition minute :: duration where "minute = 60 * second"

lemmas duration_defs = minute_def second_def millisecond_def

text \<open>\<^verbatim>\<open>Time.Sub\<close>: the difference, saturated to the range of a Duration.\<close>

definition time_sub :: "time \<Rightarrow> time \<Rightarrow> duration" where
  "time_sub a b = max min_int64 (min max_int64 (a - b))"

text \<open>\<^verbatim>\<open>Duration.Milliseconds\<close> truncates towards zero.\<close>

definition Milliseconds :: "duration \<Rightarrow> int" where
  "Milliseconds d = sgn d * (\<bar>d\<bar> div millisecond)"

lemma time_sub_less: "0 < w \<Longrightarrow> w \<le> max_int64 \<Longrightarrow> time_sub a b < w \<longleftrightarrow> a - b < w"
  by (auto simp: time_sub_def min_int64_def max_int64_def)

lemma time_sub_greater: "0 \<le> w \<Longrightarrow> w < max_int64 \<Longrightarrow> w < time_sub a b \<longleftrightarrow> w < a - b"
  by (auto simp: time_sub_def min_int64_def max_int64_def)

section \<open>Bytes and strings\<close>

abbreviation byte :: "char \<Rightarrow> nat" where "byte c \<equiv> of_char c"

definition is_digit :: "char \<Rightarrow> bool" where
  "is_digit c \<longleftrightarrow> 48 \<le> byte c \<and> byte c \<le> 57"

definition is_upper :: "char \<Rightarrow> bool" where
  "is_upper c \<longleftrightarrow> 65 \<le> byte c \<and> byte c \<le> 90"

definition is_lower :: "char \<Rightarrow> bool" where
  "is_lower c \<longleftrightarrow> 97 \<le> byte c \<and> byte c \<le> 122"

definition is_space :: "char \<Rightarrow> bool" where
  "is_space c \<longleftrightarrow> byte c = 32 \<or> 9 \<le> byte c \<and> byte c \<le> 13"

definition lower_char :: "char \<Rightarrow> char" where
  "lower_char c = (if is_upper c then char_of (byte c + 32) else c)"

definition upper_char :: "char \<Rightarrow> char" where
  "upper_char c = (if is_lower c then char_of (byte c - 32) else c)"

lemmas char_class_defs = is_digit_def is_upper_def is_lower_def is_space_def

definition ToLower :: "string \<Rightarrow> string" where "ToLower s = map lower_char s"
definition ToUpper :: "string \<Rightarrow> string" where "ToUpper s = map upper_char s"

definition EqualFold :: "string \<Rightarrow> string \<Rightarrow> bool" where
  "EqualFold a b \<longleftrightarrow> ToLower a = ToLower b"

definition TrimSpace :: "string \<Rightarrow> string" where
  "TrimSpace s = rev (dropWhile is_space (rev (dropWhile is_space s)))"

text \<open>Argument order as in Go: subject first.\<close>

definition HasPrefix :: "'a list \<Rightarrow> 'a list \<Rightarrow> bool" where
  "HasPrefix s p \<longleftrightarrow> take (length p) s = p"

definition HasSuffix :: "'a list \<Rightarrow> 'a list \<Rightarrow> bool" where
  "HasSuffix s p \<longleftrightarrow> HasPrefix (rev s) (rev p)"

fun Contains :: "'a list \<Rightarrow> 'a list \<Rightarrow> bool" where
  "Contains [] sub \<longleftrightarrow> sub = []"
| "Contains (c # s) sub \<longleftrightarrow> HasPrefix (c # s) sub \<or> Contains s sub"

definition TrimPrefix :: "string \<Rightarrow> string \<Rightarrow> string" where
  "TrimPrefix s p = (if HasPrefix s p then drop (length p) s else s)"

definition TrimSuffix :: "string \<Rightarrow> string \<Rightarrow> string" where
  "TrimSuffix s p = (if HasSuffix s p then take (length s - length p) s else s)"

fun Join :: "string list \<Rightarrow> string \<Rightarrow> string" where
  "Join [] sep = []"
| "Join [s] sep = s"
| "Join (s # t # ts) sep = s @ sep @ Join (t # ts) sep"

text \<open>\<^verbatim>\<open>strings.Split\<close> on a one-byte separator.\<close>

fun SplitByte :: "string \<Rightarrow> char \<Rightarrow> string list" where
  "SplitByte [] d = [[]]"
| "SplitByte (c # s) d =
     (if c = d then [] # SplitByte s d
      else (case SplitByte s d of [] \<Rightarrow> [[c]] | w # ws \<Rightarrow> (c # w) # ws))"

lemma SplitByte_nonempty: "SplitByte s d \<noteq> []"
  by (induction s d rule: SplitByte.induct) (auto split: list.splits)

lemma SplitByte_none: "d \<notin> set s \<Longrightarrow> SplitByte s d = [s]"
  by (induction s d rule: SplitByte.induct) auto

lemma SplitByte_append_line: "SplitByte (s @ d # t) d = SplitByte s d @ SplitByte t d"
  by (induction s d rule: SplitByte.induct) (auto simp: SplitByte_nonempty split: list.splits)

text \<open>\<^verbatim>\<open>strings.IndexByte\<close>, with \<open>None\<close> for \<open>-1\<close>.\<close>

fun IndexByte :: "string \<Rightarrow> char \<Rightarrow> nat option" where
  "IndexByte [] d = None"
| "IndexByte (c # s) d = (if c = d then Some 0 else map_option Suc (IndexByte s d))"

text \<open>\<^verbatim>\<open>strings.ReplaceAll\<close> of a one-byte pattern.\<close>

definition ReplaceByte :: "string \<Rightarrow> char \<Rightarrow> string \<Rightarrow> string" where
  "ReplaceByte s d r = concat (map (\<lambda>c. if c = d then r else [c]) s)"

lemma HasPrefix_append [simp]: "HasPrefix (p @ s) p"
  by (simp add: HasPrefix_def)

lemma HasPrefix_Nil [simp]: "HasPrefix s []"
  by (simp add: HasPrefix_def)

lemma HasPrefix_Cons [simp]: "HasPrefix (a # s) (b # p) \<longleftrightarrow> a = b \<and> HasPrefix s p"
  by (auto simp: HasPrefix_def)

lemma HasPrefix_Nil_Cons [simp]: "\<not> HasPrefix [] (b # p)"
  by (simp add: HasPrefix_def)

lemma HasPrefix_iff: "HasPrefix s p \<longleftrightarrow> (\<exists>t. s = p @ t)"
  by (metis HasPrefix_def HasPrefix_append append_take_drop_id)

lemma HasSuffix_iff: "HasSuffix s p \<longleftrightarrow> (\<exists>t. s = t @ p)"
proof -
  have "HasSuffix s p \<longleftrightarrow> (\<exists>t. rev s = rev p @ t)"
    by (simp add: HasSuffix_def HasPrefix_iff)
  also have "\<dots> \<longleftrightarrow> (\<exists>t. s = t @ p)"
    by (metis rev_append rev_rev_ident)
  finally show ?thesis .
qed

lemma Contains_iff: "Contains s sub \<longleftrightarrow> (\<exists>a b. s = a @ sub @ b)"
proof (induction s)
  case Nil
  then show ?case by auto
next
  case (Cons c s)
  have "(\<exists>a b. c # s = a @ sub @ b) \<longleftrightarrow> (\<exists>b. c # s = sub @ b) \<or> (\<exists>a b. s = a @ sub @ b)"
    by (metis append_Cons append_Nil list.inject neq_Nil_conv)
  then show ?case using Cons by (simp add: HasPrefix_iff)
qed

lemma lower_char_idem [simp]: "lower_char (lower_char c) = lower_char c"
  by (auto simp: lower_char_def is_upper_def)

lemma ToLower_idem [simp]: "ToLower (ToLower s) = ToLower s"
  by (simp add: ToLower_def)

lemma is_space_lower_char [simp]: "is_space (lower_char c) = is_space c"
  by (auto simp: lower_char_def char_class_defs)

lemma dropWhile_ToLower: "dropWhile is_space (ToLower s) = ToLower (dropWhile is_space s)"
  by (induction s) (auto simp: ToLower_def)

lemma rev_ToLower: "rev (ToLower s) = ToLower (rev s)"
  by (simp add: ToLower_def rev_map)

lemma TrimSpace_ToLower: "TrimSpace (ToLower s) = ToLower (TrimSpace s)"
  by (simp add: TrimSpace_def dropWhile_ToLower rev_ToLower)

lemma dropWhile_rev_dropWhile:
  "dropWhile P (rev (dropWhile P (rev (dropWhile P s)))) = rev (dropWhile P (rev (dropWhile P s)))"
proof -
  define u where "u = dropWhile P s"
  define v where "v = rev (dropWhile P (rev u))"
  have "u = v @ rev (takeWhile P (rev u))"
    unfolding v_def by (metis rev_append rev_rev_ident takeWhile_dropWhile_id)
  then have pre: "v = [] \<or> hd v = hd u"
    by (metis hd_append2)
  have "u = [] \<or> \<not> P (hd u)"
    unfolding u_def using hd_dropWhile by blast
  then have "v = [] \<or> \<not> P (hd v)"
    using pre v_def by fastforce
  then have "dropWhile P v = v"
    by (cases v) auto
  then show ?thesis unfolding v_def u_def by simp
qed

lemma TrimSpace_idem [simp]: "TrimSpace (TrimSpace s) = TrimSpace s"
proof -
  have "rev (dropWhile is_space (rev (TrimSpace s))) = TrimSpace s"
    by (simp add: TrimSpace_def dropWhile_idem)
  moreover have "dropWhile is_space (TrimSpace s) = TrimSpace s"
    by (simp add: TrimSpace_def dropWhile_rev_dropWhile)
  ultimately show ?thesis by (metis TrimSpace_def)
qed

lemma TrimSpace_ends: "s \<noteq> [] \<Longrightarrow> \<not> is_space (hd s) \<Longrightarrow> \<not> is_space (last s) \<Longrightarrow> TrimSpace s = s"
proof -
  assume s: "s \<noteq> []" "\<not> is_space (hd s)" "\<not> is_space (last s)"
  have "dropWhile is_space s = s" using s by (cases s) auto
  moreover have "dropWhile is_space (rev s) = rev s"
    using s by (cases "rev s") (auto simp flip: hd_rev)
  ultimately show ?thesis by (simp add: TrimSpace_def)
qed

section \<open>Decimal numerals\<close>

text \<open>\<^verbatim>\<open>strconv.Itoa\<close> and the digits of a \<^verbatim>\<open>%d\<close> verb.\<close>

definition digit_char :: "nat \<Rightarrow> char" where "digit_char d = char_of (48 + d)"
definition digit_val :: "char \<Rightarrow> nat" where "digit_val c = byte c - 48"

fun nat_digits :: "nat \<Rightarrow> string" where
  "nat_digits n = (if n < 10 then [digit_char n] else nat_digits (n div 10) @ [digit_char (n mod 10)])"

declare nat_digits.simps [simp del]

definition Itoa :: "int \<Rightarrow> string" where
  "Itoa i = (if i < 0 then CHR ''-'' # nat_digits (nat (- i)) else nat_digits (nat i))"

fun digits_val :: "nat \<Rightarrow> string \<Rightarrow> nat" where
  "digits_val acc [] = acc"
| "digits_val acc (c # s) = digits_val (10 * acc + digit_val c) s"

text \<open>
  \<^verbatim>\<open>strconv.Atoi\<close>: an optional sign, then at least one digit, in the range of a 64-bit
  integer; \<open>None\<close> is the error return.
\<close>

definition Atoi :: "string \<Rightarrow> int option" where
  "Atoi s =
     (let neg = (s \<noteq> [] \<and> hd s = CHR ''-'');
          ds = (if s \<noteq> [] \<and> (hd s = CHR ''-'' \<or> hd s = CHR ''+'') then tl s else s)
      in if ds = [] \<or> \<not> list_all is_digit ds then None
         else (let v = (if neg then - int (digits_val 0 ds) else int (digits_val 0 ds))
               in if min_int64 \<le> v \<and> v \<le> max_int64 then Some v else None))"

lemma is_digit_digit_char [simp]: "d < 10 \<Longrightarrow> is_digit (digit_char d)"
  by (simp add: is_digit_def digit_char_def)

lemma digit_val_digit_char [simp]: "d < 10 \<Longrightarrow> digit_val (digit_char d) = d"
  by (simp add: digit_val_def digit_char_def)

lemma nat_digits_nonempty [simp]: "nat_digits n \<noteq> []"
  by (subst nat_digits.simps) simp

lemma nat_digits_all_digits: "list_all is_digit (nat_digits n)"
proof (induction n rule: nat_digits.induct)
  case (1 n)
  then show ?case by (subst nat_digits.simps) (auto simp: list_all_append)
qed

lemma digits_val_append: "digits_val acc (s @ t) = digits_val (digits_val acc s) t"
  by (induction s arbitrary: acc) auto

lemma digits_val_nat_digits [simp]: "digits_val 0 (nat_digits n) = n"
proof (induction n rule: nat_digits.induct)
  case (1 n)
  show ?case
  proof (cases "n < 10")
    case True
    then show ?thesis by (subst nat_digits.simps) simp
  next
    case False
    with "1.IH" have "digits_val 0 (nat_digits (n div 10)) = n div 10" by simp
    with False show ?thesis
      by (subst nat_digits.simps) (simp add: digits_val_append)
  qed
qed

lemma hd_nat_digits_digit: "is_digit (hd (nat_digits n))"
  using nat_digits_all_digits [of n] nat_digits_nonempty [of n]
  by (cases "nat_digits n") auto

lemma Atoi_Itoa: "min_int64 \<le> i \<Longrightarrow> i \<le> max_int64 \<Longrightarrow> Atoi (Itoa i) = Some i"
proof -
  assume r: "min_int64 \<le> i" "i \<le> max_int64"
  have "\<not> is_digit (CHR ''-'')" "\<not> is_digit (CHR ''+'')"
    by (simp_all add: is_digit_def)
  then have sign: "hd (nat_digits n) \<noteq> CHR ''-'' \<and> hd (nat_digits n) \<noteq> CHR ''+''" for n
    by (metis hd_nat_digits_digit)
  show "Atoi (Itoa i) = Some i"
    using r sign by (auto simp: Atoi_def Itoa_def nat_digits_all_digits Let_def)
qed

section \<open>Maps\<close>

type_synonym ('k, 'v) gomap = "('k \<times> 'v) list"

definition gput :: "'k \<Rightarrow> 'v \<Rightarrow> ('k, 'v) gomap \<Rightarrow> ('k, 'v) gomap" where
  "gput k v m = AList.update k v m"

definition gdel :: "'k \<Rightarrow> ('k, 'v) gomap \<Rightarrow> ('k, 'v) gomap" where
  "gdel k m = AList.delete k m"

abbreviation gkeys :: "('k, 'v) gomap \<Rightarrow> 'k list" where "gkeys m \<equiv> map fst m"

text \<open>Reading a missing key of a Go map gives the zero value of the element type.\<close>

definition gget :: "'v \<Rightarrow> ('k, 'v) gomap \<Rightarrow> 'k \<Rightarrow> 'v" where
  "gget z m k = (case map_of m k of None \<Rightarrow> z | Some v \<Rightarrow> v)"

lemma map_of_gput [simp, gomap]: "map_of (gput k v m) k' = (if k' = k then Some v else map_of m k')"
  by (simp add: gput_def update_conv)

lemma map_of_gdel [simp, gomap]: "map_of (gdel k m) k' = (if k' = k then None else map_of m k')"
  by (simp add: gdel_def delete_conv')

lemma gget_gput [simp, gomap]: "gget z (gput k v m) k' = (if k' = k then v else gget z m k')"
  by (simp add: gget_def)

lemma distinct_gput [simp, intro]: "distinct (gkeys m) \<Longrightarrow> distinct (gkeys (gput k v m))"
  by (simp add: gput_def distinct_update)

lemma distinct_gdel [simp, intro]: "distinct (gkeys m) \<Longrightarrow> distinct (gkeys (gdel k m))"
  by (simp add: gdel_def distinct_delete)

lemma gkeys_gput [gomap]: "set (gkeys (gput k v m)) = insert k (set (gkeys m))"
  unfolding gput_def by (metis dom_map_of_conv_image_fst dom_update list.set_map update_conv' dom_fun_upd option.distinct(1))

lemma length_gput [gomap]:
  "length (gput k v m) = (if k \<in> set (gkeys m) then length m else Suc (length m))"
  unfolding gput_def by (induction m) (auto simp: image_iff)

lemma length_gdel_le: "length (gdel k m) \<le> length m"
  unfolding gdel_def by (rule length_delete_le)

lemma length_gdel [gomap]:
  "distinct (gkeys m) \<Longrightarrow> k \<in> set (gkeys m) \<Longrightarrow> Suc (length (gdel k m)) = length m"
proof (induction m)
  case (Cons p m)
  then show ?case
    by (cases p) (auto simp: gdel_def)
qed simp

end
