(* ===== verification/GC_Expr.thy ===== *)
theory GC_Expr
  imports GC_Prelude
begin

text \<open>
  The evaluator of rule expressions, the first half of \<^verbatim>\<open>internal/rules/expr.go\<close>: the
  fact bag, the syntax tree, \<^verbatim>\<open>eval\<close> on every node, \<^verbatim>\<open>cmpEval\<close> and
  \<^verbatim>\<open>equalAny\<close>. The engine of package \<^verbatim>\<open>regexp\<close> is the parameter \<open>rx\<close>:
  \<open>rx p\<close> is \<open>None\<close> where \<^verbatim>\<open>regexp.Compile\<close> fails and the matcher otherwise.
  The last section gives expressions a static type and shows that a well-typed expression
  evaluates without an error.
\<close>

section \<open>Values, facts, syntax\<close>

text \<open>The dynamic types that a Go \<^verbatim>\<open>any\<close> takes in the evaluator.\<close>

datatype goval = VStr string | VInt int | VBool bool | VList "goval list"

record EventFacts =
  facts_RuleID :: string
  facts_Tactic :: string
  facts_Confidence :: int
  facts_Severity :: string
  facts_KillChainPhase :: string
  facts_EntityPath :: string
  facts_EntityID :: string
  facts_Comm :: string
  facts_UID :: int
  facts_EUID :: int
  facts_ContainerRuntime :: string
  facts_Signals :: "string list"
  facts_Techniques :: "string list"

definition zero_EventFacts :: EventFacts where
  "zero_EventFacts = \<lparr>facts_RuleID = [], facts_Tactic = [], facts_Confidence = 0,
     facts_Severity = [], facts_KillChainPhase = [], facts_EntityPath = [], facts_EntityID = [],
     facts_Comm = [], facts_UID = 0, facts_EUID = 0, facts_ContainerRuntime = [],
     facts_Signals = [], facts_Techniques = []\<rparr>"

record literalNode =
  lit_s :: string
  lit_n :: int
  lit_b :: bool
  lit_list :: "goval list"
  lit_hasStr :: bool
  lit_hasInt :: bool
  lit_hasBool :: bool
  lit_hasList :: bool

definition zero_literal :: literalNode where
  "zero_literal = \<lparr>lit_s = [], lit_n = 0, lit_b = False, lit_list = [], lit_hasStr = False,
     lit_hasInt = False, lit_hasBool = False, lit_hasList = False\<rparr>"

datatype node =
    LiteralNode literalNode
  | IdentNode string
  | BinOpNode string node node
  | NotNode node
  | CallNode string "node list"

definition StrLit :: "string \<Rightarrow> node" where
  "StrLit s = LiteralNode (zero_literal\<lparr>lit_s := s, lit_hasStr := True\<rparr>)"

definition IntLit :: "int \<Rightarrow> node" where
  "IntLit n = LiteralNode (zero_literal\<lparr>lit_n := n, lit_hasInt := True\<rparr>)"

definition BoolLit :: "bool \<Rightarrow> node" where
  "BoolLit b = LiteralNode (zero_literal\<lparr>lit_b := b, lit_hasBool := True\<rparr>)"

definition ListLit :: "goval list \<Rightarrow> node" where
  "ListLit vs = LiteralNode (zero_literal\<lparr>lit_list := vs, lit_hasList := True\<rparr>)"

lemmas literal_defs = StrLit_def IntLit_def BoolLit_def ListLit_def zero_literal_def

datatype eval_error =
    EmptyLiteral
  | UnknownIdent string
  | LhsNotBool string
  | RhsNotBool string
  | NotNeedsBool
  | WrongArity string
  | ArgNotString string
  | BadRegexp string
  | UnknownFunction string
  | CmpNeedsInts
  | ContainsOperands
  | MatchesOperands
  | InNeedsList
  | UnknownOp string
  | NotBoolean

type_synonym regexp = "string \<Rightarrow> (string \<Rightarrow> bool) option"

section \<open>Evaluation\<close>

fun toBool :: "goval \<Rightarrow> bool option" where
  "toBool (VBool b) = Some b"
| "toBool _ = None"

fun toInt :: "goval \<Rightarrow> int option" where
  "toInt (VInt i) = Some i"
| "toInt _ = None"

fun toStr :: "goval \<Rightarrow> string option" where
  "toStr (VStr s) = Some s"
| "toStr _ = None"

text \<open>Comparing two lists, or values of different types, is false.\<close>

fun equalAny :: "goval \<Rightarrow> goval \<Rightarrow> bool" where
  "equalAny (VStr a) (VStr b) \<longleftrightarrow> a = b"
| "equalAny (VInt a) (VInt b) \<longleftrightarrow> a = b"
| "equalAny (VBool a) (VBool b) \<longleftrightarrow> a = b"
| "equalAny _ _ \<longleftrightarrow> False"

definition literal_eval :: "literalNode \<Rightarrow> eval_error + goval" where
  "literal_eval l =
     (if lit_hasStr l then Inr (VStr (lit_s l))
      else if lit_hasInt l then Inr (VInt (lit_n l))
      else if lit_hasBool l then Inr (VBool (lit_b l))
      else if lit_hasList l then Inr (VList (lit_list l))
      else Inl EmptyLiteral)"

definition ident_eval :: "EventFacts \<Rightarrow> string \<Rightarrow> eval_error + goval" where
  "ident_eval f name =
     (if name = ''rule_id'' then Inr (VStr (facts_RuleID f))
      else if name = ''tactic'' then Inr (VStr (facts_Tactic f))
      else if name = ''confidence'' then Inr (VInt (facts_Confidence f))
      else if name = ''severity'' then Inr (VStr (facts_Severity f))
      else if name = ''kill_chain_phase'' then Inr (VStr (facts_KillChainPhase f))
      else if name = ''entity_path'' then Inr (VStr (facts_EntityPath f))
      else if name = ''entity_id'' then Inr (VStr (facts_EntityID f))
      else if name = ''comm'' then Inr (VStr (facts_Comm f))
      else if name = ''uid'' then Inr (VInt (facts_UID f))
      else if name = ''euid'' then Inr (VInt (facts_EUID f))
      else if name = ''container_runtime'' then Inr (VStr (facts_ContainerRuntime f))
      else if name = ''signals'' then Inr (VList (map VStr (facts_Signals f)))
      else if name = ''techniques'' then Inr (VList (map VStr (facts_Techniques f)))
      else if name = ''true'' then Inr (VBool True)
      else if name = ''false'' then Inr (VBool False)
      else Inl (UnknownIdent name))"

definition int_cmp :: "string \<Rightarrow> int \<Rightarrow> int \<Rightarrow> bool" where
  "int_cmp op a b =
     (if op = ''<'' then a < b else if op = ''<='' then a \<le> b
      else if op = ''>'' then b < a else b \<le> a)"

definition cmpEval :: "regexp \<Rightarrow> string \<Rightarrow> goval \<Rightarrow> goval \<Rightarrow> eval_error + bool" where
  "cmpEval rx op a b =
     (if op = ''=='' then Inr (equalAny a b)
      else if op = ''!='' then Inr (\<not> equalAny a b)
      else if op \<in> {''<'', ''<='', ''>'', ''>=''} then
        (case (toInt a, toInt b) of
           (Some ai, Some bi) \<Rightarrow> Inr (int_cmp op ai bi)
         | _ \<Rightarrow> Inl CmpNeedsInts)
      else if op = ''contains'' then
        (case (a, b) of
           (VStr s, VStr t) \<Rightarrow> Inr (Contains s t)
         | (VList vs, _) \<Rightarrow> Inr (\<exists>v \<in> set vs. equalAny v b)
         | _ \<Rightarrow> Inl ContainsOperands)
      else if op = ''matches'' then
        (case (a, b) of
           (VStr s, VStr p) \<Rightarrow> (case rx p of None \<Rightarrow> Inl (BadRegexp p) | Some m \<Rightarrow> Inr (m s))
         | _ \<Rightarrow> Inl MatchesOperands)
      else if op = ''in'' then
        (case b of VList vs \<Rightarrow> Inr (\<exists>v \<in> set vs. equalAny v a) | _ \<Rightarrow> Inl InNeedsList)
      else Inl (UnknownOp op))"

definition signal_holds :: "EventFacts \<Rightarrow> string \<Rightarrow> bool" where
  "signal_holds f s \<longleftrightarrow> (\<exists>have \<in> set (facts_Signals f). have = s \<or> HasPrefix have (s @ '':''))"

fun eval :: "regexp \<Rightarrow> EventFacts \<Rightarrow> node \<Rightarrow> eval_error + goval" where
  "eval rx f (LiteralNode l) = literal_eval l"
| "eval rx f (IdentNode name) = ident_eval f name"
| "eval rx f (BinOpNode op a b) =
     (case eval rx f a of
        Inl e \<Rightarrow> Inl e
      | Inr l \<Rightarrow>
          if op = ''and'' then
            (case toBool l of
               None \<Rightarrow> Inl (LhsNotBool op)
             | Some False \<Rightarrow> Inr (VBool False)
             | Some True \<Rightarrow>
                 (case eval rx f b of
                    Inl e \<Rightarrow> Inl e
                  | Inr r \<Rightarrow> (case toBool r of None \<Rightarrow> Inl (RhsNotBool op) | Some rb \<Rightarrow> Inr (VBool rb))))
          else if op = ''or'' then
            (case toBool l of
               None \<Rightarrow> Inl (LhsNotBool op)
             | Some True \<Rightarrow> Inr (VBool True)
             | Some False \<Rightarrow>
                 (case eval rx f b of
                    Inl e \<Rightarrow> Inl e
                  | Inr r \<Rightarrow> (case toBool r of None \<Rightarrow> Inl (RhsNotBool op) | Some rb \<Rightarrow> Inr (VBool rb))))
          else
            (case eval rx f b of
               Inl e \<Rightarrow> Inl e
             | Inr r \<Rightarrow> (case cmpEval rx op l r of Inl e \<Rightarrow> Inl e | Inr c \<Rightarrow> Inr (VBool c))))"
| "eval rx f (NotNode n) =
     (case eval rx f n of
        Inl e \<Rightarrow> Inl e
      | Inr v \<Rightarrow> (case toBool v of None \<Rightarrow> Inl NotNeedsBool | Some b \<Rightarrow> Inr (VBool (\<not> b))))"
| "eval rx f (CallNode name args) =
     (if name = ''signal'' then
        (case args of
           [a] \<Rightarrow>
             (case eval rx f a of
                Inl e \<Rightarrow> Inl e
              | Inr v \<Rightarrow> (case toStr v of
                            None \<Rightarrow> Inl (ArgNotString name)
                          | Some s \<Rightarrow> Inr (VBool (signal_holds f s))))
         | _ \<Rightarrow> Inl (WrongArity name))
      else if name = ''matches'' then
        (case args of
           [a, b] \<Rightarrow>
             (case eval rx f a of
                Inl e \<Rightarrow> Inl e
              | Inr sv \<Rightarrow>
                  (case eval rx f b of
                     Inl e \<Rightarrow> Inl e
                   | Inr pv \<Rightarrow>
                       (case toStr sv of
                          None \<Rightarrow> Inl (ArgNotString name)
                        | Some s \<Rightarrow>
                            (case toStr pv of
                               None \<Rightarrow> Inl (ArgNotString name)
                             | Some p \<Rightarrow>
                                 (case rx p of
                                    None \<Rightarrow> Inl (BadRegexp p)
                                  | Some m \<Rightarrow> Inr (VBool (m s)))))))
         | _ \<Rightarrow> Inl (WrongArity name))
      else if name = ''technique'' then
        (case args of
           [a] \<Rightarrow>
             (case eval rx f a of
                Inl e \<Rightarrow> Inl e
              | Inr v \<Rightarrow> (case toStr v of
                            None \<Rightarrow> Inl (ArgNotString name)
                          | Some t \<Rightarrow> Inr (VBool (t \<in> set (facts_Techniques f)))))
         | _ \<Rightarrow> Inl (WrongArity name))
      else Inl (UnknownFunction name))"

record Expr =
  expr_node :: node
  expr_src :: string

definition Eval :: "regexp \<Rightarrow> Expr \<Rightarrow> EventFacts \<Rightarrow> eval_error + bool" where
  "Eval rx e f =
     (case eval rx f (expr_node e) of
        Inl err \<Rightarrow> Inl err
      | Inr v \<Rightarrow> (case toBool v of None \<Rightarrow> Inl NotBoolean | Some b \<Rightarrow> Inr b))"

lemma literal_eval_simps [simp]:
  "eval rx f (StrLit s) = Inr (VStr s)"
  "eval rx f (IntLit n) = Inr (VInt n)"
  "eval rx f (BoolLit b) = Inr (VBool b)"
  "eval rx f (ListLit vs) = Inr (VList vs)"
  by (simp_all add: literal_defs literal_eval_def)

section \<open>Static types\<close>

text \<open>
  The evaluator reports ill-typed operands at run time. The relation \<open>wt\<close> describes the
  expressions for which it cannot; \<open>TLst\<close> is the type of every list, since comparing an item
  with a value of another type is false and no error.
\<close>

datatype ty = TStr | TInt | TBool | TLst

fun has_ty :: "goval \<Rightarrow> ty \<Rightarrow> bool" where
  "has_ty (VStr _) t \<longleftrightarrow> t = TStr"
| "has_ty (VInt _) t \<longleftrightarrow> t = TInt"
| "has_ty (VBool _) t \<longleftrightarrow> t = TBool"
| "has_ty (VList _) t \<longleftrightarrow> t = TLst"

definition str_idents :: "string list" where
  "str_idents = [''rule_id'', ''tactic'', ''severity'', ''kill_chain_phase'', ''entity_path'',
     ''entity_id'', ''comm'', ''container_runtime'']"

definition ident_ty :: "string \<Rightarrow> ty option" where
  "ident_ty name =
     (if name \<in> set str_idents then Some TStr
      else if name \<in> {''confidence'', ''uid'', ''euid''} then Some TInt
      else if name \<in> {''signals'', ''techniques''} then Some TLst
      else if name \<in> {''true'', ''false''} then Some TBool
      else None)"

text \<open>The operand types a comparison accepts.\<close>

definition cmp_ok :: "string \<Rightarrow> ty \<Rightarrow> ty \<Rightarrow> bool" where
  "cmp_ok op s t \<longleftrightarrow>
     op \<in> {''=='', ''!=''}
   \<or> op \<in> {''<'', ''<='', ''>'', ''>=''} \<and> s = TInt \<and> t = TInt
   \<or> op = ''contains'' \<and> (s = TStr \<and> t = TStr \<or> s = TLst)
   \<or> op = ''in'' \<and> t = TLst"

inductive wt :: "regexp \<Rightarrow> node \<Rightarrow> ty \<Rightarrow> bool" for rx where
  wt_str: "wt rx (StrLit s) TStr"
| wt_int: "wt rx (IntLit n) TInt"
| wt_bool: "wt rx (BoolLit b) TBool"
| wt_list: "wt rx (ListLit vs) TLst"
| wt_ident: "ident_ty name = Some t \<Longrightarrow> wt rx (IdentNode name) t"
| wt_not: "wt rx n TBool \<Longrightarrow> wt rx (NotNode n) TBool"
| wt_logic: "op \<in> {''and'', ''or''} \<Longrightarrow> wt rx a TBool \<Longrightarrow> wt rx b TBool \<Longrightarrow>
     wt rx (BinOpNode op a b) TBool"
| wt_cmp: "cmp_ok op s t \<Longrightarrow> wt rx a s \<Longrightarrow> wt rx b t \<Longrightarrow> wt rx (BinOpNode op a b) TBool"
| wt_call: "name \<in> {''signal'', ''technique''} \<Longrightarrow> wt rx a TStr \<Longrightarrow> wt rx (CallNode name [a]) TBool"
| wt_matches: "rx p \<noteq> None \<Longrightarrow> wt rx a TStr \<Longrightarrow> wt rx (CallNode ''matches'' [a, StrLit p]) TBool"

lemma has_ty_cases:
  "has_ty v TStr \<longleftrightarrow> (\<exists>s. v = VStr s)"
  "has_ty v TInt \<longleftrightarrow> (\<exists>i. v = VInt i)"
  "has_ty v TBool \<longleftrightarrow> (\<exists>b. v = VBool b)"
  "has_ty v TLst \<longleftrightarrow> (\<exists>vs. v = VList vs)"
  by (cases v; auto)+

lemma ident_eval_ty:
  assumes "ident_ty name = Some t"
  shows "\<exists>v. ident_eval f name = Inr v \<and> has_ty v t"
proof -
  have "name \<in> set (str_idents @ [''confidence'', ''uid'', ''euid'', ''signals'', ''techniques'',
      ''true'', ''false''])"
    using assms unfolding ident_ty_def
    by (simp only: set_append Un_iff list.set insert_iff empty_iff split: if_splits)
      ((simp; fail) | (elim disjE; simp))+
  then show ?thesis
    using assms unfolding str_idents_def append.simps list.set insert_iff empty_iff
    by (elim disjE; simp add: ident_ty_def ident_eval_def str_idents_def)
qed

lemma cmpEval_ok:
  assumes "cmp_ok op s t" and "has_ty a s" and "has_ty b t"
  shows "\<exists>c. cmpEval rx op a b = Inr c"
  using assms unfolding cmp_ok_def insert_iff empty_iff
  by (elim disjE conjE; simp add: cmpEval_def has_ty_cases; elim exE; simp)

lemma cmp_ok_not_logic: "cmp_ok op s t \<Longrightarrow> op \<noteq> ''and'' \<and> op \<noteq> ''or''"
  by (rule conjI; rule notI; simp add: cmp_ok_def)

lemma wt_eval: "wt rx n t \<Longrightarrow> \<exists>v. eval rx f n = Inr v \<and> has_ty v t"
proof (induction rule: wt.induct)
  case (wt_ident name t)
  then show ?case by (simp add: ident_eval_ty)
next
  case (wt_logic op a b)
  then show ?case by (auto simp: has_ty_cases split: bool.split)
next
  case (wt_cmp op s t a b)
  then obtain va vb where "eval rx f a = Inr va" "has_ty va s" "eval rx f b = Inr vb" "has_ty vb t"
    by blast
  moreover from this obtain c where "cmpEval rx op va vb = Inr c"
    using cmpEval_ok [OF wt_cmp.hyps(1)] by blast
  ultimately show ?case
    using cmp_ok_not_logic [OF wt_cmp.hyps(1)] by simp
qed (auto simp: has_ty_cases)

section \<open>Correctness\<close>

text \<open>
  C19. Expressions that pass the static types evaluate: on any facts a well-typed expression gives
  a value of its type, so a well-typed boolean expression never makes \<^verbatim>\<open>Eval\<close> fail.
\<close>

theorem eval_type_sound:
  assumes "wt rx n t"
  shows "(\<exists>v. eval rx f n = Inr v \<and> has_ty v t) \<and> (t = TBool \<longrightarrow> (\<exists>b. Eval rx \<lparr>expr_node = n, expr_src = s\<rparr> f = Inr b))"
proof -
  obtain v where v: "eval rx f n = Inr v" "has_ty v t" using wt_eval [OF assms] by blast
  then show ?thesis by (cases v) (auto simp: Eval_def)
qed

theorem eval_type_sound_witness:
  "\<exists>b. Eval (\<lambda>p. None) \<lparr>expr_node = BinOpNode ''and'' (BinOpNode ''>='' (IdentNode ''confidence'') (IntLit 70))
      (CallNode ''signal'' [StrLit ''suid'']), expr_src = []\<rparr> zero_EventFacts = Inr b"
  using eval_type_sound [where f = zero_EventFacts and s = "[]" and t = TBool,
      OF wt_logic [OF _ wt_cmp [OF _ wt_ident wt_int] wt_call [OF _ wt_str]]]
  by (simp add: cmp_ok_def ident_ty_def str_idents_def)

end
