(* ===== verification/GC_Expr_Parse.thy ===== *)
theory GC_Expr_Parse
  imports GC_Expr
begin

text \<open>
  The lexer and the recursive-descent parser of \<^verbatim>\<open>internal/rules/expr.go\<close>. The parser
  state of the source, a token slice and a position, is the list of the tokens that remain;
  reading past its end gives the end-of-input token, as \<^verbatim>\<open>peek\<close> does. The recursion
  and the loops of the parser take a fuel argument; \<open>NoFuel\<close> is the result when it runs out.
  \<open>CompileExpr\<close> starts with one unit more than there are tokens, and
  \<open>parser_enough_fuel\<close> shows that this always suffices, since every step consumes a token.
\<close>

section \<open>Lexer\<close>

datatype tokKind =
    tokEOF | tokIdent | tokNum | tokStr | tokLP | tokRP | tokLB | tokRB | tokComma | tokOp

datatype token = Token (tok_kind: tokKind) (tok_val: string)

definition opSet :: "string list" where
  "opSet = [''=='', ''!='', ''<='', ''>='', ''<'', ''>'', ''contains'', ''in'', ''and'', ''or'',
     ''not'']"

definition is_ident_start :: "char \<Rightarrow> bool" where
  "is_ident_start c \<longleftrightarrow> is_lower c \<or> is_upper c \<or> c = CHR ''_''"

definition is_ident_char :: "char \<Rightarrow> bool" where
  "is_ident_char c \<longleftrightarrow> is_lower c \<or> is_upper c \<or> is_digit c \<or> c = CHR ''_''"

definition quote_char :: char where "quote_char = CHR 0x22"
definition backslash :: char where "backslash = CHR 0x5C"

text \<open>
  The body of a string literal, after its opening quote: the unescaped bytes and what follows
  the closing quote. An unterminated literal ends with the input.
\<close>

fun lexStr :: "string \<Rightarrow> string \<times> string" where
  "lexStr [] = ([], [])"
| "lexStr [c] = (if c = quote_char then ([], []) else ([c], []))"
| "lexStr (c # d # s) =
     (if c = quote_char then ([], d # s)
      else if c = backslash then (case lexStr s of (b, r) \<Rightarrow> (d # b, r))
      else (case lexStr (d # s) of (b, r) \<Rightarrow> (c # b, r)))"

lemma lexStr_length: "length (snd (lexStr s)) \<le> length s"
  by (induction s rule: lexStr.induct) (auto split: prod.splits)

function tokenize :: "string \<Rightarrow> token list" where
  "tokenize [] = [Token tokEOF []]"
| "tokenize (c # s) =
     (if c = CHR '' '' \<or> c = CHR 0x09 \<or> c = CHR 0x0A then tokenize s
      else if c = CHR ''('' then Token tokLP ''('' # tokenize s
      else if c = CHR '')'' then Token tokRP '')'' # tokenize s
      else if c = CHR ''['' then Token tokLB ''['' # tokenize s
      else if c = CHR '']'' then Token tokRB '']'' # tokenize s
      else if c = CHR '','' then Token tokComma '','' # tokenize s
      else if c = quote_char then Token tokStr (fst (lexStr s)) # tokenize (snd (lexStr s))
      else if is_digit c then
        Token tokNum (c # takeWhile is_digit s) # tokenize (dropWhile is_digit s)
      else if is_ident_start c then
        (let word = c # takeWhile is_ident_char s
         in Token (if word \<in> set opSet then tokOp else tokIdent) word
              # tokenize (dropWhile is_ident_char s))
      else if s \<noteq> [] \<and> [c, hd s] \<in> set opSet then Token tokOp [c, hd s] # tokenize (tl s)
      else if c = CHR ''<'' \<or> c = CHR ''>'' then Token tokOp [c] # tokenize s
      else tokenize s)"
  by pat_completeness auto
termination
  by (relation "measure length")
     (auto simp: less_Suc_eq_le lexStr_length length_dropWhile_le)

section \<open>Parser\<close>

datatype parse_error =
    TrailingToken string
  | ExpectedTok tokKind string
  | NumberRange string
  | UnexpectedTok string
  | ListElement string

datatype 'a presult = NoFuel | PErr parse_error | POk 'a "token list"

fun pbind :: "'a presult \<Rightarrow> ('a \<Rightarrow> token list \<Rightarrow> 'b presult) \<Rightarrow> 'b presult" where
  "pbind NoFuel f = NoFuel"
| "pbind (PErr e) f = PErr e"
| "pbind (POk x ts) f = f x ts"

definition peek :: "token list \<Rightarrow> token" where
  "peek ts = (case ts of [] \<Rightarrow> Token tokEOF [] | t # _ \<Rightarrow> t)"

definition expect :: "tokKind \<Rightarrow> token list \<Rightarrow> token presult" where
  "expect k ts =
     (let t = peek ts
      in if tok_kind t \<noteq> k then PErr (ExpectedTok k (tok_val t)) else POk t (tl ts))"

abbreviation at_op :: "string \<Rightarrow> token list \<Rightarrow> bool" where
  "at_op op ts \<equiv> peek ts = Token tokOp op"

definition cmp_ops :: "string list" where
  "cmp_ops = [''=='', ''!='', ''<='', ''>='', ''<'', ''>'', ''contains'', ''in'']"

definition at_cmp :: "token list \<Rightarrow> bool" where
  "at_cmp ts \<longleftrightarrow> tok_kind (peek ts) = tokOp \<and> tok_val (peek ts) \<in> set cmp_ops"

definition list_item :: "token \<Rightarrow> parse_error + goval" where
  "list_item t =
     (case tok_kind t of
        tokStr \<Rightarrow> Inr (VStr (tok_val t))
      | tokNum \<Rightarrow> (case Atoi (tok_val t) of None \<Rightarrow> Inl (NumberRange (tok_val t)) | Some v \<Rightarrow> Inr (VInt v))
      | _ \<Rightarrow> Inl (ListElement (tok_val t)))"

function parseItems :: "token list \<Rightarrow> goval list presult" where
  "parseItems ts =
     (case list_item (peek ts) of
        Inl e \<Rightarrow> PErr e
      | Inr v \<Rightarrow>
          if tok_kind (peek (tl ts)) = tokComma
          then pbind (parseItems (tl (tl ts))) (\<lambda>vs r. POk (v # vs) r)
          else pbind (expect tokRB (tl ts)) (\<lambda>_ r. POk [v] r))"
  by pat_completeness auto
termination
  by (relation "measure length") (auto simp: peek_def split: list.splits)

declare parseItems.simps [simp del]

definition parseList :: "token list \<Rightarrow> goval list presult" where
  "parseList ts = (if tok_kind (peek ts) = tokRB then POk [] (tl ts) else parseItems ts)"

text \<open>
  The grammar is recursive through \<^verbatim>\<open>parseDisj\<close> only, which \<^verbatim>\<open>parsePrimary\<close> calls
  for a parenthesis and for each call argument. Each lower level therefore takes it as the
  argument \<open>d\<close>, and \<open>parseDisj\<close> passes itself with one unit of fuel less.
\<close>

type_synonym 'a parse = "token list \<Rightarrow> 'a presult"

fun argsLoop :: "node parse \<Rightarrow> nat \<Rightarrow> node list parse" where
  "argsLoop d 0 ts = NoFuel"
| "argsLoop d (Suc k) ts =
     pbind (d ts) (\<lambda>a r.
       if tok_kind (peek r) = tokComma then pbind (argsLoop d k (tl r)) (\<lambda>as. POk (a # as))
       else POk [a] r)"

definition parsePrimary :: "node parse \<Rightarrow> nat \<Rightarrow> node parse" where
  "parsePrimary d k ts =
     (let t = peek ts; r = tl ts
      in case tok_kind t of
           tokStr \<Rightarrow> POk (StrLit (tok_val t)) r
         | tokNum \<Rightarrow> (case Atoi (tok_val t) of
                        None \<Rightarrow> PErr (NumberRange (tok_val t))
                      | Some v \<Rightarrow> POk (IntLit v) r)
         | tokLP \<Rightarrow> pbind (d r) (\<lambda>n r'. pbind (expect tokRP r') (\<lambda>_. POk n))
         | tokLB \<Rightarrow> pbind (parseList r) (\<lambda>vs. POk (ListLit vs))
         | tokIdent \<Rightarrow>
             if tok_kind (peek r) = tokLP then
               pbind (if tok_kind (peek (tl r)) \<noteq> tokRP then argsLoop d k (tl r) else POk [] (tl r))
                 (\<lambda>args r'. pbind (expect tokRP r') (\<lambda>_. POk (CallNode (tok_val t) args)))
             else POk (IdentNode (tok_val t)) r
         | _ \<Rightarrow> PErr (UnexpectedTok (tok_val t)))"

definition parseUnary :: "node parse \<Rightarrow> nat \<Rightarrow> node parse" where
  "parseUnary d k ts =
     (if at_op ''not'' ts
      then pbind (parsePrimary d k (tl ts)) (\<lambda>sub. POk (NotNode sub))
      else parsePrimary d k ts)"

definition parseCmp :: "node parse \<Rightarrow> nat \<Rightarrow> node parse" where
  "parseCmp d k ts =
     pbind (parseUnary d k ts) (\<lambda>n ts'.
       if at_cmp ts'
       then pbind (parseUnary d k (tl ts')) (\<lambda>r. POk (BinOpNode (tok_val (peek ts')) n r))
       else POk n ts')"

fun conjLoop :: "node parse \<Rightarrow> nat \<Rightarrow> nat \<Rightarrow> node \<Rightarrow> node parse" where
  "conjLoop d k 0 n ts = NoFuel"
| "conjLoop d k (Suc i) n ts =
     (if at_op ''and'' ts
      then pbind (parseCmp d k (tl ts)) (\<lambda>r. conjLoop d k i (BinOpNode ''and'' n r))
      else POk n ts)"

definition parseConj :: "node parse \<Rightarrow> nat \<Rightarrow> node parse" where
  "parseConj d k ts = pbind (parseCmp d k ts) (conjLoop d k k)"

fun disjLoop :: "node parse \<Rightarrow> nat \<Rightarrow> nat \<Rightarrow> node \<Rightarrow> node parse" where
  "disjLoop d k 0 n ts = NoFuel"
| "disjLoop d k (Suc i) n ts =
     (if at_op ''or'' ts
      then pbind (parseConj d k (tl ts)) (\<lambda>r. disjLoop d k i (BinOpNode ''or'' n r))
      else POk n ts)"

fun parseDisj :: "nat \<Rightarrow> node parse" where
  "parseDisj 0 ts = NoFuel"
| "parseDisj (Suc k) ts = pbind (parseConj (parseDisj k) k ts) (disjLoop (parseDisj k) k k)"

definition parse_fuel :: "token list \<Rightarrow> nat" where
  "parse_fuel ts = Suc (length ts)"

text \<open>The error of \<open>CompileExpr\<close>; the last alternative is unreachable (\<open>parser_enough_fuel\<close>).\<close>

definition CompileExpr :: "string \<Rightarrow> parse_error + Expr" where
  "CompileExpr src0 =
     (let src = TrimSpace src0
      in if src = [] then Inr \<lparr>expr_node = BoolLit True, expr_src = []\<rparr>
         else (let ts = tokenize src
               in case parseDisj (parse_fuel ts) ts of
                    PErr e \<Rightarrow> Inl e
                  | POk n r \<Rightarrow> (if tok_kind (peek r) \<noteq> tokEOF then Inl (TrailingToken (tok_val (peek r)))
                               else Inr \<lparr>expr_node = n, expr_src = src\<rparr>)
                  | NoFuel \<Rightarrow> Inl (UnexpectedTok [])))"

section \<open>The parser consumes its input and never runs out of fuel\<close>

lemma pbind_POk: "pbind m f = POk x r \<longleftrightarrow> (\<exists>y s. m = POk y s \<and> f y s = POk x r)"
  by (cases m) auto

lemma pbind_NoFuel: "pbind m f = NoFuel \<longleftrightarrow> m = NoFuel \<or> (\<exists>y s. m = POk y s \<and> f y s = NoFuel)"
  by (cases m) auto

lemma peek_Cons [simp]: "peek (t # ts) = t"
  by (simp add: peek_def)

lemma peek_Nil [simp]: "peek [] = Token tokEOF []"
  by (simp add: peek_def)

lemma length_tl_less: "tok_kind (peek ts) \<noteq> tokEOF \<Longrightarrow> length (tl ts) < length ts"
  by (cases ts) auto

lemma expect_consumes: "expect kd ts = POk t r \<Longrightarrow> kd \<noteq> tokEOF \<Longrightarrow> length r < length ts"
  using length_tl_less [of ts] by (auto simp: expect_def Let_def split: if_splits)

lemma expect_fuel [simp]: "expect kd ts \<noteq> NoFuel"
  by (simp add: expect_def Let_def)

lemma parseItems_consumes: "parseItems ts = POk vs r \<Longrightarrow> length r < length ts"
proof (induction ts arbitrary: vs r rule: parseItems.induct)
  case (1 ts)
  from "1.prems" obtain v where v: "list_item (peek ts) = Inr v"
    by (subst (asm) parseItems.simps) (auto split: sum.splits)
  then have ts: "length (tl ts) < length ts"
    by (intro length_tl_less) (auto simp: list_item_def)
  show ?case
  proof (cases "tok_kind (peek (tl ts)) = tokComma")
    case True
    then obtain ws where "parseItems (tl (tl ts)) = POk ws r"
      using "1.prems" v by (subst (asm) parseItems.simps) (auto simp: pbind_POk)
    from "1.IH" [OF v True this] ts show ?thesis by simp
  next
    case False
    then show ?thesis
      using "1.prems" v ts by (subst (asm) parseItems.simps) (auto simp: pbind_POk dest!: expect_consumes)
  qed
qed

lemma parseItems_fuel: "parseItems ts \<noteq> NoFuel"
proof (induction ts rule: parseItems.induct)
  case (1 ts)
  then show ?case
    by (subst parseItems.simps) (auto simp: pbind_NoFuel split: sum.splits)
qed

lemma parseList_consumes: "parseList ts = POk vs r \<Longrightarrow> length r < length ts"
  using length_tl_less [of ts] by (auto simp: parseList_def parseItems_consumes split: if_splits)

lemma parseList_fuel [simp]: "parseList ts \<noteq> NoFuel"
  by (simp add: parseList_def parseItems_fuel)

text \<open>
  What the lower levels of the grammar rely on: the parser they are given for a parenthesised
  expression consumes input, and has fuel for every input shorter than \<open>K\<close>.
\<close>

locale descent =
  fixes d :: "node parse" and K :: nat
  assumes d_consumes: "d ts = POk n r \<Longrightarrow> length r < length ts"
    and d_fuel: "length ts < K \<Longrightarrow> d ts \<noteq> NoFuel"
begin

lemma argsLoop_consumes: "argsLoop d i ts = POk as r \<Longrightarrow> length r < length ts"
proof (induction i arbitrary: ts as r)
  case (Suc i)
  then obtain a u where a: "d ts = POk a u"
    by (auto simp: pbind_POk)
  with Suc show ?case
    using d_consumes [OF a] by (fastforce simp: pbind_POk split: if_splits)
qed simp

lemma argsLoop_fuel: "length ts < i \<Longrightarrow> length ts < K \<Longrightarrow> argsLoop d i ts \<noteq> NoFuel"
proof (induction i arbitrary: ts)
  case (Suc i)
  have "argsLoop d i (tl u) \<noteq> NoFuel" if "d ts = POk a u" for a u
    using Suc d_consumes [OF that] by (intro Suc.IH) auto
  then show ?case
    using d_fuel [OF Suc.prems(2)] by (auto simp: pbind_NoFuel)
qed simp

lemma parsePrimary_consumes: "parsePrimary d k ts = POk n r \<Longrightarrow> length r < length ts"
proof -
  assume r: "parsePrimary d k ts = POk n r"
  then have "tok_kind (peek ts) \<noteq> tokEOF"
    by (auto simp: parsePrimary_def Let_def)
  then have "length (tl ts) < length ts" by (rule length_tl_less)
  moreover have "length r \<le> length (tl ts)"
    using r
    by (auto simp: parsePrimary_def Let_def pbind_POk split: tokKind.splits option.splits if_splits
        dest!: d_consumes argsLoop_consumes expect_consumes parseList_consumes)
  ultimately show ?thesis by simp
qed

lemma parsePrimary_fuel: "length ts \<le> K \<Longrightarrow> parsePrimary d K ts \<noteq> NoFuel"
proof -
  assume le: "length ts \<le> K"
  have d: "d (tl ts) \<noteq> NoFuel" if "tok_kind (peek ts) \<noteq> tokEOF"
    using length_tl_less [OF that] le by (intro d_fuel) simp
  have a: "argsLoop d K (tl (tl ts)) \<noteq> NoFuel" if "tok_kind (peek ts) \<noteq> tokEOF"
    using length_tl_less [OF that] le by (intro argsLoop_fuel) auto
  show ?thesis
    using d a by (auto simp: parsePrimary_def Let_def pbind_NoFuel split: tokKind.splits option.splits)
qed

lemma parseUnary_consumes: "parseUnary d k ts = POk n r \<Longrightarrow> length r < length ts"
  by (auto simp: parseUnary_def pbind_POk split: if_splits dest!: parsePrimary_consumes)

lemma parseUnary_fuel: "length ts \<le> K \<Longrightarrow> parseUnary d K ts \<noteq> NoFuel"
  by (auto simp: parseUnary_def pbind_NoFuel parsePrimary_fuel)

lemma parseCmp_consumes: "parseCmp d k ts = POk n r \<Longrightarrow> length r < length ts"
  by (auto simp: parseCmp_def pbind_POk split: if_splits dest!: parseUnary_consumes)

lemma parseCmp_fuel: "length ts \<le> K \<Longrightarrow> parseCmp d K ts \<noteq> NoFuel"
proof -
  assume le: "length ts \<le> K"
  have "parseUnary d K (tl u) \<noteq> NoFuel" if "parseUnary d K ts = POk m u" for m u
    using parseUnary_consumes [OF that] le by (intro parseUnary_fuel) simp
  then show ?thesis
    using parseUnary_fuel [OF le] by (auto simp: parseCmp_def pbind_NoFuel)
qed

lemma conjLoop_consumes: "conjLoop d k i n ts = POk m r \<Longrightarrow> length r \<le> length ts"
proof (induction i arbitrary: n ts)
  case (Suc i)
  show ?case
  proof (cases "at_op ''and'' ts")
    case True
    with Suc.prems obtain b u where "parseCmp d k (tl ts) = POk b u"
      and "conjLoop d k i (BinOpNode ''and'' n b) u = POk m r"
      by (auto simp: pbind_POk)
    then show ?thesis
      using parseCmp_consumes [of k "tl ts" b u] Suc.IH [of _ u] by fastforce
  next
    case False
    with Suc.prems show ?thesis by simp
  qed
qed simp

lemma conjLoop_fuel: "length ts < i \<Longrightarrow> length ts \<le> K \<Longrightarrow> conjLoop d K i n ts \<noteq> NoFuel"
proof (induction i arbitrary: n ts)
  case (Suc i)
  show ?case
  proof (cases "at_op ''and'' ts")
    case True
    then have tl: "length (tl ts) < length ts" by (intro length_tl_less) simp
    have "conjLoop d K i m u \<noteq> NoFuel" if "parseCmp d K (tl ts) = POk b u" for b u m
      using parseCmp_consumes [OF that] tl Suc.prems by (intro Suc.IH) auto
    then show ?thesis
      using True tl Suc.prems parseCmp_fuel [of "tl ts"] by (auto simp: pbind_NoFuel)
  qed simp
qed simp

lemma parseConj_consumes: "parseConj d k ts = POk n r \<Longrightarrow> length r < length ts"
  by (fastforce simp: parseConj_def pbind_POk dest: parseCmp_consumes conjLoop_consumes)

lemma parseConj_fuel: "length ts \<le> K \<Longrightarrow> parseConj d K ts \<noteq> NoFuel"
proof -
  assume le: "length ts \<le> K"
  have "conjLoop d K K m u \<noteq> NoFuel" if "parseCmp d K ts = POk m u" for m u
    using parseCmp_consumes [OF that] le by (intro conjLoop_fuel) auto
  then show ?thesis
    using parseCmp_fuel [OF le] by (auto simp: parseConj_def pbind_NoFuel)
qed

lemma disjLoop_consumes: "disjLoop d k i n ts = POk m r \<Longrightarrow> length r \<le> length ts"
proof (induction i arbitrary: n ts)
  case (Suc i)
  show ?case
  proof (cases "at_op ''or'' ts")
    case True
    with Suc.prems obtain b u where "parseConj d k (tl ts) = POk b u"
      and "disjLoop d k i (BinOpNode ''or'' n b) u = POk m r"
      by (auto simp: pbind_POk)
    then show ?thesis
      using parseConj_consumes [of k "tl ts" b u] Suc.IH [of _ u] by fastforce
  next
    case False
    with Suc.prems show ?thesis by simp
  qed
qed simp

lemma disjLoop_fuel: "length ts < i \<Longrightarrow> length ts \<le> K \<Longrightarrow> disjLoop d K i n ts \<noteq> NoFuel"
proof (induction i arbitrary: n ts)
  case (Suc i)
  show ?case
  proof (cases "at_op ''or'' ts")
    case True
    then have tl: "length (tl ts) < length ts" by (intro length_tl_less) simp
    have "disjLoop d K i m u \<noteq> NoFuel" if "parseConj d K (tl ts) = POk b u" for b u m
      using parseConj_consumes [OF that] tl Suc.prems by (intro Suc.IH) auto
    then show ?thesis
      using True tl Suc.prems parseConj_fuel [of "tl ts"] by (auto simp: pbind_NoFuel)
  qed simp
qed simp

lemma disj_consumes: "pbind (parseConj d k ts) (disjLoop d k k) = POk n r \<Longrightarrow> length r < length ts"
  by (fastforce simp: pbind_POk dest: parseConj_consumes disjLoop_consumes)

lemma disj_fuel: "length ts \<le> K \<Longrightarrow> pbind (parseConj d K ts) (disjLoop d K K) \<noteq> NoFuel"
proof -
  assume le: "length ts \<le> K"
  have "disjLoop d K K m u \<noteq> NoFuel" if "parseConj d K ts = POk m u" for m u
    using parseConj_consumes [OF that] le by (intro disjLoop_fuel) auto
  then show ?thesis
    using parseConj_fuel [OF le] by (auto simp: pbind_NoFuel)
qed

end

lemma descent_parseDisj: "descent (parseDisj k) k"
proof (induction k)
  case 0
  then show ?case by unfold_locales simp_all
next
  case (Suc k)
  show ?case
    using descent.disj_consumes [OF Suc] descent.disj_fuel [OF Suc]
    by unfold_locales (simp_all add: less_Suc_eq_le)
qed

interpretation pd: descent "parseDisj k" k for k
  by (rule descent_parseDisj)

lemma parser_enough_fuel: "parseDisj (parse_fuel ts) ts \<noteq> NoFuel"
  by (rule pd.d_fuel) (simp add: parse_fuel_def)

section \<open>Correctness\<close>

text \<open>
  C28. The recursive-descent parser terminates on every input: with fuel one above the number of
  tokens, or any more, no source text makes it run out, so that compiling always ends in a tree
  or a syntax error.
\<close>

theorem parser_terminates: "parseDisj (parse_fuel (tokenize src) + extra) (tokenize src) \<noteq> NoFuel"
  by (rule pd.d_fuel) (simp add: parse_fuel_def)

end
