(* ===== verification/GC_Expr_Roundtrip.thy ===== *)
theory GC_Expr_Roundtrip
  imports GC_Expr_Parse
begin

text \<open>
  A printer for rule expressions, with the precedence levels of the grammar in
  \<^verbatim>\<open>internal/rules/expr.go\<close>, and the proofs that the parser reads back the printed tokens
  and the lexer the rendered text: compiling the text of an expression gives the expression.
\<close>

section \<open>Printing expressions\<close>

text \<open>
  A printer for the trees the parser can build. The levels are those of the grammar:
  0 disjunction, 1 conjunction, 2 comparison, 3 unary, 4 primary; a tree of a lower level than
  its place is put in parentheses.
\<close>

definition ident_ok :: "string \<Rightarrow> bool" where
  "ident_ok x \<longleftrightarrow> x \<noteq> [] \<and> is_ident_start (hd x) \<and> list_all is_ident_char (tl x) \<and> x \<notin> set opSet"

definition int_ok :: "int \<Rightarrow> bool" where
  "int_ok i \<longleftrightarrow> 0 \<le> i \<and> i \<le> max_int64"

fun item_ok :: "goval \<Rightarrow> bool" where
  "item_ok (VStr _) \<longleftrightarrow> True"
| "item_ok (VInt i) \<longleftrightarrow> int_ok i"
| "item_ok _ \<longleftrightarrow> False"

definition lit_ok :: "literalNode \<Rightarrow> bool" where
  "lit_ok l \<longleftrightarrow>
     LiteralNode l = StrLit (lit_s l)
   \<or> LiteralNode l = IntLit (lit_n l) \<and> int_ok (lit_n l)
   \<or> LiteralNode l = ListLit (lit_list l) \<and> list_all item_ok (lit_list l)"

fun printable :: "node \<Rightarrow> bool" where
  "printable (LiteralNode l) \<longleftrightarrow> lit_ok l"
| "printable (IdentNode x) \<longleftrightarrow> ident_ok x"
| "printable (BinOpNode op a b) \<longleftrightarrow>
     (op = ''or'' \<or> op = ''and'' \<or> op \<in> set cmp_ops) \<and> printable a \<and> printable b"
| "printable (NotNode n) \<longleftrightarrow> printable n"
| "printable (CallNode x args) \<longleftrightarrow> ident_ok x \<and> (\<forall>a \<in> set args. printable a)"

fun item_tok :: "goval \<Rightarrow> token" where
  "item_tok (VStr s) = Token tokStr s"
| "item_tok (VInt i) = Token tokNum (nat_digits (nat i))"
| "item_tok _ = Token tokEOF []"

abbreviation "LPtok \<equiv> Token tokLP ''(''"
abbreviation "RPtok \<equiv> Token tokRP '')''"
abbreviation "Commatok \<equiv> Token tokComma '',''"
abbreviation "RBtok \<equiv> Token tokRB '']''"

fun items_toks :: "goval list \<Rightarrow> token list" where
  "items_toks [] = []"
| "items_toks [v] = [item_tok v]"
| "items_toks (v # w # vs) = item_tok v # Commatok # items_toks (w # vs)"

definition lit_toks :: "literalNode \<Rightarrow> token list" where
  "lit_toks l =
     (if lit_hasStr l then [Token tokStr (lit_s l)]
      else if lit_hasInt l then [Token tokNum (nat_digits (nat (lit_n l)))]
      else Token tokLB ''['' # items_toks (lit_list l) @ [RBtok])"

fun prec :: "node \<Rightarrow> nat" where
  "prec (BinOpNode op a b) = (if op = ''or'' then 0 else if op = ''and'' then 1 else 2)"
| "prec (NotNode n) = 3"
| "prec _ = 4"

definition wrap :: "nat \<Rightarrow> nat \<Rightarrow> token list \<Rightarrow> token list" where
  "wrap p q ts = (if p > q then LPtok # ts @ [RPtok] else ts)"

fun pp :: "nat \<Rightarrow> node \<Rightarrow> token list" and ppArgs :: "node list \<Rightarrow> token list" where
  "pp p (LiteralNode l) = lit_toks l"
| "pp p (IdentNode x) = [Token tokIdent x]"
| "pp p (BinOpNode op a b) =
     (let q = (if op = ''or'' then 0 else if op = ''and'' then 1 else (2::nat))
      in wrap p q (pp (if q = 2 then 3 else q) a @ Token tokOp op # pp (Suc q) b))"
| "pp p (NotNode n) = wrap p 3 (Token tokOp ''not'' # pp 4 n)"
| "pp p (CallNode x args) = Token tokIdent x # LPtok # ppArgs args @ [RPtok]"
| "ppArgs [] = []"
| "ppArgs (a # as) = (if as = [] then pp 0 a else pp 0 a @ Commatok # ppArgs as)"

section \<open>Parsing printed tokens\<close>

definition okU :: "token list \<Rightarrow> bool" where "okU r \<longleftrightarrow> tok_kind (peek r) \<noteq> tokLP"
definition okC :: "token list \<Rightarrow> bool" where "okC r \<longleftrightarrow> okU r \<and> \<not> at_cmp r"
definition okJ :: "token list \<Rightarrow> bool" where "okJ r \<longleftrightarrow> okC r \<and> \<not> at_op ''and'' r"
definition okD :: "token list \<Rightarrow> bool" where "okD r \<longleftrightarrow> okJ r \<and> \<not> at_op ''or'' r"

lemmas ok_defs = okU_def okC_def okJ_def okD_def at_cmp_def

lemma okD_closing: "tok_kind t \<noteq> tokOp \<Longrightarrow> tok_kind t \<noteq> tokLP \<Longrightarrow> okD (t # r)"
  by (cases t) (auto simp: ok_defs)

lemma okU_op [simp]: "okU (Token tokOp x # r)"
  by (simp add: ok_defs)

lemma okC_and [simp]: "okC (Token tokOp ''and'' # r)" and okJ_or [simp]: "okJ (Token tokOp ''or'' # r)"
  by (simp_all add: ok_defs cmp_ops_def)

lemma okJ_okC [simp]: "okJ r \<Longrightarrow> okC r" and okC_okU [simp]: "okC r \<Longrightarrow> okU r"
  and okD_okJ [simp]: "okD r \<Longrightarrow> okJ r"
  by (simp_all add: ok_defs)

fun nAnd :: "node \<Rightarrow> nat" where
  "nAnd (BinOpNode op a b) = (if op = ''and'' then Suc (nAnd a) else 0)"
| "nAnd _ = 0"

fun nOr :: "node \<Rightarrow> nat" where
  "nOr (BinOpNode op a b) = (if op = ''or'' then Suc (nOr a) else 0)"
| "nOr _ = 0"

text \<open>
  One statement per level, for a parser with fuel \<open>k\<close>. The loops of levels 1 and 0 build
  left-nested trees, so these statements carry the rest of the loop.
\<close>

definition P4 :: "nat \<Rightarrow> node \<Rightarrow> bool" where
  "P4 k n \<longleftrightarrow> (\<forall>r. okU r \<longrightarrow> length (pp 4 n @ r) \<le> k \<longrightarrow>
     parsePrimary (parseDisj k) k (pp 4 n @ r) = POk n r)"
definition P3 :: "nat \<Rightarrow> node \<Rightarrow> bool" where
  "P3 k n \<longleftrightarrow> (\<forall>r. okU r \<longrightarrow> length (pp 3 n @ r) \<le> k \<longrightarrow>
     parseUnary (parseDisj k) k (pp 3 n @ r) = POk n r)"
definition P2 :: "nat \<Rightarrow> node \<Rightarrow> bool" where
  "P2 k n \<longleftrightarrow> (\<forall>r. okC r \<longrightarrow> length (pp 2 n @ r) \<le> k \<longrightarrow>
     parseCmp (parseDisj k) k (pp 2 n @ r) = POk n r)"
definition P1 :: "nat \<Rightarrow> node \<Rightarrow> bool" where
  "P1 k n \<longleftrightarrow> (\<forall>r i m u. okC r \<longrightarrow> length (pp 1 n @ r) \<le> k \<longrightarrow>
     conjLoop (parseDisj k) k i n r = POk m u \<longrightarrow>
     pbind (parseCmp (parseDisj k) k (pp 1 n @ r)) (conjLoop (parseDisj k) k (i + nAnd n)) = POk m u)"
definition P0 :: "nat \<Rightarrow> node \<Rightarrow> bool" where
  "P0 k n \<longleftrightarrow> (\<forall>r i m u. okJ r \<longrightarrow> length (pp 0 n @ r) \<le> k \<longrightarrow>
     disjLoop (parseDisj k) k i n r = POk m u \<longrightarrow>
     pbind (parseConj (parseDisj k) k (pp 0 n @ r)) (disjLoop (parseDisj k) k (i + nOr n)) = POk m u)"

definition Pall :: "node \<Rightarrow> bool" where
  "Pall n \<longleftrightarrow> (\<forall>k. P0 k n \<and> P1 k n \<and> P2 k n \<and> P3 k n \<and> P4 k n)"

lemma pp_nonempty [simp]: "pp p n \<noteq> []"
  by (cases n) (auto simp: lit_toks_def wrap_def Let_def)

lemma nAnd_less: "nAnd n < length (pp 1 n)"
proof (induction n)
  case (BinOpNode op a b)
  then show ?case by (auto simp: Let_def wrap_def)
qed (auto simp: lit_toks_def wrap_def)

lemma nOr_less: "nOr n < length (pp 0 n)"
proof (induction n)
  case (BinOpNode op a b)
  then show ?case by (auto simp: Let_def wrap_def)
qed (auto simp: lit_toks_def wrap_def)

text \<open>The first printed token decides which branch \<open>parsePrimary\<close> takes.\<close>

lemma peek_pp4: "\<not> at_op ''not'' (pp 4 n @ r)"
  by (cases n) (auto simp: lit_toks_def wrap_def Let_def)

lemma peek_pp_kind:
  "tok_kind (peek (pp p n @ r)) \<notin> {tokRP, tokRB, tokComma, tokEOF}"
proof (induction n arbitrary: p r)
  case (BinOpNode op a b)
  then show ?case by (auto simp: Let_def wrap_def)
qed (auto simp: lit_toks_def wrap_def)

lemma pp_level: "prec n \<noteq> p \<Longrightarrow> pp p n = pp (Suc p) n"
  by (cases n) (auto simp: Let_def wrap_def)

lemma pp_paren: "prec n < 4 \<Longrightarrow> pp 4 n = LPtok # pp 0 n @ [RPtok]"
  by (cases n) (auto simp: Let_def wrap_def)

subsection \<open>From one level to the next\<close>

lemma lift_43: "prec n \<noteq> 3 \<Longrightarrow> P4 k n \<Longrightarrow> P3 k n"
  using pp_level [of n 3] peek_pp4 [of n]
  by (simp add: P3_def P4_def parseUnary_def numeral_eq_Suc)

lemma lift_32: "prec n \<noteq> 2 \<Longrightarrow> P3 k n \<Longrightarrow> P2 k n"
  using pp_level [of n 2] by (simp add: P3_def P2_def parseCmp_def numeral_eq_Suc okC_def)

lemma nAnd_0: "prec n \<noteq> 1 \<Longrightarrow> nAnd n = 0" and nOr_0: "prec n \<noteq> 0 \<Longrightarrow> nOr n = 0"
  by (cases n; auto)+

lemma lift_21: "prec n \<noteq> 1 \<Longrightarrow> P2 k n \<Longrightarrow> P1 k n"
  using pp_level [of n 1] by (simp add: P1_def P2_def nAnd_0 numeral_eq_Suc)

lemma conjLoop_stop: "\<not> at_op ''and'' r \<Longrightarrow> 0 < i \<Longrightarrow> conjLoop d k i n r = POk n r"
  by (cases i) auto

lemma disjLoop_stop: "\<not> at_op ''or'' r \<Longrightarrow> 0 < i \<Longrightarrow> disjLoop d k i n r = POk n r"
  by (cases i) auto

lemma P1_parseConj:
  assumes "P1 k n" "okJ r" "length (pp 1 n @ r) \<le> k"
  shows "parseConj (parseDisj k) k (pp 1 n @ r) = POk n r"
proof -
  have i: "0 < k - nAnd n" "k - nAnd n + nAnd n = k"
    using nAnd_less [of n] assms(3) by auto
  have "conjLoop (parseDisj k) k (k - nAnd n) n r = POk n r"
    using assms(2) i by (intro conjLoop_stop) (auto simp: okJ_def)
  then have "pbind (parseCmp (parseDisj k) k (pp 1 n @ r))
      (conjLoop (parseDisj k) k (k - nAnd n + nAnd n)) = POk n r"
    using assms by (simp only: P1_def okJ_okC)
  then show ?thesis unfolding i(2) by (simp add: parseConj_def)
qed

lemma lift_10: "prec n \<noteq> 0 \<Longrightarrow> P1 k n \<Longrightarrow> P0 k n"
  using pp_level [of n 0] P1_parseConj [of k n] by (simp add: P0_def nOr_0)

lemma P0_parseDisj:
  assumes "P0 k n" "okD r" "length (pp 0 n @ r) \<le> k"
  shows "parseDisj (Suc k) (pp 0 n @ r) = POk n r"
proof -
  have i: "0 < k - nOr n" "k - nOr n + nOr n = k"
    using nOr_less [of n] assms(3) by auto
  have "disjLoop (parseDisj k) k (k - nOr n) n r = POk n r"
    using assms(2) i by (intro disjLoop_stop) (auto simp: okD_def)
  then have "pbind (parseConj (parseDisj k) k (pp 0 n @ r))
      (disjLoop (parseDisj k) k (k - nOr n + nOr n)) = POk n r"
    using assms by (simp only: P0_def okD_okJ)
  then show ?thesis unfolding i(2) by simp
qed

lemma lift_04: "prec n < 4 \<Longrightarrow> (\<And>k. P0 k n) \<Longrightarrow> P4 k n"
proof -
  assume "prec n < 4" and P0: "\<And>k. P0 k n"
  have "parsePrimary (parseDisj k) k (pp 4 n @ r) = POk n r" if le: "length (pp 4 n @ r) \<le> k" for r
  proof -
    from le obtain j where k: "k = Suc j" by (cases k) auto
    have "parseDisj (Suc j) (pp 0 n @ RPtok # r) = POk n (RPtok # r)"
      using le k \<open>prec n < 4\<close> by (intro P0_parseDisj [OF P0] okD_closing) (auto simp: pp_paren)
    then show ?thesis
      using \<open>prec n < 4\<close> k by (simp add: pp_paren parsePrimary_def expect_def del: parseDisj.simps)
  qed
  then show ?thesis by (simp add: P4_def)
qed

subsection \<open>The trees, one constructor at a time\<close>

text \<open>It is enough to treat a tree at its own level.\<close>

lemma Pall_intro:
  assumes "\<And>k. prec n = 0 \<Longrightarrow> P0 k n" "\<And>k. prec n = 1 \<Longrightarrow> P1 k n" "\<And>k. prec n = 2 \<Longrightarrow> P2 k n"
    "\<And>k. prec n = 3 \<Longrightarrow> P3 k n" "\<And>k. prec n = 4 \<Longrightarrow> P4 k n"
  shows "Pall n"
proof -
  have up: "P1 k n \<Longrightarrow> prec n \<noteq> 0 \<Longrightarrow> P0 k n" "P2 k n \<Longrightarrow> prec n \<noteq> 1 \<Longrightarrow> P1 k n"
    "P3 k n \<Longrightarrow> prec n \<noteq> 2 \<Longrightarrow> P2 k n" "P4 k n \<Longrightarrow> prec n \<noteq> 3 \<Longrightarrow> P3 k n" for k
    by (simp_all add: lift_10 lift_21 lift_32 lift_43)
  have le: "prec n = 0 \<or> prec n = 1 \<or> prec n = 2 \<or> prec n = 3 \<or> prec n = 4"
    by (cases n) auto
  have p4: "P4 k n" for k
  proof (cases "prec n = 4")
    case False
    with le have "prec n < 4" by auto
    moreover have "P0 j n" for j
      using le False assms(1-4) [of j] up(1-3) [of j] by (elim disjE) simp_all
    ultimately show ?thesis by (rule lift_04)
  qed (rule assms(5))
  have p3: "P3 k n" for k using assms(4) up(4) p4 by blast
  have p2: "P2 k n" for k using assms(3) up(3) p3 by blast
  have p1: "P1 k n" for k using assms(2) up(2) p2 by blast
  have p0: "P0 k n" for k using assms(1) up(1) p1 by blast
  show ?thesis unfolding Pall_def using p0 p1 p2 p3 p4 by blast
qed

lemma Pall_Not: "Pall n \<Longrightarrow> Pall (NotNode n)"
proof -
  assume n: "Pall n"
  have "P3 k (NotNode n)" for k
    using n by (auto simp: Pall_def P3_def P4_def parseUnary_def wrap_def)
  then show ?thesis by (intro Pall_intro) simp_all
qed

lemma cmp_op_not_logic: "op \<in> set cmp_ops \<Longrightarrow> op \<noteq> ''or'' \<and> op \<noteq> ''and''"
  by (auto simp: cmp_ops_def)

lemma Pall_cmp:
  assumes op: "op \<in> set cmp_ops" and "Pall a" "Pall b"
  shows "Pall (BinOpNode op a b)"
proof -
  have "P2 k (BinOpNode op a b)" for k
    using assms cmp_op_not_logic [OF op]
    by (auto simp: Pall_def P2_def P3_def parseCmp_def wrap_def Let_def at_cmp_def okC_def numeral_eq_Suc)
  then show ?thesis using cmp_op_not_logic [OF op] by (intro Pall_intro) simp_all
qed

lemma Pall_and:
  assumes "Pall a" "Pall b"
  shows "Pall (BinOpNode ''and'' a b)"
proof -
  let ?n = "BinOpNode ''and'' a b"
  have "P1 k ?n" for k
    unfolding P1_def
  proof (intro allI impI)
    fix r i m u
    assume r: "okC r" and le: "length (pp 1 ?n @ r) \<le> k"
      and loop: "conjLoop (parseDisj k) k i ?n r = POk m u"
    have pp: "pp 1 ?n @ r = pp 1 a @ Token tokOp ''and'' # pp 2 b @ r"
      by (simp add: wrap_def numeral_eq_Suc)
    have "parseCmp (parseDisj k) k (pp 2 b @ r) = POk b r"
      using assms(2) r le unfolding pp by (auto simp: Pall_def P2_def)
    then have "conjLoop (parseDisj k) k (Suc i) a (Token tokOp ''and'' # pp 2 b @ r) = POk m u"
      using loop by simp
    then show "pbind (parseCmp (parseDisj k) k (pp 1 ?n @ r))
        (conjLoop (parseDisj k) k (i + nAnd ?n)) = POk m u"
      using assms(1) le unfolding pp Pall_def P1_def by (metis add_Suc add_Suc_right nAnd.simps(1) okC_and)
  qed
  then show ?thesis by (intro Pall_intro) simp_all
qed

lemma Pall_or:
  assumes "Pall a" "Pall b"
  shows "Pall (BinOpNode ''or'' a b)"
proof -
  let ?n = "BinOpNode ''or'' a b"
  have "P0 k ?n" for k
    unfolding P0_def
  proof (intro allI impI)
    fix r i m u
    assume r: "okJ r" and le: "length (pp 0 ?n @ r) \<le> k"
      and loop: "disjLoop (parseDisj k) k i ?n r = POk m u"
    have pp: "pp 0 ?n @ r = pp 0 a @ Token tokOp ''or'' # pp 1 b @ r"
      by (simp add: wrap_def)
    have "parseConj (parseDisj k) k (pp 1 b @ r) = POk b r"
      using assms(2) r le unfolding pp by (intro P1_parseConj) (auto simp: Pall_def)
    then have "disjLoop (parseDisj k) k (Suc i) a (Token tokOp ''or'' # pp 1 b @ r) = POk m u"
      using loop by simp
    then show "pbind (parseConj (parseDisj k) k (pp 0 ?n @ r))
        (disjLoop (parseDisj k) k (i + nOr ?n)) = POk m u"
      using assms(1) le unfolding pp Pall_def P0_def by (metis add_Suc add_Suc_right nOr.simps(1) okJ_or)
  qed
  then show ?thesis by (intro Pall_intro) simp_all
qed

text \<open>Literals, identifiers and calls.\<close>

lemma Atoi_nat_digits: "int_ok i \<Longrightarrow> Atoi (nat_digits (nat i)) = Some i"
  using Atoi_Itoa [of i] by (simp add: int_ok_def Itoa_def min_int64_def)

lemma list_item_tok: "item_ok v \<Longrightarrow> list_item (item_tok v) = Inr v"
  by (cases v) (auto simp: list_item_def Atoi_nat_digits)

lemma parseItems_toks:
  "vs \<noteq> [] \<Longrightarrow> list_all item_ok vs \<Longrightarrow> parseItems (items_toks vs @ RBtok # r) = POk vs r"
proof (induction vs rule: items_toks.induct)
  case (2 v)
  then show ?case by (subst parseItems.simps) (simp add: list_item_tok expect_def)
next
  case (3 v w vs)
  then show ?case by (subst parseItems.simps) (simp add: list_item_tok)
qed simp

lemma items_toks_head: "vs \<noteq> [] \<Longrightarrow> list_all item_ok vs \<Longrightarrow> tok_kind (peek (items_toks vs @ r)) \<noteq> tokRB"
proof (cases vs rule: items_toks.cases)
  case (2 v)
  moreover assume "list_all item_ok vs"
  ultimately show ?thesis by (cases v) auto
next
  case (3 v w ws)
  moreover assume "list_all item_ok vs"
  ultimately show ?thesis by (cases v) auto
qed simp

lemma parseList_toks: "list_all item_ok vs \<Longrightarrow> parseList (items_toks vs @ RBtok # r) = POk vs r"
  by (cases "vs = []") (auto simp: parseList_def parseItems_toks dest: items_toks_head [where r = "RBtok # r"])

lemma Pall_primary: "prec n = 4 \<Longrightarrow> (\<And>k. P4 k n) \<Longrightarrow> Pall n"
  by (intro Pall_intro) simp_all

lemma P4_StrLit: "P4 k (StrLit s)"
  by (simp add: P4_def parsePrimary_def literal_defs lit_toks_def)

lemma P4_IntLit: "int_ok i \<Longrightarrow> P4 k (IntLit i)"
  by (simp add: P4_def parsePrimary_def literal_defs lit_toks_def Atoi_nat_digits)

lemma P4_ListLit: "list_all item_ok vs \<Longrightarrow> P4 k (ListLit vs)"
  by (simp add: P4_def parsePrimary_def literal_defs lit_toks_def parseList_toks)

lemma Pall_lit: "lit_ok l \<Longrightarrow> Pall (LiteralNode l)"
proof (rule Pall_primary)
  fix k
  assume "lit_ok l"
  then consider "LiteralNode l = StrLit (lit_s l)"
    | "LiteralNode l = IntLit (lit_n l)" "int_ok (lit_n l)"
    | "LiteralNode l = ListLit (lit_list l)" "list_all item_ok (lit_list l)"
    unfolding lit_ok_def by blast
  then show "P4 k (LiteralNode l)"
    by cases (metis P4_StrLit, metis P4_IntLit, metis P4_ListLit)
qed simp

lemma Pall_ident: "Pall (IdentNode x)"
  by (intro Pall_intro) (simp_all add: P4_def parsePrimary_def okU_def)

lemma argsLoop_ppArgs:
  assumes "\<And>a k. a \<in> set args \<Longrightarrow> P0 k a" "args \<noteq> []"
    "tok_kind t \<noteq> tokOp" "tok_kind t \<noteq> tokLP" "tok_kind t \<noteq> tokComma"
    "length (ppArgs args @ t # r) \<le> k" "length (ppArgs args @ t # r) \<le> i"
  shows "argsLoop (parseDisj (Suc k)) i (ppArgs args @ t # r) = POk args (t # r)"
  using assms
proof (induction args arbitrary: i)
  case (Cons a as)
  then obtain j where i: "i = Suc j" by (cases i) auto
  show ?case
  proof (cases "as = []")
    case True
    have "parseDisj (Suc k) (pp 0 a @ t # r) = POk a (t # r)"
      using Cons.prems True by (intro P0_parseDisj okD_closing) auto
    then show ?thesis using Cons.prems(5) True i by (simp del: parseDisj.simps)
  next
    case False
    have "parseDisj (Suc k) (pp 0 a @ Commatok # ppArgs as @ t # r) = POk a (Commatok # ppArgs as @ t # r)"
      using Cons.prems False by (intro P0_parseDisj okD_closing) auto
    moreover have "argsLoop (parseDisj (Suc k)) j (ppArgs as @ t # r) = POk as (t # r)"
      using Cons.prems False i by (intro Cons.IH) auto
    ultimately show ?thesis using False i by (simp del: parseDisj.simps)
  qed
qed simp

lemma peek_ppArgs: "args \<noteq> [] \<Longrightarrow> tok_kind (peek (ppArgs args @ r)) \<noteq> tokRP"
proof (cases args)
  case (Cons a as)
  then show ?thesis
    using peek_pp_kind [of 0 a r] peek_pp_kind [of 0 a "Commatok # ppArgs as @ r"] by simp
qed simp

lemma Pall_call:
  assumes "\<And>a. a \<in> set args \<Longrightarrow> Pall a"
  shows "Pall (CallNode x args)"
proof (rule Pall_primary)
  fix k
  have "parsePrimary (parseDisj k) k (pp 4 (CallNode x args) @ r) = POk (CallNode x args) r"
    if le: "length (pp 4 (CallNode x args) @ r) \<le> k" for r
  proof (cases "args = []")
    case True
    then show ?thesis by (simp add: parsePrimary_def expect_def)
  next
    case False
    obtain j where k: "k = Suc j" using le by (cases k) auto
    have "argsLoop (parseDisj (Suc j)) (Suc j) (ppArgs args @ RPtok # r) = POk args (RPtok # r)"
      using le False k assms by (intro argsLoop_ppArgs) (auto simp: Pall_def)
    then show ?thesis
      using False k peek_ppArgs [of args "RPtok # r"]
      by (simp add: parsePrimary_def expect_def del: parseDisj.simps argsLoop.simps)
  qed
  then show "P4 k (CallNode x args)" by (simp add: P4_def)
qed simp

lemma printable_Pall: "printable n \<Longrightarrow> Pall n"
proof (induction n)
  case (BinOpNode op a b)
  then have ab: "Pall a" "Pall b" by simp_all
  from BinOpNode.prems have "op = ''or'' \<or> op = ''and'' \<or> op \<in> set cmp_ops" by simp
  then show ?case by (elim disjE) (simp_all only: Pall_or [OF ab] Pall_and [OF ab] Pall_cmp ab)
qed (simp_all add: Pall_lit Pall_ident Pall_Not Pall_call)

abbreviation "EOFtok \<equiv> Token tokEOF []"

theorem parse_pp:
  assumes "printable n"
  shows "parseDisj (parse_fuel (pp 0 n @ [EOFtok])) (pp 0 n @ [EOFtok]) = POk n [EOFtok]"
  unfolding parse_fuel_def
  using printable_Pall [OF assms] by (intro P0_parseDisj okD_closing) (auto simp: Pall_def)

section \<open>Lexing rendered tokens\<close>

definition quoted :: "string \<Rightarrow> string" where
  "quoted s = concat (map (\<lambda>c. if c = quote_char \<or> c = backslash then [backslash, c] else [c]) s)"

lemma quoted_Nil [simp]: "quoted [] = []"
  and quoted_Cons [simp]:
    "quoted (c # s) = (if c = quote_char \<or> c = backslash then [backslash, c] else [c]) @ quoted s"
  by (simp_all add: quoted_def)

lemma quote_not_backslash [simp]: "quote_char \<noteq> backslash" "backslash \<noteq> quote_char"
  by (simp_all add: quote_char_def backslash_def)

lemma lexStr_plain:
  "c \<noteq> quote_char \<Longrightarrow> c \<noteq> backslash \<Longrightarrow> s \<noteq> [] \<Longrightarrow>
   lexStr (c # s) = (c # fst (lexStr s), snd (lexStr s))"
  by (cases s) (simp_all split: prod.splits)

lemma lexStr_quote: "lexStr (quote_char # s) = ([], s)"
  by (cases s) simp_all

lemma lexStr_quoted: "lexStr (quoted s @ quote_char # r) = (s, r)"
  by (induction s) (simp_all add: lexStr_plain lexStr_quote)

definition tok_ok :: "token \<Rightarrow> bool" where
  "tok_ok t \<longleftrightarrow>
     (case tok_kind t of
        tokEOF \<Rightarrow> False
      | tokIdent \<Rightarrow> ident_ok (tok_val t)
      | tokNum \<Rightarrow> tok_val t \<noteq> [] \<and> list_all is_digit (tok_val t)
      | tokStr \<Rightarrow> True
      | tokLP \<Rightarrow> tok_val t = ''(''
      | tokRP \<Rightarrow> tok_val t = '')''
      | tokLB \<Rightarrow> tok_val t = ''[''
      | tokRB \<Rightarrow> tok_val t = '']''
      | tokComma \<Rightarrow> tok_val t = '',''
      | tokOp \<Rightarrow> tok_val t \<in> set opSet)"

definition tok_text :: "token \<Rightarrow> string" where
  "tok_text t = (if tok_kind t = tokStr then quote_char # quoted (tok_val t) @ [quote_char] else tok_val t)"

fun render :: "token list \<Rightarrow> string" where
  "render [] = []"
| "render [t] = tok_text t"
| "render (t # u # ts) = tok_text t @ CHR '' '' # render (u # ts)"

text \<open>A word or a number ends where the text ends or one of these characters follows.\<close>

definition delim_start :: "string \<Rightarrow> bool" where
  "delim_start r \<longleftrightarrow> r = [] \<or> hd r \<in> set '' (),''"

lemma delim_hd: "delim_start r \<Longrightarrow> list_all Q '' (),'' \<Longrightarrow> r = [] \<or> Q (hd r)"
  unfolding delim_start_def list_all_iff by blast

lemma takeWhile_delim:
  assumes "list_all P s" "delim_start r" "list_all (\<lambda>c. \<not> P c) '' (),''"
  shows "takeWhile P (s @ r) = s \<and> dropWhile P (s @ r) = r"
  using assms(1) delim_hd [OF assms(2,3)] by (induction s) (cases r; auto)+

lemma delim_simps [simp]: "delim_start []" "delim_start (c # r) \<longleftrightarrow> c \<in> set '' (),''"
  by (simp_all add: delim_start_def)

lemma digit_char:
  "is_digit c \<Longrightarrow> c \<noteq> CHR '' '' \<and> c \<noteq> CHR 0x09 \<and> c \<noteq> CHR 0x0A \<and> c \<noteq> CHR ''('' \<and> c \<noteq> CHR '')'' \<and>
   c \<noteq> CHR ''['' \<and> c \<noteq> CHR '']'' \<and> c \<noteq> CHR '','' \<and> c \<noteq> quote_char"
  by (auto simp: is_digit_def quote_char_def)

lemma ident_start_char:
  "is_ident_start c \<Longrightarrow> c \<noteq> CHR '' '' \<and> c \<noteq> CHR 0x09 \<and> c \<noteq> CHR 0x0A \<and> c \<noteq> CHR ''('' \<and> c \<noteq> CHR '')'' \<and>
   c \<noteq> CHR ''['' \<and> c \<noteq> CHR '']'' \<and> c \<noteq> CHR '','' \<and> c \<noteq> quote_char \<and> \<not> is_digit c"
  by (auto simp: is_ident_start_def is_lower_def is_upper_def is_digit_def quote_char_def)

lemma delim_not_digit: "list_all (\<lambda>c. \<not> is_digit c) '' (),''"
  and delim_not_ident: "list_all (\<lambda>c. \<not> is_ident_char c) '' (),''"
  by (simp_all add: is_digit_def is_ident_char_def is_lower_def is_upper_def)

lemma tokenize_num:
  "w \<noteq> [] \<Longrightarrow> list_all is_digit w \<Longrightarrow> delim_start r \<Longrightarrow> tokenize (w @ r) = Token tokNum w # tokenize r"
  using digit_char [of "hd w"] takeWhile_delim [of is_digit "tl w" r] delim_not_digit
  by (cases w) simp_all

lemma tokenize_word:
  "w \<noteq> [] \<Longrightarrow> is_ident_start (hd w) \<Longrightarrow> list_all is_ident_char (tl w) \<Longrightarrow> delim_start r \<Longrightarrow>
   tokenize (w @ r) = Token (if w \<in> set opSet then tokOp else tokIdent) w # tokenize r"
  using ident_start_char [of "hd w"] takeWhile_delim [of is_ident_char "tl w" r] delim_not_ident
  by (cases w) (simp_all add: Let_def)

lemma tokenize_str: "tokenize (quote_char # quoted s @ quote_char # r) = Token tokStr s # tokenize r"
  by (simp add: quote_char_def) (simp add: quote_char_def [symmetric] lexStr_quoted)

definition sym_ops :: "string list" where
  "sym_ops = [''=='', ''!='', ''<='', ''>='', ''<'', ''>'']"

lemma opSet_cases: "op \<in> set opSet \<Longrightarrow> op \<in> set sym_ops \<or> is_ident_start (hd op) \<and> list_all is_ident_char (tl op) \<and> op \<noteq> []"
  unfolding opSet_def sym_ops_def list.set insert_iff empty_iff
  by (elim disjE) (simp_all add: is_ident_start_def is_ident_char_def is_lower_def is_upper_def)

lemma tokenize_sym:
  assumes "op \<in> set sym_ops" "delim_start r"
  shows "tokenize (op @ r) = Token tokOp op # tokenize r"
proof -
  have "r = [] \<or> hd r \<noteq> CHR ''=''" using assms(2) by (rule delim_hd) simp
  with assms(1) show ?thesis
    unfolding sym_ops_def list.set insert_iff empty_iff
    by (elim disjE; cases r)
       (simp_all add: quote_char_def is_ident_start_def is_lower_def is_upper_def is_digit_def opSet_def)
qed

lemma tokenize_text:
  assumes "tok_ok t" "delim_start r"
  shows "tokenize (tok_text t @ r) = t # tokenize r"
proof (cases t)
  case (Token kd v)
  show ?thesis
  proof (cases kd)
    case tokOp
    with assms Token have "v \<in> set opSet" by (simp add: tok_ok_def)
    with opSet_cases [of v] tokenize_sym [of v r] tokenize_word [of v r] assms(2) Token tokOp
    show ?thesis by (auto simp: tok_text_def)
  next
    case tokStr
    then show ?thesis using Token tokenize_str [of v r] by (simp add: tok_text_def del: tokenize.simps)
  qed (use assms Token in \<open>simp_all add: tok_ok_def tok_text_def tokenize_num tokenize_word ident_ok_def\<close>)
qed

lemma tokenize_render: "list_all tok_ok ts \<Longrightarrow> tokenize (render ts) = ts @ [EOFtok]"
proof (induction ts rule: render.induct)
  case (2 t)
  then show ?case using tokenize_text [of t "[]"] by (simp)
next
  case (3 t u ts)
  then show ?case
    using tokenize_text [of t "CHR '' '' # render (u # ts)"] by (simp)
qed simp

section \<open>The round trip\<close>

lemma tok_ok_simps [simp]:
  "tok_ok (Token tokStr s)" "tok_ok LPtok" "tok_ok RPtok" "tok_ok RBtok" "tok_ok Commatok"
  "tok_ok (Token tokLB ''['')" "tok_ok (Token tokOp op) \<longleftrightarrow> op \<in> set opSet"
  "tok_ok (Token tokIdent x) \<longleftrightarrow> ident_ok x" "tok_ok (Token tokNum (nat_digits i))"
  by (simp_all add: tok_ok_def nat_digits_all_digits)

lemma wrap_ok [simp]: "list_all tok_ok (wrap p q ts) \<longleftrightarrow> list_all tok_ok ts"
  by (simp add: wrap_def)

lemma item_tok_ok: "item_ok v \<Longrightarrow> tok_ok (item_tok v)"
  by (cases v) simp_all

lemma items_toks_ok: "list_all item_ok vs \<Longrightarrow> list_all tok_ok (items_toks vs)"
  by (induction vs rule: items_toks.induct) (simp_all add: item_tok_ok)

lemma lit_toks_ok: "lit_ok l \<Longrightarrow> list_all tok_ok (lit_toks l)"
proof -
  assume "lit_ok l"
  then have "lit_hasStr l \<or> lit_hasInt l \<and> int_ok (lit_n l) \<or> list_all item_ok (lit_list l)"
    unfolding lit_ok_def
    by (elim disjE; simp add: literal_defs) (metis literalNode.select_convs(5,6))+
  then show ?thesis
    by (auto simp: lit_toks_def items_toks_ok)
qed

lemma ppArgs_ok: "(\<And>a. a \<in> set args \<Longrightarrow> list_all tok_ok (pp 0 a)) \<Longrightarrow> list_all tok_ok (ppArgs args)"
  by (induction args) auto

lemma op_ok:
  "op \<in> set cmp_ops \<Longrightarrow> op \<in> set opSet" "''or'' \<in> set opSet" "''and'' \<in> set opSet" "''not'' \<in> set opSet"
  by (auto simp: cmp_ops_def opSet_def)

lemma pp_ok: "printable n \<Longrightarrow> list_all tok_ok (pp p n)"
proof (induction n arbitrary: p)
  case (BinOpNode op a b)
  then have "op \<in> set opSet" using op_ok by auto
  with BinOpNode show ?case by (simp add: Let_def)
next
  case (CallNode x args)
  then show ?case using ppArgs_ok [of args] by simp
qed (simp_all add: lit_toks_ok op_ok)

lemma visible: "is_digit c \<or> is_ident_char c \<Longrightarrow> \<not> is_space c"
  by (auto simp: is_ident_char_def char_class_defs)

lemma opSet_visible: "op \<in> set opSet \<Longrightarrow> op \<noteq> [] \<and> \<not> is_space (hd op) \<and> \<not> is_space (last op)"
  unfolding opSet_def list.set insert_iff empty_iff
  by (elim disjE) (simp_all add: is_space_def)

lemma list_all_hd_last: "list_all P s \<Longrightarrow> s \<noteq> [] \<Longrightarrow> P (hd s) \<and> P (last s)"
  by (simp add: list_all_iff)

lemma ident_all: "ident_ok x \<Longrightarrow> list_all is_ident_char x \<and> x \<noteq> []"
  by (cases x) (auto simp: ident_ok_def is_ident_start_def is_ident_char_def)

lemma ident_visible: "ident_ok x \<Longrightarrow> x \<noteq> [] \<and> \<not> is_space (hd x) \<and> \<not> is_space (last x)"
  using ident_all [of x] list_all_hd_last [of is_ident_char x] visible [of "hd x"] visible [of "last x"]
  by simp

lemma tok_text_visible:
  assumes "tok_ok t"
  shows "tok_text t \<noteq> [] \<and> \<not> is_space (hd (tok_text t)) \<and> \<not> is_space (last (tok_text t))"
proof (cases t)
  case (Token kd v)
  show ?thesis
  proof (cases kd)
    case tokNum
    then show ?thesis
      using assms Token list_all_hd_last [of is_digit v] visible by (auto simp: tok_ok_def tok_text_def)
  next
    case tokOp
    then show ?thesis using assms Token opSet_visible [of v] by (simp add: tok_ok_def tok_text_def)
  qed (use assms Token ident_visible [of v] in \<open>simp_all add: tok_ok_def tok_text_def is_space_def quote_char_def\<close>)
qed

lemma render_visible:
  "ts \<noteq> [] \<Longrightarrow> list_all tok_ok ts \<Longrightarrow>
   render ts \<noteq> [] \<and> \<not> is_space (hd (render ts)) \<and> \<not> is_space (last (render ts))"
  by (induction ts rule: render.induct) (auto dest: tok_text_visible)

text \<open>
  The printed text of an expression compiles to that expression: the grammar is unambiguous for
  printed text and the compiler neither fails on it nor reads another tree.
\<close>

theorem CompileExpr_render:
  assumes "printable n"
  shows "CompileExpr (render (pp 0 n)) = Inr \<lparr>expr_node = n, expr_src = render (pp 0 n)\<rparr>"
proof -
  let ?s = "render (pp 0 n)"
  have ok: "list_all tok_ok (pp 0 n)" by (rule pp_ok [OF assms])
  have "TrimSpace ?s = ?s" "?s \<noteq> []"
    using render_visible [OF pp_nonempty ok] TrimSpace_ends by blast+
  moreover have "tokenize ?s = pp 0 n @ [EOFtok]" by (rule tokenize_render [OF ok])
  ultimately show ?thesis using parse_pp [OF assms] by (simp add: CompileExpr_def Let_def)
qed



end
