(* ===== verification/GC_Procfs.thy ===== *)
theory GC_Procfs
  imports GC_Prelude
begin

text \<open>
  Readers of \<^verbatim>\<open>/proc\<close> (\<^verbatim>\<open>internal/procfs/procfs.go\<close>, \<^verbatim>\<open>status.go\<close>,
  \<^verbatim>\<open>starttime.go\<close>, \<^verbatim>\<open>ancestry.go\<close>). The file system is a record of what the readers
  ask for: the contents of \<^verbatim>\<open>/proc/<pid>/<name>\<close>, the target of \<^verbatim>\<open>/proc/<pid>/exe\<close>,
  the entries of \<^verbatim>\<open>/proc\<close> and the files \<^verbatim>\<open>task/*/children\<close>. \<open>None\<close> is an
  error of the system call. The read counter of package \<^verbatim>\<open>budget\<close> is left out.
\<close>

section \<open>Text\<close>

text \<open>\<^verbatim>\<open>strings.Fields\<close>: the maximal runs of non-space bytes.\<close>

function Fields :: "string \<Rightarrow> string list" where
  "Fields s =
     (let t = dropWhile is_space s
      in if t = [] then []
         else takeWhile (\<lambda>c. \<not> is_space c) t # Fields (dropWhile (\<lambda>c. \<not> is_space c) t))"
  by pat_completeness auto
termination
proof (relation "measure length", goal_cases)
  case (2 s t)
  then obtain c u where t: "t = c # u" by (metis list.exhaust)
  have "\<not> is_space c" using 2 t by (metis hd_dropWhile list.sel(1) list.distinct(1))
  then have "length (dropWhile (\<lambda>c. \<not> is_space c) t) \<le> length u"
    by (simp add: t length_dropWhile_le)
  also have "length u < length t" by (simp add: t)
  also have "length t \<le> length s" using 2 by (simp add: length_dropWhile_le)
  finally show ?case by simp
qed simp

declare Fields.simps [simp del]

text \<open>
  \<^verbatim>\<open>bufio.Scanner\<close> with the line splitter: lines without their terminator and one carriage
  return; the scan stops with an error at a line of 64 KiB or more.
\<close>

definition drop_cr :: "string \<Rightarrow> string" where
  "drop_cr l = (if l \<noteq> [] \<and> last l = CHR 0x0D then butlast l else l)"

definition raw_lines :: "string \<Rightarrow> string list" where
  "raw_lines s = (let ls = SplitByte s (CHR 0x0A) in if last ls = [] then butlast ls else ls)"

definition line_limit :: nat where "line_limit = 65536"

definition scan_lines :: "string \<Rightarrow> string list" where
  "scan_lines s = map drop_cr (takeWhile (\<lambda>l. length l < line_limit) (raw_lines s))"

definition scan_error :: "string \<Rightarrow> bool" where
  "scan_error s \<longleftrightarrow> list_ex (\<lambda>l. \<not> length l < line_limit) (raw_lines s)"

definition TrimRightByte :: "string \<Rightarrow> char \<Rightarrow> string" where
  "TrimRightByte s d = rev (dropWhile (\<lambda>c. c = d) (rev s))"

text \<open>\<^verbatim>\<open>strings.LastIndexByte\<close>: what follows the last occurrence, if there is one.\<close>

definition after_last :: "string \<Rightarrow> char \<Rightarrow> string option" where
  "after_last s d = (if d \<in> set s then Some (rev (takeWhile (\<lambda>c. c \<noteq> d) (rev s))) else None)"

text \<open>\<^verbatim>\<open>path.Base\<close> and \<^verbatim>\<open>filepath.Base\<close>.\<close>

definition Base :: "string \<Rightarrow> string" where
  "Base p =
     (if p = [] then ''.''
      else
        (let q = TrimRightByte p (CHR ''/'')
         in if q = [] then ''/'' else rev (takeWhile (\<lambda>c. c \<noteq> CHR ''/'') (rev q))))"

text \<open>\<^verbatim>\<open>strconv.ParseUint(s, 10, 64)\<close>.\<close>

definition ParseUint64 :: "string \<Rightarrow> nat option" where
  "ParseUint64 s =
     (if s = [] \<or> \<not> list_all is_digit s then None
      else (let v = digits_val 0 s in if v < 2 ^ 64 then Some v else None))"

section \<open>The file system view\<close>

record procfs =
  pf_file :: "int \<Rightarrow> string \<Rightarrow> string option"
  pf_exe :: "int \<Rightarrow> string option"
  pf_root :: "(string \<times> bool) list option"
  pf_children :: "int \<Rightarrow> string option list"

definition Processes :: "procfs \<Rightarrow> int list option" where
  "Processes fs =
     (case pf_root fs of
        None \<Rightarrow> None
      | Some ents \<Rightarrow> Some (List.map_filter (\<lambda>(name, isDir). if isDir then Atoi name else None) ents))"

definition Comm :: "procfs \<Rightarrow> int \<Rightarrow> string option" where
  "Comm fs pid = map_option TrimSpace (pf_file fs pid ''comm'')"

definition Cmdline :: "procfs \<Rightarrow> int \<Rightarrow> string list option" where
  "Cmdline fs pid = map_option (\<lambda>b. SplitByte (TrimRightByte b (CHR 0x00)) (CHR 0x00)) (pf_file fs pid ''cmdline'')"

definition environ_entry :: "string \<Rightarrow> (string \<times> string) option" where
  "environ_entry part =
     (if part = [] then None
      else (case IndexByte part (CHR ''='') of
              None \<Rightarrow> None
            | Some i \<Rightarrow> if i = 0 then None else Some (take i part, drop (Suc i) part)))"

definition Environ :: "procfs \<Rightarrow> int \<Rightarrow> (string, string) gomap option" where
  "Environ fs pid =
     map_option (\<lambda>b. fold (\<lambda>(k, v) m. gput k v m) (List.map_filter environ_entry (SplitByte b (CHR 0x00))) [])
       (pf_file fs pid ''environ'')"

fun ppid_lines :: "string list \<Rightarrow> int option" where
  "ppid_lines [] = None"
| "ppid_lines (l # ls) =
     (if HasPrefix l ''PPid:'' then
        (let fields = Fields l in if length fields < 2 then None else Atoi (fields ! 1))
      else ppid_lines ls)"

definition PPid :: "procfs \<Rightarrow> int \<Rightarrow> int option" where
  "PPid fs pid = (case pf_file fs pid ''status'' of None \<Rightarrow> None | Some b \<Rightarrow> ppid_lines (scan_lines b))"

definition childrenViaScan :: "procfs \<Rightarrow> int \<Rightarrow> int list option" where
  "childrenViaScan fs parent =
     map_option (filter (\<lambda>pid. pid \<noteq> parent \<and> PPid fs pid = Some parent)) (Processes fs)"

definition Children :: "procfs \<Rightarrow> int \<Rightarrow> int list option" where
  "Children fs pid =
     (if pf_children fs pid = [] then childrenViaScan fs pid
      else
        (let nums = concat (map (\<lambda>f. case f of None \<Rightarrow> [] | Some b \<Rightarrow> List.map_filter Atoi (Fields b))
                      (pf_children fs pid));
             kids = rev (remdups (rev nums))
         in if kids \<noteq> [] then Some kids else childrenViaScan fs pid))"

definition ResolveExe :: "procfs \<Rightarrow> int \<Rightarrow> string" where
  "ResolveExe fs pid = (case pf_exe fs pid of None \<Rightarrow> [] | Some t \<Rightarrow> t)"

record Status =
  stt_Name :: string
  stt_TracerPid :: int
  stt_RealUID :: int
  stt_EffUID :: int
  stt_CapEff :: string
  stt_CapInh :: string
  stt_CapPrm :: string

definition zero_Status :: Status where
  "zero_Status = \<lparr>stt_Name = [], stt_TracerPid = 0, stt_RealUID = 0, stt_EffUID = 0, stt_CapEff = [],
     stt_CapInh = [], stt_CapPrm = []\<rparr>"

text \<open>
  \<^verbatim>\<open>strconv.Atoi\<close> gives 0 beside its error for a malformed number and the nearest bound for
  one out of range; the uid fields are stored without looking at the error.
\<close>

definition AtoiValue :: "string \<Rightarrow> int" where
  "AtoiValue s =
     (case Atoi s of
        Some v \<Rightarrow> v
      | None \<Rightarrow>
          (let neg = (s \<noteq> [] \<and> hd s = CHR ''-'');
               d = (if s \<noteq> [] \<and> (hd s = CHR ''-'' \<or> hd s = CHR ''+'') then tl s else s)
           in if d \<noteq> [] \<and> list_all is_digit d then (if neg then min_int64 else max_int64) else 0))"

definition status_line :: "string \<Rightarrow> Status \<Rightarrow> Status" where
  "status_line line s =
     (if HasPrefix line ''Name:'' then s\<lparr>stt_Name := TrimSpace (TrimPrefix line ''Name:'')\<rparr>
      else if HasPrefix line ''TracerPid:'' then
        (case Atoi (TrimSpace (TrimPrefix line ''TracerPid:'')) of
           None \<Rightarrow> s
         | Some v \<Rightarrow> s\<lparr>stt_TracerPid := v\<rparr>)
      else if HasPrefix line ''Uid:'' then
        (let f = Fields (TrimPrefix line ''Uid:'')
         in if length f \<ge> 2 then s\<lparr>stt_RealUID := AtoiValue (f ! 0), stt_EffUID := AtoiValue (f ! 1)\<rparr> else s)
      else if HasPrefix line ''CapEff:'' then s\<lparr>stt_CapEff := TrimSpace (TrimPrefix line ''CapEff:'')\<rparr>
      else if HasPrefix line ''CapInh:'' then s\<lparr>stt_CapInh := TrimSpace (TrimPrefix line ''CapInh:'')\<rparr>
      else if HasPrefix line ''CapPrm:'' then s\<lparr>stt_CapPrm := TrimSpace (TrimPrefix line ''CapPrm:'')\<rparr>
      else s)"

definition ReadStatus :: "procfs \<Rightarrow> int \<Rightarrow> Status option" where
  "ReadStatus fs pid =
     (case pf_file fs pid ''status'' of
        None \<Rightarrow> None
      | Some b \<Rightarrow> if scan_error b then None else Some (fold status_line (scan_lines b) zero_Status))"

definition ReadCgroup :: "procfs \<Rightarrow> int \<Rightarrow> string option" where
  "ReadCgroup fs pid = pf_file fs pid ''cgroup''"

definition ReadStartTime :: "procfs \<Rightarrow> int \<Rightarrow> nat option" where
  "ReadStartTime fs pid =
     (case pf_file fs pid ''stat'' of
        None \<Rightarrow> None
      | Some s \<Rightarrow>
          (case after_last s (CHR '')'') of
             None \<Rightarrow> None
           | Some rest \<Rightarrow>
               if length rest < 2 then None
               else
                 (let fields = Fields (tl rest)
                  in if length fields < 20 then None else ParseUint64 (fields ! 19))))"

fun ancestry_walk :: "procfs \<Rightarrow> nat \<Rightarrow> int \<Rightarrow> string list" where
  "ancestry_walk fs 0 cur = []"
| "ancestry_walk fs (Suc n) cur =
     (case PPid fs cur of
        None \<Rightarrow> []
      | Some ppid \<Rightarrow>
          if ppid = 0 \<or> ppid = cur then []
          else (case Comm fs ppid of None \<Rightarrow> [] | Some comm \<Rightarrow> comm # ancestry_walk fs n ppid))"

definition Ancestry :: "procfs \<Rightarrow> int \<Rightarrow> int \<Rightarrow> string list" where
  "Ancestry fs pid maxDepth = ancestry_walk fs (nat maxDepth) pid"

section \<open>Properties of the readers\<close>

lemma Ancestry_bound: "int (length (Ancestry fs pid n)) \<le> max 0 n"
proof -
  have "length (ancestry_walk fs k p) \<le> k" for k p
    by (induction k arbitrary: p) (auto split: option.splits)
  from this [of "nat n" pid] show ?thesis by (simp add: Ancestry_def)
qed

lemma Fields_simp:
  "Fields s = (if dropWhile is_space s = [] then []
     else takeWhile (\<lambda>c. \<not> is_space c) (dropWhile is_space s)
       # Fields (dropWhile (\<lambda>c. \<not> is_space c) (dropWhile is_space s)))"
  by (subst Fields.simps) (simp add: Let_def)

lemma Fields_Nil [simp]: "Fields [] = []"
  by (subst Fields_simp) simp

lemma Fields_space [simp]: "is_space c \<Longrightarrow> Fields (c # s) = Fields s"
  by (subst (1 2) Fields_simp) simp

lemma Fields_word:
  "w \<noteq> [] \<Longrightarrow> list_all (\<lambda>c. \<not> is_space c) w \<Longrightarrow> is_space c \<Longrightarrow> Fields (w @ c # s) = w # Fields s"
proof -
  assume w: "w \<noteq> []" "list_all (\<lambda>c. \<not> is_space c) w" "is_space c"
  have d: "dropWhile is_space (w @ c # s) = w @ c # s" using w by (cases w) auto
  have t: "takeWhile (\<lambda>c. \<not> is_space c) (w @ c # s) = w" "dropWhile (\<lambda>c. \<not> is_space c) (w @ c # s) = c # s"
    using w by (simp_all add: list_all_iff takeWhile_append2 dropWhile_append2)
  show ?thesis using w by (subst Fields_simp) (simp add: d t)
qed

text \<open>The fields of a space-separated record, as the kernel prints \<^verbatim>\<open>/proc/pid/stat\<close>.\<close>

definition word_ok :: "string \<Rightarrow> bool" where
  "word_ok w \<longleftrightarrow> w \<noteq> [] \<and> list_all (\<lambda>c. \<not> is_space c) w"

lemma Fields_record: "list_all word_ok ws \<Longrightarrow> Fields (concat (map (\<lambda>w. w @ '' '') ws)) = ws"
  by (induction ws) (simp_all add: word_ok_def Fields_word is_space_def)

lemma takeWhile_neq_append: "d \<notin> set s \<Longrightarrow> takeWhile (\<lambda>c. c \<noteq> d) (s @ d # t) = s"
  by (induction s) auto

lemma after_last_append: "d \<notin> set s \<Longrightarrow> after_last (p @ d # s) d = Some s"
  using takeWhile_neq_append [of d "rev s" "rev p"] by (simp add: after_last_def)

text \<open>
  The start time survives any command name: the record is split after the last closing
  parenthesis.
\<close>

lemma ReadStartTime_any_comm:
  assumes "pf_file fs pid ''stat'' = Some (head @ '') '' @ concat (map (\<lambda>w. w @ '' '') ws))"
    and "list_all word_ok ws" "20 \<le> length ws" "\<forall>w \<in> set ws. CHR '')'' \<notin> set w"
  shows "ReadStartTime fs pid = ParseUint64 (ws ! 19)"
proof -
  let ?r = "concat (map (\<lambda>w. w @ '' '') ws)"
  have "CHR '')'' \<notin> set (CHR '' '' # ?r)" using assms(4) by auto
  then have a: "after_last (head @ '') '' @ ?r) (CHR '')'') = Some (CHR '' '' # ?r)"
    using after_last_append [of "CHR '')''" "CHR '' '' # ?r" head] by simp
  have f: "Fields ?r = ws" by (rule Fields_record [OF assms(2)])
  have "?r \<noteq> []" using assms(3) by (cases ws) auto
  then have l: "\<not> length (CHR '' '' # ?r) < 2" by (cases ?r) auto
  show ?thesis using assms(1,3) unfolding ReadStartTime_def by (simp only: a option.case l f list.sel Let_def) simp
qed

lemma TrimRightByte_none: "s \<noteq> [] \<Longrightarrow> last s \<noteq> d \<Longrightarrow> TrimRightByte s d = s"
  by (cases s rule: rev_cases) (auto simp: TrimRightByte_def)

lemma Base_no_slash: "u \<noteq> [] \<Longrightarrow> CHR ''/'' \<notin> set u \<Longrightarrow> Base u = u"
proof -
  assume u: "u \<noteq> []" "CHR ''/'' \<notin> set u"
  then have "last u \<noteq> CHR ''/''" by (metis last_in_set)
  with u(1) have "TrimRightByte u (CHR ''/'') = u" by (rule TrimRightByte_none)
  moreover have "takeWhile (\<lambda>c. c \<noteq> CHR ''/'') (rev u) = rev u"
    using u(2) by (auto simp: takeWhile_eq_all_conv)
  ultimately show ?thesis using u(1) by (simp add: Base_def Let_def del: takeWhile_eq_all_conv)
qed

section \<open>Correctness\<close>

text \<open>
  The start time of a process is read from the right field whatever the process is called: for
  a stat record with any command text, parentheses and blanks included, followed by fields without
  parentheses, the reader returns the value of field 22.
\<close>

theorem start_time_any_comm:
  assumes "pf_file fs pid ''stat'' = Some (head @ '') '' @ concat (map (\<lambda>w. w @ '' '') ws))"
    and "list_all word_ok ws" "20 \<le> length ws" "\<forall>w \<in> set ws. CHR '')'' \<notin> set w"
  shows "ReadStartTime fs pid = ParseUint64 (ws ! 19)"
  by (rule ReadStartTime_any_comm [OF assms])

theorem start_time_any_comm_witness:
  "ReadStartTime \<lparr>pf_file = (\<lambda>p f. Some (''7 (evil) 1 2) '' @ concat (map (\<lambda>w. w @ '' '') (replicate 19 ''0'' @ [''8675309''])))),
      pf_exe = (\<lambda>p. None), pf_root = None, pf_children = (\<lambda>p. [])\<rparr> 7 = Some 8675309"
  using start_time_any_comm [of "\<lparr>pf_file = (\<lambda>p f. Some (''7 (evil) 1 2) '' @ concat (map (\<lambda>w. w @ '' '') (replicate 19 ''0'' @ [''8675309''])))),
      pf_exe = (\<lambda>p. None), pf_root = None, pf_children = (\<lambda>p. [])\<rparr>" 7 "''7 (evil) 1 2''" "replicate 19 ''0'' @ [''8675309'']"]
  by (simp add: list_all_iff word_ok_def is_space_def nth_append ParseUint64_def is_digit_def digits_val.simps digit_val_def)

end
