(* ===== verification/GC_Gate.thy ===== *)
theory GC_Gate
  imports GC_Prelude
begin

text \<open>
  The contract of a sliding-window gate. Several parts of the agent hold back repeated work with
  the same idea, each with its own data structure: the per-rule event limiter, the duplicate
  suppression of the runner, the sensor debouncer and the rate limit of active response. The
  abstract gate keeps the whole history of admissions; a request for a key is admitted exactly
  when fewer than \<open>cap\<close> admissions of that key lie in the window before it. The locale
  \<open>sliding_gate\<close> says what an implementation owes, a relation between its state and the
  history, and proves the properties of every implementation once.
\<close>

section \<open>Requests and the abstract gate\<close>

text \<open>
  A request reads the clock one or more times; \<open>'c\<close> are its readings. \<open>check\<close> is the reading
  the decision uses, \<open>stamp\<close> the one that is stored, \<open>finish\<close> the last one.
\<close>

fun drive :: "('s \<Rightarrow> 'c \<Rightarrow> 'k \<Rightarrow> bool \<times> 's) \<Rightarrow> 's \<Rightarrow> ('c \<times> 'k) list \<Rightarrow> bool list" where
  "drive step s [] = []"
| "drive step s ((c, k) # rs) = (let (b, s') = step s c k in b # drive step s' rs)"

definition recent :: "duration \<Rightarrow> ('k \<times> time) list \<Rightarrow> 'k \<Rightarrow> time \<Rightarrow> nat" where
  "recent win H k t = length (filter (\<lambda>(k', t'). k' = k \<and> t - win < t') H)"

fun abstract_gate ::
  "('c \<Rightarrow> time) \<Rightarrow> ('c \<Rightarrow> time) \<Rightarrow> nat \<Rightarrow> duration \<Rightarrow> ('k \<times> time) list \<Rightarrow> ('c \<times> 'k) list \<Rightarrow> bool list" where
  "abstract_gate check stamp cap win H [] = []"
| "abstract_gate check stamp cap win H ((c, k) # rs) =
     (let b = (recent win H k (check c) < cap)
      in b # abstract_gate check stamp cap win (if b then H @ [(k, stamp c)] else H) rs)"

definition admitted :: "('c \<Rightarrow> time) \<Rightarrow> ('c \<times> 'k) list \<Rightarrow> bool list \<Rightarrow> ('k \<times> time) list" where
  "admitted stamp rs bs = map (\<lambda>((c, k), b). (k, stamp c)) (filter snd (zip rs bs))"

definition in_window :: "duration \<Rightarrow> ('k \<times> time) list \<Rightarrow> 'k \<Rightarrow> time \<Rightarrow> nat" where
  "in_window win H k x = length (filter (\<lambda>(k', t). k' = k \<and> x - win < t \<and> t \<le> x) H)"

lemma in_window_le_recent: "t \<le> x \<Longrightarrow> in_window win H k x \<le> recent win H k t"
  unfolding in_window_def recent_def by (induction H) auto

lemma recent_append: "recent win (H @ G) k t = recent win H k t + recent win G k t"
  and in_window_append: "in_window win (H @ G) k t = in_window win H k t + in_window win G k t"
  by (simp_all add: recent_def in_window_def)

lemma recent_other_keys: "recent win (filter (\<lambda>(k', _). k' = k) H) k t = recent win H k t"
  unfolding recent_def by (induction H) auto

definition stamps :: "('k \<times> time) list \<Rightarrow> 'k \<Rightarrow> time list" where
  "stamps H k = map snd (filter (\<lambda>(k', _). k' = k) H)"

lemma stamps_append [simp]: "stamps (H @ G) k = stamps H k @ stamps G k"
  and stamps_single [simp]: "stamps [(k', t)] k = (if k' = k then [t] else [])"
  and stamps_Nil [simp]: "stamps [] k = []"
  by (simp_all add: stamps_def)

lemma recent_stamps: "recent win H k t = length (filter (\<lambda>t'. t - win < t') (stamps H k))"
  unfolding recent_def stamps_def by (induction H) auto

lemma in_stamps: "t \<in> set (stamps H k) \<longleftrightarrow> (k, t) \<in> set H"
  by (force simp: stamps_def)

lemma length_abstract_gate [simp]: "length (abstract_gate check stamp cap win H rs) = length rs"
  by (induction rs arbitrary: H) (auto simp: Let_def)

lemma abstract_gate_nonempty: "abstract_gate check stamp cap win H (rs @ [r]) \<noteq> []"
  by (metis length_abstract_gate length_0_conv snoc_eq_iff_butlast)

section \<open>Implementations\<close>

locale sliding_gate =
  fixes step :: "'s \<Rightarrow> 'c \<Rightarrow> 'k \<Rightarrow> bool \<times> 's"
    and init :: 's
    and check stamp finish :: "'c \<Rightarrow> time"
    and clock_ok :: "'c \<Rightarrow> bool"
    and cap :: nat
    and win :: duration
    and rel :: "'s \<Rightarrow> time \<Rightarrow> ('k \<times> time) list \<Rightarrow> bool"
  assumes readings: "clock_ok c \<Longrightarrow> check c \<le> stamp c \<and> stamp c \<le> finish c"
    and rel_init: "rel init T []"
    and rel_past: "rel s T H \<Longrightarrow> (k, t) \<in> set H \<Longrightarrow> t \<le> T"
    and step_verdict: "rel s T H \<Longrightarrow> clock_ok c \<Longrightarrow> T \<le> check c \<Longrightarrow>
          fst (step s c k) \<longleftrightarrow> recent win H k (check c) < cap"
    and step_rel: "rel s T H \<Longrightarrow> clock_ok c \<Longrightarrow> T \<le> check c \<Longrightarrow>
          rel (snd (step s c k)) (finish c) (if fst (step s c k) then H @ [(k, stamp c)] else H)"
begin

fun clocked :: "time \<Rightarrow> ('c \<times> 'k) list \<Rightarrow> bool" where
  "clocked T [] \<longleftrightarrow> True"
| "clocked T ((c, k) # rs) \<longleftrightarrow> clock_ok c \<and> T \<le> check c \<and> clocked (finish c) rs"

lemma drive_refines:
  "rel s T H \<Longrightarrow> clocked T rs \<Longrightarrow> drive step s rs = abstract_gate check stamp cap win H rs"
proof (induction rs arbitrary: s T H)
  case (Cons r rs)
  obtain c k where r: "r = (c, k)" by (cases r)
  with Cons.prems have ok: "clock_ok c" "T \<le> check c" "clocked (finish c) rs" by auto
  show ?case
    using step_verdict [OF Cons.prems(1) ok(1,2), of k] Cons.IH [OF step_rel [OF Cons.prems(1) ok(1,2), of k] ok(3)]
    by (cases "step s c k") (simp add: r Let_def)
qed simp

lemma window_kept:
  assumes "\<And>k x. in_window win H k x \<le> cap" "\<And>k t. (k, t) \<in> set H \<Longrightarrow> t \<le> T" "clocked T rs"
  shows "in_window win (H @ admitted stamp rs (abstract_gate check stamp cap win H rs)) k x \<le> cap"
  using assms
proof (induction rs arbitrary: H T)
  case (Cons r rs)
  obtain c k' where r: "r = (c, k')" by (cases r)
  with Cons.prems have ok: "clock_ok c" "T \<le> check c" "clocked (finish c) rs" by auto
  note rd = readings [OF ok(1)]
  show ?case
  proof (cases "recent win H k' (check c) < cap")
    case True
    let ?H = "H @ [(k', stamp c)]"
    have "in_window win ?H j y \<le> cap" for j y
    proof (cases "j = k' \<and> stamp c \<le> y")
      case True
      then have "in_window win H j y \<le> recent win H k' (check c)"
        using in_window_le_recent [of "check c" y win H k'] rd by auto
      then show ?thesis using \<open>recent win H k' (check c) < cap\<close> Cons.prems(1) [of j y]
        by (simp add: in_window_append) (simp add: in_window_def)
    next
      case False
      then show ?thesis using Cons.prems(1) [of j y] by (auto simp: in_window_append) (auto simp: in_window_def)
    qed
    moreover have "t \<le> finish c" if "(j, t) \<in> set ?H" for j t
      using that Cons.prems(2) [of j t] ok(2) rd by auto
    ultimately have "in_window win (?H @ admitted stamp rs (abstract_gate check stamp cap win ?H rs)) k x \<le> cap"
      using ok(3) by (intro Cons.IH)
    with True show ?thesis by (simp add: r Let_def admitted_def)
  next
    case False
    have "t \<le> finish c" if "(j, t) \<in> set H" for j t
      using that Cons.prems(2) [of j t] ok(2) rd by auto
    then have "in_window win (H @ admitted stamp rs (abstract_gate check stamp cap win H rs)) k x \<le> cap"
      using ok(3) Cons.prems(1) by (intro Cons.IH)
    with False show ?thesis by (simp add: r Let_def admitted_def)
  qed
qed (simp add: admitted_def)

text \<open>Never more than \<open>cap\<close> admissions of one key in any window.\<close>

theorem at_most_cap:
  assumes "clocked T rs"
  shows "in_window win (admitted stamp rs (drive step init rs)) k x \<le> cap"
  using window_kept [of "[]" T rs k x] assms drive_refines [OF rel_init assms]
  by (simp add: in_window_def)

text \<open>A request is refused only when the window before it is full.\<close>

lemma abstract_last:
  "last (abstract_gate check stamp cap win H (rs @ [(c, k)])) \<longleftrightarrow>
   recent win (H @ admitted stamp rs (abstract_gate check stamp cap win H rs)) k (check c) < cap"
proof (induction rs arbitrary: H)
  case (Cons r rs)
  obtain c' k' where r: "r = (c', k')" by (cases r)
  show ?case using Cons.IH by (simp add: r Let_def admitted_def abstract_gate_nonempty)
qed (simp add: admitted_def)

theorem refused_iff_full:
  assumes "clocked T (rs @ [(c, k)])"
  shows "\<not> last (drive step init (rs @ [(c, k)])) \<longleftrightarrow>
    cap \<le> recent win (admitted stamp rs (drive step init rs)) k (check c)"
proof -
  have "clocked T rs" using assms by (induction rs arbitrary: T) auto
  then show ?thesis
    using drive_refines [OF rel_init assms] drive_refines [OF rel_init \<open>clocked T rs\<close>]
      abstract_last [of "[]" rs c k] by auto
qed

text \<open>Keys do not interfere.\<close>

lemma clocked_mono: "clocked T rs \<Longrightarrow> S \<le> T \<Longrightarrow> clocked S rs"
  by (cases rs) auto

lemma clocked_filter: "clocked T rs \<Longrightarrow> clocked T (filter (\<lambda>(_, k'). k' = k) rs)"
proof (induction rs arbitrary: T)
  case (Cons r rs)
  obtain c k' where r: "r = (c, k')" by (cases r)
  with Cons.prems have ok: "clock_ok c" "T \<le> check c" "clocked (finish c) rs" by auto
  then have "T \<le> finish c" using readings [OF ok(1)] by simp
  with Cons.IH [OF ok(3)] ok show ?case by (auto simp: r intro: clocked_mono)
qed simp

lemma abstract_isolated:
  "map snd (filter (\<lambda>((_, k'), _). k' = k) (zip rs (abstract_gate check stamp cap win H rs)))
   = abstract_gate check stamp cap win (filter (\<lambda>(k', _). k' = k) H) (filter (\<lambda>(_, k'). k' = k) rs)"
proof (induction rs arbitrary: H)
  case (Cons r rs)
  obtain c k' where r: "r = (c, k')" by (cases r)
  show ?case using Cons.IH by (auto simp: r Let_def recent_other_keys)
qed simp

theorem keys_isolated:
  assumes "clocked T rs"
  shows "map snd (filter (\<lambda>((_, k'), _). k' = k) (zip rs (drive step init rs)))
    = drive step init (filter (\<lambda>(_, k'). k' = k) rs)"
  using drive_refines [OF rel_init assms] drive_refines [OF rel_init clocked_filter [OF assms]]
    abstract_isolated [of k rs "[]"] by simp

end

section \<open>Last-seen maps\<close>

text \<open>
  Two gates keep only the last admission of each key and prune old entries now and then. They
  admit once per window. \<open>last_rel\<close> is their relation to the history; pruning is invisible.
\<close>

definition last_rel :: "duration \<Rightarrow> ('k, time) gomap \<Rightarrow> time \<Rightarrow> ('k \<times> time) list \<Rightarrow> bool" where
  "last_rel w m T H \<longleftrightarrow> distinct (gkeys m) \<and> (\<forall>(k, t) \<in> set H. t \<le> T) \<and>
     (\<forall>k. case map_of m k of
            Some t \<Rightarrow> (k, t) \<in> set H \<and> (\<forall>t'. (k, t') \<in> set H \<longrightarrow> t' \<le> t)
          | None \<Rightarrow> \<forall>t. (k, t) \<in> set H \<longrightarrow> t \<le> T - w)"

lemma last_rel_Nil: "last_rel w [] T []"
  by (simp add: last_rel_def)

lemma last_rel_past: "last_rel w m T H \<Longrightarrow> (k, t) \<in> set H \<Longrightarrow> t \<le> T"
  by (auto simp: last_rel_def)

lemma last_rel_later: "last_rel w m T H \<Longrightarrow> T \<le> T' \<Longrightarrow> last_rel w m T' H"
  unfolding last_rel_def by (fastforce split: option.splits)

lemma recent_zero: "recent w H k c = 0 \<longleftrightarrow> (\<forall>t. (k, t) \<in> set H \<longrightarrow> t \<le> c - w)"
  by (auto simp: recent_def filter_empty_conv not_less)

lemma last_rel_case:
  "last_rel w m T H \<Longrightarrow>
   (case map_of m k of
      Some t \<Rightarrow> (k, t) \<in> set H \<and> (\<forall>t'. (k, t') \<in> set H \<longrightarrow> t' \<le> t)
    | None \<Rightarrow> \<forall>t. (k, t) \<in> set H \<longrightarrow> t \<le> T - w)"
  unfolding last_rel_def by blast

lemma last_rel_verdict:
  assumes "last_rel w m T H" "T \<le> c" "0 < w" "w \<le> max_int64"
  shows "(case map_of m k of Some t \<Rightarrow> \<not> time_sub c t < w | None \<Rightarrow> True) \<longleftrightarrow> recent w H k c < 1"
proof (cases "map_of m k")
  case None
  then have "\<forall>t. (k, t) \<in> set H \<longrightarrow> t \<le> T - w" using last_rel_case [OF assms(1), of k] by simp
  then have "\<forall>t. (k, t) \<in> set H \<longrightarrow> t \<le> c - w" using assms(2) by (meson diff_right_mono order_trans)
  then have "recent w H k c = 0" by (simp only: recent_zero)
  then show ?thesis using None by simp
next
  case (Some t)
  then have t: "(k, t) \<in> set H" "\<forall>t'. (k, t') \<in> set H \<longrightarrow> t' \<le> t"
    using last_rel_case [OF assms(1), of k] by simp_all
  then have "recent w H k c = 0 \<longleftrightarrow> t \<le> c - w" unfolding recent_zero by (meson order_trans)
  then show ?thesis using Some time_sub_less [OF assms(3,4), of c t] by auto
qed

lemma last_rel_put:
  assumes "last_rel w m T H" "T \<le> t"
  shows "last_rel w (gput k t m) t (H @ [(k, t)])"
proof -
  have past: "\<And>j s. (j, s) \<in> set H \<Longrightarrow> s \<le> T" using last_rel_past [OF assms(1)] .
  have "case map_of (gput k t m) j of
        Some s \<Rightarrow> (j, s) \<in> set (H @ [(k, t)]) \<and> (\<forall>t'. (j, t') \<in> set (H @ [(k, t)]) \<longrightarrow> t' \<le> s)
      | None \<Rightarrow> \<forall>s. (j, s) \<in> set (H @ [(k, t)]) \<longrightarrow> s \<le> t - w" for j
  proof -
    have "case map_of m j of Some s \<Rightarrow> (j, s) \<in> set H \<and> (\<forall>t'. (j, t') \<in> set H \<longrightarrow> t' \<le> s)
        | None \<Rightarrow> \<forall>s. (j, s) \<in> set H \<longrightarrow> s \<le> T - w"
      by (rule last_rel_case [OF assms(1)])
    then show ?thesis using assms(2) past by (cases "j = k") (fastforce split: option.splits)+
  qed
  moreover have "\<forall>(j, s) \<in> set (H @ [(k, t)]). s \<le> t" using past assms(2) by fastforce
  ultimately show ?thesis using assms(1) unfolding last_rel_def by auto
qed

definition gprune :: "time \<Rightarrow> ('k, time) gomap \<Rightarrow> ('k, time) gomap" where
  "gprune cutoff m = filter (\<lambda>(_, t). \<not> t < cutoff) m"

lemma map_of_filter_val:
  "distinct (gkeys m) \<Longrightarrow> map_of (filter (\<lambda>(_, t). P t) m) k = (case map_of m k of Some t \<Rightarrow> if P t then Some t else None | None \<Rightarrow> None)"
proof (induction m)
  case (Cons x m)
  have "map_of m (fst x) = None" using Cons.prems by (simp add: map_of_eq_None_iff)
  with Cons show ?case by (cases x) (auto split: option.splits)
qed simp

lemma distinct_filter_keys: "distinct (gkeys m) \<Longrightarrow> distinct (gkeys (filter P m))"
  by (induction m) (auto dest: filter_is_subset [THEN subsetD])

lemma last_rel_prune:
  assumes "last_rel w m T H" "T \<le> now"
  shows "last_rel w (gprune (now - w) m) now H"
proof -
  have d: "distinct (gkeys m)" using assms(1) by (simp add: last_rel_def)
  have "case map_of (gprune (now - w) m) k of
        Some t \<Rightarrow> (k, t) \<in> set H \<and> (\<forall>t'. (k, t') \<in> set H \<longrightarrow> t' \<le> t)
      | None \<Rightarrow> \<forall>t. (k, t) \<in> set H \<longrightarrow> t \<le> now - w" for k
  proof -
    have "case map_of m k of Some s \<Rightarrow> (k, s) \<in> set H \<and> (\<forall>t'. (k, t') \<in> set H \<longrightarrow> t' \<le> s)
        | None \<Rightarrow> \<forall>s. (k, s) \<in> set H \<longrightarrow> s \<le> T - w"
      by (rule last_rel_case [OF assms(1)])
    then show ?thesis
      using map_of_filter_val [OF d, of "\<lambda>t. \<not> t < now - w" k] assms(2)
      by (fastforce simp: gprune_def split: option.splits if_splits)
  qed
  moreover have "\<forall>(k, t) \<in> set H. t \<le> now" using last_rel_past [OF assms(1)] assms(2) by fastforce
  moreover have "distinct (gkeys (gprune (now - w) m))" unfolding gprune_def by (rule distinct_filter_keys [OF d])
  ultimately show ?thesis unfolding last_rel_def by blast
qed

text \<open>Every positive duration a Go value can hold is \<open>window_of n\<close> for some \<open>n\<close>.\<close>

definition window_of :: "nat \<Rightarrow> duration" where
  "window_of n = min (int (Suc n)) max_int64"

lemma window_of_bounds: "0 < window_of n" "window_of n \<le> max_int64"
  by (simp_all add: window_of_def max_int64_def)

lemma window_of_surj: "0 < w \<Longrightarrow> w \<le> max_int64 \<Longrightarrow> window_of (nat (w - 1)) = w"
  by (simp add: window_of_def)

end
