(* ===== verification/GC_Sensor.thy ===== *)
theory GC_Sensor
  imports GC_Procfs GC_Gate
begin

text \<open>
  The event source, package \<^verbatim>\<open>internal/sensor\<close>: the sensor record, the choice of backend
  (\<^verbatim>\<open>sensor.go\<close>, \<^verbatim>\<open>open.go\<close>), the non-blocking send and its counters and the
  debouncer (\<^verbatim>\<open>stats.go\<close>), the audit log parser and reader (\<^verbatim>\<open>auditd.go\<close>) and
  the polling backend (\<^verbatim>\<open>procpoll.go\<close>). The eBPF backend is the subject of
  \<open>GC_EBPF\<close>; only its availability appears here.
\<close>

section \<open>Sensor events and backends\<close>

type_synonym Kind = string

definition KindExec :: Kind where "KindExec = ''exec''"
definition KindOpenat :: Kind where "KindOpenat = ''openat''"
definition KindConnect :: Kind where "KindConnect = ''connect''"
definition KindPtrace :: Kind where "KindPtrace = ''ptrace''"
definition KindInitModule :: Kind where "KindInitModule = ''init_module''"
definition KindMemfdCreate :: Kind where "KindMemfdCreate = ''memfd_create''"
definition KindListen :: Kind where "KindListen = ''listen''"
definition KindSocket :: Kind where "KindSocket = ''socket''"
definition KindSplice :: Kind where "KindSplice = ''splice''"

lemmas kind_defs = KindExec_def KindOpenat_def KindConnect_def KindPtrace_def KindInitModule_def
  KindMemfdCreate_def KindListen_def KindSocket_def KindSplice_def

record SensorEvent =
  se_Kind :: Kind
  se_When :: time
  se_PID :: int
  se_PPID :: int
  se_UID :: nat
  se_Comm :: string
  se_Argv :: "string list"
  se_Path :: string
  se_RemoteIP :: string
  se_RemotePort :: int
  se_SyscallNR :: int
  se_Extra :: "(string, string) gomap"

definition zero_SensorEvent :: SensorEvent where
  "zero_SensorEvent = \<lparr>se_Kind = [], se_When = 0, se_PID = 0, se_PPID = 0, se_UID = 0, se_Comm = [],
     se_Argv = [], se_Path = [], se_RemoteIP = [], se_RemotePort = 0, se_SyscallNR = 0, se_Extra = []\<rparr>"

datatype backend = EBPF | Auditd | ProcPoll

datatype open_error = EBPFUnavailable | AuditdUnavailable | UnknownBackend string

text \<open>\<open>ebpf\<close> and \<open>auditd\<close> say whether the constructors of these backends succeed.\<close>

definition Auto :: "bool \<Rightarrow> bool \<Rightarrow> backend" where
  "Auto ebpf auditd = (if ebpf then EBPF else if auditd then Auditd else ProcPoll)"

definition OpenSource :: "bool \<Rightarrow> bool \<Rightarrow> string \<Rightarrow> open_error + backend" where
  "OpenSource ebpf auditd backend =
     (let b = ToLower (TrimSpace backend)
      in if b = [] \<or> b = ''auto'' then Inr (Auto ebpf auditd)
         else if b = ''ebpf'' then (if ebpf then Inr EBPF else Inl EBPFUnavailable)
         else if b = ''auditd'' \<or> b = ''audit'' then (if auditd then Inr Auditd else Inl AuditdUnavailable)
         else if b = ''proc-poll'' \<or> b = ''procpoll'' \<or> b = ''proc'' then Inr ProcPoll
         else Inl (UnknownBackend backend))"

section \<open>Counters and the non-blocking send\<close>

record Stats =
  sts_ChannelDrop :: nat
  sts_RingbufOverrun :: nat
  sts_Emitted :: nat

definition add64 :: "nat \<Rightarrow> nat" where
  "add64 n = Suc n mod 2 ^ 64"

text \<open>
  A channel is its capacity and its buffered events. When the context is done and the buffer has
  room, Go chooses one of the two ready cases; \<open>pickDone\<close> is that choice.
\<close>

record chan =
  ch_cap :: nat
  ch_buf :: "SensorEvent list"

definition TryEmit :: "bool \<Rightarrow> bool \<Rightarrow> chan \<Rightarrow> Stats \<Rightarrow> SensorEvent \<Rightarrow> bool \<times> chan \<times> Stats" where
  "TryEmit done pickDone ch st ev =
     (let room = (length (ch_buf ch) < ch_cap ch)
      in if done \<and> (\<not> room \<or> pickDone) then (False, ch, st)
         else if room
         then (True, ch\<lparr>ch_buf := ch_buf ch @ [ev]\<rparr>, st\<lparr>sts_Emitted := add64 (sts_Emitted st)\<rparr>)
         else (False, ch, st\<lparr>sts_ChannelDrop := add64 (sts_ChannelDrop st)\<rparr>))"

definition NoteRingbufOverrun :: "Stats \<Rightarrow> Stats" where
  "NoteRingbufOverrun st = st\<lparr>sts_RingbufOverrun := add64 (sts_RingbufOverrun st)\<rparr>"

section \<open>Debouncer\<close>

record Debouncer =
  deb_window :: duration
  deb_last :: "(string, time) gomap"

definition NewDebouncer :: "duration \<Rightarrow> Debouncer option" where
  "NewDebouncer window = (if window \<le> 0 then None else Some \<lparr>deb_window = window, deb_last = []\<rparr>)"

definition debounceKey :: "SensorEvent \<Rightarrow> string" where
  "debounceKey ev = se_Kind ev @ ''|'' @ Itoa (se_PID ev) @ ''|'' @ se_Path ev @ ''|'' @ se_Comm ev @ ''|'' @ se_RemoteIP ev"

definition debounce :: "Debouncer option \<Rightarrow> time \<Rightarrow> string \<Rightarrow> bool \<times> Debouncer option" where
  "debounce od now key =
     (case od of
        None \<Rightarrow> (True, None)
      | Some d \<Rightarrow>
          if (case map_of (deb_last d) key of Some t \<Rightarrow> time_sub now t < deb_window d | None \<Rightarrow> False)
          then (False, Some d)
          else
            (let m = gput key now (deb_last d)
             in (True, Some (d\<lparr>deb_last := (if length m > 4096 then gprune (now - deb_window d) m else m)\<rparr>))))"

definition DebounceAllow :: "Debouncer option \<Rightarrow> time \<Rightarrow> SensorEvent \<Rightarrow> bool \<times> Debouncer option" where
  "DebounceAllow od now ev = debounce od now (debounceKey ev)"

definition deb_rel :: "duration \<Rightarrow> Debouncer option \<Rightarrow> time \<Rightarrow> (string \<times> time) list \<Rightarrow> bool" where
  "deb_rel w od T H \<longleftrightarrow> (\<exists>d. od = Some d \<and> deb_window d = w \<and> last_rel w (deb_last d) T H)"

lemma debounce_verdict:
  assumes "deb_rel w od T H" "T \<le> now" "0 < w" "w \<le> max_int64"
  shows "fst (debounce od now k) \<longleftrightarrow> recent w H k now < 1"
proof -
  from assms(1) obtain d where d: "od = Some d" "deb_window d = w" "last_rel w (deb_last d) T H"
    by (auto simp: deb_rel_def)
  show ?thesis
    using last_rel_verdict [OF d(3) assms(2-4), of k] d(1,2)
    by (auto simp: debounce_def Let_def split: option.splits)
qed

lemma debounce_rel:
  assumes "deb_rel w od T H" "T \<le> now"
  shows "deb_rel w (snd (debounce od now k)) now (if fst (debounce od now k) then H @ [(k, now)] else H)"
proof -
  from assms(1) obtain d where d: "od = Some d" "deb_window d = w" "last_rel w (deb_last d) T H"
    by (auto simp: deb_rel_def)
  show ?thesis
    using last_rel_put [OF d(3) assms(2), of k] last_rel_later [OF d(3) assms(2)]
      last_rel_prune [OF last_rel_put [OF d(3) assms(2), of k] order_refl] d(1,2)
    by (auto simp: debounce_def deb_rel_def Let_def)
qed

interpretation deb: sliding_gate debounce "NewDebouncer (window_of n)" "\<lambda>t. t" "\<lambda>t. t" "\<lambda>t. t" "\<lambda>_. True"
  1 "window_of n" "deb_rel (window_of n)" for n
proof unfold_locales
  show "deb_rel (window_of n) (NewDebouncer (window_of n)) T []" for T
    using window_of_bounds [of n] last_rel_Nil by (auto simp: deb_rel_def NewDebouncer_def)
  show "deb_rel (window_of n) s T H \<Longrightarrow> (k, t) \<in> set H \<Longrightarrow> t \<le> T" for s T H k t
    using last_rel_past by (fastforce simp: deb_rel_def)
qed (use debounce_verdict window_of_bounds debounce_rel in blast)+

section \<open>Audit log\<close>

definition syscallMap :: "(int \<times> Kind) list" where
  "syscallMap = [(59, KindExec), (322, KindExec), (257, KindOpenat), (42, KindConnect), (101, KindPtrace),
     (175, KindInitModule), (313, KindInitModule), (319, KindMemfdCreate), (50, KindListen),
     (41, KindSocket), (275, KindSplice)]"

definition TrimByte :: "string \<Rightarrow> char \<Rightarrow> string" where
  "TrimByte s d = TrimRightByte (dropWhile (\<lambda>c. c = d) s) d"

definition audit_field :: "string \<Rightarrow> (string \<times> string) option" where
  "audit_field part =
     (case IndexByte part (CHR ''='') of
        None \<Rightarrow> None
      | Some i \<Rightarrow> if i > 0 then Some (take i part, TrimByte (drop (Suc i) part) (CHR 0x22)) else None)"

definition audit_fields :: "string \<Rightarrow> (string, string) gomap" where
  "audit_fields line = fold (\<lambda>(k, v) m. gput k v m) (List.map_filter audit_field (Fields line)) []"

text \<open>\<^verbatim>\<open>strconv.ParseUint(s, 10, 32)\<close> with its error dropped.\<close>

definition ParseUint32Value :: "string \<Rightarrow> nat" where
  "ParseUint32Value s = (if s = [] \<or> \<not> list_all is_digit s then 0 else min (digits_val 0 s) (2 ^ 32 - 1))"

definition hex_val :: "char \<Rightarrow> nat option" where
  "hex_val c =
     (if is_digit c then Some (byte c - 48)
      else if 97 \<le> byte c \<and> byte c \<le> 102 then Some (byte c - 87)
      else if 65 \<le> byte c \<and> byte c \<le> 70 then Some (byte c - 55) else None)"

text \<open>Two hex digits at a time; a trailing single digit is ignored. \<open>None\<close>: not hexadecimal.\<close>

fun hex_bytes :: "string \<Rightarrow> nat list option" where
  "hex_bytes (a # b # s) =
     (case (hex_val a, hex_val b) of
        (Some x, Some y) \<Rightarrow> map_option (\<lambda>bs. (16 * x + y) # bs) (hex_bytes s)
      | _ \<Rightarrow> None)"
| "hex_bytes _ = Some []"

definition dotted :: "nat list \<Rightarrow> string" where
  "dotted bs = Join (map (\<lambda>b. Itoa (int b)) bs) ''.''"

definition decodeAuditAddr :: "string \<Rightarrow> string" where
  "decodeAuditAddr hexAddr =
     (if length hexAddr < 16 then []
      else (case hex_bytes hexAddr of
              None \<Rightarrow> []
            | Some b \<Rightarrow> if length b \<ge> 8 \<and> b ! 0 = 2 then dotted (take 4 (drop 4 b)) else []))"

definition put_nonempty :: "string \<Rightarrow> (string, string) gomap \<Rightarrow> (string, string) gomap \<Rightarrow> (string, string) gomap" where
  "put_nonempty k flds extra = (if gget [] flds k \<noteq> [] then gput k (gget [] flds k) extra else extra)"

definition parseAuditLine :: "time \<Rightarrow> string \<Rightarrow> SensorEvent option" where
  "parseAuditLine now line =
     (if \<not> Contains line ''type=SYSCALL'' then None
      else
        (let flds = audit_fields line;
             fld = gget [] flds;
             nr = AtoiValue (fld ''syscall'')
         in case map_of syscallMap nr of
              None \<Rightarrow> None
            | Some kind \<Rightarrow>
                (let e0 = zero_SensorEvent\<lparr>se_Kind := kind, se_When := now, se_PID := AtoiValue (fld ''pid''),
                            se_PPID := AtoiValue (fld ''ppid''), se_UID := ParseUint32Value (fld ''uid''),
                            se_Comm := fld ''comm'', se_SyscallNR := nr\<rparr>;
                     e1 = (if fld ''exe'' \<noteq> []
                           then e0\<lparr>se_Path := fld ''exe'', se_Extra := gput ''exe'' (fld ''exe'') (se_Extra e0)\<rparr> else e0);
                     e2 = (if fld ''name'' \<noteq> []
                           then e1\<lparr>se_Extra := gput ''path'' (fld ''name'') (se_Extra e1),
                                   se_Path := (if se_Path e1 = [] \<or> kind = KindOpenat then fld ''name'' else se_Path e1)\<rparr>
                           else e1);
                     e3 = (if fld ''cwd'' \<noteq> []
                           then
                             (let x = gput ''cwd'' (fld ''cwd'') (se_Extra e2)
                              in if kind = KindOpenat \<and> se_Path e2 \<noteq> [] \<and> \<not> HasPrefix (se_Path e2) ''/''
                                 then
                                   (let p = TrimRightByte (fld ''cwd'') (CHR ''/'') @ ''/'' @ se_Path e2
                                    in e2\<lparr>se_Path := p, se_Extra := gput ''path'' p x\<rparr>)
                                 else e2\<lparr>se_Extra := x\<rparr>)
                           else e2);
                     e4 = e3\<lparr>se_Extra := put_nonempty ''key'' flds (se_Extra e3)\<rparr>;
                     e5 = (if kind = KindSocket \<or> kind = KindSplice
                           then e4\<lparr>se_Extra := fold (\<lambda>k x. put_nonempty k flds x)
                                   [''a0'', ''a1'', ''a2'', ''a3'', ''exit'', ''success''] (se_Extra e4)\<rparr>
                           else e4)
                 in Some (if kind = KindConnect \<and> fld ''addr'' \<noteq> []
                          then e5\<lparr>se_Extra := gput ''addr'' (fld ''addr'') (se_Extra e5),
                                  se_RemoteIP := decodeAuditAddr (fld ''addr'')\<rparr>
                          else e5))))"

text \<open>
  The tail-follow loop. A chunk is what the log holds between two ends of file: \<^verbatim>\<open>ReadString\<close>
  returns its complete lines and then fails with the unterminated rest, which the loop drops.
\<close>

definition chunk_lines :: "string \<Rightarrow> string list" where
  "chunk_lines chunk = map (\<lambda>l. l @ [CHR 0x0A]) (butlast (SplitByte chunk (CHR 0x0A)))"

definition follow_lines :: "string list \<Rightarrow> string list" where
  "follow_lines chunks = concat (map chunk_lines chunks)"

section \<open>Polling\<close>

text \<open>One tick: the new snapshot and the events of the pids that were not in the previous one.\<close>

definition poll_event :: "procfs \<Rightarrow> time \<Rightarrow> int \<Rightarrow> SensorEvent" where
  "poll_event fs now pid =
     zero_SensorEvent\<lparr>se_Kind := KindExec, se_When := now, se_PID := pid,
       se_PPID := (case PPid fs pid of None \<Rightarrow> 0 | Some p \<Rightarrow> p),
       se_Comm := (case Comm fs pid of None \<Rightarrow> [] | Some c \<Rightarrow> c),
       se_Argv := (case Cmdline fs pid of None \<Rightarrow> [] | Some a \<Rightarrow> a)\<rparr>"

definition poll_tick :: "procfs \<Rightarrow> time \<Rightarrow> int list \<Rightarrow> int list \<times> SensorEvent list" where
  "poll_tick fs now prev =
     (case Processes fs of
        None \<Rightarrow> (prev, [])
      | Some pids \<Rightarrow> (pids, map (poll_event fs now) (filter (\<lambda>pid. pid \<notin> set prev) pids)))"

section \<open>Properties\<close>

lemma OpenSource_auto: "OpenSource ebpf auditd ''auto'' = Inr (Auto ebpf auditd)"
  and OpenSource_ebpf: "OpenSource ebpf auditd ''ebpf'' = (if ebpf then Inr EBPF else Inl EBPFUnavailable)"
  by (cases ebpf; cases auditd; code_simp)+

lemma TryEmit_bounded:
  "length (ch_buf ch) \<le> ch_cap ch \<Longrightarrow> length (ch_buf (fst (snd (TryEmit d p ch st ev)))) \<le> ch_cap ch"
  by (auto simp: TryEmit_def Let_def)

text \<open>Unless the context is done, every event is either queued or counted as dropped.\<close>

lemma TryEmit_accounted:
  assumes "sts_Emitted st < 2 ^ 64 - 1" "sts_ChannelDrop st < 2 ^ 64 - 1"
  shows "\<exists>b ch' st'. TryEmit False p ch st ev = (b, ch', st') \<and>
    sts_Emitted st' + sts_ChannelDrop st' = Suc (sts_Emitted st + sts_ChannelDrop st) \<and>
    ch_buf ch' = ch_buf ch @ (if b then [ev] else []) \<and> (b \<longleftrightarrow> length (ch_buf ch) < ch_cap ch)"
  using assms by (auto simp: TryEmit_def Let_def add64_def)

lemma poll_tick_new:
  "poll_tick fs now prev = (cur, evs) \<Longrightarrow> Processes fs = Some pids \<Longrightarrow>
   map se_PID evs = filter (\<lambda>p. p \<notin> set prev) pids \<and> cur = pids"
  by (auto simp: poll_tick_def poll_event_def comp_def)

section \<open>Correctness\<close>

text \<open>
  The debouncer forwards the first event of a key and then at most one per window, refuses only
  inside a window, and its pruning is invisible: on every sequence of events with a monotone clock
  it behaves as the abstract gate with capacity one.
\<close>

theorem debounce_refines:
  assumes "0 < w" "w \<le> max_int64" "sorted (map fst rs)"
  shows "drive debounce (NewDebouncer w) rs = abstract_gate (\<lambda>t. t) (\<lambda>t. t) 1 w [] rs \<and>
    in_window w (admitted (\<lambda>t. t) rs (drive debounce (NewDebouncer w) rs)) k x \<le> 1"
proof -
  have w: "window_of (nat (w - 1)) = w" by (rule window_of_surj [OF assms(1,2)])
  have c: "deb.clocked T rs" if "\<forall>t \<in> set (map fst rs). T \<le> t" for T
    using assms(3) that by (induction rs arbitrary: T) auto
  have "\<exists>T. \<forall>t \<in> set (map fst rs). T \<le> t" using assms(3) by (cases rs) auto
  then obtain T where "deb.clocked T rs" using c by blast
  then show ?thesis
    using deb.drive_refines [OF deb.rel_init, of T rs "nat (w - 1)"] deb.at_most_cap [of T rs "nat (w - 1)" k x]
    unfolding w by blast
qed

theorem debounce_refines_witness:
  "drive debounce (NewDebouncer 100) [(0, ''a''), (50, ''a''), (60, ''b''), (100, ''a'')] = [True, False, True, True]"
  using debounce_refines [of 100 "[(0, ''a''), (50, ''a''), (60, ''b''), (100, ''a'')]" "''a''" 50]
  by (simp add: recent_def Let_def max_int64_def)

fun emit_burst :: "chan \<Rightarrow> Stats \<Rightarrow> SensorEvent list \<Rightarrow> chan \<times> Stats" where
  "emit_burst ch st [] = (ch, st)"
| "emit_burst ch st (ev # evs) = (case TryEmit False False ch st ev of (_, ch', st') \<Rightarrow> emit_burst ch' st' evs)"

lemma emit_burst_eq:
  assumes "length (ch_buf ch) \<le> ch_cap ch" "sts_Emitted st + sts_ChannelDrop st + length evs < 2 ^ 64"
  shows "emit_burst ch st evs =
    (ch\<lparr>ch_buf := ch_buf ch @ take (ch_cap ch - length (ch_buf ch)) evs\<rparr>,
     st\<lparr>sts_Emitted := sts_Emitted st + min (length evs) (ch_cap ch - length (ch_buf ch)),
        sts_ChannelDrop := sts_ChannelDrop st + (length evs - (ch_cap ch - length (ch_buf ch)))\<rparr>)"
  using assms
proof (induction evs arbitrary: ch st)
  case (Cons ev evs)
  show ?case
  proof (cases "length (ch_buf ch) < ch_cap ch")
    case True
    then show ?thesis
      using Cons.prems Cons.IH [of "ch\<lparr>ch_buf := ch_buf ch @ [ev]\<rparr>" "st\<lparr>sts_Emitted := Suc (sts_Emitted st)\<rparr>"]
      by (auto simp: TryEmit_def Let_def add64_def take_Cons')
  next
    case False
    then show ?thesis
      using Cons.prems Cons.IH [of ch "st\<lparr>sts_ChannelDrop := Suc (sts_ChannelDrop st)\<rparr>"]
      by (auto simp: TryEmit_def Let_def add64_def)
  qed
qed simp

text \<open>
  A full sensor channel sheds load and counts it: while nothing is consumed, a burst of events
  fills the channel with its first events, in order, and every further event is dropped and counted;
  emitted and dropped events add up to the burst.
\<close>

theorem burst_accounted:
  assumes "emit_burst \<lparr>ch_cap = n, ch_buf = []\<rparr> \<lparr>sts_ChannelDrop = 0, sts_RingbufOverrun = 0, sts_Emitted = 0\<rparr> evs = (ch, st)"
    and "length evs < 2 ^ 64"
  shows "ch_buf ch = take n evs \<and> sts_Emitted st = min (length evs) n \<and> sts_Emitted st + sts_ChannelDrop st = length evs"
  using assms emit_burst_eq [of "\<lparr>ch_cap = n, ch_buf = []\<rparr>" "\<lparr>sts_ChannelDrop = 0, sts_RingbufOverrun = 0, sts_Emitted = 0\<rparr>" evs]
  by auto

theorem burst_accounted_witness:
  "\<exists>ch st. emit_burst \<lparr>ch_cap = 2, ch_buf = []\<rparr> \<lparr>sts_ChannelDrop = 0, sts_RingbufOverrun = 0, sts_Emitted = 0\<rparr>
      [zero_SensorEvent, zero_SensorEvent, zero_SensorEvent] = (ch, st) \<and> sts_Emitted st = 2 \<and> sts_ChannelDrop st = 1"
proof -
  obtain ch st where b: "emit_burst \<lparr>ch_cap = 2, ch_buf = []\<rparr> \<lparr>sts_ChannelDrop = 0, sts_RingbufOverrun = 0, sts_Emitted = 0\<rparr>
      [zero_SensorEvent, zero_SensorEvent, zero_SensorEvent] = (ch, st)" by fastforce
  then show ?thesis using burst_accounted [OF b] by auto
qed

lemma chunk_lines_append: "s = [] \<or> last s = CHR 0x0A \<Longrightarrow> chunk_lines (s @ t) = chunk_lines s @ chunk_lines t"
proof (induction s rule: rev_induct)
  case (snoc c s)
  then show ?case by (simp add: chunk_lines_def SplitByte_append_line SplitByte_nonempty butlast_append)
qed (simp add: chunk_lines_def)

text \<open>
  Following the audit log loses no line that is written in one piece: if every chunk read
  between two ends of file ends with a line break, the lines followed are exactly the lines of the
  whole log.
\<close>

theorem follow_complete:
  assumes "\<forall>c \<in> set chunks. c = [] \<or> last c = CHR 0x0A"
  shows "follow_lines chunks = chunk_lines (concat chunks)"
  using assms by (induction chunks) (auto simp: follow_lines_def chunk_lines_append, simp add: chunk_lines_def)

theorem follow_complete_witness:
  "follow_lines [[CHR ''a'', CHR 0x0A], [], [CHR ''b'', CHR 0x0A, CHR ''c'', CHR 0x0A]] =
   [[CHR ''a'', CHR 0x0A], [CHR ''b'', CHR 0x0A], [CHR ''c'', CHR 0x0A]]"
  using follow_complete [of "[[CHR ''a'', CHR 0x0A], [], [CHR ''b'', CHR 0x0A, CHR ''c'', CHR 0x0A]]"]
  by (simp add: chunk_lines_def)

section \<open>Deviations\<close>

text \<open>A line that is read in two pieces is lost in part.\<close>

lemma split_line_lost: "follow_lines [''ab'', [CHR ''c'', CHR 0x0A]] = [[CHR ''c'', CHR 0x0A]]"
  by (simp add: follow_lines_def chunk_lines_def)

end
