(* ===== verification/GC_Event.thy ===== *)
theory GC_Event
  imports GC_Prelude
begin

text \<open>
  The event contract of \<^verbatim>\<open>internal/event/event.go\<close>: the records every detector fills
  and every later stage of the pipeline reads and rewrites. \<^verbatim>\<open>Severity\<close> and
  \<^verbatim>\<open>EntityType\<close> are Go string types, so a value outside the named constants (the
  empty string of an unset field) is possible and is kept. Optional sub-documents, pointers in
  Go, are \<open>option\<close>s. The digest of \<^verbatim>\<open>crypto/sha256\<close>, hex encoded, is the parameter
  \<open>sha256hex\<close>.
\<close>

section \<open>Constants\<close>

definition SchemaVersion :: string where "SchemaVersion = ''1.3''"
definition DefenseLayerEndpoint :: string where "DefenseLayerEndpoint = ''endpoint''"

definition SrcAudit :: string where "SrcAudit = ''AUDIT''"
definition SrcFIM :: string where "SrcFIM = ''FIM''"
definition SrcProcScan :: string where "SrcProcScan = ''PROCSCAN''"
definition TypeEvent :: string where "TypeEvent = ''EVENT''"
definition TypeDelta :: string where "TypeDelta = ''DELTA''"
definition ConfHigh :: string where "ConfHigh = ''HIGH''"
definition ConfMedium :: string where "ConfMedium = ''MEDIUM''"
definition ConfLow :: string where "ConfLow = ''LOW''"

type_synonym EntityType = string
definition EntityFile :: EntityType where "EntityFile = ''file''"
definition EntityProcess :: EntityType where "EntityProcess = ''process''"
definition EntityUser :: EntityType where "EntityUser = ''user''"
definition EntityCron :: EntityType where "EntityCron = ''cron''"
definition EntityNetwork :: EntityType where "EntityNetwork = ''network''"

type_synonym Severity = string
definition SeverityInfo :: Severity where "SeverityInfo = ''info''"
definition SeverityLow :: Severity where "SeverityLow = ''low''"
definition SeverityMedium :: Severity where "SeverityMedium = ''medium''"
definition SeverityHigh :: Severity where "SeverityHigh = ''high''"
definition SeverityCritical :: Severity where "SeverityCritical = ''critical''"

lemmas severity_defs = SeverityInfo_def SeverityLow_def SeverityMedium_def SeverityHigh_def
  SeverityCritical_def
lemmas entity_defs = EntityFile_def EntityProcess_def EntityUser_def EntityCron_def
  EntityNetwork_def

section \<open>Records\<close>

record Entity =
  ent_Type :: EntityType
  ent_ID :: string
  ent_Path :: string
  ent_User :: string

record ProcessContext =
  pc_PID :: int
  pc_PPID :: int
  pc_Comm :: string
  pc_Argv :: "string list"
  pc_Exe :: string
  pc_UID :: int
  pc_EUID :: int
  pc_CapEff :: string
  pc_AncestorComms :: "string list"
  pc_Cgroup :: string
  pc_SystemdUnit :: string

record FileContext =
  fc_Path :: string
  fc_SHA256 :: string
  fc_MD5 :: string
  fc_Size :: int
  fc_OwnerUID :: nat
  fc_Mode :: string
  fc_MtimeUTC :: string
  fc_SetUID :: bool
  fc_SetGID :: bool

record NetworkContext =
  nc_Proto :: string
  nc_LocalIP :: string
  nc_LocalPort :: int
  nc_RemoteIP :: string
  nc_RemotePort :: int
  nc_Direction :: string

record ContainerContext =
  cc_Runtime :: string
  cc_ID :: string
  cc_PodUID :: string

record ResponseContext =
  rc_Action :: string
  rc_Mode :: string
  rc_Result :: string
  rc_Reason :: string
  rc_Target :: string
  rc_LoopLatencyMS :: int

record Event =
  ev_SchemaVersion :: string
  ev_AgentVersion :: string
  ev_Timestamp :: time
  ev_RuleID :: string
  ev_RulePackVersion :: string
  ev_TechniqueIDs :: "string list"
  ev_Tactic :: string
  ev_Confidence :: int
  ev_Severity :: Severity
  ev_Entity :: Entity
  ev_Signals :: "string list"
  ev_DedupKey :: string
  ev_Evidence :: string
  ev_LearningOnly :: bool
  ev_Process :: "ProcessContext option"
  ev_File :: "FileContext option"
  ev_Network :: "NetworkContext option"
  ev_Container :: "ContainerContext option"
  ev_CorrelationID :: string
  ev_IOCMatches :: "string list"
  ev_KillChainPhase :: string
  ev_DefenseLayer :: string
  ev_SOCEscalate :: bool
  ev_Response :: "ResponseContext option"
  ev_Macro :: string
  ev_Micro :: string
  ev_Src :: string
  ev_Type :: string
  ev_Anchor :: string
  ev_ConfBand :: string
  ev_EvidenceLoss :: bool
  ev_ChainID :: string

record FindingOpts =
  fo_RuleID :: string
  fo_RulePackVersion :: string
  fo_AgentVersion :: string
  fo_Macro :: string
  fo_Micro :: string
  fo_Src :: string
  fo_Type :: string
  fo_Anchor :: string
  fo_ConfBand :: string
  fo_TechniqueIDs :: "string list"
  fo_Tactic :: string
  fo_Confidence :: int
  fo_Severity :: Severity
  fo_Entity :: Entity
  fo_Signals :: "string list"
  fo_Evidence :: string
  fo_LearningOnly :: bool
  fo_Process :: "ProcessContext option"
  fo_File :: "FileContext option"
  fo_Network :: "NetworkContext option"

text \<open>Go's zero values.\<close>

definition zero_Entity :: Entity where
  "zero_Entity = \<lparr>ent_Type = [], ent_ID = [], ent_Path = [], ent_User = []\<rparr>"

definition zero_ProcessContext :: ProcessContext where
  "zero_ProcessContext = \<lparr>pc_PID = 0, pc_PPID = 0, pc_Comm = [], pc_Argv = [], pc_Exe = [],
     pc_UID = 0, pc_EUID = 0, pc_CapEff = [], pc_AncestorComms = [], pc_Cgroup = [],
     pc_SystemdUnit = []\<rparr>"

definition zero_Event :: Event where
  "zero_Event = \<lparr>ev_SchemaVersion = [], ev_AgentVersion = [], ev_Timestamp = 0, ev_RuleID = [],
     ev_RulePackVersion = [], ev_TechniqueIDs = [], ev_Tactic = [], ev_Confidence = 0,
     ev_Severity = [], ev_Entity = zero_Entity, ev_Signals = [], ev_DedupKey = [],
     ev_Evidence = [], ev_LearningOnly = False, ev_Process = None, ev_File = None,
     ev_Network = None, ev_Container = None, ev_CorrelationID = [], ev_IOCMatches = [],
     ev_KillChainPhase = [], ev_DefenseLayer = [], ev_SOCEscalate = False, ev_Response = None,
     ev_Macro = [], ev_Micro = [], ev_Src = [], ev_Type = [], ev_Anchor = [], ev_ConfBand = [],
     ev_EvidenceLoss = False, ev_ChainID = []\<rparr>"

section \<open>Operations\<close>

definition dedup_preimage :: "Event \<Rightarrow> string" where
  "dedup_preimage e = ev_RuleID e @ '':'' @ ent_Path (ev_Entity e) @ '':'' @ ent_ID (ev_Entity e)"

definition NormalizeDedup :: "(string \<Rightarrow> string) \<Rightarrow> Event \<Rightarrow> Event" where
  "NormalizeDedup sha256hex e =
     (if ev_DedupKey e \<noteq> [] then e else e\<lparr>ev_DedupKey := sha256hex (dedup_preimage e)\<rparr>)"

definition NewFinding :: "(string \<Rightarrow> string) \<Rightarrow> time \<Rightarrow> FindingOpts \<Rightarrow> Event" where
  "NewFinding sha256hex now opts =
     (let e = zero_Event\<lparr>
            ev_SchemaVersion := SchemaVersion,
            ev_AgentVersion := fo_AgentVersion opts,
            ev_Timestamp := now,
            ev_RuleID := fo_RuleID opts,
            ev_RulePackVersion := fo_RulePackVersion opts,
            ev_TechniqueIDs := fo_TechniqueIDs opts,
            ev_Tactic := fo_Tactic opts,
            ev_Confidence := fo_Confidence opts,
            ev_Severity := fo_Severity opts,
            ev_Entity := fo_Entity opts,
            ev_Signals := fo_Signals opts,
            ev_Evidence := fo_Evidence opts,
            ev_LearningOnly := fo_LearningOnly opts,
            ev_Process := fo_Process opts,
            ev_File := fo_File opts,
            ev_Network := fo_Network opts,
            ev_Macro := fo_Macro opts,
            ev_Micro := fo_Micro opts,
            ev_Src := fo_Src opts,
            ev_Type := fo_Type opts,
            ev_Anchor := fo_Anchor opts,
            ev_ConfBand := fo_ConfBand opts,
            ev_DefenseLayer := DefenseLayerEndpoint\<rparr>;
          e' = (if ev_Anchor e = [] then
                  (case fo_Process opts of
                     None \<Rightarrow> e
                   | Some p \<Rightarrow>
                       if pc_SystemdUnit p \<noteq> [] then e\<lparr>ev_Anchor := pc_SystemdUnit p\<rparr>
                       else if pc_Cgroup p \<noteq> [] then e\<lparr>ev_Anchor := pc_Cgroup p\<rparr>
                       else e)
                else e)
      in NormalizeDedup sha256hex e')"

section \<open>Properties\<close>

lemma NormalizeDedup_idem [simp]:
  "NormalizeDedup h (NormalizeDedup h e) = NormalizeDedup h e"
  by (simp add: NormalizeDedup_def dedup_preimage_def)

lemma NormalizeDedup_key:
  "ev_DedupKey (NormalizeDedup h e) =
     (if ev_DedupKey e \<noteq> [] then ev_DedupKey e else h (dedup_preimage e))"
  by (simp add: NormalizeDedup_def)

text \<open>Every field but the key is kept.\<close>

lemma NormalizeDedup_frame [simp]:
  "ev_RuleID (NormalizeDedup h e) = ev_RuleID e"
  "ev_Confidence (NormalizeDedup h e) = ev_Confidence e"
  "ev_Severity (NormalizeDedup h e) = ev_Severity e"
  "ev_Entity (NormalizeDedup h e) = ev_Entity e"
  "ev_Signals (NormalizeDedup h e) = ev_Signals e"
  "ev_LearningOnly (NormalizeDedup h e) = ev_LearningOnly e"
  "ev_Process (NormalizeDedup h e) = ev_Process e"
  "ev_Anchor (NormalizeDedup h e) = ev_Anchor e"
  "ev_ConfBand (NormalizeDedup h e) = ev_ConfBand e"
  "ev_Tactic (NormalizeDedup h e) = ev_Tactic e"
  "ev_Response (NormalizeDedup h e) = ev_Response e"
  by (simp_all add: NormalizeDedup_def)


section \<open>Deviations\<close>

text \<open>The deduplication key joins its parts with a colon that they may contain.\<close>

lemma dedup_preimage_ambiguous:
  "dedup_preimage (zero_Event\<lparr>ev_RuleID := ''R'', ev_Entity := \<lparr>ent_Type = [], ent_ID = ''c'', ent_Path = ''a:b'', ent_User = []\<rparr>\<rparr>) =
   dedup_preimage (zero_Event\<lparr>ev_RuleID := ''R'', ev_Entity := \<lparr>ent_Type = [], ent_ID = ''b:c'', ent_Path = ''a'', ent_User = []\<rparr>\<rparr>)"
  by (simp add: dedup_preimage_def)

end
