(* ===== verification/GC_Anchor.thy ===== *)
theory GC_Anchor
  imports GC_Procfs GC_Event
begin

text \<open>
  Context of a process from its cgroup text: the container fingerprint of
  \<^verbatim>\<open>internal/container/container.go\<close> and the systemd anchor of
  \<^verbatim>\<open>internal/anchor/anchor.go\<close>. The five fixed regular expressions of these files are
  written out as matchers; each returns what the leftmost match of the expression captures.
\<close>

section \<open>Container\<close>

record ContainerInfo =
  ci_Runtime :: string
  ci_ID :: string
  ci_PodUID :: string

definition zero_ContainerInfo :: ContainerInfo where
  "zero_ContainerInfo = \<lparr>ci_Runtime = [], ci_ID = [], ci_PodUID = []\<rparr>"

definition is_hex_lower :: "char \<Rightarrow> bool" where
  "is_hex_lower c \<longleftrightarrow> is_digit c \<or> c \<in> set ''abcdef''"

definition is_hex :: "char \<Rightarrow> bool" where
  "is_hex c \<longleftrightarrow> is_hex_lower c \<or> c \<in> set ''ABCDEF''"

text \<open>\<^verbatim>\<open>[0-9a-f]{64}\<close>\<close>

fun find_hex64 :: "string \<Rightarrow> string" where
  "find_hex64 [] = []"
| "find_hex64 (c # s) =
     (if length (take 64 (c # s)) = 64 \<and> list_all is_hex_lower (take 64 (c # s)) then take 64 (c # s)
      else find_hex64 s)"

text \<open>
  \<^verbatim>\<open>pod(\<close> five groups of 8, 4, 4, 4 and 12 hex digits with an optional dash or underscore
  between them \<^verbatim>\<open>)\<close>; the result is the captured text.
\<close>

fun hex_groups :: "nat list \<Rightarrow> string \<Rightarrow> string option" where
  "hex_groups [] s = Some []"
| "hex_groups (n # ns) s =
     (if length (take n s) = n \<and> list_all is_hex (take n s) then
        (let r = drop n s;
             sep = (if ns \<noteq> [] \<and> r \<noteq> [] \<and> (hd r = CHR ''-'' \<or> hd r = CHR ''_'') then [hd r] else [])
         in map_option (\<lambda>t. take n s @ sep @ t) (hex_groups ns (drop (length sep) r)))
      else None)"

fun find_pod :: "string \<Rightarrow> string option" where
  "find_pod [] = None"
| "find_pod (c # s) =
     (if HasPrefix (c # s) ''pod'' then
        (case hex_groups [8, 4, 4, 4, 12] (drop 3 (c # s)) of Some u \<Rightarrow> Some u | None \<Rightarrow> find_pod s)
      else find_pod s)"

definition runtime_of :: "string \<Rightarrow> string" where
  "runtime_of low =
     (if Contains low ''/docker/'' \<or> Contains low ''docker-'' \<or> Contains low ''/docker-'' then ''docker''
      else if Contains low ''/containerd/'' \<or> Contains low ''cri-containerd'' \<or> Contains low ''containerd-''
      then ''containerd''
      else if Contains low ''cri-o'' \<or> Contains low ''crio-'' then ''cri-o''
      else if Contains low ''/lxc/'' \<or> Contains low ''lxc.payload.'' then ''lxc''
      else if Contains low ''kubepods'' then ''k8s''
      else [])"

definition Classify :: "string \<Rightarrow> ContainerInfo" where
  "Classify cgroup =
     (if cgroup = [] then zero_ContainerInfo
      else
        (let m = find_hex64 cgroup;
             i1 = \<lparr>ci_Runtime = runtime_of (ToLower cgroup),
                   ci_ID = (if m = [] then [] else if length m \<ge> 12 then take 12 m else m), ci_PodUID = []\<rparr>
         in case find_pod cgroup of
              None \<Rightarrow> i1
            | Some u \<Rightarrow> i1\<lparr>ci_PodUID := u, ci_Runtime := (if ci_Runtime i1 = [] then ''k8s'' else ci_Runtime i1)\<rparr>))"

definition ContainerIsZero :: "ContainerInfo \<Rightarrow> bool" where
  "ContainerIsZero i \<longleftrightarrow> ci_Runtime i = [] \<and> ci_ID i = [] \<and> ci_PodUID i = []"

section \<open>Anchor\<close>

record AnchorInfo =
  ai_Cgroup :: string
  ai_CgroupPath :: string
  ai_SystemdUnit :: string
  ai_Anchor :: string

definition zero_AnchorInfo :: AnchorInfo where
  "zero_AnchorInfo = \<lparr>ai_Cgroup = [], ai_CgroupPath = [], ai_SystemdUnit = [], ai_Anchor = []\<rparr>"

definition re_space :: "char \<Rightarrow> bool" where
  "re_space c \<longleftrightarrow> c \<in> {CHR '' '', CHR 0x09, CHR 0x0A, CHR 0x0C, CHR 0x0D}"

text \<open>A path segment that \<^verbatim>\<open>[^/\s]+\.service\<close> matches as a whole.\<close>

definition service_seg :: "string \<Rightarrow> bool" where
  "service_seg w \<longleftrightarrow> HasSuffix w ''.service'' \<and> length w > 8 \<and> list_all (\<lambda>c. \<not> re_space c) w"

text \<open>\<^verbatim>\<open>user-\d+\.slice\<close>\<close>

definition user_seg :: "string \<Rightarrow> bool" where
  "user_seg w \<longleftrightarrow> HasPrefix w ''user-'' \<and> HasSuffix w ''.slice'' \<and> length w > 11 \<and>
     list_all is_digit (take (length w - 11) (drop 5 w))"

text \<open>
  \<^verbatim>\<open>reSystemSlice\<close> and \<^verbatim>\<open>reUserSlice\<close> bind whole segments, so they are read off the
  segments of the path; the value is the last segment of the capture.
\<close>

fun system_slice_unit :: "string list \<Rightarrow> string option" where
  "system_slice_unit (a # b # ws) =
     (if a = ''system.slice'' \<and> service_seg b then Some b else system_slice_unit (b # ws))"
| "system_slice_unit _ = None"

fun user_slice_unit :: "string list \<Rightarrow> string option" where
  "user_slice_unit (a # b # c # ws) =
     (if a = ''user.slice'' \<and> user_seg b \<and> service_seg c then Some c else user_slice_unit (b # c # ws))"
| "user_slice_unit _ = None"

definition unit_suffixes :: "string list" where
  "unit_suffixes = [''.service'', ''.scope'', ''.socket'']"

text \<open>
  \<^verbatim>\<open>[^\s/]+(?:\.service|\.scope|\.socket)\<close> at the start of a text: the greedy match, with
  \<open>n\<close> the length tried for the first part.
\<close>

fun greedy_unit :: "nat \<Rightarrow> string \<Rightarrow> string option" where
  "greedy_unit 0 s = None"
| "greedy_unit (Suc n) s =
     (case find (\<lambda>suf. HasPrefix (drop (Suc n) s) suf) unit_suffixes of
        Some suf \<Rightarrow> Some (take (Suc n) s @ suf)
      | None \<Rightarrow> greedy_unit n s)"

definition any_unit_at :: "string \<Rightarrow> string option" where
  "any_unit_at s =
     (let s' = (if HasPrefix s ''system.slice/'' then Some (drop 13 s)
                else if HasPrefix s ''user.slice/'' then Some (drop 11 s) else None)
      in case s' of
           None \<Rightarrow> None
         | Some r \<Rightarrow> greedy_unit (length (takeWhile (\<lambda>c. \<not> re_space c \<and> c \<noteq> CHR ''/'') r)) r)"

fun any_unit :: "string \<Rightarrow> string option" where
  "any_unit [] = None"
| "any_unit (c # s) = (case any_unit_at (c # s) of Some u \<Rightarrow> Some u | None \<Rightarrow> any_unit s)"

definition extractUnit :: "string \<Rightarrow> string" where
  "extractUnit p =
     (if p = [] then []
      else
        (let segs = SplitByte p (CHR ''/'')
         in case system_slice_unit segs of
              Some u \<Rightarrow> Base u
            | None \<Rightarrow>
                (case user_slice_unit segs of
                   Some u \<Rightarrow> Base u
                 | None \<Rightarrow>
                     (case any_unit p of
                        Some u \<Rightarrow> Base u
                      | None \<Rightarrow>
                          if list_ex (HasSuffix (Base p)) unit_suffixes then Base p else []))))"

fun firstCgroupPath_lines :: "string list \<Rightarrow> string" where
  "firstCgroupPath_lines [] = []"
| "firstCgroupPath_lines (l # ls) =
     (let line = TrimSpace l
      in if line = [] then firstCgroupPath_lines ls
         else (case after_last line (CHR '':'') of
                 Some p \<Rightarrow> if p \<noteq> [] \<and> p \<noteq> ''/'' then p else firstCgroupPath_lines ls
               | None \<Rightarrow> firstCgroupPath_lines ls))"

definition firstCgroupPath :: "string \<Rightarrow> string" where
  "firstCgroupPath raw = firstCgroupPath_lines (SplitByte raw (CHR 0x0A))"

definition FromCgroup :: "string \<Rightarrow> AnchorInfo" where
  "FromCgroup raw =
     (let line = firstCgroupPath raw;
          info = zero_AnchorInfo\<lparr>ai_Cgroup := TrimSpace raw, ai_CgroupPath := line\<rparr>;
          u = extractUnit line
      in if u \<noteq> [] then info\<lparr>ai_SystemdUnit := u, ai_Anchor := u\<rparr> else info\<lparr>ai_Anchor := line\<rparr>)"

definition FromPID :: "procfs \<Rightarrow> int \<Rightarrow> AnchorInfo" where
  "FromPID fs pid = (case ReadCgroup fs pid of None \<Rightarrow> zero_AnchorInfo | Some raw \<Rightarrow> FromCgroup raw)"

definition UnitBasename :: "string \<Rightarrow> string" where
  "UnitBasename u =
     (let unit = Base u
      in case find (HasSuffix unit) unit_suffixes of Some suf \<Rightarrow> TrimSuffix unit suf | None \<Rightarrow> unit)"

definition normalizeUnitName :: "string \<Rightarrow> string" where
  "normalizeUnitName s = filter (\<lambda>c. \<not> (is_digit c \<or> c = CHR ''.'')) s"

definition watch_match :: "string \<Rightarrow> string \<Rightarrow> bool" where
  "watch_match unit w0 =
     (let base = Base unit;
          name = ToLower (UnitBasename base);
          baseLow = ToLower base;
          nameNorm = normalizeUnitName name;
          w = TrimSpace (ToLower w0);
          wBase = UnitBasename w;
          wNorm = normalizeUnitName wBase
      in if w = [] then False
         else if baseLow = w \<or> name = w \<or> name = wBase \<or> baseLow = wBase @ ''.service'' then True
         else if HasPrefix name w \<or> HasPrefix nameNorm wNorm then True
         else wNorm \<noteq> [] \<and> (nameNorm = wNorm \<or> HasPrefix nameNorm wNorm \<or> Contains nameNorm wNorm))"

definition IsWatchedUnit :: "string \<Rightarrow> string list \<Rightarrow> bool" where
  "IsWatchedUnit unit watched =
     (if unit = [] \<or> watched = [] then False else list_ex (watch_match unit) watched)"

section \<open>Properties\<close>

lemma Classify_ID_length: "ci_ID (Classify s) = [] \<or> length (ci_ID (Classify s)) = 12"
proof -
  have "find_hex64 t = [] \<or> length (find_hex64 t) = 64" for t
    by (induction t) (auto simp del: length_take take_Suc_Cons)
  from this [of s] show ?thesis
    by (auto simp: Classify_def zero_ContainerInfo_def Let_def split: option.splits)
qed

text \<open>The anchor is the unit when there is one, else the path.\<close>

lemma FromCgroup_anchor:
  "ai_Anchor (FromCgroup raw) =
     (if ai_SystemdUnit (FromCgroup raw) \<noteq> [] then ai_SystemdUnit (FromCgroup raw) else ai_CgroupPath (FromCgroup raw))"
  by (simp add: FromCgroup_def Let_def zero_AnchorInfo_def)

text \<open>A watch pattern made of digits and dots only normalises to nothing and matches every unit.\<close>

lemma watch_digits_match_all:
  assumes "w \<in> set watched" "TrimSpace (ToLower w) \<noteq> []"
    "normalizeUnitName (UnitBasename (TrimSpace (ToLower w))) = []" "unit \<noteq> []"
  shows "IsWatchedUnit unit watched"
proof -
  have "watch_match unit w" using assms(2,3) by (simp add: watch_match_def Let_def HasPrefix_def)
  then show ?thesis using assms(1,4) by (auto simp: IsWatchedUnit_def list_ex_iff)
qed

section \<open>Correctness\<close>

text \<open>
  A process in a system service is anchored to that service: for the cgroup record the kernel
  prints for a unit under \<^verbatim>\<open>system.slice\<close>, the unit and the anchor are that unit.
\<close>

theorem cgroup_service_anchor:
  assumes "service_seg u" "CHR ''/'' \<notin> set u" "CHR '':'' \<notin> set u"
  shows "ai_SystemdUnit (FromCgroup (''0::/system.slice/'' @ u @ [CHR 0x0A])) = u \<and>
    ai_Anchor (FromCgroup (''0::/system.slice/'' @ u @ [CHR 0x0A])) = u"
proof -
  let ?p = "''/system.slice/'' @ u" and ?l = "''0::/system.slice/'' @ u"
  obtain v where v: "u = v @ ''.service''" using assms(1) by (auto simp: service_seg_def HasSuffix_iff)
  have u: "u \<noteq> []" "CHR 0x0A \<notin> set u" "\<not> is_space (last u)"
    using assms(1) v by (auto simp: service_seg_def list_all_iff re_space_def is_space_def)
  have "SplitByte (?l @ CHR 0x0A # []) (CHR 0x0A) = [?l, []]"
    unfolding SplitByte_append_line using u(2) by (subst SplitByte_none) auto
  moreover have "TrimSpace ?l = ?l" using u by (intro TrimSpace_ends) (auto simp: is_space_def)
  moreover have "after_last ?l (CHR '':'') = Some ?p" using after_last_append [of "CHR '':''" ?p "''0:''"] assms(3) by simp
  ultimately have "firstCgroupPath (?l @ [CHR 0x0A]) = ?p" by (simp add: firstCgroupPath_def Let_def)
  moreover have "SplitByte ?p (CHR ''/'') = [[], ''system.slice'', u]" using assms(2) by (simp add: SplitByte_none)
  then have "extractUnit ?p = Base u" using assms(1) by (simp add: extractUnit_def Let_def)
  moreover have "Base u = u" using u(1) assms(2) by (rule Base_no_slash)
  ultimately show ?thesis using u(1) by (simp add: FromCgroup_def Let_def)
qed

theorem cgroup_service_anchor_witness:
  "ai_Anchor (FromCgroup (''0::/system.slice/'' @ ''nginx.service'' @ [CHR 0x0A])) = ''nginx.service''"
  using cgroup_service_anchor [of "''nginx.service''"]
  by (simp add: service_seg_def HasSuffix_def HasPrefix_def re_space_def)

end
