(* ===== verification/GC_Rules.thy ===== *)
theory GC_Rules
  imports GC_Expr_Parse GC_Event
begin

text \<open>
  Rule packs: \<^verbatim>\<open>internal/rules/pack.go\<close>, \<^verbatim>\<open>engine.go\<close> and
  \<^verbatim>\<open>verify.go\<close>. The file system (\<^verbatim>\<open>os.ReadFile\<close>), the YAML decoder, base64 and
  ed25519 are the parameters \<open>readFile\<close>, \<open>unmarshal\<close>, \<open>b64\<close> and \<open>edVerify\<close>.
\<close>

section \<open>Packs\<close>

record RuleResponse =
  rr_Action :: string

record Rule =
  rule_ID :: string
  rule_Techniques :: "string list"
  rule_Tactic :: string
  rule_MinSignals :: int
  rule_BaseScore :: int
  rule_PerSignal :: int
  rule_CapScore :: int
  rule_Description :: string
  rule_Macro :: string
  rule_Micro :: string
  rule_Src :: string
  rule_Type :: string
  rule_Conf :: string
  rule_Expr :: string
  rule_Correlate :: "string list"
  rule_CorrelateWindow :: string
  rule_CorrelateBoost :: int
  rule_KillChainPhase :: string
  rule_Response :: RuleResponse
  rule_compiled :: "Expr option"

definition zero_Rule :: Rule where
  "zero_Rule = \<lparr>rule_ID = [], rule_Techniques = [], rule_Tactic = [], rule_MinSignals = 0,
     rule_BaseScore = 0, rule_PerSignal = 0, rule_CapScore = 0, rule_Description = [],
     rule_Macro = [], rule_Micro = [], rule_Src = [], rule_Type = [], rule_Conf = [],
     rule_Expr = [], rule_Correlate = [], rule_CorrelateWindow = [], rule_CorrelateBoost = 0,
     rule_KillChainPhase = [], rule_Response = \<lparr>rr_Action = []\<rparr>, rule_compiled = None\<rparr>"

record Pack =
  pack_Version :: string
  pack_Rules :: "Rule list"

text \<open>\<^verbatim>\<open>CompileExpr("")\<close> never fails; the source drops its error.\<close>

definition CompiledExpr :: "Rule \<Rightarrow> Expr" where
  "CompiledExpr r =
     (case rule_compiled r of
        Some e \<Rightarrow> e
      | None \<Rightarrow> (case CompileExpr [] of Inr e \<Rightarrow> e | Inl _ \<Rightarrow> \<lparr>expr_node = BoolLit False, expr_src = []\<rparr>))"

datatype load_error =
    ReadFailed string
  | BadYAML
  | BadExpr string parse_error
  | NoSigmaRules string

definition hydrate_defaults :: "Rule \<Rightarrow> Rule" where
  "hydrate_defaults r0 =
     (let r1 = (if rule_CapScore r0 = 0 then r0\<lparr>rule_CapScore := 100\<rparr> else r0);
          r2 = (if rule_MinSignals r1 = 0 then r1\<lparr>rule_MinSignals := 1\<rparr> else r1)
      in if rule_PerSignal r2 = 0 then r2\<lparr>rule_PerSignal := 15\<rparr> else r2)"

definition compile_rule :: "Rule \<Rightarrow> load_error + Rule" where
  "compile_rule r =
     (if rule_Expr r = [] then Inr r
      else (case CompileExpr (rule_Expr r) of
              Inl e \<Rightarrow> Inl (BadExpr (rule_ID r) e)
            | Inr e \<Rightarrow> Inr (r\<lparr>rule_compiled := Some e\<rparr>)))"

fun compile_rules :: "(Rule \<Rightarrow> load_error + Rule) \<Rightarrow> Rule list \<Rightarrow> load_error + Rule list" where
  "compile_rules f [] = Inr []"
| "compile_rules f (r # rs) =
     (case f r of
        Inl e \<Rightarrow> Inl e
      | Inr r' \<Rightarrow> (case compile_rules f rs of Inl e \<Rightarrow> Inl e | Inr rs' \<Rightarrow> Inr (r' # rs')))"

definition LoadPack ::
  "(string \<Rightarrow> string option) \<Rightarrow> (string \<Rightarrow> Pack option) \<Rightarrow> string \<Rightarrow> load_error + Pack" where
  "LoadPack readFile unmarshal path =
     (case readFile path of
        None \<Rightarrow> Inl (ReadFailed path)
      | Some b \<Rightarrow>
          (case unmarshal b of
             None \<Rightarrow> Inl BadYAML
           | Some p \<Rightarrow>
               (case compile_rules (compile_rule \<circ> hydrate_defaults) (pack_Rules p) of
                  Inl e \<Rightarrow> Inl e
                | Inr rs \<Rightarrow> Inr \<lparr>pack_Version = (if pack_Version p = [] then ''0.0.0'' else pack_Version p),
                               pack_Rules = rs\<rparr>)))"

definition ByID :: "Pack \<Rightarrow> string \<Rightarrow> Rule option" where
  "ByID p i = find (\<lambda>r. rule_ID r = i) (pack_Rules p)"

definition Merge :: "Pack \<Rightarrow> Pack option \<Rightarrow> Pack" where
  "Merge p extra =
     (case extra of
        None \<Rightarrow> p
      | Some x \<Rightarrow>
          (let have = rule_ID ` set (pack_Rules p)
           in p\<lparr>pack_Rules := pack_Rules p @ filter (\<lambda>r. rule_ID r \<notin> have) (pack_Rules x)\<rparr>))"

section \<open>Scoring\<close>

definition Score :: "Pack \<Rightarrow> string \<Rightarrow> string list \<Rightarrow> int \<times> bool" where
  "Score p ruleID signals =
     (case ByID p ruleID of
        None \<Rightarrow> (0, False)
      | Some rule \<Rightarrow>
          if int (length signals) < rule_MinSignals rule then (rule_BaseScore rule, True)
          else
            (let conf = wrap64 (rule_BaseScore rule
                  + wrap64 (wrap64 (int (length signals) - rule_MinSignals rule + 1) * rule_PerSignal rule))
             in (if conf > rule_CapScore rule then rule_CapScore rule else conf, True)))"

definition SeverityFromConfidence :: "int \<Rightarrow> bool \<Rightarrow> Severity" where
  "SeverityFromConfidence c learning =
     (if learning then SeverityInfo
      else if c \<ge> 95 then SeverityCritical
      else if c \<ge> 85 then SeverityHigh
      else if c \<ge> 70 then SeverityMedium
      else SeverityLow)"

section \<open>Signatures\<close>

datatype verify_error =
    NoPublicKey
  | PubKeyRead
  | PubKeyDecode
  | PubKeySize nat
  | PackRead
  | SigRead
  | SigDecode
  | SigMismatch

definition PublicKeySize :: nat where "PublicKeySize = 32"

definition loadEd25519Pub ::
  "(string \<Rightarrow> string option) \<Rightarrow> (string \<Rightarrow> string option) \<Rightarrow> string \<Rightarrow> verify_error + string" where
  "loadEd25519Pub readFile b64 path =
     (case readFile path of
        None \<Rightarrow> Inl PubKeyRead
      | Some raw \<Rightarrow>
          (case b64 (TrimPrefix (TrimSpace raw) ''ed25519:'') of
             None \<Rightarrow> Inl PubKeyDecode
           | Some b \<Rightarrow> if length b \<noteq> PublicKeySize then Inl (PubKeySize (length b)) else Inr b))"

definition VerifyPackSignature ::
  "(string \<Rightarrow> string option) \<Rightarrow> (string \<Rightarrow> string option) \<Rightarrow> (string \<Rightarrow> string \<Rightarrow> string \<Rightarrow> bool) \<Rightarrow>
   string \<Rightarrow> string \<Rightarrow> string \<Rightarrow> verify_error option" where
  "VerifyPackSignature readFile b64 edVerify packPath sigPath pubKeyPath =
     (if pubKeyPath = [] then Some NoPublicKey
      else (case loadEd25519Pub readFile b64 pubKeyPath of
              Inl e \<Rightarrow> Some e
            | Inr pub \<Rightarrow>
                (case readFile packPath of
                   None \<Rightarrow> Some PackRead
                 | Some msg \<Rightarrow>
                     (case readFile sigPath of
                        None \<Rightarrow> Some SigRead
                      | Some sigRaw \<Rightarrow>
                          (case b64 (TrimSpace sigRaw) of
                             None \<Rightarrow> Some SigDecode
                           | Some sig \<Rightarrow> if edVerify pub msg sig then None else Some SigMismatch)))))"

section \<open>Lookup and merging\<close>

text \<open>
  What the agent relies on when it overlays packs: a lookup by rule id that an overlay can only
  extend. The scoring and the response lookups go through it.
\<close>

locale rule_store =
  fixes lookup :: "'p \<Rightarrow> 'k \<Rightarrow> 'r option"
    and merge :: "'p \<Rightarrow> 'p option \<Rightarrow> 'p"
  assumes merge_none: "merge p None = p"
    and merge_lookup: "lookup (merge p (Some x)) k = (case lookup p k of Some r \<Rightarrow> Some r | None \<Rightarrow> lookup x k)"
begin

lemma merge_keeps: "lookup p k = Some r \<Longrightarrow> lookup (merge p x) k = Some r"
  by (cases x) (simp_all add: merge_none merge_lookup)

lemma merge_again: "lookup (merge (merge p (Some x)) (Some x)) k = lookup (merge p (Some x)) k"
  by (simp add: merge_lookup split: option.splits)

lemma merge_assoc:
  "lookup (merge (merge p (Some x)) (Some y)) k = lookup (merge p (Some (merge x (Some y)))) k"
  by (simp add: merge_lookup split: option.splits)

lemma merge_many:
  "lookup (fold (\<lambda>x q. merge q (Some x)) xs p) k =
     (case find (\<lambda>q. lookup q k \<noteq> None) (p # xs) of None \<Rightarrow> None | Some q \<Rightarrow> lookup q k)"
  by (induction xs arbitrary: p) (auto simp: merge_lookup split: option.splits if_splits)

end

lemma find_filter_other:
  "\<not> P k \<Longrightarrow> (\<And>r. g r = k \<Longrightarrow> Q r) \<Longrightarrow> find (\<lambda>r. g r = k) (filter Q rs) = find (\<lambda>r. g r = k) rs"
  by (induction rs) auto

lemma find_append: "find P (xs @ ys) = (case find P xs of Some x \<Rightarrow> Some x | None \<Rightarrow> find P ys)"
  by (induction xs) auto

lemma ByID_None: "ByID p k = None \<longleftrightarrow> k \<notin> rule_ID ` set (pack_Rules p)"
  by (auto simp: ByID_def find_None_iff)

lemma ByID_ID: "ByID p k = Some r \<Longrightarrow> rule_ID r = k \<and> r \<in> set (pack_Rules p)"
  by (auto simp: ByID_def find_Some_iff)

lemma ByID_Merge:
  "ByID (Merge p (Some x)) k = (case ByID p k of Some r \<Rightarrow> Some r | None \<Rightarrow> ByID x k)"
proof (cases "ByID p k")
  case None
  then have "k \<notin> rule_ID ` set (pack_Rules p)" by (simp add: ByID_None)
  then have "find (\<lambda>r. rule_ID r = k) (filter (\<lambda>r. rule_ID r \<notin> rule_ID ` set (pack_Rules p)) (pack_Rules x))
      = find (\<lambda>r. rule_ID r = k) (pack_Rules x)"
    by (intro find_filter_other [of "\<lambda>_. False"]) auto
  with None show ?thesis by (simp add: ByID_def Merge_def Let_def find_append)
qed (simp add: ByID_def Merge_def Let_def find_append)

interpretation packs: rule_store ByID Merge
  by unfold_locales (simp_all add: Merge_def, simp add: ByID_Merge [unfolded Merge_def, simplified])

section \<open>Loading\<close>

lemma compile_rules_Inr:
  "compile_rules f rs = Inr rs' \<Longrightarrow> list_all2 (\<lambda>r r'. f r = Inr r') rs rs'"
  by (induction rs arbitrary: rs') (auto simp: list_all2_Cons1 split: sum.splits)

lemma compile_rules_total: "(\<exists>rs'. compile_rules f rs = Inr rs') \<longleftrightarrow> (\<forall>r \<in> set rs. \<exists>r'. f r = Inr r')"
  by (induction rs) (auto split: sum.splits)

lemma hydrate_defaults_simps [simp]:
  "rule_ID (hydrate_defaults r) = rule_ID r" "rule_Expr (hydrate_defaults r) = rule_Expr r"
  "rule_compiled (hydrate_defaults r) = rule_compiled r"
  "rule_BaseScore (hydrate_defaults r) = rule_BaseScore r"
  "rule_CapScore (hydrate_defaults r) = (if rule_CapScore r = 0 then 100 else rule_CapScore r)"
  "rule_MinSignals (hydrate_defaults r) = (if rule_MinSignals r = 0 then 1 else rule_MinSignals r)"
  "rule_PerSignal (hydrate_defaults r) = (if rule_PerSignal r = 0 then 15 else rule_PerSignal r)"
  by (simp_all add: hydrate_defaults_def Let_def)

definition hydrated :: "Rule \<Rightarrow> bool" where
  "hydrated r \<longleftrightarrow> rule_CapScore r \<noteq> 0 \<and> rule_MinSignals r \<noteq> 0 \<and> rule_PerSignal r \<noteq> 0 \<and>
     (case CompileExpr (rule_Expr r) of Inl _ \<Rightarrow> False | Inr e \<Rightarrow> CompiledExpr r = e)"

lemma CompileExpr_empty: "CompileExpr [] = Inr \<lparr>expr_node = BoolLit True, expr_src = []\<rparr>"
  by (simp add: CompileExpr_def TrimSpace_def)

lemma compile_rule_hydrated:
  "compile_rule (hydrate_defaults r) = Inr r' \<Longrightarrow> rule_compiled r = None \<Longrightarrow> hydrated r' \<and> rule_ID r' = rule_ID r"
  by (auto simp: compile_rule_def hydrated_def CompiledExpr_def CompileExpr_empty
      split: if_splits sum.splits)

lemma LoadPack_hydrated:
  assumes "LoadPack readFile unmarshal path = Inr p" "readFile path = Some b" "unmarshal b = Some q"
    and "\<And>r. r \<in> set (pack_Rules q) \<Longrightarrow> rule_compiled r = None"
  shows "list_all2 (\<lambda>r r'. hydrated r' \<and> rule_ID r' = rule_ID r) (pack_Rules q) (pack_Rules p)"
proof -
  have "compile_rules (compile_rule \<circ> hydrate_defaults) (pack_Rules q) = Inr (pack_Rules p)"
    using assms(1-3) by (auto simp: LoadPack_def split: sum.splits)
  then have "list_all2 (\<lambda>r r'. compile_rule (hydrate_defaults r) = Inr r') (pack_Rules q) (pack_Rules p)"
    by (auto dest: compile_rules_Inr)
  then show ?thesis
    by (rule list.rel_mono_strong) (simp add: compile_rule_hydrated assms(4))
qed

lemma LoadPack_succeeds_iff:
  assumes "readFile path = Some b" "unmarshal b = Some q"
  shows "(\<exists>p. LoadPack readFile unmarshal path = Inr p) \<longleftrightarrow>
    (\<forall>r \<in> set (pack_Rules q). rule_Expr r \<noteq> [] \<longrightarrow> (\<exists>e. CompileExpr (rule_Expr r) = Inr e))"
proof -
  have "(\<exists>r'. (compile_rule \<circ> hydrate_defaults) r = Inr r') \<longleftrightarrow>
      (rule_Expr r \<noteq> [] \<longrightarrow> (\<exists>e. CompileExpr (rule_Expr r) = Inr e))" for r
    by (auto simp: compile_rule_def split: sum.splits)
  then show ?thesis
    using assms compile_rules_total [of "compile_rule \<circ> hydrate_defaults" "pack_Rules q"]
    by (auto simp: LoadPack_def split: sum.splits)
qed

section \<open>Scores\<close>

definition sane_rule :: "Rule \<Rightarrow> bool" where
  "sane_rule r \<longleftrightarrow> 0 \<le> rule_BaseScore r \<and> rule_BaseScore r \<le> rule_CapScore r \<and> rule_CapScore r \<le> 100 \<and>
     1 \<le> rule_MinSignals r \<and> rule_MinSignals r < 2 ^ 31 \<and> 0 \<le> rule_PerSignal r \<and> rule_PerSignal r < 2 ^ 30"

lemma small_product: "0 \<le> (x::int) \<Longrightarrow> x \<le> 2 ^ 31 \<Longrightarrow> 0 \<le> y \<Longrightarrow> y < 2 ^ 30 \<Longrightarrow> 0 \<le> x * y \<and> x * y \<le> 2 ^ 61"
proof -
  assume a: "0 \<le> x" "x \<le> 2 ^ 31" "0 \<le> y" "y < 2 ^ 30"
  then have "x * y \<le> 2 ^ 31 * 2 ^ 30" by (intro mult_mono) auto
  with a show ?thesis by simp
qed

lemma Score_sane:
  assumes "ByID p i = Some r" "sane_rule r" "int (length sigs) < 2 ^ 31"
  shows "Score p i sigs =
    (if int (length sigs) < rule_MinSignals r then rule_BaseScore r
     else min (rule_CapScore r)
            (rule_BaseScore r + (int (length sigs) - rule_MinSignals r + 1) * rule_PerSignal r), True)"
proof -
  let ?n = "int (length sigs) - rule_MinSignals r + 1"
  have "wrap64 (rule_BaseScore r + wrap64 (wrap64 ?n * rule_PerSignal r)) = rule_BaseScore r + ?n * rule_PerSignal r"
    if "rule_MinSignals r \<le> int (length sigs)"
  proof -
    have b: "0 \<le> ?n" "?n \<le> 2 ^ 31" using that assms by (auto simp: sane_rule_def)
    then have "wrap64 ?n = ?n" by (intro wrap64_small) simp
    moreover have pr: "0 \<le> ?n * rule_PerSignal r \<and> ?n * rule_PerSignal r \<le> 2 ^ 61"
      using b assms(2) by (intro small_product) (auto simp: sane_rule_def)
    then have "wrap64 (?n * rule_PerSignal r) = ?n * rule_PerSignal r"
      by (intro wrap64_small) simp
    moreover have "wrap64 (rule_BaseScore r + ?n * rule_PerSignal r) = rule_BaseScore r + ?n * rule_PerSignal r"
      using pr assms(2) by (intro wrap64_small) (simp add: sane_rule_def)
    ultimately show ?thesis by simp
  qed
  then show ?thesis using assms(1) by (simp add: Score_def Let_def min_def)
qed

lemma Score_monotone_bounded:
  assumes "ByID p i = Some r" "sane_rule r" "length s \<le> length t" "int (length t) < 2 ^ 31"
  shows "0 \<le> fst (Score p i s) \<and> fst (Score p i s) \<le> fst (Score p i t) \<and> fst (Score p i t) \<le> 100"
proof -
  let ?v = "\<lambda>u :: string list. (int (length u) - rule_MinSignals r + 1) * rule_PerSignal r"
  have "?v s \<le> ?v t" using assms by (intro mult_right_mono) (auto simp: sane_rule_def)
  moreover have "0 \<le> ?v u" if "rule_MinSignals r \<le> int (length u)" for u :: "string list"
    using that assms(2) by (intro mult_nonneg_nonneg) (auto simp: sane_rule_def)
  ultimately show ?thesis
    using assms Score_sane [OF assms(1,2), of s] Score_sane [OF assms(1,2), of t]
    by (auto simp: sane_rule_def min_def)
qed

lemma Score_capped:
  "ByID p i = Some r \<Longrightarrow> rule_MinSignals r \<le> int (length sigs) \<Longrightarrow> fst (Score p i sigs) \<le> rule_CapScore r"
  by (simp add: Score_def Let_def)

lemma SeverityFromConfidence_mono:
  "a \<le> b \<Longrightarrow>
   (SeverityFromConfidence a False = SeverityCritical \<longrightarrow> SeverityFromConfidence b False = SeverityCritical) \<and>
   (SeverityFromConfidence b False = SeverityLow \<longrightarrow> SeverityFromConfidence a False = SeverityLow)"
  by (simp add: SeverityFromConfidence_def severity_defs)

lemma VerifyPackSignature_ok_iff:
  "VerifyPackSignature readFile b64 edVerify packPath sigPath pubKeyPath = None \<longleftrightarrow>
   pubKeyPath \<noteq> [] \<and>
   (\<exists>raw pub msg sraw sig. readFile pubKeyPath = Some raw \<and>
      b64 (TrimPrefix (TrimSpace raw) ''ed25519:'') = Some pub \<and> length pub = 32 \<and>
      readFile packPath = Some msg \<and> readFile sigPath = Some sraw \<and>
      b64 (TrimSpace sraw) = Some sig \<and> edVerify pub msg sig)"
  by (auto simp: VerifyPackSignature_def loadEd25519Pub_def PublicKeySize_def
      split: option.splits sum.splits if_splits)

section \<open>Correctness\<close>

text \<open>
  Overlaying packs can only add rules: after merging any number of packs, in any state of the
  base pack, a lookup returns the rule of the first pack that has the id, the base pack first.
\<close>

theorem merge_lookup_order:
  "ByID (fold (\<lambda>x q. Merge q (Some x)) xs p) k =
     (case find (\<lambda>q. ByID q k \<noteq> None) (p # xs) of None \<Rightarrow> None | Some q \<Rightarrow> ByID q k)"
  by (rule packs.merge_many)

text \<open>
  A pack loads exactly when the file is read, decoded, and every non-empty expression of it
  compiles; a pack that loads has its score parameters filled in and carries, for each rule, the
  compiled form of its own expression.
\<close>

theorem LoadPack_correct:
  assumes "readFile path = Some b" "unmarshal b = Some q" "\<forall>r \<in> set (pack_Rules q). rule_compiled r = None"
  shows "((\<exists>p. LoadPack readFile unmarshal path = Inr p) \<longleftrightarrow>
      (\<forall>r \<in> set (pack_Rules q). rule_Expr r \<noteq> [] \<longrightarrow> (\<exists>e. CompileExpr (rule_Expr r) = Inr e))) \<and>
    (\<forall>p. LoadPack readFile unmarshal path = Inr p \<longrightarrow>
      list_all2 (\<lambda>r r'. hydrated r' \<and> rule_ID r' = rule_ID r) (pack_Rules q) (pack_Rules p))"
proof -
  note ok = LoadPack_succeeds_iff [where readFile = readFile and unmarshal = unmarshal, OF assms(1,2)]
  note hyd = LoadPack_hydrated [where readFile = readFile and unmarshal = unmarshal, OF _ assms(1,2)]
  show ?thesis using ok hyd assms(3) by blast
qed

theorem LoadPack_correct_witness:
  "\<exists>p. LoadPack (\<lambda>f. Some []) (\<lambda>b. Some \<lparr>pack_Version = [], pack_Rules = [zero_Rule\<lparr>rule_ID := ''R1'', rule_Expr := ''uid == 0''\<rparr>]\<rparr>) ''pack.yaml'' = Inr p \<and>
     list_all2 (\<lambda>r r'. hydrated r' \<and> rule_ID r' = rule_ID r) [zero_Rule\<lparr>rule_ID := ''R1'', rule_Expr := ''uid == 0''\<rparr>] (pack_Rules p)"
proof -
  let ?q = "\<lparr>pack_Version = [], pack_Rules = [zero_Rule\<lparr>rule_ID := ''R1'', rule_Expr := ''uid == 0''\<rparr>]\<rparr>"
  have "case CompileExpr ''uid == 0'' of Inl _ \<Rightarrow> False | Inr _ \<Rightarrow> True" by code_simp
  then have "\<exists>e. CompileExpr ''uid == 0'' = Inr e" by (auto split: sum.splits)
  then show ?thesis
    using LoadPack_correct [of "\<lambda>f. Some []" "''pack.yaml''" "[]" "\<lambda>b. Some ?q" ?q]
    by (simp add: zero_Rule_def) blast
qed

text \<open>
  Scoring is monotone and bounded: for a rule with sane parameters more signals never lower
  the confidence, and it stays between 0 and 100.
\<close>

theorem Score_monotone:
  assumes "ByID p i = Some r" "sane_rule r" "length s \<le> length t" "int (length t) < 2 ^ 31"
  shows "0 \<le> fst (Score p i s) \<and> fst (Score p i s) \<le> fst (Score p i t) \<and> fst (Score p i t) \<le> 100"
  by (rule Score_monotone_bounded [OF assms])

theorem Score_monotone_witness:
  "let p = \<lparr>pack_Version = ''1'', pack_Rules = [hydrate_defaults (zero_Rule\<lparr>rule_ID := ''R'', rule_BaseScore := 60, rule_MinSignals := 2\<rparr>)]\<rparr>
   in Score p ''R'' [''a'', ''b''] = (75, True) \<and> fst (Score p ''R'' [''a'', ''b'']) \<le> fst (Score p ''R'' [''a'', ''b'', ''c'', ''d'', ''e''])"
  using Score_monotone [of "\<lparr>pack_Version = ''1'', pack_Rules = [hydrate_defaults (zero_Rule\<lparr>rule_ID := ''R'', rule_BaseScore := 60, rule_MinSignals := 2\<rparr>)]\<rparr>"
      "''R''" "hydrate_defaults (zero_Rule\<lparr>rule_ID := ''R'', rule_BaseScore := 60, rule_MinSignals := 2\<rparr>)" "[''a'', ''b'']" "[''a'', ''b'', ''c'', ''d'', ''e'']"]
  by (simp add: ByID_def zero_Rule_def sane_rule_def Score_def Let_def wrap64_def)

text \<open>
  A pack signature is accepted exactly when a public key is configured, decodes to 32 bytes,
  the pack and the signature file can be read, the signature decodes, and ed25519 verifies the
  signature over the bytes of the pack; every other outcome is an error.
\<close>

theorem signature_accepted_iff:
  "VerifyPackSignature readFile b64 edVerify packPath sigPath pubKeyPath = None \<longleftrightarrow>
   pubKeyPath \<noteq> [] \<and>
   (\<exists>raw pub msg sraw sig. readFile pubKeyPath = Some raw \<and>
      b64 (TrimPrefix (TrimSpace raw) ''ed25519:'') = Some pub \<and> length pub = 32 \<and>
      readFile packPath = Some msg \<and> readFile sigPath = Some sraw \<and>
      b64 (TrimSpace sraw) = Some sig \<and> edVerify pub msg sig)"
  by (rule VerifyPackSignature_ok_iff)

section \<open>Deviations\<close>

text \<open>
  The lexer skips characters it does not know: a negation written with an exclamation mark and the
  sign of a number vanish without an error. The infix \<^verbatim>\<open>matches\<close> of the grammar comment is
  rejected. A base score above 100 is returned as it is below the signal threshold.
\<close>

lemma lexer_drops_characters:
  "(case CompileExpr ''!true'' of Inr e \<Rightarrow> expr_node e = IdentNode ''true'' | Inl _ \<Rightarrow> False) \<and>
   (case CompileExpr ''uid == -1'' of Inr e \<Rightarrow> expr_node e = BinOpNode ''=='' (IdentNode ''uid'') (IntLit 1) | Inl _ \<Rightarrow> False)"
  by code_simp

lemma infix_matches_rejected: "case CompileExpr ''comm matches true'' of Inr e \<Rightarrow> False | Inl _ \<Rightarrow> True"
  by code_simp

lemma score_unclamped:
  "Score \<lparr>pack_Version = ''1'', pack_Rules = [hydrate_defaults (zero_Rule\<lparr>rule_ID := ''R'', rule_BaseScore := 150, rule_MinSignals := 2\<rparr>)]\<rparr>
     ''R'' [''a''] = (150, True)"
  by (simp add: Score_def ByID_def zero_Rule_def hydrate_defaults_def)

end
