(* ===== verification/GC_Config.thy ===== *)
theory GC_Config
  imports GC_Prelude
begin

text \<open>
  The configuration of \<^verbatim>\<open>internal/config/config.go\<close>: its records, the defaults, the
  repairs that \<^verbatim>\<open>Load\<close> makes after decoding and \<^verbatim>\<open>Validate\<close>. The YAML decoder
  fills the fields a file names and leaves the others, so it is the parameter
  \<open>unmarshal :: string \<Rightarrow> Config \<Rightarrow> Config option\<close>, applied to the defaults.
\<close>

section \<open>Records\<close>

record SyslogUDPConfig =
  su_Enabled :: bool
  su_Host :: string
  su_Port :: int
  su_Format :: string
  su_Facility :: string
  su_AppName :: string
  su_Hostname :: string
  su_ProcID :: string
  su_MaxMsgBytes :: int

definition zero_SyslogUDPConfig :: SyslogUDPConfig where
  "zero_SyslogUDPConfig = \<lparr>su_Enabled = False, su_Host = [], su_Port = 0, su_Format = [],
     su_Facility = [], su_AppName = [], su_Hostname = [], su_ProcID = [], su_MaxMsgBytes = 0\<rparr>"

record SyslogTCPConfig =
  st_Enabled :: bool
  st_Host :: string
  st_Port :: int
  st_TLS :: bool
  st_TLSCACertFile :: string
  st_TLSServerName :: string
  st_Format :: string
  st_Facility :: string
  st_AppName :: string
  st_Hostname :: string
  st_ProcID :: string
  st_MaxMsgBytes :: int

definition zero_SyslogTCPConfig :: SyslogTCPConfig where
  "zero_SyslogTCPConfig = \<lparr>st_Enabled = False, st_Host = [], st_Port = 0, st_TLS = False,
     st_TLSCACertFile = [], st_TLSServerName = [], st_Format = [], st_Facility = [], st_AppName =
     [], st_Hostname = [], st_ProcID = [], st_MaxMsgBytes = 0\<rparr>"

record SplunkHECConfig =
  sh_Enabled :: bool
  sh_URL :: string
  sh_Token :: string
  sh_Index :: string
  sh_SourceType :: string
  sh_Insecure :: bool

definition zero_SplunkHECConfig :: SplunkHECConfig where
  "zero_SplunkHECConfig = \<lparr>sh_Enabled = False, sh_URL = [], sh_Token = [], sh_Index = [],
     sh_SourceType = [], sh_Insecure = False\<rparr>"

record ElasticBulkConfig =
  eb_Enabled :: bool
  eb_URL :: string
  eb_Index :: string
  eb_APIKey :: string
  eb_Username :: string
  eb_Password :: string
  eb_Insecure :: bool

definition zero_ElasticBulkConfig :: ElasticBulkConfig where
  "zero_ElasticBulkConfig = \<lparr>eb_Enabled = False, eb_URL = [], eb_Index = [], eb_APIKey =
     [], eb_Username = [], eb_Password = [], eb_Insecure = False\<rparr>"

record LokiPushConfig =
  lp_Enabled :: bool
  lp_URL :: string
  lp_Labels :: "(string, string) gomap"
  lp_Username :: string
  lp_Password :: string
  lp_Insecure :: bool

definition zero_LokiPushConfig :: LokiPushConfig where
  "zero_LokiPushConfig = \<lparr>lp_Enabled = False, lp_URL = [], lp_Labels = [], lp_Username =
     [], lp_Password = [], lp_Insecure = False\<rparr>"

record SelfGuardConfig =
  sg_Enabled :: bool
  sg_BinaryPath :: string
  sg_ExpectedBinarySHA256 :: string
  sg_SystemdWatchdog :: bool

definition zero_SelfGuardConfig :: SelfGuardConfig where
  "zero_SelfGuardConfig = \<lparr>sg_Enabled = False, sg_BinaryPath = [], sg_ExpectedBinarySHA256
     = [], sg_SystemdWatchdog = False\<rparr>"

record CopyFailConfig =
  cf_Enabled :: bool
  cf_PageCacheCheckEnabled :: bool
  cf_AllowedCommExtras :: "string list"
  cf_TargetSUIDBinaries :: "string list"

definition zero_CopyFailConfig :: CopyFailConfig where
  "zero_CopyFailConfig = \<lparr>cf_Enabled = False, cf_PageCacheCheckEnabled = False,
     cf_AllowedCommExtras = [], cf_TargetSUIDBinaries = []\<rparr>"

record SuddenRootConfig =
  sr_Enabled :: bool
  sr_SnapshotInterval :: duration
  sr_AllowedExeBasenames :: "string list"
  sr_AllowedAncestorComms :: "string list"

definition zero_SuddenRootConfig :: SuddenRootConfig where
  "zero_SuddenRootConfig = \<lparr>sr_Enabled = False, sr_SnapshotInterval = 0,
     sr_AllowedExeBasenames = [], sr_AllowedAncestorComms = []\<rparr>"

record SensorConfig =
  sc_Backend :: string
  sc_DebounceMS :: int

definition zero_SensorConfig :: SensorConfig where
  "zero_SensorConfig = \<lparr>sc_Backend = [], sc_DebounceMS = 0\<rparr>"

record ResponseConfig =
  rcf_Enabled :: bool
  rcf_Mode :: string
  rcf_KillSwitch :: bool
  rcf_MinConfidence :: int
  rcf_MinSeverity :: string
  rcf_AllowQuarantine :: bool
  rcf_AllowKillProcess :: bool
  rcf_AllowIsolateHost :: bool
  rcf_ProtectedComms :: "string list"
  rcf_ProtectedPIDs :: "int list"
  rcf_IsolationAllowlistCIDRs :: "string list"
  rcf_RateLimitPerActionPerMin :: int
  rcf_RequireRoot :: bool

definition zero_ResponseConfig :: ResponseConfig where
  "zero_ResponseConfig = \<lparr>rcf_Enabled = False, rcf_Mode = [], rcf_KillSwitch = False,
     rcf_MinConfidence = 0, rcf_MinSeverity = [], rcf_AllowQuarantine = False,
     rcf_AllowKillProcess = False, rcf_AllowIsolateHost = False, rcf_ProtectedComms = [],
     rcf_ProtectedPIDs = [], rcf_IsolationAllowlistCIDRs = [], rcf_RateLimitPerActionPerMin = 0,
     rcf_RequireRoot = False\<rparr>"

record Config =
  cfg_ScanInterval :: duration
  cfg_DocumentRoots :: "string list"
  cfg_BaselinePath :: string
  cfg_RulePackPath :: string
  cfg_StateDir :: string
  cfg_MinConfidenceAlert :: int
  cfg_LearningMode :: bool
  cfg_RequireRoot :: bool
  cfg_WebRecentDays :: int
  cfg_PathAllowlist :: "string list"
  cfg_LDPreloadAllowlist :: "string list"
  cfg_TargetProcessNames :: "string list"
  cfg_FirstRunAllowAlerts :: bool
  cfg_MapsScanEnabled :: bool
  cfg_MapsWatchProcesses :: "string list"
  cfg_MapsPathAllowlist :: "string list"
  cfg_IntegrityVerifyEnabled :: bool
  cfg_IntegrityScanInterval :: duration
  cfg_IntegrityPaths :: "string list"
  cfg_WebReconChildScanEnabled :: bool
  cfg_WatchAuthorizedKeys :: bool
  cfg_WatchDebounce :: duration
  cfg_WatchSensitivePaths :: bool
  cfg_NetworkScanEnabled :: bool
  cfg_NetworkScanInterval :: duration
  cfg_NetworkAllowlist :: "string list"
  cfg_IOCFeedHashFiles :: "string list"
  cfg_IOCFeedIPFiles :: "string list"
  cfg_IOCFeedDomainFiles :: "string list"
  cfg_RateLimitPerRulePerMin :: int
  cfg_SpoolDir :: string
  cfg_SpoolMaxBytes :: int
  cfg_RulePackPubKey :: string
  cfg_RulePackSigPath :: string
  cfg_SigmaLiteDir :: string
  cfg_AncestryScanEnabled :: bool
  cfg_YARARulesDir :: string
  cfg_YARAMemoryEnabled :: bool
  cfg_QuarantineDir :: string
  cfg_QuarantineMinConfidence :: int
  cfg_BaselineCommitTokenEnv :: string
  cfg_SyslogUDP :: SyslogUDPConfig
  cfg_SyslogTCP :: SyslogTCPConfig
  cfg_SplunkHEC :: SplunkHECConfig
  cfg_ElasticBulk :: ElasticBulkConfig
  cfg_LokiPush :: LokiPushConfig
  cfg_SelfGuard :: SelfGuardConfig
  cfg_CopyFail :: CopyFailConfig
  cfg_SuddenRoot :: SuddenRootConfig
  cfg_Sensor :: SensorConfig
  cfg_Respond :: ResponseConfig
  cfg_MappingPath :: string
  cfg_WatchedUnits :: "string list"
  cfg_FPAllowlistUnits :: "string list"

section \<open>Defaults\<close>

definition defaultResponse :: ResponseConfig where
  "defaultResponse = zero_ResponseConfig\<lparr>rcf_Enabled := True, rcf_Mode := ''audit'', rcf_MinConfidence := 85,
     rcf_MinSeverity := ''high'', rcf_AllowQuarantine := True, rcf_AllowKillProcess := True,
     rcf_ProtectedComms := [''sshd'', ''systemd'', ''ghostcatcher''], rcf_ProtectedPIDs := [1],
     rcf_RateLimitPerActionPerMin := 30, rcf_RequireRoot := True\<rparr>"

definition Default :: Config where
  "Default = \<lparr>cfg_ScanInterval = 5 * minute, cfg_DocumentRoots = [], cfg_BaselinePath =
     ''/var/lib/ghostcatcher/baseline.json'', cfg_RulePackPath =
     ''/etc/ghostcatcher/rule_pack.yaml'', cfg_StateDir = ''/var/lib/ghostcatcher'',
     cfg_MinConfidenceAlert = 70, cfg_LearningMode = False, cfg_RequireRoot = False,
     cfg_WebRecentDays = 14, cfg_PathAllowlist = [''/usr/share/nginx/html/'',
     ''/var/www/html/vendor/''], cfg_LDPreloadAllowlist = [], cfg_TargetProcessNames = [''nginx'',
     ''apache2'', ''httpd'', ''sshd'', ''cron'', ''CRON''], cfg_FirstRunAllowAlerts = False,
     cfg_MapsScanEnabled = False, cfg_MapsWatchProcesses = [''nginx'', ''apache2'', ''httpd''],
     cfg_MapsPathAllowlist = [], cfg_IntegrityVerifyEnabled = False, cfg_IntegrityScanInterval =
     360 * minute, cfg_IntegrityPaths = [''/bin/ls'', ''/bin/ps'', ''/usr/bin/ls'',
     ''/usr/bin/ps'', ''/usr/bin/netstat'', ''/usr/bin/ss''], cfg_WebReconChildScanEnabled = True,
     cfg_WatchAuthorizedKeys = False, cfg_WatchDebounce = 800 * millisecond,
     cfg_WatchSensitivePaths = True, cfg_NetworkScanEnabled = True, cfg_NetworkScanInterval = 15 *
     minute, cfg_NetworkAllowlist = [''127.0.0.0/8'', ''10.0.0.0/8'', ''172.16.0.0/12'',
     ''192.168.0.0/16'', ''::1/128'', ''fc00::/7''], cfg_IOCFeedHashFiles = [], cfg_IOCFeedIPFiles
     = [], cfg_IOCFeedDomainFiles = [], cfg_RateLimitPerRulePerMin = 120, cfg_SpoolDir =
     ''/var/lib/ghostcatcher/spool'', cfg_SpoolMaxBytes = 64 * 1024 * 1024, cfg_RulePackPubKey =
     [], cfg_RulePackSigPath = [], cfg_SigmaLiteDir = [], cfg_AncestryScanEnabled = True,
     cfg_YARARulesDir = [], cfg_YARAMemoryEnabled = False, cfg_QuarantineDir = [],
     cfg_QuarantineMinConfidence = 0, cfg_BaselineCommitTokenEnv = [], cfg_SyslogUDP =
     zero_SyslogUDPConfig, cfg_SyslogTCP = zero_SyslogTCPConfig, cfg_SplunkHEC =
     zero_SplunkHECConfig, cfg_ElasticBulk = zero_ElasticBulkConfig, cfg_LokiPush =
     zero_LokiPushConfig, cfg_SelfGuard = zero_SelfGuardConfig, cfg_CopyFail =
     zero_CopyFailConfig\<lparr>cf_Enabled := True\<rparr>, cfg_SuddenRoot =
     zero_SuddenRootConfig\<lparr>sr_Enabled := True, sr_SnapshotInterval := 10 * second\<rparr>,
     cfg_Sensor = \<lparr>sc_Backend = ''auto'', sc_DebounceMS = 0\<rparr>, cfg_Respond =
     defaultResponse, cfg_MappingPath = [], cfg_WatchedUnits = [''nginx.service'',
     ''apache2.service'', ''httpd.service'', ''php-fpm'', ''php7.4-fpm'', ''php8.1-fpm'',
     ''php8.3-fpm'', ''uwsgi.service'', ''gunicorn.service'', ''tomcat'', ''node''],
     cfg_FPAllowlistUnits = [''unattended-upgrades.service'', ''apt-daily.service'',
     ''apt-daily-upgrade.service'', ''snapd.service'', ''snapd.seeded.service'',
     ''cloud-init.service'', ''cloud-final.service'', ''logrotate.service'', ''man-db.service'',
     ''plocate-updatedb.service'', ''needrestart.service'', ''dkms.service'', ''fwupd.service'',
     ''ua-timer.service'', ''landscape-client.service'', ''packagekit.service'',
     ''motd-news.service'']\<rparr>"

section \<open>Loading and validation\<close>

datatype config_error =
    ConfigRead | ConfigYAML | BaselinePathRequired | RulePackPathRequired
  | BadBackend string | HostRequired | PortRange | BadFormat

definition repair :: "Config \<Rightarrow> Config" where
  "repair c0 =
     (let c1 = (if cfg_WebRecentDays c0 \<le> 0 then c0\<lparr>cfg_WebRecentDays := 14\<rparr> else c0);
          c2 = (if sr_Enabled (cfg_SuddenRoot c1) \<and> sr_SnapshotInterval (cfg_SuddenRoot c1) \<le> 0
                then c1\<lparr>cfg_SuddenRoot := (cfg_SuddenRoot c1)\<lparr>sr_SnapshotInterval := 10 * second\<rparr>\<rparr> else c1);
          c3 = (if sc_Backend (cfg_Sensor c2) = []
                then c2\<lparr>cfg_Sensor := (cfg_Sensor c2)\<lparr>sc_Backend := ''auto''\<rparr>\<rparr> else c2)
      in if sc_DebounceMS (cfg_Sensor c3) < 0
         then c3\<lparr>cfg_Sensor := (cfg_Sensor c3)\<lparr>sc_DebounceMS := 0\<rparr>\<rparr> else c3)"

definition LoadConfig ::
  "(string \<Rightarrow> string option) \<Rightarrow> (string \<Rightarrow> Config \<Rightarrow> Config option) \<Rightarrow> string \<Rightarrow> config_error + Config" where
  "LoadConfig readFile unmarshal path =
     (case readFile path of
        None \<Rightarrow> Inl ConfigRead
      | Some b \<Rightarrow>
          (case unmarshal b Default of
             None \<Rightarrow> Inl ConfigYAML
           | Some c \<Rightarrow>
               if cfg_BaselinePath c = [] then Inl BaselinePathRequired
               else if cfg_RulePackPath c = [] then Inl RulePackPathRequired
               else Inr (repair c)))"

definition backends :: "string list" where
  "backends = [[], ''auto'', ''ebpf'', ''auditd'', ''audit'', ''proc-poll'', ''procpoll'', ''proc'']"

definition Validate :: "Config \<Rightarrow> config_error option" where
  "Validate c =
     (if sc_Backend (cfg_Sensor c) \<notin> set backends then Some (BadBackend (sc_Backend (cfg_Sensor c)))
      else if \<not> su_Enabled (cfg_SyslogUDP c) then None
      else if su_Host (cfg_SyslogUDP c) = [] then Some HostRequired
      else if su_Port (cfg_SyslogUDP c) \<le> 0 \<or> su_Port (cfg_SyslogUDP c) > 65535 then Some PortRange
      else
        (let f = (if su_Format (cfg_SyslogUDP c) = [] then ''rfc5424'' else su_Format (cfg_SyslogUDP c))
         in if f \<noteq> ''rfc5424'' \<and> f \<noteq> ''rfc3164'' then Some BadFormat else None))"

section \<open>What loading guarantees\<close>

definition config_ok :: "Config \<Rightarrow> bool" where
  "config_ok c \<longleftrightarrow> cfg_BaselinePath c \<noteq> [] \<and> cfg_RulePackPath c \<noteq> [] \<and> 0 < cfg_WebRecentDays c \<and>
     (sr_Enabled (cfg_SuddenRoot c) \<longrightarrow> 0 < sr_SnapshotInterval (cfg_SuddenRoot c)) \<and>
     sc_Backend (cfg_Sensor c) \<noteq> [] \<and> 0 \<le> sc_DebounceMS (cfg_Sensor c)"

lemma repair_fields:
  "cfg_BaselinePath (repair c) = cfg_BaselinePath c" "cfg_RulePackPath (repair c) = cfg_RulePackPath c"
  "cfg_Respond (repair c) = cfg_Respond c" "cfg_SyslogUDP (repair c) = cfg_SyslogUDP c"
  "cfg_MinConfidenceAlert (repair c) = cfg_MinConfidenceAlert c"
  "cfg_WebRecentDays (repair c) = (if cfg_WebRecentDays c \<le> 0 then 14 else cfg_WebRecentDays c)"
  by (simp_all add: repair_def Let_def)

lemma repair_ok: "cfg_BaselinePath c \<noteq> [] \<Longrightarrow> cfg_RulePackPath c \<noteq> [] \<Longrightarrow> config_ok (repair c)"
  by (simp add: config_ok_def repair_def Let_def duration_defs not_le)

lemma repair_id: "config_ok c \<Longrightarrow> repair c = c"
  by (cases "sr_Enabled (cfg_SuddenRoot c)") (simp_all add: config_ok_def repair_def Let_def not_le)

lemma LoadConfig_Inr:
  "LoadConfig readFile unmarshal path = Inr c \<longleftrightarrow>
   (\<exists>b c0. readFile path = Some b \<and> unmarshal b Default = Some c0 \<and> cfg_BaselinePath c0 \<noteq> [] \<and>
      cfg_RulePackPath c0 \<noteq> [] \<and> c = repair c0)"
  by (cases "readFile path"; cases "unmarshal (the (readFile path)) Default") (simp_all add: LoadConfig_def eq_commute [of c])

lemma Default_ok: "config_ok Default" and Default_valid: "Validate Default = None"
  by (simp_all add: config_ok_def Default_def duration_defs Validate_def backends_def zero_SuddenRootConfig_def
      zero_SyslogUDPConfig_def)

section \<open>Correctness\<close>

text \<open>
  Every configuration that loads is usable: loading fails exactly when the file cannot be read
  or decoded or a mandatory path is empty, and a loaded configuration has its paths, a positive
  look-back, a positive snapshot interval for an enabled sudden-root detector, a sensor backend and
  no negative debounce; loading repairs nothing in a configuration that is already usable.
\<close>

theorem LoadConfig_correct:
  "(\<forall>c. LoadConfig readFile unmarshal path = Inr c \<longrightarrow> config_ok c) \<and>
   ((\<exists>c. LoadConfig readFile unmarshal path = Inr c) \<longleftrightarrow>
     (\<exists>b c0. readFile path = Some b \<and> unmarshal b Default = Some c0 \<and> cfg_BaselinePath c0 \<noteq> [] \<and> cfg_RulePackPath c0 \<noteq> [])) \<and>
   (\<forall>b c0. readFile path = Some b \<longrightarrow> unmarshal b Default = Some c0 \<longrightarrow> config_ok c0 \<longrightarrow>
     LoadConfig readFile unmarshal path = Inr c0)"
  using repair_ok repair_id unfolding LoadConfig_Inr by (force simp: config_ok_def)

theorem LoadConfig_correct_witness:
  "LoadConfig (\<lambda>p. Some []) (\<lambda>b c. Some c) ''agent.yaml'' = Inr Default \<and> config_ok Default"
  using LoadConfig_correct [of "\<lambda>p. Some []" "\<lambda>b c. Some c" "''agent.yaml''"] Default_ok by simp

end
