(* ===== verification/GC_Finding.thy ===== *)
theory GC_Finding
  imports GC_Sensor GC_Anchor GC_Rules GC_Config GC_Event
begin

text \<open>
  What the detectors share: the lexical path functions of \<^verbatim>\<open>path/filepath\<close> they use, the way
  each of them turns signals into a confidence, and their contract with the pipeline. A detector
  reports events of its own rules, with a confidence at or above its floor and the deduplication
  key of the event. The locale \<open>detector\<close> states the contract; each detector interprets it.
\<close>

section \<open>Paths\<close>

text \<open>\<^verbatim>\<open>filepath.Clean\<close>: the components read so far are kept in reverse.\<close>

fun clean_parts :: "bool \<Rightarrow> string list \<Rightarrow> string list \<Rightarrow> string list" where
  "clean_parts rooted st [] = rev st"
| "clean_parts rooted st (p # ps) =
     (if p = [] \<or> p = ''.'' then clean_parts rooted st ps
      else if p = ''..'' then
        (case st of
           [] \<Rightarrow> clean_parts rooted (if rooted then [] else [''..'']) ps
         | t # ts \<Rightarrow> clean_parts rooted (if t = ''..'' then ''..'' # st else ts) ps)
      else clean_parts rooted (p # st) ps)"

definition Clean :: "string \<Rightarrow> string" where
  "Clean p =
     (let rooted = HasPrefix p ''/'';
          body = Join (clean_parts rooted [] (SplitByte p (CHR ''/''))) ''/''
      in if rooted then CHR ''/'' # body else if body = [] then ''.'' else body)"

text \<open>\<^verbatim>\<open>filepath.Ext\<close>: from the last dot of the last component.\<close>

definition Ext :: "string \<Rightarrow> string" where
  "Ext p =
     (let b = rev (takeWhile (\<lambda>c. c \<noteq> CHR ''/'') (rev p))
      in if CHR ''.'' \<in> set b then CHR ''.'' # rev (takeWhile (\<lambda>c. c \<noteq> CHR ''.'') (rev b)) else [])"

definition clean_part :: "string \<Rightarrow> bool" where
  "clean_part p \<longleftrightarrow> p \<noteq> [] \<and> p \<noteq> ''.'' \<and> p \<noteq> ''..'' \<and> CHR ''/'' \<notin> set p"

lemma SplitByte_parts: "w \<in> set (SplitByte s d) \<Longrightarrow> d \<notin> set w"
  by (induction s d arbitrary: w rule: SplitByte.induct) (auto split: if_splits list.splits)

lemma clean_parts_rooted:
  assumes "list_all clean_part st" "\<forall>p \<in> set ps. CHR ''/'' \<notin> set p"
  shows "list_all clean_part (clean_parts True st ps)"
  using assms by (induction "True" st ps rule: clean_parts.induct) (auto simp: clean_part_def split: list.splits)

lemma clean_parts_id:
  assumes "list_all clean_part ps"
  shows "clean_parts rooted st ps = rev st @ ps"
  using assms by (induction ps arbitrary: st) (auto simp: clean_part_def)

lemma SplitByte_Join:
  assumes "ps \<noteq> []" "\<forall>p \<in> set ps. d \<notin> set p"
  shows "SplitByte (Join ps [d]) d = ps"
  using assms by (induction ps "[d]" rule: Join.induct) (auto simp: SplitByte_none SplitByte_append_line)

text \<open>A cleaned absolute path has no empty, dot or dot-dot component: it cannot climb out.\<close>

lemma Clean_rooted:
  assumes "HasPrefix p ''/''"
  shows "\<exists>ps. list_all clean_part ps \<and> Clean p = CHR ''/'' # Join ps ''/''"
proof -
  have "list_all clean_part (clean_parts True [] (SplitByte p (CHR ''/'')))"
    by (rule clean_parts_rooted) (auto dest: SplitByte_parts)
  then show ?thesis using assms by (auto simp: Clean_def Let_def)
qed

lemma Clean_idem_rooted:
  assumes "HasPrefix p ''/''"
  shows "Clean (Clean p) = Clean p"
proof -
  obtain ps where ps: "list_all clean_part ps" "Clean p = CHR ''/'' # Join ps ''/''"
    using Clean_rooted [OF assms] by blast
  have "SplitByte (CHR ''/'' # Join ps ''/'') (CHR ''/'') = (if ps = [] then [[], []] else [] # ps)"
    using ps(1) SplitByte_Join [of ps "CHR ''/''"] by (auto simp: list_all_iff clean_part_def)
  then show ?thesis using ps by (auto simp: Clean_def Let_def clean_parts_id HasPrefix_iff)
qed

lemma map_filter_Some: "y \<in> set (List.map_filter f xs) \<longleftrightarrow> (\<exists>x \<in> set xs. f x = Some y)"
  by (force simp: map_filter_def)

section \<open>Confidence of a finding\<close>

text \<open>The score of the rule pack, raised to the floor of the detector.\<close>

definition floored :: "int \<Rightarrow> Pack \<Rightarrow> string \<Rightarrow> string list \<Rightarrow> int" where
  "floored fl pack ruleID sigs = (let (conf, _) = Score pack ruleID sigs in if conf < fl then fl else conf)"

text \<open>\<^verbatim>\<open>ev.When.UTC()\<close> with the clock as a fallback.\<close>

definition when_or :: "time \<Rightarrow> SensorEvent \<Rightarrow> time" where
  "when_or clock ev = (if IsZero (se_When ev) then clock else se_When ev)"

text \<open>The path of a sensor record, from its field or its extra map.\<close>

definition event_path :: "SensorEvent \<Rightarrow> string" where
  "event_path ev =
     (let path = TrimSpace (se_Path ev) in if path = [] then TrimSpace (gget [] (se_Extra ev) ''path'') else path)"

lemma floored_ge: "fl \<le> floored fl pack r s"
  by (simp add: floored_def split_beta Let_def)

definition capped_pack :: "Pack \<Rightarrow> bool" where
  "capped_pack p \<longleftrightarrow> list_all (\<lambda>r. rule_BaseScore r \<le> 100 \<and> rule_CapScore r \<le> 100) (pack_Rules p)"

lemma Score_le_100:
  assumes "capped_pack p"
  shows "fst (Score p r s) \<le> 100"
proof (cases "ByID p r")
  case (Some rule)
  then have "rule_BaseScore rule \<le> 100" "rule_CapScore rule \<le> 100"
    using assms by (auto simp: capped_pack_def list_all_iff ByID_def find_Some_iff)
  then show ?thesis by (simp add: Score_def Some Let_def)
qed (simp add: Score_def)

lemma floored_le: "capped_pack p \<Longrightarrow> fl \<le> 100 \<Longrightarrow> floored fl p r s \<le> 100"
  using Score_le_100 [of p r s] by (simp add: floored_def split_beta Let_def)

section \<open>Hexadecimal numbers\<close>

definition ParseHexNat :: "string \<Rightarrow> nat option" where
  "ParseHexNat s =
     (if s = [] \<or> \<not> list_all (\<lambda>c. hex_val c \<noteq> None) s then None
      else Some (foldl (\<lambda>a c. 16 * a + the (hex_val c)) 0 s))"

text \<open>\<^verbatim>\<open>strconv.ParseInt(s, 16, w)\<close> and \<^verbatim>\<open>strconv.ParseUint(s, 16, w)\<close>.\<close>

definition ParseHexInt :: "nat \<Rightarrow> string \<Rightarrow> int option" where
  "ParseHexInt w s =
     (let neg = (s \<noteq> [] \<and> hd s = CHR ''-'');
          d = (if s \<noteq> [] \<and> (hd s = CHR ''-'' \<or> hd s = CHR ''+'') then tl s else s)
      in case ParseHexNat d of
           None \<Rightarrow> None
         | Some v \<Rightarrow>
             if neg then (if v \<le> 2 ^ (w - 1) then Some (- int v) else None)
             else if v < 2 ^ (w - 1) then Some (int v) else None)"

definition ParseHexUint :: "nat \<Rightarrow> string \<Rightarrow> nat option" where
  "ParseHexUint w s = (case ParseHexNat s of None \<Rightarrow> None | Some v \<Rightarrow> if v < 2 ^ w then Some v else None)"

section \<open>The contract of a detector\<close>

text \<open>
  The fields the pipeline relies on. Some detectors leave the key to the pipeline, which fills it
  in: either way the key the gates see is the hash of the rule and the entity.
\<close>

definition finding_ok :: "(string \<Rightarrow> string) \<Rightarrow> Pack \<Rightarrow> string \<Rightarrow> string list \<Rightarrow> Event \<Rightarrow> bool" where
  "finding_ok h pack agentVer rules e \<longleftrightarrow>
     ev_SchemaVersion e = SchemaVersion \<and> ev_AgentVersion e = agentVer \<and> ev_RulePackVersion e = pack_Version pack \<and>
     ev_RuleID e \<in> set rules \<and> (capped_pack pack \<longrightarrow> ev_Confidence e \<le> 100) \<and>
     ev_Signals e \<noteq> [] \<and> ev_DedupKey (NormalizeDedup h e) = h (dedup_preimage e)"

locale reporter =
  fixes h :: "string \<Rightarrow> string"
    and pack :: Pack
    and agentVer :: string
    and emits :: "'i \<Rightarrow> Event list"
    and rules :: "string list"
  assumes reported: "e \<in> set (emits i) \<Longrightarrow> finding_ok h pack agentVer rules e"
begin

lemma rule_known: "e \<in> set (emits i) \<Longrightarrow> ev_RuleID e \<in> set rules"
  using reported by (simp add: finding_ok_def)

lemma capped: "e \<in> set (emits i) \<Longrightarrow> capped_pack pack \<Longrightarrow> ev_Confidence e \<le> 100"
  using reported by (simp add: finding_ok_def)

text \<open>The same finding has the same key in every round, so that the duplicate check can see it.\<close>

lemma same_key:
  assumes "e \<in> set (emits i)" "e' \<in> set (emits j)" "ev_RuleID e = ev_RuleID e'"
    and "ent_Path (ev_Entity e) = ent_Path (ev_Entity e')" "ent_ID (ev_Entity e) = ent_ID (ev_Entity e')"
  shows "ev_DedupKey (NormalizeDedup h e) = ev_DedupKey (NormalizeDedup h e')"
  using reported [OF assms(1)] reported [OF assms(2)] assms(3-5) by (simp add: finding_ok_def dedup_preimage_def)

end

text \<open>Most detectors also have a floor for the confidence of what they report.\<close>

locale detector = reporter +
  fixes fl :: int
  assumes floor: "e \<in> set (emits i) \<Longrightarrow> fl \<le> ev_Confidence e"
begin

lemma in_range:
  assumes "e \<in> set (emits i)" "capped_pack pack"
  shows "fl \<le> ev_Confidence e \<and> ev_Confidence e \<le> 100"
  using floor [OF assms(1)] capped [OF assms] by simp

end

text \<open>Detectors that share a pack add up.\<close>

lemma reporter_append:
  assumes "reporter h pack v em1 r1" "reporter h pack v em2 r2"
  shows "reporter h pack v (\<lambda>i. em1 i @ em2 i) (r1 @ r2)"
  using assms by (fastforce simp: reporter_def finding_ok_def)

text \<open>The shape every detector builds: floor, versions, normalised key.\<close>

lemma finding_okI:
  assumes "ev_SchemaVersion e = SchemaVersion" "ev_AgentVersion e = agentVer" "ev_RulePackVersion e = pack_Version pack"
    and "ev_RuleID e \<in> set rules" "capped_pack pack \<Longrightarrow> ev_Confidence e \<le> 100" "ev_Signals e \<noteq> []" "ev_DedupKey e = []"
  shows "finding_ok h pack agentVer rules e" "finding_ok h pack agentVer rules (NormalizeDedup h e)"
  using assms by (simp_all add: finding_ok_def NormalizeDedup_def dedup_preimage_def)

end
