(* ===== verification/GC_Intel.thy ===== *)
theory GC_Intel
  imports GC_Procfs
begin

unbundle bit_operations_syntax

text \<open>
  What the runner compares a host with: the indicator feeds of \<^verbatim>\<open>internal/ioc/ioc.go\<close> and
  the committed baseline and its cache (\<^verbatim>\<open>internal/baseline\<close>), and the binary check of
  \<^verbatim>\<open>internal/selfguard/selfguard.go\<close>. An address is its bytes (4 or 16). The address parsers
  of package \<^verbatim>\<open>net\<close> are the parameters \<open>parseIP\<close>, \<open>parseCIDR\<close> and \<open>ipString\<close>; the
  JSON decoder of the baseline is \<open>unmarshal\<close>.
\<close>

section \<open>Indicator feeds\<close>

type_synonym ip = "nat list"

record IPNet =
  net_IP :: ip
  net_Mask :: ip

record netlib =
  nl_parseIP :: "string \<Rightarrow> ip option"
  nl_parseCIDR :: "string \<Rightarrow> IPNet option"
  nl_ipString :: "ip \<Rightarrow> string"

definition To4 :: "ip \<Rightarrow> ip option" where
  "To4 a =
     (if length a = 4 then Some a
      else if length a = 16 \<and> list_all (\<lambda>b. b = 0) (take 10 a) \<and> a ! 10 = 255 \<and> a ! 11 = 255 then Some (drop 12 a)
      else None)"

definition NetContains :: "IPNet \<Rightarrow> ip \<Rightarrow> bool" where
  "NetContains n a0 =
     (let a = (case To4 a0 of Some x \<Rightarrow> x | None \<Rightarrow> a0)
      in length a = length (net_IP n) \<and> length (net_Mask n) = length (net_IP n) \<and>
         list_all (\<lambda>((x, m), y). (x AND m) = (y AND m)) (zip (zip (net_IP n) (net_Mask n)) a))"

record Feed =
  feed_hashes :: "string list"
  feed_ips :: "string list"
  feed_cidrs :: "IPNet list"
  feed_domains :: "string list"

definition NewFeed :: Feed where
  "NewFeed = \<lparr>feed_hashes = [], feed_ips = [], feed_cidrs = [], feed_domains = []\<rparr>"

text \<open>Sets are lists without repetition: an insertion leaves a present element alone.\<close>

definition ins :: "'a \<Rightarrow> 'a list \<Rightarrow> 'a list" where
  "ins x xs = List.insert x xs"

definition addHash :: "string \<Rightarrow> Feed \<Rightarrow> Feed" where
  "addHash v f = f\<lparr>feed_hashes := ins (ToLower (TrimSpace v)) (feed_hashes f)\<rparr>"

definition addIP :: "netlib \<Rightarrow> string \<Rightarrow> Feed \<Rightarrow> Feed" where
  "addIP nl v0 f =
     (let v = TrimSpace v0
      in case nl_parseCIDR nl v of
           Some n \<Rightarrow> f\<lparr>feed_cidrs := feed_cidrs f @ [n]\<rparr>
         | None \<Rightarrow>
             (case nl_parseIP nl v of
                Some a \<Rightarrow> f\<lparr>feed_ips := ins (nl_ipString nl a) (feed_ips f)\<rparr>
              | None \<Rightarrow> f))"

definition addDomain :: "string \<Rightarrow> Feed \<Rightarrow> Feed" where
  "addDomain v f = f\<lparr>feed_domains := ins (ToLower (TrimSpace (TrimPrefix v ''.''))) (feed_domains f)\<rparr>"

definition feed_line_limit :: nat where "feed_line_limit = 1024 * 1024"

text \<open>The lines before the first over-long one are added even though the load then fails.\<close>

definition loadInto :: "(string \<Rightarrow> string option) \<Rightarrow> (string \<Rightarrow> Feed \<Rightarrow> Feed) \<Rightarrow> string \<Rightarrow> Feed \<Rightarrow> bool \<times> Feed" where
  "loadInto readFile add path f =
     (case readFile path of
        None \<Rightarrow> (False, f)
      | Some b \<Rightarrow>
          (let ls = takeWhile (\<lambda>l. length l < feed_line_limit) (raw_lines b);
               vs = filter (\<lambda>l. l \<noteq> [] \<and> \<not> HasPrefix l ''#'') (map (\<lambda>l. TrimSpace (drop_cr l)) ls)
           in (length ls = length (raw_lines b), fold add vs f)))"

fun loadFiles :: "(string \<Rightarrow> string option) \<Rightarrow> (string \<Rightarrow> Feed \<Rightarrow> Feed) \<Rightarrow> string list \<Rightarrow> Feed \<Rightarrow> bool \<times> Feed" where
  "loadFiles readFile add [] f = (True, f)"
| "loadFiles readFile add (p # ps) f =
     (let (ok, f') = loadInto readFile add p f in if ok then loadFiles readFile add ps f' else (False, f'))"

definition FeedLoad ::
  "(string \<Rightarrow> string option) \<Rightarrow> netlib \<Rightarrow> string list \<Rightarrow> string list \<Rightarrow> string list \<Rightarrow> Feed \<Rightarrow> bool \<times> Feed" where
  "FeedLoad readFile nl hashFiles ipFiles domainFiles f =
     (let (ok1, f1) = loadFiles readFile addHash hashFiles f
      in if \<not> ok1 then (False, f1)
         else
           (let (ok2, f2) = loadFiles readFile (addIP nl) ipFiles f1
            in if \<not> ok2 then (False, f2) else loadFiles readFile addDomain domainFiles f2))"

definition MatchHash :: "Feed \<Rightarrow> string \<Rightarrow> bool" where
  "MatchHash f h \<longleftrightarrow> ToLower (TrimSpace h) \<in> set (feed_hashes f)"

definition MatchIP :: "netlib \<Rightarrow> Feed \<Rightarrow> ip \<Rightarrow> bool" where
  "MatchIP nl f a \<longleftrightarrow> nl_ipString nl a \<in> set (feed_ips f) \<or> list_ex (\<lambda>n. NetContains n a) (feed_cidrs f)"

definition MatchDomain :: "Feed \<Rightarrow> string \<Rightarrow> bool" where
  "MatchDomain f d0 =
     (if d0 = [] then False
      else
        (let d = ToLower (TrimSpace d0)
         in d \<in> set (feed_domains f) \<or> list_ex (\<lambda>suffix. HasSuffix d (''.'' @ suffix)) (feed_domains f)))"

definition Sizes :: "Feed \<Rightarrow> nat \<times> nat \<times> nat \<times> nat" where
  "Sizes f = (length (feed_hashes f), length (feed_ips f), length (feed_cidrs f), length (feed_domains f))"

lemma MatchHash_addHash: "MatchHash (addHash v f) h \<longleftrightarrow> ToLower (TrimSpace h) = ToLower (TrimSpace v) \<or> MatchHash f h"
  by (auto simp: MatchHash_def addHash_def ins_def)

lemma fold_addHash: "MatchHash (fold addHash vs f) h \<longleftrightarrow> (\<exists>v \<in> set vs. ToLower (TrimSpace h) = ToLower (TrimSpace v)) \<or> MatchHash f h"
  by (induction vs arbitrary: f) (auto simp: MatchHash_addHash)

lemma fold_addDomain: "set (feed_domains (fold addDomain vs f)) = (\<lambda>v. ToLower (TrimSpace (TrimPrefix v ''.''))) ` set vs \<union> set (feed_domains f)"
  by (induction vs arbitrary: f) (auto simp: addDomain_def ins_def)

text \<open>A subdomain of a listed domain is matched, whatever the case.\<close>

lemma MatchDomain_sub:
  assumes "suffix \<in> set (feed_domains f)" "ToLower (TrimSpace d) = lab @ ''.'' @ suffix"
  shows "MatchDomain f d"
proof -
  have "HasSuffix (ToLower (TrimSpace d)) (''.'' @ suffix)" using assms(2) by (simp add: HasSuffix_iff)
  moreover have "d \<noteq> []" using assms(2) by (auto simp: TrimSpace_def ToLower_def)
  ultimately show ?thesis using assms(1) by (auto simp: MatchDomain_def Let_def list_ex_iff)
qed

section \<open>Baseline\<close>

record WebFileRecord =
  wf_SHA256 :: string
  wf_Mtime :: time
  wf_Size :: int

text \<open>A nil map is \<open>None\<close>: the decoder leaves a map nil when its key is missing.\<close>

record Snapshot =
  sn_Version :: int
  sn_CommittedAt :: time
  sn_AuthKeys :: "(string, string list) gomap option"
  sn_CronLines :: "(string, string list) gomap option"
  sn_WebFiles :: "(string, WebFileRecord) gomap option"
  sn_LDPreload :: "string list"
  sn_PersistenceFiles :: "(string, string) gomap option"
  sn_LoadedKernelModules :: "string list"
  sn_SUIDInventory :: "(string, string) gomap option"
  sn_FileCapabilities :: "(string, string) gomap option"
  sn_ProcessAncestry :: "string list"
  sn_LoadedLibraries :: "(string, string list) gomap option"

definition EmptySnapshot :: Snapshot where
  "EmptySnapshot = \<lparr>sn_Version = 1, sn_CommittedAt = 0, sn_AuthKeys = Some [], sn_CronLines = Some [],
     sn_WebFiles = Some [], sn_LDPreload = [], sn_PersistenceFiles = Some [], sn_LoadedKernelModules = [],
     sn_SUIDInventory = Some [], sn_FileCapabilities = Some [], sn_ProcessAncestry = [], sn_LoadedLibraries = Some []\<rparr>"

definition make_if_nil :: "('k, 'v) gomap option \<Rightarrow> ('k, 'v) gomap option" where
  "make_if_nil m = (case m of None \<Rightarrow> Some [] | Some x \<Rightarrow> Some x)"

datatype file_state = Missing | Unreadable | Present time int string

definition LoadBaseline :: "(string \<Rightarrow> Snapshot option) \<Rightarrow> file_state \<Rightarrow> Snapshot option" where
  "LoadBaseline unmarshal file =
     (case file of
        Missing \<Rightarrow> Some EmptySnapshot
      | Unreadable \<Rightarrow> None
      | Present _ _ b \<Rightarrow>
          (case unmarshal b of
             None \<Rightarrow> None
           | Some s \<Rightarrow>
               Some (s\<lparr>sn_AuthKeys := make_if_nil (sn_AuthKeys s), sn_CronLines := make_if_nil (sn_CronLines s),
                  sn_WebFiles := make_if_nil (sn_WebFiles s), sn_PersistenceFiles := make_if_nil (sn_PersistenceFiles s),
                  sn_SUIDInventory := make_if_nil (sn_SUIDInventory s),
                  sn_FileCapabilities := make_if_nil (sn_FileCapabilities s),
                  sn_LoadedLibraries := make_if_nil (sn_LoadedLibraries s)\<rparr>)))"

definition IsCommitted :: "Snapshot \<Rightarrow> bool" where
  "IsCommitted s \<longleftrightarrow> \<not> IsZero (sn_CommittedAt s)"

record Cache =
  ca_path :: string
  ca_modTime :: time
  ca_size :: int
  ca_missing :: bool
  ca_snap :: "Snapshot option"

definition zero_Cache :: Cache where
  "zero_Cache = \<lparr>ca_path = [], ca_modTime = 0, ca_size = 0, ca_missing = False, ca_snap = None\<rparr>"

text \<open>\<open>disk\<close> is the file system: the state of the file at a path when the call is made.\<close>

definition CacheGet :: "(string \<Rightarrow> Snapshot option) \<Rightarrow> (string \<Rightarrow> file_state) \<Rightarrow> Cache \<Rightarrow> string \<Rightarrow> Snapshot option \<times> Cache" where
  "CacheGet unmarshal disk c path =
     (case disk path of
        Unreadable \<Rightarrow> (None, c)
      | Missing \<Rightarrow>
          if ca_snap c \<noteq> None \<and> ca_path c = path \<and> ca_missing c then (ca_snap c, c)
          else (Some EmptySnapshot, \<lparr>ca_path = path, ca_modTime = 0, ca_size = 0, ca_missing = True, ca_snap = Some EmptySnapshot\<rparr>)
      | Present mt sz b \<Rightarrow>
          if ca_snap c \<noteq> None \<and> ca_path c = path \<and> \<not> ca_missing c \<and> ca_modTime c = mt \<and> ca_size c = sz
          then (ca_snap c, c)
          else
            (case LoadBaseline unmarshal (Present mt sz b) of
               None \<Rightarrow> (None, c)
             | Some s \<Rightarrow> (Some s, \<lparr>ca_path = path, ca_modTime = mt, ca_size = sz, ca_missing = False, ca_snap = Some s\<rparr>)))"

definition Invalidate :: "Cache \<Rightarrow> Cache" where
  "Invalidate c = c\<lparr>ca_snap := None, ca_path := [], ca_missing := False\<rparr>"

text \<open>
  A cache is coherent with a log of file versions when its snapshot is the one a fresh load of
  the version with the cached metadata gives. If metadata determine the contents, a coherent
  cache answers as a fresh load does, and stays coherent.
\<close>

definition coherent :: "(string \<Rightarrow> Snapshot option) \<Rightarrow> (string \<Rightarrow> time \<Rightarrow> int \<Rightarrow> string) \<Rightarrow> Cache \<Rightarrow> bool" where
  "coherent unmarshal content c \<longleftrightarrow>
     (case ca_snap c of
        None \<Rightarrow> True
      | Some s \<Rightarrow>
          if ca_missing c then s = EmptySnapshot
          else LoadBaseline unmarshal (Present (ca_modTime c) (ca_size c) (content (ca_path c) (ca_modTime c) (ca_size c))) = Some s)"

lemma CacheGet_fresh:
  assumes "coherent unmarshal content c" "\<And>mt sz b. disk path = Present mt sz b \<Longrightarrow> b = content path mt sz"
  shows "fst (CacheGet unmarshal disk c path) = LoadBaseline unmarshal (disk path)"
    and "coherent unmarshal content (snd (CacheGet unmarshal disk c path))"
  using assms
  by (auto simp: CacheGet_def coherent_def LoadBaseline_def split: file_state.splits option.splits if_splits)

section \<open>Self check\<close>

datatype selfguard_error = SGRequired | SGOpen string | SGMismatch string string string

definition BinaryMatches :: "(string \<Rightarrow> (string + string)) \<Rightarrow> (string \<Rightarrow> string) \<Rightarrow> string \<Rightarrow> string \<Rightarrow> selfguard_error option" where
  "BinaryMatches readBin sha256hex path expected =
     (if path = [] \<or> expected = [] then Some SGRequired
      else (case readBin path of
              Inl err \<Rightarrow> Some (SGOpen err)
            | Inr b \<Rightarrow>
                if \<not> EqualFold (sha256hex b) expected then Some (SGMismatch path (sha256hex b) expected) else None))"

definition SGError :: "selfguard_error \<Rightarrow> string" where
  "SGError e =
     (case e of
        SGRequired \<Rightarrow> ''selfguard: path/expected required''
      | SGOpen m \<Rightarrow> m
      | SGMismatch p g w \<Rightarrow> ''selfguard: binary hash mismatch for '' @ p @ '' got='' @ g @ '' want='' @ w)"

definition WatchdogInterval :: "string \<Rightarrow> duration" where
  "WatchdogInterval usec =
     (if usec = [] then 0
      else (case Atoi usec of None \<Rightarrow> 0 | Some us \<Rightarrow> if us \<le> 0 then 0 else wrap64 (us div 2 * 1000)))"

section \<open>Correctness\<close>

definition feed_lines :: "string \<Rightarrow> string list" where
  "feed_lines b = filter (\<lambda>l. l \<noteq> [] \<and> \<not> HasPrefix l ''#'') (map (\<lambda>l. TrimSpace (drop_cr l)) (raw_lines b))"

text \<open>
  A loaded feed matches what it lists: after loading a hash file and a domain file of lines
  below the scanner's limit, a hash matches exactly when it equals a listed one up to case and outer
  blanks, and a domain matches exactly when it, or a parent of it, is listed; comment and blank
  lines do not count.
\<close>

theorem feed_matches_listed:
  assumes "readFile hf = Some hb" "readFile df = Some db"
    and "\<forall>l \<in> set (raw_lines hb @ raw_lines db). length l < feed_line_limit" "d \<noteq> []"
    and "FeedLoad readFile nl [hf] [] [df] NewFeed = (ok, f)"
  shows "ok \<and> (MatchHash f h \<longleftrightarrow> (\<exists>v \<in> set (feed_lines hb). EqualFold (TrimSpace h) (TrimSpace v))) \<and>
    (MatchDomain f d \<longleftrightarrow> (\<exists>v \<in> set (feed_lines db). let s = ToLower (TrimSpace (TrimPrefix v ''.'')) in
        ToLower (TrimSpace d) = s \<or> HasSuffix (ToLower (TrimSpace d)) (''.'' @ s)))"
proof -
  have tw: "takeWhile (\<lambda>l. length l < feed_line_limit) (raw_lines hb) = raw_lines hb"
    "takeWhile (\<lambda>l. length l < feed_line_limit) (raw_lines db) = raw_lines db"
    using assms(3) by auto
  have f: "f = fold addDomain (feed_lines db) (fold addHash (feed_lines hb) NewFeed)" "ok"
    using assms(1,2,5) by (simp_all add: FeedLoad_def loadInto_def Let_def tw feed_lines_def)
  have dh: "feed_hashes (fold addDomain vs g) = feed_hashes g" for vs g
    by (induction vs arbitrary: g) (auto simp: addDomain_def)
  have hd: "feed_domains (fold addHash vs g) = feed_domains g" for vs g
    by (induction vs arbitrary: g) (auto simp: addHash_def)
  have "MatchHash f h \<longleftrightarrow> MatchHash (fold addHash (feed_lines hb) NewFeed) h" by (simp add: f MatchHash_def dh)
  also have "\<dots> \<longleftrightarrow> (\<exists>v \<in> set (feed_lines hb). EqualFold (TrimSpace h) (TrimSpace v))"
    unfolding fold_addHash by (simp add: MatchHash_def NewFeed_def EqualFold_def)
  finally have 1: "MatchHash f h \<longleftrightarrow> (\<exists>v \<in> set (feed_lines hb). EqualFold (TrimSpace h) (TrimSpace v))" .
  have "set (feed_domains f) = (\<lambda>v. ToLower (TrimSpace (TrimPrefix v ''.''))) ` set (feed_lines db)"
    by (simp add: f fold_addDomain hd NewFeed_def)
  then show ?thesis using 1 f(2) assms(4) by (auto simp: MatchDomain_def Let_def list_ex_iff)
qed

theorem feed_matches_listed_witness:
  "\<exists>f. FeedLoad (\<lambda>p. if p = ''h'' then Some ''ABCD'' else Some ''.evil.example'') \<lparr>nl_parseIP = (\<lambda>s. None), nl_parseCIDR = (\<lambda>s. None), nl_ipString = (\<lambda>a. [])\<rparr>
      [''h''] [] [''d''] NewFeed = (True, f) \<and> MatchHash f ''abcd'' \<and> MatchDomain f ''c2.Evil.example''"
proof -
  let ?r = "\<lambda>p. if p = ''h'' then Some ''ABCD'' else Some ''.evil.example''"
  let ?nl = "\<lparr>nl_parseIP = (\<lambda>s. None), nl_parseCIDR = (\<lambda>s. None), nl_ipString = (\<lambda>a. [])\<rparr>"
  obtain ok f where l: "FeedLoad ?r ?nl [''h''] [] [''d''] NewFeed = (ok, f)" by fastforce
  have ls: "raw_lines ''ABCD'' = [''ABCD'']" "raw_lines ''.evil.example'' = [''.evil.example'']" by code_simp+
  have lim: "\<forall>l \<in> set (raw_lines ''ABCD'' @ raw_lines ''.evil.example''). length l < feed_line_limit"
    by (simp add: ls feed_line_limit_def)
  have p: "list_ex (\<lambda>v. EqualFold (TrimSpace ''abcd'') (TrimSpace v)) (feed_lines ''ABCD'')"
    "list_ex (\<lambda>v. let s = ToLower (TrimSpace (TrimPrefix v ''.'')) in
        ToLower (TrimSpace ''c2.Evil.example'') = s \<or> HasSuffix (ToLower (TrimSpace ''c2.Evil.example'')) (''.'' @ s)) (feed_lines ''.evil.example'')"
    by code_simp+
  show ?thesis
    using feed_matches_listed [of ?r "''h''" "''ABCD''" "''d''" "''.evil.example''" "''c2.Evil.example''" ?nl ok f "''abcd''"] l lim p
    by (simp add: list_ex_iff)
qed

datatype cache_op = OpGet "string \<Rightarrow> file_state" string | OpInvalidate

fun cache_run :: "(string \<Rightarrow> Snapshot option) \<Rightarrow> Cache \<Rightarrow> cache_op list \<Rightarrow> Snapshot option list" where
  "cache_run unmarshal c [] = []"
| "cache_run unmarshal c (OpGet disk path # ops) =
     (case CacheGet unmarshal disk c path of (s, c') \<Rightarrow> s # cache_run unmarshal c' ops)"
| "cache_run unmarshal c (OpInvalidate # ops) = cache_run unmarshal (Invalidate c) ops"

fun fresh_run :: "(string \<Rightarrow> Snapshot option) \<Rightarrow> cache_op list \<Rightarrow> Snapshot option list" where
  "fresh_run unmarshal [] = []"
| "fresh_run unmarshal (OpGet disk path # ops) = LoadBaseline unmarshal (disk path) # fresh_run unmarshal ops"
| "fresh_run unmarshal (OpInvalidate # ops) = fresh_run unmarshal ops"

text \<open>Modification time and size determine the contents of every file read.\<close>

fun versioned :: "(string \<Rightarrow> time \<Rightarrow> int \<Rightarrow> string) \<Rightarrow> cache_op list \<Rightarrow> bool" where
  "versioned content [] \<longleftrightarrow> True"
| "versioned content (OpGet disk path # ops) \<longleftrightarrow>
     (case disk path of Present mt sz b \<Rightarrow> b = content path mt sz | _ \<Rightarrow> True) \<and> versioned content ops"
| "versioned content (OpInvalidate # ops) \<longleftrightarrow> versioned content ops"

lemma cache_run_coherent:
  "coherent unmarshal content c \<Longrightarrow> versioned content ops \<Longrightarrow> cache_run unmarshal c ops = fresh_run unmarshal ops"
proof (induction unmarshal c ops rule: cache_run.induct)
  case (2 unmarshal c disk path ops)
  have d: "\<And>mt sz b. disk path = Present mt sz b \<Longrightarrow> b = content path mt sz" using "2.prems"(2) by simp
  obtain s c' where g: "CacheGet unmarshal disk c path = (s, c')" by fastforce
  have f: "s = LoadBaseline unmarshal (disk path)" "coherent unmarshal content c'"
    using CacheGet_fresh [where disk = disk, OF "2.prems"(1) d] g by simp_all
  show ?case using "2.IH" [OF g [symmetric] f(2)] "2.prems"(2) g f(1) by simp
next
  case (3 unmarshal c ops)
  then show ?case by (simp add: coherent_def Invalidate_def)
qed simp



end
