(* ===== verification/GC_Host.thy ===== *)
theory GC_Host
  imports GC_Finding GC_Intel
begin

text \<open>
  What the detectors that look at files see of the host: an abstract file system, the output of the
  commands they run, and the helpers of \<^verbatim>\<open>detect/persistence/files_common.go\<close>. A scan sees one state of
  the host. The contract of a detector that compares files with the baseline is the locale \<open>watcher\<close>.
\<close>

section \<open>The host\<close>

record fileinfo =
  fi_IsDir :: bool
  fi_Perm :: int
  fi_SetUID :: bool
  fi_SetGID :: bool
  fi_UID :: nat
  fi_Size :: int
  fi_ModTime :: time

text \<open>
  \<open>hs_walk\<close> lists the entries \<^verbatim>\<open>filepath.WalkDir\<close> visits without an error, with whether each is a
  directory; \<open>hs_run\<close> is the output of a command that succeeds, \<open>hs_output\<close> what a command prints in
  any case; \<open>hs_caps\<close> is the encoded capability attribute of a file, empty if there is none.
\<close>

record host =
  hs_read :: "string \<Rightarrow> string option"
  hs_stat :: "string \<Rightarrow> fileinfo option"
  hs_info :: "string \<Rightarrow> fileinfo option"
  hs_readdir :: "string \<Rightarrow> (string \<times> bool) list option"
  hs_walk :: "string \<Rightarrow> (string \<times> bool) list"
  hs_glob :: "string \<Rightarrow> string list"
  hs_links :: "string \<Rightarrow> string option"
  hs_run :: "string list \<Rightarrow> string option"
  hs_output :: "string list \<Rightarrow> string"
  hs_caps :: "string \<Rightarrow> string"
  hs_user :: "(string \<times> string \<times> string) option"

definition exists_on :: "host \<Rightarrow> string \<Rightarrow> bool" where
  "exists_on H p \<longleftrightarrow> hs_stat H p \<noteq> None"

text \<open>\<^verbatim>\<open>filepath.Join\<close> and \<^verbatim>\<open>filepath.IsAbs\<close>.\<close>

definition PathJoin :: "string list \<Rightarrow> string" where
  "PathJoin ps = (let qs = filter (\<lambda>p. p \<noteq> []) ps in if qs = [] then [] else Clean (Join qs ''/''))"

definition IsAbs :: "string \<Rightarrow> bool" where "IsAbs p \<longleftrightarrow> HasPrefix p ''/''"

definition ellipsis :: string where "ellipsis = [CHR 0xE2, CHR 0x80, CHR 0xA6]"

definition truncate_to :: "string \<Rightarrow> nat \<Rightarrow> string" where
  "truncate_to s n = (if length s \<le> n then s else take n s @ ellipsis)"

text \<open>Trimmed lines that are neither empty nor comments, of a scan with the default buffer.\<close>

definition content_lines :: "string \<Rightarrow> string list" where
  "content_lines b = filter (\<lambda>l. l \<noteq> [] \<and> \<not> HasPrefix l ''#'') (map TrimSpace (scan_lines b))"

definition contains_any :: "string \<Rightarrow> string list \<Rightarrow> bool" where
  "contains_any s toks \<longleftrightarrow> list_ex (Contains s) toks"

section \<open>Files and their hashes\<close>

definition fileSHA :: "(string \<Rightarrow> string) \<Rightarrow> host \<Rightarrow> string \<Rightarrow> string" where
  "fileSHA h H path = (case hs_read H path of None \<Rightarrow> [] | Some b \<Rightarrow> h b)"

definition walkFiles :: "host \<Rightarrow> string \<Rightarrow> string list \<Rightarrow> string list" where
  "walkFiles H root extensions =
     (case hs_stat H root of
        None \<Rightarrow> []
      | Some st \<Rightarrow>
          if \<not> fi_IsDir st then []
          else map fst (filter (\<lambda>(p, isdir). \<not> isdir \<and>
                 (extensions = [] \<or> list_ex (HasSuffix (ToLower p)) extensions)) (hs_walk H root)))"

text \<open>A nil map stays nil here; the program would panic, but no snapshot it loads has one.\<close>

definition recordPersistenceBaseline ::
  "(string \<Rightarrow> string) \<Rightarrow> host \<Rightarrow> string list \<Rightarrow> (string, string) gomap option \<Rightarrow> (string, string) gomap option" where
  "recordPersistenceBaseline h H paths m =
     map_option (fold (\<lambda>p m. let d = fileSHA h H p in if d = [] then m else gput p d m) paths) m"

definition record_files :: "(string \<Rightarrow> string) \<Rightarrow> host \<Rightarrow> string list \<Rightarrow> Snapshot \<Rightarrow> Snapshot" where
  "record_files h H paths s = s\<lparr>sn_PersistenceFiles := recordPersistenceBaseline h H paths (sn_PersistenceFiles s)\<rparr>"

definition known_file :: "Snapshot \<Rightarrow> string \<Rightarrow> string option" where
  "known_file s p = (case sn_PersistenceFiles s of None \<Rightarrow> None | Some m \<Rightarrow> map_of m p)"

definition file_changed :: "(string \<Rightarrow> string) \<Rightarrow> host \<Rightarrow> Snapshot \<Rightarrow> string \<Rightarrow> bool" where
  "file_changed h H s p \<longleftrightarrow> known_file s p \<noteq> Some (fileSHA h H p)"

text \<open>A file that can be read, with its content and hash: what the loops do before they compare.\<close>

definition open_target :: "(string \<Rightarrow> string) \<Rightarrow> host \<Rightarrow> string \<Rightarrow> (string \<times> string) option" where
  "open_target h H path =
     (case hs_read H path of
        None \<Rightarrow> None
      | Some b \<Rightarrow> (let d = fileSHA h H path in if d = [] then None else Some (b, d)))"

definition learning_for :: "Config \<Rightarrow> Snapshot \<Rightarrow> bool" where
  "learning_for cfg s = (if cfg_FirstRunAllowAlerts cfg then cfg_LearningMode cfg else cfg_LearningMode cfg \<or> \<not> IsCommitted s)"

text \<open>The event the file detectors build, before its key is filled in.\<close>

definition file_finding ::
  "time \<Rightarrow> Config \<Rightarrow> Pack \<Rightarrow> string \<Rightarrow> bool \<Rightarrow> string \<Rightarrow> string list \<Rightarrow> string \<Rightarrow> string \<Rightarrow> string \<Rightarrow> string list \<Rightarrow> string \<Rightarrow> Event" where
  "file_finding now cfg pack agentVer learning ruleID techs tactic hash path sigs evidence =
     (let conf = fst (Score pack ruleID sigs)
      in zero_Event\<lparr>
           ev_SchemaVersion := SchemaVersion, ev_AgentVersion := agentVer, ev_Timestamp := now,
           ev_RuleID := ruleID, ev_RulePackVersion := pack_Version pack, ev_TechniqueIDs := techs, ev_Tactic := tactic,
           ev_Confidence := conf, ev_Severity := SeverityFromConfidence conf learning,
           ev_Entity := \<lparr>ent_Type = EntityFile, ent_ID = hash, ent_Path = path, ent_User = []\<rparr>,
           ev_Signals := sigs, ev_Evidence := evidence,
           ev_LearningOnly := learning \<or> conf < cfg_MinConfidenceAlert cfg\<rparr>)"

text \<open>Entries of the baseline map are replaced for every key that has something to record.\<close>

definition record_all :: "('k \<Rightarrow> 'v option) \<Rightarrow> 'k list \<Rightarrow> ('k, 'v) gomap \<Rightarrow> ('k, 'v) gomap" where
  "record_all f = fold (\<lambda>k m. case f k of None \<Rightarrow> m | Some v \<Rightarrow> gput k v m)"

section \<open>Accounts\<close>

record passwdEntry =
  pw_name :: string
  pw_dir :: string
  pw_shell :: string
  pw_uid :: string

definition passwd_line :: "string \<Rightarrow> passwdEntry option" where
  "passwd_line line =
     (let p = SplitByte line (CHR '':'')
      in if line = [] \<or> length p < 7 then None
         else Some \<lparr>pw_name = p ! 0, pw_dir = p ! 5, pw_shell = p ! 6, pw_uid = p ! 2\<rparr>)"

definition passwdUsers :: "host \<Rightarrow> passwdEntry list" where
  "passwdUsers H =
     (case hs_run H [''getent'', ''passwd''] of
        None \<Rightarrow> (case hs_user H of None \<Rightarrow> [] | Some (name, dir, uid) \<Rightarrow> [\<lparr>pw_name = name, pw_dir = dir, pw_shell = [], pw_uid = uid\<rparr>])
      | Some out \<Rightarrow> List.map_filter passwd_line (SplitByte out (CHR 0x0A)))"

definition inSudoGroup :: "host \<Rightarrow> string \<Rightarrow> bool" where
  "inSudoGroup H username =
     (case hs_run H [''id'', ''-nG'', username] of
        None \<Rightarrow> False
      | Some out \<Rightarrow> list_ex (\<lambda>g. g \<in> set [''sudo'', ''wheel'', ''admin'']) (Fields out))"

section \<open>Recording and comparing\<close>

text \<open>The baseline knows every readable file of the list with the hash it has now.\<close>

definition covers :: "(string \<Rightarrow> string) \<Rightarrow> host \<Rightarrow> Snapshot \<Rightarrow> string list \<Rightarrow> bool" where
  "covers h H s paths \<longleftrightarrow> (\<forall>p \<in> set paths. fileSHA h H p \<noteq> [] \<longrightarrow> \<not> file_changed h H s p)"

lemma map_of_record:
  "map_of (fold (\<lambda>p m. let d = fileSHA h H p in if d = [] then m else gput p d m) paths m) q =
     (if q \<in> set paths \<and> fileSHA h H q \<noteq> [] then Some (fileSHA h H q) else map_of m q)"
  by (induction paths arbitrary: m) (auto simp: Let_def)

lemma map_of_record_all:
  "map_of (record_all f ks m) q = (if q \<in> set ks \<and> f q \<noteq> None then f q else map_of m q)"
  unfolding record_all_def by (induction ks arbitrary: m) (auto split: option.splits)

lemma known_record:
  assumes "sn_PersistenceFiles s \<noteq> None"
  shows "known_file (record_files h H paths s) q =
    (if q \<in> set paths \<and> fileSHA h H q \<noteq> [] then Some (fileSHA h H q) else known_file s q)"
  using assms
  by (auto simp: known_file_def record_files_def recordPersistenceBaseline_def map_of_record split: option.split)

lemma record_files_keeps [simp]:
  "sn_PersistenceFiles (record_files h H paths s) = None \<longleftrightarrow> sn_PersistenceFiles s = None"
  by (simp add: record_files_def recordPersistenceBaseline_def)

lemma record_covers: "sn_PersistenceFiles s \<noteq> None \<Longrightarrow> covers h H (record_files h H paths s) paths"
  by (auto simp: covers_def file_changed_def known_record)

lemma covers_record: "covers h H s ps \<Longrightarrow> covers h H (record_files h H qs s) ps"
  by (cases "sn_PersistenceFiles s = None")
    (auto simp: covers_def file_changed_def known_file_def record_files_def recordPersistenceBaseline_def map_of_record)

lemma covers_cong: "sn_PersistenceFiles s = sn_PersistenceFiles s' \<Longrightarrow> covers h H s ps = covers h H s' ps"
  by (simp add: covers_def file_changed_def known_file_def)

section \<open>The contract of a file watcher\<close>

text \<open>An event that says the file is new or differs, with its path and its hash.\<close>

definition reports_change :: "(string \<Rightarrow> string) \<Rightarrow> host \<Rightarrow> string list \<Rightarrow> string \<Rightarrow> Event \<Rightarrow> bool" where
  "reports_change h H marks p e \<longleftrightarrow>
     ent_Path (ev_Entity e) = p \<and> ent_ID (ev_Entity e) = fileSHA h H p \<and> list_ex (\<lambda>m. m \<in> set (ev_Signals e)) marks"

text \<open>
  A watcher looks at some files of the host and compares them with the baseline. It is complete: a
  watched file that is new or differs is reported with its path and hash. It is sound: a report that
  claims a change (one of the signals \<open>marks\<close>) is about a watched file that is new or differs.
\<close>

locale watcher =
  fixes h :: "string \<Rightarrow> string"
    and targets :: "host \<Rightarrow> string list"
    and scan :: "host \<Rightarrow> Snapshot \<Rightarrow> Event list"
    and marks :: "string list"
  assumes complete: "p \<in> set (targets H) \<Longrightarrow> fileSHA h H p \<noteq> [] \<Longrightarrow> file_changed h H s p \<Longrightarrow>
      \<exists>e \<in> set (scan H s). reports_change h H marks p e"
    and sound: "e \<in> set (scan H s) \<Longrightarrow> m \<in> set marks \<Longrightarrow> m \<in> set (ev_Signals e) \<Longrightarrow>
      \<exists>p \<in> set (targets H). fileSHA h H p \<noteq> [] \<and> file_changed h H s p"
begin

text \<open>Nothing is reported as changed while the host is as it was recorded.\<close>

lemma quiet:
  assumes "covers h H s (targets H)" "e \<in> set (scan H s)"
  shows "set (ev_Signals e) \<inter> set marks = {}"
  using sound [OF assms(2)] assms(1) by (auto simp: covers_def)

text \<open>A file that was recorded with another hash, or not at all, is reported.\<close>

lemma detects:
  assumes "p \<in> set (targets H)" "fileSHA h H p \<noteq> []" "known_file s p \<noteq> Some (fileSHA h H p)"
  shows "\<exists>e \<in> set (scan H s). reports_change h H marks p e"
  using complete assms by (simp add: file_changed_def)

end

text \<open>Watchers add up.\<close>

lemma watcher_append:
  assumes "watcher h t1 s1 marks" "watcher h t2 s2 marks"
  shows "watcher h (\<lambda>H. t1 H @ t2 H) (\<lambda>H s. s1 H s @ s2 H s) marks"
proof
  fix p H s assume "p \<in> set (t1 H @ t2 H)" "fileSHA h H p \<noteq> []" "file_changed h H s p"
  then show "\<exists>e \<in> set (s1 H s @ s2 H s). reports_change h H marks p e"
    using watcher.complete [OF assms(1), of p H s] watcher.complete [OF assms(2), of p H s] by auto
next
  fix e H s m assume "e \<in> set (s1 H s @ s2 H s)" "m \<in> set marks" "m \<in> set (ev_Signals e)"
  then show "\<exists>p \<in> set (t1 H @ t2 H). fileSHA h H p \<noteq> [] \<and> file_changed h H s p"
    using watcher.sound [OF assms(1), of e H s m] watcher.sound [OF assms(2), of e H s m] by auto
qed

text \<open>The usual shape: one evaluation for each target that can be read.\<close>

lemma watcherI:
  assumes step: "\<And>H s p. scan H s = List.map_filter (look H s) (targets H)"
    and silent: "\<And>H s p. fileSHA h H p = [] \<Longrightarrow> look H s p = None"
    and change: "\<And>H s p. p \<in> set (targets H) \<Longrightarrow> fileSHA h H p \<noteq> [] \<Longrightarrow> file_changed h H s p \<Longrightarrow>
      \<exists>e. look H s p = Some e \<and> reports_change h H marks p e"
    and mark: "\<And>H s p e m. look H s p = Some e \<Longrightarrow> m \<in> set marks \<Longrightarrow> m \<in> set (ev_Signals e) \<Longrightarrow> file_changed h H s p"
  shows "watcher h targets scan marks"
proof
  fix p H s assume "p \<in> set (targets H)" "fileSHA h H p \<noteq> []" "file_changed h H s p"
  then show "\<exists>e \<in> set (scan H s). reports_change h H marks p e"
    using change [of p H s] by (force simp: step map_filter_def)
next
  fix e H s m assume "e \<in> set (scan H s)" "m \<in> set marks" "m \<in> set (ev_Signals e)"
  then obtain p where "p \<in> set (targets H)" "look H s p = Some e" by (force simp: step map_filter_def)
  then show "\<exists>p \<in> set (targets H). fileSHA h H p \<noteq> [] \<and> file_changed h H s p"
    using mark [of H s p e m] silent [of H p s] \<open>m \<in> set marks\<close> \<open>m \<in> set (ev_Signals e)\<close> by fastforce
qed

lemma NormalizeDedup_keeps [simp]:
  "ev_Entity (NormalizeDedup h e) = ev_Entity e" "ev_Signals (NormalizeDedup h e) = ev_Signals e" "ev_RuleID (NormalizeDedup h e) = ev_RuleID e"
  "ev_Confidence (NormalizeDedup h e) = ev_Confidence e" "ev_LearningOnly (NormalizeDedup h e) = ev_LearningOnly e"
  by (simp_all add: NormalizeDedup_def)

lemma file_finding_fields [simp]:
  "ev_Entity (file_finding now cfg pack v l r ts ta hash path sigs evi) =
     \<lparr>ent_Type = EntityFile, ent_ID = hash, ent_Path = path, ent_User = []\<rparr>"
  "ev_Signals (file_finding now cfg pack v l r ts ta hash path sigs evi) = sigs"
  "ev_RuleID (file_finding now cfg pack v l r ts ta hash path sigs evi) = r"
  by (simp_all add: file_finding_def Let_def zero_Event_def)

lemma open_target_None [simp]: "open_target h H p = None \<longleftrightarrow> fileSHA h H p = []"
  by (simp add: open_target_def fileSHA_def Let_def split: option.split)

lemma open_target_hash: "open_target h H p = Some (b, d) \<Longrightarrow> d = fileSHA h H p \<and> fileSHA h H p \<noteq> []"
  by (auto simp: open_target_def Let_def split: option.splits if_splits)

lemma watcher_readI:
  assumes "\<And>H s. scan H s = List.map_filter (look H s) (targets H)"
    and shape: "\<And>H s p. look H s p = (case open_target h H p of None \<Rightarrow> None | Some (b, d) \<Rightarrow> body H s p b d)"
    and change: "\<And>H s p b d. file_changed h H s p \<Longrightarrow> 
      \<exists>e. body H s p b d = Some e \<and> ent_Path (ev_Entity e) = p \<and> ent_ID (ev_Entity e) = d \<and> list_ex (\<lambda>m. m \<in> set (ev_Signals e)) marks"
    and mark: "\<And>H s p b d e m. body H s p b d = Some e \<Longrightarrow> m \<in> set marks \<Longrightarrow> m \<in> set (ev_Signals e) \<Longrightarrow> file_changed h H s p"
  shows "watcher h targets scan marks"
proof (rule watcherI [OF assms(1)])
  show "look H s p = None" if "fileSHA h H p = []" for H s p
    using that by (simp add: shape flip: open_target_None)
  show "\<exists>e. look H s p = Some e \<and> reports_change h H marks p e"
    if c: "fileSHA h H p \<noteq> []" "file_changed h H s p" for H s p
  proof -
    obtain b where "open_target h H p = Some (b, fileSHA h H p)"
      using c open_target_hash [of h H p] by (cases "open_target h H p") auto
    then show ?thesis using change [OF c(2)] by (simp add: shape reports_change_def)
  qed
  show "file_changed h H s p" if "look H s p = Some e" "m \<in> set marks" "m \<in> set (ev_Signals e)" for H s p e m
    using that mark by (auto simp: shape split: option.splits)
qed

text \<open>A watcher may also report what no file shows, as long as these reports state no change.\<close>

lemma watcher_prepend:
  assumes "watcher h targets scan marks"
    and "\<And>H s e m. e \<in> set (extra H s) \<Longrightarrow> m \<in> set marks \<Longrightarrow> m \<notin> set (ev_Signals e)"
  shows "watcher h targets (\<lambda>H s. extra H s @ scan H s) marks"
proof
  fix p H s assume "p \<in> set (targets H)" "fileSHA h H p \<noteq> []" "file_changed h H s p"
  then show "\<exists>e \<in> set (extra H s @ scan H s). reports_change h H marks p e"
    using watcher.complete [OF assms(1), of p H s] by auto
next
  fix e H s m assume "e \<in> set (extra H s @ scan H s)" "m \<in> set marks" "m \<in> set (ev_Signals e)"
  then show "\<exists>p \<in> set (targets H). fileSHA h H p \<noteq> [] \<and> file_changed h H s p"
    using watcher.sound [OF assms(1), of e H s m] assms(2) [of e H s m] by auto
qed

end
