(* ===== verification/GC_Vault.thy ===== *)
theory GC_Vault
  imports GC_Host
begin

text \<open>
  \<^verbatim>\<open>quarantine/quarantine.go\<close>: the evidence vault over an explicit file system that holds the files below
  the vault directory. Each system call may fail, which the \<open>vault_io\<close> of a call says. The contract of
  a content-addressed store is the locale \<open>evidence_store\<close>; the vault interprets it.
\<close>

section \<open>State and faults\<close>

type_synonym vfs = "(string, string) gomap"

text \<open>
  What one call of \<^verbatim>\<open>Store\<close> finds: the source file, the current day, whether the directory can be made,
  the temporary file created, the copy finished (or after how many bytes it fails), the file renamed,
  a temporary file removed, and the sidecar written.
\<close>

record vault_io =
  vi_source :: "string option"
  vi_stat :: bool
  vi_day :: string
  vi_mkdir :: bool
  vi_create :: bool
  vi_copy :: "nat option"
  vi_rename :: bool
  vi_remove :: bool
  vi_sidecar :: bool

datatype vault_error = DirRequired | MkdirFailed | OpenFailed | StatFailed | DayDirFailed | TempFailed | CopyFailed | RenameFailed

definition vault_New :: "string \<Rightarrow> bool \<Rightarrow> vault_error + string" where
  "vault_New dir mkdir = (if dir = [] then Inl DirRequired else if \<not> mkdir then Inl MkdirFailed else Inr dir)"

section \<open>Storing\<close>

definition vault_path :: "string \<Rightarrow> string \<Rightarrow> string \<Rightarrow> string" where
  "vault_path dir day name = PathJoin [dir, day, name]"

text \<open>\<^verbatim>\<open>os.Remove\<close> whose error is ignored.\<close>

definition try_remove :: "bool \<Rightarrow> string \<Rightarrow> vfs \<Rightarrow> vfs" where
  "try_remove ok p fs = (if ok then filter (\<lambda>e. fst e \<noteq> p) fs else fs)"

text \<open>The JSON text of the sidecar is an argument: the path of the source, its hash and the event.\<close>

definition vault_Store ::
  "(string \<Rightarrow> string) \<Rightarrow> (string \<Rightarrow> string \<Rightarrow> Event \<Rightarrow> string) \<Rightarrow> string \<Rightarrow> vault_io \<Rightarrow> string \<Rightarrow> Event \<Rightarrow> vfs \<Rightarrow> (vault_error + string) \<times> vfs" where
  "vault_Store h sidecar dir io path e fs =
     (case vi_source io of
        None \<Rightarrow> (Inl OpenFailed, fs)
      | Some b \<Rightarrow>
          if \<not> vi_stat io then (Inl StatFailed, fs)
          else if \<not> vi_mkdir io then (Inl DayDirFailed, fs)
          else
            (let tmp = vault_path dir (vi_day io) ''partial.tmp''
             in if map_of fs tmp \<noteq> None \<or> \<not> vi_create io then (Inl TempFailed, fs)
                else
                  (case vi_copy io of
                     Some n \<Rightarrow> (Inl CopyFailed, try_remove (vi_remove io) tmp (gput tmp (take n b) fs))
                   | None \<Rightarrow>
                       (let fs1 = gput tmp b fs; final = vault_path dir (vi_day io) (h b @ ''.bin'')
                        in if \<not> vi_rename io then (Inl RenameFailed, try_remove (vi_remove io) tmp fs1)
                           else
                             (let fs2 = gput final b (filter (\<lambda>x. fst x \<noteq> tmp) fs1);
                                  side = vault_path dir (vi_day io) (h b @ ''.json'')
                              in (Inr final, if vi_sidecar io then gput side (sidecar path (h b) e) fs2 else fs2))))))"

section \<open>Paths of the vault\<close>

lemma clean_parts_snoc: "clean_part p \<Longrightarrow> clean_parts r st (ps @ [p]) = clean_parts r st ps @ [p]"
  by (induction r st ps rule: clean_parts.induct) (auto simp: clean_part_def split: list.splits)

lemma Join_snoc: "xs \<noteq> [] \<Longrightarrow> Join (xs @ [p]) sep = Join xs sep @ sep @ p"
  by (induction xs sep rule: Join.induct) auto

lemma Join_nonempty: "xs \<noteq> [] \<Longrightarrow> [] \<notin> set xs \<Longrightarrow> Join xs sep \<noteq> []"
  by (induction xs sep rule: Join.induct) auto

lemma SplitByte_snoc: "d \<notin> set p \<Longrightarrow> SplitByte (s @ d # p) d = SplitByte s d @ [p]"
  by (simp add: SplitByte_append_line SplitByte_none)

text \<open>The day directory of a vault, whatever is stored in it.\<close>

definition day_dir :: "string \<Rightarrow> string \<Rightarrow> string" where
  "day_dir dir day =
     (if HasPrefix dir ''/'' then CHR ''/'' # Join (clean_parts True [] (SplitByte (dir @ ''/'' @ day) (CHR ''/''))) ''/''
      else Join (clean_parts False [] (SplitByte (dir @ ''/'' @ day) (CHR ''/''))) ''/'')"

lemma vault_path_eq:
  assumes "dir \<noteq> []" "clean_part day" "clean_part name"
  shows "vault_path dir day name = day_dir dir day @ ''/'' @ name"
proof -
  have ne: "day \<noteq> []" "name \<noteq> []" "CHR ''/'' \<notin> set day" "CHR ''/'' \<notin> set name" using assms by (auto simp: clean_part_def)
  define full where "full = (dir @ ''/'' @ day) @ CHR ''/'' # name"
  define P where "P r = clean_parts r [] (SplitByte (dir @ ''/'' @ day) (CHR ''/''))" for r
  have path: "vault_path dir day name = Clean full" using assms(1) ne by (simp add: vault_path_def PathJoin_def full_def)
  have parts: "clean_parts r [] (SplitByte full (CHR ''/'')) = P r @ [name]" for r
    unfolding full_def P_def SplitByte_snoc [OF ne(4)] by (rule clean_parts_snoc [OF assms(3)])
  have "P r = clean_parts r [] (SplitByte dir (CHR ''/'')) @ [day]" for r
    using SplitByte_snoc [OF ne(3), of dir] clean_parts_snoc [OF assms(2)] by (simp add: P_def)
  then have P: "P r \<noteq> []" for r by simp
  have "HasPrefix full ''/'' \<longleftrightarrow> HasPrefix dir ''/''" using assms(1) by (cases dir) (auto simp: full_def)
  then show ?thesis
    unfolding path Clean_def Let_def day_dir_def by (simp add: parts Join_snoc [OF P]) (simp add: P_def)
qed

section \<open>The contract of an evidence store\<close>

text \<open>
  A store keeps contents under addresses and returns the address of what it stored. What was stored
  can be read back there, and storing, also when it fails, loses nothing that was stored before.
\<close>

locale evidence_store =
  fixes store :: "'i \<Rightarrow> 's \<Rightarrow> 'a option \<times> 's"
    and valid :: "'i \<Rightarrow> bool"
    and content :: "'i \<Rightarrow> 'c"
    and stored :: "'s \<Rightarrow> 'a \<Rightarrow> 'c option"
    and inv :: "'s \<Rightarrow> bool"
  assumes inv_store: "inv s \<Longrightarrow> valid i \<Longrightarrow> inv (snd (store i s))"
    and read_back: "inv s \<Longrightarrow> valid i \<Longrightarrow> store i s = (Some a, s') \<Longrightarrow> stored s' a = Some (content i)"
    and keeps: "inv s \<Longrightarrow> valid i \<Longrightarrow> stored s a = Some c \<Longrightarrow> stored (snd (store i s)) a = Some c"
begin

lemma inv_run: "inv s \<Longrightarrow> list_all valid is \<Longrightarrow> inv (fold (\<lambda>i s. snd (store i s)) is s)"
  by (induction "is" arbitrary: s) (auto intro: inv_store)

lemma keeps_run: "inv s \<Longrightarrow> list_all valid is \<Longrightarrow> stored s a = Some c \<Longrightarrow> stored (fold (\<lambda>i s. snd (store i s)) is s) a = Some c"
  by (induction "is" arbitrary: s) (auto intro: inv_store keeps)

text \<open>What a call stored is still there after any later calls.\<close>

lemma durable:
  assumes "inv s" "list_all valid (is @ i # js)" "store i (fold (\<lambda>i s. snd (store i s)) is s) = (Some a, s')"
  shows "stored (fold (\<lambda>i s. snd (store i s)) js s') a = Some (content i)"
proof -
  let ?s = "fold (\<lambda>i s. snd (store i s)) is s"
  have s: "inv ?s" "valid i" "list_all valid js" using inv_run [OF assms(1), of "is"] assms(2) by simp_all
  have "inv s'" using inv_store [OF s(1,2)] assms(3) by simp
  then show ?thesis using read_back [OF s(1,2) assms(3)] keeps_run s(3) by blast
qed

end

section \<open>The vault keeps its contract\<close>

text \<open>
  An evidence file of the vault is named after the hash of what it holds. The statement is about days
  whose name and hashes that are path components, as the date and the hexadecimal digest are.
\<close>

definition is_bin :: "(string \<Rightarrow> string) \<Rightarrow> string \<Rightarrow> string \<Rightarrow> string \<Rightarrow> bool" where
  "is_bin h dir p b \<longleftrightarrow> (\<exists>day. clean_part day \<and> p = vault_path dir day (h b @ ''.bin''))"

definition bin_path :: "string \<Rightarrow> bool" where "bin_path p \<longleftrightarrow> HasSuffix p ''.bin''"

definition vault_inv :: "(string \<Rightarrow> string) \<Rightarrow> string \<Rightarrow> vfs \<Rightarrow> bool" where
  "vault_inv h dir fs \<longleftrightarrow> (\<forall>p b. map_of fs p = Some b \<longrightarrow> bin_path p \<longrightarrow> is_bin h dir p b)"

lemma clean_part_append: "clean_part a \<Longrightarrow> s \<in> {''.bin'', ''.json''} \<Longrightarrow> clean_part (a @ s)"
  by (cases a) (auto simp: clean_part_def)

lemma bin_path_simps:
  assumes "dir \<noteq> []" "clean_part day" "clean_part d"
  shows "bin_path (vault_path dir day (d @ ''.bin''))" "\<not> bin_path (vault_path dir day (d @ ''.json''))"
    "\<not> bin_path (vault_path dir day ''partial.tmp'')"
proof -
  have "clean_part ''partial.tmp''" by (simp add: clean_part_def)
  then show "bin_path (vault_path dir day (d @ ''.bin''))" "\<not> bin_path (vault_path dir day (d @ ''.json''))"
      "\<not> bin_path (vault_path dir day ''partial.tmp'')"
    using vault_path_eq [OF assms(1,2)] clean_part_append [OF assms(3)] by (simp_all add: bin_path_def HasSuffix_def)
qed

lemma map_of_remove: "map_of (filter (\<lambda>e. fst e \<noteq> p) fs) q = (if q = p then None else map_of fs q)"
  by (induction fs) auto

lemma try_remove_lookup: "q \<noteq> p \<Longrightarrow> map_of (try_remove ok p fs) q = map_of fs q"
  by (simp add: try_remove_def map_of_remove)

text \<open>What a call does to the evidence files: it adds the one it returns, or nothing.\<close>

lemma vault_Store_bins:
  assumes dir: "dir \<noteq> []" "clean_part (vi_day io)" "\<And>b. clean_part (h b)" and p: "bin_path p"
  shows "map_of (snd (vault_Store h sidecar dir io path e fs)) p =
    (case fst (vault_Store h sidecar dir io path e fs) of Inl _ \<Rightarrow> map_of fs p | Inr f \<Rightarrow> if p = f then vi_source io else map_of fs p)"
proof -
  have tmp: "p \<noteq> vault_path dir (vi_day io) ''partial.tmp''" using p bin_path_simps(3) [OF dir] by blast
  have side: "p \<noteq> vault_path dir (vi_day io) (h b @ ''.json'')" for b using p bin_path_simps(2) [OF dir] by blast
  show ?thesis
    using tmp side
    by (auto simp: vault_Store_def Let_def try_remove_lookup map_of_remove split: option.splits)
qed

lemma vault_Store_final:
  "fst (vault_Store h sidecar dir io path e fs) = Inr f \<Longrightarrow> \<exists>b. vi_source io = Some b \<and> f = vault_path dir (vi_day io) (h b @ ''.bin'')"
  by (auto simp: vault_Store_def Let_def split: option.splits if_splits)


lemma last_component: "CHR ''/'' \<notin> set x \<Longrightarrow> CHR ''/'' \<notin> set y \<Longrightarrow> a @ ''/'' @ x = b @ ''/'' @ y \<Longrightarrow> x = y"
proof -
  assume xy: "CHR ''/'' \<notin> set x" "CHR ''/'' \<notin> set y" and eq: "a @ ''/'' @ x = b @ ''/'' @ y"
  have "takeWhile (\<lambda>c. c \<noteq> CHR ''/'') (rev (a @ ''/'' @ x)) = rev x" if "CHR ''/'' \<notin> set x" for a x
    using that by (simp add: takeWhile_append)
  then show "x = y" using xy eq by (metis rev_rev_ident)
qed

text \<open>The state of a vault at a directory: what the contract needs of the directory, the hash and the files.\<close>

definition vault_ok :: "(string \<Rightarrow> string) \<Rightarrow> string \<Rightarrow> vfs \<Rightarrow> bool" where
  "vault_ok h dir fs \<longleftrightarrow> dir \<noteq> [] \<and> (\<forall>b. clean_part (h b)) \<and> vault_inv h dir fs"

definition vault_call ::
  "(string \<Rightarrow> string) \<Rightarrow> (string \<Rightarrow> string \<Rightarrow> Event \<Rightarrow> string) \<Rightarrow> string \<Rightarrow> vault_io \<times> string \<times> Event \<Rightarrow> vfs \<Rightarrow> string option \<times> vfs" where
  "vault_call h sidecar dir c fs =
     (case c of (io, path, e) \<Rightarrow> (case vault_Store h sidecar dir io path e fs of (r, fs') \<Rightarrow> (case r of Inl _ \<Rightarrow> None | Inr f \<Rightarrow> Some f, fs')))"

definition on_clean_day :: "vault_io \<times> string \<times> Event \<Rightarrow> bool" where
  "on_clean_day c \<longleftrightarrow> clean_part (vi_day (fst c))"

definition digest_of :: "(string \<Rightarrow> string) \<Rightarrow> vault_io \<times> string \<times> Event \<Rightarrow> string" where
  "digest_of h c = (case vi_source (fst c) of None \<Rightarrow> [] | Some b \<Rightarrow> h b)"

text \<open>The digest of the evidence file at a path.\<close>

definition evidence_at :: "(string \<Rightarrow> string) \<Rightarrow> vfs \<Rightarrow> string \<Rightarrow> string option" where
  "evidence_at h fs p = (if bin_path p then map_option h (map_of fs p) else None)"

lemma vault_call_bins:
  assumes "vault_ok h dir fs" "on_clean_day c" "bin_path p"
  shows "map_of (snd (vault_call h sidecar dir c fs)) p =
    (if fst (vault_call h sidecar dir c fs) = Some p then vi_source (fst c) else map_of fs p)"
proof -
  obtain io path e where c: "c = (io, path, e)" by (cases c)
  show ?thesis
    using vault_Store_bins [of dir io h p sidecar path e fs] assms
    by (auto simp: c vault_call_def vault_ok_def on_clean_day_def split: prod.splits sum.splits)
qed

lemma vault_call_final:
  assumes "fst (vault_call h sidecar dir c fs) = Some f"
  shows "\<exists>b. vi_source (fst c) = Some b \<and> f = vault_path dir (vi_day (fst c)) (h b @ ''.bin'')"
proof -
  obtain io path e where c: "c = (io, path, e)" by (cases c)
  show ?thesis
    using assms vault_Store_final [of h sidecar dir io path e fs f] by (auto simp: c vault_call_def split: prod.splits sum.splits)
qed

lemma bin_digest:
  assumes "vault_ok h dir fs" "clean_part day" "clean_part day'" "vault_path dir day (h b @ ''.bin'') = vault_path dir day' (h c @ ''.bin'')"
  shows "h b = h c"
proof -
  have dir: "dir \<noteq> []" and clean: "clean_part (h x @ ''.bin'')" for x
    using assms(1) by (auto simp: vault_ok_def intro: clean_part_append)
  then have "CHR ''/'' \<notin> set (h x @ ''.bin'')" for x by (simp add: clean_part_def)
  moreover have "day_dir dir day @ ''/'' @ h b @ ''.bin'' = day_dir dir day' @ ''/'' @ h c @ ''.bin''"
    using assms(2-4) vault_path_eq [OF dir _ clean] by simp
  ultimately have "h b @ ''.bin'' = h c @ ''.bin''" using last_component by blast
  then show ?thesis by simp
qed

interpretation vault: evidence_store "vault_call h sidecar dir" on_clean_day "digest_of h" "evidence_at h" "vault_ok h dir"
proof
  fix fs c assume ok: "vault_ok h dir fs" and day: "on_clean_day c"
  have "is_bin h dir p b" if p: "map_of (snd (vault_call h sidecar dir c fs)) p = Some b" "bin_path p" for p b
  proof (cases "fst (vault_call h sidecar dir c fs) = Some p")
    case True
    then have "vi_source (fst c) = Some b" using vault_call_bins [OF ok day p(2), of sidecar] p(1) by simp
    then show ?thesis using vault_call_final [OF True] day by (auto simp: is_bin_def on_clean_day_def)
  next
    case False
    then show ?thesis using vault_call_bins [OF ok day p(2), of sidecar] p ok by (simp add: vault_ok_def vault_inv_def)
  qed
  then show "vault_ok h dir (snd (vault_call h sidecar dir c fs))" using ok by (simp add: vault_ok_def vault_inv_def)
  show "evidence_at h fs' f = Some (digest_of h c)" if call: "vault_call h sidecar dir c fs = (Some f, fs')" for f fs'
  proof -
    obtain b where b: "vi_source (fst c) = Some b" "f = vault_path dir (vi_day (fst c)) (h b @ ''.bin'')"
      using vault_call_final [of h sidecar dir c fs f] call by auto
    have "bin_path f" using ok day bin_path_simps(1) [of dir "vi_day (fst c)" "h b"] by (simp add: b(2) vault_ok_def on_clean_day_def)
    then show ?thesis using vault_call_bins [OF ok day, of f sidecar] call b(1) by (simp add: evidence_at_def digest_of_def)
  qed
  show "evidence_at h (snd (vault_call h sidecar dir c fs)) p = Some d" if "evidence_at h fs p = Some d" for p d
  proof -
    have bin: "bin_path p" and x: "\<exists>x. map_of fs p = Some x \<and> h x = d" using that by (auto simp: evidence_at_def split: if_splits)
    then obtain x where x: "map_of fs p = Some x" "h x = d" by blast
    have "is_bin h dir p x" using ok bin x(1) by (simp add: vault_ok_def vault_inv_def)
    then obtain day' where "clean_part day'" "p = vault_path dir day' (h x @ ''.bin'')" unfolding is_bin_def by blast
    then have "h b = d" if "vi_source (fst c) = Some b" "p = vault_path dir (vi_day (fst c)) (h b @ ''.bin'')" for b
      using bin_digest [OF ok, of "vi_day (fst c)" day' b x] day that x by (simp add: on_clean_day_def)
    then show ?thesis
      using vault_call_bins [OF ok day bin, of sidecar] vault_call_final [of h sidecar dir c fs p] x bin by (auto simp: evidence_at_def)
  qed
qed


section \<open>Properties\<close>

text \<open>
  C38. Evidence is durable: what a successful store copied is at the path it returned, and after any
  later calls, whichever of their system calls fail, the file at that path still has the digest it
  is named after.
\<close>

theorem vault_durable:
  assumes "dir \<noteq> []" "\<forall>b. clean_part (h b)" "list_all on_clean_day (before @ (io, path, e) # later)"
    and "vi_source io = Some b" "fs = fold (\<lambda>c fs. snd (vault_call h sidecar dir c fs)) before []"
    and "vault_Store h sidecar dir io path e fs = (Inr f, fs')"
  shows "map_of fs' f = Some b \<and> f = vault_path dir (vi_day io) (h b @ ''.bin'') \<and>
    (\<exists>x. map_of (fold (\<lambda>c fs. snd (vault_call h sidecar dir c fs)) later fs') f = Some x \<and> h x = h b)"
proof -
  have ok: "vault_ok h dir []" using assms(1,2) by (simp add: vault_ok_def vault_inv_def)
  have call: "vault_call h sidecar dir (io, path, e) fs = (Some f, fs')" using assms(6) by (simp add: vault_call_def)
  have fs: "vault_ok h dir fs" unfolding assms(5) by (rule vault.inv_run [OF ok]) (use assms(3) in simp)
  have f: "f = vault_path dir (vi_day io) (h b @ ''.bin'')"
    using vault_call_final [of h sidecar dir "(io, path, e)" fs f] call assms(4) by simp
  have day: "on_clean_day (io, path, e)" using assms(3) by simp
  then have bin: "bin_path f" using bin_path_simps(1) [OF assms(1), of "vi_day io" "h b"] assms(2) by (simp add: f on_clean_day_def)
  have "map_of fs' f = Some b" using vault_call_bins [OF fs day bin, of sidecar] call assms(4) by simp
  moreover have "evidence_at h (fold (\<lambda>c fs. snd (vault_call h sidecar dir c fs)) later fs') f = Some (digest_of h (io, path, e))"
    by (rule vault.durable [OF ok assms(3)]) (use call assms(5) in simp)
  ultimately show ?thesis using f bin assms(4) by (auto simp: evidence_at_def digest_of_def)
qed

definition good_io :: "string \<Rightarrow> vault_io" where
  "good_io b = \<lparr>vi_source = Some b, vi_stat = True, vi_day = ''20240101'', vi_mkdir = True, vi_create = True, vi_copy = None, vi_rename = True,
     vi_remove = True, vi_sidecar = True\<rparr>"

theorem vault_durable_witness:
  "map_of (snd (vault_Store (\<lambda>b. ''s'') (\<lambda>p d e. []) ''/v'' (good_io ''evil'') ''/srv/x'' zero_Event [])) ''/v/20240101/s.bin'' = Some ''evil''"
proof -
  have "vault_Store (\<lambda>b. ''s'') (\<lambda>p d e. []) ''/v'' (good_io ''evil'') ''/srv/x'' zero_Event [] =
      (Inr ''/v/20240101/s.bin'', snd (vault_Store (\<lambda>b. ''s'') (\<lambda>p d e. []) ''/v'' (good_io ''evil'') ''/srv/x'' zero_Event []))"
    by code_simp
  from vault_durable [OF _ _ _ _ _ this, where before = "[]" and later = "[]" and b = "''evil''"]
  have "vi_source (good_io ''evil'') = Some ''evil'' \<Longrightarrow> list_all on_clean_day [(good_io ''evil'', ''/srv/x'', zero_Event)] \<Longrightarrow> ?thesis"
    by (auto simp: clean_part_def)
  then show ?thesis by (simp add: on_clean_day_def good_io_def clean_part_def)
qed

text \<open>
  A temporary file that is left behind, by a crash or by a copy and a removal that both fail, blocks
  every store of its day.
\<close>

lemma leftover_blocks_day:
  assumes "map_of fs (vault_path dir (vi_day io) ''partial.tmp'') \<noteq> None"
  shows "\<exists>err. vault_Store h sidecar dir io path e fs = (Inl err, fs)"
  using assms by (auto simp: vault_Store_def Let_def split: option.splits)

lemma failed_removal_leaves_temp:
  assumes "vi_source io = Some b" "vi_stat io" "vi_mkdir io" "vi_create io" "vi_copy io = Some n" "\<not> vi_remove io"
    and "map_of fs (vault_path dir (vi_day io) ''partial.tmp'') = None"
  shows "map_of (snd (vault_Store h sidecar dir io path e fs)) (vault_path dir (vi_day io) ''partial.tmp'') = Some (take n b)"
  using assms by (simp add: vault_Store_def Let_def try_remove_def)

end
