(* ===== verification/GC_Export.thy ===== *)
theory GC_Export
  imports GC_Config GC_Event GC_Procfs
begin

text \<open>
  The exporters (\<^verbatim>\<open>export\<close>): syslog over UDP, octet-counted syslog over TCP, and the HTTP sinks of
  Splunk, Elastic and Loki. What goes on the wire is modelled; whether a system call or a request
  succeeds is an argument, and so is the JSON encoder. The contract of a message stream is that an
  octet-counting receiver reads back what was sent.
\<close>

section \<open>Dates\<close>

text \<open>The Gregorian calendar from the first day of year 1, as \<^verbatim>\<open>time.Time\<close> counts.\<close>

definition day_ns :: int where "day_ns = 86400000000000"

definition year_day :: "int \<Rightarrow> int \<times> int" where
  "year_day d =
     (let n400 = d div 146097; d1 = d mod 146097;
          n100 = min 3 (d1 div 36524); d2 = d1 - 36524 * n100;
          n4 = d2 div 1461; d3 = d2 - 1461 * n4;
          n1 = min 3 (d3 div 365)
      in (400 * n400 + 100 * n100 + 4 * n4 + n1 + 1, d3 - 365 * n1))"

definition leap_year :: "int \<Rightarrow> bool" where
  "leap_year y \<longleftrightarrow> y mod 4 = 0 \<and> (y mod 100 \<noteq> 0 \<or> y mod 400 = 0)"

fun month_day :: "int list \<Rightarrow> int \<Rightarrow> int \<Rightarrow> int \<times> int" where
  "month_day [] m d = (m, d + 1)"
| "month_day (l # ls) m d = (if d < l \<or> ls = [] then (m, d + 1) else month_day ls (m + 1) (d - l))"

definition civil :: "time \<Rightarrow> int \<times> int \<times> int" where
  "civil t =
     (let (y, yd) = year_day (t div day_ns);
          (m, d) = month_day [31, if leap_year y then 29 else 28, 31, 30, 31, 30, 31, 31, 30, 31, 30, 31] 1 yd
      in (y, m, d))"

definition pad :: "nat \<Rightarrow> int \<Rightarrow> string" where
  "pad w i = (let s = Itoa i in replicate (w - length s) (CHR ''0'') @ s)"

definition clock_text :: "time \<Rightarrow> string" where
  "clock_text t =
     (let s = t mod day_ns div 1000000000
      in pad 2 (s div 3600) @ '':'' @ pad 2 (s mod 3600 div 60) @ '':'' @ pad 2 (s mod 60))"

definition date_text :: "time \<Rightarrow> string" where
  "date_text t = (let (y, m, d) = civil t in pad 4 y @ ''-'' @ pad 2 m @ ''-'' @ pad 2 d)"

definition milli_text :: "time \<Rightarrow> string" where
  "milli_text t = pad 3 (t mod 1000000000 div 1000000)"

definition month_names :: "string list" where
  "month_names = [''Jan'', ''Feb'', ''Mar'', ''Apr'', ''May'', ''Jun'', ''Jul'', ''Aug'', ''Sep'', ''Oct'', ''Nov'', ''Dec'']"

definition stamp_text :: "time \<Rightarrow> string" where
  "stamp_text t = (let (y, m, d) = civil t in month_names ! nat (m - 1) @ '' '' @ Itoa d @ '' '' @ clock_text t)"

section \<open>Syslog over UDP\<close>

definition defaultMaxMsg :: int where "defaultMaxMsg = 8192"

definition facilityByName :: "(string \<times> int) list" where
  "facilityByName =
     [(''kern'', 0), (''user'', 1), (''mail'', 2), (''daemon'', 3), (''auth'', 4), (''syslog'', 5), (''lpr'', 6), (''news'', 7),
      (''uucp'', 8), (''cron'', 9), (''authpriv'', 10), (''ftp'', 11), (''local0'', 16), (''local1'', 17), (''local2'', 18),
      (''local3'', 19), (''local4'', 20), (''local5'', 21), (''local6'', 22), (''local7'', 23)]"

text \<open>\<open>None\<close> is the error of an invalid facility.\<close>

definition parseFacility :: "string \<Rightarrow> int option" where
  "parseFacility s0 =
     (let s = TrimSpace (ToLower s0)
      in if s = [] then map_of facilityByName ''local0''
         else (case map_of facilityByName s of
                 Some v \<Rightarrow> Some v
               | None \<Rightarrow> (case Atoi s of None \<Rightarrow> None | Some n \<Rightarrow> if n < 0 \<or> n > 23 then None else Some n)))"

definition severityToSyslog :: "Severity \<Rightarrow> int" where
  "severityToSyslog s =
     (if s = SeverityCritical then 2 else if s = SeverityHigh then 3 else if s = SeverityMedium then 4 else if s = SeverityLow then 5 else 6)"

definition formatRFC5424 :: "int \<Rightarrow> time \<Rightarrow> string \<Rightarrow> string \<Rightarrow> string \<Rightarrow> string \<Rightarrow> string \<Rightarrow> string" where
  "formatRFC5424 pri ts hostname app procID msgID msg =
     ''<'' @ Itoa pri @ ''>1 '' @ date_text ts @ ''T'' @ clock_text ts @ ''.'' @ milli_text ts @ ''Z '' @ hostname @ '' '' @ app @ '' '' @
     procID @ '' '' @ msgID @ '' - '' @ msg"

definition formatRFC3164 :: "int \<Rightarrow> time \<Rightarrow> string \<Rightarrow> string \<Rightarrow> string \<Rightarrow> string" where
  "formatRFC3164 pri ts hostname tag msg = ''<'' @ Itoa pri @ ''>'' @ stamp_text ts @ '' '' @ hostname @ '' '' @ tag @ '': '' @ msg"

definition trimToMax :: "string \<Rightarrow> int \<Rightarrow> string" where
  "trimToMax b mx = (if mx \<le> 0 \<or> int (length b) \<le> mx then b else take (nat mx) b)"

record SyslogClient =
  ud_cfg :: SyslogUDPConfig
  ud_host :: string
  ud_pid :: int

datatype syslog_error = UDPHostRequired | UDPPort | UDPFormat | UDPResolve | UDPDial

text \<open>\<open>None\<close> on the right is the nil client of a disabled exporter.\<close>

definition JoinHostPort :: "string \<Rightarrow> string \<Rightarrow> string" where
  "JoinHostPort host port = (if CHR '':'' \<in> set host then ''['' @ host @ '']:'' @ port else host @ '':'' @ port)"

definition NewUDP :: "string option \<Rightarrow> int \<Rightarrow> (string \<Rightarrow> bool) \<Rightarrow> (string \<Rightarrow> bool) \<Rightarrow> SyslogUDPConfig \<Rightarrow> syslog_error + SyslogClient option" where
  "NewUDP osHostname pid resolves dials cfg =
     (if \<not> su_Enabled cfg then Inr None
      else if su_Host cfg = [] then Inl UDPHostRequired
      else if su_Port cfg \<le> 0 \<or> su_Port cfg > 65535 then Inl UDPPort
      else
        (let f0 = ToLower (TrimSpace (su_Format cfg)); f = (if f0 = [] then ''rfc5424'' else f0)
         in if f \<noteq> ''rfc5424'' \<and> f \<noteq> ''rfc3164'' then Inl UDPFormat
            else
              (let hn = (if su_Hostname cfg = [] then (case osHostname of None \<Rightarrow> ''localhost'' | Some h \<Rightarrow> h) else su_Hostname cfg);
                   cfg' = cfg\<lparr>su_Format := f, su_MaxMsgBytes := (if su_MaxMsgBytes cfg \<le> 0 then defaultMaxMsg else su_MaxMsgBytes cfg),
                     su_AppName := (if su_AppName cfg = [] then ''ghostcatcher'' else su_AppName cfg), su_Hostname := hn\<rparr>;
                   addr = JoinHostPort (su_Host cfg) (Itoa (su_Port cfg))
               in if \<not> resolves addr then Inl UDPResolve
                  else if \<not> dials addr then Inl UDPDial
                  else Inr (Some \<lparr>ud_cfg = cfg', ud_host = hn, ud_pid = pid\<rparr>))))"

definition msg_id :: "Event \<Rightarrow> string" where
  "msg_id e = (if ev_RuleID e = [] \<or> list_ex (\<lambda>c. c = CHR '' '' \<or> c = CHR 0x09 \<or> c = CHR '']'') (ev_RuleID e) then ''-'' else ev_RuleID e)"

text \<open>The packet \<^verbatim>\<open>Send\<close> writes; \<open>None\<close> is the error of the facility.\<close>

definition syslog_packet :: "time \<Rightarrow> SyslogClient \<Rightarrow> Event \<Rightarrow> string \<Rightarrow> string option" where
  "syslog_packet now c e jsonLine =
     (case parseFacility (su_Facility (ud_cfg c)) of
        None \<Rightarrow> None
      | Some fac \<Rightarrow>
          (let pri = fac * 8 + severityToSyslog (ev_Severity e);
               msg = trimToMax jsonLine (su_MaxMsgBytes (ud_cfg c))
           in Some (if su_Format (ud_cfg c) = ''rfc3164''
                    then formatRFC3164 pri now (ud_host c) (su_AppName (ud_cfg c)) msg
                    else formatRFC5424 pri (ev_Timestamp e) (ud_host c) (su_AppName (ud_cfg c))
                           (if su_ProcID (ud_cfg c) = [] then Itoa (ud_pid c) else su_ProcID (ud_cfg c)) (msg_id e) msg)))"

text \<open>A nil client sends nothing, without an error.\<close>

definition syslog_Send :: "(string \<Rightarrow> bool) \<Rightarrow> time \<Rightarrow> SyslogClient option \<Rightarrow> Event \<Rightarrow> string \<Rightarrow> bool \<times> string list" where
  "syslog_Send writes now cl e jsonLine =
     (case cl of
        None \<Rightarrow> (True, [])
      | Some c \<Rightarrow> (case syslog_packet now c e jsonLine of
                     None \<Rightarrow> (False, [])
                   | Some p \<Rightarrow> (writes p, if writes p then [p] else [])))"

section \<open>Syslog over TCP\<close>

record TcpClient =
  tc_cfg :: SyslogTCPConfig
  tc_open :: bool

definition tcp_New :: "string option \<Rightarrow> int \<Rightarrow> SyslogTCPConfig \<Rightarrow> TcpClient option" where
  "tcp_New osHostname pid cfg =
     (if \<not> st_Enabled cfg then None
      else Some \<lparr>tc_cfg = cfg\<lparr>st_AppName := (if st_AppName cfg = [] then ''ghostcatcher'' else st_AppName cfg),
             st_Hostname := (if st_Hostname cfg = [] then (case osHostname of None \<Rightarrow> [] | Some h \<Rightarrow> h) else st_Hostname cfg),
             st_ProcID := (if st_ProcID cfg = [] then Itoa pid else st_ProcID cfg),
             st_MaxMsgBytes := (if st_MaxMsgBytes cfg = 0 then 8192 else st_MaxMsgBytes cfg)\<rparr>, tc_open = False\<rparr>)"

definition tcp_text :: "SyslogTCPConfig \<Rightarrow> Event \<Rightarrow> string \<Rightarrow> string" where
  "tcp_text cfg e raw =
     ''<'' @ Itoa (13 * 8 + 5) @ ''>1 '' @ date_text (ev_Timestamp e) @ ''T'' @ clock_text (ev_Timestamp e) @ ''Z '' @ st_Hostname cfg @ '' '' @
     st_AppName cfg @ '' '' @ st_ProcID cfg @ '' '' @ (if ev_RuleID e = [] then ''-'' else ev_RuleID e) @ '' - '' @ raw"

text \<open>\<^verbatim>\<open>strings.TrimRight(s, cut)\<close>. A negative limit makes the slice expression panic: \<open>None\<close>.\<close>

definition TrimRight :: "string \<Rightarrow> string \<Rightarrow> string" where
  "TrimRight s cutset = rev (dropWhile (\<lambda>c. c \<in> set cutset) (rev s))"

definition line_end :: string where "line_end = [CHR 0x0D, CHR 0x0A]"

definition frame :: "SyslogTCPConfig \<Rightarrow> Event \<Rightarrow> string \<Rightarrow> string option" where
  "frame cfg e raw =
     (if st_MaxMsgBytes cfg < 0 then None
      else (let msg = take (nat (st_MaxMsgBytes cfg)) (tcp_text cfg e raw)
            in Some (Itoa (int (length msg)) @ '' '' @ TrimRight msg line_end)))"

text \<open>The outcome of the system calls of the two attempts: the connection, the file of the authority, the write.\<close>

record tcp_io =
  ti_dial :: "nat \<Rightarrow> bool"
  ti_readCA :: "string \<Rightarrow> string option"
  ti_pemOK :: "string \<Rightarrow> bool"
  ti_write :: "nat \<Rightarrow> bool"

definition tcp_dial :: "tcp_io \<Rightarrow> SyslogTCPConfig \<Rightarrow> nat \<Rightarrow> bool" where
  "tcp_dial io cfg i =
     (if st_TLS cfg \<and> st_TLSCACertFile cfg \<noteq> []
      then (case ti_readCA io (st_TLSCACertFile cfg) of None \<Rightarrow> False | Some pem \<Rightarrow> ti_pemOK io pem \<and> ti_dial io i)
      else ti_dial io i)"

fun tcp_attempts :: "tcp_io \<Rightarrow> SyslogTCPConfig \<Rightarrow> nat list \<Rightarrow> bool \<Rightarrow> bool \<times> bool" where
  "tcp_attempts io cfg [] opened = (False, opened)"
| "tcp_attempts io cfg (i # js) opened =
     (if \<not> opened \<and> \<not> tcp_dial io cfg i then (False, False)
      else if ti_write io i then (True, True)
      else tcp_attempts io cfg js False)"

text \<open>\<open>None\<close> is the panic of \<open>frame\<close>; otherwise whether the send succeeded, what was sent, and the client.\<close>

definition tcp_Send :: "tcp_io \<Rightarrow> Event \<Rightarrow> string \<Rightarrow> TcpClient \<Rightarrow> (bool \<times> string list \<times> TcpClient) option" where
  "tcp_Send io e raw c =
     map_option (\<lambda>framed. let (ok, opened) = tcp_attempts io (tc_cfg c) [0, 1] (tc_open c)
        in (ok, if ok then [framed] else [], c\<lparr>tc_open := opened\<rparr>)) (frame (tc_cfg c) e raw)"

definition tcp_Close :: "TcpClient \<Rightarrow> TcpClient" where "tcp_Close c = c\<lparr>tc_open := False\<rparr>"

section \<open>HTTP sinks\<close>

record http_request =
  hr_url :: string
  hr_contentType :: string
  hr_auth :: string
  hr_body :: string

text \<open>\<open>valid\<close>: the URL parses. \<open>respond\<close>: the status of the response, \<open>None\<close> for a transport error.\<close>

definition http_Send :: "(string \<Rightarrow> bool) \<Rightarrow> (http_request \<Rightarrow> nat option) \<Rightarrow> http_request \<Rightarrow> bool" where
  "http_Send valid respond req =
     (valid (hr_url req) \<and> (case respond req of None \<Rightarrow> False | Some status \<Rightarrow> status div 100 = 2))"

definition basic_auth :: "(string \<Rightarrow> string) \<Rightarrow> string \<Rightarrow> string \<Rightarrow> string" where
  "basic_auth b64 user password = (if user \<noteq> [] \<and> password \<noteq> [] then ''Basic '' @ b64 (user @ '':'' @ password) else [])"

definition dquote :: char where "dquote = CHR 0x22"
definition bslash :: char where "bslash = CHR 0x5C"

text \<open>\<^verbatim>\<open>%q\<close>: bytes from 0x80 on belong to printable characters here and stay as they are.\<close>

definition quote_byte :: "char \<Rightarrow> string" where
  "quote_byte c =
     (if c = dquote \<or> c = bslash then [bslash, c]
      else if 32 \<le> byte c \<and> byte c \<noteq> 127 then [c]
      else (case map_of [(7, CHR ''a''), (8, CHR ''b''), (12, CHR ''f''), (10, CHR ''n''), (13, CHR ''r''), (9, CHR ''t''), (11, CHR ''v'')] (byte c) of
              Some l \<Rightarrow> [bslash, l]
            | None \<Rightarrow> [bslash, CHR ''x'', ''0123456789abcdef'' ! (byte c div 16), ''0123456789abcdef'' ! (byte c mod 16)]))"

definition Quote :: "string \<Rightarrow> string" where "Quote s = [dquote] @ concat (map quote_byte s) @ [dquote]"

definition elastic_New :: "ElasticBulkConfig \<Rightarrow> bool" where
  "elastic_New cfg \<longleftrightarrow> eb_Enabled cfg \<and> eb_URL cfg \<noteq> [] \<and> eb_Index cfg \<noteq> []"

definition elastic_body :: "ElasticBulkConfig \<Rightarrow> string \<Rightarrow> string" where
  "elastic_body cfg raw =
     ''{'' @ [dquote] @ ''index'' @ [dquote] @ '':{'' @ [dquote] @ ''_index'' @ [dquote] @ '':'' @ Quote (eb_Index cfg) @ ''}}'' @ [CHR 0x0A] @ raw @ [CHR 0x0A]"

definition elastic_request :: "(string \<Rightarrow> string) \<Rightarrow> ElasticBulkConfig \<Rightarrow> string \<Rightarrow> http_request" where
  "elastic_request b64 cfg raw =
     \<lparr>hr_url = TrimRightByte (eb_URL cfg) (CHR ''/'') @ ''/_bulk'', hr_contentType = ''application/x-ndjson'',
      hr_auth = (if eb_APIKey cfg \<noteq> [] then ''ApiKey '' @ eb_APIKey cfg else basic_auth b64 (eb_Username cfg) (eb_Password cfg)),
      hr_body = elastic_body cfg raw\<rparr>"

definition splunk_New :: "SplunkHECConfig \<Rightarrow> bool" where
  "splunk_New cfg \<longleftrightarrow> sh_Enabled cfg \<and> sh_URL cfg \<noteq> [] \<and> sh_Token cfg \<noteq> []"

text \<open>\<open>encode raw fields\<close>: the JSON object with the raw event and these text fields.\<close>

definition splunk_request :: "(string \<Rightarrow> (string, string) gomap \<Rightarrow> string) \<Rightarrow> SplunkHECConfig \<Rightarrow> string \<Rightarrow> http_request" where
  "splunk_request encode cfg raw =
     \<lparr>hr_url = sh_URL cfg, hr_contentType = ''application/json'', hr_auth = ''Splunk '' @ sh_Token cfg,
      hr_body = encode raw ((if sh_Index cfg \<noteq> [] then [(''index'', sh_Index cfg)] else []) @
                            (if sh_SourceType cfg \<noteq> [] then [(''sourcetype'', sh_SourceType cfg)] else []))\<rparr>"

definition loki_New :: "LokiPushConfig \<Rightarrow> bool" where
  "loki_New cfg \<longleftrightarrow> lp_Enabled cfg \<and> lp_URL cfg \<noteq> []"

definition UnixNano :: "time \<Rightarrow> int" where "UnixNano t = wrap64 (t - 62135596800000000000)"

definition loki_labels :: "LokiPushConfig \<Rightarrow> Event \<Rightarrow> (string, string) gomap" where
  "loki_labels cfg e =
     (let l1 = fold (\<lambda>(k, v). gput k v) (lp_Labels cfg) [(''app'', ''ghostcatcher'')];
          l2 = (if ev_RuleID e \<noteq> [] then gput ''rule_id'' (ev_RuleID e) l1 else l1)
      in if ev_Severity e \<noteq> [] then gput ''severity'' (ev_Severity e) l2 else l2)"

text \<open>\<open>encode labels ts raw\<close>: the JSON push payload with one stream and one value.\<close>

definition loki_request :: "((string, string) gomap \<Rightarrow> string \<Rightarrow> string \<Rightarrow> string) \<Rightarrow> (string \<Rightarrow> string) \<Rightarrow> LokiPushConfig \<Rightarrow> Event \<Rightarrow> string \<Rightarrow> http_request" where
  "loki_request encode b64 cfg e raw =
     \<lparr>hr_url = TrimRightByte (lp_URL cfg) (CHR ''/'') @ ''/loki/api/v1/push'', hr_contentType = ''application/json'',
      hr_auth = basic_auth b64 (lp_Username cfg) (lp_Password cfg),
      hr_body = encode (loki_labels cfg e) (Itoa (UnixNano (ev_Timestamp e))) raw\<rparr>"

definition elastic_Send :: "(string \<Rightarrow> bool) \<Rightarrow> (http_request \<Rightarrow> nat option) \<Rightarrow> (string \<Rightarrow> string) \<Rightarrow> ElasticBulkConfig \<Rightarrow> string \<Rightarrow> bool" where
  "elastic_Send valid respond b64 cfg raw = http_Send valid respond (elastic_request b64 cfg raw)"

definition splunk_Send :: "(string \<Rightarrow> bool) \<Rightarrow> (http_request \<Rightarrow> nat option) \<Rightarrow> (string \<Rightarrow> (string, string) gomap \<Rightarrow> string) \<Rightarrow> SplunkHECConfig \<Rightarrow> string \<Rightarrow> bool" where
  "splunk_Send valid respond encode cfg raw = http_Send valid respond (splunk_request encode cfg raw)"

definition loki_Send :: "(string \<Rightarrow> bool) \<Rightarrow> (http_request \<Rightarrow> nat option) \<Rightarrow> ((string, string) gomap \<Rightarrow> string \<Rightarrow> string \<Rightarrow> string) \<Rightarrow> (string \<Rightarrow> string) \<Rightarrow> LokiPushConfig \<Rightarrow> Event \<Rightarrow> string \<Rightarrow> bool" where
  "loki_Send valid respond encode b64 cfg e raw = http_Send valid respond (loki_request encode b64 cfg e raw)"

section \<open>The sinks of a runner\<close>

datatype Sink = TcpSink TcpClient | SplunkSink SplunkHECConfig | ElasticSink ElasticBulkConfig | LokiSink LokiPushConfig

fun sink_Name :: "Sink \<Rightarrow> string" where
  "sink_Name (TcpSink _) = ''syslog-tcp''"
| "sink_Name (SplunkSink _) = ''splunk-hec''"
| "sink_Name (ElasticSink _) = ''elastic-bulk''"
| "sink_Name (LokiSink _) = ''loki''"

record sink_io =
  si_tcp :: tcp_io
  si_valid :: "string \<Rightarrow> bool"
  si_respond :: "http_request \<Rightarrow> nat option"
  si_b64 :: "string \<Rightarrow> string"
  si_splunkJSON :: "string \<Rightarrow> (string, string) gomap \<Rightarrow> string"
  si_lokiJSON :: "(string, string) gomap \<Rightarrow> string \<Rightarrow> string \<Rightarrow> string"

text \<open>\<^verbatim>\<open>Send\<close> of the interface: whether it succeeded, and the sink afterwards; \<open>None\<close> is a panic.\<close>

fun sink_Send :: "sink_io \<Rightarrow> Event \<Rightarrow> string \<Rightarrow> Sink \<Rightarrow> (bool \<times> Sink) option" where
  "sink_Send io e raw (TcpSink c) = map_option (\<lambda>(ok, sent, c'). (ok, TcpSink c')) (tcp_Send (si_tcp io) e raw c)"
| "sink_Send io e raw (SplunkSink cfg) = Some (splunk_Send (si_valid io) (si_respond io) (si_splunkJSON io) cfg raw, SplunkSink cfg)"
| "sink_Send io e raw (ElasticSink cfg) = Some (elastic_Send (si_valid io) (si_respond io) (si_b64 io) cfg raw, ElasticSink cfg)"
| "sink_Send io e raw (LokiSink cfg) = Some (loki_Send (si_valid io) (si_respond io) (si_lokiJSON io) (si_b64 io) cfg e raw, LokiSink cfg)"

definition initSinks :: "string option \<Rightarrow> int \<Rightarrow> Config \<Rightarrow> Sink list" where
  "initSinks osHostname pid cfg =
     (case tcp_New osHostname pid (cfg_SyslogTCP cfg) of None \<Rightarrow> [] | Some c \<Rightarrow> [TcpSink c]) @
     (if splunk_New (cfg_SplunkHEC cfg) then [SplunkSink (cfg_SplunkHEC cfg)] else []) @
     (if elastic_New (cfg_ElasticBulk cfg) then [ElasticSink (cfg_ElasticBulk cfg)] else []) @
     (if loki_New (cfg_LokiPush cfg) then [LokiSink (cfg_LokiPush cfg)] else [])"

section \<open>Octet counting\<close>

text \<open>A receiver: the length in digits, a space, that many bytes. \<open>None\<close> where the stream is out of step.\<close>

function octets :: "string \<Rightarrow> string list option" where
  "octets s =
     (if s = [] then Some []
      else
        (let ds = takeWhile is_digit s; rest = dropWhile is_digit s; n = digits_val 0 ds
         in if ds = [] \<or> rest = [] \<or> hd rest \<noteq> CHR '' '' \<or> length (tl rest) < n then None
            else map_option (Cons (take n (tl rest))) (octets (drop n (tl rest)))))"
  by pat_completeness auto
termination
proof (relation "measure length")
  fix s ds rest n
  assume "s \<noteq> []" "rest = dropWhile is_digit s" "\<not> (ds = [] \<or> rest = [] \<or> hd rest \<noteq> CHR '' '' \<or> length (tl rest) < n)"
  then have "length rest \<le> length s" "0 < length s" by (simp_all add: length_dropWhile_le)
  then show "(drop n (tl rest), s) \<in> measure length" unfolding in_measure length_drop length_tl by linarith
qed simp

declare octets.simps [simp del]

definition clean_text :: "string \<Rightarrow> bool" where "clean_text s \<longleftrightarrow> CHR 0x0A \<notin> set s \<and> CHR 0x0D \<notin> set s"

lemma TrimRight_clean: "clean_text s \<Longrightarrow> TrimRight s line_end = s"
proof -
  assume c: "clean_text s"
  have "dropWhile (\<lambda>c. c \<in> set line_end) (rev s) = rev s"
  proof (cases "rev s")
    case (Cons x xs)
    then have "x \<in> set s" by (metis list.set_intros(1) set_rev)
    then show ?thesis using c Cons by (auto simp: clean_text_def line_end_def)
  qed simp
  then show ?thesis by (simp add: TrimRight_def)
qed

lemma octets_frame:
  "octets (Itoa (int (length m)) @ '' '' @ m @ rest) = map_option (Cons m) (octets rest)"
proof -
  have d: "list_all is_digit (nat_digits (length m))" by (rule nat_digits_all_digits)
  have sp: "\<not> is_digit (CHR '' '')" by (simp add: is_digit_def)
  have t: "takeWhile is_digit (nat_digits (length m) @ CHR '' '' # m @ rest) = nat_digits (length m)"
    using d sp by (simp add: takeWhile_append list_all_iff)
  have r: "dropWhile is_digit (nat_digits (length m) @ CHR '' '' # m @ rest) = CHR '' '' # m @ rest"
    using d sp by (simp add: dropWhile_append list_all_iff)
  show ?thesis by (subst octets.simps) (simp add: Itoa_def t r Let_def)
qed

text \<open>Everything the header is made of is free of line ends if the configured names are.\<close>

lemma clean_append [simp]: "clean_text (a @ b) \<longleftrightarrow> clean_text a \<and> clean_text b"
  by (auto simp: clean_text_def)

lemma clean_Cons [simp]: "clean_text []" "clean_text (c # s) \<longleftrightarrow> c \<noteq> CHR 0x0A \<and> c \<noteq> CHR 0x0D \<and> clean_text s"
  by (auto simp: clean_text_def)

lemma clean_take: "clean_text s \<Longrightarrow> clean_text (take n s)"
  by (auto simp: clean_text_def dest: in_set_takeD)

lemma clean_Itoa [simp]: "clean_text (Itoa i)"
proof -
  have "clean_text (nat_digits n)" for n
    using nat_digits_all_digits [of n] by (auto simp: clean_text_def list_all_iff is_digit_def)
  then show ?thesis by (simp add: Itoa_def)
qed

lemma clean_pad [simp]: "clean_text (pad w i)"
  using clean_Itoa [of i] by (auto simp: pad_def Let_def clean_text_def)

lemma clean_times [simp]: "clean_text (date_text t)" "clean_text (clock_text t)" "clean_text (milli_text t)"
  by (simp_all add: date_text_def clock_text_def milli_text_def Let_def split_beta)

definition clean_names :: "SyslogTCPConfig \<Rightarrow> bool" where
  "clean_names cfg \<longleftrightarrow> clean_text (st_Hostname cfg) \<and> clean_text (st_AppName cfg) \<and> clean_text (st_ProcID cfg)"

lemma clean_tcp_text:
  assumes "clean_names cfg" "clean_text (ev_RuleID e)" "clean_text raw"
  shows "clean_text (tcp_text cfg e raw)"
  using assms by (simp add: tcp_text_def clean_names_def)

lemma frame_clean:
  assumes "0 \<le> st_MaxMsgBytes cfg" "clean_text (tcp_text cfg e raw)"
  shows "frame cfg e raw = Some (Itoa (int (length (take (nat (st_MaxMsgBytes cfg)) (tcp_text cfg e raw)))) @ '' '' @ take (nat (st_MaxMsgBytes cfg)) (tcp_text cfg e raw))"
  using assms by (simp add: frame_def TrimRight_clean clean_take Let_def)

text \<open>The connection is open after a send exactly when the send succeeded.\<close>

lemma tcp_attempts_closed: "snd (tcp_attempts io cfg js False) = fst (tcp_attempts io cfg js False)"
  by (induction js) auto

lemma tcp_attempts_open: "snd (tcp_attempts io cfg (i # js) opened) = fst (tcp_attempts io cfg (i # js) opened)"
  by (simp add: tcp_attempts_closed)

lemma tcp_Send_open:
  assumes "tcp_Send io e raw c = Some (ok, sent, c')"
  shows "tc_open c' = ok \<and> (sent \<noteq> []) = ok"
proof -
  obtain a b where r: "tcp_attempts io (tc_cfg c) [0, 1] (tc_open c) = (a, b)" by (metis surj_pair)
  then have "b = a" using tcp_attempts_open [of io "tc_cfg c" 0 "[1]" "tc_open c"] by (simp del: tcp_attempts.simps)
  then show ?thesis using assms r by (auto simp: tcp_Send_def Let_def simp del: tcp_attempts.simps)
qed

text \<open>A size that is not negative never panics, and a send keeps the configuration.\<close>

lemma sink_Send_total:
  assumes "\<And>c. s = TcpSink c \<Longrightarrow> 0 \<le> st_MaxMsgBytes (tc_cfg c)"
  shows "\<exists>ok s'. sink_Send io e raw s = Some (ok, s') \<and> sink_Name s' = sink_Name s"
  using assms by (cases s) (auto simp: tcp_Send_def frame_def Let_def split: prod.splits)

text \<open>An Elastic request body is two lines: the action and the event.\<close>

lemma hex_no_line: "n < 16 \<Longrightarrow> ''0123456789abcdef'' ! n \<noteq> CHR 0x0A"
proof -
  assume "n < 16"
  then have "''0123456789abcdef'' ! n \<in> set ''0123456789abcdef''" by (intro nth_mem) simp
  then show ?thesis by auto
qed

lemma quote_byte_line: "CHR 0x0A \<notin> set (quote_byte c)"
proof -
  have "byte c < 256" by (rule nat_of_char_less_256)
  then have "byte c div 16 < 16" "byte c mod 16 < 16" by (simp_all add: div_less_iff_less_mult)
  then have "''0123456789abcdef'' ! (byte c div 16) \<noteq> CHR 0x0A" "''0123456789abcdef'' ! (byte c mod 16) \<noteq> CHR 0x0A"
    by (simp_all only: hex_no_line not_False_eq_True)
  moreover have "c \<noteq> CHR 0x0A" if "32 \<le> byte c" using that by auto
  ultimately show ?thesis by (auto simp: quote_byte_def dquote_def bslash_def split: option.splits if_splits)
qed

lemma elastic_two_lines:
  assumes "CHR 0x0A \<notin> set raw"
  shows "\<exists>action. SplitByte (elastic_body cfg raw) (CHR 0x0A) = [action, raw, []]"
proof -
  obtain action where a: "elastic_body cfg raw = action @ [CHR 0x0A] @ raw @ [CHR 0x0A]" "CHR 0x0A \<notin> set action"
    using quote_byte_line by (auto simp: elastic_body_def Quote_def dquote_def)
  show ?thesis using assms a(2) unfolding a(1) by (auto simp: SplitByte_append_line SplitByte_none)
qed

section \<open>Correctness\<close>

text \<open>
  C24. Syslog over TCP stays in step: whatever events are sent, an octet-counting receiver of the stream reads
  back their messages, each cut to the configured size, one by one and in order, provided neither the configured names nor
  the events have line ends in them, which encoded JSON never has.
\<close>

theorem octet_stream_roundtrip:
  assumes "0 \<le> st_MaxMsgBytes cfg" "clean_names cfg" "list_all (\<lambda>(e, raw). clean_text (ev_RuleID e) \<and> clean_text raw) xs"
  shows "octets (concat (map (\<lambda>(e, raw). the (frame cfg e raw)) xs)) =
    Some (map (\<lambda>(e, raw). take (nat (st_MaxMsgBytes cfg)) (tcp_text cfg e raw)) xs)"
  using assms(3)
proof (induction xs)
  case Nil
  show ?case by (simp add: octets.simps)
next
  case (Cons x xs)
  obtain e raw where x: "x = (e, raw)" by (cases x)
  have "clean_text (tcp_text cfg e raw)" using Cons.prems clean_tcp_text [OF assms(2)] by (simp add: x)
  note f = frame_clean [OF assms(1) this]
  show ?case using Cons.IH Cons.prems octets_frame by (simp add: x f del: length_take)
qed

text \<open>
  The priority of every UDP packet is a facility from 0 to 23 and a severity from 2 to 6, packed so that the receiver
  gets both back; a facility that is neither a name nor such a number is refused before anything is sent.
\<close>

theorem syslog_priority:
  "case parseFacility (su_Facility (ud_cfg c)) of
     None \<Rightarrow> syslog_packet now c e line = None
   | Some fac \<Rightarrow> (\<exists>pri rest. syslog_packet now c e line = Some (''<'' @ Itoa pri @ ''>'' @ rest) \<and>
       pri div 8 = fac \<and> pri mod 8 = severityToSyslog (ev_Severity e) \<and> 0 \<le> fac \<and> fac \<le> 23 \<and> 2 \<le> pri mod 8 \<and> pri mod 8 \<le> 6)"
proof (cases "parseFacility (su_Facility (ud_cfg c))")
  case (Some fac)
  let ?sev = "severityToSyslog (ev_Severity e)"
  have sev: "2 \<le> ?sev" "?sev \<le> 6" by (simp_all add: severityToSyslog_def)
  have fac: "0 \<le> fac" "fac \<le> 23"
    using Some by (auto simp: parseFacility_def facilityByName_def Let_def split: if_splits option.splits)
  have "\<exists>rest. syslog_packet now c e line = Some (''<'' @ Itoa (fac * 8 + ?sev) @ ''>'' @ rest)"
    by (simp add: syslog_packet_def Some Let_def formatRFC3164_def formatRFC5424_def)
  moreover have "(fac * 8 + ?sev) div 8 = fac" "(fac * 8 + ?sev) mod 8 = ?sev" using sev by auto
  ultimately show ?thesis using sev fac by (auto simp: Some)
qed (simp add: syslog_packet_def)

section \<open>Sample streams\<close>

definition tcp_sample_cfg :: SyslogTCPConfig where
  "tcp_sample_cfg = zero_SyslogTCPConfig\<lparr>st_Enabled := True, st_Hostname := ''web1'', st_AppName := ''gc'', st_ProcID := ''7'', st_MaxMsgBytes := 40\<rparr>"

definition sample_alert :: Event where
  "sample_alert = zero_Event\<lparr>ev_RuleID := ''WEB_SHELL'', ev_Timestamp := 63850000000000000000, ev_Severity := SeverityHigh\<rparr>"

text \<open>Two messages, both cut: the receiver sees the dates of the events and where it was cut.\<close>

lemma sample_message: "take 40 (tcp_text tcp_sample_cfg sample_alert raw) = ''<109>1 2024-04-29T15:06:40Z web1 gc 7 WE''"
proof -
  have c: "civil 63850000000000000000 = (2024, 4, 29)"
    by (simp add: civil_def year_day_def day_ns_def leap_year_def Let_def)
  have i: "Itoa 109 = ''109''" "Itoa 2024 = ''2024''" "Itoa 4 = ''4''" "Itoa 29 = ''29''" "Itoa 15 = ''15''" "Itoa 6 = ''6''" "Itoa 40 = ''40''"
    by code_simp+
  show ?thesis
    by (simp add: tcp_text_def date_text_def clock_text_def c day_ns_def pad_def i Let_def sample_alert_def tcp_sample_cfg_def zero_Event_def)
qed

theorem octet_stream_roundtrip_witness:
  "octets (concat (map (\<lambda>(e, raw). the (frame tcp_sample_cfg e raw)) [(sample_alert, ''a''), (sample_alert, ''b'')])) =
     Some [''<109>1 2024-04-29T15:06:40Z web1 gc 7 WE'', ''<109>1 2024-04-29T15:06:40Z web1 gc 7 WE'']"
proof -
  have "clean_names tcp_sample_cfg" by (simp add: clean_names_def tcp_sample_cfg_def)
  moreover have "clean_text (ev_RuleID sample_alert)" by (simp add: sample_alert_def)
  ultimately show ?thesis
    using octet_stream_roundtrip [of tcp_sample_cfg "[(sample_alert, ''a''), (sample_alert, ''b'')]"] sample_message
    by (simp add: tcp_sample_cfg_def)
qed

section \<open>Deviations\<close>

text \<open>
  The count is taken before line ends are cut off: a message that ends in one is announced longer than it
  is, and the receiver is out of step from there on.
\<close>

lemma trailing_newline_desyncs:
  assumes "0 \<le> st_MaxMsgBytes cfg" "take (nat (st_MaxMsgBytes cfg)) (tcp_text cfg e raw) = m @ [CHR 0x0A]" "clean_text m"
  shows "frame cfg e raw = Some (Itoa (int (length m) + 1) @ '' '' @ m)"
proof -
  have "TrimRight (m @ [CHR 0x0A]) line_end = m" using TrimRight_clean [OF assms(3)] by (simp add: TrimRight_def line_end_def)
  then show ?thesis using assms by (simp add: frame_def Let_def add.commute)
qed

text \<open>The configured facility is never read, and the priority is facility 13, not local5 (21).\<close>

lemma tcp_facility_ignored: "tcp_text (cfg\<lparr>st_Facility := f\<rparr>) e raw = tcp_text cfg e raw" "(13 * 8 + 5) div 8 \<noteq> the (parseFacility ''local5'')"
proof -
  have t: "TrimSpace (ToLower ''local5'') = ''local5''" by code_simp
  show "(13 * 8 + 5) div 8 \<noteq> the (parseFacility ''local5'')" by (simp add: parseFacility_def t facilityByName_def)
qed (simp add: tcp_text_def)

text \<open>A negative size in the configuration makes the first send panic.\<close>

lemma negative_size_panics: "st_MaxMsgBytes cfg < 0 \<Longrightarrow> tcp_Send io e raw \<lparr>tc_cfg = cfg, tc_open = op\<rparr> = None"
  by (simp add: tcp_Send_def frame_def)

text \<open>The cap on a UDP packet only cuts the event: with the header the packet is longer than the cap.\<close>

lemma packet_exceeds_cap:
  assumes "syslog_packet now c e line = Some p" "0 < su_MaxMsgBytes (ud_cfg c)" "su_MaxMsgBytes (ud_cfg c) \<le> int (length line)"
  shows "su_MaxMsgBytes (ud_cfg c) < int (length p)"
proof -
  have "length (trimToMax line (su_MaxMsgBytes (ud_cfg c))) = nat (su_MaxMsgBytes (ud_cfg c))" using assms(2,3) by (auto simp: trimToMax_def)
  then show ?thesis using assms(1,2) by (auto simp: syslog_packet_def formatRFC3164_def formatRFC5424_def Let_def split: option.splits if_splits)
qed

end
