(* ===== verification/GC_Routes.thy ===== *)
theory GC_Routes
  imports GC_Finding
begin

unbundle bit_operations_syntax

text \<open>
  The live routes: what the detectors make of one sensor record. \<^verbatim>\<open>detect/sensorlive\<close>,
  \<^verbatim>\<open>detect/containeresc\<close>, \<^verbatim>\<open>detect/defense\<close> (with its state scan), \<^verbatim>\<open>detect/copyfail\<close> (with
  its page-cache scan) and the document-root route of \<^verbatim>\<open>detect/web/docroot.go\<close>. A route returns
  the event, or \<open>None\<close> when the record is not of interest. \<open>h\<close> is the hash, \<open>clock\<close> the reading
  of the clock.
\<close>

section \<open>High-fidelity system calls\<close>

definition RulePtrace :: string where "RulePtrace = ''PROC_PTRACE_INJECT''"
definition RuleMemfdCreate :: string where "RuleMemfdCreate = ''PROC_MEMFD_EXEC''"
definition RuleInitModule :: string where "RuleInitModule = ''KERNEL_MODULE_LOAD''"

definition FastKinds :: "Kind list" where
  "FastKinds = [KindPtrace, KindInitModule, KindMemfdCreate, KindSocket, KindExec, KindOpenat, KindConnect, KindListen]"

text \<open>Rule, first signal, techniques and tactic by the kind of the record.\<close>

definition live_class :: "Kind \<Rightarrow> (string \<times> string \<times> string list \<times> string) option" where
  "live_class k =
     (if k = KindPtrace then Some (RulePtrace, ''ptrace_attach'', [''T1055''], ''defense-evasion'')
      else if k = KindMemfdCreate then Some (RuleMemfdCreate, ''memfd_create'', [''T1055.001''], ''execution'')
      else if k = KindInitModule then Some (RuleInitModule, ''init_module'', [''T1547.006''], ''persistence'')
      else None)"

definition sensorlive_RouteSensorEvent :: "time \<Rightarrow> Config \<Rightarrow> Pack \<Rightarrow> string \<Rightarrow> SensorEvent \<Rightarrow> Event option" where
  "sensorlive_RouteSensorEvent clock cfg pack agentVer ev =
     (case live_class (se_Kind ev) of
        None \<Rightarrow> None
      | Some (ruleID, sig, techniques, tactic) \<Rightarrow>
          (let sigs = [sig, ''comm:'' @ se_Comm ev];
               (score, ok) = Score pack ruleID sigs;
               conf = (if ok then score else 75)
           in Some (zero_Event\<lparr>
                ev_SchemaVersion := SchemaVersion, ev_AgentVersion := agentVer, ev_Timestamp := when_or clock ev,
                ev_RuleID := ruleID, ev_RulePackVersion := pack_Version pack, ev_TechniqueIDs := techniques,
                ev_Tactic := tactic, ev_Confidence := conf,
                ev_Severity := SeverityFromConfidence conf (cfg_LearningMode cfg),
                ev_Entity := \<lparr>ent_Type = EntityProcess, ent_ID = Itoa (se_PID ev), ent_Path = [], ent_User = []\<rparr>,
                ev_Signals := sigs, ev_Evidence := ''live_sensor:'' @ se_Kind ev,
                ev_Process := Some (zero_ProcessContext\<lparr>pc_PID := se_PID ev, pc_PPID := se_PPID ev,
                   pc_Comm := se_Comm ev, pc_Argv := se_Argv ev, pc_UID := int (se_UID ev)\<rparr>),
                ev_LearningOnly := cfg_LearningMode cfg\<rparr>)))"

section \<open>Container boundary\<close>

definition RuleSocketAccess :: string where "RuleSocketAccess = ''CONTAINER_SOCKET_ACCESS''"
definition RuleHostMount :: string where "RuleHostMount = ''CONTAINER_HOST_MOUNT''"
definition RuleRuncSelfExe :: string where "RuleRuncSelfExe = ''RUNC_SELF_EXE_WRITE''"
definition RuleCgroupRelease :: string where "RuleCgroupRelease = ''CGROUP_RELEASE_AGENT_WRITE''"
definition RulePrivilegedStart :: string where "RulePrivilegedStart = ''CONTAINER_PRIVILEGED_START''"
definition RuleLXDHostDisk :: string where "RuleLXDHostDisk = ''LXD_HOST_DISK_ATTACH''"
definition RuleNSEscapeSetns :: string where "RuleNSEscapeSetns = ''NS_ESCAPE_SETNS''"

definition containerSockets :: "string list" where
  "containerSockets = [''/var/run/docker.sock'', ''/run/docker.sock'', ''/run/containerd/containerd.sock'',
     ''/var/snap/lxd/common/lxd/unix.socket'']"

definition isContainerSocket :: "string \<Rightarrow> bool" where
  "isContainerSocket path \<longleftrightarrow> list_ex (\<lambda>s. path = s \<or> Clean path = s) containerSockets"

definition containeresc_build ::
  "(string \<Rightarrow> string) \<Rightarrow> time \<Rightarrow> Config \<Rightarrow> Pack \<Rightarrow> string \<Rightarrow> SensorEvent \<Rightarrow> AnchorInfo \<Rightarrow> string \<Rightarrow> string \<Rightarrow> string \<Rightarrow> Event" where
  "containeresc_build h clock cfg pack agentVer ev ainfo ruleID sig evidence =
     (let sigs = [sig, ''comm:'' @ se_Comm ev];
          conf = floored 70 pack ruleID sigs
      in NormalizeDedup h (zero_Event\<lparr>
           ev_SchemaVersion := SchemaVersion, ev_AgentVersion := agentVer, ev_Timestamp := when_or clock ev,
           ev_RuleID := ruleID, ev_RulePackVersion := pack_Version pack, ev_Confidence := conf,
           ev_Severity := SeverityFromConfidence conf (cfg_LearningMode cfg),
           ev_Entity := \<lparr>ent_Type = EntityProcess, ent_ID = Itoa (se_PID ev), ent_Path = se_Path ev, ent_User = []\<rparr>,
           ev_Signals := sigs, ev_Evidence := evidence, ev_Src := SrcAudit, ev_Type := TypeEvent,
           ev_Anchor := ai_Anchor ainfo, ev_ConfBand := ConfHigh\<rparr>))"

definition classify_escape_path :: "string \<Rightarrow> (string \<times> string) option" where
  "classify_escape_path path =
     (if isContainerSocket path then Some (RuleSocketAccess, ''container_socket_access'')
      else if Contains path ''release_agent'' \<or> Contains path ''notify_on_release''
      then Some (RuleCgroupRelease, ''cgroup_release_agent_write'')
      else if path = ''/proc/self/exe'' \<or> HasSuffix path ''/exe'' then Some (RuleRuncSelfExe, ''runc_self_exe_write'')
      else None)"

definition containeresc_RouteFile ::
  "(string \<Rightarrow> string) \<Rightarrow> procfs \<Rightarrow> time \<Rightarrow> Config \<Rightarrow> Pack \<Rightarrow> string \<Rightarrow> SensorEvent \<Rightarrow> Event option" where
  "containeresc_RouteFile h fs clock cfg pack agentVer ev =
     (let path = event_path ev
      in if path = [] then None
         else (case classify_escape_path path of
                 None \<Rightarrow> None
               | Some (ruleID, sig) \<Rightarrow>
                   Some (containeresc_build h clock cfg pack agentVer ev (FromPID fs (se_PID ev)) ruleID sig path)))"

definition classify_escape_exec :: "string \<Rightarrow> (string \<times> string) option" where
  "classify_escape_exec low =
     (if list_ex (Contains low) [''--privileged'', ''--pid=host'', ''--net=host'', ''-v /:/'', ''--cap-add=sys_admin'']
      then Some (RulePrivilegedStart, ''container_privileged_start'')
      else if Contains low ''lxc config device add'' \<and> Contains low ''source=/''
      then Some (RuleLXDHostDisk, ''lxd_host_disk_attach'')
      else if Contains low ''nsenter'' \<and> (Contains low ''--target 1'' \<or> Contains low ''-t 1'')
      then Some (RuleHostMount, ''container_host_mount'')
      else if Contains low ''mount'' \<and> (Contains low '' / '' \<or> Contains low ''source=/'')
      then Some (RuleHostMount, ''container_host_mount'')
      else None)"

definition containeresc_RouteExec ::
  "(string \<Rightarrow> string) \<Rightarrow> procfs \<Rightarrow> time \<Rightarrow> Config \<Rightarrow> Pack \<Rightarrow> string \<Rightarrow> SensorEvent \<Rightarrow> Event option" where
  "containeresc_RouteExec h fs clock cfg pack agentVer ev =
     (let argv = Join (se_Argv ev) '' '';
          line = (if argv = [] then gget [] (se_Extra ev) ''exe'' @ '' '' @ se_Comm ev else argv)
      in case classify_escape_exec (ToLower line) of
           None \<Rightarrow> None
         | Some (ruleID, sig) \<Rightarrow>
             Some (containeresc_build h clock cfg pack agentVer ev (FromPID fs (se_PID ev)) ruleID sig line))"

definition containeresc_RouteSetns ::
  "(string \<Rightarrow> string) \<Rightarrow> procfs \<Rightarrow> time \<Rightarrow> Config \<Rightarrow> Pack \<Rightarrow> string \<Rightarrow> SensorEvent \<Rightarrow> Event option" where
  "containeresc_RouteSetns h fs clock cfg pack agentVer ev =
     (let syscall = gget [] (se_Extra ev) ''syscall''
      in if \<not> Contains (ToLower syscall) ''setns'' \<and> se_Kind ev \<noteq> KindExec then None
         else if syscall = [] \<and> \<not> Contains (ToLower (Join (se_Argv ev) '' '')) ''setns'' then None
         else Some (containeresc_build h clock cfg pack agentVer ev (FromPID fs (se_PID ev)) RuleNSEscapeSetns
                      ''ns_escape_setns'' (se_Comm ev)))"

section \<open>Defence weakening\<close>

definition RuleApparmorComplain :: string where "RuleApparmorComplain = ''APPARMOR_COMPLAIN_MODE''"
definition RuleApparmorUsns :: string where "RuleApparmorUsns = ''APPARMOR_USERNS_RESTRICT_OFF''"
definition RuleSysctlHardening :: string where "RuleSysctlHardening = ''SYSCTL_HARDENING_OFF''"
definition RuleAuditdTamper :: string where "RuleAuditdTamper = ''AUDITD_TAMPER''"
definition RuleFirewallFlush :: string where "RuleFirewallFlush = ''FIREWALL_FLUSH''"
definition RuleSecurityStop :: string where "RuleSecurityStop = ''SECURITY_SERVICE_STOP''"
definition RuleGTFOBin :: string where "RuleGTFOBin = ''GTFOBIN_EXEC''"
definition RuleUserNS :: string where "RuleUserNS = ''USERNS_UNPRIV_CREATE''"
definition RuleExecFromTmpfs :: string where "RuleExecFromTmpfs = ''EXEC_FROM_TMPFS''"
definition RuleSnapDangerous :: string where "RuleSnapDangerous = ''SNAP_DANGEROUS_INSTALL''"
definition RuleJournalVacuum :: string where "RuleJournalVacuum = ''JOURNAL_VACUUM''"
definition RuleShellHistTamper :: string where "RuleShellHistTamper = ''SHELL_HISTORY_TAMPER''"

text \<open>Path, bad value, rule and signal of each hardening switch.\<close>

definition state_checks :: "(string \<times> string \<times> string \<times> string) list" where
  "state_checks =
     [(''/proc/sys/kernel/apparmor_restrict_unprivileged_userns'', ''0'', RuleApparmorUsns, ''apparmor_userns_off''),
      (''/proc/sys/kernel/yama/ptrace_scope'', ''0'', RuleSysctlHardening, ''yama_ptrace_scope_0''),
      (''/proc/sys/kernel/dmesg_restrict'', ''0'', RuleSysctlHardening, ''dmesg_restrict_0''),
      (''/proc/sys/kernel/kptr_restrict'', ''0'', RuleSysctlHardening, ''kptr_restrict_0''),
      (''/proc/sys/kernel/unprivileged_bpf_disabled'', ''0'', RuleSysctlHardening, ''unpriv_bpf_0''),
      (''/proc/sys/fs/protected_hardlinks'', ''0'', RuleSysctlHardening, ''protected_hardlinks_0'')]"

definition state_event ::
  "(string \<Rightarrow> string) \<Rightarrow> time \<Rightarrow> Config \<Rightarrow> bool \<Rightarrow> Pack \<Rightarrow> string \<Rightarrow> string \<times> string \<times> string \<times> string \<Rightarrow> Event" where
  "state_event h now cfg learning pack agentVer c =
     (case c of (path, bad, ruleID, sig) \<Rightarrow>
        (let sigs = [sig, ''path:'' @ path];
             conf = floored 80 pack ruleID sigs
         in NormalizeDedup h (zero_Event\<lparr>
              ev_SchemaVersion := SchemaVersion, ev_AgentVersion := agentVer, ev_Timestamp := now,
              ev_RuleID := ruleID, ev_RulePackVersion := pack_Version pack, ev_Confidence := conf,
              ev_Severity := SeverityFromConfidence conf learning,
              ev_Entity := \<lparr>ent_Type = EntityFile, ent_ID = path, ent_Path = path, ent_User = []\<rparr>,
              ev_Signals := sigs, ev_Evidence := path @ ''='' @ bad,
              ev_LearningOnly := learning \<or> conf < cfg_MinConfidenceAlert cfg,
              ev_Src := SrcAudit, ev_Type := TypeDelta, ev_ConfBand := ConfHigh\<rparr>)))"

definition defense_ScanState ::
  "(string \<Rightarrow> string) \<Rightarrow> (string \<Rightarrow> string option) \<Rightarrow> time \<Rightarrow> Config \<Rightarrow> bool \<Rightarrow> Pack \<Rightarrow> string \<Rightarrow> Event list" where
  "defense_ScanState h readFile now cfg committed pack agentVer =
     (let learning = cfg_LearningMode cfg \<or> \<not> committed
      in map (state_event h now cfg learning pack agentVer)
           (filter (\<lambda>(path, bad, _). case readFile path of None \<Rightarrow> False | Some b \<Rightarrow> TrimSpace b = bad) state_checks))"

definition isGTFOBin :: "string \<Rightarrow> bool" where
  "isGTFOBin line \<longleftrightarrow>
     Contains line ''find'' \<and> Contains line ''-exec'' \<or> Contains line ''vim'' \<and> Contains line '':!'' \<or>
     Contains line ''awk'' \<and> Contains line ''system('' \<or> Contains line ''tar'' \<and> Contains line ''--checkpoint-action=exec'' \<or>
     HasPrefix line ''env sh'' \<or> HasPrefix line ''env bash''"

definition isTmpfsExec :: "string \<Rightarrow> string \<Rightarrow> bool" where
  "isTmpfsExec path line =
     (let p = (if path = [] then (case Fields line of [] \<Rightarrow> [] | f # _ \<Rightarrow> f) else path)
      in list_ex (HasPrefix (Clean p)) [''/tmp/'', ''/var/tmp/'', ''/dev/shm/'', ''/run/user/''])"

definition classify_exec :: "string \<Rightarrow> string \<Rightarrow> (string \<times> string) option" where
  "classify_exec path line =
     (if list_ex (Contains line) [''aa-complain'', ''aa-disable'', ''apparmor_parser -r'', ''apparmor_parser -R'']
      then Some (RuleApparmorComplain, ''apparmor_complain'')
      else if list_ex (Contains line) [''auditctl -e 0'', ''auditctl -d'', ''systemctl stop auditd'', ''systemctl disable auditd'']
      then Some (RuleAuditdTamper, ''auditd_tamper'')
      else if list_ex (Contains line) [''ufw disable'', ''iptables -f'', ''nft flush ruleset'']
      then Some (RuleFirewallFlush, ''firewall_flush'')
      else if list_ex (Contains line) [''systemctl stop apparmor'', ''systemctl mask apparmor'', ''systemctl stop ufw'',
                 ''systemctl stop fail2ban'', ''systemctl stop snapd.apparmor'']
      then Some (RuleSecurityStop, ''security_service_stop'')
      else if Contains line ''snap install'' \<and> list_ex (Contains line) [''--dangerous'', ''--devmode'', ''--classic'']
      then Some (RuleSnapDangerous, ''snap_dangerous_install'')
      else if Contains line ''journalctl'' \<and> (Contains line ''--vacuum'' \<or> Contains line ''--rotate'')
      then Some (RuleJournalVacuum, ''journal_vacuum'')
      else if list_ex (Contains line) [''history -c'', ''unset histfile'', ''histfile='']
      then Some (RuleShellHistTamper, ''shell_history_tamper'')
      else if isGTFOBin line then Some (RuleGTFOBin, ''gtfobin_exec'')
      else if isTmpfsExec path line then Some (RuleExecFromTmpfs, ''exec_from_tmpfs'')
      else if Contains line ''unshare'' \<and> Contains line ''--user'' then Some (RuleUserNS, ''userns_unpriv_create'')
      else None)"

definition defense_RouteExec ::
  "(string \<Rightarrow> string) \<Rightarrow> procfs \<Rightarrow> time \<Rightarrow> Config \<Rightarrow> Pack \<Rightarrow> string \<Rightarrow> SensorEvent \<Rightarrow> Event option" where
  "defense_RouteExec h fs clock cfg pack agentVer ev =
     (let argv = ToLower (Join (se_Argv ev) '' '');
          line = (if argv = [] then ToLower (se_Comm ev @ '' '' @ se_Path ev) else argv)
      in case classify_exec (se_Path ev) line of
           None \<Rightarrow> None
         | Some (ruleID, sig) \<Rightarrow>
             (let sigs = [sig, ''comm:'' @ se_Comm ev];
                  conf = floored 65 pack ruleID sigs
              in Some (NormalizeDedup h (zero_Event\<lparr>
                   ev_SchemaVersion := SchemaVersion, ev_AgentVersion := agentVer, ev_Timestamp := when_or clock ev,
                   ev_RuleID := ruleID, ev_RulePackVersion := pack_Version pack, ev_Confidence := conf,
                   ev_Severity := SeverityFromConfidence conf (cfg_LearningMode cfg),
                   ev_Entity := \<lparr>ent_Type = EntityProcess, ent_ID = Itoa (se_PID ev), ent_Path = se_Path ev, ent_User = []\<rparr>,
                   ev_Signals := sigs, ev_Evidence := Join (se_Argv ev) '' '', ev_Src := SrcAudit, ev_Type := TypeEvent,
                   ev_Anchor := ai_Anchor (FromPID fs (se_PID ev)),
                   ev_ConfBand := (if ruleID = RuleExecFromTmpfs \<or> ruleID = RuleGTFOBin \<or> ruleID = RuleUserNS
                                   then ConfMedium else ConfHigh)\<rparr>))))"

section \<open>Page-cache poisoning\<close>

definition RuleAFAlgAEAD :: string where "RuleAFAlgAEAD = ''CVE_2026_31431_AF_ALG_AEAD''"
definition RulePageCachePois :: string where "RulePageCachePois = ''CVE_2026_31431_PAGE_CACHE_POISONING''"

definition AFAlg :: int where "AFAlg = 38"
definition SockSeqpacket :: int where "SockSeqpacket = 5"
definition sockTypeFlagMask :: int where "sockTypeFlagMask = 0x80000 OR 0x800"

definition DefaultAllowedComms :: "string list" where
  "DefaultAllowedComms = [''cryptsetup'', ''systemd-cryptse'', ''systemd-cryptsetup'', ''veritysetup'', ''integritysetup'',
     ''cryptsetup-resh'', ''kcapi-enc'', ''kcapi-dgst'', ''kcapi-rng'', ''kcapi-sym'', ''kcapi-hasher'',
     ''kcapi-hasher-sha2'', ''kcapi-hasher-sha512'']"

definition DefaultTargetSUIDBinaries :: "string list" where
  "DefaultTargetSUIDBinaries = [''/usr/bin/su'', ''/bin/su'', ''/usr/bin/sudo'', ''/usr/bin/passwd'', ''/usr/bin/chsh'',
     ''/usr/bin/chfn'', ''/usr/bin/newgrp'', ''/usr/bin/gpasswd'', ''/usr/bin/mount'', ''/usr/bin/umount'',
     ''/bin/mount'', ''/bin/umount'', ''/usr/bin/pkexec'', ''/usr/lib/openssh/ssh-keysign'']"

definition allowedCommSet :: "string list \<Rightarrow> string list" where
  "allowedCommSet extra =
     map ToLower DefaultAllowedComms @ filter (\<lambda>c. c \<noteq> []) (map (\<lambda>c. ToLower (TrimSpace c)) extra)"

definition parseHexInt :: "string \<Rightarrow> int option" where
  "parseHexInt s0 =
     (let s = TrimSpace (TrimPrefix (ToLower s0) ''0x'') in if s = [] then None else ParseHexInt 64 s)"

definition syscallSucceeded :: "(string, string) gomap \<Rightarrow> bool" where
  "syscallSucceeded extra =
     (case map_of extra ''success'' of
        Some v \<Rightarrow> EqualFold v ''yes''
      | None \<Rightarrow>
          (case map_of extra ''exit'' of
             None \<Rightarrow> True
           | Some v \<Rightarrow> (case Atoi v of Some n \<Rightarrow> n \<ge> 0 | None \<Rightarrow> True)))"

text \<open>The AEAD shape: an AF_ALG socket of type SEQPACKET, whatever the two creation flags.\<close>

definition aead_socket :: "(string, string) gomap \<Rightarrow> bool" where
  "aead_socket extra \<longleftrightarrow>
     parseHexInt (gget [] extra ''a0'') = Some AFAlg \<and>
     (case parseHexInt (gget [] extra ''a1'') of
        None \<Rightarrow> False
      | Some rawType \<Rightarrow> (rawType AND NOT sockTypeFlagMask) = SockSeqpacket) \<and>
     syscallSucceeded extra"

definition copyfail_comm :: "procfs \<Rightarrow> SensorEvent \<Rightarrow> string" where
  "copyfail_comm fs ev =
     (let comm = ToLower (TrimSpace (se_Comm ev))
      in if comm = [] \<and> se_PID ev > 0
         then (case Comm fs (se_PID ev) of Some c \<Rightarrow> ToLower (TrimSpace c) | None \<Rightarrow> comm)
         else comm)"

definition em_dash :: string where "em_dash = [CHR '' '', CHR 0xE2, CHR 0x80, CHR 0x94, CHR '' '']"

definition copyfail_RouteSensorEvent ::
  "(string \<Rightarrow> string) \<Rightarrow> procfs \<Rightarrow> time \<Rightarrow> Config \<Rightarrow> Pack \<Rightarrow> string \<Rightarrow> SensorEvent \<Rightarrow> Event option" where
  "copyfail_RouteSensorEvent h fs clock cfg pack agentVer ev =
     (if se_Kind ev \<noteq> KindSocket \<or> \<not> aead_socket (se_Extra ev) then None
      else
        (let comm = copyfail_comm fs ev
         in if comm \<in> set (allowedCommSet (cf_AllowedCommExtras (cfg_CopyFail cfg))) then None
            else
              (let sigs = [''af_alg_aead_socket'', ''sock_seqpacket'', ''comm_outside_crypto_allowlist''] @
                     (if se_PID ev > 0 \<and> (case ReadStatus fs (se_PID ev) of Some st \<Rightarrow> stt_RealUID st \<noteq> 0 | None \<Rightarrow> False)
                      then [''uid_unprivileged''] else []);
                   conf = floored 90 pack RuleAFAlgAEAD sigs;
                   learning = cfg_LearningMode cfg
               in Some (NormalizeDedup h (zero_Event\<lparr>
                    ev_SchemaVersion := SchemaVersion, ev_AgentVersion := agentVer, ev_Timestamp := clock,
                    ev_RuleID := RuleAFAlgAEAD, ev_RulePackVersion := pack_Version pack, ev_TechniqueIDs := [''T1068''],
                    ev_Tactic := ''privilege-escalation'', ev_Confidence := conf,
                    ev_Severity := SeverityFromConfidence conf learning,
                    ev_Entity := \<lparr>ent_Type = EntityProcess, ent_ID = Itoa (se_PID ev), ent_Path = ResolveExe fs (se_PID ev),
                       ent_User = []\<rparr>,
                    ev_Signals := sigs,
                    ev_Evidence := ''AF_ALG SOCK_SEQPACKET socket() opened by comm='' @ comm @ '' pid='' @ Itoa (se_PID ev) @
                       '' type=0x'' @ gget [] (se_Extra ev) ''a1'' @ em_dash @
                       ''mandatory first step of CVE-2026-31431 (Copy Fail)'',
                    ev_LearningOnly := learning\<rparr>)))))"

text \<open>
  \<open>hash1\<close> and \<open>hash2\<close> are the two reads of \<^verbatim>\<open>pageCacheVsDiskHash\<close>, before and after the cached
  pages are dropped; \<open>None\<close> is a read error.
\<close>

definition pageCacheVsDiskHash :: "(string \<Rightarrow> string option) \<Rightarrow> (string \<Rightarrow> string option) \<Rightarrow> string \<Rightarrow> (string \<times> string) option" where
  "pageCacheVsDiskHash hash1 hash2 path =
     (case hash1 path of
        None \<Rightarrow> None
      | Some c \<Rightarrow> (case hash2 path of None \<Rightarrow> None | Some d \<Rightarrow> Some (c, d)))"

definition drift_event :: "(string \<Rightarrow> string) \<Rightarrow> time \<Rightarrow> Config \<Rightarrow> Pack \<Rightarrow> string \<Rightarrow> string \<Rightarrow> string \<Rightarrow> string \<Rightarrow> Event" where
  "drift_event h now cfg pack agentVer path cacheHash diskHash =
     (let sigs = [''page_cache_disk_drift'', ''target_suid_binary''];
          conf = floored 95 pack RulePageCachePois sigs;
          learning = cfg_LearningMode cfg
      in NormalizeDedup h (zero_Event\<lparr>
           ev_SchemaVersion := SchemaVersion, ev_AgentVersion := agentVer, ev_Timestamp := now,
           ev_RuleID := RulePageCachePois, ev_RulePackVersion := pack_Version pack,
           ev_TechniqueIDs := [''T1068'', ''T1014''], ev_Tactic := ''privilege-escalation'', ev_Confidence := conf,
           ev_Severity := SeverityFromConfidence conf learning,
           ev_Entity := \<lparr>ent_Type = EntityFile, ent_ID = diskHash, ent_Path = path, ent_User = []\<rparr>,
           ev_Signals := sigs,
           ev_Evidence := ''page_cache_sha256='' @ cacheHash @ '' on_disk_sha256='' @ diskHash @ em_dash @
              ''SUID binary diverges in memory only (CVE-2026-31431 page-cache poisoning)'',
           ev_LearningOnly := learning\<rparr>))"

definition copyfail_Scan ::
  "(string \<Rightarrow> string) \<Rightarrow> (string \<Rightarrow> string option) \<Rightarrow> (string \<Rightarrow> string option) \<Rightarrow> time \<Rightarrow> Config \<Rightarrow> Pack \<Rightarrow> string \<Rightarrow> Event list" where
  "copyfail_Scan h hash1 hash2 now cfg pack agentVer =
     (let cf = cfg_CopyFail cfg
      in if \<not> cf_Enabled cf \<or> \<not> cf_PageCacheCheckEnabled cf then []
         else
           (let targets = (if cf_TargetSUIDBinaries cf = [] then DefaultTargetSUIDBinaries else cf_TargetSUIDBinaries cf)
            in List.map_filter (\<lambda>path. case pageCacheVsDiskHash hash1 hash2 path of
                  None \<Rightarrow> None
                | Some (c, d) \<Rightarrow> if c = d then None else Some (drift_event h now cfg pack agentVer path c d)) targets))"

section \<open>Writes below a document root\<close>

definition RuleDocrootExecWrite :: string where "RuleDocrootExecWrite = ''WEB_DOCROOT_EXEC_WRITE''"
definition RuleUploadDirExec :: string where "RuleUploadDirExec = ''WEB_UPLOAD_DIR_EXEC''"

definition interpretableExt :: "string list" where
  "interpretableExt = [''.php'', ''.jsp'', ''.jspx'', ''.phar'', ''.aspx'', ''.py'', ''.cgi'', ''.phtml'']"

definition uploadDirHints :: "string list" where
  "uploadDirHints = [''uploads'', ''tmp'', ''cache'', ''temp'', ''upload'']"

definition underDocroot :: "string \<Rightarrow> string list \<Rightarrow> bool" where
  "underDocroot path roots =
     (let clean = Clean path
      in list_ex (\<lambda>r0. let r = Clean r0 in r \<noteq> [] \<and> (clean = r \<or> HasPrefix clean (r @ ''/''))) roots)"

definition inUploadDir :: "string \<Rightarrow> bool" where
  "inUploadDir path \<longleftrightarrow> list_ex (\<lambda>p. p \<in> set uploadDirHints) (SplitByte (ToLower path) (CHR ''/''))"

definition web_RouteDocrootWrite ::
  "(string \<Rightarrow> string) \<Rightarrow> procfs \<Rightarrow> time \<Rightarrow> Config \<Rightarrow> Pack \<Rightarrow> string \<Rightarrow> SensorEvent \<Rightarrow> Event option" where
  "web_RouteDocrootWrite h fs clock cfg pack agentVer ev =
     (let path = event_path ev;
          ainfo = FromPID fs (se_PID ev)
      in if path = [] \<or> ToLower (Ext path) \<notin> set interpretableExt \<or> \<not> underDocroot path (cfg_DocumentRoots cfg) then None
         else if \<not> IsWatchedUnit (ai_SystemdUnit ainfo) (cfg_WatchedUnits cfg) \<and> ai_SystemdUnit ainfo = [] then None
         else
           (let (ruleID, sig) = (if inUploadDir path then (RuleUploadDirExec, ''web_upload_dir_exec'')
                                 else (RuleDocrootExecWrite, ''web_docroot_exec_write''));
                sigs = [sig, ''path:'' @ path, ''comm:'' @ se_Comm ev];
                conf = floored 80 pack ruleID sigs
            in Some (NormalizeDedup h (zero_Event\<lparr>
                 ev_SchemaVersion := SchemaVersion, ev_AgentVersion := agentVer, ev_Timestamp := when_or clock ev,
                 ev_RuleID := ruleID, ev_RulePackVersion := pack_Version pack, ev_Confidence := conf,
                 ev_Severity := SeverityFromConfidence conf (cfg_LearningMode cfg),
                 ev_Entity := \<lparr>ent_Type = EntityFile, ent_ID = path, ent_Path = path, ent_User = []\<rparr>,
                 ev_Signals := sigs, ev_Evidence := path, ev_Src := SrcAudit, ev_Type := TypeEvent,
                 ev_Anchor := ai_Anchor ainfo, ev_ConfBand := ConfHigh\<rparr>))))"

section \<open>The routes keep the contract\<close>

definition of_option :: "'a option \<Rightarrow> 'a list" where
  "of_option x = (case x of None \<Rightarrow> [] | Some a \<Rightarrow> [a])"

lemma set_of_option [simp]: "x \<in> set (of_option o') \<longleftrightarrow> o' = Some x"
  by (cases o') (auto simp: of_option_def)

lemmas route_simps = zero_Event_def Let_def floored_ge floored_le Score_le_100

definition live_rules :: "string list" where
  "live_rules = [RulePtrace, RuleMemfdCreate, RuleInitModule]"

definition escape_rules :: "string list" where
  "escape_rules = [RuleSocketAccess, RuleHostMount, RuleRuncSelfExe, RuleCgroupRelease, RulePrivilegedStart,
     RuleLXDHostDisk, RuleNSEscapeSetns]"

definition defense_rules :: "string list" where
  "defense_rules = [RuleApparmorComplain, RuleApparmorUsns, RuleSysctlHardening, RuleAuditdTamper, RuleFirewallFlush,
     RuleSecurityStop, RuleGTFOBin, RuleUserNS, RuleExecFromTmpfs, RuleSnapDangerous, RuleJournalVacuum, RuleShellHistTamper]"

lemma live_class_rules: "live_class k = Some (r, s, t, u) \<Longrightarrow> r \<in> set live_rules"
  by (auto simp: live_class_def live_rules_def split: if_splits)

interpretation sensorlive: reporter h pack agentVer
    "\<lambda>ev. of_option (sensorlive_RouteSensorEvent clock cfg pack agentVer ev)" live_rules
  for h pack agentVer clock cfg
proof
  fix e ev assume "e \<in> set (of_option (sensorlive_RouteSensorEvent clock cfg pack agentVer ev))"
  then show "finding_ok h pack agentVer live_rules e"
    by (auto simp: sensorlive_RouteSensorEvent_def split_beta route_simps live_class_rules
        intro!: finding_okI split: option.splits)
qed

lemma escape_path_rules: "classify_escape_path p = Some (r, s) \<Longrightarrow> r \<in> set escape_rules"
  and escape_exec_rules: "classify_escape_exec p = Some (r, s) \<Longrightarrow> r \<in> set escape_rules"
  by (auto simp: classify_escape_path_def classify_escape_exec_def escape_rules_def split: if_splits)

lemma containeresc_build_ok:
  assumes "r \<in> set escape_rules"
  shows "finding_ok h pack agentVer escape_rules (containeresc_build h clock cfg pack agentVer ev ai r s x)"
    and "70 \<le> ev_Confidence (containeresc_build h clock cfg pack agentVer ev ai r s x)"
  using assms by (auto simp: containeresc_build_def route_simps intro!: finding_okI)

definition containeresc_routes ::
  "(string \<Rightarrow> string) \<Rightarrow> procfs \<Rightarrow> time \<Rightarrow> Config \<Rightarrow> Pack \<Rightarrow> string \<Rightarrow> SensorEvent \<Rightarrow> Event list" where
  "containeresc_routes h fs clock cfg pack agentVer ev =
     of_option (containeresc_RouteFile h fs clock cfg pack agentVer ev) @
     of_option (containeresc_RouteExec h fs clock cfg pack agentVer ev) @
     of_option (containeresc_RouteSetns h fs clock cfg pack agentVer ev)"

lemma containeresc_routes_build:
  assumes "e \<in> set (containeresc_routes h fs clock cfg pack agentVer ev)"
  shows "\<exists>ai r s x. r \<in> set escape_rules \<and> e = containeresc_build h clock cfg pack agentVer ev ai r s x"
proof -
  have "RuleNSEscapeSetns \<in> set escape_rules" by (simp add: escape_rules_def)
  with assms show ?thesis
    by (auto simp: containeresc_routes_def containeresc_RouteFile_def containeresc_RouteExec_def containeresc_RouteSetns_def
        Let_def split: if_splits option.splits dest!: escape_path_rules escape_exec_rules)
qed

interpretation containeresc: detector h pack agentVer "containeresc_routes h fs clock cfg pack agentVer" escape_rules 70
  for h pack agentVer fs clock cfg
  by unfold_locales (auto dest!: containeresc_routes_build simp: containeresc_build_ok)

lemma classify_exec_rules: "classify_exec p l = Some (r, s) \<Longrightarrow> r \<in> set defense_rules"
  by (auto simp: classify_exec_def defense_rules_def split: if_splits)

interpretation defense_exec: detector h pack agentVer "\<lambda>ev. of_option (defense_RouteExec h fs clock cfg pack agentVer ev)" defense_rules 65
  for h pack agentVer fs clock cfg
  by unfold_locales
    (auto simp: defense_RouteExec_def route_simps dest!: classify_exec_rules
      intro!: finding_okI split: option.splits prod.splits)

lemma state_checks_rules: "(path, bad, r, s) \<in> set state_checks \<Longrightarrow> r \<in> set defense_rules"
  by (auto simp: state_checks_def defense_rules_def)

interpretation defense_state: detector h pack agentVer
    "\<lambda>committed. defense_ScanState h readFile now cfg committed pack agentVer" defense_rules 80
  for h pack agentVer readFile now cfg
  by unfold_locales
    (auto simp: defense_ScanState_def state_event_def route_simps dest!: state_checks_rules
      intro!: finding_okI split: prod.splits)

interpretation copyfail_live: detector h pack agentVer
    "\<lambda>ev. of_option (copyfail_RouteSensorEvent h fs clock cfg pack agentVer ev)" "[RuleAFAlgAEAD]" 90
  for h pack agentVer fs clock cfg
  by unfold_locales
    (auto simp: copyfail_RouteSensorEvent_def route_simps intro!: finding_okI split: if_splits)

lemma drift_event_ok:
  "finding_ok h pack agentVer [RulePageCachePois] (drift_event h now cfg pack agentVer path c d)"
  "95 \<le> ev_Confidence (drift_event h now cfg pack agentVer path c d)"
  by (auto simp: drift_event_def route_simps intro!: finding_okI)

definition copyfail_targets :: "Config \<Rightarrow> string list" where
  "copyfail_targets cfg =
     (if \<not> cf_Enabled (cfg_CopyFail cfg) \<or> \<not> cf_PageCacheCheckEnabled (cfg_CopyFail cfg) then []
      else if cf_TargetSUIDBinaries (cfg_CopyFail cfg) = [] then DefaultTargetSUIDBinaries
      else cf_TargetSUIDBinaries (cfg_CopyFail cfg))"

lemma copyfail_Scan_iff:
  "e \<in> set (copyfail_Scan h hash1 hash2 now cfg pack agentVer) \<longleftrightarrow>
   (\<exists>path \<in> set (copyfail_targets cfg). \<exists>c d. hash1 path = Some c \<and> hash2 path = Some d \<and> c \<noteq> d \<and>
      e = drift_event h now cfg pack agentVer path c d)"
proof -
  let ?f = "\<lambda>path. case pageCacheVsDiskHash hash1 hash2 path of
      None \<Rightarrow> None | Some (c, d) \<Rightarrow> if c = d then None else Some (drift_event h now cfg pack agentVer path c d)"
  have f: "?f path = Some e \<longleftrightarrow> (\<exists>c d. hash1 path = Some c \<and> hash2 path = Some d \<and> c \<noteq> d \<and>
      e = drift_event h now cfg pack agentVer path c d)" for path
    by (cases "hash1 path"; cases "hash2 path") (auto simp: pageCacheVsDiskHash_def)
  have "copyfail_Scan h hash1 hash2 now cfg pack agentVer = List.map_filter ?f (copyfail_targets cfg)"
    by (simp add: copyfail_Scan_def copyfail_targets_def Let_def map_filter_def)
  then show ?thesis by (simp only: map_filter_Some f)
qed

interpretation copyfail_scan: detector h pack agentVer
    "\<lambda>(hash1, hash2). copyfail_Scan h hash1 hash2 now cfg pack agentVer" "[RulePageCachePois]" 95
  for h pack agentVer now cfg
  by unfold_locales (auto simp: copyfail_Scan_iff drift_event_ok split: prod.splits)

interpretation docroot: detector h pack agentVer
    "\<lambda>ev. of_option (web_RouteDocrootWrite h fs clock cfg pack agentVer ev)" "[RuleDocrootExecWrite, RuleUploadDirExec]" 80
  for h pack agentVer fs clock cfg
  by unfold_locales
    (auto simp: web_RouteDocrootWrite_def route_simps intro!: finding_okI split: if_splits prod.splits)

section \<open>What the routes recognise\<close>

text \<open>
  The route of a document root cannot be left by dot-dot components: the cleaned path of every
  event is the cleaned root, or continues it by clean components.
\<close>

lemma underDocroot_inside:
  assumes "underDocroot path roots" "HasPrefix path ''/''"
  shows "\<exists>r \<in> set roots. \<exists>ps. list_all clean_part ps \<and> Clean path = CHR ''/'' # Join ps ''/'' \<and>
    (Clean path = Clean r \<or> HasPrefix (Clean path) (Clean r @ ''/''))"
  using assms Clean_rooted [OF assms(2)] by (auto simp: underDocroot_def Let_def list_ex_iff)

lemma RouteDocrootWrite_Some:
  assumes "web_RouteDocrootWrite h fs clock cfg pack agentVer ev = Some e"
  shows "ent_Path (ev_Entity e) = event_path ev \<and> underDocroot (event_path ev) (cfg_DocumentRoots cfg) \<and>
    ToLower (Ext (event_path ev)) \<in> set interpretableExt \<and> ai_SystemdUnit (FromPID fs (se_PID ev)) \<noteq> []"
  using assms by (auto simp: web_RouteDocrootWrite_def Let_def IsWatchedUnit_def split: if_splits prod.splits)

lemma RouteSensorEvent_live_iff:
  "(\<exists>e. sensorlive_RouteSensorEvent clock cfg pack agentVer ev = Some e) \<longleftrightarrow>
   se_Kind ev \<in> {KindPtrace, KindMemfdCreate, KindInitModule}"
  by (auto simp: sensorlive_RouteSensorEvent_def live_class_def kind_defs split_beta Let_def)

text \<open>The creation flags of the socket type do not hide the AEAD shape.\<close>

lemma seqpacket_flags:
  fixes t :: int
  shows "((t OR sockTypeFlagMask) AND NOT sockTypeFlagMask) = (t AND NOT sockTypeFlagMask)"
  by (rule bit_eqI) (auto simp: bit_simps)

end
