(* ===== verification/GC_Credential.thy ===== *)
theory GC_Credential
  imports GC_Routes
begin

text \<open>
  Credential access, \<^verbatim>\<open>detect/credential/credential.go\<close>: the classification of sensitive paths,
  the route of an \<^verbatim>\<open>openat\<close> record with its counter of accesses per process, and the route of
  cross-process memory reads. The package variable \<^verbatim>\<open>mass\<close> is passed in and returned.
\<close>

section \<open>Routes\<close>

definition RuleShadowRead :: string where "RuleShadowRead = ''SHADOW_READ_ANOMALY''"
definition RuleSSHPrivKey :: string where "RuleSSHPrivKey = ''SSH_PRIVKEY_ACCESS''"
definition RuleSSHAgentAbuse :: string where "RuleSSHAgentAbuse = ''SSH_AGENT_SOCKET_ABUSE''"
definition RuleCloudCred :: string where "RuleCloudCred = ''CLOUD_CRED_FILE_ACCESS''"
definition RuleAppSecret :: string where "RuleAppSecret = ''APP_SECRET_HARVEST''"
definition RuleMemReadCross :: string where "RuleMemReadCross = ''PROC_MEM_READ_CROSS_UID''"
definition RuleCredMassAccess :: string where "RuleCredMassAccess = ''CRED_MASS_FILE_ACCESS''"

definition expectedShadowReaders :: "string list" where
  "expectedShadowReaders = [''unix_chkpwd'', ''passwd'', ''chage'', ''login'', ''sshd'', ''sudo'', ''su'', ''pam'']"

type_synonym massCounter = "(int, time list) gomap"

definition trackMass :: "massCounter \<Rightarrow> int \<Rightarrow> time \<Rightarrow> bool \<times> massCounter" where
  "trackMass hits pid now =
     (let cut = now - 60 * second;
          kept = filter (\<lambda>t. cut < t) (gget [] hits pid) @ [now]
      in (length kept > 8, gput pid kept hits))"

definition classifyCredPath :: "string \<Rightarrow> (string \<times> string) option" where
  "classifyCredPath path =
     (let base = Base path
      in if path = ''/etc/shadow'' \<or> path = ''/etc/gshadow'' then Some (RuleShadowRead, ''shadow_read'')
         else if Contains path ''/.ssh/id_'' \<or> HasPrefix path ''/etc/ssh/ssh_host_'' \<and> HasSuffix path ''_key''
         then Some (RuleSSHPrivKey, ''ssh_privkey_access'')
         else if Contains path ''/.aws/credentials'' \<or> Contains path ''/.config/gcloud/'' \<or> Contains path ''/.azure/'' \<or>
                 HasSuffix path ''/.kube/config'' \<or> Contains path ''/var/lib/kubelet/''
         then Some (RuleCloudCred, ''cloud_cred_file_access'')
         else if base \<in> {''.env'', ''wp-config.php'', ''settings.py'', ''application.properties''} \<or> path = ''/etc/mysql/debian.cnf''
         then Some (RuleAppSecret, ''app_secret_harvest'')
         else if Contains path ''/tmp/ssh-'' \<and> Contains path ''agent.'' then Some (RuleSSHAgentAbuse, ''ssh_agent_socket_abuse'')
         else if HasPrefix path ''/proc/'' \<and> HasSuffix path ''/mem'' then Some (RuleMemReadCross, ''proc_mem_read'')
         else None)"

definition access_signals :: "SensorEvent \<Rightarrow> AnchorInfo \<Rightarrow> string \<Rightarrow> string \<Rightarrow> string list" where
  "access_signals ev ainfo path sig =
     [sig, ''path:'' @ path, ''comm:'' @ se_Comm ev] @
     (if ai_SystemdUnit ainfo \<noteq> [] then [''unit:'' @ ai_SystemdUnit ainfo] else [])"

text \<open>The event of one access, before the counter is consulted.\<close>

definition access_event ::
  "(string \<Rightarrow> string) \<Rightarrow> time \<Rightarrow> Config \<Rightarrow> Pack \<Rightarrow> string \<Rightarrow> SensorEvent \<Rightarrow> AnchorInfo \<Rightarrow> string \<Rightarrow> string \<Rightarrow> string list \<Rightarrow> Event" where
  "access_event h now cfg pack agentVer ev ainfo path ruleID sigs =
     (let conf = floored 70 pack ruleID sigs
      in NormalizeDedup h (zero_Event\<lparr>
           ev_SchemaVersion := SchemaVersion, ev_AgentVersion := agentVer, ev_Timestamp := now,
           ev_RuleID := ruleID, ev_RulePackVersion := pack_Version pack, ev_Confidence := conf,
           ev_Severity := SeverityFromConfidence conf (cfg_LearningMode cfg),
           ev_Entity := \<lparr>ent_Type = EntityFile, ent_ID = path, ent_Path = path, ent_User = []\<rparr>,
           ev_Signals := sigs, ev_Evidence := path @ '' opened by '' @ se_Comm ev, ev_Src := SrcAudit, ev_Type := TypeEvent,
           ev_Anchor := ai_Anchor ainfo, ev_ConfBand := ConfHigh,
           ev_Process := Some (zero_ProcessContext\<lparr>pc_PID := se_PID ev, pc_Comm := se_Comm ev, pc_UID := int (se_UID ev),
              pc_Cgroup := ai_CgroupPath ainfo, pc_SystemdUnit := ai_SystemdUnit ainfo\<rparr>)\<rparr>))"

text \<open>The copy of it that reports a mass access.\<close>

definition mass_event :: "(string \<Rightarrow> string) \<Rightarrow> Event \<Rightarrow> Event" where
  "mass_event h out =
     NormalizeDedup h (out\<lparr>ev_RuleID := RuleCredMassAccess, ev_Signals := ''cred_mass_file_access'' # ev_Signals out,
       ev_ConfBand := ConfMedium\<rparr>)"

definition credential_RouteOpenat ::
  "(string \<Rightarrow> string) \<Rightarrow> procfs \<Rightarrow> time \<Rightarrow> Config \<Rightarrow> Pack \<Rightarrow> string \<Rightarrow> massCounter \<Rightarrow> SensorEvent \<Rightarrow> Event option \<times> massCounter" where
  "credential_RouteOpenat h fs clock cfg pack agentVer hits ev =
     (let path = event_path ev
      in if path = [] then (None, hits)
         else
           (case classifyCredPath path of
              None \<Rightarrow> (None, hits)
            | Some (ruleID, sig) \<Rightarrow>
                (let ainfo = FromPID fs (se_PID ev)
                 in if IsWatchedUnit (ai_SystemdUnit ainfo) (cfg_FPAllowlistUnits cfg) then (None, hits)
                    else if ruleID = RuleShadowRead \<and> ToLower (se_Comm ev) \<in> set expectedShadowReaders then (None, hits)
                    else
                      (let sigs = access_signals ev ainfo path sig;
                           now = when_or clock ev;
                           out = access_event h now cfg pack agentVer ev ainfo path ruleID sigs;
                           (many, hits') = trackMass hits (se_PID ev) now
                       in (Some (if many then mass_event h out else out), hits')))))"

definition credential_RoutePtraceMem ::
  "(string \<Rightarrow> string) \<Rightarrow> procfs \<Rightarrow> time \<Rightarrow> Config \<Rightarrow> Pack \<Rightarrow> string \<Rightarrow> SensorEvent \<Rightarrow> Event option" where
  "credential_RoutePtraceMem h fs clock cfg pack agentVer ev =
     (let request = gget [] (se_Extra ev) ''request''
      in if se_Kind ev \<noteq> KindPtrace then None
         else if request \<noteq> [] \<and> \<not> Contains (ToLower request) ''peek'' \<and> \<not> Contains (ToLower request) ''read'' then None
         else
           (let sigs = [''proc_mem_read_cross_uid'', ''comm:'' @ se_Comm ev];
                conf = floored 75 pack RuleMemReadCross sigs
            in Some (NormalizeDedup h (zero_Event\<lparr>
                 ev_SchemaVersion := SchemaVersion, ev_AgentVersion := agentVer, ev_Timestamp := clock,
                 ev_RuleID := RuleMemReadCross, ev_RulePackVersion := pack_Version pack, ev_Confidence := conf,
                 ev_Severity := SeverityFromConfidence conf (cfg_LearningMode cfg),
                 ev_Entity := \<lparr>ent_Type = EntityProcess, ent_ID = Itoa (se_PID ev), ent_Path = [], ent_User = []\<rparr>,
                 ev_Signals := sigs, ev_Evidence := ''ptrace/mem read by '' @ se_Comm ev, ev_Src := SrcAudit,
                 ev_Type := TypeEvent, ev_Anchor := ai_Anchor (FromPID fs (se_PID ev)), ev_ConfBand := ConfHigh\<rparr>))))"

section \<open>The counter\<close>

text \<open>The answers of the counter on a sequence of accesses, each a process and a time.\<close>

fun track_run :: "massCounter \<Rightarrow> (int \<times> time) list \<Rightarrow> bool list" where
  "track_run hits [] = []"
| "track_run hits ((pid, t) # rs) = (let (b, hits') = trackMass hits pid t in b # track_run hits' rs)"

definition accesses :: "(int \<times> time) list \<Rightarrow> int \<Rightarrow> time \<Rightarrow> nat" where
  "accesses hist pid t = length (filter (\<lambda>(p, s). p = pid \<and> t - 60 * second < s) hist)"

text \<open>What the counter keeps is enough: from time \<open>T\<close> on it sees every access of the last minute.\<close>

definition mass_rel :: "(int \<times> time) list \<Rightarrow> massCounter \<Rightarrow> time \<Rightarrow> bool" where
  "mass_rel hist hits T \<longleftrightarrow>
     (\<forall>p t. T \<le> t \<longrightarrow> length (filter (\<lambda>s. t - 60 * second < s) (gget [] hits p)) = accesses hist p t)"

lemma trackMass_verdict:
  assumes "mass_rel hist hits T" "T \<le> t"
  shows "fst (trackMass hits pid t) \<longleftrightarrow> 8 < accesses (hist @ [(pid, t)]) pid t"
  using assms by (simp add: mass_rel_def trackMass_def Let_def accesses_def duration_defs)

lemma trackMass_rel:
  assumes "mass_rel hist hits T" "T \<le> t"
  shows "mass_rel (hist @ [(pid, t)]) (snd (trackMass hits pid t)) t"
  unfolding mass_rel_def
proof (intro allI impI)
  fix p u assume u: "t \<le> u"
  have *: "(t - 60 * second < s \<and> u - 60 * second < s) = (u - 60 * second < s)" for s using u by auto
  have "length (filter (\<lambda>s. u - 60 * second < s) (gget [] hits p)) = accesses hist p u"
    using assms u by (simp add: mass_rel_def)
  then show "length (filter (\<lambda>s. u - 60 * second < s) (gget [] (snd (trackMass hits pid t)) p)) =
      accesses (hist @ [(pid, t)]) p u"
    by (auto simp: trackMass_def Let_def accesses_def gget_gput * conj_commute)
qed

lemma track_run_accesses:
  assumes "mass_rel hist hits T" "sorted (T # map snd rs)" "i < length rs"
  shows "track_run hits rs ! i \<longleftrightarrow> 8 < accesses (hist @ take (Suc i) rs) (fst (rs ! i)) (snd (rs ! i))"
  using assms
proof (induction rs arbitrary: hist hits T i)
  case (Cons r rs)
  obtain pid t where r: "r = (pid, t)" by (cases r)
  have T: "T \<le> t" "sorted (t # map snd rs)" using Cons.prems(2) by (simp_all add: r)
  show ?case
  proof (cases i)
    case 0
    then show ?thesis using trackMass_verdict [OF Cons.prems(1) T(1), of pid] by (simp add: r split_beta Let_def)
  next
    case (Suc j)
    then show ?thesis
      using Cons.IH [OF trackMass_rel [OF Cons.prems(1) T(1), of pid] T(2), of j] Cons.prems(3)
      by (simp add: r split_beta Let_def)
  qed
qed simp

section \<open>Contract and correctness\<close>

definition credential_rules :: "string list" where
  "credential_rules = [RuleShadowRead, RuleSSHPrivKey, RuleSSHAgentAbuse, RuleCloudCred, RuleAppSecret, RuleMemReadCross]"

lemma classifyCredPath_rules: "classifyCredPath p = Some (r, s) \<Longrightarrow> r \<in> set credential_rules"
  by (auto simp: classifyCredPath_def credential_rules_def Let_def split: if_splits)

interpretation ptrace_mem: detector h pack agentVer
    "\<lambda>ev. of_option (credential_RoutePtraceMem h fs clock cfg pack agentVer ev)" "[RuleMemReadCross]" 75
  for h pack agentVer fs clock cfg
  by unfold_locales
    (auto simp: credential_RoutePtraceMem_def route_simps intro!: finding_okI split: if_splits)

lemma access_event_ok:
  assumes "r \<in> set credential_rules" "sigs \<noteq> []"
  shows "finding_ok h pack agentVer credential_rules (access_event h now cfg pack agentVer ev ai path r sigs)"
    and "70 \<le> ev_Confidence (access_event h now cfg pack agentVer ev ai path r sigs)"
  using assms by (auto simp: access_event_def route_simps intro!: finding_okI)

text \<open>A single access keeps the contract; a mass access differs from it in the key.\<close>

lemma RouteOpenat_cases:
  assumes "credential_RouteOpenat h fs clock cfg pack agentVer hits ev = (Some e, hits')"
  shows "\<exists>r sigs. r \<in> set credential_rules \<and> sigs \<noteq> [] \<and>
    hits' = snd (trackMass hits (se_PID ev) (when_or clock ev)) \<and>
    e = (if fst (trackMass hits (se_PID ev) (when_or clock ev)) then mass_event h else id)
       (access_event h (when_or clock ev) cfg pack agentVer ev (FromPID fs (se_PID ev)) (event_path ev) r sigs)"
proof -
  from assms obtain r sig where c: "classifyCredPath (event_path ev) = Some (r, sig)"
    by (auto simp: credential_RouteOpenat_def Let_def split: if_splits option.splits)
  have "access_signals ev (FromPID fs (se_PID ev)) (event_path ev) sig \<noteq> []" by (simp add: access_signals_def)
  with assms classifyCredPath_rules [OF c] show ?thesis
    by (intro exI [of _ r] exI [of _ "access_signals ev (FromPID fs (se_PID ev)) (event_path ev) sig"])
      (auto simp: credential_RouteOpenat_def Let_def c split_beta split: if_splits)
qed

text \<open>
  Mass credential access is recognised exactly: over any sequence of sensitive accesses with a
  monotone clock, the counter answers yes for an access exactly when, with it, the process made more
  than eight of them in the last minute, whatever the counter has pruned.
\<close>

theorem mass_access_exact:
  assumes "sorted (map snd rs)" "i < length rs"
  shows "track_run [] rs ! i \<longleftrightarrow> 8 < accesses (take (Suc i) rs) (fst (rs ! i)) (snd (rs ! i))"
proof -
  obtain T where T: "sorted (T # map snd rs)" using assms by (cases rs) auto
  have "mass_rel [] [] T" by (simp add: mass_rel_def accesses_def gget_def)
  from track_run_accesses [OF this T assms(2)] show ?thesis by simp
qed

theorem mass_access_exact_witness:
  "track_run [] (map (\<lambda>i. (7, i * second)) [1 .. 9]) ! 8 \<and>
   8 < accesses (take 9 (map (\<lambda>i. (7, i * second)) [1 .. 9])) 7 (9 * second)"
proof -
  have u: "[1 .. 9] = [1, 2, 3, 4, 5, 6, 7, 8, 9::int]" by (simp add: upto.simps)
  have "8 < accesses (take 9 (map (\<lambda>i. (7, i * second)) [1 .. 9])) 7 (9 * second)"
    by (simp add: u accesses_def duration_defs)
  moreover have "sorted (map snd (map (\<lambda>i. (7::int, i * second)) [1 .. 9]))" by (simp add: u duration_defs)
  ultimately show ?thesis
    using mass_access_exact [of "map (\<lambda>i. (7, i * second)) [1 .. 9]" 8] by (simp add: u)
qed

section \<open>Deviations\<close>

text \<open>
  The event of a mass access keeps the deduplication key of the single access it was copied from:
  normalising does not replace a key that is present. Where that file was reported before, the mass
  access is suppressed as its duplicate.
\<close>

lemma mass_event_key:
  assumes "\<forall>s. h s \<noteq> []"
  shows "ev_DedupKey (mass_event h (access_event h now cfg pack agentVer ev ai path r sigs)) =
    ev_DedupKey (access_event h now cfg pack agentVer ev ai path r sigs)"
  using assms by (simp add: mass_event_def access_event_def NormalizeDedup_def Let_def)

text \<open>Live credential findings are full alerts even in learning mode.\<close>

lemma credential_ignores_learning:
  assumes "credential_RouteOpenat h fs clock cfg pack agentVer hits ev = (Some e, hits')"
  shows "\<not> ev_LearningOnly e"
proof -
  have "\<not> ev_LearningOnly (access_event h now cfg pack agentVer ev ai path r sigs)" for now ai path r sigs
    by (simp add: access_event_def Let_def zero_Event_def)
  moreover have "ev_LearningOnly (mass_event h x) = ev_LearningOnly x" for x by (simp add: mass_event_def)
  ultimately show ?thesis using RouteOpenat_cases [OF assms] by (auto split: if_splits)
qed

end
