(* ===== verification/GC_Network.thy ===== *)
theory GC_Network
  imports GC_Routes GC_Intel
begin

text \<open>
  The network detector: the socket tables of \<^verbatim>\<open>procfs/nettcp.go\<close> and the scan of
  \<^verbatim>\<open>detect/network/network.go\<close>. The socket tables and the descriptors of a process are arguments;
  the package variables of the detector, the known listeners and the cache of socket owners, are
  the record \<open>netstate\<close>.
\<close>

section \<open>Socket tables\<close>

definition TCPEstablished :: nat where "TCPEstablished = 1"
definition TCPSynSent :: nat where "TCPSynSent = 2"
definition TCPListen :: nat where "TCPListen = 10"

record SocketRow =
  sk_Proto :: string
  sk_Local :: ip
  sk_LocalP :: int
  sk_Remote :: ip
  sk_RemoteP :: int
  sk_State :: nat
  sk_Inode :: nat
  sk_UID :: nat

text \<open>\<^verbatim>\<open>hex.DecodeString\<close>: an odd number of digits is an error.\<close>

definition DecodeHex :: "string \<Rightarrow> nat list option" where
  "DecodeHex s = (if odd (length s) then None else hex_bytes s)"

text \<open>The bytes of each 32-bit group, turned round.\<close>

fun swap_groups :: "'a list \<Rightarrow> 'a list" where
  "swap_groups (a # b # c # d # r) = d # c # b # a # swap_groups r"
| "swap_groups r = r"

definition parseHexAddr :: "string \<Rightarrow> (ip \<times> int) option" where
  "parseHexAddr s =
     (case IndexByte s (CHR '':'') of
        None \<Rightarrow> None
      | Some i \<Rightarrow>
          (case ParseHexInt 32 (drop (Suc i) s) of
             None \<Rightarrow> None
           | Some port \<Rightarrow>
               (case DecodeHex (take i s) of
                  None \<Rightarrow> None
                | Some raw \<Rightarrow> if length raw = 4 \<or> length raw = 16 then Some (swap_groups raw, port) else None)))"

text \<open>\<^verbatim>\<open>strconv.ParseUint(s, 10, 64)\<close> with its error dropped.\<close>

definition ParseUint64Value :: "string \<Rightarrow> nat" where
  "ParseUint64Value s = (if s = [] \<or> \<not> list_all is_digit s then 0 else min (digits_val 0 s) (2 ^ 64 - 1))"

definition parseSocketLine :: "string \<Rightarrow> string \<Rightarrow> SocketRow option" where
  "parseSocketLine proto line =
     (let fields = Fields line
      in if length fields < 10 then None
         else
           (case parseHexAddr (fields ! 1) of
              None \<Rightarrow> None
            | Some (lip, lp) \<Rightarrow>
                (case parseHexAddr (fields ! 2) of
                   None \<Rightarrow> None
                 | Some (rip, rp) \<Rightarrow>
                     (case ParseHexUint 8 (fields ! 3) of
                        None \<Rightarrow> None
                      | Some st \<Rightarrow>
                          Some \<lparr>sk_Proto = proto, sk_Local = lip, sk_LocalP = lp, sk_Remote = rip, sk_RemoteP = rp,
                                sk_State = st, sk_Inode = ParseUint64Value (fields ! 9),
                                sk_UID = ParseUint32Value (fields ! 7)\<rparr>))))"

text \<open>The header line is skipped; \<open>None\<close> is an error of the file or the scanner.\<close>

definition readSocketFile :: "(string \<Rightarrow> string option) \<Rightarrow> string \<Rightarrow> SocketRow list option" where
  "readSocketFile readFile path =
     (let proto = (if path = ''/proc/net/tcp6'' then ''tcp6'' else if path = ''/proc/net/udp'' then ''udp''
                   else if path = ''/proc/net/udp6'' then ''udp6'' else ''tcp'')
      in case readFile path of
           None \<Rightarrow> None
         | Some b \<Rightarrow> if scan_error b then None else Some (List.map_filter (parseSocketLine proto) (tl (scan_lines b))))"

definition ReadNetSockets :: "(string \<Rightarrow> string option) \<Rightarrow> SocketRow list option" where
  "ReadNetSockets readFile =
     (let out = concat (map (\<lambda>p. case readSocketFile readFile p of None \<Rightarrow> [] | Some rows \<Rightarrow> rows)
                  [''/proc/net/tcp'', ''/proc/net/tcp6'', ''/proc/net/udp'', ''/proc/net/udp6''])
      in if out = [] then None else Some out)"

text \<open>\<open>fds pid\<close>: the link targets below \<^verbatim>\<open>/proc/pid/fd\<close>, \<open>None\<close> where a link cannot be read.\<close>

definition socket_inode :: "string \<Rightarrow> nat option" where
  "socket_inode target =
     (if HasPrefix target ''socket:['' then ParseUint64 (TrimSuffix (TrimPrefix target ''socket:['') '']'') else None)"

definition SocketInodes :: "(int \<Rightarrow> string option list option) \<Rightarrow> int \<Rightarrow> nat list option" where
  "SocketInodes fds pid =
     map_option (List.map_filter (\<lambda>t. case t of None \<Rightarrow> None | Some s \<Rightarrow> socket_inode s)) (fds pid)"

section \<open>State\<close>

record netstate =
  ns_known :: "string list"
  ns_primed :: bool
  ns_owners :: "(nat, int) gomap option"
  ns_ownersAt :: time

definition zero_netstate :: netstate where
  "zero_netstate = \<lparr>ns_known = [], ns_primed = False, ns_owners = None, ns_ownersAt = 0\<rparr>"

definition inodeCacheTTL :: duration where "inodeCacheTTL = 30 * second"

definition own :: "int \<Rightarrow> nat \<Rightarrow> (nat, int) gomap \<Rightarrow> (nat, int) gomap" where
  "own pid i m = (if map_of m i = None then gput i pid m else m)"

text \<open>\<open>t1\<close> is the reading for the age of the cache, \<open>t2\<close> the one that is stored.\<close>

definition socketOwners ::
  "(int \<Rightarrow> string option list option) \<Rightarrow> time \<Rightarrow> time \<Rightarrow> int list \<Rightarrow> netstate \<Rightarrow> (nat, int) gomap \<times> netstate" where
  "socketOwners fds t1 t2 pids st =
     (case ns_owners st of
        Some m \<Rightarrow>
          if time_sub t1 (ns_ownersAt st) < inodeCacheTTL then (m, st)
          else
            (let m = fold (\<lambda>pid m. case SocketInodes fds pid of None \<Rightarrow> m | Some is \<Rightarrow> fold (own pid) is m) pids []
             in (m, st\<lparr>ns_owners := Some m, ns_ownersAt := t2\<rparr>))
      | None \<Rightarrow>
          (let m = fold (\<lambda>pid m. case SocketInodes fds pid of None \<Rightarrow> m | Some is \<Rightarrow> fold (own pid) is m) pids []
           in (m, st\<lparr>ns_owners := Some m, ns_ownersAt := t2\<rparr>)))"

definition listenKey :: "netlib \<Rightarrow> SocketRow \<Rightarrow> string" where
  "listenKey nl row = sk_Proto row @ ''|'' @ nl_ipString nl (sk_Local row) @ ''|'' @ Itoa (sk_LocalP row)"

section \<open>Scan\<close>

definition RuleSocketStdio :: string where "RuleSocketStdio = ''PROC_SOCKET_STDIO''"
definition RuleListenNew :: string where "RuleListenNew = ''NETWORK_LISTEN_NEW''"
definition RuleWebWorkerEgress :: string where "RuleWebWorkerEgress = ''NETWORK_WEB_WORKER_EGRESS''"
definition RuleIMDSAccess :: string where "RuleIMDSAccess = ''NETWORK_IMDS_ACCESS''"

definition suspiciousShellComms :: "string list" where
  "suspiciousShellComms = [''bash'', ''sh'', ''zsh'', ''ksh'', ''dash'', ''python'', ''python2'', ''python3'', ''perl'', ''ruby'',
     ''nc'', ''ncat'', ''netcat'', ''socat'']"

text \<open>\<^verbatim>\<open>IP.IsLoopback\<close> and \<^verbatim>\<open>IP.IsUnspecified\<close>.\<close>

definition IsLoopback :: "ip \<Rightarrow> bool" where
  "IsLoopback a = (case To4 a of Some v \<Rightarrow> v ! 0 = 127 | None \<Rightarrow> a = replicate 15 0 @ [1])"

definition IsUnspecified :: "ip \<Rightarrow> bool" where
  "IsUnspecified a \<longleftrightarrow> To4 a = Some [0, 0, 0, 0] \<or> a = replicate 16 0"

definition ownerInfo :: "procfs \<Rightarrow> nat \<Rightarrow> (nat, int) gomap \<Rightarrow> int \<times> string" where
  "ownerInfo fs inode owners =
     (case map_of owners inode of
        None \<Rightarrow> (0, [])
      | Some pid \<Rightarrow> (pid, case Comm fs pid of None \<Rightarrow> [] | Some c \<Rightarrow> c))"

text \<open>The first bad entry of the allowlist is the error.\<close>

fun parseCIDRs :: "netlib \<Rightarrow> string list \<Rightarrow> string + IPNet list" where
  "parseCIDRs nl [] = Inr []"
| "parseCIDRs nl (c0 # cs) =
     (let c = TrimSpace c0
      in if c = [] then parseCIDRs nl cs
         else (case nl_parseCIDR nl c of
                 None \<Rightarrow> Inl c
               | Some n \<Rightarrow> (case parseCIDRs nl cs of Inl e \<Rightarrow> Inl e | Inr ns \<Rightarrow> Inr (n # ns))))"

definition ipInAny :: "ip \<Rightarrow> IPNet list \<Rightarrow> bool" where
  "ipInAny a nets \<longleftrightarrow> list_ex (\<lambda>n. NetContains n a) nets"

definition net_event ::
  "(string \<Rightarrow> string) \<Rightarrow> netlib \<Rightarrow> procfs \<Rightarrow> string \<Rightarrow> int \<Rightarrow> string \<Rightarrow> SocketRow \<Rightarrow> string list \<Rightarrow> string list \<Rightarrow> time \<Rightarrow>
   Config \<Rightarrow> Pack \<Rightarrow> string \<Rightarrow> bool \<Rightarrow> Event" where
  "net_event h nl fs rule pid comm row sigs tech now cfg pack agentVer learning =
     (let conf = floored 60 pack rule sigs
      in NormalizeDedup h (zero_Event\<lparr>
           ev_SchemaVersion := SchemaVersion, ev_AgentVersion := agentVer, ev_Timestamp := now,
           ev_RuleID := rule, ev_RulePackVersion := pack_Version pack, ev_TechniqueIDs := tech,
           ev_Tactic := ''command-and-control'', ev_Confidence := conf,
           ev_Severity := SeverityFromConfidence conf learning,
           ev_Entity := \<lparr>ent_Type = EntityProcess, ent_ID = Itoa pid, ent_Path = ResolveExe fs pid, ent_User = []\<rparr>,
           ev_Signals := sigs,
           ev_Evidence := ''pid='' @ Itoa pid @ '' comm='' @ comm @ '' proto='' @ sk_Proto row @ '' local='' @
              nl_ipString nl (sk_Local row) @ '':'' @ Itoa (sk_LocalP row) @ '' remote='' @
              nl_ipString nl (sk_Remote row) @ '':'' @ Itoa (sk_RemoteP row),
           ev_LearningOnly := learning \<or> conf < cfg_MinConfidenceAlert cfg\<rparr>))"

definition is_listen_row :: "SocketRow \<Rightarrow> bool" where
  "is_listen_row row \<longleftrightarrow> (sk_Proto row = ''tcp'' \<or> sk_Proto row = ''tcp6'') \<and> sk_State row = TCPListen"

definition watched_listener :: "SocketRow \<Rightarrow> bool" where
  "watched_listener row \<longleftrightarrow> is_listen_row row \<and> \<not> IsLoopback (sk_Local row)"

definition listen_sigs :: "procfs \<Rightarrow> (nat, int) gomap \<Rightarrow> SocketRow \<Rightarrow> string list" where
  "listen_sigs fs owners row =
     (let (pid, comm) = ownerInfo fs (sk_Inode row) owners
      in ''new_listening_socket'' # (if IsUnspecified (sk_Local row) then [''bind_all_interfaces''] else []) @
         (if pid \<noteq> 0 then [''comm:'' @ comm] else []))"

definition imds_remotes :: "string list" where
  "imds_remotes = [''169.254.169.254'', ''fd00:ec2::254'']"

definition outbound_event ::
  "(string \<Rightarrow> string) \<Rightarrow> netlib \<Rightarrow> procfs \<Rightarrow> (nat, int) gomap \<Rightarrow> IPNet list \<Rightarrow> int list \<Rightarrow> time \<Rightarrow> Config \<Rightarrow> Pack \<Rightarrow> string \<Rightarrow>
   SocketRow \<Rightarrow> Event option" where
  "outbound_event h nl fs owners allowNets webPIDs now cfg pack agentVer row =
     (if is_listen_row row then None
      else if sk_State row \<noteq> TCPEstablished \<and> sk_State row \<noteq> TCPSynSent then None
      else if IsUnspecified (sk_Remote row) then None
      else if ipInAny (sk_Remote row) allowNets then None
      else
        (let (pid, comm0) = ownerInfo fs (sk_Inode row) owners;
             comm = ToLower comm0;
             remote = nl_ipString nl (sk_Remote row)
         in if pid = 0 then None
            else if comm \<in> set suspiciousShellComms
            then Some (net_event h nl fs RuleSocketStdio pid comm row
                   [''shell_outbound_connection'', ''comm:'' @ comm, ''remote:'' @ remote @ '':'' @ Itoa (sk_RemoteP row)]
                   [''T1059.004'', ''T1571''] now cfg pack agentVer False)
            else if pid \<in> set webPIDs
            then (if remote \<in> set imds_remotes
                  then Some (net_event h nl fs RuleIMDSAccess pid comm row
                         [''network_imds_access'', ''comm:'' @ comm, ''remote:'' @ remote] [''T1552.005''] now cfg pack agentVer False)
                  else Some (net_event h nl fs RuleWebWorkerEgress pid comm row
                         [''web_worker_egress'', ''comm:'' @ comm, ''remote:'' @ remote @ '':'' @ Itoa (sk_RemoteP row)]
                         [''T1041'', ''T1071.001''] now cfg pack agentVer False))
            else None))"

definition listen_event ::
  "(string \<Rightarrow> string) \<Rightarrow> netlib \<Rightarrow> procfs \<Rightarrow> (nat, int) gomap \<Rightarrow> time \<Rightarrow> Config \<Rightarrow> Pack \<Rightarrow> string \<Rightarrow> SocketRow \<Rightarrow> Event" where
  "listen_event h nl fs owners now cfg pack agentVer row =
     (let (pid, comm) = ownerInfo fs (sk_Inode row) owners
      in net_event h nl fs RuleListenNew pid comm row (listen_sigs fs owners row) [''T1571''] now cfg pack agentVer True)"

text \<open>The candidates whose key is not known yet, each key once.\<close>

fun new_listeners :: "netlib \<Rightarrow> string list \<Rightarrow> SocketRow list \<Rightarrow> SocketRow list \<times> string list" where
  "new_listeners nl known [] = ([], known)"
| "new_listeners nl known (row # rows) =
     (if listenKey nl row \<in> set known then new_listeners nl known rows
      else (let (new, known') = new_listeners nl (listenKey nl row # known) rows in (row # new, known')))"

definition listen_delta :: "netlib \<Rightarrow> SocketRow list \<Rightarrow> netstate \<Rightarrow> SocketRow list \<times> netstate" where
  "listen_delta nl rows st =
     (let cands = filter watched_listener rows;
          current = map (listenKey nl) cands
      in if \<not> ns_primed st then ([], st\<lparr>ns_known := current, ns_primed := True\<rparr>)
         else (let (new, known) = new_listeners nl (ns_known st) cands
               in (new, st\<lparr>ns_known := filter (\<lambda>k. k \<in> set current) known\<rparr>)))"

definition web_worker_pids :: "procfs \<Rightarrow> Config \<Rightarrow> int list \<Rightarrow> int list" where
  "web_worker_pids fs cfg pids =
     filter (\<lambda>pid. case Comm fs pid of
        None \<Rightarrow> False
      | Some c \<Rightarrow> list_ex (\<lambda>n. ToLower c = ToLower (TrimSpace n)) (cfg_TargetProcessNames cfg)) pids"

definition network_Scan ::
  "(string \<Rightarrow> string) \<Rightarrow> netlib \<Rightarrow> procfs \<Rightarrow> (string \<Rightarrow> string option) \<Rightarrow> (int \<Rightarrow> string option list option) \<Rightarrow> time \<times> time \<times> time \<Rightarrow>
   Config \<Rightarrow> Pack \<Rightarrow> string \<Rightarrow> netstate \<Rightarrow> (string + Event list) \<times> netstate" where
  "network_Scan h nl fs readFile fds ts cfg pack agentVer st =
     (case ts of (t1, t2, now) \<Rightarrow>
        if \<not> cfg_NetworkScanEnabled cfg then (Inr [], st)
        else
          (case ReadNetSockets readFile of
             None \<Rightarrow> (Inr [], st)
           | Some rows \<Rightarrow>
               (case Processes fs of
                  None \<Rightarrow> (Inr [], st)
                | Some pids \<Rightarrow>
                    (let (owners, st1) = socketOwners fds t1 t2 pids st
                     in case parseCIDRs nl (cfg_NetworkAllowlist cfg) of
                          Inl c \<Rightarrow> (Inl c, st1)
                        | Inr allowNets \<Rightarrow>
                            (let events = List.map_filter (outbound_event h nl fs owners allowNets (web_worker_pids fs cfg pids)
                                   now cfg pack agentVer) rows;
                                 (new, st2) = listen_delta nl rows st1
                             in (Inr (events @ map (listen_event h nl fs owners now cfg pack agentVer) new), st2))))))"

section \<open>Addresses round-trip\<close>

text \<open>How the kernel prints an address: hexadecimal bytes, each 32-bit group in host order.\<close>

definition hex_digit :: "nat \<Rightarrow> char" where
  "hex_digit n = (if n < 10 then char_of (48 + n) else char_of (55 + n))"

definition hex_byte :: "nat \<Rightarrow> string" where
  "hex_byte b = [hex_digit (b div 16), hex_digit (b mod 16)]"

definition kernel_addr :: "ip \<Rightarrow> nat \<Rightarrow> string" where
  "kernel_addr a port = concat (map hex_byte (swap_groups a)) @ '':'' @ hex_byte (port div 256) @ hex_byte (port mod 256)"

lemma hex_val_digit [simp]: "n < 16 \<Longrightarrow> hex_val (hex_digit n) = Some n"
  by (auto simp: hex_digit_def hex_val_def is_digit_def)

lemma hex_digit_sign: "n < 16 \<Longrightarrow> hex_digit n \<noteq> CHR ''-'' \<and> hex_digit n \<noteq> CHR ''+'' \<and> hex_digit n \<noteq> CHR '':''"
proof -
  assume "n < 16"
  then have "hex_val (hex_digit n) \<noteq> None" by simp
  then show ?thesis by (auto simp: hex_val_def is_digit_def)
qed

lemma hex_bytes_concat: "list_all (\<lambda>b. b < 256) bs \<Longrightarrow> hex_bytes (concat (map hex_byte bs)) = Some bs"
  by (induction bs) (auto simp: hex_byte_def)

lemma swap_groups_swap [simp]: "swap_groups (swap_groups xs) = xs"
  by (induction xs rule: swap_groups.induct) simp_all

lemma set_swap_groups [simp]: "set (swap_groups xs) = set xs"
  by (induction xs rule: swap_groups.induct) auto

lemma length_swap_groups [simp]: "length (swap_groups xs) = length xs"
  by (induction xs rule: swap_groups.induct) auto

lemma length_hex [simp]: "length (concat (map hex_byte bs)) = 2 * length bs"
  by (induction bs) (simp_all add: hex_byte_def)

lemma IndexByte_first: "d \<notin> set s \<Longrightarrow> IndexByte (s @ d # t) d = Some (length s)"
  by (induction s) auto

lemma no_colon: "list_all (\<lambda>b. b < 256) bs \<Longrightarrow> CHR '':'' \<notin> set (concat (map hex_byte bs))"
proof (induction bs)
  case (Cons b bs)
  then have "b div 16 < 16" "b mod 16 < 16" by auto
  then have "CHR '':'' \<notin> set (hex_byte b)" using hex_digit_sign [of "b div 16"] hex_digit_sign [of "b mod 16"] by (auto simp: hex_byte_def)
  then show ?case using Cons by simp
qed simp

lemma ParseHexInt_port:
  assumes "port < 65536"
  shows "ParseHexInt 32 (hex_byte (port div 256) @ hex_byte (port mod 256)) = Some (int port)"
proof -
  let ?a = "port div 256 div 16" and ?b = "port div 256 mod 16" and ?c = "port mod 256 div 16" and ?d = "port mod 256 mod 16"
  have l: "?a < 16" "?b < 16" "?c < 16" "?d < 16" using assms by auto
  have "256 * (16 * ?a + ?b) + (16 * ?c + ?d) = port" by simp
  then have "ParseHexNat [hex_digit ?a, hex_digit ?b, hex_digit ?c, hex_digit ?d] = Some port"
    using l by (simp add: ParseHexNat_def)
  then show ?thesis using assms hex_digit_sign [OF l(1)] by (simp add: ParseHexInt_def hex_byte_def)
qed

lemma parse_kernel_addr:
  assumes "length a = 4 \<or> length a = 16" "list_all (\<lambda>b. b < 256) a" "port < 65536"
  shows "parseHexAddr (kernel_addr a port) = Some (a, int port)"
proof -
  let ?s = "concat (map hex_byte (swap_groups a))"
  have sw: "list_all (\<lambda>b. b < 256) (swap_groups a)" using assms(2) by (simp add: list_all_iff)
  have "IndexByte (kernel_addr a port) (CHR '':'') = Some (length ?s)"
    using IndexByte_first [OF no_colon [OF sw]] by (simp add: kernel_addr_def)
  moreover have "drop (Suc (length ?s)) (kernel_addr a port) = hex_byte (port div 256) @ hex_byte (port mod 256)"
    "take (length ?s) (kernel_addr a port) = ?s"
    by (simp_all add: kernel_addr_def)
  moreover have "DecodeHex ?s = Some (swap_groups a)"
    using hex_bytes_concat [OF sw] by (simp add: DecodeHex_def del: length_hex) (simp)
  ultimately show ?thesis
    using assms(1) ParseHexInt_port [OF assms(3)] by (auto simp: parseHexAddr_def)
qed

section \<open>Listener delta\<close>

definition listeners :: "netlib \<Rightarrow> SocketRow list \<Rightarrow> string set" where
  "listeners nl rows = listenKey nl ` {row \<in> set rows. watched_listener row}"

lemma new_listeners_spec:
  assumes "new_listeners nl known rows = (new, known')"
  shows "set known' = set known \<union> listenKey nl ` set rows \<and> distinct (map (listenKey nl) new) \<and>
    listenKey nl ` set new = listenKey nl ` set rows - set known \<and> set new \<subseteq> set rows"
  using assms
proof (induction rows arbitrary: known new)
  case (Cons row rows)
  show ?case
  proof (cases "listenKey nl row \<in> set known")
    case True
    then show ?thesis using Cons.IH [of known new] Cons.prems by auto
  next
    case False
    obtain new1 where n: "new_listeners nl (listenKey nl row # known) rows = (new1, known')" "new = row # new1"
      using Cons.prems False by (auto split: prod.splits)
    show ?thesis using Cons.IH [OF n(1)] n(2) False by auto
  qed
qed simp

text \<open>After a scan the detector knows exactly the listeners of that scan.\<close>

lemma listen_delta_spec:
  assumes "listen_delta nl rows st = (new, st')"
  shows "set (ns_known st') = listeners nl rows \<and> ns_primed st' \<and> distinct (map (listenKey nl) new) \<and>
    set new \<subseteq> {row \<in> set rows. watched_listener row} \<and>
    listenKey nl ` set new = (if ns_primed st then listeners nl rows - set (ns_known st) else {})"
proof (cases "ns_primed st")
  case True
  obtain known where n: "new_listeners nl (ns_known st) (filter watched_listener rows) = (new, known)"
    using assms True by (auto simp: listen_delta_def Let_def split: prod.splits)
  show ?thesis
    using assms True n new_listeners_spec [OF n] by (auto simp: listen_delta_def Let_def listeners_def)
qed (use assms in \<open>auto simp: listen_delta_def Let_def listeners_def\<close>)

fun listen_run :: "netlib \<Rightarrow> netstate \<Rightarrow> SocketRow list list \<Rightarrow> SocketRow list list" where
  "listen_run nl st [] = []"
| "listen_run nl st (rows # scans) = (let (new, st') = listen_delta nl rows st in new # listen_run nl st' scans)"

lemma listen_run_step:
  assumes "ns_primed st" "i < length scans"
  shows "listenKey nl ` set (listen_run nl st scans ! i) =
    listeners nl (scans ! i) - (case i of 0 \<Rightarrow> set (ns_known st) | Suc j \<Rightarrow> listeners nl (scans ! j)) \<and>
    distinct (map (listenKey nl) (listen_run nl st scans ! i))"
  using assms
proof (induction scans arbitrary: st i)
  case (Cons rows scans)
  obtain new st' where d: "listen_delta nl rows st = (new, st')" by (metis surj_pair)
  have s: "ns_primed st'" "set (ns_known st') = listeners nl rows"
    "listenKey nl ` set new = listeners nl rows - set (ns_known st)" "distinct (map (listenKey nl) new)"
    using listen_delta_spec [OF d] Cons.prems(1) by auto
  show ?case
  proof (cases i)
    case (Suc j)
    then show ?thesis using Cons.IH [OF s(1), of j] Cons.prems(2) d s(2) by (cases j) simp_all
  qed (simp add: d s(3,4))
qed simp

section \<open>Contract\<close>

definition network_rules :: "string list" where
  "network_rules = [RuleSocketStdio, RuleListenNew, RuleWebWorkerEgress, RuleIMDSAccess]"

lemma net_event_ok:
  assumes "r \<in> set network_rules" "sigs \<noteq> []"
  shows "finding_ok h pack v network_rules (net_event h nl fs r pid comm row sigs tech now cfg pack v l)"
    and "60 \<le> ev_Confidence (net_event h nl fs r pid comm row sigs tech now cfg pack v l)"
  using assms by (auto simp: net_event_def route_simps intro!: finding_okI)

definition scan_events :: "('e + 'a list) \<times> 's \<Rightarrow> 'a list" where
  "scan_events r = (case fst r of Inl _ \<Rightarrow> [] | Inr es \<Rightarrow> es)"

lemma outbound_event_net:
  assumes "outbound_event h nl fs owners nets web now cfg pack v row = Some e"
  shows "\<exists>r pid comm sigs tech. r \<in> set network_rules \<and> sigs \<noteq> [] \<and> e = net_event h nl fs r pid comm row sigs tech now cfg pack v False"
proof -
  have r: "RuleSocketStdio \<in> set network_rules" "RuleIMDSAccess \<in> set network_rules" "RuleWebWorkerEgress \<in> set network_rules"
    by (simp_all add: network_rules_def)
  show ?thesis
    using assms r unfolding outbound_event_def Let_def
    by (auto split: if_splits prod.splits) blast+
qed

lemma listen_event_net:
  "\<exists>r pid comm row' sigs tech now' l. r \<in> set network_rules \<and> sigs \<noteq> [] \<and>
    listen_event h nl fs owners now cfg pack v row = net_event h nl fs r pid comm row' sigs tech now' cfg pack v l"
proof -
  have "RuleListenNew \<in> set network_rules" "listen_sigs fs owners row \<noteq> []"
    by (simp_all add: network_rules_def listen_sigs_def split_beta Let_def)
  then show ?thesis unfolding listen_event_def split_beta Let_def by blast
qed

lemma network_Scan_net:
  assumes "e \<in> set (scan_events (network_Scan h nl fs readFile fds ts cfg pack v st))"
  shows "\<exists>r pid comm row sigs tech now l. r \<in> set network_rules \<and> sigs \<noteq> [] \<and>
    e = net_event h nl fs r pid comm row sigs tech now cfg pack v l"
proof -
  from assms consider (out) owners nets web now row where "outbound_event h nl fs owners nets web now cfg pack v row = Some e"
    | (new) owners now row where "e = listen_event h nl fs owners now cfg pack v row"
    by (auto simp: scan_events_def network_Scan_def Let_def map_filter_Some split: if_splits option.splits prod.splits sum.splits)
  then show ?thesis
  proof cases
    case out
    show ?thesis using outbound_event_net [OF out] by fast
  next
    case new
    show ?thesis unfolding new by (rule listen_event_net)
  qed
qed

interpretation network: detector h pack agentVer
    "\<lambda>(nl, fs, readFile, fds, ts, cfg, st). scan_events (network_Scan h nl fs readFile fds ts cfg pack agentVer st)" network_rules 60
  for h pack agentVer
  by unfold_locales (auto dest!: network_Scan_net simp: net_event_ok split: prod.splits)

section \<open>Correctness\<close>

text \<open>
  Socket addresses are decoded as the kernel encodes them: for every IPv4 or IPv6 address and
  every port, reading the text the kernel prints for them gives the address and the port back.
\<close>

theorem socket_addr_roundtrip:
  assumes "length a = 4 \<or> length a = 16" "list_all (\<lambda>b. b < 256) a" "port < 65536"
  shows "parseHexAddr (kernel_addr a port) = Some (a, int port)"
  by (rule parse_kernel_addr [OF assms])

theorem socket_addr_roundtrip_witness:
  "parseHexAddr ''0100007F:1F90'' = Some ([127, 0, 0, 1], 8080)"
proof -
  have "kernel_addr [127, 0, 0, 1] 8080 = ''0100007F:1F90''"
    by (simp add: kernel_addr_def hex_byte_def hex_digit_def char_of_def bit_0)
  then show ?thesis using socket_addr_roundtrip [of "[127, 0, 0, 1]" 8080] by simp
qed

text \<open>
  New listeners are a real delta: over any sequence of scans of a freshly started agent the
  first reports none, and every later one reports exactly the non-loopback TCP listeners that the
  scan before it did not have, each once.
\<close>

theorem listener_delta_exact:
  assumes "i < length scans"
  shows "hd (listen_run nl zero_netstate (first # scans)) = [] \<and>
    listenKey nl ` set (listen_run nl zero_netstate (first # scans) ! Suc i) =
      listeners nl (scans ! i) - listeners nl ((first # scans) ! i) \<and>
    distinct (map (listenKey nl) (listen_run nl zero_netstate (first # scans) ! Suc i))"
proof -
  obtain new st' where d: "listen_delta nl first zero_netstate = (new, st')" by (metis surj_pair)
  have "ns_primed st'" "set (ns_known st') = listeners nl first" "listenKey nl ` set new = {}"
    using listen_delta_spec [OF d] by (auto simp: zero_netstate_def)
  then show ?thesis using listen_run_step [of st' i scans nl] assms d by (cases i) auto
qed

definition sample_listener :: "int \<Rightarrow> SocketRow" where
  "sample_listener p = \<lparr>sk_Proto = ''tcp'', sk_Local = [0, 0, 0, 0], sk_LocalP = p, sk_Remote = [0, 0, 0, 0], sk_RemoteP = 0,
     sk_State = TCPListen, sk_Inode = 0, sk_UID = 0\<rparr>"

definition sample_netlib :: netlib where
  "sample_netlib = \<lparr>nl_parseIP = (\<lambda>s. None), nl_parseCIDR = (\<lambda>s. None), nl_ipString = (\<lambda>a. ''0.0.0.0'')\<rparr>"

theorem listener_delta_exact_witness:
  "listenKey sample_netlib ` set (listen_run sample_netlib zero_netstate
     [[sample_listener 22], [sample_listener 22, sample_listener 4444]] ! 1) = {listenKey sample_netlib (sample_listener 4444)}"
proof -
  have w: "watched_listener (sample_listener p)" for p
    by (simp add: watched_listener_def is_listen_row_def IsLoopback_def To4_def sample_listener_def)
  have "listenKey sample_netlib (sample_listener 22) \<noteq> listenKey sample_netlib (sample_listener 4444)"
    by (simp add: listenKey_def sample_listener_def Itoa_def nat_digits.simps)
  then have "listeners sample_netlib [sample_listener 22, sample_listener 4444] - listeners sample_netlib [sample_listener 22] =
      {listenKey sample_netlib (sample_listener 4444)}"
    using w by (auto simp: listeners_def)
  then show ?thesis
    using listener_delta_exact [of 0 "[[sample_listener 22, sample_listener 4444]]" sample_netlib "[sample_listener 22]"]
    by simp
qed

section \<open>Deviations\<close>

text \<open>A new listener is always reported as learning-only, whatever its score: it never alerts.\<close>

lemma listen_new_never_alerts: "ev_LearningOnly (listen_event h nl fs owners now cfg pack v row)"
  by (simp add: listen_event_def net_event_def split_beta Let_def NormalizeDedup_def)

end
