(* ===== verification/GC_Limiter.thy ===== *)
theory GC_Limiter
  imports GC_Gate
begin

text \<open>
  The per-rule event limiter of \<^verbatim>\<open>internal/emit/limiter.go\<close>. A Go \<^verbatim>\<open>*Limiter\<close> is an
  \<open>option\<close>, a nil limiter admits everything. The clock reading of a call is an argument. The
  limiter is an instance of \<open>sliding_gate\<close>, for every positive configured cap.
\<close>

section \<open>Limiter\<close>

record Limiter =
  lim_perMinute :: int
  lim_window :: duration
  lim_hits :: "(string, time list) gomap"
  lim_dropped :: "(string, int) gomap"

definition NewLimiter :: "int \<Rightarrow> Limiter" where
  "NewLimiter perMinute =
     \<lparr>lim_perMinute = perMinute, lim_window = minute, lim_hits = [], lim_dropped = []\<rparr>"

definition Allow :: "Limiter option \<Rightarrow> time \<Rightarrow> string \<Rightarrow> bool \<times> Limiter option" where
  "Allow ol now ruleID =
     (case ol of
        None \<Rightarrow> (True, None)
      | Some l \<Rightarrow>
          if lim_perMinute l \<le> 0 then (True, Some l)
          else
            (let cutoff = now - lim_window l;
                 buf = dropWhile (\<lambda>t. \<not> cutoff < t) (gget [] (lim_hits l) ruleID)
             in if int (length buf) \<ge> lim_perMinute l
                then (False, Some (l\<lparr>lim_hits := gput ruleID buf (lim_hits l),
                        lim_dropped := gput ruleID (wrap64 (gget 0 (lim_dropped l) ruleID + 1)) (lim_dropped l)\<rparr>))
                else (True, Some (l\<lparr>lim_hits := gput ruleID (buf @ [now]) (lim_hits l)\<rparr>))))"

definition Dropped :: "Limiter option \<Rightarrow> (string, int) gomap" where
  "Dropped ol = (case ol of None \<Rightarrow> [] | Some l \<Rightarrow> lim_dropped l)"

section \<open>The limiter is a sliding-window gate\<close>

lemma filter_sorted_dropWhile: "sorted xs \<Longrightarrow> filter (\<lambda>t. c < t) xs = dropWhile (\<lambda>t. \<not> c < t) xs"
  for xs :: "int list"
proof (induction xs)
  case (Cons x xs)
  have "filter (\<lambda>t. c < t) xs = xs" if "c < x" using Cons.prems that by (auto simp: filter_id_conv)
  with Cons show ?case by simp
qed simp

definition lim_rel :: "int \<Rightarrow> Limiter option \<Rightarrow> time \<Rightarrow> (string \<times> time) list \<Rightarrow> bool" where
  "lim_rel n ol T H \<longleftrightarrow>
     (\<exists>l. ol = Some l \<and> lim_perMinute l = n \<and> lim_window l = minute \<and>
        (\<forall>(k, t) \<in> set H. t \<le> T) \<and>
        (\<forall>k. sorted (stamps H k) \<and>
             (\<exists>old. stamps H k = old @ gget [] (lim_hits l) k \<and> (\<forall>t \<in> set old. t \<le> T - minute))))"

lemma lim_trim:
  fixes T now w :: int
  assumes "sorted (old @ buf)" "\<forall>t \<in> set old. t \<le> T - w" "T \<le> now"
  shows "filter (\<lambda>t. now - w < t) (old @ buf) = dropWhile (\<lambda>t. \<not> now - w < t) buf"
proof -
  have "filter (\<lambda>t. now - w < t) old = []" using assms(2,3) by (fastforce simp: filter_empty_conv)
  moreover have "sorted buf" using assms(1) by (simp add: sorted_append)
  ultimately show ?thesis by (simp add: filter_sorted_dropWhile)
qed

lemma dropWhile_split: "\<exists>pre. xs = pre @ dropWhile P xs \<and> (\<forall>x \<in> set pre. P x)"
  by (metis set_takeWhileD takeWhile_dropWhile_id)

lemma lim_verdict:
  assumes "lim_rel n ol T H" "T \<le> now" "0 < n"
  shows "fst (Allow ol now k) \<longleftrightarrow> recent minute H k now < nat n"
proof -
  from assms(1) obtain l old where l: "ol = Some l" "lim_perMinute l = n" "lim_window l = minute"
    "sorted (stamps H k)" "stamps H k = old @ gget [] (lim_hits l) k" "\<forall>t \<in> set old. t \<le> T - minute"
    unfolding lim_rel_def by metis
  have "recent minute H k now = length (dropWhile (\<lambda>t. \<not> now - minute < t) (gget [] (lim_hits l) k))"
    using l(4-6) assms(2) by (simp only: recent_stamps l(5) lim_trim)
  then show ?thesis using l(1-3) assms(3) by (auto simp: Allow_def Let_def)
qed

text \<open>Storing a trimmed buffer, with or without the new admission, keeps the relation.\<close>

lemma lim_rel_put:
  assumes "lim_rel n (Some l) T H" "T \<le> now"
    and "buf = dropWhile (\<lambda>t. \<not> now - minute < t) (gget [] (lim_hits l) k)"
    and "add = [] \<or> add = [now]"
    and "lim_perMinute l' = n" "lim_window l' = minute" "lim_hits l' = gput k (buf @ add) (lim_hits l)"
  shows "lim_rel n (Some l') now (H @ map (Pair k) add)"
proof -
  have past: "t \<le> T" if "(j, t) \<in> set H" for j t using assms(1) that by (auto simp: lim_rel_def)
  have "sorted (stamps (H @ map (Pair k) add) j) \<and>
      (\<exists>old. stamps (H @ map (Pair k) add) j = old @ gget [] (lim_hits l') j \<and> (\<forall>t \<in> set old. t \<le> now - minute))" for j
  proof -
    from assms(1) obtain old where old: "sorted (stamps H j)" "stamps H j = old @ gget [] (lim_hits l) j"
      "\<forall>t \<in> set old. t \<le> T - minute"
      unfolding lim_rel_def by (metis option.inject)
    have st: "stamps (H @ map (Pair k) add) j = stamps H j @ (if j = k then add else [])"
      using assms(4) by auto
    have "sorted (stamps H j @ (if j = k then add else []))"
      using old(1) past assms(2,4) by (force simp: sorted_append in_stamps)
    moreover have "\<exists>old'. stamps H j @ (if j = k then add else []) = old' @ gget [] (lim_hits l') j \<and>
        (\<forall>t \<in> set old'. t \<le> now - minute)"
    proof (cases "j = k")
      case True
      from dropWhile_split obtain pre where pre: "gget [] (lim_hits l) k = pre @ buf"
        "\<forall>t \<in> set pre. \<not> now - minute < t" unfolding assms(3) by metis
      then show ?thesis using True old(2,3) assms(2,7)
        by (intro exI [of _ "old @ pre"]) force
    next
      case False
      then show ?thesis using old(2,3) assms(2,7) by (intro exI [of _ old]) force
    qed
    ultimately show ?thesis by (simp only: st)
  qed
  moreover have "\<forall>(j, t) \<in> set (H @ map (Pair k) add). t \<le> now"
    using past assms(2,4) by force
  ultimately show ?thesis using assms(5,6) unfolding lim_rel_def by blast
qed

lemma lim_step:
  assumes "lim_rel n ol T H" "T \<le> now" "0 < n"
  shows "lim_rel n (snd (Allow ol now k)) now (if fst (Allow ol now k) then H @ [(k, now)] else H)"
proof -
  from assms(1) obtain l where l: "ol = Some l" "lim_perMinute l = n" "lim_window l = minute"
    unfolding lim_rel_def by blast
  show ?thesis
    using lim_rel_put [OF assms(1) [unfolded l(1)] assms(2) refl, of "[]" _ k]
      lim_rel_put [OF assms(1) [unfolded l(1)] assms(2) refl, of "[now]" _ k] l assms(3)
    by (auto simp: Allow_def Let_def)
qed

interpretation lim: sliding_gate Allow "Some (NewLimiter (int (Suc n)))" "\<lambda>t. t" "\<lambda>t. t" "\<lambda>t. t" "\<lambda>_. True"
  "Suc n" minute "lim_rel (int (Suc n))" for n
proof unfold_locales
  show "lim_rel (int (Suc n)) (Some (NewLimiter (int (Suc n)))) T []" for T
    by (simp add: lim_rel_def NewLimiter_def gget_def)
  show "lim_rel (int (Suc n)) s T H \<Longrightarrow> (k, t) \<in> set H \<Longrightarrow> t \<le> T" for s T H k t
    by (auto simp: lim_rel_def)
  show "lim_rel (int (Suc n)) s T H \<Longrightarrow> True \<Longrightarrow> T \<le> c \<Longrightarrow> fst (Allow s c k) = (recent minute H k c < Suc n)" for s T H c k
    using lim_verdict [of "int (Suc n)"] by (simp only: nat_int)
qed (use lim_step [of "int (Suc n)"] in simp_all)

section \<open>Drops are counted\<close>

lemma Allow_dropped:
  assumes "ol = Some l" "0 \<le> gget 0 (lim_dropped l) k" "gget 0 (lim_dropped l) k < max_int64"
  shows "gget 0 (Dropped (snd (Allow ol now k))) j =
    gget 0 (Dropped ol) j + (if j = k \<and> \<not> fst (Allow ol now k) then 1 else 0)"
  using assms by (auto simp: Allow_def Dropped_def Let_def min_int64_def)

lemma Allow_disabled: "n \<le> 0 \<Longrightarrow> lim_perMinute l = n \<Longrightarrow> Allow (Some l) now k = (True, Some l)"
  by (simp add: Allow_def)

section \<open>Correctness\<close>

text \<open>
  C4. The per-rule limiter refines the abstract sliding-window gate: on every sequence of requests
  with a monotone clock its answers are those of the gate that remembers the whole history, so
  trimming its buffers loses nothing. Never more than the cap are admitted for one rule in any
  minute.
\<close>

theorem limiter_refines:
  assumes "0 < cap" "sorted (map fst rs)"
  shows "drive Allow (Some (NewLimiter cap)) rs = abstract_gate (\<lambda>t. t) (\<lambda>t. t) (nat cap) minute [] rs \<and>
    int (in_window minute (admitted (\<lambda>t. t) rs (drive Allow (Some (NewLimiter cap)) rs)) rule x) \<le> cap"
proof -
  obtain n where n: "cap = int (Suc n)" using assms(1) by (metis gr0_implies_Suc zero_less_imp_eq_int of_nat_0_less_iff)
  have m: "nat cap = Suc n" by (simp only: n nat_int)
  have c: "lim.clocked T rs" if "\<forall>t \<in> set (map fst rs). T \<le> t" for T
    using assms(2) that by (induction rs arbitrary: T) auto
  have "\<exists>T. \<forall>t \<in> set (map fst rs). T \<le> t" by (cases rs) (use assms(2) in \<open>auto intro: exI [of _ "fst (hd rs)"]\<close>)
  then obtain T where "lim.clocked T rs" using c by blast
  then show ?thesis
    using lim.drive_refines [OF lim.rel_init, of T rs n] lim.at_most_cap [of T rs n rule x] unfolding m by (simp add: n)
qed

theorem limiter_refines_witness:
  "drive Allow (Some (NewLimiter 2)) [(0, ''r''), (1, ''r''), (2, ''s''), (3, ''r''), (minute, ''r'')] = [True, True, True, False, True] \<and>
   int (in_window minute (admitted (\<lambda>t. t) [(0, ''r''), (1, ''r''), (2, ''s''), (3, ''r''), (minute, ''r'')]
     [True, True, True, False, True]) ''r'' 3) \<le> 2"
proof -
  let ?rs = "[(0, ''r''), (1, ''r''), (2, ''s''), (3, ''r''), (minute, ''r'')]"
  have s: "sorted (map fst ?rs)" by (simp add: duration_defs)
  have a: "abstract_gate (\<lambda>t. t) (\<lambda>t. t) 2 minute [] ?rs = [True, True, True, False, True]"
    by (simp add: recent_def Let_def duration_defs)
  note l = limiter_refines [of 2, OF zero_less_numeral s, of "''r''" 3]
  have d: "drive Allow (Some (NewLimiter 2)) ?rs = [True, True, True, False, True]"
    using l a by (simp del: drive.simps abstract_gate.simps)
  show ?thesis using conjunct2 [OF l] by (simp only: d simp_thms)
qed

end
