(* ===== verification/GC_Spool.thy ===== *)
theory GC_Spool
  imports GC_Prelude "HOL-Library.Sublist"
begin

text \<open>
  The on-disk spool of \<^verbatim>\<open>internal/emit/spool.go\<close> and the host-budget counters of
  \<^verbatim>\<open>internal/budget/budget.go\<close>. The spool's state is its size cap, its file handle and
  the two files it owns, the current one and the rotated one (\<open>None\<close>: no such file). Every
  system call can fail: the argument \<open>io\<close> of an operation says which of its calls fail, and how
  many bytes a failing write leaves behind.
\<close>

section \<open>Spool\<close>

datatype fhandle = NilFile | OpenFile | ClosedFile

record Spool =
  sp_maxBytes :: int
  sp_f :: fhandle
  sp_cur :: "string option"
  sp_old :: "string option"

record io_faults =
  io_stat :: bool
  io_remove :: bool
  io_rename :: bool
  io_open :: bool
  io_write :: bool
  io_partial :: nat
  io_newline :: bool
  io_close :: bool
  io_read :: bool
  io_truncate :: bool

definition no_faults :: io_faults where
  "no_faults = \<lparr>io_stat = False, io_remove = False, io_rename = False, io_open = False, io_write = False, io_partial = 0,
     io_newline = False, io_close = False, io_read = False, io_truncate = False\<rparr>"

datatype spool_error =
    DirRequired | MkdirFailed | OpenFailed | StatFailed | RenameFailed | WriteFailed | CloseFailed
  | ReadBackFailed | TruncateFailed | FileClosed

definition contents :: "string option \<Rightarrow> string" where
  "contents f = (case f of None \<Rightarrow> [] | Some s \<Rightarrow> s)"

text \<open>
  \<open>cur0\<close> is the file a previous run left. \<^verbatim>\<open>O_CREATE|O_APPEND\<close> keeps it or creates an
  empty one.
\<close>

definition NewSpool ::
  "string \<Rightarrow> int \<Rightarrow> bool \<Rightarrow> bool \<Rightarrow> string option \<Rightarrow> string option \<Rightarrow> spool_error + Spool" where
  "NewSpool dir maxBytes mkdirFails openFails cur0 old0 =
     (if dir = [] then Inl DirRequired
      else if mkdirFails then Inl MkdirFailed
      else if openFails then Inl OpenFailed
      else Inr \<lparr>sp_maxBytes = maxBytes, sp_f = OpenFile, sp_cur = Some (contents cur0), sp_old = old0\<rparr>)"

text \<open>
  \<^verbatim>\<open>Stat\<close> on a closed handle is an error. Removing the previous rotated file may fail
  unnoticed, but the rename replaces it anyway.
\<close>

definition rotateIfNeeded :: "io_faults \<Rightarrow> Spool \<Rightarrow> int \<Rightarrow> spool_error option \<times> Spool" where
  "rotateIfNeeded io s incoming =
     (if sp_maxBytes s \<le> 0 then (None, s)
      else if sp_f s \<noteq> OpenFile then (Some FileClosed, s)
      else if io_stat io then (Some StatFailed, s)
      else if int (length (contents (sp_cur s))) + incoming < sp_maxBytes s then (None, s)
      else
        (let s1 = s\<lparr>sp_f := ClosedFile, sp_old := (if io_remove io then sp_old s else None)\<rparr>
         in if io_rename io then (Some RenameFailed, s1)
            else
              (let s2 = s1\<lparr>sp_cur := None, sp_old := Some (contents (sp_cur s))\<rparr>
               in if io_open io then (Some OpenFailed, s2)
                  else (None, s2\<lparr>sp_f := OpenFile, sp_cur := Some []\<rparr>))))"

definition SpoolAppend :: "io_faults \<Rightarrow> Spool option \<Rightarrow> string \<Rightarrow> spool_error option \<times> Spool option" where
  "SpoolAppend io os line =
     (case os of
        None \<Rightarrow> (None, None)
      | Some s \<Rightarrow>
          if sp_f s = NilFile then (None, Some s)
          else
            (case rotateIfNeeded io s (int (length line) + 1) of
               (Some e, s1) \<Rightarrow> (Some e, Some s1)
             | (None, s1) \<Rightarrow>
                 if sp_f s1 \<noteq> OpenFile then (Some FileClosed, Some s1)
                 else if io_write io
                 then (Some WriteFailed,
                       Some (s1\<lparr>sp_cur := Some (contents (sp_cur s1) @ take (io_partial io) line)\<rparr>))
                 else
                   (let s2 = s1\<lparr>sp_cur := Some (contents (sp_cur s1) @ line)\<rparr>
                    in if io_newline io then (Some WriteFailed, Some s2)
                       else (None, Some (s2\<lparr>sp_cur := Some (contents (sp_cur s2) @ [CHR 0x0A])\<rparr>)))))"

text \<open>The records of a file: its non-empty terminated lines. \<open>acc\<close> is the line being read.\<close>

fun records_from :: "string \<Rightarrow> string \<Rightarrow> string list" where
  "records_from acc [] = []"
| "records_from acc (c # s) =
     (if c = CHR 0x0A then (if acc = [] then records_from [] s else acc # records_from [] s)
      else records_from (acc @ [c]) s)"

definition records :: "string \<Rightarrow> string list" where
  "records data = records_from [] data"

definition SpoolDrain :: "io_faults \<Rightarrow> Spool option \<Rightarrow> (spool_error + string list) \<times> Spool option" where
  "SpoolDrain io os =
     (case os of
        None \<Rightarrow> (Inr [], None)
      | Some s \<Rightarrow>
          if sp_f s \<noteq> OpenFile then (Inl FileClosed, Some s)
          else
            (let s1 = s\<lparr>sp_f := ClosedFile\<rparr>
             in if io_close io then (Inl CloseFailed, Some s1)
                else if io_read io \<or> sp_cur s = None then (Inl ReadBackFailed, Some s1)
                else if io_truncate io then (Inl TruncateFailed, Some s1)
                else if io_open io then (Inl OpenFailed, Some (s1\<lparr>sp_cur := Some []\<rparr>))
                else (Inr (records (contents (sp_cur s))),
                      Some (s1\<lparr>sp_f := OpenFile, sp_cur := Some []\<rparr>))))"

definition SpoolClose :: "io_faults \<Rightarrow> Spool option \<Rightarrow> spool_error option \<times> Spool option" where
  "SpoolClose io os =
     (case os of
        None \<Rightarrow> (None, None)
      | Some s \<Rightarrow>
          if sp_f s = NilFile then (None, Some s)
          else (if sp_f s = ClosedFile then Some FileClosed
                else if io_close io then Some CloseFailed else None,
                Some (s\<lparr>sp_f := NilFile\<rparr>)))"

section \<open>Records\<close>

definition record_ok :: "string \<Rightarrow> bool" where
  "record_ok line \<longleftrightarrow> line \<noteq> [] \<and> CHR 0x0A \<notin> set line"

definition file_of :: "string list \<Rightarrow> string" where
  "file_of ls = concat (map (\<lambda>l. l @ [CHR 0x0A]) ls)"

lemma records_from_line:
  "CHR 0x0A \<notin> set l \<Longrightarrow> records_from acc (l @ CHR 0x0A # s) =
     (if acc @ l = [] then records_from [] s else (acc @ l) # records_from [] s)"
  by (induction l arbitrary: acc) auto

lemma records_file_of: "list_all record_ok ls \<Longrightarrow> records (file_of ls) = ls"
  unfolding records_def file_of_def by (induction ls) (auto simp: record_ok_def records_from_line)

lemma file_of_snoc [simp]: "file_of (ls @ [l]) = file_of ls @ l @ [CHR 0x0A]"
  by (simp add: file_of_def)

section \<open>Sequences of appends\<close>

fun appends :: "Spool option \<Rightarrow> (io_faults \<times> string) list \<Rightarrow> Spool option" where
  "appends os [] = os"
| "appends os ((io, l) # ls) = appends (snd (SpoolAppend io os l)) ls"

text \<open>
  The size invariant: neither file reaches the cap, whatever fails, as long as each record is
  smaller than the cap.
\<close>

definition sized :: "Spool \<Rightarrow> bool" where
  "sized s \<longleftrightarrow> 0 < sp_maxBytes s \<and> int (length (contents (sp_cur s))) < sp_maxBytes s \<and>
     int (length (contents (sp_old s))) < sp_maxBytes s"

lemma rotate_sized:
  assumes "sized s" "int n < sp_maxBytes s" "rotateIfNeeded io s (int n) = (r, s')"
  shows "sized s' \<and> sp_maxBytes s' = sp_maxBytes s \<and>
    (r = None \<longrightarrow> int (length (contents (sp_cur s'))) + int n < sp_maxBytes s')"
  using assms by (auto simp: rotateIfNeeded_def sized_def contents_def Let_def split: if_splits)

lemma SpoolAppend_sized:
  assumes "sized s" "int (length line) + 1 < sp_maxBytes s"
  shows "\<exists>s'. snd (SpoolAppend io (Some s) line) = Some s' \<and> sized s' \<and> sp_maxBytes s' = sp_maxBytes s"
proof -
  obtain r s1 where rot: "rotateIfNeeded io s (int (length line + 1)) = (r, s1)" by fastforce
  then have s1: "sized s1" "sp_maxBytes s1 = sp_maxBytes s"
    "r = None \<Longrightarrow> int (length (contents (sp_cur s1))) + int (length line) + 1 < sp_maxBytes s1"
    using rotate_sized [OF assms(1) _ rot] assms(2) by auto
  show ?thesis
    using rot s1 assms(1)
    by (cases r) (auto simp: SpoolAppend_def Let_def sized_def contents_def add.commute)
qed

lemma appends_sized:
  "sized s \<Longrightarrow> (\<And>io l. (io, l) \<in> set ls \<Longrightarrow> int (length l) + 1 < sp_maxBytes s) \<Longrightarrow>
   \<exists>s'. appends (Some s) ls = Some s' \<and> sized s' \<and> sp_maxBytes s' = sp_maxBytes s"
proof (induction ls arbitrary: s)
  case (Cons x ls)
  obtain io l where x: "x = (io, l)" by (cases x)
  then obtain s1 where s1: "snd (SpoolAppend io (Some s) l) = Some s1" "sized s1" "sp_maxBytes s1 = sp_maxBytes s"
    using SpoolAppend_sized [of s l io] Cons.prems by auto
  have "\<exists>s'. appends (Some s1) ls = Some s' \<and> sized s' \<and> sp_maxBytes s' = sp_maxBytes s1"
    using Cons.prems(2) s1(3) by (intro Cons.IH [OF s1(2)]) auto
  then show ?case using s1 by (simp add: x)
qed simp

text \<open>Without faults the two files hold the most recent records, in order.\<close>

definition holds_records :: "Spool \<Rightarrow> string list \<Rightarrow> bool" where
  "holds_records s ls \<longleftrightarrow> sp_f s = OpenFile \<and>
     (\<exists>os cs. suffix (os @ cs) ls \<and> contents (sp_old s) = file_of os \<and> sp_cur s = Some (file_of cs) \<and>
        (sp_maxBytes s \<le> 0 \<longrightarrow> cs = ls) \<and> (ls \<noteq> [] \<longrightarrow> cs \<noteq> []))"

lemma SpoolAppend_holds:
  assumes "holds_records s ls"
  shows "\<exists>s'. SpoolAppend no_faults (Some s) l = (None, Some s') \<and> holds_records s' (ls @ [l]) \<and>
    sp_maxBytes s' = sp_maxBytes s"
proof -
  from assms obtain os cs where s: "sp_f s = OpenFile" "suffix (os @ cs) ls" "contents (sp_old s) = file_of os"
    "sp_cur s = Some (file_of cs)" "sp_maxBytes s \<le> 0 \<longrightarrow> cs = ls"
    unfolding holds_records_def by blast
  have keep: "suffix (os @ cs @ [l]) (ls @ [l])" using s(2) by simp
  have rot: "suffix (cs @ [l]) (ls @ [l])" using s(2) suffix_appendD by auto
  show ?thesis
  proof (cases "sp_maxBytes s \<le> 0 \<or> int (length (file_of cs)) + (int (length l) + 1) < sp_maxBytes s")
    case True
    let ?s = "s\<lparr>sp_cur := Some (file_of cs @ l @ [CHR 0x0A])\<rparr>"
    have "SpoolAppend no_faults (Some s) l = (None, Some ?s)"
      using s True by (auto simp: SpoolAppend_def rotateIfNeeded_def no_faults_def contents_def Let_def)
    moreover have "holds_records ?s (ls @ [l])"
      unfolding holds_records_def using s keep
      by (intro conjI, simp) (rule exI [of _ os], rule exI [of _ "cs @ [l]"], simp)
    ultimately show ?thesis by auto
  next
    case False
    let ?s = "s\<lparr>sp_old := Some (file_of cs), sp_cur := Some (l @ [CHR 0x0A])\<rparr>"
    have "SpoolAppend no_faults (Some s) l = (None, Some ?s)"
      using s False by (auto simp: SpoolAppend_def rotateIfNeeded_def no_faults_def contents_def Let_def)
    moreover have "holds_records ?s (ls @ [l])"
      unfolding holds_records_def using s rot False
      by (intro conjI, simp)
         (rule exI [of _ cs], rule exI [of _ "[l]"], simp add: contents_def file_of_def)
    ultimately show ?thesis by auto
  qed
qed

lemma appends_holds:
  "holds_records s ls0 \<Longrightarrow> \<exists>s'. appends (Some s) (map (Pair no_faults) ls) = Some s' \<and>
     holds_records s' (ls0 @ ls) \<and> sp_maxBytes s' = sp_maxBytes s"
proof (induction ls arbitrary: s ls0)
  case (Cons l ls)
  obtain s1 where "SpoolAppend no_faults (Some s) l = (None, Some s1)" "holds_records s1 (ls0 @ [l])"
    "sp_maxBytes s1 = sp_maxBytes s"
    using SpoolAppend_holds [OF Cons.prems] by blast
  with Cons.IH [of s1 "ls0 @ [l]"] show ?case by simp
qed simp

text \<open>A handle left closed by a failed rotation or drain is never reopened.\<close>

lemma closed_stuck:
  assumes "sp_f s = ClosedFile"
  shows "\<exists>e. SpoolAppend io (Some s) line = (Some e, Some s)" "\<exists>e. SpoolDrain io (Some s) = (Inl e, Some s)"
  using assms by (auto simp: SpoolAppend_def rotateIfNeeded_def SpoolDrain_def)

section \<open>Host budget counters\<close>

text \<open>Atomic 64-bit counters: unsigned ones wrap at \<open>2 ^ 64\<close>.\<close>

record budget =
  bud_scanCount :: nat
  bud_lastScanMs :: int
  bud_procReads :: nat
  bud_hashBytes :: nat
  bud_scansLogged :: nat

definition addU64 :: "nat \<Rightarrow> nat \<Rightarrow> nat" where
  "addU64 a b = (a + b) mod 2 ^ 64"

text \<open>The second component tells whether the budget line is logged.\<close>

definition ObserveScan :: "budget \<Rightarrow> duration \<Rightarrow> budget \<times> bool" where
  "ObserveScan s d =
     (let ms = Milliseconds d;
          n = addU64 (bud_scansLogged s) 1
      in (s\<lparr>bud_scanCount := addU64 (bud_scanCount s) 1, bud_lastScanMs := ms, bud_scansLogged := n\<rparr>,
          n = 1 \<or> n mod 10 = 0 \<or> ms \<ge> 500))"

definition AddProcRead :: "budget \<Rightarrow> nat \<Rightarrow> budget" where
  "AddProcRead s n = (if n > 0 then s\<lparr>bud_procReads := addU64 (bud_procReads s) n\<rparr> else s)"

definition AddHashBytes :: "budget \<Rightarrow> int \<Rightarrow> budget" where
  "AddHashBytes s n = (if n > 0 then s\<lparr>bud_hashBytes := addU64 (bud_hashBytes s) (nat n)\<rparr> else s)"

section \<open>Correctness\<close>

text \<open>
  C27. Spooled records survive. Starting from an empty spool, appending any records without I/O
  faults succeeds, and draining then returns the records of the current file: a suffix of what
  was appended, in order, with the last record in it, and all of them when no size cap is set.
\<close>

theorem spool_roundtrip:
  assumes "NewSpool dir cap False False None None = Inr s" "list_all record_ok ls"
  shows "\<exists>s' out s''. appends (Some s) (map (Pair no_faults) ls) = Some s' \<and>
    SpoolDrain no_faults (Some s') = (Inr out, Some s'') \<and> suffix out ls \<and>
    (ls \<noteq> [] \<longrightarrow> out \<noteq> []) \<and> (cap \<le> 0 \<longrightarrow> out = ls) \<and> records (contents (sp_cur s'')) = []"
proof -
  have s: "holds_records s []" "sp_maxBytes s = cap"
    using assms(1) by (auto simp: NewSpool_def holds_records_def contents_def file_of_def split: if_splits)
  obtain s' where s': "appends (Some s) (map (Pair no_faults) ls) = Some s'" "holds_records s' ls" "sp_maxBytes s' = cap"
    using appends_holds [OF s(1), of ls] s(2) by auto
  then obtain os cs where h: "sp_f s' = OpenFile" "suffix (os @ cs) ls" "sp_cur s' = Some (file_of cs)"
    "cap \<le> 0 \<longrightarrow> cs = ls" "ls \<noteq> [] \<longrightarrow> cs \<noteq> []"
    unfolding holds_records_def by auto
  have suf: "suffix cs ls" using h(2) suffix_appendD by blast
  then have "list_all record_ok cs" using assms(2) by (auto simp: list_all_iff dest: set_mono_suffix)
  then have "records (file_of cs) = cs" by (rule records_file_of)
  then have "SpoolDrain no_faults (Some s') = (Inr cs, Some (s'\<lparr>sp_f := OpenFile, sp_cur := Some []\<rparr>))"
    using h(1,3) by (simp add: SpoolDrain_def no_faults_def contents_def)
  then show ?thesis
    using s'(1) h(4,5) suf by (intro exI conjI) (auto simp: contents_def records_def)
qed

theorem spool_roundtrip_witness:
  "\<exists>s s' out s''. NewSpool ''/spool'' 12 False False None None = Inr s \<and>
    appends (Some s) (map (Pair no_faults) [''aaaa'', ''bbbb'', ''cccc'']) = Some s' \<and>
    SpoolDrain no_faults (Some s') = (Inr out, Some s'') \<and> suffix out [''aaaa'', ''bbbb'', ''cccc''] \<and> out \<noteq> []"
  using spool_roundtrip [of "''/spool''" 12 _ "[''aaaa'', ''bbbb'', ''cccc'']"]
  by (simp add: NewSpool_def record_ok_def) metis



end
