(* ===== verification/GC_Taxonomy.thy ===== *)
theory GC_Taxonomy
  imports GC_Event
begin

text \<open>
  The doctrine tables: the tactic-to-phase map of \<^verbatim>\<open>internal/killchain/killchain.go\<close> and
  the behaviour catalogue of \<^verbatim>\<open>internal/taxonomy/taxonomy.go\<close>. The process-wide mapping
  that \<^verbatim>\<open>SetGlobal\<close> stores is an argument of \<open>ApplyTaxonomy\<close>; reading and decoding the file
  are the parameters \<open>readFile\<close> and \<open>unmarshal\<close>.
\<close>

section \<open>Kill-chain phases\<close>

definition PhaseReconnaissance :: string where "PhaseReconnaissance = ''reconnaissance''"
definition PhaseWeaponization :: string where "PhaseWeaponization = ''weaponization''"
definition PhaseDelivery :: string where "PhaseDelivery = ''delivery''"
definition PhaseExploitation :: string where "PhaseExploitation = ''exploitation''"
definition PhaseInstallation :: string where "PhaseInstallation = ''installation''"
definition PhaseCommandAndControl :: string where "PhaseCommandAndControl = ''c2''"
definition PhaseActionsOnObjectives :: string where "PhaseActionsOnObjectives = ''actions-on-objectives''"

lemmas phase_defs = PhaseReconnaissance_def PhaseWeaponization_def PhaseDelivery_def
  PhaseExploitation_def PhaseInstallation_def PhaseCommandAndControl_def PhaseActionsOnObjectives_def

definition phases :: "string list" where
  "phases = [PhaseReconnaissance, PhaseWeaponization, PhaseDelivery, PhaseExploitation,
     PhaseInstallation, PhaseCommandAndControl, PhaseActionsOnObjectives]"

definition normalizePhase :: "string \<Rightarrow> string" where
  "normalizePhase s =
     (let l = ToLower (TrimSpace s)
      in if l \<in> {''recon'', ''reconnaissance''} then PhaseReconnaissance
         else if l = ''weaponization'' then PhaseWeaponization
         else if l = ''delivery'' then PhaseDelivery
         else if l \<in> {''exploit'', ''exploitation''} then PhaseExploitation
         else if l \<in> {''install'', ''installation''} then PhaseInstallation
         else if l \<in> {''c2'', ''c&c'', ''command-and-control'', ''command_and_control''}
         then PhaseCommandAndControl
         else if l \<in> {''actions'', ''actions-on-objectives'', ''actions_on_objectives'', ''ao''}
         then PhaseActionsOnObjectives
         else s)"

definition tacticToPhase :: "string \<Rightarrow> string" where
  "tacticToPhase t =
     (if t \<in> {''reconnaissance'', ''resource-development'', ''resource_development''}
      then PhaseReconnaissance
      else if t \<in> {''initial-access'', ''initial_access''} then PhaseDelivery
      else if t = ''execution'' then PhaseExploitation
      else if t \<in> {''persistence'', ''privilege-escalation'', ''privilege_escalation'',
                    ''defense-evasion'', ''defense_evasion''} then PhaseInstallation
      else if t \<in> {''command-and-control'', ''command_and_control''} then PhaseCommandAndControl
      else if t \<in> {''credential-access'', ''credential_access'', ''discovery'', ''lateral-movement'',
                    ''lateral_movement'', ''collection'', ''exfiltration'', ''impact''}
      then PhaseActionsOnObjectives
      else [])"

definition PhaseFor :: "string \<Rightarrow> string \<Rightarrow> string" where
  "PhaseFor tactic ruleOverride =
     (let ov = TrimSpace ruleOverride
      in if ov \<noteq> [] then normalizePhase ov else tacticToPhase (ToLower (TrimSpace tactic)))"

definition EarlyPhase :: "string \<Rightarrow> bool" where
  "EarlyPhase phase \<longleftrightarrow> phase = PhaseExploitation \<or> phase = PhaseInstallation"

lemma normalize_cases: "normalizePhase s \<in> set phases \<or> normalizePhase s = s"
  by (simp add: normalizePhase_def phases_def Let_def)

lemma phases_fixed: "list_all (\<lambda>p. TrimSpace p = p \<and> p \<noteq> [] \<and> normalizePhase p = p) phases"
  by code_simp

lemma normalize_phase: "p \<in> set phases \<Longrightarrow> TrimSpace p = p \<and> p \<noteq> [] \<and> normalizePhase p = p"
  using phases_fixed unfolding list_all_iff by blast

lemma tacticToPhase_range: "tacticToPhase t \<in> set phases \<or> tacticToPhase t = []"
  by (simp add: tacticToPhase_def phases_def)

lemma TrimSpace_Nil [simp]: "TrimSpace [] = []"
  by (simp add: TrimSpace_def)

lemma PhaseFor_idem: "PhaseFor t (PhaseFor t r) = PhaseFor t r"
proof (cases "TrimSpace r = []")
  case True
  then have "PhaseFor t r = tacticToPhase (ToLower (TrimSpace t))" by (simp add: PhaseFor_def)
  then show ?thesis using tacticToPhase_range [of "ToLower (TrimSpace t)"] normalize_phase
    by (auto simp: PhaseFor_def Let_def)
next
  case False
  then have "PhaseFor t r = normalizePhase (TrimSpace r)" by (simp add: PhaseFor_def Let_def)
  then show ?thesis using normalize_cases [of "TrimSpace r"] normalize_phase False
    by (auto simp: PhaseFor_def Let_def)
qed

lemma PhaseFor_tactic_range: "TrimSpace r = [] \<Longrightarrow> PhaseFor t r \<in> set phases \<or> PhaseFor t r = []"
  using tacticToPhase_range by (simp add: PhaseFor_def)

section \<open>Taxonomy\<close>

record Nano =
  nano_ID :: string
  nano_Macro :: string
  nano_Micro :: string
  nano_Src :: string
  nano_Type :: string
  nano_Conf :: string
  nano_Techniques :: "string list"
  nano_Tactic :: string
  nano_FP :: string
  nano_Desc :: string

record Chain =
  chain_ID :: string
  chain_Window :: string
  chain_Score :: string
  chain_Flag :: string
  chain_Steps :: "string list list"

record Mapping =
  map_Version :: string
  map_Nanos :: "Nano list"
  map_Chains :: "Chain list"
  map_byID :: "(string, Nano) gomap"

datatype map_error = MapReadFailed | MapBadYAML | MissingNano string

definition index_nanos :: "Nano list \<Rightarrow> (string, Nano) gomap" where
  "index_nanos ns = fold (\<lambda>n m. if nano_ID n = [] then m else gput (nano_ID n) n m) ns []"

definition LoadMapping ::
  "(string \<Rightarrow> string option) \<Rightarrow> (string \<Rightarrow> Mapping option) \<Rightarrow> string \<Rightarrow> map_error + Mapping" where
  "LoadMapping readFile unmarshal path =
     (case readFile path of
        None \<Rightarrow> Inl MapReadFailed
      | Some b \<Rightarrow>
          (case unmarshal b of
             None \<Rightarrow> Inl MapBadYAML
           | Some m \<Rightarrow> Inr (m\<lparr>map_byID := index_nanos (map_Nanos m)\<rparr>)))"

definition LookupNano :: "Mapping option \<Rightarrow> string \<Rightarrow> Nano option" where
  "LookupNano om i = (case om of None \<Rightarrow> None | Some m \<Rightarrow> map_of (map_byID m) i)"

text \<open>A string field that is still empty takes the value of the catalogue.\<close>

definition fill :: "'a list \<Rightarrow> 'a list \<Rightarrow> 'a list" where
  "fill cur new = (if cur = [] then new else cur)"

definition ApplyTaxonomy :: "Mapping option \<Rightarrow> Event \<Rightarrow> Event" where
  "ApplyTaxonomy om e =
     (case LookupNano om (ev_RuleID e) of
        None \<Rightarrow> e
      | Some n \<Rightarrow>
          e\<lparr>ev_Macro := fill (ev_Macro e) (nano_Macro n),
            ev_Micro := fill (ev_Micro e) (nano_Micro n),
            ev_Src := fill (ev_Src e) (nano_Src n),
            ev_Type := fill (ev_Type e) (nano_Type n),
            ev_ConfBand := fill (ev_ConfBand e) (nano_Conf n),
            ev_TechniqueIDs := fill (ev_TechniqueIDs e) (nano_Techniques n),
            ev_Tactic := fill (ev_Tactic e) (nano_Tactic n)\<rparr>)"

fun MustHave :: "Mapping option \<Rightarrow> string list \<Rightarrow> map_error option" where
  "MustHave om [] = None"
| "MustHave om (i # is) = (if LookupNano om i = None then Some (MissingNano i) else MustHave om is)"

lemma fill_fill [simp]: "fill (fill a b) b = fill a b"
  and fill_keep [simp]: "a \<noteq> [] \<Longrightarrow> fill a b = a"
  by (simp_all add: fill_def)

lemma ApplyTaxonomy_idem: "ApplyTaxonomy om (ApplyTaxonomy om e) = ApplyTaxonomy om e"
  by (cases "LookupNano om (ev_RuleID e)") (simp_all add: ApplyTaxonomy_def)

lemma ApplyTaxonomy_frame [simp]:
  "ev_RuleID (ApplyTaxonomy om e) = ev_RuleID e" "ev_Confidence (ApplyTaxonomy om e) = ev_Confidence e"
  "ev_Severity (ApplyTaxonomy om e) = ev_Severity e" "ev_Entity (ApplyTaxonomy om e) = ev_Entity e"
  "ev_Signals (ApplyTaxonomy om e) = ev_Signals e" "ev_DedupKey (ApplyTaxonomy om e) = ev_DedupKey e"
  "ev_LearningOnly (ApplyTaxonomy om e) = ev_LearningOnly e" "ev_Process (ApplyTaxonomy om e) = ev_Process e"
  "ev_Anchor (ApplyTaxonomy om e) = ev_Anchor e" "ev_Container (ApplyTaxonomy om e) = ev_Container e"
  "ev_Response (ApplyTaxonomy om e) = ev_Response e" "ev_IOCMatches (ApplyTaxonomy om e) = ev_IOCMatches e"
  "ev_Network (ApplyTaxonomy om e) = ev_Network e" "ev_Timestamp (ApplyTaxonomy om e) = ev_Timestamp e"
  "ev_File (ApplyTaxonomy om e) = ev_File e"
  by (simp_all add: ApplyTaxonomy_def split: option.splits)

lemma ApplyTaxonomy_preserves:
  "ev_Macro e \<noteq> [] \<Longrightarrow> ev_Macro (ApplyTaxonomy om e) = ev_Macro e"
  "ev_Micro e \<noteq> [] \<Longrightarrow> ev_Micro (ApplyTaxonomy om e) = ev_Micro e"
  "ev_Src e \<noteq> [] \<Longrightarrow> ev_Src (ApplyTaxonomy om e) = ev_Src e"
  "ev_Type e \<noteq> [] \<Longrightarrow> ev_Type (ApplyTaxonomy om e) = ev_Type e"
  "ev_ConfBand e \<noteq> [] \<Longrightarrow> ev_ConfBand (ApplyTaxonomy om e) = ev_ConfBand e"
  "ev_TechniqueIDs e \<noteq> [] \<Longrightarrow> ev_TechniqueIDs (ApplyTaxonomy om e) = ev_TechniqueIDs e"
  "ev_Tactic e \<noteq> [] \<Longrightarrow> ev_Tactic (ApplyTaxonomy om e) = ev_Tactic e"
  by (simp_all add: ApplyTaxonomy_def split: option.splits)

lemma index_fold:
  "map_of (fold (\<lambda>n m. if nano_ID n = [] then m else gput (nano_ID n) n m) ns m0) i =
     (case find (\<lambda>n. nano_ID n = i) (rev ns) of
        Some n \<Rightarrow> if i = [] then map_of m0 i else Some n
      | None \<Rightarrow> map_of m0 i)"
proof (induction ns rule: rev_induct)
  case (snoc n ns)
  then show ?case by (auto split: option.splits)
qed simp

text \<open>The last entry of an id wins; entries without an id are not indexed.\<close>

lemma LookupNano_LoadMapping:
  assumes "readFile path = Some b" "unmarshal b = Some m" "LoadMapping readFile unmarshal path = Inr m'"
  shows "LookupNano (Some m') i = (if i = [] then None else find (\<lambda>n. nano_ID n = i) (rev (map_Nanos m)))"
  using assms index_fold [of "map_Nanos m" "[]" i]
  by (auto simp: LoadMapping_def LookupNano_def index_nanos_def split: option.splits)

lemma MustHave_ok: "MustHave om is = None \<longleftrightarrow> (\<forall>i \<in> set is. LookupNano om i \<noteq> None)"
  by (induction "is") auto

section \<open>Correctness\<close>

definition sample_nano :: "string \<Rightarrow> string \<Rightarrow> Nano" where
  "sample_nano i micro = \<lparr>nano_ID = i, nano_Macro = ''macro'', nano_Micro = micro, nano_Src = SrcFIM, nano_Type = TypeDelta,
     nano_Conf = ConfHigh, nano_Techniques = [''T1505.003''], nano_Tactic = ''persistence'', nano_FP = [], nano_Desc = []\<rparr>"

definition sample_mapping :: Mapping where
  "sample_mapping =
     (let ns = [sample_nano ''N1'' ''first'', sample_nano ''N2'' ''other'', sample_nano ''N1'' ''second'']
      in \<lparr>map_Version = ''1'', map_Nanos = ns, map_Chains = [],
          map_byID = [(''N1'', sample_nano ''N1'' ''second''), (''N2'', sample_nano ''N2'' ''other'')]\<rparr>)"

text \<open>
  Stamping the taxonomy is idempotent and never overwrites: a second application changes
  nothing, and every taxonomy field an event already carries is kept.
\<close>

theorem taxonomy_stamp:
  "ApplyTaxonomy om (ApplyTaxonomy om e) = ApplyTaxonomy om e \<and>
   (ev_Macro e \<noteq> [] \<longrightarrow> ev_Macro (ApplyTaxonomy om e) = ev_Macro e) \<and>
   (ev_Micro e \<noteq> [] \<longrightarrow> ev_Micro (ApplyTaxonomy om e) = ev_Micro e) \<and>
   (ev_Src e \<noteq> [] \<longrightarrow> ev_Src (ApplyTaxonomy om e) = ev_Src e) \<and>
   (ev_Type e \<noteq> [] \<longrightarrow> ev_Type (ApplyTaxonomy om e) = ev_Type e) \<and>
   (ev_ConfBand e \<noteq> [] \<longrightarrow> ev_ConfBand (ApplyTaxonomy om e) = ev_ConfBand e) \<and>
   (ev_Tactic e \<noteq> [] \<longrightarrow> ev_Tactic (ApplyTaxonomy om e) = ev_Tactic e) \<and>
   (ev_TechniqueIDs e \<noteq> [] \<longrightarrow> ev_TechniqueIDs (ApplyTaxonomy om e) = ev_TechniqueIDs e)"
  using ApplyTaxonomy_preserves [of e om] by (simp add: ApplyTaxonomy_idem)

theorem taxonomy_stamp_witness:
  "ev_Macro (ApplyTaxonomy (Some sample_mapping) (zero_Event\<lparr>ev_RuleID := ''N1'', ev_Macro := ''M''\<rparr>)) = ''M'' \<and>
   ev_Micro (ApplyTaxonomy (Some sample_mapping) (zero_Event\<lparr>ev_RuleID := ''N1'', ev_Macro := ''M''\<rparr>)) = ''second''"
  using taxonomy_stamp [of "Some sample_mapping" "zero_Event\<lparr>ev_RuleID := ''N1'', ev_Macro := ''M''\<rparr>"]
  by (simp add: sample_mapping_def sample_nano_def ApplyTaxonomy_def LookupNano_def fill_def zero_Event_def)

text \<open>
  Looking a nano rule up in a loaded mapping gives its last definition in the file, and a
  self check with \<^verbatim>\<open>MustHave\<close> passes exactly when every required id is defined there.
\<close>

theorem mapping_lookup:
  assumes "readFile path = Some b" "unmarshal b = Some m" "LoadMapping readFile unmarshal path = Inr m'"
  shows "LookupNano (Some m') i = (if i = [] then None else find (\<lambda>n. nano_ID n = i) (rev (map_Nanos m))) \<and>
    (MustHave (Some m') is = None \<longleftrightarrow> (\<forall>j \<in> set is. j \<noteq> [] \<and> j \<in> nano_ID ` set (map_Nanos m)))"
proof -
  note lk = LookupNano_LoadMapping [OF assms]
  have "find (\<lambda>n. nano_ID n = j) (rev (map_Nanos m)) \<noteq> None \<longleftrightarrow> j \<in> nano_ID ` set (map_Nanos m)" for j
    by (auto simp: find_None_iff)
  then show ?thesis by (auto simp: MustHave_ok lk)
qed

theorem mapping_lookup_witness:
  "\<exists>m'. LoadMapping (\<lambda>p. Some []) (\<lambda>b. Some (sample_mapping\<lparr>map_byID := []\<rparr>)) ''mapping.yaml'' = Inr m' \<and>
     LookupNano (Some m') ''N1'' = Some (sample_nano ''N1'' ''second'') \<and> MustHave (Some m') [''N1'', ''N2''] = None"
proof -
  let ?m = "sample_mapping\<lparr>map_byID := []\<rparr>"
  obtain m' where m': "LoadMapping (\<lambda>p. Some []) (\<lambda>b. Some ?m) ''mapping.yaml'' = Inr m'"
    by (simp add: LoadMapping_def)
  show ?thesis
    using mapping_lookup [OF _ _ m', of "[]" ?m "''N1''" "[''N1'', ''N2'']"] m'
    by (simp add: sample_mapping_def sample_nano_def del: MustHave.simps)
qed

end
