(* ===== verification/GC_Correlator.thy ===== *)
theory GC_Correlator
  imports GC_Rules GC_Taxonomy "HOL-Library.Multiset"
begin

text \<open>
  The event correlator of \<^verbatim>\<open>internal/runner/correlation.go\<close>: a bounded ring of recent
  firings, the pairwise \<^verbatim>\<open>correlate\<close> boost of a rule and the multi-step chains of the
  behaviour catalogue. \<^verbatim>\<open>time.ParseDuration\<close>, which mixes integer and floating-point
  arithmetic, is the parameter \<open>parseDur\<close>.
\<close>

section \<open>State and operations\<close>

type_synonym duration_parser = "string \<Rightarrow> duration option"

record corrEntry =
  ce_ruleID :: string
  ce_entity :: string
  ce_anchor :: string
  ce_confBand :: string
  ce_when :: time

record correlator =
  cor_entries :: "corrEntry list"
  cor_cap :: nat
  cor_chains :: "Chain list"

definition parseDuration :: "duration_parser \<Rightarrow> string \<Rightarrow> duration \<Rightarrow> duration" where
  "parseDuration parseDur s fallback =
     (if s = [] then fallback else (case parseDur s of None \<Rightarrow> fallback | Some d \<Rightarrow> d))"

definition newCorrelator :: "int \<Rightarrow> correlator" where
  "newCorrelator cap =
     \<lparr>cor_entries = [], cor_cap = (if cap \<le> 0 then 1024 else nat cap), cor_chains = []\<rparr>"

definition setChains :: "correlator \<Rightarrow> Chain list \<Rightarrow> correlator" where
  "setChains c chs = c\<lparr>cor_chains := chs\<rparr>"

definition addFull :: "correlator \<Rightarrow> string \<Rightarrow> string \<Rightarrow> string \<Rightarrow> string \<Rightarrow> time \<Rightarrow> correlator" where
  "addFull c ruleID entity anchor confBand when =
     (let es = cor_entries c @ [\<lparr>ce_ruleID = ruleID, ce_entity = entity, ce_anchor = anchor,
                                  ce_confBand = confBand, ce_when = when\<rparr>]
      in c\<lparr>cor_entries := (if length es > cor_cap c then drop (length es - cor_cap c) es else es)\<rparr>)"

text \<open>The anchors decide when both sides have one, the entity ids otherwise.\<close>

definition boost_peer :: "Event \<Rightarrow> Rule \<Rightarrow> duration \<Rightarrow> time \<Rightarrow> corrEntry \<Rightarrow> bool" where
  "boost_peer e rule win now en \<longleftrightarrow>
     (if ce_ruleID en \<notin> set (rule_Correlate rule) then False
      else if time_sub now (ce_when en) > win then False
      else if ev_Anchor e \<noteq> [] \<and> ce_anchor en \<noteq> [] then \<not> (ev_Anchor e \<noteq> ce_anchor en)
      else if ent_ID (ev_Entity e) \<noteq> [] \<and> ce_entity en \<noteq> [] \<and> ce_entity en \<noteq> ent_ID (ev_Entity e)
      then False
      else True)"

definition matchBoost :: "duration_parser \<Rightarrow> correlator \<Rightarrow> Event \<Rightarrow> Rule \<Rightarrow> time \<Rightarrow> int" where
  "matchBoost parseDur c e rule now =
     (if rule_Correlate rule = [] then 0
      else
        (let win = parseDuration parseDur (rule_CorrelateWindow rule) (5 * minute)
         in case find (boost_peer e rule win now) (cor_entries c) of
              Some _ \<Rightarrow> (if rule_CorrelateBoost rule = 0 then 10 else rule_CorrelateBoost rule)
            | None \<Rightarrow> 0))"

definition stepMatches :: "string list \<Rightarrow> string \<Rightarrow> string \<Rightarrow> bool \<Rightarrow> bool" where
  "stepMatches step ruleID confBand anyHigh =
     (if anyHigh \<or> step = [] then confBand = ConfHigh \<or> confBand = ''HIGH''
      else ruleID \<in> set step)"

definition anchor_clash :: "string \<Rightarrow> corrEntry \<Rightarrow> bool" where
  "anchor_clash anchor en \<longleftrightarrow> anchor \<noteq> [] \<and> ce_anchor en \<noteq> [] \<and> anchor \<noteq> ce_anchor en"

definition anyRuleInWindow :: "correlator \<Rightarrow> string list \<Rightarrow> string \<Rightarrow> time \<Rightarrow> duration \<Rightarrow> bool" where
  "anyRuleInWindow c ids anchor now win =
     list_ex (\<lambda>en. \<not> time_sub now (ce_when en) > win \<and> ce_ruleID en \<in> set ids \<and> \<not> anchor_clash anchor en)
       (cor_entries c)"

definition anyHighInWindow :: "correlator \<Rightarrow> string \<Rightarrow> time \<Rightarrow> duration \<Rightarrow> bool" where
  "anyHighInWindow c anchor now win =
     list_ex (\<lambda>en. \<not> time_sub now (ce_when en) > win \<and> (ce_confBand en = ConfHigh \<or> ce_confBand en = ''HIGH'') \<and>
         \<not> anchor_clash anchor en)
       (cor_entries c)"

text \<open>The first step that the event satisfies; \<open>i\<close> is the index of the first step of the list.\<close>

fun findStep :: "nat \<Rightarrow> string list list \<Rightarrow> Event \<Rightarrow> nat option" where
  "findStep i [] e = None"
| "findStep i (step # steps) e =
     (if stepMatches step (ev_RuleID e) (ev_ConfBand e) (i = 0 \<and> step = []) then Some i
      else findStep (Suc i) steps e)"

definition priorStep :: "correlator \<Rightarrow> Event \<Rightarrow> time \<Rightarrow> duration \<Rightarrow> string list \<Rightarrow> bool" where
  "priorStep c e now win step =
     (if step = [] then anyHighInWindow c (ev_Anchor e) now win
      else anyRuleInWindow c step (ev_Anchor e) now win)"

definition evalChainProgress :: "correlator \<Rightarrow> Chain \<Rightarrow> Event \<Rightarrow> time \<Rightarrow> duration \<Rightarrow> int \<times> bool" where
  "evalChainProgress c ch e now win =
     (case findStep 0 (chain_Steps ch) e of
        None \<Rightarrow> (0, False)
      | Some curStep \<Rightarrow>
          if \<not> list_all (priorStep c e now win) (take curStep (chain_Steps ch)) then (0, False)
          else if curStep = 0 then (0, False)
          else (25, True))"

definition evalChain :: "duration_parser \<Rightarrow> correlator \<Rightarrow> Chain \<Rightarrow> Event \<Rightarrow> time \<Rightarrow> int \<times> bool" where
  "evalChain parseDur c ch e now =
     (if chain_Steps ch = [] then (0, False)
      else
        (let win = parseDuration parseDur (chain_Window ch) (30 * minute);
             lastIdx = length (chain_Steps ch) - 1
         in if \<not> stepMatches (chain_Steps ch ! lastIdx) (ev_RuleID e) (ev_ConfBand e)
                   (lastIdx = 0 \<and> chain_Steps ch ! 0 = [])
            then evalChainProgress c ch e now win
            else evalChainProgress c ch e now win))"

definition stampChain :: "Chain \<Rightarrow> Event \<Rightarrow> Event" where
  "stampChain ch e =
     (let e1 = e\<lparr>ev_ChainID := chain_ID ch\<rparr>;
          e2 = (if chain_Flag ch = ''evidence_loss'' then e1\<lparr>ev_EvidenceLoss := True\<rparr> else e1)
      in if chain_Score ch = ''CRITICAL'' then e2\<lparr>ev_Severity := SeverityCritical\<rparr> else e2)"

fun chainLoop :: "duration_parser \<Rightarrow> correlator \<Rightarrow> time \<Rightarrow> Chain list \<Rightarrow> int \<Rightarrow> Event \<Rightarrow> int \<times> Event" where
  "chainLoop parseDur c now [] best e = (best, e)"
| "chainLoop parseDur c now (ch # chs) best e =
     (let (boost, ok) = evalChain parseDur c ch e now
      in if ok \<and> boost > best then chainLoop parseDur c now chs boost (stampChain ch e)
         else chainLoop parseDur c now chs best e)"

definition matchChain :: "duration_parser \<Rightarrow> correlator \<Rightarrow> Event \<Rightarrow> time \<Rightarrow> int \<times> Event" where
  "matchChain parseDur c e now = chainLoop parseDur c now (cor_chains c) 0 e"

section \<open>The ring\<close>

definition firings :: "correlator \<Rightarrow> corrEntry list \<Rightarrow> correlator" where
  "firings c es = fold (\<lambda>en c. addFull c (ce_ruleID en) (ce_entity en) (ce_anchor en) (ce_confBand en) (ce_when en)) es c"

lemma addFull_entries:
  "cor_entries (addFull c r n a b w) =
     drop (Suc (length (cor_entries c)) - cor_cap c)
       (cor_entries c @ [\<lparr>ce_ruleID = r, ce_entity = n, ce_anchor = a, ce_confBand = b, ce_when = w\<rparr>])"
  by (simp add: addFull_def Let_def)

lemma addFull_frame [simp]:
  "cor_cap (addFull c r n a b w) = cor_cap c" "cor_chains (addFull c r n a b w) = cor_chains c"
  by (simp_all add: addFull_def Let_def)

lemma drop_drop_last:
  "drop (Suc (length (drop (length xs - n) xs)) - n) (drop (length xs - n) xs @ [y]) = drop (Suc (length xs) - n) (xs @ [y])"
  by (cases "length xs < n") (auto simp: Suc_diff_le)

lemma ring_last:
  assumes "cor_entries c = drop (length old - cor_cap c) old"
  shows "cor_entries (firings c es) = drop (length (old @ es) - cor_cap c) (old @ es) \<and> cor_cap (firings c es) = cor_cap c"
  using assms
proof (induction es arbitrary: c old)
  case (Cons en es)
  let ?c = "addFull c (ce_ruleID en) (ce_entity en) (ce_anchor en) (ce_confBand en) (ce_when en)"
  have "\<lparr>ce_ruleID = ce_ruleID en, ce_entity = ce_entity en, ce_anchor = ce_anchor en,
      ce_confBand = ce_confBand en, ce_when = ce_when en\<rparr> = en" by simp
  then have "cor_entries ?c = drop (length (old @ [en]) - cor_cap ?c) (old @ [en])"
    using drop_drop_last [of old "cor_cap c" en]
    by (simp only: addFull_entries Cons.prems addFull_frame length_append_singleton)
  from Cons.IH [OF this] show ?case by (simp add: firings_def)
qed (simp add: firings_def)

section \<open>Boosts\<close>

lemma find_case: "(case find P xs of None \<Rightarrow> a | Some _ \<Rightarrow> b) = (if \<exists>x \<in> set xs. P x then b else a)"
  by (induction xs) auto

lemma matchBoost_eq:
  "matchBoost parseDur c e rule now =
     (if \<exists>en \<in> set (cor_entries c).
           boost_peer e rule (parseDuration parseDur (rule_CorrelateWindow rule) (5 * minute)) now en
      then (if rule_CorrelateBoost rule = 0 then 10 else rule_CorrelateBoost rule) else 0)"
proof (cases "rule_Correlate rule = []")
  case True
  then have "\<not> boost_peer e rule win now en" for win en by (simp add: boost_peer_def)
  with True show ?thesis by (simp add: matchBoost_def)
qed (simp add: matchBoost_def Let_def find_case)

lemma findStep_Some:
  "findStep i steps e = Some j \<longleftrightarrow>
   i \<le> j \<and> j - i < length steps \<and> stepMatches (steps ! (j - i)) (ev_RuleID e) (ev_ConfBand e) False \<and>
   (\<forall>m < j - i. \<not> stepMatches (steps ! m) (ev_RuleID e) (ev_ConfBand e) False)"
proof (induction steps arbitrary: i)
  case (Cons s steps)
  have s: "stepMatches s (ev_RuleID e) (ev_ConfBand e) (i = 0 \<and> s = []) = stepMatches s (ev_RuleID e) (ev_ConfBand e) False"
    by (simp add: stepMatches_def)
  show ?case
  proof (cases "stepMatches s (ev_RuleID e) (ev_ConfBand e) False")
    case True
    then show ?thesis by (auto simp: s nth_Cons split: nat.splits)
  next
    case False
    have "i \<le> j \<and> j - i < length (s # steps) \<and> stepMatches ((s # steps) ! (j - i)) (ev_RuleID e) (ev_ConfBand e) False \<and>
        (\<forall>m < j - i. \<not> stepMatches ((s # steps) ! m) (ev_RuleID e) (ev_ConfBand e) False) \<longleftrightarrow>
        Suc i \<le> j \<and> j - Suc i < length steps \<and> stepMatches (steps ! (j - Suc i)) (ev_RuleID e) (ev_ConfBand e) False \<and>
        (\<forall>m < j - Suc i. \<not> stepMatches (steps ! m) (ev_RuleID e) (ev_ConfBand e) False)"
    proof (cases "j \<le> i")
      case False
      then obtain d where "j = Suc i + d" by (metis less_iff_Suc_add not_le add_Suc)
      then show ?thesis using \<open>\<not> stepMatches s _ _ _\<close> by (auto simp: nth_Cons less_Suc_eq_0_disj split: nat.splits)
    qed (use False in auto)
    with False show ?thesis by (simp add: s Cons.IH)
  qed
qed simp

section \<open>Chains\<close>

lemma evalChain_eq:
  "evalChain parseDur c ch e now =
     evalChainProgress c ch e now (parseDuration parseDur (chain_Window ch) (30 * minute))"
  by (simp add: evalChain_def evalChainProgress_def Let_def)

lemma evalChain_values: "evalChain parseDur c ch e now = (25, True) \<or> evalChain parseDur c ch e now = (0, False)"
  by (auto simp: evalChain_eq evalChainProgress_def split: option.splits)

definition chain_hit :: "duration_parser \<Rightarrow> correlator \<Rightarrow> time \<Rightarrow> Event \<Rightarrow> Chain \<Rightarrow> bool" where
  "chain_hit parseDur c now e ch \<longleftrightarrow>
     (\<exists>j < length (chain_Steps ch). 0 < j \<and>
        stepMatches (chain_Steps ch ! j) (ev_RuleID e) (ev_ConfBand e) False \<and>
        (\<forall>m < j. \<not> stepMatches (chain_Steps ch ! m) (ev_RuleID e) (ev_ConfBand e) False \<and>
           priorStep c e now (parseDuration parseDur (chain_Window ch) (30 * minute)) (chain_Steps ch ! m)))"

lemma evalChain_hit: "evalChain parseDur c ch e now = (if chain_hit parseDur c now e ch then (25, True) else (0, False))"
proof (cases "findStep 0 (chain_Steps ch) e")
  case None
  then have "\<not> chain_hit parseDur c now e ch"
    unfolding chain_hit_def by (metis findStep_Some diff_zero le0 option.distinct(1))
  with None show ?thesis by (simp add: evalChain_eq evalChainProgress_def)
next
  case (Some j)
  then have j: "j < length (chain_Steps ch)" "stepMatches (chain_Steps ch ! j) (ev_RuleID e) (ev_ConfBand e) False"
    "\<forall>m < j. \<not> stepMatches (chain_Steps ch ! m) (ev_RuleID e) (ev_ConfBand e) False"
    using findStep_Some [of 0 "chain_Steps ch" e j] by auto
  have uniq: "i = j" if "i < length (chain_Steps ch)" "stepMatches (chain_Steps ch ! i) (ev_RuleID e) (ev_ConfBand e) False"
    "\<forall>m < i. \<not> stepMatches (chain_Steps ch ! m) (ev_RuleID e) (ev_ConfBand e) False" for i
    using that j by (metis linorder_neqE_nat)
  let ?prior = "priorStep c e now (parseDuration parseDur (chain_Window ch) (30 * minute))"
  have "chain_hit parseDur c now e ch \<longleftrightarrow> 0 < j \<and> (\<forall>m < j. ?prior (chain_Steps ch ! m))"
    unfolding chain_hit_def using j uniq by metis
  moreover have "list_all ?prior (take j (chain_Steps ch)) \<longleftrightarrow> (\<forall>m < j. ?prior (chain_Steps ch ! m))"
    using j(1) by (auto simp: list_all_length)
  ultimately show ?thesis using Some by (simp add: evalChain_eq evalChainProgress_def)
qed

text \<open>
  A chain hit only asks that each earlier step fired at some time in the window: the order of
  the firings plays no role.
\<close>

lemma chain_hit_perm:
  assumes "mset (cor_entries c) = mset (cor_entries c')"
  shows "chain_hit parseDur c now e ch \<longleftrightarrow> chain_hit parseDur c' now e ch"
proof -
  have "set (cor_entries c) = set (cor_entries c')" using assms by (rule mset_eq_setD)
  then have "priorStep c e now win step = priorStep c' e now win step" for win step
    by (simp add: priorStep_def anyHighInWindow_def anyRuleInWindow_def list_ex_iff)
  then show ?thesis by (simp add: chain_hit_def)
qed

text \<open>A HIGH event satisfies an empty first step itself, so it never completes such a chain.\<close>

lemma high_event_no_chain: "chain_Steps ch = [] # steps \<Longrightarrow> ev_ConfBand e = ConfHigh \<Longrightarrow> \<not> chain_hit parseDur c now e ch"
  by (auto simp: chain_hit_def stepMatches_def intro: exI [of _ 0])

lemma stampChain_frame [simp]:
  "ev_RuleID (stampChain ch e) = ev_RuleID e" "ev_ConfBand (stampChain ch e) = ev_ConfBand e"
  "ev_Anchor (stampChain ch e) = ev_Anchor e" "ev_Entity (stampChain ch e) = ev_Entity e"
  "ev_Confidence (stampChain ch e) = ev_Confidence e" "ev_LearningOnly (stampChain ch e) = ev_LearningOnly e"
  "ev_DedupKey (stampChain ch e) = ev_DedupKey e" "ev_Response (stampChain ch e) = ev_Response e"
  "ev_Signals (stampChain ch e) = ev_Signals e" "ev_Process (stampChain ch e) = ev_Process e"
  "ev_Tactic (stampChain ch e) = ev_Tactic e" "ev_KillChainPhase (stampChain ch e) = ev_KillChainPhase e"
  "ev_Container (stampChain ch e) = ev_Container e" "ev_Timestamp (stampChain ch e) = ev_Timestamp e"
  by (simp_all add: stampChain_def Let_def)

lemma chainLoop_done: "chainLoop parseDur c now chs 25 e = (25, e)"
proof (induction chs)
  case (Cons ch chs)
  then show ?case using evalChain_values [of parseDur c ch e now] by (auto simp: Let_def)
qed simp

text \<open>The first chain that is hit decides: it stamps the event, later ones do not.\<close>

lemma matchChain_first:
  "matchChain parseDur c e now =
     (case find (chain_hit parseDur c now e) (cor_chains c) of
        None \<Rightarrow> (0, e)
      | Some ch \<Rightarrow> (25, stampChain ch e))"
proof -
  have "chainLoop parseDur c now chs 0 e =
      (case find (chain_hit parseDur c now e) chs of None \<Rightarrow> (0, e) | Some ch \<Rightarrow> (25, stampChain ch e))" for chs
    by (induction chs) (simp_all add: evalChain_hit chainLoop_done)
  then show ?thesis by (simp add: matchChain_def)
qed

lemma matchChain_boost: "fst (matchChain parseDur c e now) \<in> {0, 25}"
  by (simp add: matchChain_first split: option.splits)

section \<open>Correctness\<close>

text \<open>
  The ring holds exactly the most recent firings: after any sequence of firings its entries
  are the last \<^verbatim>\<open>cap\<close> of them, in order, so memory is bounded and nothing recent is lost.
\<close>

theorem ring_recent:
  "cor_entries (firings (setChains (newCorrelator n) chs) es) =
     drop (length es - (if n \<le> 0 then 1024 else nat n)) es"
  using ring_last [of "setChains (newCorrelator n) chs" "[]" es] by (simp add: setChains_def newCorrelator_def)

text \<open>
  The correlation boost of a rule fires exactly when a recorded firing of one of its peers
  lies in the rule's window and is not ruled out by the anchors (or, without anchors, by the entity
  ids), and then has the configured size.
\<close>

theorem boost_iff_peer:
  "matchBoost parseDur c e rule now =
     (if \<exists>en \<in> set (cor_entries c). ce_ruleID en \<in> set (rule_Correlate rule) \<and>
           \<not> time_sub now (ce_when en) > parseDuration parseDur (rule_CorrelateWindow rule) (5 * minute) \<and>
           (if ev_Anchor e \<noteq> [] \<and> ce_anchor en \<noteq> [] then ev_Anchor e = ce_anchor en
            else ent_ID (ev_Entity e) = [] \<or> ce_entity en = [] \<or> ce_entity en = ent_ID (ev_Entity e))
      then (if rule_CorrelateBoost rule = 0 then 10 else rule_CorrelateBoost rule) else 0)"
  unfolding matchBoost_eq boost_peer_def by (rule if_cong [OF bex_cong]) auto

text \<open>
  A chain hits exactly when the event satisfies a step after the first, no earlier step, and
  the ring has a firing for every earlier step in the window; the event is then stamped with the
  first chain of the catalogue that hits, and the boost is 25. Whether a chain hits does not depend
  on the order of the firings.
\<close>

theorem chain_first_hit:
  "matchChain parseDur c e now =
     (case find (chain_hit parseDur c now e) (cor_chains c) of None \<Rightarrow> (0, e) | Some ch \<Rightarrow> (25, stampChain ch e)) \<and>
   (mset (cor_entries c) = mset (cor_entries c') \<longrightarrow> chain_hit parseDur c now e ch = chain_hit parseDur c' now e ch)"
  using matchChain_first chain_hit_perm by blast

definition sample_ring :: correlator where
  "sample_ring = firings (setChains (newCorrelator 8)
       [\<lparr>chain_ID = ''CH'', chain_Window = [], chain_Score = ''CRITICAL'', chain_Flag = [], chain_Steps = [[''A''], [''B'']]\<rparr>])
     [\<lparr>ce_ruleID = ''A'', ce_entity = [], ce_anchor = ''nginx.service'', ce_confBand = [], ce_when = 5\<rparr>,
      \<lparr>ce_ruleID = ''X'', ce_entity = [], ce_anchor = ''nginx.service'', ce_confBand = [], ce_when = 6\<rparr>]"

theorem chain_first_hit_witness:
  "fst (matchChain (\<lambda>s. None) sample_ring (zero_Event\<lparr>ev_RuleID := ''B'', ev_Anchor := ''nginx.service''\<rparr>) 10) = 25 \<and>
   chain_hit (\<lambda>s. None) (sample_ring\<lparr>cor_entries := rev (cor_entries sample_ring)\<rparr>) 10
     (zero_Event\<lparr>ev_RuleID := ''B'', ev_Anchor := ''nginx.service''\<rparr>) (hd (cor_chains sample_ring))"
proof -
  let ?e = "zero_Event\<lparr>ev_RuleID := ''B'', ev_Anchor := ''nginx.service''\<rparr>"
  have h: "chain_hit (\<lambda>s. None) sample_ring 10 ?e (hd (cor_chains sample_ring))"
    unfolding chain_hit_def
    by (rule exI [of _ 1]) (simp add: sample_ring_def firings_def setChains_def newCorrelator_def addFull_def
      stepMatches_def zero_Event_def priorStep_def anyRuleInWindow_def anchor_clash_def parseDuration_def time_sub_def
      duration_defs min_int64_def max_int64_def)
  have "cor_chains sample_ring = [hd (cor_chains sample_ring)]"
    by (simp add: sample_ring_def firings_def setChains_def newCorrelator_def)
  then have "find (chain_hit (\<lambda>s. None) sample_ring 10 ?e) (cor_chains sample_ring) = Some (hd (cor_chains sample_ring))"
    using h by (metis find.simps(2))
  then show ?thesis
    using chain_first_hit [of "\<lambda>s. None" sample_ring ?e 10 "sample_ring\<lparr>cor_entries := rev (cor_entries sample_ring)\<rparr>"
      "hd (cor_chains sample_ring)"] h by simp
qed

end
