(* ===== verification/GC_Respond.thy ===== *)
theory GC_Respond
  imports GC_Config GC_Rules GC_Taxonomy GC_Gate
begin

text \<open>
  Active response: \<^verbatim>\<open>internal/respond/respond.go\<close>, \<^verbatim>\<open>kill_linux.go\<close> and
  \<^verbatim>\<open>isolate_linux.go\<close>. What an action does to the host is a list of effects. The outcomes
  of the calls the engine makes are arguments: \<open>w_kill\<close> and \<open>w_store\<close> give the error text of
  a failing \<^verbatim>\<open>kill\<close> or vault copy, \<open>w_iptables\<close> that of a failing command, \<open>w_fmt\<close>
  renders the other errors. The clock readings of an operation are arguments too.
\<close>

section \<open>State\<close>

definition ModeAudit :: string where "ModeAudit = ''audit''"
definition ModeEnforce :: string where "ModeEnforce = ''enforce''"
definition ActionAlertOnly :: string where "ActionAlertOnly = ''alert_only''"
definition ActionQuarantineFile :: string where "ActionQuarantineFile = ''quarantine_file''"
definition ActionKillProcess :: string where "ActionKillProcess = ''kill_process''"
definition ActionIsolateHost :: string where "ActionIsolateHost = ''isolate_host''"
definition ResultAuditLogged :: string where "ResultAuditLogged = ''audit_logged''"
definition ResultApplied :: string where "ResultApplied = ''applied''"
definition ResultSkipped :: string where "ResultSkipped = ''skipped''"
definition ResultDenied :: string where "ResultDenied = ''denied''"

lemmas action_defs = ActionAlertOnly_def ActionQuarantineFile_def ActionKillProcess_def ActionIsolateHost_def
lemmas mode_defs = ModeAudit_def ModeEnforce_def
lemmas result_defs = ResultAuditLogged_def ResultApplied_def ResultSkipped_def ResultDenied_def

record Plan =
  plan_Action :: string
  plan_Mode :: string
  plan_Reason :: string
  plan_Target :: string

text \<open>The vault is there or not; its contents are outside the engine.\<close>

record Engine =
  eng_cfg :: ResponseConfig
  eng_vault :: bool
  eng_limits :: "(string, time list) gomap"

datatype respond_error =
    VaultUnavailable | StoreFailed string | InvalidPID string | RefusePID int | KillFailed string
  | IPTablesFailed "string list" string

datatype effect = KillSent int | VaultStored string | IPTables "string list"

record world =
  w_euid :: int
  w_kill :: "int \<Rightarrow> string option"
  w_store :: "string \<Rightarrow> string option"
  w_iptables :: "string list \<Rightarrow> string option"
  w_fmt :: "respond_error \<Rightarrow> string"

definition NewEngine :: "ResponseConfig option \<Rightarrow> bool \<Rightarrow> Engine" where
  "NewEngine cfg vault =
     \<lparr>eng_cfg = (case cfg of None \<Rightarrow> zero_ResponseConfig | Some c \<Rightarrow> c), eng_vault = vault, eng_limits = []\<rparr>"

section \<open>Decide\<close>

definition mode :: "Engine \<Rightarrow> string" where
  "mode eng = (if rcf_Mode (eng_cfg eng) = ModeEnforce then ModeEnforce else ModeAudit)"

definition actionEnabled :: "Engine \<Rightarrow> string \<Rightarrow> bool" where
  "actionEnabled eng action =
     (if action = ActionAlertOnly then True
      else if action = ActionQuarantineFile then rcf_AllowQuarantine (eng_cfg eng)
      else if action = ActionKillProcess then rcf_AllowKillProcess (eng_cfg eng)
      else if action = ActionIsolateHost then rcf_AllowIsolateHost (eng_cfg eng)
      else False)"

definition defaultAction :: "Event \<Rightarrow> string" where
  "defaultAction e =
     (if ent_Type (ev_Entity e) = EntityFile \<and> ent_Path (ev_Entity e) \<noteq> [] then ActionQuarantineFile
      else if ent_Type (ev_Entity e) = EntityProcess \<and> EarlyPhase (ev_KillChainPhase e) then ActionKillProcess
      else if ev_Severity e = SeverityCritical then ActionKillProcess
      else ActionAlertOnly)"

definition targetFor :: "Event \<Rightarrow> string \<Rightarrow> string" where
  "targetFor e action =
     (if action = ActionQuarantineFile then
        (if ent_Path (ev_Entity e) \<noteq> [] then ent_Path (ev_Entity e) else ent_ID (ev_Entity e))
      else if action = ActionKillProcess then
        (case ev_Process e of
           Some p \<Rightarrow>
             if pc_PID p > 0 then ''pid:'' @ Itoa (pc_PID p)
             else if ent_Type (ev_Entity e) = EntityProcess \<and> ent_ID (ev_Entity e) \<noteq> []
             then ''pid:'' @ ent_ID (ev_Entity e) else []
         | None \<Rightarrow>
             if ent_Type (ev_Entity e) = EntityProcess \<and> ent_ID (ev_Entity e) \<noteq> []
             then ''pid:'' @ ent_ID (ev_Entity e) else [])
      else if action = ActionIsolateHost then ''host''
      else [])"

definition commProtected :: "string \<Rightarrow> string list \<Rightarrow> bool" where
  "commProtected comm ps = list_ex (\<lambda>p. p \<noteq> [] \<and> comm = p) ps"

definition isProtected :: "Engine \<Rightarrow> Event \<Rightarrow> string \<Rightarrow> bool" where
  "isProtected eng e target =
     (if (case ev_Process e of
            Some p \<Rightarrow> pc_PID p \<in> set (rcf_ProtectedPIDs (eng_cfg eng)) \<or>
                      commProtected (pc_Comm p) (rcf_ProtectedComms (eng_cfg eng))
          | None \<Rightarrow> False) then True
      else if list_ex (\<lambda>p. target = ''pid:'' @ Itoa p) (rcf_ProtectedPIDs (eng_cfg eng)) then True
      else (case ev_Process e of
              Some p \<Rightarrow> commProtected (pc_Comm p) (rcf_ProtectedComms (eng_cfg eng))
            | None \<Rightarrow> False))"

definition sev_order :: "(string \<times> int) list" where
  "sev_order = [(SeverityInfo, 0), (SeverityLow, 1), (SeverityMedium, 2), (SeverityHigh, 3), (SeverityCritical, 4)]"

definition sev_want :: "(string \<times> int) list" where
  "sev_want = [(''info'', 0), (''low'', 1), (''medium'', 2), (''high'', 3), (''critical'', 4)]"

definition severityAtLeast :: "Severity \<Rightarrow> string \<Rightarrow> bool" where
  "severityAtLeast sev want = (if want = [] then True else gget 0 sev_order sev \<ge> gget 0 sev_want want)"

definition rateLimitOK :: "Engine \<Rightarrow> time \<Rightarrow> string \<Rightarrow> bool \<times> Engine" where
  "rateLimitOK eng now action =
     (if rcf_RateLimitPerActionPerMin (eng_cfg eng) \<le> 0 \<or> action = ActionAlertOnly then (True, eng)
      else
        (let kept = filter (\<lambda>t. now - minute < t) (gget [] (eng_limits eng) action)
         in (int (length kept) < rcf_RateLimitPerActionPerMin (eng_cfg eng),
             eng\<lparr>eng_limits := gput action kept (eng_limits eng)\<rparr>)))"

definition recordRate :: "Engine \<Rightarrow> time \<Rightarrow> string \<Rightarrow> Engine" where
  "recordRate eng now action =
     (if rcf_RateLimitPerActionPerMin (eng_cfg eng) \<le> 0 then eng
      else eng\<lparr>eng_limits := gput action (gget [] (eng_limits eng) action @ [now]) (eng_limits eng)\<rparr>)"

definition alertPlan :: "Engine \<Rightarrow> string \<Rightarrow> string \<Rightarrow> Plan" where
  "alertPlan eng reason target =
     \<lparr>plan_Action = ActionAlertOnly, plan_Mode = mode eng, plan_Reason = reason, plan_Target = target\<rparr>"

definition chosenAction :: "Event \<Rightarrow> Rule \<Rightarrow> string" where
  "chosenAction e rule =
     (if rr_Action (rule_Response rule) = [] then defaultAction e else rr_Action (rule_Response rule))"

definition Decide :: "world \<Rightarrow> time \<Rightarrow> Engine \<Rightarrow> Event \<Rightarrow> Rule \<Rightarrow> Plan \<times> Engine" where
  "Decide w now eng e rule =
     (if \<not> rcf_Enabled (eng_cfg eng) \<or> rcf_KillSwitch (eng_cfg eng)
      then (alertPlan eng ''response_disabled'' [], eng)
      else if ev_LearningOnly e then (alertPlan eng ''learning_only'' [], eng)
      else if ev_Confidence e < rcf_MinConfidence (eng_cfg eng)
      then (alertPlan eng ''below_min_confidence'' [], eng)
      else if \<not> severityAtLeast (ev_Severity e) (rcf_MinSeverity (eng_cfg eng))
      then (alertPlan eng ''below_min_severity'' [], eng)
      else
        (let action = chosenAction e rule
         in if \<not> actionEnabled eng action then (alertPlan eng ''action_disabled'' [], eng)
            else
              (let target = targetFor e action
               in if isProtected eng e target then (alertPlan eng ''protected_target'' target, eng)
                  else if rcf_RequireRoot (eng_cfg eng) \<and> w_euid w \<noteq> 0 \<and> action \<noteq> ActionAlertOnly
                  then (alertPlan eng ''require_root'' target, eng)
                  else
                    (let (ok, eng1) = rateLimitOK eng now action
                     in if \<not> ok then (alertPlan eng1 ''rate_limited'' target, eng1)
                        else (\<lparr>plan_Action = action, plan_Mode = mode eng1, plan_Reason = ''policy_match'',
                               plan_Target = target\<rparr>, eng1)))))"

section \<open>Act\<close>

definition parsePIDTarget :: "string \<Rightarrow> respond_error + int" where
  "parsePIDTarget target0 =
     (let target = TrimPrefix (TrimSpace target0) ''pid:''
      in case Atoi (TrimSpace target) of
           None \<Rightarrow> Inl (InvalidPID target)
         | Some pid \<Rightarrow> if pid \<le> 0 then Inl (InvalidPID target) else Inr pid)"

definition killProcess :: "world \<Rightarrow> string \<Rightarrow> respond_error option \<times> effect list" where
  "killProcess w target =
     (case parsePIDTarget target of
        Inl e \<Rightarrow> (Some e, [])
      | Inr pid \<Rightarrow>
          if pid \<le> 1 then (Some (RefusePID pid), [])
          else (case w_kill w pid of
                  Some msg \<Rightarrow> (Some (KillFailed msg), [])
                | None \<Rightarrow> (None, [KillSent pid])))"

definition quarantineFile :: "world \<Rightarrow> Engine \<Rightarrow> string \<Rightarrow> respond_error option \<times> effect list" where
  "quarantineFile w eng path =
     (if \<not> eng_vault eng \<or> path = [] then (Some VaultUnavailable, [])
      else (case w_store w path of
              Some msg \<Rightarrow> (Some (StoreFailed msg), [])
            | None \<Rightarrow> (None, [VaultStored path])))"

definition runIPTables :: "world \<Rightarrow> string list \<Rightarrow> respond_error option \<times> effect list" where
  "runIPTables w args =
     (case w_iptables w args of
        Some msg \<Rightarrow> (Some (IPTablesFailed args msg), [])
      | None \<Rightarrow> (None, [IPTables args]))"

text \<open>A list of commands, stopping at the first one that fails.\<close>

fun runAll :: "world \<Rightarrow> string list list \<Rightarrow> respond_error option \<times> effect list" where
  "runAll w [] = (None, [])"
| "runAll w (a # as) =
     (case runIPTables w a of
        (Some e, fx) \<Rightarrow> (Some e, fx)
      | (None, fx) \<Rightarrow> (let (r, fx') = runAll w as in (r, fx @ fx')))"

definition acceptArgs :: "string \<Rightarrow> string \<Rightarrow> string list" where
  "acceptArgs chain cidr = [''-A'', chain, ''-d'', cidr, ''-j'', ''ACCEPT'']"

definition acceptCIDR :: "world \<Rightarrow> string \<Rightarrow> effect list" where
  "acceptCIDR w cidr0 =
     (let cidr = TrimSpace cidr0
      in if cidr = [] then []
         else concat (map (\<lambda>chain. snd (runIPTables w (acceptArgs chain cidr))) [''INPUT'', ''OUTPUT'']))"

definition isolateHost :: "world \<Rightarrow> Engine \<Rightarrow> respond_error option \<times> effect list" where
  "isolateHost w eng =
     (let allow = [''127.0.0.0/8'', ''::1/128''] @ rcf_IsolationAllowlistCIDRs (eng_cfg eng)
      in case runAll w [[''-A'', ''INPUT'', ''-i'', ''lo'', ''-j'', ''ACCEPT''],
                        [''-A'', ''OUTPUT'', ''-o'', ''lo'', ''-j'', ''ACCEPT'']] of
           (Some e, fx) \<Rightarrow> (Some e, fx)
         | (None, fx) \<Rightarrow>
             (let fx1 = fx @ concat (map (acceptCIDR w) allow);
                  (r, fx2) = runAll w [[''-A'', ''INPUT'', ''-j'', ''DROP''], [''-A'', ''OUTPUT'', ''-j'', ''DROP'']]
              in (r, fx1 @ fx2)))"

text \<open>\<open>now1\<close> is the reading for the latency, \<open>now2\<close> the one the rate limit stores.\<close>

definition ApplyPlan ::
  "world \<Rightarrow> time \<Rightarrow> time \<Rightarrow> Engine \<Rightarrow> Plan \<Rightarrow> Event \<Rightarrow> time \<Rightarrow> Engine \<times> Event \<times> effect list" where
  "ApplyPlan w now1 now2 eng plan e observedAt =
     (let latency = (if IsZero observedAt then 0 else Milliseconds (time_sub now1 observedAt));
          rc = \<lparr>rc_Action = plan_Action plan, rc_Mode = plan_Mode plan, rc_Result = [],
                rc_Reason = plan_Reason plan, rc_Target = plan_Target plan, rc_LoopLatencyMS = latency\<rparr>;
          skipped = (eng, e\<lparr>ev_Response := Some (rc\<lparr>rc_Result := ResultSkipped\<rparr>)\<rparr>, [])
      in if plan_Action plan = ActionAlertOnly then skipped
         else if plan_Mode plan = ModeAudit
         then (eng, e\<lparr>ev_Response := Some (rc\<lparr>rc_Result := ResultAuditLogged\<rparr>)\<rparr>, [])
         else if plan_Action plan \<notin> {ActionQuarantineFile, ActionKillProcess, ActionIsolateHost} then skipped
         else
           (let (err, fx) =
                  (if plan_Action plan = ActionQuarantineFile then quarantineFile w eng (plan_Target plan)
                   else if plan_Action plan = ActionKillProcess then killProcess w (plan_Target plan)
                   else isolateHost w eng)
            in case err of
                 Some er \<Rightarrow>
                   (eng, e\<lparr>ev_Response := Some (rc\<lparr>rc_Result := ResultDenied,
                        rc_Reason := plan_Reason plan @ '': '' @ w_fmt w er\<rparr>)\<rparr>, fx)
               | None \<Rightarrow>
                   (recordRate eng now2 (plan_Action plan),
                    e\<lparr>ev_Response := Some (rc\<lparr>rc_Result := ResultApplied\<rparr>)\<rparr>, fx)))"

text \<open>What the runner does with an event: decide, then act.\<close>

definition Act :: "world \<Rightarrow> time \<times> time \<times> time \<Rightarrow> Engine \<Rightarrow> Event \<Rightarrow> Rule \<Rightarrow> time \<Rightarrow> Engine \<times> Event \<times> effect list" where
  "Act w ts eng e rule observedAt =
     (case ts of (t0, t1, t2) \<Rightarrow>
        (let (plan, eng1) = Decide w t0 eng e rule in ApplyPlan w t1 t2 eng1 plan e observedAt))"

section \<open>Deciding\<close>

definition act_allowed :: "world \<Rightarrow> time \<Rightarrow> Engine \<Rightarrow> Event \<Rightarrow> Rule \<Rightarrow> bool" where
  "act_allowed w now eng e rule \<longleftrightarrow>
     rcf_Enabled (eng_cfg eng) \<and> \<not> rcf_KillSwitch (eng_cfg eng) \<and> \<not> ev_LearningOnly e \<and>
     rcf_MinConfidence (eng_cfg eng) \<le> ev_Confidence e \<and>
     severityAtLeast (ev_Severity e) (rcf_MinSeverity (eng_cfg eng)) \<and>
     actionEnabled eng (chosenAction e rule) \<and>
     \<not> isProtected eng e (targetFor e (chosenAction e rule)) \<and>
     (rcf_RequireRoot (eng_cfg eng) \<longrightarrow> w_euid w = 0) \<and>
     fst (rateLimitOK eng now (chosenAction e rule))"

lemma rateLimitOK_frame [simp]:
  "eng_cfg (snd (rateLimitOK eng now a)) = eng_cfg eng" "eng_vault (snd (rateLimitOK eng now a)) = eng_vault eng"
  "mode (snd (rateLimitOK eng now a)) = mode eng"
  by (simp_all add: rateLimitOK_def Let_def mode_def)

lemma recordRate_frame [simp]:
  "eng_cfg (recordRate eng now a) = eng_cfg eng" "eng_vault (recordRate eng now a) = eng_vault eng"
  by (simp_all add: recordRate_def)

lemma Decide_cfg: "eng_cfg (snd (Decide w now eng e rule)) = eng_cfg eng"
  by (simp add: Decide_def Let_def split_beta)

lemma Decide_mode: "plan_Mode (fst (Decide w now eng e rule)) = mode eng"
  by (simp add: Decide_def Let_def split_beta alertPlan_def)

text \<open>An action other than an alert is planned exactly when every guard lets it through.\<close>

lemma Decide_action_iff:
  assumes "a \<noteq> ActionAlertOnly"
  shows "plan_Action (fst (Decide w now eng e rule)) = a \<longleftrightarrow> act_allowed w now eng e rule \<and> chosenAction e rule = a"
  using assms by (auto simp: Decide_def Let_def split_beta alertPlan_def act_allowed_def not_less)

lemma Decide_plan:
  assumes "plan_Action (fst (Decide w now eng e rule)) \<noteq> ActionAlertOnly"
  shows "fst (Decide w now eng e rule) =
      \<lparr>plan_Action = chosenAction e rule, plan_Mode = mode eng, plan_Reason = ''policy_match'',
       plan_Target = targetFor e (chosenAction e rule)\<rparr>"
    and "act_allowed w now eng e rule"
    and "snd (Decide w now eng e rule) = snd (rateLimitOK eng now (chosenAction e rule))"
  using assms by (auto simp: Decide_def Let_def split_beta alertPlan_def act_allowed_def not_less split: if_splits)

lemma severityAtLeast_known:
  assumes "i < 5" "j < 5"
  defines "s \<equiv> [SeverityInfo, SeverityLow, SeverityMedium, SeverityHigh, SeverityCritical]"
  shows "severityAtLeast (s ! i) (s ! j) \<longleftrightarrow> j \<le> i"
proof -
  have "i = 0 \<or> i = 1 \<or> i = 2 \<or> i = 3 \<or> i = 4" "j = 0 \<or> j = 1 \<or> j = 2 \<or> j = 3 \<or> j = 4" using assms(1,2) by auto
  then show ?thesis
    by (elim disjE) (simp_all add: s_def severityAtLeast_def sev_order_def sev_want_def gget_def severity_defs)
qed

text \<open>A severity name that is not in the table sets no bar.\<close>

lemma severityAtLeast_unknown: "map_of sev_want want = None \<Longrightarrow> severityAtLeast sev want"
  by (simp add: severityAtLeast_def gget_def sev_order_def split: option.splits)

section \<open>Acting\<close>

lemma killProcess_effects: "x \<in> set (snd (killProcess w target)) \<Longrightarrow> \<exists>p. x = KillSent p \<and> parsePIDTarget target = Inr p \<and> 1 < p"
  by (auto simp: killProcess_def split: sum.splits option.splits if_splits)

lemma quarantineFile_effects: "x \<in> set (snd (quarantineFile w eng path)) \<Longrightarrow> x = VaultStored path \<and> eng_vault eng \<and> path \<noteq> []"
  by (auto simp: quarantineFile_def split: option.splits if_splits)

lemma runIPTables_effects: "x \<in> set (snd (runIPTables w a)) \<Longrightarrow> x = IPTables a"
  by (auto simp: runIPTables_def split: option.splits)

lemma runAll_effects: "x \<in> set (snd (runAll w as)) \<Longrightarrow> \<exists>a \<in> set as. x = IPTables a"
proof (induction as)
  case (Cons a as)
  then show ?case using runIPTables_effects [of x w a]
    by (auto simp: Let_def split: prod.splits option.splits)
qed simp

lemma acceptCIDR_effects: "x \<in> set (acceptCIDR w c) \<Longrightarrow> \<exists>chain. x = IPTables (acceptArgs chain (TrimSpace c))"
  by (auto simp: acceptCIDR_def Let_def dest!: runIPTables_effects split: if_splits)

lemma isolateHost_effects: "x \<in> set (snd (isolateHost w eng)) \<Longrightarrow> \<exists>a. x = IPTables a"
proof -
  assume x: "x \<in> set (snd (isolateHost w eng))"
  obtain r1 f1 r2 f2 where runs:
    "runAll w [[''-A'', ''INPUT'', ''-i'', ''lo'', ''-j'', ''ACCEPT''],
       [''-A'', ''OUTPUT'', ''-o'', ''lo'', ''-j'', ''ACCEPT'']] = (r1, f1)"
    "runAll w [[''-A'', ''INPUT'', ''-j'', ''DROP''], [''-A'', ''OUTPUT'', ''-j'', ''DROP'']] = (r2, f2)"
    by fastforce
  have ipt: "\<exists>a. y = IPTables a" if "y \<in> set f1 \<or> y \<in> set f2 \<or> (\<exists>c. y \<in> set (acceptCIDR w c))" for y
    using that runs runAll_effects acceptCIDR_effects by (metis snd_conv)
  have "x \<in> set f1 \<or> x \<in> set f2 \<or> (\<exists>c. x \<in> set (acceptCIDR w c))"
    using x unfolding isolateHost_def Let_def runs by (cases r1) (auto simp del: runAll.simps)
  then show ?thesis by (rule ipt)
qed

lemma ApplyPlan_audit: "plan_Mode plan \<noteq> ModeEnforce \<Longrightarrow> plan_Mode plan = ModeAudit \<Longrightarrow> snd (snd (ApplyPlan w t1 t2 eng plan e obs)) = []"
  by (simp add: ApplyPlan_def Let_def)

lemma ApplyPlan_effects:
  assumes "x \<in> set (snd (snd (ApplyPlan w t1 t2 eng plan e obs)))"
  shows "plan_Mode plan \<noteq> ModeAudit \<and>
    (plan_Action plan = ActionQuarantineFile \<and> x = VaultStored (plan_Target plan) \<and> eng_vault eng \<or>
     plan_Action plan = ActionKillProcess \<and> (\<exists>p. x = KillSent p \<and> parsePIDTarget (plan_Target plan) = Inr p \<and> 1 < p) \<or>
     plan_Action plan = ActionIsolateHost \<and> (\<exists>a. x = IPTables a))"
  using assms killProcess_effects [of x w "plan_Target plan"] quarantineFile_effects [of x w eng "plan_Target plan"]
    isolateHost_effects [of x w eng]
  by (auto simp: ApplyPlan_def Let_def split_beta split: if_splits option.splits)

lemma Act_effects:
  assumes "x \<in> set (snd (snd (Act w ts eng e rule obs)))"
  shows "mode eng = ModeEnforce \<and> act_allowed w (fst ts) eng e rule \<and>
    (chosenAction e rule = ActionQuarantineFile \<and> x = VaultStored (targetFor e ActionQuarantineFile) \<or>
     chosenAction e rule = ActionKillProcess \<and>
       (\<exists>p. x = KillSent p \<and> parsePIDTarget (targetFor e ActionKillProcess) = Inr p \<and> 1 < p) \<or>
     chosenAction e rule = ActionIsolateHost \<and> (\<exists>a. x = IPTables a))"
proof -
  obtain t0 t1 t2 where ts: "ts = (t0, t1, t2)" by (cases ts)
  let ?d = "Decide w t0 eng e rule"
  have fx: "x \<in> set (snd (snd (ApplyPlan w t1 t2 (snd ?d) (fst ?d) e obs)))"
    using assms by (simp add: Act_def ts split_beta)
  note A = ApplyPlan_effects [OF fx]
  then have na: "plan_Action (fst ?d) \<noteq> ActionAlertOnly" by (auto simp: action_defs)
  have "mode eng = ModeEnforce" using A Decide_plan(1) [OF na] by (simp add: mode_def split: if_splits)
  with A Decide_plan(1,2) [OF na] show ?thesis by (auto simp: ts)
qed

lemma pid_target_roundtrip: "0 < p \<Longrightarrow> p \<le> max_int64 \<Longrightarrow> parsePIDTarget (''pid:'' @ Itoa p) = Inr p"
proof -
  assume p: "0 < p" "p \<le> max_int64"
  have d: "Itoa p \<noteq> [] \<and> list_all is_digit (Itoa p)" using p(1) by (simp add: Itoa_def nat_digits_all_digits)
  then have hl: "is_digit (hd (Itoa p)) \<and> is_digit (last (Itoa p))" by (simp add: list_all_iff)
  have sp: "is_digit c \<Longrightarrow> \<not> is_space c" for c by (auto simp: char_class_defs)
  have t1: "TrimSpace (Itoa p) = Itoa p" using d hl sp by (intro TrimSpace_ends) auto
  have t2: "TrimSpace (''pid:'' @ Itoa p) = ''pid:'' @ Itoa p"
    using d hl sp by (intro TrimSpace_ends) (auto simp: is_space_def)
  have "Atoi (Itoa p) = Some p" using p by (intro Atoi_Itoa) (auto simp: min_int64_def)
  then show ?thesis using p(1) by (simp add: parsePIDTarget_def t1 t2 [simplified] TrimPrefix_def HasPrefix_def)
qed

section \<open>The rate limit is a sliding-window gate\<close>

text \<open>
  One serialised round of the engine for an action that succeeds: the check of \<open>Decide\<close> and,
  when it passes, the record of \<open>ApplyPlan\<close>. The alert action is never limited.
\<close>

datatype host_action = Quarantine | Kill | Isolate

fun action_name :: "host_action \<Rightarrow> string" where
  "action_name Quarantine = ActionQuarantineFile"
| "action_name Kill = ActionKillProcess"
| "action_name Isolate = ActionIsolateHost"

lemma action_name_inj [simp]: "action_name a = action_name b \<longleftrightarrow> a = b"
  and action_name_not_alert [simp]: "action_name a \<noteq> ActionAlertOnly"
  by (cases a; cases b; simp add: action_defs) (cases a; simp add: action_defs)

definition rateRound :: "Engine \<Rightarrow> time \<times> time \<Rightarrow> host_action \<Rightarrow> bool \<times> Engine" where
  "rateRound eng c a =
     (let (ok, eng1) = rateLimitOK eng (fst c) (action_name a)
      in (ok, if ok then recordRate eng1 (snd c) (action_name a) else eng1))"

definition rate_rel :: "int \<Rightarrow> Engine \<Rightarrow> time \<Rightarrow> (host_action \<times> time) list \<Rightarrow> bool" where
  "rate_rel n eng T H \<longleftrightarrow>
     rcf_RateLimitPerActionPerMin (eng_cfg eng) = n \<and> (\<forall>(a, t) \<in> set H. t \<le> T) \<and>
     (\<forall>a now. T \<le> now \<longrightarrow> filter (\<lambda>t. now - minute < t) (gget [] (eng_limits eng) (action_name a))
        = filter (\<lambda>t. now - minute < t) (stamps H a))"

lemma filter_window_twice:
  "x \<le> (y::int) \<Longrightarrow> filter (\<lambda>t. y - m < t) (filter (\<lambda>t. x - m < t) ts) = filter (\<lambda>t. y - m < t) ts"
  by (simp add: conj_commute) (rule filter_cong, auto)

lemma rateRound_verdict:
  assumes "rate_rel n eng T H" "T \<le> fst c" "0 < n"
  shows "fst (rateRound eng c a) \<longleftrightarrow> recent minute H a (fst c) < nat n"
  using assms by (auto simp: rateRound_def rateLimitOK_def Let_def rate_rel_def recent_stamps)

lemma rateRound_rel:
  assumes "rate_rel n eng T H" "T \<le> fst c" "fst c \<le> snd c" "0 < n"
  shows "rate_rel n (snd (rateRound eng c a)) (snd c) (if fst (rateRound eng c a) then H @ [(a, snd c)] else H)"
proof -
  have n: "rcf_RateLimitPerActionPerMin (eng_cfg eng) = n" and past: "\<forall>(a, t) \<in> set H. t \<le> T"
    and buf: "\<And>b now. T \<le> now \<Longrightarrow> filter (\<lambda>t. now - minute < t) (gget [] (eng_limits eng) (action_name b))
        = filter (\<lambda>t. now - minute < t) (stamps H b)"
    using assms(1) unfolding rate_rel_def by blast+
  have later: "\<forall>(a, t) \<in> set H. t \<le> snd c" using past assms(2,3) by force
  have "filter (\<lambda>t. now - minute < t) (filter (\<lambda>t. fst c - minute < t) (gget [] (eng_limits eng) (action_name b)))
      = filter (\<lambda>t. now - minute < t) (stamps H b)" if "snd c \<le> now" for b now
  proof -
    have "fst c \<le> now" "T \<le> now" using that assms(2,3) by auto
    then show ?thesis by (simp only: filter_window_twice buf)
  qed
  then show ?thesis
    using n assms(2-4) later buf
    by (auto simp: rateRound_def rateLimitOK_def recordRate_def Let_def rate_rel_def simp del: filter_filter)
qed

interpretation rate: sliding_gate rateRound
  "NewEngine (Some (cfg\<lparr>rcf_RateLimitPerActionPerMin := int (Suc n)\<rparr>)) v" fst snd snd "\<lambda>(a, b). a \<le> b"
  "Suc n" minute "rate_rel (int (Suc n))" for cfg v n
proof unfold_locales
  show "rate_rel (int (Suc n)) (NewEngine (Some (cfg\<lparr>rcf_RateLimitPerActionPerMin := int (Suc n)\<rparr>)) v) T []" for T
    by (simp add: rate_rel_def NewEngine_def gget_def)
  show "rate_rel (int (Suc n)) s T H \<Longrightarrow> (k, t) \<in> set H \<Longrightarrow> t \<le> T" for s T H k t
    by (auto simp: rate_rel_def)
  show "rate_rel (int (Suc n)) s T H \<Longrightarrow> (case c of (a, b) \<Rightarrow> a \<le> b) \<Longrightarrow> T \<le> fst c \<Longrightarrow>
      fst (rateRound s c k) = (recent minute H k (fst c) < Suc n)" for s T H c k
    using rateRound_verdict [of "int (Suc n)" s T H c k] by (simp only: nat_int)
  show "rate_rel (int (Suc n)) s T H \<Longrightarrow> (case c of (a, b) \<Rightarrow> a \<le> b) \<Longrightarrow> T \<le> fst c \<Longrightarrow>
      rate_rel (int (Suc n)) (snd (rateRound s c k)) (snd c)
        (if fst (rateRound s c k) then H @ [(k, snd c)] else H)" for s T H c k
    by (rule rateRound_rel) auto
qed auto

section \<open>Correctness\<close>


definition sample_engine :: Engine where
  "sample_engine = NewEngine (Some (defaultResponse\<lparr>rcf_Mode := ModeEnforce\<rparr>)) True"

definition sample_world :: world where
  "sample_world = \<lparr>w_euid = 0, w_kill = (\<lambda>p. None), w_store = (\<lambda>p. None), w_iptables = (\<lambda>a. None), w_fmt = (\<lambda>e. [])\<rparr>"

definition sample_root_event :: Event where
  "sample_root_event = zero_Event\<lparr>ev_RuleID := ''PROC_SUDDEN_ROOT'', ev_Confidence := 92, ev_Severity := SeverityCritical,
     ev_Entity := \<lparr>ent_Type = EntityProcess, ent_ID = ''4242'', ent_Path = [], ent_User = []\<rparr>\<rparr>"

lemmas sample_respond_defs = sample_engine_def sample_world_def sample_root_event_def NewEngine_def defaultResponse_def
  zero_ResponseConfig_def zero_Event_def


text \<open>
  Whatever the engine does to the host, it does in enforce mode, for an event the policy
  allows, with the action chosen for the event, and only to that action's target: it kills only
  the process named by the event, never process 1 or a protected pid, and stores only the event's
  own file.
\<close>

theorem Act_only_target:
  assumes "x \<in> set (snd (snd (Act w ts eng e rule obs)))"
  shows "mode eng = ModeEnforce \<and> act_allowed w (fst ts) eng e rule \<and>
    (case x of
       KillSent p \<Rightarrow> chosenAction e rule = ActionKillProcess \<and> parsePIDTarget (targetFor e ActionKillProcess) = Inr p \<and> 1 < p \<and>
         (\<forall>pc. ev_Process e = Some pc \<longrightarrow> 0 < pc_PID pc \<longrightarrow> pc_PID pc \<le> max_int64 \<longrightarrow>
            p = pc_PID pc \<and> p \<notin> set (rcf_ProtectedPIDs (eng_cfg eng)))
     | VaultStored f \<Rightarrow> chosenAction e rule = ActionQuarantineFile \<and> f = targetFor e ActionQuarantineFile
     | IPTables _ \<Rightarrow> chosenAction e rule = ActionIsolateHost)"
proof -
  note eff = Act_effects [OF assms]
  have "p = pc_PID pc \<and> p \<notin> set (rcf_ProtectedPIDs (eng_cfg eng))"
    if "chosenAction e rule = ActionKillProcess" "parsePIDTarget (targetFor e ActionKillProcess) = Inr p"
      "ev_Process e = Some pc" "0 < pc_PID pc" "pc_PID pc \<le> max_int64" for p pc
  proof -
    have t: "targetFor e ActionKillProcess = ''pid:'' @ Itoa (pc_PID pc)" using that by (simp add: targetFor_def action_defs)
    then have "p = pc_PID pc" using that pid_target_roundtrip [of "pc_PID pc"] by simp
    moreover have "\<not> isProtected eng e (targetFor e ActionKillProcess)" using eff that(1) by (simp add: act_allowed_def)
    ultimately show ?thesis using that(3) by (auto simp: isProtected_def split: if_splits)
  qed
  with eff show ?thesis by (cases x) (auto simp: action_defs)
qed

theorem Act_only_target_witness:
  "KillSent 4242 \<in> set (snd (snd (Act sample_world (7, 8, 9) sample_engine sample_root_event zero_Rule 5))) \<and>
   mode sample_engine = ModeEnforce \<and> act_allowed sample_world 7 sample_engine sample_root_event zero_Rule"
proof -
  have "KillSent 4242 \<in> set (snd (snd (Act sample_world (7, 8, 9) sample_engine sample_root_event zero_Rule 5)))"
    by code_simp
  then show ?thesis using Act_only_target [of "KillSent 4242"] by fastforce
qed

text \<open>
  Responses are rate limited: from a new engine with a positive limit, serialised rounds of
  check and record never let one action through more often than the limit in any minute, and refuse
  a round exactly when the minute before it is full.
\<close>

theorem responses_limited:
  assumes "0 < rcf_RateLimitPerActionPerMin cfg"
    and "\<forall>((a, b), _) \<in> set rs. a \<le> b" "sorted (concat (map (\<lambda>((a, b), _). [a, b]) rs))"
  shows "int (in_window minute (admitted snd rs (drive rateRound (NewEngine (Some cfg) v) rs)) k x) \<le> rcf_RateLimitPerActionPerMin cfg \<and>
    drive rateRound (NewEngine (Some cfg) v) rs = abstract_gate fst snd (nat (rcf_RateLimitPerActionPerMin cfg)) minute [] rs"
proof -
  let ?ts = "concat (map (\<lambda>((a, b), _). [a, b]) rs)"
  obtain n where n: "rcf_RateLimitPerActionPerMin cfg = int (Suc n)"
    using assms(1) by (metis gr0_implies_Suc zero_less_imp_eq_int)
  have m: "nat (rcf_RateLimitPerActionPerMin cfg) = Suc n" by (simp only: n nat_int)
  have cfg: "cfg\<lparr>rcf_RateLimitPerActionPerMin := int (Suc n)\<rparr> = cfg" using n by (cases cfg) simp
  have c: "rate.clocked T rs" if "\<forall>t \<in> set ?ts. T \<le> t" for T
    using assms(2,3) that by (induction rs arbitrary: T) auto
  have "\<exists>T. \<forall>t \<in> set ?ts. T \<le> t" using assms(3) by (cases ?ts) auto
  then obtain T where "rate.clocked T rs" using c by blast
  then show ?thesis
    using rate.at_most_cap [of T rs n cfg v k x] rate.drive_refines [OF rate.rel_init, of T rs n cfg v]
    unfolding cfg m by (simp add: n)
qed

theorem responses_limited_witness:
  "drive rateRound (NewEngine (Some (defaultResponse\<lparr>rcf_RateLimitPerActionPerMin := 1\<rparr>)) True)
     [((1, 2), Kill), ((3, 4), Kill), ((5, 6), Isolate)] = [True, False, True]"
  using responses_limited [of "defaultResponse\<lparr>rcf_RateLimitPerActionPerMin := 1\<rparr>" "[((1, 2), Kill), ((3, 4), Kill), ((5, 6), Isolate)]" True Kill 4]
  by (simp add: recent_def Let_def duration_defs)

section \<open>Deviations\<close>

text \<open>A protected pid is compared as text: with leading zeros it is not recognised, but still killed.\<close>

lemma protected_pid_as_text:
  "\<not> isProtected (NewEngine (Some (zero_ResponseConfig\<lparr>rcf_ProtectedPIDs := [500]\<rparr>)) False)
     (zero_Event\<lparr>ev_Entity := \<lparr>ent_Type = EntityProcess, ent_ID = ''0500'', ent_Path = [], ent_User = []\<rparr>\<rparr>) ''pid:0500'' \<and>
   parsePIDTarget ''pid:0500'' = Inr 500"
  by code_simp

end
