(* ===== verification/GC_Privesc.thy ===== *)
theory GC_Privesc
  imports GC_Anchor GC_Sensor GC_Config GC_Rules
begin

text \<open>
  The sudden-root detector, package \<^verbatim>\<open>internal/detect/privesc\<close>: the credential tracker
  (\<^verbatim>\<open>tracker.go\<close>) as a state machine over its operations, and the event it builds
  (\<^verbatim>\<open>privesc.go\<close>). When the tracker is full it evicts in the iteration order of a Go map,
  which is unspecified: the argument \<open>ord\<close> gives the keys in that order.
\<close>

section \<open>Tracker\<close>

record ProcessKey =
  pk_PID :: int
  pk_StartTime :: nat

record CredState =
  cr_UID :: int
  cr_EUID :: int
  cr_CapEff :: string
  cr_Comm :: string
  cr_Exe :: string
  cr_PPID :: int
  cr_Ancestors :: "string list"
  cr_Container :: string
  cr_SeenAt :: time

record Transition =
  tr_Key :: ProcessKey
  tr_Prev :: CredState
  tr_Curr :: CredState
  tr_Kind :: string
  tr_SeenAt :: time

record tracked =
  tk_state :: CredState
  tk_alerted :: bool

record Tracker =
  tck_procs :: "(ProcessKey, tracked) gomap"
  tck_maxSize :: nat

definition NewTracker :: "int \<Rightarrow> Tracker" where
  "NewTracker maxSize = \<lparr>tck_procs = [], tck_maxSize = (if maxSize \<le> 0 then 8192 else nat maxSize)\<rparr>"

definition trimLeftZeros :: "string \<Rightarrow> string" where
  "trimLeftZeros s =
     (let t = dropWhile (\<lambda>c. c = CHR ''0'' \<or> c = CHR '' '') s in if t = [] then ''0'' else t)"

definition capLooksFull :: "string \<Rightarrow> bool" where
  "capLooksFull capEff \<longleftrightarrow> length (trimLeftZeros capEff) \<ge> 10"

definition transitionKind :: "CredState \<Rightarrow> CredState \<Rightarrow> string" where
  "transitionKind prev cs =
     (let wasUnpriv = (cr_UID prev \<noteq> 0 \<and> cr_EUID prev \<noteq> 0)
      in if \<not> wasUnpriv then []
         else if cr_EUID cs = 0 then ''euid_root''
         else if \<not> capLooksFull (cr_CapEff prev) \<and> capLooksFull (cr_CapEff cs) then ''capeff_full''
         else [])"

fun evict :: "nat \<Rightarrow> ProcessKey list \<Rightarrow> (ProcessKey, tracked) gomap \<Rightarrow> (ProcessKey, tracked) gomap" where
  "evict lim [] m = m"
| "evict lim (k # ks) m = (if length m < lim then m else evict lim ks (gdel k m))"

definition pruneLocked :: "(ProcessKey list \<Rightarrow> ProcessKey list) \<Rightarrow> time \<Rightarrow> Tracker \<Rightarrow> Tracker" where
  "pruneLocked ord now t =
     (let m = filter (\<lambda>(k, v). \<not> cr_SeenAt (tk_state v) < now - 10 * minute) (tck_procs t)
      in t\<lparr>tck_procs := evict (tck_maxSize t * 3 div 4) (ord (gkeys m)) m\<rparr>)"

definition Observe ::
  "(ProcessKey list \<Rightarrow> ProcessKey list) \<Rightarrow> time \<Rightarrow> Tracker \<Rightarrow> ProcessKey \<Rightarrow> CredState \<Rightarrow> Transition option \<times> Tracker" where
  "Observe ord now t key cs0 =
     (if pk_PID key \<le> 0 then (None, t)
      else
        (let cs = (if IsZero (cr_SeenAt cs0) then cs0\<lparr>cr_SeenAt := now\<rparr> else cs0)
         in case map_of (tck_procs t) key of
              None \<Rightarrow>
                (let t1 = (if length (tck_procs t) \<ge> tck_maxSize t then pruneLocked ord (cr_SeenAt cs) t else t)
                 in (None, t1\<lparr>tck_procs := gput key \<lparr>tk_state = cs, tk_alerted = False\<rparr> (tck_procs t1)\<rparr>))
            | Some prev \<Rightarrow>
                if tk_alerted prev
                then (None, t\<lparr>tck_procs := gput key \<lparr>tk_state = cs, tk_alerted = True\<rparr> (tck_procs t)\<rparr>)
                else
                  (let kind = transitionKind (tk_state prev) cs;
                       t1 = t\<lparr>tck_procs := gput key \<lparr>tk_state = cs, tk_alerted = (kind \<noteq> [])\<rparr> (tck_procs t)\<rparr>
                   in (if kind = [] then None
                       else Some \<lparr>tr_Key = key, tr_Prev = tk_state prev, tr_Curr = cs, tr_Kind = kind,
                                  tr_SeenAt = cr_SeenAt cs\<rparr>, t1))))"

definition Forget :: "Tracker \<Rightarrow> ProcessKey \<Rightarrow> Tracker" where
  "Forget t key = t\<lparr>tck_procs := gdel key (tck_procs t)\<rparr>"

definition RetainOnly :: "Tracker \<Rightarrow> ProcessKey list \<Rightarrow> Tracker" where
  "RetainOnly t live = t\<lparr>tck_procs := filter (\<lambda>(k, _). k \<in> set live) (tck_procs t)\<rparr>"

definition TrackerLen :: "Tracker \<Rightarrow> nat" where
  "TrackerLen t = length (tck_procs t)"

section \<open>Runs of the tracker\<close>

datatype tracker_op =
    OpObserve "ProcessKey list \<Rightarrow> ProcessKey list" time ProcessKey CredState
  | OpForget ProcessKey
  | OpRetain "ProcessKey list"

fun tracker_step :: "Tracker \<Rightarrow> tracker_op \<Rightarrow> Transition option \<times> Tracker" where
  "tracker_step t (OpObserve ord now key cs) = Observe ord now t key cs"
| "tracker_step t (OpForget key) = (None, Forget t key)"
| "tracker_step t (OpRetain live) = (None, RetainOnly t live)"

text \<open>An iteration order visits every key.\<close>

fun op_ok :: "tracker_op \<Rightarrow> bool" where
  "op_ok (OpObserve ord _ _ _) \<longleftrightarrow> (\<forall>ks. set (ord ks) = set ks)"
| "op_ok _ \<longleftrightarrow> True"

inductive tracker_reach :: "int \<Rightarrow> Tracker \<Rightarrow> bool" for n where
  init: "tracker_reach n (NewTracker n)"
| step: "tracker_reach n t \<Longrightarrow> op_ok op \<Longrightarrow> tracker_reach n (snd (tracker_step t op))"

definition tracker_inv :: "Tracker \<Rightarrow> bool" where
  "tracker_inv t \<longleftrightarrow> distinct (gkeys (tck_procs t)) \<and> length (tck_procs t) \<le> tck_maxSize t \<and> 0 < tck_maxSize t \<and>
     (\<forall>k \<in> set (gkeys (tck_procs t)). 0 < pk_PID k)"

lemma evict_subset: "set (gkeys (evict lim ks m)) \<subseteq> set (gkeys m)" 
proof (induction ks arbitrary: m)
  case (Cons k ks)
  have "set (gkeys (gdel k m)) \<subseteq> set (gkeys m)" by (auto simp: gdel_def delete_keys)
  with Cons [of "gdel k m"] show ?case by auto
qed simp

lemma evict_distinct: "distinct (gkeys m) \<Longrightarrow> distinct (gkeys (evict lim ks m))"
  by (induction ks arbitrary: m) auto

lemma evict_length:
  "distinct (gkeys m) \<Longrightarrow> set (gkeys m) \<subseteq> set ks \<Longrightarrow> length (evict lim ks m) < lim \<or> evict lim ks m = []"
proof (induction ks arbitrary: m)
  case (Cons k ks)
  have "set (gkeys (gdel k m)) \<subseteq> set ks" using Cons.prems(2) by (auto simp: gdel_def delete_keys)
  with Cons.IH [of "gdel k m"] Cons.prems(1) show ?case by auto
qed simp

lemma prune_length:
  assumes "distinct (gkeys (tck_procs t))" "\<forall>ks. set (ord ks) = set ks" "0 < tck_maxSize t"
  shows "length (tck_procs (pruneLocked ord now t)) < tck_maxSize t"
proof -
  let ?m = "filter (\<lambda>(k, v). \<not> cr_SeenAt (tk_state v) < now - 10 * minute) (tck_procs t)"
  have "distinct (gkeys ?m)" by (rule distinct_filter_keys [OF assms(1)])
  from evict_length [OF this, of "ord (gkeys ?m)" "tck_maxSize t * 3 div 4"]
  show ?thesis using assms(2,3) by (auto simp: pruneLocked_def Let_def)
qed

lemma prune_keeps_inv:
  assumes "distinct (gkeys (tck_procs t))"
  shows "distinct (gkeys (tck_procs (pruneLocked ord now t)))"
    and "set (gkeys (tck_procs (pruneLocked ord now t))) \<subseteq> set (gkeys (tck_procs t))"
    and "tck_maxSize (pruneLocked ord now t) = tck_maxSize t"
proof -
  let ?m = "filter (\<lambda>(k, v). \<not> cr_SeenAt (tk_state v) < now - 10 * minute) (tck_procs t)"
  show "distinct (gkeys (tck_procs (pruneLocked ord now t)))"
    by (simp add: pruneLocked_def Let_def evict_distinct distinct_filter_keys [OF assms])
  have "set (gkeys ?m) \<subseteq> set (gkeys (tck_procs t))" by auto
  then show "set (gkeys (tck_procs (pruneLocked ord now t))) \<subseteq> set (gkeys (tck_procs t))"
    using evict_subset [of _ _ ?m] by (simp add: pruneLocked_def Let_def) blast
qed (simp add: pruneLocked_def Let_def)

lemma tracker_inv_put:
  "tracker_inv t \<Longrightarrow> key \<in> set (gkeys (tck_procs t)) \<Longrightarrow> tracker_inv (t\<lparr>tck_procs := gput key v (tck_procs t)\<rparr>)"
  using gkeys_gput [of key v "tck_procs t"] length_gput [of key v "tck_procs t"]
  by (simp add: tracker_inv_def insert_absorb)

lemma Observe_inv:
  assumes "tracker_inv t" "\<forall>ks. set (ord ks) = set ks"
  shows "tracker_inv (snd (Observe ord now t key cs))"
proof (cases "pk_PID key \<le> 0 \<or> map_of (tck_procs t) key \<noteq> None")
  case True
  then have "snd (Observe ord now t key cs) = t \<or>
      (\<exists>v. snd (Observe ord now t key cs) = t\<lparr>tck_procs := gput key v (tck_procs t)\<rparr>)"
    by (cases "map_of (tck_procs t) key") (auto simp: Observe_def Let_def)
  moreover have "key \<in> set (gkeys (tck_procs t))" if "snd (Observe ord now t key cs) \<noteq> t"
    using True that by (auto simp: Observe_def map_of_eq_None_iff simp flip: set_map)
  ultimately show ?thesis using assms(1) tracker_inv_put by metis
next
  case False
  define cs' where "cs' = (if IsZero (cr_SeenAt cs) then cs\<lparr>cr_SeenAt := now\<rparr> else cs)"
  define t1 where "t1 = (if length (tck_procs t) \<ge> tck_maxSize t then pruneLocked ord (cr_SeenAt cs') t else t)"
  have t1: "distinct (gkeys (tck_procs t1))" "set (gkeys (tck_procs t1)) \<subseteq> set (gkeys (tck_procs t))"
    "tck_maxSize t1 = tck_maxSize t" "length (tck_procs t1) < tck_maxSize t"
    using assms prune_keeps_inv [of t ord "cr_SeenAt cs'"] prune_length [of t ord "cr_SeenAt cs'"]
    by (auto simp: t1_def tracker_inv_def)
  have "snd (Observe ord now t key cs) = t1\<lparr>tck_procs := gput key \<lparr>tk_state = cs', tk_alerted = False\<rparr> (tck_procs t1)\<rparr>"
    using False by (simp add: Observe_def Let_def cs'_def t1_def)
  moreover have "\<forall>k \<in> set (gkeys (gput key v (tck_procs t1))). 0 < pk_PID k" for v
    using t1(2) assms(1) False unfolding gkeys_gput tracker_inv_def by (simp del: set_map) blast
  ultimately show ?thesis
    using t1 assms(1) by (simp add: tracker_inv_def length_gput del: set_map)
qed

lemma tracker_step_inv: "tracker_inv t \<Longrightarrow> op_ok op \<Longrightarrow> tracker_inv (snd (tracker_step t op))"
proof (cases op)
  case (OpForget key)
  assume "tracker_inv t"
  then show ?thesis using length_gdel_le [of key "tck_procs t"]
    by (auto simp: OpForget tracker_inv_def Forget_def gdel_def delete_keys distinct_removeAll simp flip: set_map)
next
  case (OpRetain live)
  assume "tracker_inv t"
  then show ?thesis
    using order_trans [OF length_filter_le [of "\<lambda>(k, _). k \<in> set live" "tck_procs t"]] distinct_filter_keys [of "tck_procs t"]
    by (auto simp: OpRetain tracker_inv_def RetainOnly_def)
qed (auto simp: Observe_inv)

lemma tracker_reach_inv: "tracker_reach n t \<Longrightarrow> tracker_inv t"
proof (induction rule: tracker_reach.induct)
  case init
  show ?case by (simp add: NewTracker_def tracker_inv_def)
qed (rule tracker_step_inv)

section \<open>What the tracker reports\<close>

definition seen :: "time \<Rightarrow> CredState \<Rightarrow> CredState" where
  "seen now cs = (if IsZero (cr_SeenAt cs) then cs\<lparr>cr_SeenAt := now\<rparr> else cs)"

text \<open>
  A transition is reported exactly for an instance that is tracked, not yet alerted, was
  unprivileged when last seen and is now root or holds a newly full capability set.
\<close>

lemma Observe_reports_iff:
  "fst (Observe ord now t key cs) = Some tr \<longleftrightarrow>
   0 < pk_PID key \<and>
   (\<exists>prev. map_of (tck_procs t) key = Some prev \<and> \<not> tk_alerted prev \<and>
      cr_UID (tk_state prev) \<noteq> 0 \<and> cr_EUID (tk_state prev) \<noteq> 0 \<and>
      (cr_EUID cs = 0 \<or> \<not> capLooksFull (cr_CapEff (tk_state prev)) \<and> capLooksFull (cr_CapEff cs)) \<and>
      tr = \<lparr>tr_Key = key, tr_Prev = tk_state prev, tr_Curr = seen now cs,
            tr_Kind = (if cr_EUID cs = 0 then ''euid_root'' else ''capeff_full''), tr_SeenAt = cr_SeenAt (seen now cs)\<rparr>)"
  by (cases "map_of (tck_procs t) key") (auto simp: Observe_def Let_def transitionKind_def seen_def)

lemma Observe_alerts:
  "fst (Observe ord now t key cs) = Some tr \<Longrightarrow> \<exists>v. map_of (tck_procs (snd (Observe ord now t key cs))) key = Some v \<and> tk_alerted v"
  by (cases "map_of (tck_procs t) key") (auto simp: Observe_def Let_def split: if_splits)

definition alerted :: "Tracker \<Rightarrow> ProcessKey \<Rightarrow> bool" where
  "alerted t k \<longleftrightarrow> (\<exists>v. map_of (tck_procs t) k = Some v \<and> tk_alerted v)"

definition tracks :: "Tracker \<Rightarrow> ProcessKey \<Rightarrow> bool" where
  "tracks t k \<longleftrightarrow> map_of (tck_procs t) k \<noteq> None"

lemma map_of_filter_key: "map_of (filter (\<lambda>(k, _). P k) m) k = (if P k then map_of m k else None)"
  by (induction m) auto

lemma evict_lookup: "map_of (evict lim ks m) k = Some v \<Longrightarrow> map_of m k = Some v"
proof (induction ks arbitrary: m)
  case (Cons a ks)
  then show ?case by (cases "length m < lim") (use Cons.IH [of "gdel a m"] in \<open>auto split: if_splits\<close>)
qed simp

lemma prune_lookup:
  "distinct (gkeys (tck_procs t)) \<Longrightarrow> map_of (tck_procs (pruneLocked ord now t)) k = Some v \<Longrightarrow> map_of (tck_procs t) k = Some v"
  using map_of_filter_val [of "tck_procs t" "\<lambda>v. \<not> cr_SeenAt (tk_state v) < now - 10 * minute" k]
  by (auto simp: pruneLocked_def Let_def dest!: evict_lookup split: option.splits if_splits)

text \<open>No operation clears the alert mark of an instance that stays tracked.\<close>

lemma step_keeps_alerted:
  assumes "distinct (gkeys (tck_procs t))" "alerted t k" "tracks (snd (tracker_step t op)) k"
  shows "alerted (snd (tracker_step t op)) k" "fst (tracker_step t op) \<noteq> Some tr \<or> tr_Key tr \<noteq> k"
proof -
  obtain v where v: "map_of (tck_procs t) k = Some v" "tk_alerted v" using assms(2) by (auto simp: alerted_def)
  show "alerted (snd (tracker_step t op)) k"
  proof (cases op)
    case (OpObserve ord now key cs)
    then show ?thesis
      using v assms(3) prune_lookup [OF assms(1)]
      by (cases "map_of (tck_procs t) key") (fastforce simp: Observe_def Let_def alerted_def tracks_def split: if_splits)+
  qed (use v assms(3) in \<open>auto simp: alerted_def tracks_def Forget_def RetainOnly_def map_of_filter_key split: if_splits\<close>)
  show "fst (tracker_step t op) \<noteq> Some tr \<or> tr_Key tr \<noteq> k"
  proof (cases op)
    case (OpObserve ord now key cs)
    then show ?thesis using v Observe_reports_iff [of ord now t key cs tr] by auto
  qed simp_all
qed

fun tracker_run :: "Tracker \<Rightarrow> tracker_op list \<Rightarrow> (Transition option \<times> Tracker) list" where
  "tracker_run t [] = []"
| "tracker_run t (op # ops) = tracker_step t op # tracker_run (snd (tracker_step t op)) ops"

definition reports :: "ProcessKey \<Rightarrow> (Transition option \<times> Tracker) list \<Rightarrow> nat" where
  "reports k outs = length (filter (\<lambda>(r, _). \<exists>tr. r = Some tr \<and> tr_Key tr = k) outs)"

lemma no_reports_when_alerted:
  assumes "tracker_inv t" "alerted t k" "list_all op_ok ops" "\<forall>(_, t') \<in> set (tracker_run t ops). tracks t' k"
  shows "reports k (tracker_run t ops) = 0"
  using assms
proof (induction ops arbitrary: t)
  case (Cons op ops)
  let ?s = "tracker_step t op"
  have d: "distinct (gkeys (tck_procs t))" using Cons.prems(1) by (simp add: tracker_inv_def)
  have tr: "tracks (snd ?s) k" using Cons.prems(4) by (auto split: prod.splits)
  have "reports k (tracker_run (snd ?s) ops) = 0"
    using Cons.prems step_keeps_alerted(1) [OF d Cons.prems(2) tr] by (intro Cons.IH tracker_step_inv) auto
  moreover have "\<not> (\<exists>x. fst ?s = Some x \<and> tr_Key x = k)"
    using step_keeps_alerted(2) [OF d Cons.prems(2) tr] by blast
  ultimately show ?case by (cases ?s) (simp add: reports_def)
qed (simp add: reports_def)

lemma at_most_one_report:
  assumes "tracker_inv t" "list_all op_ok ops" "\<forall>(_, t') \<in> set (tracker_run t ops). tracks t' k"
  shows "reports k (tracker_run t ops) \<le> 1"
  using assms
proof (induction ops arbitrary: t)
  case (Cons op ops)
  let ?s = "tracker_step t op"
  have inv: "tracker_inv (snd ?s)" using Cons.prems by (intro tracker_step_inv) auto
  have rest: "\<forall>(_, t') \<in> set (tracker_run (snd ?s) ops). tracks t' k" using Cons.prems(3) by auto
  show ?case
  proof (cases "\<exists>tr. fst ?s = Some tr \<and> tr_Key tr = k")
    case True
    then obtain ord now cs tr where op: "op = OpObserve ord now k cs" "fst ?s = Some tr"
      using Observe_reports_iff by (cases op) fastforce+
    then have "alerted (snd ?s) k" using Observe_alerts [of ord now t k cs tr] by (simp add: alerted_def)
    then have "reports k (tracker_run (snd ?s) ops) = 0"
      using inv rest Cons.prems(2) by (intro no_reports_when_alerted) auto
    then show ?thesis by (cases ?s) (simp add: reports_def)
  next
    case False
    have "reports k (tracker_run (snd ?s) ops) \<le> 1" using inv rest Cons.prems(2) by (intro Cons.IH) auto
    with False show ?thesis by (cases ?s) (auto simp: reports_def)
  qed
qed (simp add: reports_def)

section \<open>Detection\<close>

definition RuleSuddenRoot :: string where "RuleSuddenRoot = ''PROC_SUDDEN_ROOT''"

definition DefaultAllowedExeBasenames :: "string list" where
  "DefaultAllowedExeBasenames =
     [''sudo'', ''sudoedit'', ''su'', ''pkexec'', ''doas'', ''login'', ''sshd'', ''passwd'', ''chsh'',
      ''chfn'', ''newgrp'', ''gpasswd'', ''mount'', ''umount'', ''fusermount'', ''fusermount3'',
      ''ping'', ''ping6'', ''traceroute'', ''traceroute6'', ''crontab'', ''at'', ''newuidmap'',
      ''newgidmap'']"

definition DefaultAllowedAncestorComms :: "string list" where
  "DefaultAllowedAncestorComms = [''sudo'', ''su'', ''pkexec'', ''doas'', ''login'']"

definition operator_entries :: "string list \<Rightarrow> string list" where
  "operator_entries extra = filter (\<lambda>b. b \<noteq> []) (map (\<lambda>b. ToLower (TrimSpace b)) extra)"

definition allowedExeSet :: "string list \<Rightarrow> string list" where
  "allowedExeSet extra = map ToLower DefaultAllowedExeBasenames @ operator_entries extra"

definition allowedAncestorSet :: "string list \<Rightarrow> string list" where
  "allowedAncestorSet extra = map ToLower DefaultAllowedAncestorComms @ operator_entries extra"

definition isDefaultAllowedBasename :: "string \<Rightarrow> bool" where
  "isDefaultAllowedBasename base \<longleftrightarrow> base \<in> set (allowedExeSet [])"

definition stripDeletedSuffix :: "string \<Rightarrow> string" where
  "stripDeletedSuffix exe = TrimSpace (TrimSuffix exe '' (deleted)'')"

definition isTempPath :: "string \<Rightarrow> bool" where
  "isTempPath exe =
     (let low = ToLower exe
      in HasPrefix low ''/tmp/'' \<or> HasPrefix low ''/var/tmp/'' \<or> HasPrefix low ''/dev/shm/'' \<or>
         HasPrefix low ''/run/user/'')"

definition containsAny :: "string list \<Rightarrow> string list \<Rightarrow> bool" where
  "containsAny sigs prefixes \<longleftrightarrow> list_ex (\<lambda>s. list_ex (\<lambda>p. p = s \<or> HasPrefix s p) prefixes) sigs"

definition ancestorAllowlisted :: "Config \<Rightarrow> string list \<Rightarrow> bool" where
  "ancestorAllowlisted cfg ancs \<longleftrightarrow>
     list_ex (\<lambda>a. ToLower (TrimSpace a) \<in> set (allowedAncestorSet (sr_AllowedAncestorComms (cfg_SuddenRoot cfg)))) ancs"

definition ancestorComm :: "Transition \<Rightarrow> string" where
  "ancestorComm tr = (case cr_Ancestors (tr_Curr tr) of [] \<Rightarrow> [] | a # _ \<Rightarrow> a)"

definition isAllowlisted :: "Config \<Rightarrow> Transition \<Rightarrow> bool" where
  "isAllowlisted cfg tr =
     (let bases = allowedExeSet (sr_AllowedExeBasenames (cfg_SuddenRoot cfg));
          currBase = ToLower (Base (stripDeletedSuffix (cr_Exe (tr_Curr tr))));
          prevBase = ToLower (Base (stripDeletedSuffix (cr_Exe (tr_Prev tr))));
          currComm = ToLower (cr_Comm (tr_Curr tr));
          prevComm = ToLower (cr_Comm (tr_Prev tr))
      in if currBase \<in> set bases then True
         else if currComm \<in> set bases then True
         else if prevBase \<in> set bases then True
         else if prevComm \<in> set bases then True
         else ancestorAllowlisted cfg (cr_Ancestors (tr_Curr tr)))"

definition exe_signal :: "string \<Rightarrow> string list" where
  "exe_signal exe =
     (let base = ToLower (Base (stripDeletedSuffix exe))
      in if Contains exe ''memfd:'' then [''exe_memfd'']
         else if Contains exe ''(deleted)'' then [''exe_deleted'']
         else if isTempPath exe then [''exe_temp_path'']
         else if base \<noteq> [] \<and> \<not> isDefaultAllowedBasename base then [''exe_outside_helper_allowlist'']
         else [])"

definition transition_signals :: "Config \<Rightarrow> Transition \<Rightarrow> string list" where
  "transition_signals cfg tr =
     [''cred_transition'', ''transition:'' @ tr_Kind tr, ''prev_uid:'' @ Itoa (cr_UID (tr_Prev tr)),
      ''prev_euid:'' @ Itoa (cr_EUID (tr_Prev tr)), ''new_euid:'' @ Itoa (cr_EUID (tr_Curr tr)),
      ''comm:'' @ cr_Comm (tr_Curr tr)]
     @ (if cr_CapEff (tr_Curr tr) \<noteq> [] then [''capeff:'' @ cr_CapEff (tr_Curr tr)] else [])
     @ (if cr_CapEff (tr_Prev tr) \<noteq> [] \<and> cr_CapEff (tr_Prev tr) \<noteq> cr_CapEff (tr_Curr tr)
        then [''prev_capeff:'' @ cr_CapEff (tr_Prev tr)] else [])
     @ exe_signal (cr_Exe (tr_Curr tr))
     @ (if cr_Container (tr_Curr tr) \<noteq> [] then [''container:'' @ cr_Container (tr_Curr tr)] else [])
     @ (if \<not> ancestorAllowlisted cfg (cr_Ancestors (tr_Curr tr)) \<and> \<not> ancestorAllowlisted cfg [ancestorComm tr]
        then [''unexpected_ancestry''] else [])"

definition confidence_floor :: "string list \<Rightarrow> int" where
  "confidence_floor sigs =
     (if containsAny sigs [''container:''] \<and> containsAny sigs [''exe_outside_helper_allowlist''] then 92
      else if containsAny sigs [''exe_memfd'', ''exe_deleted'', ''exe_temp_path''] then 90
      else 80)"

definition sudden_root_confidence :: "Pack \<Rightarrow> string list \<Rightarrow> int" where
  "sudden_root_confidence pack sigs =
     (let (c, ok) = Score pack RuleSuddenRoot sigs;
          conf = (if ok then c else 80)
      in if conf < confidence_floor sigs then confidence_floor sigs else conf)"

definition arrow :: string where "arrow = [CHR '' '', CHR 0xE2, CHR 0x86, CHR 0x92, CHR '' '']"

definition sudden_root_evidence :: "Transition \<Rightarrow> string" where
  "sudden_root_evidence tr =
     ''sudden_root pid='' @ Itoa (pk_PID (tr_Key tr)) @ '' starttime='' @ nat_digits (pk_StartTime (tr_Key tr)) @
     '' '' @ tr_Kind tr @ '' uid '' @ Itoa (cr_UID (tr_Prev tr)) @ ''/'' @ Itoa (cr_EUID (tr_Prev tr)) @
     arrow @ Itoa (cr_UID (tr_Curr tr)) @ ''/'' @ Itoa (cr_EUID (tr_Curr tr)) @ '' exe='' @ cr_Exe (tr_Curr tr)"

definition buildEvent :: "(string \<Rightarrow> string) \<Rightarrow> Config \<Rightarrow> Pack \<Rightarrow> string \<Rightarrow> Transition \<Rightarrow> Event option" where
  "buildEvent sha256hex cfg pack agentVer tr =
     (if isAllowlisted cfg tr then None
      else
        (let sigs = transition_signals cfg tr;
             conf = sudden_root_confidence pack sigs;
             cs = tr_Curr tr;
             out = zero_Event\<lparr>
               ev_SchemaVersion := SchemaVersion, ev_AgentVersion := agentVer, ev_Timestamp := tr_SeenAt tr,
               ev_RuleID := RuleSuddenRoot, ev_RulePackVersion := pack_Version pack,
               ev_TechniqueIDs := [''T1068''], ev_Tactic := ''privilege-escalation'', ev_Confidence := conf,
               ev_Severity := SeverityFromConfidence conf (cfg_LearningMode cfg),
               ev_Entity := \<lparr>ent_Type = EntityProcess, ent_ID = Itoa (pk_PID (tr_Key tr)), ent_Path = cr_Exe cs, ent_User = []\<rparr>,
               ev_Signals := sigs, ev_Evidence := sudden_root_evidence tr, ev_LearningOnly := cfg_LearningMode cfg,
               ev_Process := Some (zero_ProcessContext\<lparr>pc_PID := pk_PID (tr_Key tr), pc_PPID := cr_PPID cs,
                   pc_Comm := cr_Comm cs, pc_Exe := cr_Exe cs, pc_UID := cr_UID cs, pc_EUID := cr_EUID cs,
                   pc_CapEff := cr_CapEff cs, pc_AncestorComms := cr_Ancestors cs\<rparr>),
               ev_Container := (if cr_Container cs \<noteq> []
                  then Some \<lparr>cc_Runtime = cr_Container cs, cc_ID = [], cc_PodUID = []\<rparr> else None)\<rparr>
         in Some (NormalizeDedup sha256hex out)))"

definition readCred :: "procfs \<Rightarrow> int \<Rightarrow> time \<Rightarrow> (CredState \<times> ProcessKey) option" where
  "readCred fs pid now =
     (case ReadStartTime fs pid of
        None \<Rightarrow> None
      | Some start \<Rightarrow>
          (case ReadStatus fs pid of
             None \<Rightarrow> None
           | Some st \<Rightarrow>
               Some (\<lparr>cr_UID = stt_RealUID st, cr_EUID = stt_EffUID st, cr_CapEff = stt_CapEff st,
                      cr_Comm = (case Comm fs pid of Some c \<Rightarrow> if c \<noteq> [] then c else stt_Name st | None \<Rightarrow> stt_Name st),
                      cr_Exe = ResolveExe fs pid,
                      cr_PPID = (case PPid fs pid of Some p \<Rightarrow> p | None \<Rightarrow> 0),
                      cr_Ancestors = Ancestry fs pid 6,
                      cr_Container = (case ReadCgroup fs pid of Some cg \<Rightarrow> ci_Runtime (Classify cg) | None \<Rightarrow> []),
                      cr_SeenAt = now\<rparr>,
                     \<lparr>pk_PID = pid, pk_StartTime = start\<rparr>)))"

text \<open>The loop of \<^verbatim>\<open>Snapshot\<close>: tracker, live keys and events so far.\<close>

definition snapshot_pid ::
  "(ProcessKey list \<Rightarrow> ProcessKey list) \<Rightarrow> (string \<Rightarrow> string) \<Rightarrow> procfs \<Rightarrow> time \<Rightarrow> Config \<Rightarrow> Pack \<Rightarrow> string \<Rightarrow>
   int \<Rightarrow> Tracker \<times> ProcessKey list \<times> Event list \<Rightarrow> Tracker \<times> ProcessKey list \<times> Event list" where
  "snapshot_pid ord sha256hex fs now cfg pack agentVer pid acc =
     (case acc of (t, live, out) \<Rightarrow>
        (case readCred fs pid now of
           None \<Rightarrow> (t, live, out)
         | Some (st, key) \<Rightarrow>
             (let (otr, t1) = Observe ord now t key st
              in case otr of
                   None \<Rightarrow> (t1, key # live, out)
                 | Some tr \<Rightarrow>
                     (case buildEvent sha256hex cfg pack agentVer tr of
                        None \<Rightarrow> (t1, key # live, out)
                      | Some ev \<Rightarrow> (t1, key # live, out @ [ev])))))"

definition SuddenRootSnapshot ::
  "(ProcessKey list \<Rightarrow> ProcessKey list) \<Rightarrow> (string \<Rightarrow> string) \<Rightarrow> procfs \<Rightarrow> time \<Rightarrow> Config \<Rightarrow> Pack \<Rightarrow> string \<Rightarrow> Tracker \<Rightarrow>
   Event list option \<times> Tracker" where
  "SuddenRootSnapshot ord sha256hex fs now cfg pack agentVer t =
     (if \<not> sr_Enabled (cfg_SuddenRoot cfg) then (Some [], t)
      else
        (case Processes fs of
           None \<Rightarrow> (None, t)
         | Some pids \<Rightarrow>
             (let (t1, live, out) = fold (snapshot_pid ord sha256hex fs now cfg pack agentVer) pids (t, [], [])
              in (Some out, RetainOnly t1 live))))"

definition RouteSensorEvent ::
  "(ProcessKey list \<Rightarrow> ProcessKey list) \<Rightarrow> (string \<Rightarrow> string) \<Rightarrow> procfs \<Rightarrow> time \<Rightarrow> Config \<Rightarrow> Pack \<Rightarrow> string \<Rightarrow> Tracker \<Rightarrow>
   SensorEvent \<Rightarrow> Event option \<times> Tracker" where
  "RouteSensorEvent ord sha256hex fs clock cfg pack agentVer t ev =
     (if \<not> sr_Enabled (cfg_SuddenRoot cfg) then (None, t)
      else if se_Kind ev \<noteq> KindExec \<or> se_PID ev \<le> 0 then (None, t)
      else
        (let now = (if IsZero (se_When ev) then clock else se_When ev)
         in case readCred fs (se_PID ev) now of
              None \<Rightarrow> (None, t)
            | Some (st0, key) \<Rightarrow>
                (let st1 = (if cr_Comm st0 = [] \<and> se_Comm ev \<noteq> [] then st0\<lparr>cr_Comm := se_Comm ev\<rparr> else st0);
                     st = (if cr_Exe st1 = [] \<and> se_Path ev \<noteq> [] then st1\<lparr>cr_Exe := se_Path ev\<rparr> else st1);
                     (otr, t1) = Observe ord clock t key st
                 in case otr of
                      None \<Rightarrow> (None, t1)
                    | Some tr \<Rightarrow> (buildEvent sha256hex cfg pack agentVer tr, t1))))"

section \<open>Properties of the detector\<close>

lemma confidence_floor_range: "80 \<le> confidence_floor sigs \<and> confidence_floor sigs \<le> 92"
  by (simp add: confidence_floor_def)

lemma sudden_root_confidence_floor: "confidence_floor sigs \<le> sudden_root_confidence pack sigs"
  by (simp add: sudden_root_confidence_def Let_def split_beta)

lemma sudden_root_confidence_cap:
  assumes "ByID pack RuleSuddenRoot = Some r" "rule_CapScore r \<le> 100" "rule_BaseScore r \<le> 100"
  shows "sudden_root_confidence pack sigs \<le> 100"
proof -
  have "fst (Score pack RuleSuddenRoot sigs) \<le> 100"
    using assms by (auto simp: Score_def Let_def)
  then show ?thesis using confidence_floor_range [of sigs]
    by (simp add: sudden_root_confidence_def Let_def split_beta)
qed

lemma buildEvent_Some:
  assumes "buildEvent h cfg pack agentVer tr = Some ev"
  shows "\<not> isAllowlisted cfg tr \<and> ev_RuleID ev = RuleSuddenRoot \<and> 80 \<le> ev_Confidence ev \<and>
    ev_Entity ev = \<lparr>ent_Type = EntityProcess, ent_ID = Itoa (pk_PID (tr_Key tr)), ent_Path = cr_Exe (tr_Curr tr), ent_User = []\<rparr> \<and>
    ev_LearningOnly ev = cfg_LearningMode cfg \<and>
    ev_Severity ev = SeverityFromConfidence (ev_Confidence ev) (cfg_LearningMode cfg)"
proof -
  have "80 \<le> sudden_root_confidence pack sigs" for sigs
    using confidence_floor_range sudden_root_confidence_floor order_trans by blast
  with assms show ?thesis by (simp add: buildEvent_def Let_def split: if_splits) (auto simp: zero_Event_def)
qed

section \<open>Correctness\<close>

text \<open>
  C21. The tracker stays well formed and bounded: in every state reachable by observing, forgetting
  and retaining processes, whatever order the map is iterated in, there is one entry per process,
  only real pids are tracked, and there are never more entries than the configured maximum.
\<close>

theorem tracker_bounded:
  assumes "tracker_reach n t"
  shows "distinct (gkeys (tck_procs t)) \<and> (\<forall>k \<in> set (gkeys (tck_procs t)). 0 < pk_PID k) \<and>
    TrackerLen t \<le> (if n \<le> 0 then 8192 else nat n)"
proof -
  have "tck_maxSize t = (if n \<le> 0 then 8192 else nat n)"
    using assms
  proof (induction rule: tracker_reach.induct)
    case (step t op)
    then show ?case
      by (cases op) (auto simp: Observe_def Forget_def RetainOnly_def pruneLocked_def Let_def split: option.splits)
  qed (simp add: NewTracker_def)
  then show ?thesis using tracker_reach_inv [OF assms] by (simp add: tracker_inv_def TrackerLen_def)
qed

definition sample_cred :: "int \<Rightarrow> CredState" where
  "sample_cred uid = \<lparr>cr_UID = uid, cr_EUID = uid, cr_CapEff = ''0'', cr_Comm = ''x'', cr_Exe = ''/tmp/x'', cr_PPID = 1,
     cr_Ancestors = [], cr_Container = [], cr_SeenAt = 0\<rparr>"

theorem tracker_bounded_witness:
  "TrackerLen (snd (tracker_step (NewTracker 1) (OpObserve (\<lambda>ks. ks) 5 \<lparr>pk_PID = 7, pk_StartTime = 9\<rparr> (sample_cred 1000)))) \<le> 1"
  using tracker_bounded [OF tracker_reach.step [OF tracker_reach.init [of 1],
      of "OpObserve (\<lambda>ks. ks) 5 \<lparr>pk_PID = 7, pk_StartTime = 9\<rparr> (sample_cred 1000)"]] by simp


text \<open>
  A process is reported once: over any sequence of tracker operations during which it stays
  tracked, at most one transition of a process is reported.
\<close>

theorem reported_once:
  assumes "tracker_reach n t" "list_all op_ok ops" "\<forall>(_, t') \<in> set (tracker_run t ops). tracks t' k"
  shows "reports k (tracker_run t ops) \<le> 1"
  by (rule at_most_one_report [OF tracker_reach_inv [OF assms(1)] assms(2,3)])

definition sample_ops :: "tracker_op list" where
  "sample_ops = map (\<lambda>u. OpObserve (\<lambda>ks. ks) 5 \<lparr>pk_PID = 7, pk_StartTime = 9\<rparr> (sample_cred u)) [1000, 0, 1000, 0]"

theorem reported_once_witness:
  "map (\<lambda>(r, _). r \<noteq> None) (tracker_run (NewTracker 4) sample_ops) = [False, True, False, False] \<and>
   reports \<lparr>pk_PID = 7, pk_StartTime = 9\<rparr> (tracker_run (NewTracker 4) sample_ops) \<le> 1"
  using reported_once [OF tracker_reach.init [of 4], of sample_ops "\<lparr>pk_PID = 7, pk_StartTime = 9\<rparr>"]
  by (simp add: sample_ops_def sample_cred_def Observe_def Let_def NewTracker_def tracks_def transitionKind_def gput_def)

text \<open>
  An event built from a transition is a sudden-root finding on that process with confidence at
  least 80, and at most 100 for a rule with sane bounds; no event is built for an allowlisted
  program or ancestry.
\<close>

theorem sudden_root_event:
  assumes "ByID pack RuleSuddenRoot = Some r" "rule_CapScore r \<le> 100" "rule_BaseScore r \<le> 100"
  shows "(buildEvent h cfg pack agentVer tr = None \<longleftrightarrow> isAllowlisted cfg tr) \<and>
    (\<forall>ev. buildEvent h cfg pack agentVer tr = Some ev \<longrightarrow>
       ev_RuleID ev = RuleSuddenRoot \<and> ent_ID (ev_Entity ev) = Itoa (pk_PID (tr_Key tr)) \<and>
       80 \<le> ev_Confidence ev \<and> ev_Confidence ev \<le> 100)"
proof -
  have c: "ev_Confidence ev = sudden_root_confidence pack (transition_signals cfg tr)"
    if "buildEvent h cfg pack agentVer tr = Some ev" for ev
    using that by (auto simp: buildEvent_def Let_def split: if_splits)
  have "buildEvent h cfg pack agentVer tr = None \<longleftrightarrow> isAllowlisted cfg tr" by (simp add: buildEvent_def Let_def)
  moreover have "ev_RuleID ev = RuleSuddenRoot \<and> ent_ID (ev_Entity ev) = Itoa (pk_PID (tr_Key tr)) \<and>
       80 \<le> ev_Confidence ev \<and> ev_Confidence ev \<le> 100" if "buildEvent h cfg pack agentVer tr = Some ev" for ev
    using buildEvent_Some [OF that] c [OF that] sudden_root_confidence_cap [OF assms] by simp
  ultimately show ?thesis by blast
qed

theorem sudden_root_event_witness:
  "\<exists>ev. buildEvent (\<lambda>s. s) Default \<lparr>pack_Version = ''1'', pack_Rules = [zero_Rule\<lparr>rule_ID := RuleSuddenRoot, rule_BaseScore := 85, rule_CapScore := 98\<rparr>]\<rparr> ''0.2.0''
     \<lparr>tr_Key = \<lparr>pk_PID = 7, pk_StartTime = 9\<rparr>, tr_Prev = sample_cred 1000, tr_Curr = sample_cred 0, tr_Kind = ''euid_root'', tr_SeenAt = 5\<rparr> = Some ev \<and>
     80 \<le> ev_Confidence ev \<and> ev_Confidence ev \<le> 100"
proof -
  let ?p = "\<lparr>pack_Version = ''1'', pack_Rules = [zero_Rule\<lparr>rule_ID := RuleSuddenRoot, rule_BaseScore := 85, rule_CapScore := 98\<rparr>]\<rparr>"
  let ?tr = "\<lparr>tr_Key = \<lparr>pk_PID = 7, pk_StartTime = 9\<rparr>, tr_Prev = sample_cred 1000, tr_Curr = sample_cred 0, tr_Kind = ''euid_root'', tr_SeenAt = 5\<rparr>"
  have "\<not> isAllowlisted Default ?tr" by code_simp
  then show ?thesis
    using sudden_root_event [of ?p "zero_Rule\<lparr>rule_ID := RuleSuddenRoot, rule_BaseScore := 85, rule_CapScore := 98\<rparr>" "\<lambda>s. s" Default "''0.2.0''" ?tr]
    by (cases "buildEvent (\<lambda>s. s) Default ?p ''0.2.0'' ?tr") (simp_all add: ByID_def zero_Rule_def)
qed

end
