(* ===== verification/GC_Runner.thy ===== *)
theory GC_Runner
  imports GC_Limiter GC_Spool GC_Correlator GC_Respond GC_Privesc GC_Intel
begin

text \<open>
  The pipeline of \<^verbatim>\<open>internal/runner/runner.go\<close>: orient, decide, act and the emit gates for
  one event, duplicate suppression, the scan lock and the self check. What the pipeline only
  consults is gathered in the record \<open>env\<close>; the clock readings of one event are the record
  \<open>clocks\<close>; how the sinks answer is the record \<open>delivery\<close>. The state is the record \<open>Runner\<close>.
\<close>

section \<open>State and environment\<close>

definition AgentVersion :: string where "AgentVersion = ''0.2.0''"

record env =
  en_sha :: "string \<Rightarrow> string"
  en_rx :: regexp
  en_dur :: duration_parser
  en_net :: netlib
  en_fs :: procfs
  en_json :: "Event \<Rightarrow> string option"
  en_world :: world
  en_map :: "Mapping option"

record clocks =
  ck_act :: "time \<times> time \<times> time"
  ck_dedup :: "time \<times> time \<times> time"
  ck_limit :: time

text \<open>
  \<open>dl_syslog\<close>: no syslog client, or whether its send succeeds. \<open>dl_sinks\<close>: the same for each
  configured sink. \<open>dl_io i\<close>: the faults of the \<open>i\<close>-th spool append.
\<close>

record delivery =
  dl_syslog :: "bool option"
  dl_sinks :: "bool list"
  dl_io :: "nat \<Rightarrow> io_faults"

record Runner =
  rn_cfg :: Config
  rn_pack :: Pack
  rn_out :: "string list"
  rn_lastDedup :: "(string, time) gomap"
  rn_dedupOps :: nat
  rn_limiter :: "Limiter option"
  rn_spool :: "Spool option"
  rn_feed :: Feed
  rn_correlator :: correlator
  rn_vault :: bool
  rn_responder :: "Engine option"
  rn_privesc :: Tracker
  rn_scanLocked :: bool
  rn_overlappingSkipped :: nat
  rn_lastNetworkScan :: time

definition NewRunner :: "Config \<Rightarrow> Pack \<Rightarrow> Spool option \<Rightarrow> Feed \<Rightarrow> bool \<Rightarrow> Mapping option \<Rightarrow> Runner" where
  "NewRunner cfg pack spool feed vault mapping =
     \<lparr>rn_cfg = cfg, rn_pack = pack, rn_out = [], rn_lastDedup = [], rn_dedupOps = 0,
      rn_limiter = Some (NewLimiter (cfg_RateLimitPerRulePerMin cfg)), rn_spool = spool, rn_feed = feed,
      rn_correlator = (case mapping of None \<Rightarrow> newCorrelator 2048 | Some m \<Rightarrow> setChains (newCorrelator 2048) (map_Chains m)),
      rn_vault = vault, rn_responder = Some (NewEngine (Some (cfg_Respond cfg)) vault),
      rn_privesc = NewTracker 8192, rn_scanLocked = False, rn_overlappingSkipped = 0, rn_lastNetworkScan = 0\<rparr>"

text \<open>
  What \<^verbatim>\<open>New\<close> finds on the host: the faults and left-over files of the spool, the readable
  files, those that exist, whether the vault directory can be made, and the YAML decoder.
\<close>

record boot =
  bt_spoolFaults :: "bool \<times> bool"
  bt_spoolFiles :: "string option \<times> string option"
  bt_readFile :: "string \<Rightarrow> string option"
  bt_isFile :: "string \<Rightarrow> bool"
  bt_vaultFails :: bool
  bt_yaml :: "string \<Rightarrow> Mapping option"

definition init_spool :: "boot \<Rightarrow> Config \<Rightarrow> Spool option" where
  "init_spool bt cfg =
     (if cfg_SpoolDir cfg = [] then None
      else case NewSpool (cfg_SpoolDir cfg) (cfg_SpoolMaxBytes cfg) (fst (bt_spoolFaults bt)) (snd (bt_spoolFaults bt))
                  (fst (bt_spoolFiles bt)) (snd (bt_spoolFiles bt)) of
             Inl _ \<Rightarrow> None
           | Inr sp \<Rightarrow> Some sp)"

definition init_feed :: "boot \<Rightarrow> netlib \<Rightarrow> Config \<Rightarrow> Feed" where
  "init_feed bt nl cfg =
     snd (FeedLoad (bt_readFile bt) nl (cfg_IOCFeedHashFiles cfg) (cfg_IOCFeedIPFiles cfg) (cfg_IOCFeedDomainFiles cfg) NewFeed)"

definition init_vault :: "boot \<Rightarrow> Config \<Rightarrow> bool" where
  "init_vault bt cfg \<longleftrightarrow> cfg_QuarantineDir cfg \<noteq> [] \<and> \<not> bt_vaultFails bt"

definition mapping_candidates :: "string list" where
  "mapping_candidates = [''configs/mapping.yaml'', ''../../configs/mapping.yaml'', ''/etc/ghostcatcher/mapping.yaml'']"

definition resolveMappingPath :: "boot \<Rightarrow> string" where
  "resolveMappingPath bt = (case find (bt_isFile bt) mapping_candidates of None \<Rightarrow> [] | Some p \<Rightarrow> p)"

definition init_mapping :: "boot \<Rightarrow> Config \<Rightarrow> Mapping option" where
  "init_mapping bt cfg =
     (let path = (if cfg_MappingPath cfg = [] then resolveMappingPath bt else cfg_MappingPath cfg)
      in if path = [] then None
         else case LoadMapping (bt_readFile bt) (bt_yaml bt) path of Inl _ \<Rightarrow> None | Inr m \<Rightarrow> Some m)"

text \<open>The runner and the mapping it makes global.\<close>

definition New :: "boot \<Rightarrow> netlib \<Rightarrow> Config \<Rightarrow> Pack \<Rightarrow> Runner \<times> Mapping option" where
  "New bt nl cfg pack =
     (let m = init_mapping bt cfg
      in (NewRunner cfg pack (init_spool bt cfg) (init_feed bt nl cfg) (init_vault bt cfg) m, m))"

section \<open>Orient\<close>

definition minInt :: "int \<Rightarrow> int \<Rightarrow> int" where
  "minInt a b = (if a < b then a else b)"

definition enrich_process :: "procfs \<Rightarrow> Event \<Rightarrow> Event" where
  "enrich_process fs e =
     (if ent_Type (ev_Entity e) \<noteq> EntityProcess then e
      else
        (case Atoi (ent_ID (ev_Entity e)) of
           None \<Rightarrow> e
         | Some pid \<Rightarrow>
             if pid \<le> 0 then e
             else
               (let e1 = (case ReadCgroup fs pid of
                            None \<Rightarrow> e
                          | Some cg \<Rightarrow>
                              (let info = Classify cg
                               in if ContainerIsZero info then e
                                  else e\<lparr>ev_Container := Some \<lparr>cc_Runtime = ci_Runtime info, cc_ID = ci_ID info,
                                           cc_PodUID = ci_PodUID info\<rparr>\<rparr>))
                in case ReadStatus fs pid of
                     None \<Rightarrow> e1
                   | Some st \<Rightarrow>
                       (let ainfo = FromPID fs pid;
                            e2 = e1\<lparr>ev_Process := Some \<lparr>pc_PID = pid,
                                 pc_PPID = (case PPid fs pid of None \<Rightarrow> 0 | Some p \<Rightarrow> p),
                                 pc_Comm = (case Comm fs pid of None \<Rightarrow> [] | Some c \<Rightarrow> c),
                                 pc_Argv = (case Cmdline fs pid of None \<Rightarrow> [] | Some a \<Rightarrow> a),
                                 pc_Exe = ResolveExe fs pid, pc_UID = stt_RealUID st, pc_EUID = stt_EffUID st,
                                 pc_CapEff = stt_CapEff st, pc_AncestorComms = Ancestry fs pid 6,
                                 pc_Cgroup = ai_CgroupPath ainfo, pc_SystemdUnit = ai_SystemdUnit ainfo\<rparr>\<rparr>
                        in if ev_Anchor e2 = [] then e2\<lparr>ev_Anchor := ai_Anchor ainfo\<rparr> else e2))))"

definition enrich_hash :: "Feed \<Rightarrow> Event \<Rightarrow> Event" where
  "enrich_hash feed e =
     (if ent_Type (ev_Entity e) = EntityFile \<and> ent_ID (ev_Entity e) \<noteq> [] \<and> MatchHash feed (ent_ID (ev_Entity e))
      then e\<lparr>ev_IOCMatches := ev_IOCMatches e @ [''hash:'' @ ent_ID (ev_Entity e)],
             ev_Confidence := minInt 100 (wrap64 (ev_Confidence e + 10))\<rparr>
      else e)"

definition enrich_ip :: "netlib \<Rightarrow> Feed \<Rightarrow> Event \<Rightarrow> Event" where
  "enrich_ip nl feed e =
     (case ev_Network e of
        None \<Rightarrow> e
      | Some n \<Rightarrow>
          if nc_RemoteIP n = [] then e
          else
            (case nl_parseIP nl (nc_RemoteIP n) of
               None \<Rightarrow> e
             | Some a \<Rightarrow>
                 if MatchIP nl feed a
                 then e\<lparr>ev_IOCMatches := ev_IOCMatches e @ [''ip:'' @ nc_RemoteIP n],
                        ev_Confidence := minInt 100 (wrap64 (ev_Confidence e + 25))\<rparr>
                 else e))"

definition enrich :: "env \<Rightarrow> Feed \<Rightarrow> Event \<Rightarrow> Event" where
  "enrich en feed e = enrich_ip (en_net en) feed (enrich_hash feed (enrich_process (en_fs en) e))"

definition fill_from_rule :: "Rule \<Rightarrow> Event \<Rightarrow> Event" where
  "fill_from_rule r e =
     e\<lparr>ev_Macro := fill (ev_Macro e) (rule_Macro r), ev_Micro := fill (ev_Micro e) (rule_Micro r),
       ev_Src := fill (ev_Src e) (rule_Src r), ev_Type := fill (ev_Type e) (rule_Type r),
       ev_ConfBand := fill (ev_ConfBand e) (rule_Conf r)\<rparr>"

definition orient :: "env \<Rightarrow> Runner \<Rightarrow> Event \<Rightarrow> Event" where
  "orient en rn e0 =
     (let e1 = ApplyTaxonomy (en_map en) (enrich en (rn_feed rn) e0);
          orule = ByID (rn_pack rn) (ev_RuleID e1);
          e2 = (case orule of None \<Rightarrow> e1 | Some r \<Rightarrow> fill_from_rule r e1);
          override = (case orule of None \<Rightarrow> [] | Some r \<Rightarrow> rule_KillChainPhase r)
      in e2\<lparr>ev_KillChainPhase := PhaseFor (ev_Tactic e2) override, ev_DefenseLayer := DefenseLayerEndpoint\<rparr>)"

definition factsFromEvent :: "Event \<Rightarrow> EventFacts" where
  "factsFromEvent e =
     \<lparr>facts_RuleID = ev_RuleID e, facts_Tactic = ev_Tactic e, facts_Confidence = ev_Confidence e,
      facts_Severity = ev_Severity e, facts_KillChainPhase = ev_KillChainPhase e,
      facts_EntityPath = ent_Path (ev_Entity e), facts_EntityID = ent_ID (ev_Entity e),
      facts_Comm = (case ev_Process e of None \<Rightarrow> [] | Some p \<Rightarrow> pc_Comm p),
      facts_UID = (case ev_Process e of None \<Rightarrow> 0 | Some p \<Rightarrow> pc_UID p),
      facts_EUID = (case ev_Process e of None \<Rightarrow> 0 | Some p \<Rightarrow> pc_EUID p),
      facts_ContainerRuntime = (case ev_Container e of None \<Rightarrow> [] | Some c \<Rightarrow> cc_Runtime c),
      facts_Signals = ev_Signals e, facts_Techniques = ev_TechniqueIDs e\<rparr>"

section \<open>Rule precondition and correlation\<close>

definition expr_holds :: "regexp \<Rightarrow> Rule \<Rightarrow> Event \<Rightarrow> bool" where
  "expr_holds rx rule e =
     (case Eval rx (CompiledExpr rule) (factsFromEvent e) of Inl _ \<Rightarrow> False | Inr ok \<Rightarrow> ok)"

definition boosted :: "int \<Rightarrow> string \<Rightarrow> Event \<Rightarrow> Event" where
  "boosted boost sig e =
     e\<lparr>ev_Confidence := (if wrap64 (ev_Confidence e + boost) > 100 then 100 else wrap64 (ev_Confidence e + boost)),
       ev_Signals := ev_Signals e @ [sig]\<rparr>"

definition correlate_event :: "env \<Rightarrow> correlator \<Rightarrow> Rule \<Rightarrow> time \<Rightarrow> Event \<Rightarrow> Event" where
  "correlate_event en c rule now e0 =
     (let e1 = (if \<not> expr_holds (en_rx en) rule e0 \<and> \<not> ev_LearningOnly e0 then e0\<lparr>ev_LearningOnly := True\<rparr> else e0);
          b1 = matchBoost (en_dur en) c e1 rule now;
          e2 = (if b1 > 0 then boosted b1 ''correlation_boost'' e1 else e1);
          (b2, e3) = matchChain (en_dur en) c e2 now
      in if b2 > 0 then boosted b2 (''chain:'' @ ev_ChainID e3) e3 else e3)"

section \<open>Duplicate suppression\<close>

definition dedup_window :: "Config \<Rightarrow> duration" where
  "dedup_window cfg = (if cfg_ScanInterval cfg \<le> 0 then 5 * minute else cfg_ScanInterval cfg)"

text \<open>
  \<open>d1\<close> is the reading of \<^verbatim>\<open>time.Since\<close>, \<open>d2\<close> the one stored, \<open>d3\<close> the one of the prune. The
  operation counter is an unsigned 64-bit integer.
\<close>

definition dedupCore ::
  "duration \<Rightarrow> time \<times> time \<times> time \<Rightarrow> (string, time) gomap \<times> nat \<Rightarrow> string \<Rightarrow> bool \<times> (string, time) gomap \<times> nat" where
  "dedupCore window ds st key =
     (case (ds, st) of ((d1, d2, d3), (lst, ops)) \<Rightarrow>
        if (case map_of lst key of Some t \<Rightarrow> time_sub d1 t < window | None \<Rightarrow> False) then (True, lst, ops)
        else
          (let m = gput key d2 lst;
               n = Suc ops mod 2 ^ 64
           in (False, (if n mod 64 = 0 \<or> length m > 10000 then gprune (d3 - window) m else m), n)))"

definition shouldDedup :: "time \<times> time \<times> time \<Rightarrow> Runner \<Rightarrow> string \<Rightarrow> bool \<times> Runner" where
  "shouldDedup ds rn key =
     (if key = [] then (False, rn)
      else
        (let (dup, m, n) = dedupCore (dedup_window (rn_cfg rn)) ds (rn_lastDedup rn, rn_dedupOps rn) key
         in (dup, rn\<lparr>rn_lastDedup := m, rn_dedupOps := n\<rparr>)))"

section \<open>Emit\<close>

definition shouldSOCEscalate :: "Event \<Rightarrow> bool" where
  "shouldSOCEscalate e =
     (if ev_Severity e = SeverityHigh \<or> ev_Severity e = SeverityCritical then True
      else (case ev_Response e of
              Some r \<Rightarrow> rc_Action r \<noteq> [] \<and> rc_Action r \<noteq> ActionAlertOnly
            | None \<Rightarrow> False))"

text \<open>Every failed delivery appends the line to the spool; errors of the append are dropped.\<close>

fun spool_failures :: "(nat \<Rightarrow> io_faults) \<Rightarrow> nat \<Rightarrow> bool list \<Rightarrow> string \<Rightarrow> Spool option \<Rightarrow> Spool option" where
  "spool_failures io i [] b sp = sp"
| "spool_failures io i (ok # oks) b sp =
     (if ok then spool_failures io i oks b sp
      else spool_failures io (Suc i) oks b (snd (SpoolAppend (io i) sp b)))"

definition delivery_results :: "delivery \<Rightarrow> bool list" where
  "delivery_results dl = (case dl_syslog dl of None \<Rightarrow> [] | Some ok \<Rightarrow> [ok]) @ dl_sinks dl"

definition legacy_quarantine :: "env \<Rightarrow> Runner \<Rightarrow> Event \<Rightarrow> effect list" where
  "legacy_quarantine en rn e =
     (if \<not> rcf_Enabled (cfg_Respond (rn_cfg rn)) \<and> rn_vault rn \<and> ent_Type (ev_Entity e) = EntityFile \<and>
         ent_Path (ev_Entity e) \<noteq> [] \<and> \<not> ev_LearningOnly e \<and>
         ev_Confidence e \<ge> cfg_QuarantineMinConfidence (rn_cfg rn) \<and> cfg_QuarantineMinConfidence (rn_cfg rn) > 0 \<and>
         w_store (en_world en) (ent_Path (ev_Entity e)) = None
      then [VaultStored (ent_Path (ev_Entity e))] else [])"

definition emit :: "env \<Rightarrow> delivery \<Rightarrow> Runner \<Rightarrow> Event \<Rightarrow> Runner \<times> Event \<times> effect list" where
  "emit en dl rn e0 =
     (let e = e0\<lparr>ev_DefenseLayer := DefenseLayerEndpoint, ev_SOCEscalate := shouldSOCEscalate e0\<rparr>
      in case en_json en e of
           None \<Rightarrow> (rn, e, [])
         | Some b \<Rightarrow>
             (rn\<lparr>rn_out := rn_out rn @ [b @ [CHR 0x0A]],
                 rn_spool := spool_failures (dl_io dl) 0 (delivery_results dl) b (rn_spool rn)\<rparr>,
              e, legacy_quarantine en rn e))"

section \<open>One event\<close>

text \<open>What becomes of an event at the gates.\<close>

datatype verdict = EmittedQuiet | Duplicate | RateLimited | Alerted

definition gates :: "clocks \<Rightarrow> Runner \<Rightarrow> Event \<Rightarrow> verdict \<times> Runner" where
  "gates ck rn e =
     (if ev_LearningOnly e then (EmittedQuiet, rn)
      else if ev_Confidence e < cfg_MinConfidenceAlert (rn_cfg rn) then (EmittedQuiet, rn)
      else
        (let (dup, rn1) = shouldDedup (ck_dedup ck) rn (ev_DedupKey e)
         in if dup then (Duplicate, rn1)
            else
              (let (ok, lim) = Allow (rn_limiter rn1) (ck_limit ck) (ev_RuleID e);
                   rn2 = rn1\<lparr>rn_limiter := lim\<rparr>
               in if \<not> ok then (RateLimited, rn2) else (Alerted, rn2))))"

definition act_event :: "env \<Rightarrow> clocks \<Rightarrow> Runner \<Rightarrow> Event \<Rightarrow> Rule \<Rightarrow> time \<Rightarrow> Runner \<times> Event \<times> effect list" where
  "act_event en ck rn e rule observedAt =
     (case rn_responder rn of
        None \<Rightarrow> (rn, e, [])
      | Some eng \<Rightarrow>
          (let (eng', e', fx) = Act (en_world en) (ck_act ck) eng e rule observedAt
           in (rn\<lparr>rn_responder := Some eng'\<rparr>, e', fx)))"

definition prepare :: "env \<Rightarrow> Runner \<Rightarrow> time \<Rightarrow> Event \<Rightarrow> Event" where
  "prepare en rn now e0 =
     (let e1 = orient en rn (NormalizeDedup (en_sha en) e0)
      in case ByID (rn_pack rn) (ev_RuleID e1) of
           None \<Rightarrow> e1
         | Some rule \<Rightarrow> correlate_event en (rn_correlator rn) rule now e1)"

definition rule_for :: "Runner \<Rightarrow> Event \<Rightarrow> Rule" where
  "rule_for rn e = (case ByID (rn_pack rn) (ev_RuleID e) of None \<Rightarrow> zero_Rule | Some r \<Rightarrow> r)"

definition processEvent ::
  "env \<Rightarrow> clocks \<Rightarrow> delivery \<Rightarrow> Runner \<Rightarrow> Event \<Rightarrow> time \<Rightarrow> time \<Rightarrow> verdict \<times> Runner \<times> Event \<times> effect list" where
  "processEvent en ck dl rn e0 observedAt now =
     (let e1 = prepare en rn now e0;
          rn1 = rn\<lparr>rn_correlator := addFull (rn_correlator rn) (ev_RuleID e1) (ent_ID (ev_Entity e1)) (ev_Anchor e1) (ev_ConfBand e1) now\<rparr>;
          (rn2, e2, fx) = act_event en ck rn1 e1 (rule_for rn e1) observedAt;
          (v, rn3) = gates ck rn2 e2
      in if v = EmittedQuiet \<or> v = Alerted
         then (let (rn4, e3, fx') = emit en dl rn3 e2 in (v, rn4, e3, fx @ fx'))
         else (v, rn3, e2, fx))"

section \<open>Scans\<close>

definition networkScanDue :: "Runner \<Rightarrow> time \<Rightarrow> bool" where
  "networkScanDue rn now =
     (if \<not> cfg_NetworkScanEnabled (rn_cfg rn) then False
      else if cfg_NetworkScanInterval (rn_cfg rn) \<le> 0 \<or> IsZero (rn_lastNetworkScan rn) then True
      else time_sub now (rn_lastNetworkScan rn) \<ge> cfg_NetworkScanInterval (rn_cfg rn))"

definition tampered_event :: "time \<Rightarrow> Runner \<Rightarrow> selfguard_error \<Rightarrow> Event" where
  "tampered_event now rn err =
     zero_Event\<lparr>ev_SchemaVersion := SchemaVersion, ev_AgentVersion := AgentVersion, ev_Timestamp := now,
       ev_RuleID := ''AGENT_TAMPERED'', ev_RulePackVersion := pack_Version (rn_pack rn),
       ev_Tactic := ''defense-evasion'', ev_TechniqueIDs := [''T1562.001''], ev_Confidence := 100,
       ev_Severity := SeverityCritical,
       ev_Entity := \<lparr>ent_Type = EntityFile, ent_ID = [], ent_Path = sg_BinaryPath (cfg_SelfGuard (rn_cfg rn)), ent_User = []\<rparr>,
       ev_Signals := [''self_binary_hash_mismatch''], ev_Evidence := SGError err\<rparr>"

definition checkBinaryHash ::
  "(string \<Rightarrow> (string + string)) \<Rightarrow> env \<Rightarrow> clocks \<Rightarrow> delivery \<Rightarrow> time \<Rightarrow> time \<Rightarrow> Runner \<Rightarrow> Runner \<times> effect list" where
  "checkBinaryHash readBin en ck dl t1 t2 rn =
     (let sg = cfg_SelfGuard (rn_cfg rn)
      in if \<not> sg_Enabled sg \<or> sg_BinaryPath sg = [] \<or> sg_ExpectedBinarySHA256 sg = [] then (rn, [])
         else (case BinaryMatches readBin (en_sha en) (sg_BinaryPath sg) (sg_ExpectedBinarySHA256 sg) of
                 None \<Rightarrow> (rn, [])
               | Some err \<Rightarrow>
                   (let (v, rn', e, fx) = processEvent en ck dl rn (tampered_event t1 rn err) 0 t2
                    in (rn', fx))))"

end
