(* ===== verification/GC_Pipeline.thy ===== *)
theory GC_Pipeline
  imports GC_Runner
begin

text \<open>
  Properties of the pipeline of \<open>GC_Runner\<close>: confidence stays in range, learning-only events are
  inert, effects are guarded, and the duplicate and rate gates hold over whole runs.
\<close>

section \<open>Duplicate suppression is a sliding-window gate\<close>

definition dedupStep ::
  "duration \<Rightarrow> (string, time) gomap \<times> nat \<Rightarrow> time \<times> time \<times> time \<Rightarrow> string \<Rightarrow> bool \<times> (string, time) gomap \<times> nat" where
  "dedupStep w st ds key = (let (dup, st') = dedupCore w ds st key in (\<not> dup, st'))"

definition readings_ok :: "time \<times> time \<times> time \<Rightarrow> bool" where
  "readings_ok ds \<longleftrightarrow> fst ds \<le> fst (snd ds) \<and> fst (snd ds) \<le> snd (snd ds)"

definition dedup_rel :: "duration \<Rightarrow> (string, time) gomap \<times> nat \<Rightarrow> time \<Rightarrow> (string \<times> time) list \<Rightarrow> bool" where
  "dedup_rel w st T H \<longleftrightarrow> last_rel w (fst st) T H"

lemma dedup_verdict:
  assumes "dedup_rel w st T H" "T \<le> fst ds" "0 < w" "w \<le> max_int64"
  shows "fst (dedupStep w st ds k) \<longleftrightarrow> recent w H k (fst ds) < 1"
  using last_rel_verdict [OF assms(1) [unfolded dedup_rel_def] assms(2-4), of k]
  by (cases st; cases ds) (auto simp: dedupStep_def dedupCore_def Let_def split: option.splits)

lemma dedup_step_rel:
  assumes "dedup_rel w st T H" "T \<le> fst ds" "readings_ok ds"
  shows "dedup_rel w (snd (dedupStep w st ds k)) (snd (snd ds))
    (if fst (dedupStep w st ds k) then H @ [(k, fst (snd ds))] else H)"
proof -
  obtain d1 d2 d3 where ds: "ds = (d1, d2, d3)" by (cases ds)
  obtain m n where st: "st = (m, n)" by (cases st)
  have le: "T \<le> d2" "d2 \<le> d3" "T \<le> d3" using assms(2,3) by (auto simp: ds readings_ok_def)
  have r: "last_rel w m T H" using assms(1) by (simp add: dedup_rel_def st)
  note put = last_rel_put [OF r le(1), of k]
  show ?thesis
    using last_rel_later [OF r le(3)] last_rel_later [OF put le(2)] last_rel_prune [OF put le(2)]
    by (auto simp: dedupStep_def dedupCore_def dedup_rel_def ds st Let_def)
qed

interpretation dedup: sliding_gate "dedupStep (window_of n)" "([], 0)" fst "\<lambda>ds. fst (snd ds)" "\<lambda>ds. snd (snd ds)"
  readings_ok 1 "window_of n" "dedup_rel (window_of n)" for n
proof unfold_locales
  show "dedup_rel (window_of n) ([], 0) T []" for T by (simp add: dedup_rel_def last_rel_Nil)
  show "dedup_rel (window_of n) s T H \<Longrightarrow> (k, t) \<in> set H \<Longrightarrow> t \<le> T" for s T H k t
    unfolding dedup_rel_def by (rule last_rel_past)
qed (rule dedup_verdict dedup_step_rel window_of_bounds | assumption | simp add: readings_ok_def)+

section \<open>Frames\<close>

lemma enrich_process_frame [simp]:
  "ev_RuleID (enrich_process fs e) = ev_RuleID e" "ev_Confidence (enrich_process fs e) = ev_Confidence e"
  "ev_LearningOnly (enrich_process fs e) = ev_LearningOnly e" "ev_DedupKey (enrich_process fs e) = ev_DedupKey e"
  "ev_Entity (enrich_process fs e) = ev_Entity e" "ev_Signals (enrich_process fs e) = ev_Signals e"
  by (simp_all add: enrich_process_def Let_def split: option.splits)

lemma enrich_frame [simp]:
  "ev_RuleID (enrich en feed e) = ev_RuleID e" "ev_LearningOnly (enrich en feed e) = ev_LearningOnly e"
  "ev_DedupKey (enrich en feed e) = ev_DedupKey e" "ev_Entity (enrich en feed e) = ev_Entity e"
  by (simp_all add: enrich_def enrich_ip_def enrich_hash_def split: option.splits)

lemma fill_from_rule_frame [simp]:
  "ev_RuleID (fill_from_rule r e) = ev_RuleID e" "ev_LearningOnly (fill_from_rule r e) = ev_LearningOnly e"
  "ev_DedupKey (fill_from_rule r e) = ev_DedupKey e" "ev_Entity (fill_from_rule r e) = ev_Entity e"
  "ev_Confidence (fill_from_rule r e) = ev_Confidence e" "ev_Tactic (fill_from_rule r e) = ev_Tactic e"
  by (simp_all add: fill_from_rule_def)

lemma orient_frame [simp]:
  "ev_RuleID (orient en rn e) = ev_RuleID e" "ev_LearningOnly (orient en rn e) = ev_LearningOnly e"
  "ev_DedupKey (orient en rn e) = ev_DedupKey e" "ev_Entity (orient en rn e) = ev_Entity e"
  "ev_Confidence (orient en rn e) = ev_Confidence (enrich en (rn_feed rn) e)"
  by (simp_all add: orient_def Let_def split: option.splits)

lemma boosted_frame [simp]:
  "ev_RuleID (boosted b s e) = ev_RuleID e" "ev_LearningOnly (boosted b s e) = ev_LearningOnly e"
  "ev_DedupKey (boosted b s e) = ev_DedupKey e" "ev_Entity (boosted b s e) = ev_Entity e"
  by (simp_all add: boosted_def)

lemma matchChain_frame [simp]:
  "ev_RuleID (snd (matchChain pd c e now)) = ev_RuleID e" "ev_LearningOnly (snd (matchChain pd c e now)) = ev_LearningOnly e"
  "ev_DedupKey (snd (matchChain pd c e now)) = ev_DedupKey e" "ev_Entity (snd (matchChain pd c e now)) = ev_Entity e"
  "ev_Confidence (snd (matchChain pd c e now)) = ev_Confidence e"
  by (simp_all add: matchChain_first split: option.splits)

lemma correlate_frame [simp]:
  "ev_RuleID (correlate_event en c r now e) = ev_RuleID e" "ev_DedupKey (correlate_event en c r now e) = ev_DedupKey e"
  "ev_Entity (correlate_event en c r now e) = ev_Entity e"
  by (simp_all add: correlate_event_def Let_def split_beta)

lemma correlate_learning:
  "ev_LearningOnly (correlate_event en c r now e) \<longleftrightarrow> ev_LearningOnly e \<or> \<not> expr_holds (en_rx en) r e"
  by (simp add: correlate_event_def Let_def split_beta)

lemma prepare_frame [simp]:
  "ev_RuleID (prepare en rn now e) = ev_RuleID e" "ev_Entity (prepare en rn now e) = ev_Entity e"
  "ev_DedupKey (prepare en rn now e) = ev_DedupKey (NormalizeDedup (en_sha en) e)"
  by (simp_all add: prepare_def Let_def split: option.splits)

section \<open>Confidence\<close>

lemma enrich_confidence:
  assumes "0 \<le> ev_Confidence e" "ev_Confidence e \<le> 100"
  shows "ev_Confidence e \<le> ev_Confidence (enrich en feed e) \<and> ev_Confidence (enrich en feed e) \<le> 100"
proof -
  have w: "0 \<le> c \<Longrightarrow> c \<le> 100 \<Longrightarrow> 0 \<le> d \<Longrightarrow> d \<le> 25 \<Longrightarrow> c \<le> minInt 100 (wrap64 (c + d)) \<and> minInt 100 (wrap64 (c + d)) \<le> 100" for c d
    by (subst (1 2) wrap64_small) (auto simp: minInt_def)
  define e1 where "e1 = enrich_hash feed (enrich_process (en_fs en) e)"
  have 1: "ev_Confidence e \<le> ev_Confidence e1 \<and> ev_Confidence e1 \<le> 100"
    using assms w [of "ev_Confidence e" 10] by (simp add: e1_def enrich_hash_def)
  have "ev_Confidence e1 \<le> ev_Confidence (enrich_ip (en_net en) feed e1) \<and> ev_Confidence (enrich_ip (en_net en) feed e1) \<le> 100"
    using assms 1 w [of "ev_Confidence e1" 25] by (simp add: enrich_ip_def split: option.splits)
  then show ?thesis using 1 by (simp add: enrich_def e1_def)
qed

lemma boosted_confidence:
  "0 \<le> ev_Confidence e \<Longrightarrow> ev_Confidence e \<le> 100 \<Longrightarrow> 0 < b \<Longrightarrow> b < 2 ^ 61 \<Longrightarrow>
   ev_Confidence e \<le> ev_Confidence (boosted b s e) \<and> ev_Confidence (boosted b s e) \<le> 100"
  using wrap64_small [of "ev_Confidence e + b"] by (simp add: boosted_def)

lemma correlate_confidence:
  assumes "0 \<le> ev_Confidence e" "ev_Confidence e \<le> 100" "rule_CorrelateBoost r < 2 ^ 61"
  shows "ev_Confidence e \<le> ev_Confidence (correlate_event en c r now e) \<and> ev_Confidence (correlate_event en c r now e) \<le> 100"
proof -
  define e1 where "e1 = (if \<not> expr_holds (en_rx en) r e \<and> \<not> ev_LearningOnly e then e\<lparr>ev_LearningOnly := True\<rparr> else e)"
  define b1 where "b1 = matchBoost (en_dur en) c e1 r now"
  define e2 where "e2 = (if b1 > 0 then boosted b1 ''correlation_boost'' e1 else e1)"
  have b: "b1 < 2 ^ 61" unfolding b1_def matchBoost_eq using assms(3) by simp
  have 1: "ev_Confidence e1 = ev_Confidence e" by (simp add: e1_def)
  have 2: "ev_Confidence e \<le> ev_Confidence e2 \<and> ev_Confidence e2 \<le> 100"
    using boosted_confidence [of e1 b1] b assms(1,2) by (simp add: e2_def 1)
  obtain b2 e3 where m: "matchChain (en_dur en) c e2 now = (b2, e3)" by fastforce
  have 3: "ev_Confidence e3 = ev_Confidence e2" using matchChain_frame(5) [of "en_dur en" c e2 now] m by simp
  have b2: "b2 \<in> {0, 25}" using matchChain_boost [of "en_dur en" c e2 now] m by simp
  have eq: "correlate_event en c r now e = (if b2 > 0 then boosted b2 (''chain:'' @ ev_ChainID e3) e3 else e3)"
    unfolding correlate_event_def Let_def e1_def [symmetric] b1_def [symmetric] e2_def [symmetric] m by simp
  show ?thesis
    unfolding eq using 2 3 b2 assms(1) boosted_confidence [of e3 b2 "''chain:'' @ ev_ChainID e3"] by auto
qed

lemma NormalizeDedup_conf: "ev_Confidence (NormalizeDedup h e) = ev_Confidence e"
  by simp

lemma prepare_confidence:
  assumes "0 \<le> ev_Confidence e" "ev_Confidence e \<le> 100"
    "\<And>r. ByID (rn_pack rn) (ev_RuleID e) = Some r \<Longrightarrow> rule_CorrelateBoost r < 2 ^ 61"
  shows "ev_Confidence e \<le> ev_Confidence (prepare en rn now e) \<and> ev_Confidence (prepare en rn now e) \<le> 100"
proof -
  define e1 where "e1 = orient en rn (NormalizeDedup (en_sha en) e)"
  have 1: "ev_Confidence e \<le> ev_Confidence e1 \<and> ev_Confidence e1 \<le> 100"
    using enrich_confidence [of "NormalizeDedup (en_sha en) e"] assms(1,2) by (simp add: e1_def)
  have id: "ev_RuleID e1 = ev_RuleID e" by (simp add: e1_def)
  show ?thesis
  proof (cases "ByID (rn_pack rn) (ev_RuleID e)")
    case None
    then show ?thesis using 1 id by (simp add: prepare_def Let_def e1_def [symmetric])
  next
    case (Some r)
    have "ev_Confidence e1 \<le> ev_Confidence (correlate_event en (rn_correlator rn) r now e1) \<and>
        ev_Confidence (correlate_event en (rn_correlator rn) r now e1) \<le> 100"
      using 1 assms(1) assms(3) [OF Some] by (intro correlate_confidence) auto
    then show ?thesis using 1 id Some by (simp add: prepare_def Let_def e1_def [symmetric])
  qed
qed

section \<open>Acting and the gates\<close>

lemma ApplyPlan_frame:
  "ev_RuleID (fst (snd (ApplyPlan w t1 t2 eng pl e obs))) = ev_RuleID e"
  "ev_DedupKey (fst (snd (ApplyPlan w t1 t2 eng pl e obs))) = ev_DedupKey e"
  "ev_LearningOnly (fst (snd (ApplyPlan w t1 t2 eng pl e obs))) = ev_LearningOnly e"
  "ev_Confidence (fst (snd (ApplyPlan w t1 t2 eng pl e obs))) = ev_Confidence e"
  "ev_Severity (fst (snd (ApplyPlan w t1 t2 eng pl e obs))) = ev_Severity e"
  "ev_Entity (fst (snd (ApplyPlan w t1 t2 eng pl e obs))) = ev_Entity e"
  "eng_cfg (fst (ApplyPlan w t1 t2 eng pl e obs)) = eng_cfg eng"
  by (simp_all add: ApplyPlan_def Let_def split_beta split: option.splits)

lemma Act_frame:
  "ev_RuleID (fst (snd (Act w ts eng e r obs))) = ev_RuleID e"
  "ev_DedupKey (fst (snd (Act w ts eng e r obs))) = ev_DedupKey e"
  "ev_LearningOnly (fst (snd (Act w ts eng e r obs))) = ev_LearningOnly e"
  "ev_Confidence (fst (snd (Act w ts eng e r obs))) = ev_Confidence e"
  "ev_Severity (fst (snd (Act w ts eng e r obs))) = ev_Severity e"
  "ev_Entity (fst (snd (Act w ts eng e r obs))) = ev_Entity e"
  "eng_cfg (fst (Act w ts eng e r obs)) = eng_cfg eng"
  by (cases ts; simp add: Act_def split_beta ApplyPlan_frame Decide_cfg)+

lemma act_event_frame:
  assumes "act_event en ck rn e r obs = (rn', e', fx)"
  shows "ev_RuleID e' = ev_RuleID e" "ev_DedupKey e' = ev_DedupKey e" "ev_LearningOnly e' = ev_LearningOnly e"
    "ev_Confidence e' = ev_Confidence e" "ev_Severity e' = ev_Severity e" "ev_Entity e' = ev_Entity e"
    "rn_cfg rn' = rn_cfg rn" "rn_limiter rn' = rn_limiter rn" "rn_lastDedup rn' = rn_lastDedup rn"
    "rn_dedupOps rn' = rn_dedupOps rn" "rn_pack rn' = rn_pack rn" "rn_vault rn' = rn_vault rn"
    "map_option eng_cfg (rn_responder rn') = map_option eng_cfg (rn_responder rn)"
  using assms Act_frame [where ts = "ck_act ck" and w = "en_world en" and e = e and r = r and obs = obs]
  by (auto simp: act_event_def split: option.splits prod.splits) (metis fst_conv snd_conv)+

lemma act_event_effects:
  assumes "act_event en ck rn e r obs = (rn', e', fx)" "x \<in> set fx"
  shows "\<exists>eng. rn_responder rn = Some eng \<and> x \<in> set (snd (snd (Act (en_world en) (ck_act ck) eng e r obs)))"
  using assms by (auto simp: act_event_def split: option.splits prod.splits)

lemma emit_frame:
  assumes "emit en dl rn e = (rn', e', fx)"
  shows "rn_cfg rn' = rn_cfg rn" "rn_limiter rn' = rn_limiter rn" "rn_lastDedup rn' = rn_lastDedup rn"
    "rn_dedupOps rn' = rn_dedupOps rn" "rn_pack rn' = rn_pack rn" "rn_vault rn' = rn_vault rn"
    "rn_responder rn' = rn_responder rn" "ev_Confidence e' = ev_Confidence e" "ev_LearningOnly e' = ev_LearningOnly e"
    "ev_RuleID e' = ev_RuleID e"
  using assms by (auto simp: emit_def Let_def split: option.splits)

lemma emit_effects:
  "emit en dl rn e = (rn', e', fx) \<Longrightarrow> x \<in> set fx \<Longrightarrow>
   \<not> rcf_Enabled (cfg_Respond (rn_cfg rn)) \<and> rn_vault rn \<and> \<not> ev_LearningOnly e \<and>
   0 < cfg_QuarantineMinConfidence (rn_cfg rn) \<and> cfg_QuarantineMinConfidence (rn_cfg rn) \<le> ev_Confidence e \<and>
   x = VaultStored (ent_Path (ev_Entity e))"
  by (auto simp: emit_def legacy_quarantine_def Let_def split: option.splits if_splits)

lemma shouldDedup_frame [simp]:
  "rn_cfg (snd (shouldDedup ds rn k)) = rn_cfg rn" "rn_limiter (snd (shouldDedup ds rn k)) = rn_limiter rn"
  "rn_pack (snd (shouldDedup ds rn k)) = rn_pack rn" "rn_vault (snd (shouldDedup ds rn k)) = rn_vault rn"
  "rn_responder (snd (shouldDedup ds rn k)) = rn_responder rn"
  by (simp_all add: shouldDedup_def Let_def split_beta)

lemma gates_frame [simp]:
  "rn_cfg (snd (gates ck rn e)) = rn_cfg rn" "rn_pack (snd (gates ck rn e)) = rn_pack rn"
  "rn_vault (snd (gates ck rn e)) = rn_vault rn" "rn_responder (snd (gates ck rn e)) = rn_responder rn"
  by (simp_all add: gates_def Let_def split_beta)

lemma gates_quiet:
  "fst (gates ck rn e) = EmittedQuiet \<longleftrightarrow> ev_LearningOnly e \<or> ev_Confidence e < cfg_MinConfidenceAlert (rn_cfg rn)"
  by (simp add: gates_def Let_def split_beta)

lemma gates_limiter:
  "if fst (gates ck rn e) = Alerted \<or> fst (gates ck rn e) = RateLimited
   then Allow (rn_limiter rn) (ck_limit ck) (ev_RuleID e) = (fst (gates ck rn e) = Alerted, rn_limiter (snd (gates ck rn e)))
   else rn_limiter (snd (gates ck rn e)) = rn_limiter rn"
  by (cases "Allow (rn_limiter rn) (ck_limit ck) (ev_RuleID e)") (auto simp: gates_def Let_def split_beta)

lemma gates_dedup:
  assumes "ev_DedupKey e \<noteq> []"
  shows "if fst (gates ck rn e) = EmittedQuiet
    then rn_lastDedup (snd (gates ck rn e)) = rn_lastDedup rn \<and> rn_dedupOps (snd (gates ck rn e)) = rn_dedupOps rn
    else dedupStep (dedup_window (rn_cfg rn)) (rn_lastDedup rn, rn_dedupOps rn) (ck_dedup ck) (ev_DedupKey e)
      = (fst (gates ck rn e) \<noteq> Duplicate, rn_lastDedup (snd (gates ck rn e)), rn_dedupOps (snd (gates ck rn e)))"
  using assms by (auto simp: gates_def Let_def split_beta shouldDedup_def dedupStep_def)

section \<open>One event\<close>

text \<open>The stages of \<open>processEvent\<close> for one event, named.\<close>

lemma processEvent_stages:
  assumes "processEvent en ck dl rn e0 obs now = (v, rn', e', fx)"
  obtains rn1 rn2 e2 fx1 rn3 where
    "rn1 = rn\<lparr>rn_correlator := addFull (rn_correlator rn) (ev_RuleID e0) (ent_ID (ev_Entity e0))
        (ev_Anchor (prepare en rn now e0)) (ev_ConfBand (prepare en rn now e0)) now\<rparr>"
    "act_event en ck rn1 (prepare en rn now e0) (rule_for rn (prepare en rn now e0)) obs = (rn2, e2, fx1)"
    "gates ck rn2 e2 = (v, rn3)"
    "if v = EmittedQuiet \<or> v = Alerted then \<exists>fx2. emit en dl rn3 e2 = (rn', e', fx2) \<and> fx = fx1 @ fx2
     else rn' = rn3 \<and> e' = e2 \<and> fx = fx1"
proof -
  define rn1 where "rn1 = rn\<lparr>rn_correlator := addFull (rn_correlator rn) (ev_RuleID e0) (ent_ID (ev_Entity e0))
        (ev_Anchor (prepare en rn now e0)) (ev_ConfBand (prepare en rn now e0)) now\<rparr>"
  obtain rn2 e2 fx1 where act: "act_event en ck rn1 (prepare en rn now e0) (rule_for rn (prepare en rn now e0)) obs = (rn2, e2, fx1)"
    by (metis prod_cases3)
  obtain v' rn3 where g: "gates ck rn2 e2 = (v', rn3)" by fastforce
  have "processEvent en ck dl rn e0 obs now =
      (if v' = EmittedQuiet \<or> v' = Alerted then (let (rn4, e3, fx') = emit en dl rn3 e2 in (v', rn4, e3, fx1 @ fx'))
       else (v', rn3, e2, fx1))"
    using act g by (simp add: processEvent_def Let_def rn1_def [symmetric])
  with assms have v: "v' = v" and out: "if v = EmittedQuiet \<or> v = Alerted then \<exists>fx2. emit en dl rn3 e2 = (rn', e', fx2) \<and> fx = fx1 @ fx2
     else rn' = rn3 \<and> e' = e2 \<and> fx = fx1"
    by (auto split: if_splits prod.splits simp: Let_def)
  show ?thesis by (rule that [OF rn1_def act _ out]) (use g v in simp)
qed

lemma processEvent_frame:
  assumes "processEvent en ck dl rn e0 obs now = (v, rn', e', fx)"
  shows "rn_cfg rn' = rn_cfg rn" "rn_pack rn' = rn_pack rn" "rn_vault rn' = rn_vault rn"
    "map_option eng_cfg (rn_responder rn') = map_option eng_cfg (rn_responder rn)"
    "ev_Confidence e' = ev_Confidence (prepare en rn now e0)" "ev_LearningOnly e' = ev_LearningOnly (prepare en rn now e0)"
proof -
  from processEvent_stages [OF assms] obtain rn1 rn2 e2 fx1 rn3 where s:
    "rn1 = rn\<lparr>rn_correlator := addFull (rn_correlator rn) (ev_RuleID e0) (ent_ID (ev_Entity e0))
        (ev_Anchor (prepare en rn now e0)) (ev_ConfBand (prepare en rn now e0)) now\<rparr>"
    "act_event en ck rn1 (prepare en rn now e0) (rule_for rn (prepare en rn now e0)) obs = (rn2, e2, fx1)"
    "gates ck rn2 e2 = (v, rn3)"
    "if v = EmittedQuiet \<or> v = Alerted then \<exists>fx2. emit en dl rn3 e2 = (rn', e', fx2) \<and> fx = fx1 @ fx2
     else rn' = rn3 \<and> e' = e2 \<and> fx = fx1" .
  note a = act_event_frame [OF s(2)]
  have g: "rn_cfg rn3 = rn_cfg rn2" "rn_pack rn3 = rn_pack rn2" "rn_vault rn3 = rn_vault rn2" "rn_responder rn3 = rn_responder rn2"
    using gates_frame [of ck rn2 e2] s(3) by simp_all
  have o: "rn_cfg rn' = rn_cfg rn3" "rn_pack rn' = rn_pack rn3" "rn_vault rn' = rn_vault rn3" "rn_responder rn' = rn_responder rn3"
    "ev_Confidence e' = ev_Confidence e2" "ev_LearningOnly e' = ev_LearningOnly e2"
    using s(4) emit_frame [of en dl rn3 e2 rn' e'] by (metis (no_types, lifting))+
  show "rn_cfg rn' = rn_cfg rn" "rn_pack rn' = rn_pack rn" "rn_vault rn' = rn_vault rn"
    "map_option eng_cfg (rn_responder rn') = map_option eng_cfg (rn_responder rn)"
    "ev_Confidence e' = ev_Confidence (prepare en rn now e0)" "ev_LearningOnly e' = ev_LearningOnly (prepare en rn now e0)"
    using a g o by (simp_all add: s(1))
qed

lemma processEvent_effects:
  assumes "processEvent en ck dl rn e0 obs now = (v, rn', e', fx)" "x \<in> set fx"
  defines "e1 \<equiv> prepare en rn now e0"
  shows "\<not> ev_LearningOnly e1 \<and>
    ((\<exists>eng. rn_responder rn = Some eng \<and> mode eng = ModeEnforce \<and>
        act_allowed (en_world en) (fst (ck_act ck)) eng e1 (rule_for rn e1)) \<or>
     \<not> rcf_Enabled (cfg_Respond (rn_cfg rn)) \<and> rn_vault rn \<and> x = VaultStored (ent_Path (ev_Entity e0)) \<and>
     0 < cfg_QuarantineMinConfidence (rn_cfg rn) \<and> cfg_QuarantineMinConfidence (rn_cfg rn) \<le> ev_Confidence e1)"
proof -
  from processEvent_stages [OF assms(1)] obtain rn1 rn2 e2 fx1 rn3 where s:
    "rn1 = rn\<lparr>rn_correlator := addFull (rn_correlator rn) (ev_RuleID e0) (ent_ID (ev_Entity e0)) (ev_Anchor e1) (ev_ConfBand e1) now\<rparr>"
    "act_event en ck rn1 e1 (rule_for rn e1) obs = (rn2, e2, fx1)" "gates ck rn2 e2 = (v, rn3)"
    "if v = EmittedQuiet \<or> v = Alerted then \<exists>fx2. emit en dl rn3 e2 = (rn', e', fx2) \<and> fx = fx1 @ fx2
     else rn' = rn3 \<and> e' = e2 \<and> fx = fx1"
    unfolding e1_def .
  note a = act_event_frame [OF s(2)]
  consider "x \<in> set fx1" | fx2 where "emit en dl rn3 e2 = (rn', e', fx2)" "x \<in> set fx2"
    using s(4) assms(2) by (auto split: if_splits)
  then show ?thesis
  proof cases
    case 1
    from act_event_effects [OF s(2) this] obtain eng where
      eng: "rn_responder rn = Some eng" "x \<in> set (snd (snd (Act (en_world en) (ck_act ck) eng e1 (rule_for rn e1) obs)))"
      by (auto simp: s(1))
    from Act_effects [OF eng(2)] eng(1) show ?thesis by (auto simp: act_allowed_def)
  next
    case 2
    have g: "rn_cfg rn3 = rn_cfg rn" "rn_vault rn3 = rn_vault rn"
      using gates_frame [of ck rn2 e2] s(3) a by (simp_all add: s(1))
    from emit_effects [OF 2] show ?thesis using a g by (auto simp: e1_def)
  qed
qed

lemma processEvent_learning:
  assumes "processEvent en ck dl rn e0 obs now = (v, rn', e', fx)" "ev_LearningOnly (prepare en rn now e0)"
  shows "fx = [] \<and> v = EmittedQuiet"
proof -
  have "fx = []" using processEvent_effects [OF assms(1)] assms(2) by (cases fx) auto
  moreover from processEvent_stages [OF assms(1)] obtain rn1 rn2 e2 fx1 rn3 where
    "act_event en ck rn1 (prepare en rn now e0) (rule_for rn (prepare en rn now e0)) obs = (rn2, e2, fx1)"
    "gates ck rn2 e2 = (v, rn3)" by metis
  then have "v = EmittedQuiet" using gates_quiet [of ck rn2 e2] act_event_frame(3) assms(2) by fastforce
  ultimately show ?thesis by simp
qed

lemma processEvent_limiter:
  assumes "processEvent en ck dl rn e0 obs now = (v, rn', e', fx)"
  shows "if v = Alerted \<or> v = RateLimited then Allow (rn_limiter rn) (ck_limit ck) (ev_RuleID e0) = (v = Alerted, rn_limiter rn')
    else rn_limiter rn' = rn_limiter rn"
proof -
  from processEvent_stages [OF assms] obtain rn1 rn2 e2 fx1 rn3 where s:
    "rn1 = rn\<lparr>rn_correlator := addFull (rn_correlator rn) (ev_RuleID e0) (ent_ID (ev_Entity e0))
        (ev_Anchor (prepare en rn now e0)) (ev_ConfBand (prepare en rn now e0)) now\<rparr>"
    "act_event en ck rn1 (prepare en rn now e0) (rule_for rn (prepare en rn now e0)) obs = (rn2, e2, fx1)"
    "gates ck rn2 e2 = (v, rn3)"
    "if v = EmittedQuiet \<or> v = Alerted then \<exists>fx2. emit en dl rn3 e2 = (rn', e', fx2) \<and> fx = fx1 @ fx2
     else rn' = rn3 \<and> e' = e2 \<and> fx = fx1" .
  have "rn_limiter rn' = rn_limiter rn3" using s(4) emit_frame(2) [of en dl rn3 e2 rn' e'] by (metis (no_types, lifting))
  moreover have "rn_limiter rn2 = rn_limiter rn" "ev_RuleID e2 = ev_RuleID e0"
    using act_event_frame(1,8) [OF s(2)] by (simp_all add: s(1))
  ultimately show ?thesis using gates_limiter [of ck rn2 e2] s(3) by (auto split: if_splits)
qed

lemma processEvent_dedup:
  assumes "processEvent en ck dl rn e0 obs now = (v, rn', e', fx)"
  defines "key \<equiv> ev_DedupKey (NormalizeDedup (en_sha en) e0)"
  assumes "key \<noteq> []"
  shows "if v = EmittedQuiet then rn_lastDedup rn' = rn_lastDedup rn \<and> rn_dedupOps rn' = rn_dedupOps rn
    else dedupStep (dedup_window (rn_cfg rn)) (rn_lastDedup rn, rn_dedupOps rn) (ck_dedup ck) key
      = (v \<noteq> Duplicate, rn_lastDedup rn', rn_dedupOps rn')"
proof -
  from processEvent_stages [OF assms(1)] obtain rn1 rn2 e2 fx1 rn3 where s:
    "rn1 = rn\<lparr>rn_correlator := addFull (rn_correlator rn) (ev_RuleID e0) (ent_ID (ev_Entity e0))
        (ev_Anchor (prepare en rn now e0)) (ev_ConfBand (prepare en rn now e0)) now\<rparr>"
    "act_event en ck rn1 (prepare en rn now e0) (rule_for rn (prepare en rn now e0)) obs = (rn2, e2, fx1)"
    "gates ck rn2 e2 = (v, rn3)"
    "if v = EmittedQuiet \<or> v = Alerted then \<exists>fx2. emit en dl rn3 e2 = (rn', e', fx2) \<and> fx = fx1 @ fx2
     else rn' = rn3 \<and> e' = e2 \<and> fx = fx1" .
  have "rn_lastDedup rn' = rn_lastDedup rn3" "rn_dedupOps rn' = rn_dedupOps rn3"
    using s(4) emit_frame(3,4) [of en dl rn3 e2 rn' e'] by (metis (no_types, lifting))+
  moreover have "rn_lastDedup rn2 = rn_lastDedup rn" "rn_dedupOps rn2 = rn_dedupOps rn" "rn_cfg rn2 = rn_cfg rn"
    "ev_DedupKey e2 = key"
    using act_event_frame(2,7,9,10) [OF s(2)] by (simp_all add: s(1) key_def)
  ultimately show ?thesis using gates_dedup [of e2 ck rn2] s(3) assms(3) by (simp split: if_splits)
qed

section \<open>Runs\<close>

type_synonym input = "clocks \<times> delivery \<times> Event \<times> time \<times> time"

fun process_all :: "env \<Rightarrow> Runner \<Rightarrow> input list \<Rightarrow> (verdict \<times> Event \<times> effect list) list" where
  "process_all en rn [] = []"
| "process_all en rn ((ck, dl, e, obs, now) # inps) =
     (case processEvent en ck dl rn e obs now of
        (v, rn', e', fx) \<Rightarrow> (v, e', fx) # process_all en rn' inps)"

text \<open>The host changes between events: a run in which every event is given its own view of it.\<close>

fun process_each :: "Runner \<Rightarrow> (env \<times> input) list \<Rightarrow> (verdict \<times> Event \<times> effect list) list" where
  "process_each rn [] = []"
| "process_each rn ((en, ck, dl, e, obs, now) # xs) =
     (case processEvent en ck dl rn e obs now of
        (v, rn', e', fx) \<Rightarrow> (v, e', fx) # process_each rn' xs)"

lemma process_all_each: "process_all en rn inps = process_each rn (map (Pair en) inps)"
  by (induction en rn inps rule: process_all.induct) (auto split: prod.splits)

text \<open>The requests that reach the limiter, with their verdicts.\<close>

fun limiter_requests :: "input list \<Rightarrow> (verdict \<times> Event \<times> effect list) list \<Rightarrow> (time \<times> string) list" where
  "limiter_requests ((ck, dl, e, obs, now) # inps) ((v, _, _) # outs) =
     (if v = Alerted \<or> v = RateLimited then [(ck_limit ck, ev_RuleID e)] else []) @ limiter_requests inps outs"
| "limiter_requests _ _ = []"

fun dedup_requests :: "env \<Rightarrow> input list \<Rightarrow> (verdict \<times> Event \<times> effect list) list \<Rightarrow> ((time \<times> time \<times> time) \<times> string) list" where
  "dedup_requests en ((ck, dl, e, obs, now) # inps) ((v, _, _) # outs) =
     (if v \<noteq> EmittedQuiet then [(ck_dedup ck, ev_DedupKey (NormalizeDedup (en_sha en) e))] else []) @ dedup_requests en inps outs"
| "dedup_requests en _ _ = []"

definition verdicts :: "(verdict \<times> Event \<times> effect list) list \<Rightarrow> verdict list" where
  "verdicts outs = map fst outs"

lemma limiter_drive_each:
  "drive Allow (rn_limiter rn) (limiter_requests (map snd xs) (process_each rn xs))
   = map (\<lambda>v. v = Alerted) (filter (\<lambda>v. v = Alerted \<or> v = RateLimited) (verdicts (process_each rn xs)))"
proof (induction xs arbitrary: rn)
  case (Cons x xs)
  obtain en ck dl e obs now where x: "x = (en, ck, dl, e, obs, now)" by (metis prod_cases6)
  obtain v rn' e' fx where p: "processEvent en ck dl rn e obs now = (v, rn', e', fx)" by (metis prod_cases4)
  show ?case using processEvent_limiter [OF p] Cons.IH [of rn'] by (cases v) (simp_all add: x p verdicts_def)
qed (simp add: verdicts_def)

lemma limiter_drive:
  "drive Allow (rn_limiter rn) (limiter_requests inps (process_all en rn inps))
   = map (\<lambda>v. v = Alerted) (filter (\<lambda>v. v = Alerted \<or> v = RateLimited) (verdicts (process_all en rn inps)))"
  using limiter_drive_each [of rn "map (Pair en) inps"] by (simp add: process_all_each comp_def)

lemma dedup_drive:
  assumes "\<And>e. en_sha en e \<noteq> []"
  shows "drive (dedupStep (dedup_window (rn_cfg rn))) (rn_lastDedup rn, rn_dedupOps rn) (dedup_requests en inps (process_all en rn inps))
   = map (\<lambda>v. v \<noteq> Duplicate) (filter (\<lambda>v. v \<noteq> EmittedQuiet) (verdicts (process_all en rn inps)))"
proof (induction inps arbitrary: rn)
  case (Cons x inps)
  obtain ck dl e obs now where x: "x = (ck, dl, e, obs, now)" by (metis prod_cases5)
  obtain v rn' e' fx where p: "processEvent en ck dl rn e obs now = (v, rn', e', fx)" by (metis prod_cases4)
  have k: "ev_DedupKey (NormalizeDedup (en_sha en) e) \<noteq> []" using assms by (simp add: NormalizeDedup_key)
  show ?case
    using processEvent_dedup [OF p k] processEvent_frame(1) [OF p] Cons.IH [of rn']
    by (simp add: x p verdicts_def del: drive.simps(2)) (auto simp: x p)
qed (simp add: verdicts_def)

lemma process_all_length [simp]: "length (process_all en rn inps) = length inps"
  by (induction inps arbitrary: rn rule: list.induct) (auto split: prod.splits)

text \<open>A configuration in audit mode never touches the host, over any run.\<close>

lemma audit_run_each:
  assumes "rcf_Enabled (cfg_Respond (rn_cfg rn))" "rn_responder rn = Some eng" "rcf_Mode (eng_cfg eng) \<noteq> ModeEnforce"
    and "(v, e, fx) \<in> set (process_each rn xs)"
  shows "fx = []"
  using assms
proof (induction xs arbitrary: rn eng)
  case (Cons x xs)
  obtain en ck dl e0 obs now where x: "x = (en, ck, dl, e0, obs, now)" by (metis prod_cases6)
  obtain v1 rn1 e1 fx1 where p: "processEvent en ck dl rn e0 obs now = (v1, rn1, e1, fx1)" by (metis prod_cases4)
  have "mode eng \<noteq> ModeEnforce" using Cons.prems(3) by (simp add: mode_def mode_defs)
  then have "fx1 = []"
    using processEvent_effects [OF p] Cons.prems(1,2) by (cases fx1) auto
  moreover obtain eng1 where "rn_responder rn1 = Some eng1" "eng_cfg eng1 = eng_cfg eng"
    using processEvent_frame(4) [OF p] Cons.prems(2) by auto
  ultimately show ?case
    using Cons.IH [of rn1 eng1] Cons.prems processEvent_frame(1) [OF p] by (auto simp: x p)
qed simp

section \<open>Histories of a run\<close>

text \<open>
  The clock readings of the events of a run, in order: the readings of the duplicate check, then
  the one of the limiter, then those of the next event. \<open>alerts\<close> are the emissions of alerts by
  rule, \<open>passes\<close> the events that the duplicate check let through by key, both with the clock
  reading that was stored.
\<close>

fun clocked_inputs :: "time \<Rightarrow> input list \<Rightarrow> bool" where
  "clocked_inputs T [] \<longleftrightarrow> True"
| "clocked_inputs T ((ck, dl, e, obs, now) # inps) \<longleftrightarrow>
     T \<le> fst (ck_dedup ck) \<and> readings_ok (ck_dedup ck) \<and> snd (snd (ck_dedup ck)) \<le> ck_limit ck \<and>
     clocked_inputs (ck_limit ck) inps"

fun alerts :: "input list \<Rightarrow> (verdict \<times> Event \<times> effect list) list \<Rightarrow> (string \<times> time) list" where
  "alerts ((ck, dl, e, obs, now) # inps) ((v, _, _) # outs) =
     (if v = Alerted then [(ev_RuleID e, ck_limit ck)] else []) @ alerts inps outs"
| "alerts _ _ = []"

fun passes :: "env \<Rightarrow> input list \<Rightarrow> (verdict \<times> Event \<times> effect list) list \<Rightarrow> (string \<times> time) list" where
  "passes en ((ck, dl, e, obs, now) # inps) ((v, _, _) # outs) =
     (if v = Alerted \<or> v = RateLimited
      then [(ev_DedupKey (NormalizeDedup (en_sha en) e), fst (snd (ck_dedup ck)))] else []) @ passes en inps outs"
| "passes en _ _ = []"

lemma clocked_inputs_later: "clocked_inputs T inps \<Longrightarrow> S \<le> T \<Longrightarrow> clocked_inputs S inps"
  by (cases "(S, inps)" rule: clocked_inputs.cases) auto

lemma limiter_clocked_each:
  "clocked_inputs T (map snd xs) \<Longrightarrow> lim.clocked T (limiter_requests (map snd xs) (process_each rn xs))"
proof (induction xs arbitrary: rn T)
  case (Cons x xs)
  obtain en ck dl e obs now where x: "x = (en, ck, dl, e, obs, now)" by (metis prod_cases6)
  obtain v rn' e' fx where p: "processEvent en ck dl rn e obs now = (v, rn', e', fx)" by (metis prod_cases4)
  have le: "T \<le> ck_limit ck" and r: "clocked_inputs (ck_limit ck) (map snd xs)"
    using Cons.prems by (auto simp: x readings_ok_def)
  then show ?case
    using Cons.IH [of "ck_limit ck" rn'] Cons.IH [of T rn'] clocked_inputs_later [OF r le] by (simp add: x p)
qed simp

lemma limiter_clocked:
  "clocked_inputs T inps \<Longrightarrow> lim.clocked T (limiter_requests inps (process_all en rn inps))"
  using limiter_clocked_each [of T "map (Pair en) inps" rn] by (simp add: process_all_each comp_def)

lemma dedup_clocked:
  "clocked_inputs T inps \<Longrightarrow> dedup.clocked T (dedup_requests en inps (process_all en rn inps))"
proof (induction inps arbitrary: rn T)
  case (Cons x inps)
  obtain ck dl e obs now where x: "x = (ck, dl, e, obs, now)" by (metis prod_cases5)
  obtain v rn' e' fx where p: "processEvent en ck dl rn e obs now = (v, rn', e', fx)" by (metis prod_cases4)
  let ?D = "snd (snd (ck_dedup ck))"
  have le: "T \<le> fst (ck_dedup ck)" "readings_ok (ck_dedup ck)" "?D \<le> ck_limit ck" "T \<le> ck_limit ck"
    and r: "clocked_inputs (ck_limit ck) inps"
    using Cons.prems by (auto simp: x readings_ok_def)
  then show ?case
    using Cons.IH [of ?D rn'] Cons.IH [of T rn'] clocked_inputs_later [OF r le(3)] clocked_inputs_later [OF r le(4)]
    by (simp add: x p)
qed simp

lemma admitted_Nil [simp]: "admitted stamp [] bs = []"
  and admitted_Cons [simp]: "admitted stamp ((c, k) # rs) (b # bs) = (if b then [(k, stamp c)] else []) @ admitted stamp rs bs"
  by (simp_all add: admitted_def)

lemma alerts_admitted_each:
  "alerts (map snd xs) (process_each rn xs) =
   admitted (\<lambda>t. t) (limiter_requests (map snd xs) (process_each rn xs))
     (drive Allow (rn_limiter rn) (limiter_requests (map snd xs) (process_each rn xs)))"
proof (induction xs arbitrary: rn)
  case (Cons x xs)
  obtain en ck dl e obs now where x: "x = (en, ck, dl, e, obs, now)" by (metis prod_cases6)
  obtain v rn' e' fx where p: "processEvent en ck dl rn e obs now = (v, rn', e', fx)" by (metis prod_cases4)
  show ?case using processEvent_limiter [OF p] Cons.IH [of rn'] by (cases v) (simp_all add: x p)
qed simp

lemma alerts_admitted:
  "alerts inps (process_all en rn inps) =
   admitted (\<lambda>t. t) (limiter_requests inps (process_all en rn inps))
     (drive Allow (rn_limiter rn) (limiter_requests inps (process_all en rn inps)))"
  using alerts_admitted_each [of "map (Pair en) inps" rn] by (simp add: process_all_each comp_def)

lemma passes_admitted:
  assumes "\<And>e. en_sha en e \<noteq> []"
  shows "passes en inps (process_all en rn inps) =
   admitted (\<lambda>ds. fst (snd ds)) (dedup_requests en inps (process_all en rn inps))
     (drive (dedupStep (dedup_window (rn_cfg rn))) (rn_lastDedup rn, rn_dedupOps rn)
        (dedup_requests en inps (process_all en rn inps)))"
proof (induction inps arbitrary: rn)
  case (Cons x inps)
  obtain ck dl e obs now where x: "x = (ck, dl, e, obs, now)" by (metis prod_cases5)
  obtain v rn' e' fx where p: "processEvent en ck dl rn e obs now = (v, rn', e', fx)" by (metis prod_cases4)
  have k: "ev_DedupKey (NormalizeDedup (en_sha en) e) \<noteq> []" using assms by (simp add: NormalizeDedup_key)
  show ?case
    using processEvent_dedup [OF p k] processEvent_frame(1) [OF p] Cons.IH [of rn']
    by (cases v) (simp_all add: x p)
qed simp

lemma process_all_append:
  "\<exists>rn'. process_all en rn (inps @ [x]) = process_all en rn inps @ process_all en rn' [x]"
proof (induction inps arbitrary: rn)
  case (Cons y inps)
  obtain ck dl e obs now where y: "y = (ck, dl, e, obs, now)" by (metis prod_cases5)
  obtain v rn1 e' fx where p: "processEvent en ck dl rn e obs now = (v, rn1, e', fx)" by (metis prod_cases4)
  show ?case using Cons.IH [of rn1] by (auto simp: y p)
qed auto

lemma limiter_requests_append:
  "length inps = length outs \<Longrightarrow>
   limiter_requests (inps @ inps') (outs @ outs') = limiter_requests inps outs @ limiter_requests inps' outs'"
  by (induction inps outs rule: limiter_requests.induct) auto

lemma dedup_requests_append:
  "length inps = length outs \<Longrightarrow>
   dedup_requests en (inps @ inps') (outs @ outs') = dedup_requests en inps outs @ dedup_requests en inps' outs'"
  by (induction en inps outs rule: dedup_requests.induct) auto

lemma limiter_drive_last:
  assumes "process_all en rn (inps @ [(ck, dl, e, obs, now)]) = outs @ [(v, e', fx)]" "v = Alerted \<or> v = RateLimited"
    and "clocked_inputs T (inps @ [(ck, dl, e, obs, now)])" "rn_limiter rn = Some (NewLimiter (int (Suc n)))"
  shows "v = RateLimited \<longleftrightarrow> Suc n \<le> recent minute (alerts inps (process_all en rn inps)) (ev_RuleID e) (ck_limit ck)"
proof -
  let ?x = "(ck, dl, e, obs, now)" and ?o = "process_all en rn inps"
  from process_all_append [of en rn inps ?x] obtain rn' where
    a: "process_all en rn (inps @ [?x]) = ?o @ process_all en rn' [?x]" by blast
  then have o: "outs = ?o" "process_all en rn' [?x] = [(v, e', fx)]"
    using assms(1) by (simp_all split: prod.splits)
  have q: "limiter_requests (inps @ [?x]) (process_all en rn (inps @ [?x])) =
      limiter_requests inps ?o @ [(ck_limit ck, ev_RuleID e)]"
    using assms(2) by (simp add: a o limiter_requests_append del: process_all.simps)
  have l: "last (drive Allow (rn_limiter rn) (limiter_requests inps ?o @ [(ck_limit ck, ev_RuleID e)])) \<longleftrightarrow> v = Alerted"
    unfolding q [symmetric] limiter_drive using assms(2) by (auto simp: assms(1) verdicts_def)
  have c: "lim.clocked T (limiter_requests inps ?o @ [(ck_limit ck, ev_RuleID e)])"
    using limiter_clocked [OF assms(3), of en rn] unfolding q .
  show ?thesis
    using lim.refused_iff_full [OF c, of n] l assms(2,4) by (auto simp: alerts_admitted)
qed

lemma dedup_drive_last:
  assumes "process_all en rn (inps @ [(ck, dl, e, obs, now)]) = outs @ [(v, e', fx)]" "v \<noteq> EmittedQuiet"
    and "clocked_inputs T (inps @ [(ck, dl, e, obs, now)])" "\<And>s. en_sha en s \<noteq> []"
    and "rn_lastDedup rn = []" "rn_dedupOps rn = 0" "dedup_window (rn_cfg rn) = window_of n"
  shows "v = Duplicate \<longleftrightarrow>
    1 \<le> recent (window_of n) (passes en inps (process_all en rn inps)) (ev_DedupKey (NormalizeDedup (en_sha en) e)) (fst (ck_dedup ck))"
proof -
  let ?x = "(ck, dl, e, obs, now)" and ?o = "process_all en rn inps" and ?k = "ev_DedupKey (NormalizeDedup (en_sha en) e)"
  let ?d = "drive (dedupStep (dedup_window (rn_cfg rn))) (rn_lastDedup rn, rn_dedupOps rn)"
  from process_all_append [of en rn inps ?x] obtain rn' where
    a: "process_all en rn (inps @ [?x]) = ?o @ process_all en rn' [?x]" by blast
  then have o: "outs = ?o" "process_all en rn' [?x] = [(v, e', fx)]"
    using assms(1) by (simp_all split: prod.splits)
  have q: "dedup_requests en (inps @ [?x]) (process_all en rn (inps @ [?x])) = dedup_requests en inps ?o @ [(ck_dedup ck, ?k)]"
    using assms(2) by (simp add: a o dedup_requests_append del: process_all.simps)
  have l: "last (?d (dedup_requests en inps ?o @ [(ck_dedup ck, ?k)])) \<longleftrightarrow> v \<noteq> Duplicate"
    unfolding q [symmetric] dedup_drive [OF assms(4)] using assms(2) by (auto simp: assms(1) verdicts_def)
  have c: "dedup.clocked T (dedup_requests en inps ?o @ [(ck_dedup ck, ?k)])"
    using dedup_clocked [OF assms(3), of en rn] unfolding q .
  show ?thesis
    using dedup.refused_iff_full [OF c, of n] l unfolding passes_admitted [OF assms(4)] assms(5-7) by blast
qed

section \<open>Delivery\<close>

lemma spool_failures_holds:
  "holds_records s ls \<Longrightarrow> (\<And>j. io j = no_faults) \<Longrightarrow>
   \<exists>s'. spool_failures io i oks b (Some s) = Some s' \<and> holds_records s' (ls @ replicate (length (filter Not oks)) b) \<and>
     sp_maxBytes s' = sp_maxBytes s"
proof (induction oks arbitrary: s ls i)
  case (Cons ok oks)
  show ?case
  proof (cases ok)
    case False
    obtain s1 where s1: "SpoolAppend (io i) (Some s) b = (None, Some s1)" "holds_records s1 (ls @ [b])" "sp_maxBytes s1 = sp_maxBytes s"
      using SpoolAppend_holds [OF Cons.prems(1), of b] Cons.prems(2) by auto
    from Cons.IH [OF s1(2) Cons.prems(2), of "Suc i"] show ?thesis using s1 False by simp
  qed (use Cons in simp)
qed simp

lemma processEvent_out:
  assumes "processEvent en ck dl rn e0 obs now = (v, rn', e', fx)"
  shows "if v = EmittedQuiet \<or> v = Alerted
    then (case en_json en e' of
            None \<Rightarrow> rn_out rn' = rn_out rn \<and> rn_spool rn' = rn_spool rn
          | Some b \<Rightarrow> rn_out rn' = rn_out rn @ [b @ [CHR 0x0A]] \<and>
              rn_spool rn' = spool_failures (dl_io dl) 0 (delivery_results dl) b (rn_spool rn))
    else rn_out rn' = rn_out rn \<and> rn_spool rn' = rn_spool rn"
proof -
  from processEvent_stages [OF assms] obtain rn1 rn2 e2 fx1 rn3 where s:
    "rn1 = rn\<lparr>rn_correlator := addFull (rn_correlator rn) (ev_RuleID e0) (ent_ID (ev_Entity e0))
        (ev_Anchor (prepare en rn now e0)) (ev_ConfBand (prepare en rn now e0)) now\<rparr>"
    "act_event en ck rn1 (prepare en rn now e0) (rule_for rn (prepare en rn now e0)) obs = (rn2, e2, fx1)"
    "gates ck rn2 e2 = (v, rn3)"
    "if v = EmittedQuiet \<or> v = Alerted then \<exists>fx2. emit en dl rn3 e2 = (rn', e', fx2) \<and> fx = fx1 @ fx2
     else rn' = rn3 \<and> e' = e2 \<and> fx = fx1" .
  have a: "rn_out rn2 = rn_out rn" "rn_spool rn2 = rn_spool rn"
    using s(2) by (auto simp: s(1) act_event_def split: option.splits prod.splits)
  have g: "rn_out rn3 = rn_out rn2" "rn_spool rn3 = rn_spool rn2"
    using s(3) by (auto simp: gates_def shouldDedup_def Let_def split: if_splits prod.splits)
  show ?thesis
  proof (cases "v = EmittedQuiet \<or> v = Alerted")
    case True
    then obtain fx2 where "emit en dl rn3 e2 = (rn', e', fx2)" using s(4) by auto
    then show ?thesis using True a g by (auto simp: emit_def Let_def split: option.splits)
  next
    case False
    then show ?thesis using s(4) a g by simp
  qed
qed

lemma process_all_init:
  assumes "process_all en rn (inps @ [x]) = outs @ [y]"
  shows "outs = process_all en rn inps"
proof -
  obtain rn' where "process_all en rn (inps @ [x]) = process_all en rn inps @ process_all en rn' [x]"
    using process_all_append by blast
  moreover have "length (process_all en rn' [x]) = 1" by simp
  ultimately show ?thesis using assms by (metis append_eq_append_conv length_Cons list.size(3) One_nat_def)
qed

lemma processEvent_rule:
  assumes "processEvent en ck dl rn e0 obs now = (v, rn', e', fx)"
  shows "ev_RuleID e' = ev_RuleID e0"
proof -
  from processEvent_stages [OF assms] obtain rn1 rn2 e2 fx1 rn3 where s:
    "act_event en ck rn1 (prepare en rn now e0) (rule_for rn (prepare en rn now e0)) obs = (rn2, e2, fx1)"
    "if v = EmittedQuiet \<or> v = Alerted then \<exists>fx2. emit en dl rn3 e2 = (rn', e', fx2) \<and> fx = fx1 @ fx2
     else rn' = rn3 \<and> e' = e2 \<and> fx = fx1" by metis
  have "ev_RuleID e2 = ev_RuleID e0" using act_event_frame(1) [OF s(1)] by simp
  then show ?thesis using s(2) emit_frame(10) [of en dl rn3 e2 rn' e'] by (auto split: if_splits)
qed

end
