(* ===== verification/GC_LivePath.thy ===== *)
theory GC_LivePath
  imports GC_Credential GC_Network GC_Pipeline
begin

text \<open>
  The live path of \<^verbatim>\<open>internal/runner/runner.go\<close>: \<^verbatim>\<open>consumeSensor\<close> takes each record of the sensor
  channel through the debouncer and the routes for its kind, and each event a route reports through
  the pipeline; \<^verbatim>\<open>suddenRootLoop\<close> does the same for the snapshots of the credential tracker. The
  channel is the list of its records. What the path gives the pipeline is kept beside the answers,
  so that the path can be compared with a run of the pipeline.
\<close>

section \<open>Dispatch\<close>

text \<open>The runner and the counter of the credential detector.\<close>

type_synonym live = "Runner \<times> massCounter"

type_synonym route = "live \<Rightarrow> Event option \<times> live"

text \<open>What \<^verbatim>\<open>dispatchEvent\<close> finds: the clock readings and deliveries of the pipeline, and its \<^verbatim>\<open>now\<close>.\<close>

type_synonym dispatch = "clocks \<times> delivery \<times> time"

type_synonym outcome = "verdict \<times> Event \<times> effect list"

definition dispatchEvent :: "env \<Rightarrow> dispatch \<Rightarrow> Runner \<Rightarrow> Event \<Rightarrow> time \<Rightarrow> (input \<times> outcome) \<times> Runner" where
  "dispatchEvent en d rn e observedAt =
     (case d of (ck, dl, now) \<Rightarrow>
        (let (v, rn', e', fx) = processEvent en ck dl rn e observedAt now
         in (((ck, dl, e, observedAt, now), (v, e', fx)), rn')))"

text \<open>The routes one after the other; the event of a route is dispatched before the next route runs.\<close>

fun run_routes :: "env \<Rightarrow> (nat \<Rightarrow> dispatch) \<Rightarrow> nat \<Rightarrow> time \<Rightarrow> route list \<Rightarrow> live \<Rightarrow> (input \<times> outcome) list \<times> live" where
  "run_routes en ds i observedAt [] st = ([], st)"
| "run_routes en ds i observedAt (r # rs) st =
     (case r st of
        (None, st') \<Rightarrow> run_routes en ds (Suc i) observedAt rs st'
      | (Some e, (rn, m)) \<Rightarrow>
          (let (io, rn') = dispatchEvent en (ds i) rn e observedAt;
               (ios, st'') = run_routes en ds (Suc i) observedAt rs (rn', m)
           in (io # ios, st'')))"

section \<open>The routes of a record\<close>

definition pure_route :: "(Runner \<Rightarrow> Event option) \<Rightarrow> route" where
  "pure_route f st = (f (fst st), st)"

definition sudden_route :: "env \<Rightarrow> (ProcessKey list \<Rightarrow> ProcessKey list) \<Rightarrow> time \<Rightarrow> SensorEvent \<Rightarrow> route" where
  "sudden_route en ord clock ev st =
     (case st of (rn, m) \<Rightarrow>
        (let (oe, t) = RouteSensorEvent ord (en_sha en) (en_fs en) clock (rn_cfg rn) (rn_pack rn) AgentVersion (rn_privesc rn) ev
         in (oe, (rn\<lparr>rn_privesc := t\<rparr>, m))))"

definition openat_route :: "env \<Rightarrow> time \<Rightarrow> SensorEvent \<Rightarrow> route" where
  "openat_route en clock ev st =
     (case st of (rn, m) \<Rightarrow>
        (let (oe, m') = credential_RouteOpenat (en_sha en) (en_fs en) clock (rn_cfg rn) (rn_pack rn) AgentVersion m ev
         in (oe, (rn, m'))))"

definition imds_addresses :: "string list" where
  "imds_addresses = [''169.254.169.254'', ''fd00:ec2::254'']"

definition imds_event :: "env \<Rightarrow> time \<Rightarrow> SensorEvent \<Rightarrow> Runner \<Rightarrow> Event" where
  "imds_event en observedAt ev rn =
     (let sigs = [''network_imds_access'', ''comm:'' @ se_Comm ev];
          conf = floored 85 (rn_pack rn) RuleIMDSAccess sigs
      in NormalizeDedup (en_sha en) (zero_Event\<lparr>
           ev_SchemaVersion := SchemaVersion, ev_AgentVersion := AgentVersion, ev_Timestamp := observedAt,
           ev_RuleID := RuleIMDSAccess, ev_RulePackVersion := pack_Version (rn_pack rn), ev_Confidence := conf,
           ev_Severity := SeverityFromConfidence conf (cfg_LearningMode (rn_cfg rn)),
           ev_Entity := \<lparr>ent_Type = EntityProcess, ent_ID = Itoa (se_PID ev), ent_Path = [], ent_User = []\<rparr>,
           ev_Signals := sigs, ev_Evidence := ''IMDS '' @ se_RemoteIP ev, ev_Src := SrcAudit, ev_Type := TypeEvent,
           ev_Anchor := ai_Anchor (FromPID (en_fs en) (se_PID ev)), ev_ConfBand := ConfHigh,
           ev_Network := Some \<lparr>nc_Proto = [], nc_LocalIP = [], nc_LocalPort = 0, nc_RemoteIP = se_RemoteIP ev,
              nc_RemotePort = se_RemotePort ev, nc_Direction = ''outbound''\<rparr>\<rparr>))"

text \<open>\<open>ct i\<close> is the clock reading of the \<open>i\<close>-th route.\<close>

definition live_routes ::
  "env \<Rightarrow> (ProcessKey list \<Rightarrow> ProcessKey list) \<Rightarrow> (nat \<Rightarrow> time) \<Rightarrow> Config \<Rightarrow> time \<Rightarrow> SensorEvent \<Rightarrow> route list" where
  "live_routes en ord ct cfg observedAt ev =
     (let h = en_sha en; fs = en_fs en; k = se_Kind ev
      in (if sr_Enabled (cfg_SuddenRoot cfg) \<and> k = KindExec then [sudden_route en ord (ct 0) ev] else []) @
         (if cf_Enabled (cfg_CopyFail cfg) \<and> k = KindSocket
          then [pure_route (\<lambda>rn. copyfail_RouteSensorEvent h fs (ct 0) (rn_cfg rn) (rn_pack rn) AgentVersion ev)] else []) @
         (if k = KindOpenat then
            [openat_route en (ct 1) ev,
             pure_route (\<lambda>rn. containeresc_RouteFile h fs (ct 2) (rn_cfg rn) (rn_pack rn) AgentVersion ev),
             pure_route (\<lambda>rn. web_RouteDocrootWrite h fs (ct 3) (rn_cfg rn) (rn_pack rn) AgentVersion ev)]
          else if k = KindExec then
            [pure_route (\<lambda>rn. defense_RouteExec h fs (ct 1) (rn_cfg rn) (rn_pack rn) AgentVersion ev),
             pure_route (\<lambda>rn. containeresc_RouteExec h fs (ct 2) (rn_cfg rn) (rn_pack rn) AgentVersion ev)]
          else if k = KindConnect then
            (if se_RemoteIP ev \<in> set imds_addresses then [pure_route (\<lambda>rn. Some (imds_event en observedAt ev rn))] else [])
          else if k = KindPtrace \<or> k = KindMemfdCreate \<or> k = KindInitModule then
            pure_route (\<lambda>rn. sensorlive_RouteSensorEvent (ct 1) (rn_cfg rn) (rn_pack rn) AgentVersion ev) #
            (if k = KindPtrace
             then [pure_route (\<lambda>rn. credential_RoutePtraceMem h fs (ct 2) (rn_cfg rn) (rn_pack rn) AgentVersion ev)] else [])
          else []))"

text \<open>What the loop finds for one record.\<close>

record live_io =
  li_debounce :: time
  li_observed :: time
  li_reads :: "nat \<Rightarrow> time"
  li_dispatch :: "nat \<Rightarrow> dispatch"
  li_order :: "ProcessKey list \<Rightarrow> ProcessKey list"

definition consume_one ::
  "env \<Rightarrow> live_io \<Rightarrow> SensorEvent \<Rightarrow> Debouncer option \<times> live \<Rightarrow> (input \<times> outcome) list \<times> Debouncer option \<times> live" where
  "consume_one en io ev dst =
     (case dst of (deb, st) \<Rightarrow>
        if se_Kind ev \<notin> set FastKinds then ([], deb, st)
        else
          (let (ok, deb') = DebounceAllow deb (li_debounce io) ev
           in if \<not> ok then ([], deb', st)
              else
                (let observedAt = (if IsZero (se_When ev) then li_observed io else se_When ev);
                     (ios, st') = run_routes en (li_dispatch io) 0 observedAt
                        (live_routes en (li_order io) (li_reads io) (rn_cfg (fst st)) observedAt ev) st
                 in (ios, deb', st'))))"

fun consume_all ::
  "env \<Rightarrow> (live_io \<times> SensorEvent) list \<Rightarrow> Debouncer option \<times> live \<Rightarrow> (input \<times> outcome) list \<times> Debouncer option \<times> live" where
  "consume_all en [] dst = ([], dst)"
| "consume_all en ((io, ev) # recs) dst =
     (let (ios, dst') = consume_one en io ev dst;
          (ios', dst'') = consume_all en recs dst'
      in (ios @ ios', dst''))"

definition consumeSensor :: "env \<Rightarrow> live \<Rightarrow> (live_io \<times> SensorEvent) list \<Rightarrow> (input \<times> outcome) list \<times> Debouncer option \<times> live" where
  "consumeSensor en st recs =
     consume_all en recs (NewDebouncer (wrap64 (sc_DebounceMS (cfg_Sensor (rn_cfg (fst st))) * millisecond)), st)"

text \<open>One tick of the sudden-root loop: the events of the snapshot, in order.\<close>

fun dispatch_all :: "env \<Rightarrow> (nat \<Rightarrow> dispatch) \<Rightarrow> nat \<Rightarrow> time \<Rightarrow> Event list \<Rightarrow> Runner \<Rightarrow> (input \<times> outcome) list \<times> Runner" where
  "dispatch_all en ds i observedAt [] rn = ([], rn)"
| "dispatch_all en ds i observedAt (e # es) rn =
     (let (io, rn') = dispatchEvent en (ds i) rn e observedAt;
          (ios, rn'') = dispatch_all en ds (Suc i) observedAt es rn'
      in (io # ios, rn''))"

definition suddenRoot_tick ::
  "env \<Rightarrow> (ProcessKey list \<Rightarrow> ProcessKey list) \<Rightarrow> time \<Rightarrow> time \<Rightarrow> (nat \<Rightarrow> dispatch) \<Rightarrow> Runner \<Rightarrow> (input \<times> outcome) list \<times> Runner" where
  "suddenRoot_tick en ord scan now ds rn =
     (let (oevs, t) = SuddenRootSnapshot ord (en_sha en) (en_fs en) scan (rn_cfg rn) (rn_pack rn) AgentVersion (rn_privesc rn);
          rn1 = rn\<lparr>rn_privesc := t\<rparr>
      in case oevs of
           None \<Rightarrow> ([], rn1)
         | Some evs \<Rightarrow> dispatch_all en ds 0 now evs rn1)"

section \<open>The live path is a run of the pipeline\<close>

text \<open>The pipeline neither reads nor writes the credential tracker.\<close>

lemma prepare_privesc [simp]: "prepare en (rn\<lparr>rn_privesc := t\<rparr>) now e = prepare en rn now e"
  by (simp add: prepare_def orient_def Let_def split: option.splits)

lemma rule_for_privesc [simp]: "rule_for (rn\<lparr>rn_privesc := t\<rparr>) e = rule_for rn e"
  by (simp add: rule_for_def)

lemma act_event_privesc:
  "act_event en ck (rn\<lparr>rn_privesc := t\<rparr>) e r obs =
     (case act_event en ck rn e r obs of (rn', e', fx) \<Rightarrow> (rn'\<lparr>rn_privesc := t\<rparr>, e', fx))"
  by (simp add: act_event_def split: option.splits prod.splits)

lemma shouldDedup_privesc:
  "shouldDedup ds (rn\<lparr>rn_privesc := t\<rparr>) key = (case shouldDedup ds rn key of (b, rn') \<Rightarrow> (b, rn'\<lparr>rn_privesc := t\<rparr>))"
  by (simp add: shouldDedup_def split: prod.splits)

lemma gates_privesc:
  "gates ck (rn\<lparr>rn_privesc := t\<rparr>) e = (case gates ck rn e of (v, rn') \<Rightarrow> (v, rn'\<lparr>rn_privesc := t\<rparr>))"
  by (simp add: gates_def shouldDedup_privesc Let_def split: prod.splits)

lemma emit_privesc:
  "emit en dl (rn\<lparr>rn_privesc := t\<rparr>) e = (case emit en dl rn e of (rn', e', fx) \<Rightarrow> (rn'\<lparr>rn_privesc := t\<rparr>, e', fx))"
  by (simp add: emit_def legacy_quarantine_def Let_def split: option.splits)

lemma correlator_privesc: "rn\<lparr>rn_privesc := t, rn_correlator := c\<rparr> = rn\<lparr>rn_correlator := c, rn_privesc := t\<rparr>"
  by simp

lemma processEvent_privesc:
  "processEvent en ck dl (rn\<lparr>rn_privesc := t\<rparr>) e obs now =
     (case processEvent en ck dl rn e obs now of (v, rn', e', fx) \<Rightarrow> (v, rn'\<lparr>rn_privesc := t\<rparr>, e', fx))"
proof -
  let ?e = "prepare en rn now e"
  let ?c = "addFull (rn_correlator rn) (ev_RuleID ?e) (ent_ID (ev_Entity ?e)) (ev_Anchor ?e) (ev_ConfBand ?e) now"
  obtain rn2 e2 fx where a: "act_event en ck (rn\<lparr>rn_correlator := ?c\<rparr>) ?e (rule_for rn ?e) obs = (rn2, e2, fx)"
    by (metis prod_cases3)
  obtain v rn3 where g: "gates ck rn2 e2 = (v, rn3)" by (metis surj_pair)
  obtain rn4 e3 fx' where m: "emit en dl rn3 e2 = (rn4, e3, fx')" by (metis prod_cases3)
  have "act_event en ck (rn\<lparr>rn_privesc := t, rn_correlator := ?c\<rparr>) ?e (rule_for rn ?e) obs = (rn2\<lparr>rn_privesc := t\<rparr>, e2, fx)"
    unfolding correlator_privesc act_event_privesc a by simp
  then show ?thesis
    unfolding processEvent_def Let_def
    by (simp add: a g m gates_privesc emit_privesc del: prepare_frame)
qed

text \<open>Runners that agree on everything else.\<close>

definition same_but_tracker :: "Runner \<Rightarrow> Runner \<Rightarrow> bool" where
  "same_but_tracker rn rn' \<longleftrightarrow> (\<exists>t. rn' = rn\<lparr>rn_privesc := t\<rparr>)"

lemma same_but_tracker_refl [simp]: "same_but_tracker rn rn"
  unfolding same_but_tracker_def by (metis Runner.surjective Runner.update_convs(12))

lemma same_but_tracker_upd [simp]: "same_but_tracker rn (rn\<lparr>rn_privesc := t\<rparr>)"
  by (auto simp: same_but_tracker_def)

lemma same_but_tracker_trans: "same_but_tracker a b \<Longrightarrow> same_but_tracker b c \<Longrightarrow> same_but_tracker a c"
  by (auto simp: same_but_tracker_def)

text \<open>Along a run that starts in \<open>rn\<close> and is now in \<open>rn'\<close>, what was given and what was answered.\<close>

definition traced :: "env \<Rightarrow> Runner \<Rightarrow> (input \<times> outcome) list \<Rightarrow> Runner \<Rightarrow> bool" where
  "traced en rn ios rn' \<longleftrightarrow>
     map snd ios = process_all en rn (map fst ios) \<and>
     same_but_tracker (fold (\<lambda>(ck, dl, e, obs, now) r. fst (snd (processEvent en ck dl r e obs now))) (map fst ios) rn) rn'"

lemma process_all_snoc:
  "process_all en rn (inps @ [(ck, dl, e, obs, now)]) =
     process_all en rn inps @
     (case processEvent en ck dl (fold (\<lambda>(ck, dl, e, obs, now) r. fst (snd (processEvent en ck dl r e obs now))) inps rn) e obs now of
        (v, rn', e', fx) \<Rightarrow> [(v, e', fx)])"
  by (induction inps arbitrary: rn) (auto split: prod.splits)

lemma traced_Nil [simp]: "traced en rn [] rn' \<longleftrightarrow> same_but_tracker rn rn'"
  by (simp add: traced_def)

lemma traced_tracker: "traced en rn ios rn' \<Longrightarrow> same_but_tracker rn' rn'' \<Longrightarrow> traced en rn ios rn''"
  unfolding traced_def using same_but_tracker_trans by blast

lemma traced_dispatch:
  assumes "traced en rn ios rn'" "dispatchEvent en d rn' e obs = (io, rn'')"
  shows "traced en rn (ios @ [io]) rn''"
proof -
  obtain ck dl now where d: "d = (ck, dl, now)" by (metis prod_cases3)
  let ?r = "fold (\<lambda>(ck, dl, e, obs, now) r. fst (snd (processEvent en ck dl r e obs now))) (map fst ios) rn"
  obtain t where t: "rn' = ?r\<lparr>rn_privesc := t\<rparr>" using assms(1) by (auto simp: traced_def same_but_tracker_def)
  obtain v r1 e' fx where p: "processEvent en ck dl ?r e obs now = (v, r1, e', fx)" by (metis prod_cases4)
  have "io = ((ck, dl, e, obs, now), (v, e', fx))" "rn'' = r1\<lparr>rn_privesc := t\<rparr>"
    using assms(2) by (auto simp: dispatchEvent_def d t processEvent_privesc p)
  then show ?thesis
    using assms(1) p by (simp add: traced_def process_all_snoc same_but_tracker_def) blast
qed

text \<open>A route may change the tracker and its own counter, nothing else.\<close>

definition route_ok :: "route \<Rightarrow> bool" where
  "route_ok r \<longleftrightarrow> (\<forall>st. same_but_tracker (fst st) (fst (snd (r st))))"

lemma route_ok_pure [simp]: "route_ok (pure_route f)"
  by (simp add: route_ok_def pure_route_def)

lemma route_ok_openat [simp]: "route_ok (openat_route en c ev)"
  by (simp add: route_ok_def openat_route_def split_beta Let_def)

lemma route_ok_sudden [simp]: "route_ok (sudden_route en ord c ev)"
  by (simp add: route_ok_def sudden_route_def split_beta Let_def)

lemma live_routes_ok: "list_all route_ok (live_routes en ord ct cfg obs ev)"
  by (simp add: live_routes_def Let_def)

lemma run_routes_traced:
  assumes "traced en rn ios (fst st)" "list_all route_ok rs" "run_routes en ds i obs rs st = (new, st')"
  shows "traced en rn (ios @ new) (fst st')"
  using assms
proof (induction rs arbitrary: ios i st new st')
  case (Cons r rs)
  obtain oe rn1 m where r: "r st = (oe, rn1, m)" by (metis prod_cases3)
  have "route_ok r" using Cons.prems(2) by simp
  then have "same_but_tracker (fst st) rn1" using r unfolding route_ok_def by (metis fst_conv snd_conv)
  with Cons.prems(1) have t: "traced en rn ios rn1" by (rule traced_tracker)
  show ?case
  proof (cases oe)
    case None
    then show ?thesis using Cons.IH [of ios "(rn1, m)"] t Cons.prems r by simp
  next
    case (Some e)
    obtain io rn2 where d: "dispatchEvent en (ds i) rn1 e obs = (io, rn2)" by (metis surj_pair)
    obtain new2 st2 where n: "run_routes en ds (Suc i) obs rs (rn2, m) = (new2, st2)" by (metis surj_pair)
    have "traced en rn ((ios @ [io]) @ new2) (fst st2)"
      using Cons.IH [OF _ _ n, of "ios @ [io]"] traced_dispatch [OF t d] Cons.prems(2) by simp
    then show ?thesis using Cons.prems(3) r Some d n by simp
  qed
qed simp

lemma consume_one_traced:
  assumes "traced en rn ios (fst st)" "consume_one en io ev (deb, st) = (new, deb', st')"
  shows "traced en rn (ios @ new) (fst st')"
  using assms run_routes_traced [OF assms(1) live_routes_ok]
  by (auto simp: consume_one_def Let_def split: if_splits prod.splits)

lemma consume_all_traced:
  assumes "traced en rn ios (fst st)" "consume_all en recs (deb, st) = (new, deb', st')"
  shows "traced en rn (ios @ new) (fst st')"
  using assms
proof (induction recs arbitrary: ios deb st new)
  case (Cons x recs)
  obtain io ev where x: "x = (io, ev)" by (cases x)
  obtain n1 d1 s1 where c: "consume_one en io ev (deb, st) = (n1, d1, s1)" by (metis prod_cases3)
  obtain n2 d2 s2 where a: "consume_all en recs (d1, s1) = (n2, d2, s2)" by (metis prod_cases3)
  have e: "new = n1 @ n2" "d2 = deb'" "s2 = st'" using Cons.prems(2) by (simp_all add: x c a)
  show ?case using Cons.IH [OF consume_one_traced [OF Cons.prems(1) c] a [unfolded e]] by (simp add: e(1))
qed simp

section \<open>What the live path dispatches\<close>

definition live_catalog :: "string list" where
  "live_catalog = RuleSuddenRoot # RuleAFAlgAEAD # RuleIMDSAccess # RuleCredMassAccess # RuleDocrootExecWrite #
     RuleUploadDirExec # live_rules @ escape_rules @ defense_rules @ credential_rules"

text \<open>A live finding: a rule of the catalogue, signals, and a confidence up to 100.\<close>

definition live_finding :: "Pack \<Rightarrow> Event \<Rightarrow> bool" where
  "live_finding pack e \<longleftrightarrow> ev_RuleID e \<in> set live_catalog \<and> ev_Signals e \<noteq> [] \<and> ev_RulePackVersion e = pack_Version pack \<and>
     (capped_pack pack \<longrightarrow> ev_Confidence e \<le> 100)"

lemma finding_ok_live: "finding_ok h pack v rules e \<Longrightarrow> set rules \<subseteq> set live_catalog \<Longrightarrow> live_finding pack e"
  by (auto simp: finding_ok_def live_finding_def)

lemma catalog_parts:
  "set live_rules \<subseteq> set live_catalog" "set escape_rules \<subseteq> set live_catalog" "set defense_rules \<subseteq> set live_catalog"
  "set credential_rules \<subseteq> set live_catalog" "set [RuleAFAlgAEAD] \<subseteq> set live_catalog"
  "set [RuleDocrootExecWrite, RuleUploadDirExec] \<subseteq> set live_catalog"
  "set [RuleMemReadCross] \<subseteq> set live_catalog"
  by (auto simp: live_catalog_def credential_rules_def)

text \<open>What a route reports in a runner with configuration \<open>cfg\<close> and pack \<open>pack\<close>.\<close>

definition route_reports :: "Pack \<Rightarrow> route \<Rightarrow> bool" where
  "route_reports pack r \<longleftrightarrow> (\<forall>st e st'. rn_pack (fst st) = pack \<longrightarrow> r st = (Some e, st') \<longrightarrow> live_finding pack e)"

lemma route_reports_pure:
  assumes "\<And>rn e. rn_pack rn = pack \<Longrightarrow> f rn = Some e \<Longrightarrow> live_finding pack e"
  shows "route_reports pack (pure_route f)"
  using assms by (auto simp: route_reports_def pure_route_def)

lemma buildEvent_live: "buildEvent h cfg pack AgentVersion tr = Some e \<Longrightarrow> live_finding pack e"
proof -
  assume b: "buildEvent h cfg pack AgentVersion tr = Some e"
  have c: "sudden_root_confidence pack sigs \<le> 100" if "capped_pack pack" for sigs
    using Score_le_100 [OF that, of RuleSuddenRoot sigs] confidence_floor_range [of sigs]
    by (simp add: sudden_root_confidence_def Let_def split_beta)
  have "transition_signals cfg tr \<noteq> []" by (simp add: transition_signals_def Let_def)
  with b show ?thesis
    by (auto simp: buildEvent_def Let_def live_finding_def live_catalog_def NormalizeDedup_def zero_Event_def c split: if_splits)
qed

lemma route_reports_sudden: "route_reports pack (sudden_route en ord c ev)"
  by (auto simp: route_reports_def sudden_route_def RouteSensorEvent_def Let_def
      split: prod.splits if_splits option.splits intro: buildEvent_live)

lemma mass_event_live: "live_finding pack x \<Longrightarrow> live_finding pack (mass_event h x)"
  by (auto simp: live_finding_def mass_event_def NormalizeDedup_def live_catalog_def)

lemma access_event_live:
  "r \<in> set credential_rules \<Longrightarrow> sigs \<noteq> [] \<Longrightarrow> live_finding pack (access_event h now cfg pack v ev ai path r sigs)"
  by (rule finding_ok_live [OF access_event_ok(1) catalog_parts(4)])

lemma route_reports_openat: "route_reports pack (openat_route en c ev)"
proof -
  have "live_finding pack e" if "credential_RouteOpenat h fs clock cfg pack AgentVersion hits ev = (Some e, hits')"
    for h fs clock cfg hits e hits'
    using RouteOpenat_cases [OF that] by (auto simp: access_event_live mass_event_live split: if_splits)
  then show ?thesis by (auto simp: route_reports_def openat_route_def split: prod.splits)
qed

lemma imds_event_live: "live_finding (rn_pack rn) (imds_event en obs ev rn)"
  by (auto simp: live_finding_def imds_event_def live_catalog_def route_simps NormalizeDedup_def)

lemma routed_live:
  "containeresc_RouteFile h fs c cfg pack AgentVersion ev = Some e \<Longrightarrow> live_finding pack e"
  "containeresc_RouteExec h fs c cfg pack AgentVersion ev = Some e \<Longrightarrow> live_finding pack e"
  "defense_RouteExec h fs c cfg pack AgentVersion ev = Some e \<Longrightarrow> live_finding pack e"
  "copyfail_RouteSensorEvent h fs c cfg pack AgentVersion ev = Some e \<Longrightarrow> live_finding pack e"
  "web_RouteDocrootWrite h fs c cfg pack AgentVersion ev = Some e \<Longrightarrow> live_finding pack e"
  "credential_RoutePtraceMem h fs c cfg pack AgentVersion ev = Some e \<Longrightarrow> live_finding pack e"
  "sensorlive_RouteSensorEvent c cfg pack AgentVersion ev = Some e \<Longrightarrow> live_finding pack e"
  using containeresc.reported [of e h fs c cfg pack AgentVersion ev] defense_exec.reported [of e h fs c cfg pack AgentVersion ev]
    copyfail_live.reported [of e h fs c cfg pack AgentVersion ev] docroot.reported [of e h fs c cfg pack AgentVersion ev]
    ptrace_mem.reported [of e h fs c cfg pack AgentVersion ev] sensorlive.reported [of e c cfg pack AgentVersion ev h]
    catalog_parts
  by (auto simp: containeresc_routes_def intro: finding_ok_live)

lemma routes_report [simp]:
  "route_reports pack (pure_route (\<lambda>rn. containeresc_RouteFile h fs c (rn_cfg rn) (rn_pack rn) AgentVersion ev))"
  "route_reports pack (pure_route (\<lambda>rn. containeresc_RouteExec h fs c (rn_cfg rn) (rn_pack rn) AgentVersion ev))"
  "route_reports pack (pure_route (\<lambda>rn. defense_RouteExec h fs c (rn_cfg rn) (rn_pack rn) AgentVersion ev))"
  "route_reports pack (pure_route (\<lambda>rn. copyfail_RouteSensorEvent h fs c (rn_cfg rn) (rn_pack rn) AgentVersion ev))"
  "route_reports pack (pure_route (\<lambda>rn. web_RouteDocrootWrite h fs c (rn_cfg rn) (rn_pack rn) AgentVersion ev))"
  "route_reports pack (pure_route (\<lambda>rn. credential_RoutePtraceMem h fs c (rn_cfg rn) (rn_pack rn) AgentVersion ev))"
  "route_reports pack (pure_route (\<lambda>rn. sensorlive_RouteSensorEvent c (rn_cfg rn) (rn_pack rn) AgentVersion ev))"
  "route_reports pack (pure_route (\<lambda>rn. Some (imds_event en obs ev rn)))"
  by (rule route_reports_pure, use routed_live imds_event_live in fastforce)+

lemma live_routes_report: "list_all (route_reports pack) (live_routes en ord ct cfg obs ev)"
  by (simp add: live_routes_def Let_def route_reports_sudden route_reports_openat)

text \<open>A route leaves the pack alone, and so does the pipeline.\<close>

lemma dispatchEvent_pack: "dispatchEvent en d rn e obs = (io, rn') \<Longrightarrow> rn_pack rn' = rn_pack rn \<and> (\<exists>ck dl now out. io = ((ck, dl, e, obs, now), out))"
  by (auto simp: dispatchEvent_def processEvent_frame split: prod.splits)

definition dispatched :: "(input \<times> outcome) list \<Rightarrow> Event list" where
  "dispatched ios = map (\<lambda>((ck, dl, e, obs, now), out). e) ios"

lemma run_routes_reports:
  assumes "run_routes en ds i obs rs st = (ios, st')" "list_all route_ok rs" "list_all (route_reports pack) rs" "rn_pack (fst st) = pack"
  shows "list_all (live_finding pack) (dispatched ios) \<and> rn_pack (fst st') = pack"
  using assms
proof (induction rs arbitrary: i st ios st')
  case (Cons r rs)
  obtain oe rn1 m where r: "r st = (oe, rn1, m)" by (metis prod_cases3)
  have "route_ok r" using Cons.prems(2) by simp
  then have "same_but_tracker (fst st) rn1" using r unfolding route_ok_def by (metis fst_conv snd_conv)
  then have p: "rn_pack rn1 = pack" using Cons.prems(4) by (auto simp: same_but_tracker_def)
  show ?case
  proof (cases oe)
    case None
    then show ?thesis using Cons.IH [of "Suc i" "(rn1, m)" ios] Cons.prems p r by simp
  next
    case (Some e)
    obtain io rn2 where d: "dispatchEvent en (ds i) rn1 e obs = (io, rn2)" by (metis surj_pair)
    obtain new2 st2 where n: "run_routes en ds (Suc i) obs rs (rn2, m) = (new2, st2)" by (metis surj_pair)
    have "route_reports pack r" using Cons.prems(3) by simp
    then have "live_finding pack e" unfolding route_reports_def using Cons.prems(4) r Some by blast
    then show ?thesis
      using Cons.IH [OF n] dispatchEvent_pack [OF d] Cons.prems p r Some d n by (auto simp: dispatched_def)
  qed
qed (simp add: dispatched_def)

lemma consume_all_reports:
  assumes "consume_all en recs (deb, st) = (ios, deb', st')" "rn_pack (fst st) = pack"
  shows "list_all (live_finding pack) (dispatched ios)"
  using assms
proof (induction recs arbitrary: deb st ios)
  case (Cons x recs)
  obtain io ev where x: "x = (io, ev)" by (cases x)
  obtain n1 d1 s1 where c: "consume_one en io ev (deb, st) = (n1, d1, s1)" by (metis prod_cases3)
  obtain n2 d2 s2 where a: "consume_all en recs (d1, s1) = (n2, d2, s2)" by (metis prod_cases3)
  have "list_all (live_finding pack) (dispatched n1) \<and> rn_pack (fst s1) = pack"
    using c run_routes_reports [OF _ live_routes_ok live_routes_report Cons.prems(2)] Cons.prems(2)
    by (auto simp: consume_one_def Let_def dispatched_def split: if_splits prod.splits)
  then show ?case using Cons.IH [of d1 s1 n2] Cons.prems(1) a by (auto simp: x c dispatched_def)
qed (simp add: dispatched_def)

end
