(* ===== verification/GC_Process.thy ===== *)
theory GC_Process
  imports GC_Host "HOL-Library.Char_ord" "HOL-Library.List_Lexorder"
begin

text \<open>
  The detectors that walk the process table in a scan: unusual ancestry (\<^verbatim>\<open>detect/ancestry\<close>), preloaded
  libraries (\<^verbatim>\<open>detect/ldpreload\<close>) and memory maps (\<^verbatim>\<open>detect/memorymaps\<close> with \<^verbatim>\<open>procfs/maps.go\<close>). Where
  the program ranges over a Go map, whose order is not fixed, the model uses the order of insertion.
\<close>

section \<open>Ancestry\<close>

definition RuleRareAncestry :: string where "RuleRareAncestry = ''PROC_RARE_ANCESTRY''"

definition juicyParents :: "string list" where
  "juicyParents = [''nginx'', ''apache2'', ''httpd'', ''php-fpm'', ''php'', ''tomcat'', ''java'', ''node'', ''mysqld'', ''postgres'',
     ''sshd'', ''cron'', ''crond'', ''systemd'', ''containerd'', ''dockerd'', ''runc'']"

definition suspiciousChildren :: "string list" where
  "suspiciousChildren = [''sh'', ''bash'', ''dash'', ''zsh'', ''ksh'', ''nc'', ''ncat'', ''socat'', ''curl'', ''wget'',
     ''python'', ''python3'', ''perl'', ''ruby'', ''nmap'', ''whoami'', ''id'', ''base64'', ''xxd'', ''awk'', ''sed'']"

definition pair_key :: "string \<Rightarrow> string \<Rightarrow> string" where
  "pair_key pcomm comm = pcomm @ [CHR 0x00] @ comm"

text \<open>The names of a process and its parent, with the number of the parent.\<close>

definition lineage :: "procfs \<Rightarrow> int \<Rightarrow> (string \<times> int \<times> string) option" where
  "lineage fs pid =
     (case Comm fs pid of
        None \<Rightarrow> None
      | Some comm \<Rightarrow>
          (case PPid fs pid of
             None \<Rightarrow> None
           | Some ppid \<Rightarrow>
               if ppid \<le> 0 then None
               else (case Comm fs ppid of None \<Rightarrow> None | Some pcomm \<Rightarrow> Some (comm, ppid, pcomm))))"

definition ancestry_event :: "procfs \<Rightarrow> time \<Rightarrow> Config \<Rightarrow> Pack \<Rightarrow> string \<Rightarrow> int \<Rightarrow> string \<times> int \<times> string \<Rightarrow> Event" where
  "ancestry_event fs now cfg pack agentVer pid l =
     (case l of (comm, ppid, pcomm) \<Rightarrow>
        (let signals = [''rare_ancestry'', ''juicy_parent:'' @ pcomm, ''suspicious_child:'' @ comm];
             score = fst (Score pack RuleRareAncestry signals);
             conf = (if score = 0 then 70 else score);
             argv = (case Cmdline fs pid of None \<Rightarrow> [] | Some a \<Rightarrow> a)
         in zero_Event\<lparr>
              ev_SchemaVersion := SchemaVersion, ev_AgentVersion := agentVer, ev_Timestamp := now,
              ev_RuleID := RuleRareAncestry, ev_RulePackVersion := pack_Version pack,
              ev_TechniqueIDs := [''T1059''], ev_Tactic := ''execution'', ev_Confidence := conf,
              ev_Severity := SeverityFromConfidence conf (cfg_LearningMode cfg),
              ev_Entity := \<lparr>ent_Type = EntityProcess, ent_ID = Itoa pid, ent_Path = Join argv '' '', ent_User = []\<rparr>,
              ev_Signals := signals,
              ev_Evidence := comm @ ''(pid='' @ Itoa pid @ '') -> '' @ pcomm @ ''(ppid='' @ Itoa ppid @ '') unseen in baseline'',
              ev_LearningOnly := cfg_LearningMode cfg\<rparr>))"

definition rare_lineage :: "procfs \<Rightarrow> Snapshot \<Rightarrow> int \<Rightarrow> (string \<times> int \<times> string) option" where
  "rare_lineage fs s pid =
     (case Comm fs pid of
        None \<Rightarrow> None
      | Some comm \<Rightarrow>
          if comm = [] \<or> comm \<notin> set suspiciousChildren then None
          else
            (case lineage fs pid of
               None \<Rightarrow> None
             | Some (comm, ppid, pcomm) \<Rightarrow>
                 if pcomm = [] \<or> pcomm \<notin> set juicyParents \<or> pair_key pcomm comm \<in> set (sn_ProcessAncestry s) then None
                 else Some (comm, ppid, pcomm)))"

definition ancestry_Scan :: "procfs \<Rightarrow> time \<Rightarrow> Config \<Rightarrow> Pack \<Rightarrow> string \<Rightarrow> Snapshot \<Rightarrow> Event list" where
  "ancestry_Scan fs now cfg pack agentVer s =
     (case Processes fs of
        None \<Rightarrow> []
      | Some pids \<Rightarrow>
          List.map_filter (\<lambda>pid. map_option (ancestry_event fs now cfg pack agentVer pid) (rare_lineage fs s pid)) pids)"

definition BuildBaselineAncestry :: "procfs \<Rightarrow> string list option" where
  "BuildBaselineAncestry fs =
     map_option (\<lambda>pids. sort (remdups (List.map_filter (\<lambda>pid. map_option (\<lambda>(comm, ppid, pcomm). pair_key pcomm comm) (lineage fs pid)) pids)))
       (Processes fs)"

section \<open>Preloaded libraries\<close>

definition RuleLdSoPreload :: string where "RuleLdSoPreload = ''LD_SO_PRELOAD_FILE''"
definition RuleProcLDPreload :: string where "RuleProcLDPreload = ''PROC_LD_PRELOAD_ENV''"

definition isAllowlistedValue :: "string \<Rightarrow> string list \<Rightarrow> bool" where
  "isAllowlistedValue v allow \<longleftrightarrow> list_ex (\<lambda>a. a \<noteq> [] \<and> Contains v a) allow"

definition allLinesAllowlisted :: "string \<Rightarrow> string list \<Rightarrow> bool" where
  "allLinesAllowlisted content allow \<longleftrightarrow>
     list_all (\<lambda>l. let line = TrimSpace l in line = [] \<or> HasPrefix line ''#'' \<or> isAllowlistedValue line allow)
       (SplitByte content (CHR 0x0A))"

definition suspiciousPath :: "string \<Rightarrow> bool" where
  "suspiciousPath v \<longleftrightarrow>
     (let low = ToLower v in contains_any low [''/tmp/'', ''/dev/shm/'', ''/var/tmp/'', ''/.cache/''] \<or> HasPrefix low ''.'')"

definition preload_file_event :: "(string \<Rightarrow> string) \<Rightarrow> time \<Rightarrow> Pack \<Rightarrow> string \<Rightarrow> string \<Rightarrow> Event" where
  "preload_file_event h now pack agentVer content =
     (let sigs = [''ld_so_preload_non_empty'', ''not_in_allowlist'']; conf = floored 95 pack RuleLdSoPreload sigs
      in NormalizeDedup h (zero_Event\<lparr>
           ev_SchemaVersion := SchemaVersion, ev_AgentVersion := agentVer, ev_Timestamp := now,
           ev_RuleID := RuleLdSoPreload, ev_RulePackVersion := pack_Version pack,
           ev_TechniqueIDs := [''T1574.006'', ''T1014''], ev_Tactic := ''defense-evasion'', ev_Confidence := conf,
           ev_Severity := SeverityFromConfidence conf False,
           ev_Entity := \<lparr>ent_Type = EntityFile, ent_ID = ''/etc/ld.so.preload'', ent_Path = ''/etc/ld.so.preload'', ent_User = []\<rparr>,
           ev_Signals := sigs, ev_Evidence := truncate_to content 300, ev_LearningOnly := False\<rparr>))"

text \<open>The value a target process was started with, if it is set and not blank.\<close>

definition preload_value :: "procfs \<Rightarrow> Config \<Rightarrow> int \<Rightarrow> (string \<times> string) option" where
  "preload_value fs cfg pid =
     (case Comm fs pid of
        None \<Rightarrow> None
      | Some comm \<Rightarrow>
          if ToLower (TrimSpace comm) \<notin> set (map ToLower (cfg_TargetProcessNames cfg)) then None
          else
            (case Environ fs pid of
               None \<Rightarrow> None
             | Some env \<Rightarrow>
                 (case map_of env ''LD_PRELOAD'' of
                    None \<Rightarrow> None
                  | Some v \<Rightarrow> if TrimSpace v = [] then None else Some (comm, v))))"

definition preload_event :: "(string \<Rightarrow> string) \<Rightarrow> procfs \<Rightarrow> time \<Rightarrow> Config \<Rightarrow> Pack \<Rightarrow> string \<Rightarrow> Snapshot \<Rightarrow> int \<Rightarrow> Event option" where
  "preload_event h fs now cfg pack agentVer s pid =
     (case preload_value fs cfg pid of
        None \<Rightarrow> None
      | Some (comm, v) \<Rightarrow>
          if isAllowlistedValue v (cfg_LDPreloadAllowlist cfg) \<or> IsCommitted s \<and> v \<in> set (sn_LDPreload s) then None
          else
            (let sigs = [''ld_preload_in_process_env'', ''target_process:'' @ comm] @
                   (if suspiciousPath v then [''preload_path_suspicious''] else []) @
                   (if \<not> IsAbs v \<or> Contains v ''./'' then [''non_absolute_preload''] else []);
                 conf = fst (Score pack RuleProcLDPreload sigs); learning = learning_for cfg s
             in Some (NormalizeDedup h (zero_Event\<lparr>
                  ev_SchemaVersion := SchemaVersion, ev_AgentVersion := agentVer, ev_Timestamp := now,
                  ev_RuleID := RuleProcLDPreload, ev_RulePackVersion := pack_Version pack,
                  ev_TechniqueIDs := [''T1574.006'', ''T1014''], ev_Tactic := ''defense-evasion'', ev_Confidence := conf,
                  ev_Severity := SeverityFromConfidence conf learning,
                  ev_Entity := \<lparr>ent_Type = EntityProcess, ent_ID = Itoa pid, ent_Path = ResolveExe fs pid, ent_User = []\<rparr>,
                  ev_Signals := sigs, ev_Evidence := ''LD_PRELOAD='' @ truncate_to v 200,
                  ev_LearningOnly := learning \<or> conf < cfg_MinConfidenceAlert cfg\<rparr>))))"

definition ldpreload_Scan :: "(string \<Rightarrow> string) \<Rightarrow> procfs \<Rightarrow> time \<Rightarrow> Config \<Rightarrow> Pack \<Rightarrow> string \<Rightarrow> host \<Rightarrow> Snapshot \<Rightarrow> Event list" where
  "ldpreload_Scan h fs now cfg pack agentVer H s =
     (case hs_read H ''/etc/ld.so.preload'' of
        None \<Rightarrow> []
      | Some b \<Rightarrow>
          (let content = TrimSpace b
           in if content \<noteq> [] \<and> \<not> allLinesAllowlisted content (cfg_LDPreloadAllowlist cfg)
              then [preload_file_event h now pack agentVer content] else [])) @
     (case Processes fs of
        None \<Rightarrow> []
      | Some pids \<Rightarrow> List.map_filter (preload_event h fs now cfg pack agentVer s) pids)"

definition BuildBaselineLDPreload :: "procfs \<Rightarrow> Config \<Rightarrow> Snapshot \<Rightarrow> Snapshot option" where
  "BuildBaselineLDPreload fs cfg s =
     map_option (\<lambda>pids. s\<lparr>sn_LDPreload := remdups (map snd (List.map_filter (preload_value fs cfg) pids))\<rparr>) (Processes fs)"

section \<open>Memory maps\<close>

record MapEntry =
  me_Perms :: string
  me_Pathname :: string
  me_IsDeleted :: bool

definition parse_map :: "string \<Rightarrow> MapEntry option" where
  "parse_map line =
     (let fields = Fields line; path = Join (drop 5 fields) '' ''; del = HasSuffix path ''(deleted)''
      in if length fields < 5 then None
         else Some \<lparr>me_Perms = fields ! 1,
           me_Pathname = (if del then TrimSpace (TrimSuffix path ''(deleted)'') else path), me_IsDeleted = del\<rparr>)"

text \<open>The scanner takes lines of up to a mebibyte.\<close>

definition map_limit :: nat where "map_limit = 1024 * 1024"

definition ReadMaps :: "procfs \<Rightarrow> int \<Rightarrow> MapEntry list option" where
  "ReadMaps fs pid =
     (case pf_file fs pid ''maps'' of
        None \<Rightarrow> None
      | Some b \<Rightarrow>
          if list_ex (\<lambda>l. \<not> length l < map_limit) (raw_lines b) then None
          else Some (List.map_filter parse_map (map drop_cr (raw_lines b))))"

definition perm_at :: "nat \<Rightarrow> char \<Rightarrow> MapEntry \<Rightarrow> bool" where
  "perm_at i c e \<longleftrightarrow> 3 \<le> length (me_Perms e) \<and> me_Perms e ! i = c"

definition is_rwx :: "MapEntry \<Rightarrow> bool" where
  "is_rwx e \<longleftrightarrow> perm_at 0 (CHR ''r'') e \<and> perm_at 1 (CHR ''w'') e \<and> perm_at 2 (CHR ''x'') e \<and>
     \<not> Contains (me_Pathname e) ''[vdso]'' \<and> \<not> Contains (me_Pathname e) ''[vsyscall]''"

definition first_path :: "(MapEntry \<Rightarrow> bool) \<Rightarrow> MapEntry list \<Rightarrow> string option" where
  "first_path P entries = map_option me_Pathname (find P entries)"

definition HasRWXSegment :: "MapEntry list \<Rightarrow> string option" where
  "HasRWXSegment = first_path is_rwx"

definition WorldWritableSegmentPathHints :: "MapEntry list \<Rightarrow> string option" where
  "WorldWritableSegmentPathHints =
     first_path (\<lambda>e. list_ex (HasPrefix (me_Pathname e)) [''/tmp/'', ''/dev/shm/'', ''/var/tmp/'', ''/run/''])"

definition HasDeletedExecSegment :: "MapEntry list \<Rightarrow> string option" where
  "HasDeletedExecSegment = first_path (\<lambda>e. me_IsDeleted e \<and> me_Pathname e \<noteq> [] \<and> perm_at 2 (CHR ''x'') e)"

definition is_shared_object :: "MapEntry \<Rightarrow> bool" where
  "is_shared_object e \<longleftrightarrow> perm_at 2 (CHR ''x'') e \<and> me_Pathname e \<noteq> [] \<and> \<not> HasPrefix (me_Pathname e) ''['' \<and>
     (HasSuffix (me_Pathname e) ''.so'' \<or> Contains (me_Pathname e) ''.so.'')"

definition LoadedSharedObjects :: "MapEntry list \<Rightarrow> string list" where
  "LoadedSharedObjects entries = remdups (map me_Pathname (filter is_shared_object entries))"

definition RuleProcRWX :: string where "RuleProcRWX = ''PROC_RWX_MEMORY_SEGMENT''"
definition RuleProcDeletedExec :: string where "RuleProcDeletedExec = ''PROC_DELETED_EXEC_SEGMENT''"
definition RuleProcWorldWritable :: string where "RuleProcWorldWritable = ''PROC_WRITABLE_PATH_MAP''"
definition RuleProcTracer :: string where "RuleProcTracer = ''PROC_UNEXPECTED_TRACER''"
definition RuleProcSuspectLib :: string where "RuleProcSuspectLib = ''PROC_MAPPED_UNPACKAGED_LIB''"
definition RuleProcCapEscalation :: string where "RuleProcCapEscalation = ''PROC_CAP_ESCALATION''"
definition RuleProcMasquerade :: string where "RuleProcMasquerade = ''PROC_MASQUERADE_NAME''"

definition masqueradeName :: "string \<Rightarrow> string \<Rightarrow> bool" where
  "masqueradeName comm exe =
     (if comm = [] \<or> exe = [] then False
      else if HasPrefix comm ''['' \<and> HasSuffix comm '']'' \<and> \<not> Contains exe ''(deleted)'' then True
      else (let base = TrimSuffix (Base exe) '' (deleted)'' in \<not> EqualFold comm base \<and> \<not> HasPrefix base comm))"

definition capLooksEscalated :: "Status \<Rightarrow> bool" where
  "capLooksEscalated st \<longleftrightarrow> stt_EffUID st \<noteq> 0 \<and> 10 \<le> length (dropWhile (\<lambda>c. c = CHR ''0'') (ToLower (stt_CapEff st)))"

definition mappingDetail :: "string \<Rightarrow> string" where
  "mappingDetail path = (if path = [] then ''anonymous_rwx_mapping'' else ''mapping_path:'' @ truncate_to path 80)"

definition pathAllowlisted :: "string \<Rightarrow> string list \<Rightarrow> bool" where
  "pathAllowlisted path prefixes \<longleftrightarrow> path \<noteq> [] \<and> list_ex (\<lambda>p. p \<noteq> [] \<and> HasPrefix (ToLower path) (ToLower p)) prefixes"

definition emitMapEvent ::
  "(string \<Rightarrow> string) \<Rightarrow> procfs \<Rightarrow> time \<Rightarrow> Pack \<Rightarrow> string \<Rightarrow> string \<Rightarrow> int \<Rightarrow> string \<Rightarrow> string \<Rightarrow> string list \<Rightarrow> string list \<Rightarrow> bool \<Rightarrow> Event" where
  "emitMapEvent h fs now pack agentVer rule pid comm pathHint sigs tech learning =
     (let conf = floored 70 pack rule sigs
      in NormalizeDedup h (zero_Event\<lparr>
           ev_SchemaVersion := SchemaVersion, ev_AgentVersion := agentVer, ev_Timestamp := now,
           ev_RuleID := rule, ev_RulePackVersion := pack_Version pack, ev_TechniqueIDs := tech,
           ev_Tactic := ''defense-evasion'', ev_Confidence := conf, ev_Severity := SeverityFromConfidence conf learning,
           ev_Entity := \<lparr>ent_Type = EntityProcess, ent_ID = Itoa pid, ent_Path = ResolveExe fs pid, ent_User = []\<rparr>,
           ev_Signals := sigs,
           ev_Evidence := ''pid='' @ Itoa pid @ '' comm='' @ comm @ '' map='' @ truncate_to pathHint 120,
           ev_LearningOnly := learning\<rparr>))"

text \<open>One indicator: its rule, the path it names, its signals and techniques, and whether it is only learning.\<close>

type_synonym indicator = "string \<times> string \<times> string list \<times> string list \<times> bool"

definition map_indicators :: "Config \<Rightarrow> Snapshot \<Rightarrow> string \<Rightarrow> MapEntry list \<Rightarrow> indicator list" where
  "map_indicators cfg s comm entries =
     (case HasRWXSegment entries of
        None \<Rightarrow> []
      | Some p \<Rightarrow> if pathAllowlisted p (cfg_MapsPathAllowlist cfg) then []
                  else [(RuleProcRWX, p, [''rwx_memory_mapping'', ''comm:'' @ comm, mappingDetail p], [''T1055''], False)]) @
     (case HasDeletedExecSegment entries of
        None \<Rightarrow> []
      | Some p \<Rightarrow> [(RuleProcDeletedExec, p, [''deleted_backed_exec_segment'', ''comm:'' @ comm, ''mapping_path:'' @ truncate_to p 80],
                    [''T1055'', ''T1620''], False)]) @
     (case WorldWritableSegmentPathHints entries of
        None \<Rightarrow> []
      | Some p \<Rightarrow> [(RuleProcWorldWritable, p, [''world_writable_mapping'', ''comm:'' @ comm, ''mapping_path:'' @ truncate_to p 80],
                    [''T1055''], learning_for cfg s)]) @
     (case Option.bind (sn_LoadedLibraries s) (\<lambda>m. map_of m comm) of
        None \<Rightarrow> []
      | Some allowed \<Rightarrow>
          map (\<lambda>lib. (RuleProcSuspectLib, lib, [''unknown_shared_object'', ''comm:'' @ comm, ''lib:'' @ truncate_to lib 120],
                 [''T1574.006''], learning_for cfg s))
            (filter (\<lambda>lib. lib \<notin> set allowed) (LoadedSharedObjects entries)))"

definition status_indicators :: "procfs \<Rightarrow> Config \<Rightarrow> Snapshot \<Rightarrow> int \<Rightarrow> string \<Rightarrow> indicator list" where
  "status_indicators fs cfg s pid comm =
     (case ReadStatus fs pid of
        None \<Rightarrow> []
      | Some st \<Rightarrow>
          (let exe = ResolveExe fs pid
           in (if stt_TracerPid st \<noteq> 0
               then [(RuleProcTracer, [], [''ptrace_attached'', ''tracer_pid:'' @ Itoa (stt_TracerPid st), ''comm:'' @ comm],
                      [''T1055.001''], False)] else []) @
              (if capLooksEscalated st
               then [(RuleProcCapEscalation, [], [''effective_caps_all_bits'', ''comm:'' @ comm, ''cap_eff:'' @ stt_CapEff st],
                      [''T1548'', ''T1055''], learning_for cfg s)] else []) @
              (if masqueradeName comm exe
               then [(RuleProcMasquerade, exe, [''proc_masquerade_name'', ''comm:'' @ comm, ''exe:'' @ exe], [''T1036.005''], False)]
               else [])))"

text \<open>A watched process whose maps can be read.\<close>

definition watched_maps :: "procfs \<Rightarrow> Config \<Rightarrow> int \<Rightarrow> (string \<times> MapEntry list) option" where
  "watched_maps fs cfg pid =
     (case Comm fs pid of
        None \<Rightarrow> None
      | Some comm \<Rightarrow>
          if ToLower (TrimSpace comm) \<notin> set (map (ToLower \<circ> TrimSpace) (cfg_MapsWatchProcesses cfg)) then None
          else map_option (Pair comm) (ReadMaps fs pid))"

definition maps_of_process :: "(string \<Rightarrow> string) \<Rightarrow> procfs \<Rightarrow> time \<Rightarrow> Config \<Rightarrow> Pack \<Rightarrow> string \<Rightarrow> Snapshot \<Rightarrow> int \<Rightarrow> Event list" where
  "maps_of_process h fs now cfg pack agentVer s pid =
     (case watched_maps fs cfg pid of
        None \<Rightarrow> []
      | Some (comm, entries) \<Rightarrow>
          map (\<lambda>(rule, p, sigs, tech, learning). emitMapEvent h fs now pack agentVer rule pid comm p sigs tech learning)
            (map_indicators cfg s comm entries @ status_indicators fs cfg s pid comm))"

text \<open>\<open>None\<close> is the error of the process listing.\<close>

definition memorymaps_Scan :: "(string \<Rightarrow> string) \<Rightarrow> procfs \<Rightarrow> time \<Rightarrow> Config \<Rightarrow> Pack \<Rightarrow> string \<Rightarrow> Snapshot \<Rightarrow> Event list option" where
  "memorymaps_Scan h fs now cfg pack agentVer s =
     (if \<not> cfg_MapsScanEnabled cfg then Some []
      else map_option (\<lambda>pids. concat (map (maps_of_process h fs now cfg pack agentVer s) pids)) (Processes fs))"

definition learn_libraries :: "string \<times> MapEntry list \<Rightarrow> (string, string list) gomap \<Rightarrow> (string, string list) gomap" where
  "learn_libraries p m = gput (fst p) (remdups (gget [] m (fst p) @ LoadedSharedObjects (snd p))) m"

definition BuildBaselineLibraries :: "procfs \<Rightarrow> Config \<Rightarrow> Snapshot \<Rightarrow> Snapshot" where
  "BuildBaselineLibraries fs cfg s =
     (let m0 = (case sn_LoadedLibraries s of None \<Rightarrow> [] | Some m \<Rightarrow> m)
      in case Processes fs of
           None \<Rightarrow> s\<lparr>sn_LoadedLibraries := Some m0\<rparr>
         | Some pids \<Rightarrow>
             s\<lparr>sn_LoadedLibraries := Some (fold learn_libraries (List.map_filter (watched_maps fs cfg) pids) m0)\<rparr>)"

section \<open>Contracts\<close>

lemma ancestry_event_ok: "finding_ok h pack v [RuleRareAncestry] (ancestry_event fs now cfg pack v pid l)"
  unfolding ancestry_event_def
  by (cases l) (auto simp: Let_def zero_Event_def Score_le_100 intro!: finding_okI)

interpretation ancestry: reporter h pack agentVer "\<lambda>s. ancestry_Scan fs now cfg pack agentVer s" "[RuleRareAncestry]"
  for h pack agentVer fs now cfg
  by unfold_locales (auto simp: ancestry_Scan_def map_filter_Some ancestry_event_ok split: option.splits)

definition preload_rules :: "string list" where "preload_rules = [RuleLdSoPreload, RuleProcLDPreload]"

lemma preload_file_event_ok: "finding_ok h pack v preload_rules (preload_file_event h now pack v c)"
  by (auto simp: preload_file_event_def Let_def zero_Event_def preload_rules_def floored_le intro!: finding_okI)

lemma preload_event_ok:
  assumes "preload_event h fs now cfg pack v s pid = Some e"
  shows "finding_ok h pack v preload_rules e"
proof -
  obtain comm val where p: "preload_value fs cfg pid = Some (comm, val)"
    "\<not> (isAllowlistedValue val (cfg_LDPreloadAllowlist cfg) \<or> IsCommitted s \<and> val \<in> set (sn_LDPreload s))"
    using assms unfolding preload_event_def by (cases "preload_value fs cfg pid") (auto split: if_splits)
  show ?thesis
    using assms unfolding preload_event_def p(1) option.case prod.case if_not_P [OF p(2)] Let_def option.inject
    by (elim ssubst [OF sym], intro finding_okI) (simp_all add: zero_Event_def preload_rules_def Score_le_100)
qed

interpretation ldpreload: reporter h pack agentVer "\<lambda>(H, s). ldpreload_Scan h fs now cfg pack agentVer H s" preload_rules
  for h pack agentVer fs now cfg
  by unfold_locales
    (auto simp: ldpreload_Scan_def map_filter_Some Let_def preload_file_event_ok dest: preload_event_ok split: option.splits if_splits)

definition map_rules :: "string list" where
  "map_rules = [RuleProcRWX, RuleProcDeletedExec, RuleProcWorldWritable, RuleProcTracer, RuleProcSuspectLib, RuleProcCapEscalation,
     RuleProcMasquerade]"

lemma indicators_known:
  assumes "i \<in> set (map_indicators cfg s comm entries @ status_indicators fs cfg s pid comm)"
  shows "fst i \<in> set map_rules \<and> fst (snd (snd i)) \<noteq> []"
  using assms
  by (auto simp: map_indicators_def status_indicators_def map_rules_def Let_def split: option.splits if_splits)

lemma emitMapEvent_ok:
  assumes "r \<in> set map_rules" "sigs \<noteq> []"
  shows "finding_ok h pack v map_rules (emitMapEvent h fs now pack v r pid comm p sigs tech l)"
    and "70 \<le> ev_Confidence (emitMapEvent h fs now pack v r pid comm p sigs tech l)"
  unfolding emitMapEvent_def Let_def
  by (rule finding_okI; use assms in \<open>simp add: zero_Event_def floored_le\<close>) (simp add: NormalizeDedup_def floored_ge)

lemma memorymaps_emitted:
  assumes "memorymaps_Scan h fs now cfg pack v s = Some es" "e \<in> set es"
  shows "\<exists>r pid comm p sigs tech l. r \<in> set map_rules \<and> sigs \<noteq> [] \<and> e = emitMapEvent h fs now pack v r pid comm p sigs tech l"
proof -
  obtain pid where "e \<in> set (maps_of_process h fs now cfg pack v s pid)"
    using assms by (auto simp: memorymaps_Scan_def split: if_splits)
  then obtain comm entries where w: "watched_maps fs cfg pid = Some (comm, entries)"
    and "e \<in> set (map (\<lambda>(r, p, sigs, tech, l). emitMapEvent h fs now pack v r pid comm p sigs tech l)
      (map_indicators cfg s comm entries @ status_indicators fs cfg s pid comm))"
    unfolding maps_of_process_def by (cases "watched_maps fs cfg pid") (simp, metis (no_types, lifting) option.simps(5) case_prod_conv surj_pair)
  then obtain i where "e = (case i of (r, p, sigs, tech, l) \<Rightarrow> emitMapEvent h fs now pack v r pid comm p sigs tech l)"
    "i \<in> set (map_indicators cfg s comm entries @ status_indicators fs cfg s pid comm)"
    unfolding set_map by (elim imageE)
  then show ?thesis using indicators_known [of i] by (cases i) fastforce
qed

interpretation memorymaps: detector h pack agentVer
    "\<lambda>s. case memorymaps_Scan h fs now cfg pack agentVer s of None \<Rightarrow> [] | Some es \<Rightarrow> es" map_rules 70
  for h pack agentVer fs now cfg
  by unfold_locales (auto split: option.splits dest!: memorymaps_emitted [OF sym] simp: emitMapEvent_ok)

section \<open>Correctness\<close>

lemma rare_lineage_iff:
  "rare_lineage fs s pid = Some (c, pp, pc) \<longleftrightarrow>
     lineage fs pid = Some (c, pp, pc) \<and> c \<in> set suspiciousChildren \<and> pc \<in> set juicyParents \<and>
     pair_key pc c \<notin> set (sn_ProcessAncestry s)"
proof -
  have "[] \<notin> set suspiciousChildren" "[] \<notin> set juicyParents" by (simp_all add: suspiciousChildren_def juicyParents_def)
  then show ?thesis by (auto simp: rare_lineage_def lineage_def split: option.splits if_splits)
qed

text \<open>
  Rare ancestry is recognised exactly: a scan reports a process exactly when it is a suspicious
  child of an audited parent and the pair of their names is not in the baseline.
\<close>

theorem ancestry_exact:
  "e \<in> set (ancestry_Scan fs now cfg pack agentVer s) \<longleftrightarrow>
     (\<exists>pids pid comm ppid pcomm. Processes fs = Some pids \<and> pid \<in> set pids \<and> lineage fs pid = Some (comm, ppid, pcomm) \<and>
        comm \<in> set suspiciousChildren \<and> pcomm \<in> set juicyParents \<and> pair_key pcomm comm \<notin> set (sn_ProcessAncestry s) \<and>
        e = ancestry_event fs now cfg pack agentVer pid (comm, ppid, pcomm))"
  by (cases "Processes fs") (simp_all add: ancestry_Scan_def map_filter_Some rare_lineage_iff, blast)

text \<open>What the commit records of the processes, and that it covers them.\<close>

lemma BuildBaselineAncestry_set:
  assumes "BuildBaselineAncestry fs = Some pairs" "Processes fs = Some pids" "pid \<in> set pids" "lineage fs pid = Some (c, pp, pc)"
  shows "pair_key pc c \<in> set pairs"
  using assms by (auto simp: BuildBaselineAncestry_def map_filter_Some intro!: bexI [of _ pid])

lemma BuildBaselineLDPreload_set:
  assumes "BuildBaselineLDPreload fs cfg s = Some s'" "Processes fs = Some pids" "pid \<in> set pids" "preload_value fs cfg pid = Some (c, v)"
  shows "v \<in> set (sn_LDPreload s')"
  using assms by (force simp: BuildBaselineLDPreload_def map_filter_Some)

lemma learn_libraries_get:
  "l \<in> set (gget [] (learn_libraries p m) c) \<longleftrightarrow> l \<in> set (gget [] m c) \<or> c = fst p \<and> l \<in> set (LoadedSharedObjects (snd p))"
  by (auto simp: learn_libraries_def)

lemma fold_libraries_mono: "l \<in> set (gget [] m c) \<Longrightarrow> l \<in> set (gget [] (fold learn_libraries ps m) c)"
  by (induction ps arbitrary: m) (simp_all add: learn_libraries_get)

lemma fold_libraries:
  "(c, es) \<in> set ps \<Longrightarrow> l \<in> set (LoadedSharedObjects es) \<Longrightarrow> l \<in> set (gget [] (fold learn_libraries ps m) c)"
proof (induction ps arbitrary: m)
  case (Cons p ps)
  then show ?case by (cases "p = (c, es)") (simp_all add: fold_libraries_mono learn_libraries_get)
qed simp

lemma libraries_learned:
  assumes "Processes fs = Some pids" "pid \<in> set pids" "watched_maps fs cfg pid = Some (comm, es)"
    and "sn_LoadedLibraries s = sn_LoadedLibraries (BuildBaselineLibraries fs cfg s0)"
    and "Option.bind (sn_LoadedLibraries s) (\<lambda>m. map_of m comm) = Some allowed" "l \<in> set (LoadedSharedObjects es)"
  shows "l \<in> set allowed"
proof -
  have "(comm, es) \<in> set (List.map_filter (watched_maps fs cfg) pids)" using assms(2,3) by (auto simp: map_filter_Some)
  from fold_libraries [OF this assms(6), of "case sn_LoadedLibraries s0 of None \<Rightarrow> [] | Some m \<Rightarrow> m"] show ?thesis
    using assms(1,4,5) by (simp add: BuildBaselineLibraries_def Let_def gget_def)
qed

lemma no_suspect_library:
  assumes "\<And>allowed l. Option.bind (sn_LoadedLibraries s) (\<lambda>m. map_of m comm) = Some allowed \<Longrightarrow> l \<in> set (LoadedSharedObjects es) \<Longrightarrow> l \<in> set allowed"
    and "i \<in> set (map_indicators cfg s comm es @ status_indicators fs cfg s pid comm)"
  shows "fst i \<noteq> RuleProcSuspectLib"
  using assms
  by (auto simp: map_indicators_def status_indicators_def Let_def RuleProcSuspectLib_def RuleProcRWX_def RuleProcDeletedExec_def
      RuleProcWorldWritable_def RuleProcTracer_def RuleProcCapEscalation_def RuleProcMasquerade_def split: option.splits if_splits)

lemma maps_of_process_rules:
  assumes "e \<in> set (maps_of_process h fs now cfg pack v s pid)"
  shows "\<exists>comm es i. watched_maps fs cfg pid = Some (comm, es) \<and>
    i \<in> set (map_indicators cfg s comm es @ status_indicators fs cfg s pid comm) \<and> ev_RuleID e = fst i"
proof -
  obtain comm es where w: "watched_maps fs cfg pid = Some (comm, es)"
    using assms by (cases "watched_maps fs cfg pid") (auto simp: maps_of_process_def)
  obtain i where i: "i \<in> set (map_indicators cfg s comm es @ status_indicators fs cfg s pid comm)"
    "e = (case i of (r, p, sigs, tech, l) \<Rightarrow> emitMapEvent h fs now pack v r pid comm p sigs tech l)"
    using assms unfolding maps_of_process_def w option.case prod.case set_map by (elim imageE)
  have "ev_RuleID e = fst i" unfolding i(2) by (simp add: emitMapEvent_def Let_def zero_Event_def split: prod.split)
  then show ?thesis using w i(1) by blast
qed

text \<open>
  Committing silences the process detectors: right after the baselines of ancestry, preloaded
  libraries and mapped libraries were recorded, with the same processes running, no ancestry, no
  process with a preload value and no mapped library is reported.
\<close>

theorem process_commit_quiet:
  assumes "BuildBaselineAncestry fs = Some pairs" "BuildBaselineLDPreload fs cfg s0 = Some s1" "t \<noteq> 0"
    and "s = (BuildBaselineLibraries fs cfg s1)\<lparr>sn_ProcessAncestry := pairs, sn_CommittedAt := t\<rparr>"
  shows "ancestry_Scan fs now cfg pack agentVer s = [] \<and>
    RuleProcLDPreload \<notin> set (map ev_RuleID (ldpreload_Scan h fs now cfg pack agentVer H s)) \<and>
    (\<forall>es. memorymaps_Scan h fs now cfg pack agentVer s = Some es \<longrightarrow> RuleProcSuspectLib \<notin> set (map ev_RuleID es))"
proof -
  obtain pids where pids: "Processes fs = Some pids" using assms(1) by (auto simp: BuildBaselineAncestry_def)
  have s: "sn_ProcessAncestry s = pairs" "IsCommitted s" "sn_LDPreload s = sn_LDPreload s1"
    "sn_LoadedLibraries s = sn_LoadedLibraries (BuildBaselineLibraries fs cfg s1)"
    using assms(3) by (auto simp: assms(4) IsCommitted_def BuildBaselineLibraries_def Let_def split: option.split)
  have "rare_lineage fs s pid = None" if "pid \<in> set pids" for pid
  proof (cases "rare_lineage fs s pid")
    case (Some l)
    then show ?thesis
      using BuildBaselineAncestry_set [OF assms(1) pids that] rare_lineage_iff by (cases l) (force simp: s(1))
  qed
  then have "ancestry_Scan fs now cfg pack agentVer s = []" by (simp add: ancestry_Scan_def pids map_filter_def)
  moreover have "preload_event h fs now cfg pack agentVer s pid = None" if "pid \<in> set pids" for pid
    using BuildBaselineLDPreload_set [OF assms(2) pids that] by (auto simp: preload_event_def s split: option.split)
  then have "RuleProcLDPreload \<notin> set (map ev_RuleID (ldpreload_Scan h fs now cfg pack agentVer H s))"
    by (auto simp: ldpreload_Scan_def pids map_filter_Some preload_file_event_def zero_Event_def Let_def RuleLdSoPreload_def
        RuleProcLDPreload_def split: option.splits if_splits)
  moreover have "RuleProcSuspectLib \<noteq> ev_RuleID e"
    if p: "pid \<in> set pids" and e: "e \<in> set (maps_of_process h fs now cfg pack agentVer s pid)" for pid e
  proof -
    obtain comm es i where w: "watched_maps fs cfg pid = Some (comm, es)"
      "i \<in> set (map_indicators cfg s comm es @ status_indicators fs cfg s pid comm)" "ev_RuleID e = fst i"
      using maps_of_process_rules [OF e] by blast
    have "fst i \<noteq> RuleProcSuspectLib"
      by (rule no_suspect_library [OF libraries_learned [OF pids p w(1) s(4)] w(2)])
    then show ?thesis using w(3) by simp
  qed
  ultimately show ?thesis by (auto simp: memorymaps_Scan_def pids split: if_splits)
qed

text \<open>A process table with one shell below a web server.\<close>

definition sample_procs :: procfs where
  "sample_procs =
     \<lparr>pf_file = (\<lambda>pid f. if f = ''comm'' then Some (if pid = 7 then ''nginx'' else ''sh'')
        else if f = ''status'' then Some (if pid = 7 then ''PPid: 1'' else ''PPid: 7'') else None),
      pf_exe = (\<lambda>p. None), pf_root = Some [(''7'', True), (''9'', True)], pf_children = (\<lambda>p. [])\<rparr>"

lemma sample_procs_pids: "Processes sample_procs = Some [7, 9]"
  by code_simp

definition sample_committed :: Snapshot where
  "sample_committed =
     (BuildBaselineLibraries sample_procs Default (the (BuildBaselineLDPreload sample_procs Default EmptySnapshot)))
       \<lparr>sn_ProcessAncestry := the (BuildBaselineAncestry sample_procs), sn_CommittedAt := 5\<rparr>"

theorem process_commit_quiet_witness:
  "ancestry_Scan sample_procs 9 Default \<lparr>pack_Version = [], pack_Rules = []\<rparr> ''1'' sample_committed = []"
proof (rule process_commit_quiet [THEN conjunct1])
  show "BuildBaselineAncestry sample_procs = Some (the (BuildBaselineAncestry sample_procs))"
    by (simp add: BuildBaselineAncestry_def sample_procs_pids)
  show "BuildBaselineLDPreload sample_procs Default EmptySnapshot =
      Some (the (BuildBaselineLDPreload sample_procs Default EmptySnapshot))"
    by (simp add: BuildBaselineLDPreload_def sample_procs_pids)
qed (simp_all add: sample_committed_def)

text \<open>The shell of the sample is a rare child for a host without that baseline.\<close>

lemma sample_rare: "rare_lineage sample_procs EmptySnapshot 9 = Some (''sh'', 7, ''nginx'')"
proof -
  have "scan_lines ''PPid: 7'' = [''PPid: 7'']" by (simp add: scan_lines_def raw_lines_def drop_cr_def line_limit_def)
  moreover have "Fields ''PPid: 7'' = [''PPid:'', ''7'']" by (simp add: Fields.simps is_space_def)
  ultimately have "PPid sample_procs 9 = Some 7"
    by (simp add: PPid_def sample_procs_def Atoi_def is_digit_def digit_val_def max_int64_def min_int64_def)
  then show ?thesis
    by (simp add: rare_lineage_iff lineage_def suspiciousChildren_def juicyParents_def EmptySnapshot_def)
      (simp add: Comm_def sample_procs_def TrimSpace_def is_space_def)
qed

section \<open>Deviations\<close>

text \<open>
  Only the first writable and executable mapping is compared with the allowlist: an allowlisted one
  hides all that follow.
\<close>

definition sample_map :: "string \<Rightarrow> MapEntry" where
  "sample_map p = \<lparr>me_Perms = ''rwxp'', me_Pathname = p, me_IsDeleted = False\<rparr>"

lemma allowlisted_mapping_hides:
  "HasRWXSegment [sample_map ''/usr/lib/jvm/x.so'', sample_map []] = Some ''/usr/lib/jvm/x.so'' \<and>
   pathAllowlisted ''/usr/lib/jvm/x.so'' [''/usr/lib/jvm/''] \<and> is_rwx (sample_map []) \<and> \<not> pathAllowlisted [] [''/usr/lib/jvm/'']"
  by code_simp

text \<open>One capability bit is enough for the check that is documented to look for all of them.\<close>

lemma single_capability_escalates: "capLooksEscalated (zero_Status\<lparr>stt_EffUID := 33, stt_CapEff := ''0000008000000000''\<rparr>)"
  by code_simp

text \<open>Without a recorded library set, which the commit command never writes, no library is reported.\<close>

lemma no_library_baseline:
  assumes "sn_LoadedLibraries s = Some []" "i \<in> set (map_indicators cfg s comm es @ status_indicators fs cfg s pid comm)"
  shows "fst i \<noteq> RuleProcSuspectLib"
  by (rule no_suspect_library [OF _ assms(2)]) (simp add: assms(1))

end
