(* ===== verification/GC_Persist.thy ===== *)
theory GC_Persist
  imports GC_Host
begin

text \<open>
  The file watchers of \<^verbatim>\<open>detect/persistence\<close>: systemd units, shell start-up files, PAM, sudoers, sshd,
  accounts, kernel modules and the loader configuration. Each compares its files with the baseline and
  is an instance of the contract \<open>watcher\<close>.
\<close>

section \<open>Systemd units\<close>

definition RuleSystemdPersistence :: string where "RuleSystemdPersistence = ''SYSTEMD_PERSISTENCE''"

definition systemdUnitDirs :: "string list" where
  "systemdUnitDirs = [''/etc/systemd/system'', ''/etc/systemd/system/multi-user.target.wants'',
     ''/etc/systemd/system/default.target.wants'', ''/lib/systemd/system'', ''/usr/lib/systemd/system'',
     ''/run/systemd/system'', ''/run/systemd/generator'', ''/run/systemd/generator.late'']"

definition unit_exts :: "string list" where
  "unit_exts = [''.service'', ''.timer'', ''.socket'', ''.path'']"

definition highRiskSystemdDirectives :: "string list" where
  "highRiskSystemdDirectives = [''ExecStart='', ''ExecStartPre='', ''ExecStartPost='', ''ExecReload='', ''ExecStop='', ''ExecStopPost='']"

definition unit_payloads :: "string list" where
  "unit_payloads = [''curl '', ''wget '', ''bash -c'', ''/tmp/'', ''/dev/shm/'', ''base64 -d'', ''/dev/tcp/'']"

definition containsSuspiciousPayload :: "string list \<Rightarrow> bool" where
  "containsSuspiciousPayload sigs \<longleftrightarrow>
     list_ex (\<lambda>s. s = ''exec_directive_suspicious_payload'' \<or> s = ''root_execution_from_world_writable'') sigs"

definition firstMatchingLine :: "string \<Rightarrow> string list \<Rightarrow> string" where
  "firstMatchingLine content needles =
     (case find (\<lambda>l. contains_any l needles) (SplitByte content (CHR 0x0A)) of None \<Rightarrow> [] | Some l \<Rightarrow> TrimSpace l)"

definition unit_signals :: "string \<Rightarrow> string \<Rightarrow> bool \<Rightarrow> string list" where
  "unit_signals path content newOrChanged =
     (let low = ToLower content
      in (if newOrChanged then [''systemd_unit_new_or_changed''] else []) @
         (if contains_any content highRiskSystemdDirectives \<and> contains_any low unit_payloads
          then [''exec_directive_suspicious_payload''] else []) @
         (if Contains low ''user=root'' \<and> (Contains low ''/tmp/'' \<or> Contains low ''/dev/shm/'')
          then [''root_execution_from_world_writable''] else []) @
         (if Ext (ToLower path) = ''.timer'' \<and> newOrChanged then [''new_systemd_timer''] else []))"

definition evaluateSystemdUnit ::
  "(string \<Rightarrow> string) \<Rightarrow> time \<Rightarrow> Config \<Rightarrow> Pack \<Rightarrow> string \<Rightarrow> host \<Rightarrow> Snapshot \<Rightarrow> string \<Rightarrow> Event option" where
  "evaluateSystemdUnit h now cfg pack agentVer H s path =
     (case open_target h H path of
        None \<Rightarrow> None
      | Some (content, hash) \<Rightarrow>
          (let newOrChanged = file_changed h H s path;
               sigs = unit_signals path content newOrChanged
           in if sigs = [] \<or> \<not> newOrChanged \<and> \<not> containsSuspiciousPayload sigs then None
              else Some (NormalizeDedup h (file_finding now cfg pack agentVer (learning_for cfg s) RuleSystemdPersistence
                     [''T1053.006'', ''T1543.002''] ''persistence'' hash path sigs
                     (truncate_to (firstMatchingLine content highRiskSystemdDirectives) 300)))))"

definition systemd_targets :: "host \<Rightarrow> string list" where
  "systemd_targets H = concat (map (\<lambda>d. walkFiles H d unit_exts) systemdUnitDirs)"

definition scanSystemdUnits :: "(string \<Rightarrow> string) \<Rightarrow> time \<Rightarrow> Config \<Rightarrow> Pack \<Rightarrow> string \<Rightarrow> host \<Rightarrow> Snapshot \<Rightarrow> Event list" where
  "scanSystemdUnits h now cfg pack agentVer H s =
     List.map_filter (evaluateSystemdUnit h now cfg pack agentVer H s) (systemd_targets H)"

definition BuildBaselineSystemd :: "(string \<Rightarrow> string) \<Rightarrow> host \<Rightarrow> Snapshot \<Rightarrow> Snapshot" where
  "BuildBaselineSystemd h H s = fold (\<lambda>d s. record_files h H (walkFiles H d unit_exts) s) systemdUnitDirs s"

section \<open>Shell start-up files\<close>

definition RuleShellRCPersistence :: string where "RuleShellRCPersistence = ''PROFILE_HOOK''"

definition globalShellRC :: "string list" where
  "globalShellRC = [''/etc/profile'', ''/etc/bash.bashrc'', ''/etc/zshrc'', ''/etc/zsh/zshrc'', ''/etc/fish/config.fish'']"

definition globalShellRCDirs :: "string list" where
  "globalShellRCDirs = [''/etc/profile.d'', ''/etc/zsh/zshrc.d'', ''/etc/fish/conf.d'']"

definition userShellRCNames :: "string list" where
  "userShellRCNames = [''.bashrc'', ''.bash_profile'', ''.profile'', ''.zshrc'', ''.zprofile'', ''.kshrc'', ''.cshrc'', ''.tcshrc'']"

definition sshRCNames :: "string list" where "sshRCNames = [''.ssh/rc'', ''.ssh/environment'']"

definition user_rc_files :: "host \<Rightarrow> passwdEntry \<Rightarrow> string list" where
  "user_rc_files H u =
     (if pw_dir u = [] then []
      else filter (exists_on H) (map (\<lambda>n. PathJoin [pw_dir u, n]) userShellRCNames) @
           filter (exists_on H) (map (\<lambda>n. PathJoin [pw_dir u, n]) sshRCNames))"

definition collectShellRCTargets :: "host \<Rightarrow> string list" where
  "collectShellRCTargets H =
     filter (exists_on H) globalShellRC @ concat (map (\<lambda>d. walkFiles H d []) globalShellRCDirs) @
     concat (map (user_rc_files H) (passwdUsers H))"

definition suspiciousShellRCTokens :: "string list" where
  "suspiciousShellRCTokens = [''curl '', ''wget '', ''base64 -d'', ''base64 --decode'', ''bash -i'', ''/dev/tcp/'', ''nohup '',
     ''disown'', ''eval $('', ''HISTFILE=/dev/null'', ''unset HISTFILE'', ''export HISTFILE=/dev/null'', ''alias sudo='', ''alias ssh='']"

definition look_shellrc ::
  "(string \<Rightarrow> string) \<Rightarrow> time \<Rightarrow> Config \<Rightarrow> Pack \<Rightarrow> string \<Rightarrow> host \<Rightarrow> Snapshot \<Rightarrow> string \<Rightarrow> Event option" where
  "look_shellrc h now cfg pack agentVer H s path =
     (case open_target h H path of
        None \<Rightarrow> None
      | Some (b, hash) \<Rightarrow>
          (let changed = file_changed h H s path;
               suspicious = contains_any (ToLower b) (map ToLower suspiciousShellRCTokens);
               sigs = (if changed then [''shell_rc_changed''] else []) @ (if suspicious then [''shell_rc_suspicious_token''] else [])
           in if \<not> changed \<and> \<not> suspicious then None
              else Some (NormalizeDedup h (file_finding now cfg pack agentVer (learning_for cfg s) RuleShellRCPersistence
                     [''T1546.004''] ''persistence'' hash path sigs (truncate_to (TrimSpace b) 300)))))"

definition scanShellRC :: "(string \<Rightarrow> string) \<Rightarrow> time \<Rightarrow> Config \<Rightarrow> Pack \<Rightarrow> string \<Rightarrow> host \<Rightarrow> Snapshot \<Rightarrow> Event list" where
  "scanShellRC h now cfg pack agentVer H s =
     List.map_filter (look_shellrc h now cfg pack agentVer H s) (collectShellRCTargets H)"

definition BuildBaselineShellRC :: "(string \<Rightarrow> string) \<Rightarrow> host \<Rightarrow> Snapshot \<Rightarrow> Snapshot" where
  "BuildBaselineShellRC h H = record_files h H (collectShellRCTargets H)"

section \<open>PAM\<close>

definition RulePAMPersistence :: string where "RulePAMPersistence = ''PAM_PERSISTENCE''"
definition pamConfigDir :: string where "pamConfigDir = ''/etc/pam.d''"

definition pamModuleDirs :: "string list" where
  "pamModuleDirs = [''/lib/x86_64-linux-gnu/security'', ''/lib64/security'', ''/lib/security'', ''/usr/lib/security'',
     ''/usr/lib64/security'', ''/usr/lib/x86_64-linux-gnu/security'']"

definition suspiciousPAMTokens :: "string list" where
  "suspiciousPAMTokens = [''pam_exec.so'', ''pam_python.so'', ''pam_succeed_if.so'', ''/tmp/'', ''/dev/shm/'', ''/home/'']"

definition collectPAMTargets :: "host \<Rightarrow> string list" where
  "collectPAMTargets H = walkFiles H pamConfigDir [] @ concat (map (\<lambda>d. walkFiles H d [''.so'']) pamModuleDirs)"

definition pam_signals :: "bool \<Rightarrow> bool \<Rightarrow> string \<Rightarrow> string list" where
  "pam_signals isConfig changed content =
     (if changed then (if isConfig then [''pam_config_changed''] else [''pam_module_new_or_changed'']) else []) @
     (if isConfig
      then (case find (\<lambda>tok. Contains (ToLower content) tok \<and> changed) suspiciousPAMTokens of
              None \<Rightarrow> [] | Some tok \<Rightarrow> [''pam_suspicious_reference:'' @ tok])
      else [])"

definition look_pam ::
  "(string \<Rightarrow> string) \<Rightarrow> time \<Rightarrow> Config \<Rightarrow> Pack \<Rightarrow> string \<Rightarrow> host \<Rightarrow> Snapshot \<Rightarrow> string \<Rightarrow> Event option" where
  "look_pam h now cfg pack agentVer H s path =
     (case open_target h H path of
        None \<Rightarrow> None
      | Some (b, hash) \<Rightarrow>
          (let sigs = pam_signals (HasPrefix path (pamConfigDir @ ''/'')) (file_changed h H s path) b
           in if sigs = [] then None
              else Some (NormalizeDedup h (file_finding now cfg pack agentVer (learning_for cfg s) RulePAMPersistence
                     [''T1556.003''] ''credential-access'' hash path sigs (truncate_to (TrimSpace b) 300)))))"

definition scanPAM :: "(string \<Rightarrow> string) \<Rightarrow> time \<Rightarrow> Config \<Rightarrow> Pack \<Rightarrow> string \<Rightarrow> host \<Rightarrow> Snapshot \<Rightarrow> Event list" where
  "scanPAM h now cfg pack agentVer H s = List.map_filter (look_pam h now cfg pack agentVer H s) (collectPAMTargets H)"

definition BuildBaselinePAM :: "(string \<Rightarrow> string) \<Rightarrow> host \<Rightarrow> Snapshot \<Rightarrow> Snapshot" where
  "BuildBaselinePAM h H = record_files h H (collectPAMTargets H)"

section \<open>Sudoers\<close>

definition RuleSudoersPersistence :: string where "RuleSudoersPersistence = ''SUDOERS_PERSISTENCE''"
definition sudoersTargets :: "string list" where "sudoersTargets = [''/etc/sudoers'']"
definition sudoersDir :: string where "sudoersDir = ''/etc/sudoers.d''"

definition dangerousSudoersDirectives :: "string list" where
  "dangerousSudoersDirectives = [''NOPASSWD:'', ''!authenticate'', '' ALL=(ALL:ALL) '', '' ALL=(ALL) ALL'', '' ALL=(root) ALL'',
     '' ALL=(ALL) NOPASSWD:'']"

definition collectSudoersTargets :: "host \<Rightarrow> string list" where
  "collectSudoersTargets H = filter (exists_on H) sudoersTargets @ walkFiles H sudoersDir []"

definition sudoers_flagged :: "string \<Rightarrow> string list" where
  "sudoers_flagged b =
     map (\<lambda>l. truncate_to l 180)
       (filter (\<lambda>l. \<not> HasPrefix l ''Defaults'' \<and> contains_any l dangerousSudoersDirectives) (content_lines b))"

definition look_sudoers ::
  "(string \<Rightarrow> string) \<Rightarrow> time \<Rightarrow> Config \<Rightarrow> Pack \<Rightarrow> string \<Rightarrow> host \<Rightarrow> Snapshot \<Rightarrow> string \<Rightarrow> Event option" where
  "look_sudoers h now cfg pack agentVer H s path =
     (case open_target h H path of
        None \<Rightarrow> None
      | Some (b, hash) \<Rightarrow>
          (let flagged = sudoers_flagged b;
               sigs = (if file_changed h H s path then [''sudoers_changed''] else []) @
                      (if flagged \<noteq> [] then [''sudoers_nopasswd_or_unrestricted''] else [])
           in if sigs = [] then None
              else Some (NormalizeDedup h (file_finding now cfg pack agentVer (learning_for cfg s) RuleSudoersPersistence
                     [''T1548.003''] ''privilege-escalation'' hash path sigs (truncate_to (Join flagged '' | '') 400)))))"

definition scanSudoers :: "(string \<Rightarrow> string) \<Rightarrow> time \<Rightarrow> Config \<Rightarrow> Pack \<Rightarrow> string \<Rightarrow> host \<Rightarrow> Snapshot \<Rightarrow> Event list" where
  "scanSudoers h now cfg pack agentVer H s =
     List.map_filter (look_sudoers h now cfg pack agentVer H s) (collectSudoersTargets H)"

definition BuildBaselineSudoers :: "(string \<Rightarrow> string) \<Rightarrow> host \<Rightarrow> Snapshot \<Rightarrow> Snapshot" where
  "BuildBaselineSudoers h H = record_files h H (collectSudoersTargets H)"

section \<open>The SSH daemon\<close>

definition RuleSSHDConfig :: string where "RuleSSHDConfig = ''SSHD_CONFIG_ANOMALY''"
definition sshdFiles :: "string list" where "sshdFiles = [''/etc/ssh/sshd_config'']"
definition sshdDropinDir :: string where "sshdDropinDir = ''/etc/ssh/sshd_config.d''"

definition riskySSHDDirectives :: "string list" where
  "riskySSHDDirectives = [''PermitRootLogin'', ''PasswordAuthentication'', ''ChallengeResponseAuthentication'',
     ''AuthorizedKeysCommand'', ''AuthorizedKeysCommandUser'', ''ForceCommand'', ''GatewayPorts'', ''AllowTcpForwarding'',
     ''PermitTunnel'', ''PermitUserEnvironment'', ''Match User'']"

definition high_risk_directives :: "string list" where
  "high_risk_directives = [''authorizedkeyscommand'', ''forcecommand'', ''permitrootlogin yes'', ''passwordauthentication yes'']"

definition collectSSHDTargets :: "host \<Rightarrow> string list" where
  "collectSSHDTargets H = filter (exists_on H) sshdFiles @ walkFiles H sshdDropinDir [''.conf'']"

definition sshd_flagged :: "string \<Rightarrow> string list" where
  "sshd_flagged b =
     map (\<lambda>l. truncate_to l 200)
       (filter (\<lambda>l. list_ex (\<lambda>d. HasPrefix l d \<or> HasPrefix l (ToLower d)) riskySSHDDirectives) (content_lines b))"

definition look_sshd ::
  "(string \<Rightarrow> string) \<Rightarrow> time \<Rightarrow> Config \<Rightarrow> Pack \<Rightarrow> string \<Rightarrow> host \<Rightarrow> Snapshot \<Rightarrow> string \<Rightarrow> Event option" where
  "look_sshd h now cfg pack agentVer H s path =
     (case open_target h H path of
        None \<Rightarrow> None
      | Some (b, hash) \<Rightarrow>
          (let flagged = sshd_flagged b;
               sigs = (if file_changed h H s path then [''sshd_config_changed''] else []) @
                      (if list_ex (\<lambda>l. contains_any (ToLower l) high_risk_directives) flagged then [''sshd_high_risk_directive''] else [])
           in if sigs = [] then None
              else Some (NormalizeDedup h (file_finding now cfg pack agentVer (learning_for cfg s) RuleSSHDConfig
                     [''T1098.004'', ''T1556''] ''persistence'' hash path sigs (truncate_to (Join flagged '' | '') 400)))))"

definition scanSSHD :: "(string \<Rightarrow> string) \<Rightarrow> time \<Rightarrow> Config \<Rightarrow> Pack \<Rightarrow> string \<Rightarrow> host \<Rightarrow> Snapshot \<Rightarrow> Event list" where
  "scanSSHD h now cfg pack agentVer H s = List.map_filter (look_sshd h now cfg pack agentVer H s) (collectSSHDTargets H)"

definition BuildBaselineSSHD :: "(string \<Rightarrow> string) \<Rightarrow> host \<Rightarrow> Snapshot \<Rightarrow> Snapshot" where
  "BuildBaselineSSHD h H = record_files h H (collectSSHDTargets H)"

section \<open>Accounts\<close>

definition RuleUserPersistence :: string where "RuleUserPersistence = ''USER_ACCOUNT_ANOMALY''"
definition RuleUserShellEnabled :: string where "RuleUserShellEnabled = ''USER_SHELL_ENABLED''"
definition RuleUserPasswdHash :: string where "RuleUserPasswdHash = ''USER_PASSWD_HASH_CHANGE''"

definition userFiles :: "string list" where "userFiles = [''/etc/passwd'', ''/etc/shadow'']"

text \<open>Comparison of strings, byte by byte.\<close>

fun str_less :: "string \<Rightarrow> string \<Rightarrow> bool" where
  "str_less s [] = False"
| "str_less [] (d # t) = True"
| "str_less (c # s) (d # t) = (byte c < byte d \<or> c = d \<and> str_less s t)"

definition empty_hash_line :: "string \<Rightarrow> bool" where
  "empty_hash_line l = (case SplitByte l (CHR '':'') of _ # x # _ \<Rightarrow> x = [] | _ \<Rightarrow> False)"

definition findEmptyShadowHash :: "host \<Rightarrow> string \<Rightarrow> string" where
  "findEmptyShadowHash H path =
     (case hs_read H path of
        None \<Rightarrow> []
      | Some b \<Rightarrow> (case find empty_hash_line (scan_lines b) of None \<Rightarrow> [] | Some l \<Rightarrow> l))"

definition service_shell :: "string \<Rightarrow> string option" where
  "service_shell line =
     (let parts = SplitByte line (CHR '':'');
          name = parts ! 0; uid = parts ! 2; shell = parts ! 6
      in if length parts < 7 then None
         else if name \<in> set [''root'', ''sync'', ''shutdown'', ''halt''] then None
         else if uid = ''0'' then None
         else if shell \<in> set [''/usr/sbin/nologin'', ''/bin/false'', ''/sbin/nologin'', []] then None
         else if str_less uid ''1000'' \<or> HasSuffix name ''d'' \<or> Contains name ''www'' \<or> Contains name ''nginx'' \<or> Contains name ''mysql''
         then Some (name @ '':'' @ shell)
         else None)"

definition findEnabledServiceShells :: "host \<Rightarrow> string \<Rightarrow> string list" where
  "findEnabledServiceShells H path =
     (case hs_read H path of None \<Rightarrow> [] | Some b \<Rightarrow> List.map_filter service_shell (scan_lines b))"

definition user_class :: "host \<Rightarrow> string \<Rightarrow> string \<times> string list" where
  "user_class H path =
     (let base = ''user_db_changed:'' @ path; shells = findEnabledServiceShells H path
      in if path = ''/etc/shadow''
         then (RuleUserPasswdHash,
               [base] @ (if findEmptyShadowHash H path \<noteq> [] then [''empty_password_hash''] else []) @ [''user_passwd_hash_change''])
         else if path = ''/etc/passwd'' \<and> shells \<noteq> []
         then (RuleUserShellEnabled, [base, ''user_shell_enabled:'' @ Join shells '',''])
         else (RuleUserPersistence, [base]))"

definition look_user ::
  "(string \<Rightarrow> string) \<Rightarrow> time \<Rightarrow> Config \<Rightarrow> Pack \<Rightarrow> string \<Rightarrow> host \<Rightarrow> Snapshot \<Rightarrow> string \<Rightarrow> Event option" where
  "look_user h now cfg pack agentVer H s path =
     (if fileSHA h H path = [] \<or> \<not> file_changed h H s path then None
      else (let (ruleID, sigs) = user_class H path
            in Some (NormalizeDedup h ((file_finding now cfg pack agentVer (learning_for cfg s) ruleID [''T1136.001''] ''persistence''
                 (fileSHA h H path) path sigs ''file hash changed since baseline'')\<lparr>ev_Src := SrcFIM, ev_Type := TypeDelta\<rparr>))))"

definition uid_zero_event :: "(string \<Rightarrow> string) \<Rightarrow> time \<Rightarrow> Pack \<Rightarrow> string \<Rightarrow> passwdEntry \<Rightarrow> Event" where
  "uid_zero_event h now pack agentVer u =
     (let sigs = [''non_root_uid_zero_account:'' @ pw_name u];
          conf = floored 95 pack RuleUserPersistence sigs
      in NormalizeDedup h (zero_Event\<lparr>
           ev_SchemaVersion := SchemaVersion, ev_AgentVersion := agentVer, ev_Timestamp := now,
           ev_RuleID := RuleUserPersistence, ev_RulePackVersion := pack_Version pack,
           ev_TechniqueIDs := [''T1136.001'', ''T1078.003''], ev_Tactic := ''persistence'',
           ev_Confidence := conf, ev_Severity := SeverityFromConfidence conf False,
           ev_Entity := \<lparr>ent_Type = EntityUser, ent_ID = pw_name u, ent_Path = [], ent_User = pw_name u\<rparr>,
           ev_Signals := sigs, ev_Evidence := ''duplicate UID 0 account: '' @ pw_name u, ev_LearningOnly := False\<rparr>))"

definition detectUIDZero :: "(string \<Rightarrow> string) \<Rightarrow> time \<Rightarrow> Pack \<Rightarrow> string \<Rightarrow> host \<Rightarrow> Event list" where
  "detectUIDZero h now pack agentVer H =
     map (uid_zero_event h now pack agentVer) (filter (\<lambda>u. pw_uid u = ''0'' \<and> pw_name u \<noteq> ''root'') (passwdUsers H))"

definition user_targets :: "host \<Rightarrow> string list" where "user_targets H = filter (exists_on H) userFiles"

definition scanUsers :: "(string \<Rightarrow> string) \<Rightarrow> time \<Rightarrow> Config \<Rightarrow> Pack \<Rightarrow> string \<Rightarrow> host \<Rightarrow> Snapshot \<Rightarrow> Event list" where
  "scanUsers h now cfg pack agentVer H s =
     detectUIDZero h now pack agentVer H @ List.map_filter (look_user h now cfg pack agentVer H s) (user_targets H)"

definition BuildBaselineUsers :: "(string \<Rightarrow> string) \<Rightarrow> host \<Rightarrow> Snapshot \<Rightarrow> Snapshot" where
  "BuildBaselineUsers h H = record_files h H userFiles"

section \<open>Kernel modules\<close>

definition RuleKmodNew :: string where "RuleKmodNew = ''KERNEL_MODULE_NEW''"
definition RuleModLoadPathMod :: string where "RuleModLoadPathMod = ''KERNEL_MODLOAD_PATH_CHANGED''"
definition kernelModulesFile :: string where "kernelModulesFile = ''/proc/modules''"

definition moduleConfigDirs :: "string list" where
  "moduleConfigDirs = [''/etc/modules-load.d'', ''/etc/modprobe.d'', ''/usr/lib/modules-load.d'', ''/usr/lib/modprobe.d'',
     ''/run/modules-load.d'']"

definition moduleConfigFiles :: "string list" where "moduleConfigFiles = [''/etc/modules'']"

definition readLoadedModules :: "host \<Rightarrow> string list" where
  "readLoadedModules H =
     (case hs_read H kernelModulesFile of
        None \<Rightarrow> []
      | Some b \<Rightarrow> map hd (filter (\<lambda>fs. fs \<noteq> []) (map Fields (scan_lines b))))"

definition collectModuleConfigTargets :: "host \<Rightarrow> string list" where
  "collectModuleConfigTargets H = filter (exists_on H) moduleConfigFiles @ concat (map (\<lambda>d. walkFiles H d []) moduleConfigDirs)"

definition new_modules :: "host \<Rightarrow> Snapshot \<Rightarrow> string list" where
  "new_modules H s = filter (\<lambda>m. m \<notin> set (sn_LoadedKernelModules s)) (readLoadedModules H)"

definition kmod_event :: "(string \<Rightarrow> string) \<Rightarrow> time \<Rightarrow> Config \<Rightarrow> Pack \<Rightarrow> string \<Rightarrow> Snapshot \<Rightarrow> string list \<Rightarrow> Event" where
  "kmod_event h now cfg pack agentVer s mods =
     (let sigs = [''loaded_modules_delta'', ''new_modules:'' @ Join mods '',''];
          conf = floored 80 pack RuleKmodNew sigs
      in NormalizeDedup h (zero_Event\<lparr>
           ev_SchemaVersion := SchemaVersion, ev_AgentVersion := agentVer, ev_Timestamp := now,
           ev_RuleID := RuleKmodNew, ev_RulePackVersion := pack_Version pack,
           ev_TechniqueIDs := [''T1014''], ev_Tactic := ''defense-evasion'',
           ev_Confidence := conf, ev_Severity := SeverityFromConfidence conf False,
           ev_Entity := \<lparr>ent_Type = EntityFile, ent_ID = ''proc_modules'', ent_Path = kernelModulesFile, ent_User = []\<rparr>,
           ev_Signals := sigs, ev_Evidence := ''new kernel modules: '' @ Join mods '','',
           ev_LearningOnly := learning_for cfg s \<or> conf < cfg_MinConfidenceAlert cfg\<rparr>))"

definition look_kmod ::
  "(string \<Rightarrow> string) \<Rightarrow> time \<Rightarrow> Config \<Rightarrow> Pack \<Rightarrow> string \<Rightarrow> host \<Rightarrow> Snapshot \<Rightarrow> string \<Rightarrow> Event option" where
  "look_kmod h now cfg pack agentVer H s path =
     (if fileSHA h H path = [] \<or> \<not> file_changed h H s path then None
      else Some (NormalizeDedup h (file_finding now cfg pack agentVer (learning_for cfg s) RuleModLoadPathMod [''T1547.006'']
             ''persistence'' (fileSHA h H path) path [''modload_config_changed''] ''module config changed since baseline'')))"

definition scanKernelModules :: "(string \<Rightarrow> string) \<Rightarrow> time \<Rightarrow> Config \<Rightarrow> Pack \<Rightarrow> string \<Rightarrow> host \<Rightarrow> Snapshot \<Rightarrow> Event list" where
  "scanKernelModules h now cfg pack agentVer H s =
     (if IsCommitted s \<and> new_modules H s \<noteq> [] then [kmod_event h now cfg pack agentVer s (new_modules H s)] else []) @
     List.map_filter (look_kmod h now cfg pack agentVer H s) (collectModuleConfigTargets H)"

definition BuildBaselineKernelModules :: "(string \<Rightarrow> string) \<Rightarrow> host \<Rightarrow> Snapshot \<Rightarrow> Snapshot" where
  "BuildBaselineKernelModules h H s =
     record_files h H (collectModuleConfigTargets H) (s\<lparr>sn_LoadedKernelModules := readLoadedModules H\<rparr>)"

section \<open>Loader configuration\<close>

definition RuleLDConfPersistence :: string where "RuleLDConfPersistence = ''LD_SO_CONF_CHANGED''"
definition ldConfFiles :: "string list" where "ldConfFiles = [''/etc/ld.so.conf'']"
definition ldConfDir :: string where "ldConfDir = ''/etc/ld.so.conf.d''"

definition suspiciousLoaderPaths :: "string list" where
  "suspiciousLoaderPaths = [''/tmp/'', ''/dev/shm/'', ''/var/tmp/'', ''/home/'']"

definition collectLDConfTargets :: "host \<Rightarrow> string list" where
  "collectLDConfTargets H = filter (exists_on H) ldConfFiles @ walkFiles H ldConfDir [''.conf'']"

definition ldconf_flagged :: "string \<Rightarrow> string list" where
  "ldconf_flagged b =
     filter (\<lambda>l. \<not> HasPrefix l ''include '' \<and> IsAbs l \<and> list_ex (HasPrefix l) suspiciousLoaderPaths) (content_lines b)"

definition look_ldconf ::
  "(string \<Rightarrow> string) \<Rightarrow> time \<Rightarrow> Config \<Rightarrow> Pack \<Rightarrow> string \<Rightarrow> host \<Rightarrow> Snapshot \<Rightarrow> string \<Rightarrow> Event option" where
  "look_ldconf h now cfg pack agentVer H s path =
     (case open_target h H path of
        None \<Rightarrow> None
      | Some (b, hash) \<Rightarrow>
          (let flagged = ldconf_flagged b;
               sigs = (if file_changed h H s path then [''ld_so_conf_changed''] else []) @
                      (if flagged \<noteq> [] then [''ld_so_conf_world_writable_entry''] else [])
           in if sigs = [] then None
              else Some (NormalizeDedup h (file_finding now cfg pack agentVer (learning_for cfg s) RuleLDConfPersistence
                     [''T1574.006''] ''defense-evasion'' hash path sigs (truncate_to (Join flagged '' | '') 300)))))"

definition scanLDConf :: "(string \<Rightarrow> string) \<Rightarrow> time \<Rightarrow> Config \<Rightarrow> Pack \<Rightarrow> string \<Rightarrow> host \<Rightarrow> Snapshot \<Rightarrow> Event list" where
  "scanLDConf h now cfg pack agentVer H s = List.map_filter (look_ldconf h now cfg pack agentVer H s) (collectLDConfTargets H)"

definition BuildBaselineLDConf :: "(string \<Rightarrow> string) \<Rightarrow> host \<Rightarrow> Snapshot \<Rightarrow> Snapshot" where
  "BuildBaselineLDConf h H = record_files h H (collectLDConfTargets H)"

section \<open>Contracts\<close>

text \<open>The signals that state a change against the baseline.\<close>

definition change_marks :: "string list" where
  "change_marks = [''systemd_unit_new_or_changed'', ''new_systemd_timer'', ''shell_rc_changed'', ''pam_config_changed'',
     ''pam_module_new_or_changed'', ''sudoers_changed'', ''sshd_config_changed'', ''user_db_changed:/etc/passwd'',
     ''user_db_changed:/etc/shadow'', ''modload_config_changed'', ''ld_so_conf_changed'']"

interpretation systemd: watcher h systemd_targets "scanSystemdUnits h now cfg pack agentVer" change_marks
  for h now cfg pack agentVer
  by (rule watcher_readI [OF scanSystemdUnits_def evaluateSystemdUnit_def])
    (auto simp: Let_def unit_signals_def change_marks_def split: if_splits)

interpretation shellrc: watcher h collectShellRCTargets "scanShellRC h now cfg pack agentVer" change_marks
  for h now cfg pack agentVer
  by (rule watcher_readI [OF scanShellRC_def look_shellrc_def]) (auto simp: Let_def change_marks_def split: if_splits)

lemma pam_signals_changed: "list_ex (\<lambda>m. m \<in> set (pam_signals c True b)) change_marks"
proof -
  have "(if c then ''pam_config_changed'' else ''pam_module_new_or_changed'') \<in> set (pam_signals c True b)"
    by (cases c) (auto simp: pam_signals_def)
  moreover have "(if c then ''pam_config_changed'' else ''pam_module_new_or_changed'') \<in> set change_marks"
    by (simp add: change_marks_def)
  ultimately show ?thesis unfolding list_ex_iff by blast
qed

lemma pam_signals_unchanged: "pam_signals c False b = []"
proof -
  have "find (\<lambda>tok. False) xs = None" for xs :: "string list" by (induction xs) simp_all
  then show ?thesis by (simp add: pam_signals_def)
qed

interpretation pam: watcher h collectPAMTargets "scanPAM h now cfg pack agentVer" change_marks
  for h now cfg pack agentVer
proof (rule watcher_readI [OF scanPAM_def look_pam_def], goal_cases)
  case (1 H s p b d)
  have "pam_signals (HasPrefix p (pamConfigDir @ ''/'')) True b \<noteq> []" by (simp add: pam_signals_def)
  then show ?case using 1 pam_signals_changed by (simp add: Let_def)
next
  case (2 H s p b d e m)
  then show ?case by (cases "file_changed h H s p") (simp_all add: Let_def pam_signals_unchanged)
qed

interpretation sudoers: watcher h collectSudoersTargets "scanSudoers h now cfg pack agentVer" change_marks
  for h now cfg pack agentVer
  by (rule watcher_readI [OF scanSudoers_def look_sudoers_def]) (auto simp: Let_def change_marks_def split: if_splits)

interpretation sshd: watcher h collectSSHDTargets "scanSSHD h now cfg pack agentVer" change_marks
  for h now cfg pack agentVer
  by (rule watcher_readI [OF scanSSHD_def look_sshd_def]) (auto simp: Let_def change_marks_def split: if_splits)

interpretation ldconf: watcher h collectLDConfTargets "scanLDConf h now cfg pack agentVer" change_marks
  for h now cfg pack agentVer
  by (rule watcher_readI [OF scanLDConf_def look_ldconf_def]) (auto simp: Let_def change_marks_def split: if_splits)

interpretation users: watcher h user_targets "scanUsers h now cfg pack agentVer" change_marks
  for h now cfg pack agentVer
proof -
  have "watcher h user_targets (\<lambda>H s. List.map_filter (look_user h now cfg pack agentVer H s) (user_targets H)) change_marks"
    by (rule watcherI [OF refl])
      (auto simp: look_user_def reports_change_def split_beta user_targets_def userFiles_def user_class_def Let_def change_marks_def
        split: if_splits)
  then have "watcher h user_targets
      (\<lambda>H s. detectUIDZero h now pack agentVer H @ List.map_filter (look_user h now cfg pack agentVer H s) (user_targets H)) change_marks"
    by (rule watcher_prepend)
      (auto simp: detectUIDZero_def uid_zero_event_def zero_Event_def Let_def change_marks_def)
  then show "watcher h user_targets (scanUsers h now cfg pack agentVer) change_marks" by (simp add: scanUsers_def [abs_def])
qed

interpretation kmod: watcher h collectModuleConfigTargets "scanKernelModules h now cfg pack agentVer" change_marks
  for h now cfg pack agentVer
proof -
  have "watcher h collectModuleConfigTargets
      (\<lambda>H s. List.map_filter (look_kmod h now cfg pack agentVer H s) (collectModuleConfigTargets H)) change_marks"
    by (rule watcherI [OF refl]) (auto simp: look_kmod_def reports_change_def change_marks_def split: if_splits)
  then have "watcher h collectModuleConfigTargets (\<lambda>H s.
      (if IsCommitted s \<and> new_modules H s \<noteq> [] then [kmod_event h now cfg pack agentVer s (new_modules H s)] else []) @
      List.map_filter (look_kmod h now cfg pack agentVer H s) (collectModuleConfigTargets H)) change_marks"
    by (rule watcher_prepend)
      (auto simp: kmod_event_def zero_Event_def Let_def change_marks_def split: if_splits)
  then show "watcher h collectModuleConfigTargets (scanKernelModules h now cfg pack agentVer) change_marks"
    by (simp add: scanKernelModules_def [abs_def])
qed

end
