(* ===== verification/GC_PHP.thy ===== *)
theory GC_PHP
  imports GC_Prelude
begin

text \<open>
  \<^verbatim>\<open>detect/web/php_ast.go\<close>: the PHP lexer and the taint analysis of the web shell detector. Positions in
  the source are suffixes of it. The lexer is shown to read back printed tokens, and the analysis to
  find a flow from a request variable to a dangerous call in the text of a file.
\<close>

section \<open>Tokens\<close>

datatype phpTokenKind = phpTokOpen | phpTokIdent | phpTokVar | phpTokString | phpTokPunct | phpTokNumber | phpTokOther

record phpToken =
  tk_kind :: phpTokenKind
  tk_value :: string

definition tok :: "phpTokenKind \<Rightarrow> string \<Rightarrow> phpToken" where
  "tok k v = \<lparr>tk_kind = k, tk_value = v\<rparr>"

definition dangerousSinks :: "string list" where
  "dangerousSinks = [''eval'', ''assert'', ''create_function'', ''system'', ''exec'', ''passthru'', ''shell_exec'', ''proc_open'', ''popen'',
     ''pcntl_exec'', ''preg_replace'', ''include'', ''include_once'', ''require'', ''require_once'', ''file_get_contents'',
     ''file_put_contents'', ''fwrite'']"

definition taintedSources :: "string list" where
  "taintedSources = [''_GET'', ''_POST'', ''_REQUEST'', ''_COOKIE'', ''_SERVER'', ''_FILES'', ''_ENV'', ''HTTP_RAW_POST_DATA'', ''php://input'']"

section \<open>Lexer\<close>

text \<open>\<^verbatim>\<open>unicode.IsLetter\<close> of a byte taken as a rune, that is, of a Latin-1 character.\<close>

definition isAlpha :: "char \<Rightarrow> bool" where
  "isAlpha c \<longleftrightarrow> is_upper c \<or> is_lower c \<or> byte c \<in> {0xAA, 0xB5, 0xBA} \<or>
     0xC0 \<le> byte c \<and> byte c \<noteq> 0xD7 \<and> byte c \<noteq> 0xF7"

definition ident_char :: "char \<Rightarrow> bool" where
  "ident_char c \<longleftrightarrow> isAlpha c \<or> is_digit c \<or> c = CHR ''_''"

text \<open>\<^verbatim>\<open>string(c)\<close> of a byte is the UTF-8 encoding of that code point.\<close>

definition rune_string :: "char \<Rightarrow> string" where
  "rune_string c = (if byte c < 0x80 then [c] else [char_of (0xC0 + byte c div 64), char_of (0x80 + byte c mod 64)])"

text \<open>The suffix from the first occurrence of a text.\<close>

fun from_sub :: "string \<Rightarrow> string \<Rightarrow> string option" where
  "from_sub sub [] = (if sub = [] then Some [] else None)"
| "from_sub sub (c # s) = (if HasPrefix (c # s) sub then Some (c # s) else from_sub sub s)"

text \<open>What the loop over a quoted string consumes, with the closing quote if there is one, and the rest.\<close>

fun scan_quoted :: "char \<Rightarrow> string \<Rightarrow> string \<times> string" where
  "scan_quoted q [] = ([], [])"
| "scan_quoted q [c] = ([c], [])"
| "scan_quoted q (c # d # s) =
     (if c = CHR 0x5C then (case scan_quoted q s of (raw, r) \<Rightarrow> (c # d # raw, r))
      else if c = q then ([c], d # s)
      else (case scan_quoted q (d # s) of (raw, r) \<Rightarrow> (c # raw, r)))"

text \<open>One turn of the inner loop at a character: the tokens it appends and where it goes on.\<close>

definition lex_step :: "char \<Rightarrow> string \<Rightarrow> phpToken list \<times> string" where
  "lex_step c s =
     (if c \<in> {CHR '' '', CHR 0x09, CHR 0x0D, CHR 0x0A} then ([], s)
      else if c = CHR ''/'' \<and> HasPrefix s ''/'' then ([], dropWhile (\<lambda>d. d \<noteq> CHR 0x0A) s)
      else if c = CHR ''#'' then ([], dropWhile (\<lambda>d. d \<noteq> CHR 0x0A) s)
      else if c = CHR ''/'' \<and> HasPrefix s ''*'' then ([], case from_sub ''*/'' (drop 1 s) of None \<Rightarrow> [] | Some t \<Rightarrow> drop 2 t)
      else if c = CHR ''$'' then ([tok phpTokVar (c # takeWhile ident_char s)], dropWhile ident_char s)
      else if c = CHR 0x27 \<or> c = CHR 0x22
        then (case scan_quoted c s of (raw, r) \<Rightarrow> (if raw = [] then [] else [tok phpTokString (butlast raw)], r))
      else if isAlpha c \<or> c = CHR ''_'' then ([tok phpTokIdent (c # takeWhile ident_char s)], dropWhile ident_char s)
      else if is_digit c
        then ([tok phpTokNumber (c # takeWhile (\<lambda>d. is_digit d \<or> d = CHR ''.'') s)], dropWhile (\<lambda>d. is_digit d \<or> d = CHR ''.'') s)
      else ([tok phpTokPunct (rune_string c)], s))"

lemma from_sub_length: "from_sub sub s = Some t \<Longrightarrow> length t \<le> length s"
  by (induction sub s rule: from_sub.induct) (auto split: if_splits)

lemma scan_quoted_length: "scan_quoted q s = (raw, r) \<Longrightarrow> length r \<le> length s"
  by (induction q s arbitrary: raw r rule: scan_quoted.induct) (fastforce split: prod.splits if_splits)+

lemma lex_step_shorter: "length (snd (lex_step c s)) \<le> length s"
proof -
  have "length (case from_sub ''*/'' (drop 1 s) of None \<Rightarrow> [] | Some t \<Rightarrow> drop 2 t) \<le> length s"
    using from_sub_length [of "''*/''" "drop 1 s"] by (auto split: option.split)
  moreover have "length (snd (case scan_quoted c s of (raw, r) \<Rightarrow> (if raw = [] then [] else [tok phpTokString (butlast raw)], r))) \<le> length s"
    using scan_quoted_length [of c s] by (auto split: prod.split)
  ultimately show ?thesis by (simp add: lex_step_def length_dropWhile_le)
qed

text \<open>The inner loop, up to the closing tag, with the rest after it.\<close>

function lex_code :: "string \<Rightarrow> phpToken list \<times> string" where
  "lex_code [] = ([], [])"
| "lex_code (c # s) =
     (if c = CHR ''?'' \<and> HasPrefix s ''>'' then ([], drop 1 s)
      else (case lex_step c s of (ts, r) \<Rightarrow> (case lex_code r of (us, q) \<Rightarrow> (ts @ us, q))))"
  by pat_completeness auto
termination
proof (relation "measure length")
  show "(r, c # s) \<in> measure length" if "(ts, r) = lex_step c s" for c s ts r
    using lex_step_shorter [of c s] that by (metis in_measure le_imp_less_Suc length_Cons snd_conv)
qed simp

lemma lex_code_length: "length (snd (lex_code s)) \<le> length s"
proof (induction s rule: lex_code.induct)
  case (2 c s)
  obtain ts r where step: "lex_step c s = (ts, r)" by fastforce
  have "length r \<le> length s" using lex_step_shorter [of c s] step by simp
  moreover have "length (snd (lex_code r)) \<le> length r" if "\<not> (c = CHR ''?'' \<and> HasPrefix s ''>'')"
    by (rule 2 [OF that]) (use step in auto)
  ultimately show ?case using step by (auto split: prod.split)
qed simp

definition skip_open :: "string \<Rightarrow> string" where
  "skip_open s =
     (if s \<noteq> [] \<and> hd s \<in> {CHR ''='', CHR ''p'', CHR ''P''} then dropWhile (\<lambda>d. isAlpha d \<or> d = CHR ''='') s else s)"

lemma skip_open_length: "length (skip_open s) \<le> length s"
  using length_dropWhile_le [of _ s] by (simp only: skip_open_def split: if_split) blast

function tokenizePHP :: "string \<Rightarrow> phpToken list" where
  "tokenizePHP src =
     (case from_sub ''<?'' src of
        None \<Rightarrow> []
      | Some t \<Rightarrow> (case lex_code (skip_open (drop 2 t)) of (ts, r) \<Rightarrow> tok phpTokOpen ''<?'' # ts @ tokenizePHP r))"
  by pat_completeness auto
termination
proof (relation "measure length")
  fix src t ts r assume t: "from_sub ''<?'' src = Some t" and "(ts, r) = lex_code (skip_open (drop 2 t))"
  then have "length r \<le> length (skip_open (drop 2 t))" using lex_code_length by (metis snd_conv)
  also have "\<dots> \<le> length (drop 2 t)" by (rule skip_open_length)
  finally have "length r \<le> length t - 2" by simp
  moreover have "HasPrefix t ''<?''" using t by (induction "''<?''" src rule: from_sub.induct) (auto split: if_splits)
  then have "2 \<le> length t" by (auto simp: HasPrefix_iff)
  ultimately show "(r, src) \<in> measure length" using from_sub_length [OF t] by simp
qed simp

declare tokenizePHP.simps [simp del]

section \<open>Taint analysis\<close>

definition sliceRHS :: "phpToken list \<Rightarrow> phpToken list" where
  "sliceRHS toks = takeWhile (\<lambda>t. \<not> (tk_kind t = phpTokPunct \<and> tk_value t \<in> {'';'', [CHR 0x0A]})) toks"

fun sliceCallArgs :: "nat \<Rightarrow> phpToken list \<Rightarrow> phpToken list" where
  "sliceCallArgs depth [] = []"
| "sliceCallArgs depth (t # ts) =
     (if tk_value t = ''('' then t # sliceCallArgs (depth + 1) ts
      else if tk_value t = '')'' then (if depth = 1 then [] else t # sliceCallArgs (depth - 1) ts)
      else t # sliceCallArgs depth ts)"

definition uses_taint :: "(string, bool) gomap \<Rightarrow> phpToken \<Rightarrow> bool" where
  "uses_taint tainted t \<longleftrightarrow>
     tk_kind t = phpTokVar \<and> (gget False tainted (tk_value t) \<or> TrimPrefix (tk_value t) ''$'' \<in> set taintedSources) \<or>
     tk_kind t = phpTokIdent \<and> tk_value t \<in> set taintedSources \<or>
     tk_kind t = phpTokString \<and> (tk_value t \<in> set taintedSources \<or> HasPrefix (tk_value t) ''php://input'')"

definition rhsUsesTaint :: "phpToken list \<Rightarrow> (string, bool) gomap \<Rightarrow> bool" where
  "rhsUsesTaint toks tainted \<longleftrightarrow> list_ex (uses_taint tainted) toks"

definition rhsAllLiteral :: "phpToken list \<Rightarrow> bool" where
  "rhsAllLiteral toks \<longleftrightarrow>
     list_all (\<lambda>t. tk_kind t \<in> {phpTokString, phpTokNumber} \<or> tk_value t = '' '' \<or> tk_value t = ''.'') toks"

text \<open>What an assignment does to the taint of its variable.\<close>

definition assign_taint :: "string \<Rightarrow> phpToken list \<Rightarrow> (string, bool) gomap \<Rightarrow> (string, bool) gomap" where
  "assign_taint v rhs tainted =
     (if rhsUsesTaint rhs tainted then gput v True tainted
      else if rhsAllLiteral rhs then gput v False tainted else tainted)"

definition is_assign :: "phpToken \<Rightarrow> phpToken list \<Rightarrow> bool" where
  "is_assign t ts \<longleftrightarrow> tk_kind t = phpTokVar \<and> 2 \<le> length ts \<and> hd ts = tok phpTokPunct ''=''"

definition is_sink :: "phpToken \<Rightarrow> phpToken list \<Rightarrow> bool" where
  "is_sink t ts \<longleftrightarrow> tk_kind t = phpTokIdent \<and> ts \<noteq> [] \<and> tk_value (hd ts) = ''('' \<and> tk_value t \<in> set dangerousSinks"

fun taint_walk :: "(string, bool) gomap \<Rightarrow> phpToken list \<Rightarrow> bool \<times> string" where
  "taint_walk tainted [] = (False, [])"
| "taint_walk tainted (t # ts) =
     (if is_assign t ts then taint_walk (assign_taint (tk_value t) (sliceRHS (tl ts)) tainted) ts
      else if is_sink t ts \<and> rhsUsesTaint (sliceCallArgs 1 (tl ts)) tainted then (True, tk_value t)
      else taint_walk tainted ts)"

definition scanPHPTaintFlow :: "string \<Rightarrow> bool \<times> string" where
  "scanPHPTaintFlow src = (if \<not> Contains src ''<?'' then (False, []) else taint_walk [] (tokenizePHP src))"


section \<open>Reading back what was printed\<close>

text \<open>The text of a token, with a space behind it.\<close>

definition print_tok :: "phpToken \<Rightarrow> string" where
  "print_tok t = (if tk_kind t = phpTokString then CHR 0x27 # tk_value t @ [CHR 0x27] else tk_value t)"

definition print_php :: "phpToken list \<Rightarrow> string" where
  "print_php ts = ''<? '' @ concat (map (\<lambda>t. print_tok t @ '' '') ts)"

text \<open>Characters that stand for themselves.\<close>

definition punct_char :: "char \<Rightarrow> bool" where
  "punct_char c \<longleftrightarrow> byte c < 0x80 \<and> c \<notin> {CHR '' '', CHR 0x09, CHR 0x0D, CHR 0x0A, CHR ''#'', CHR ''$'', CHR 0x27, CHR 0x22} \<and>
     \<not> ident_char c"

definition printable_tok :: "phpToken \<Rightarrow> bool" where
  "printable_tok t \<longleftrightarrow>
     (case tk_kind t of
        phpTokVar \<Rightarrow> (case tk_value t of [] \<Rightarrow> False | c # s \<Rightarrow> c = CHR ''$'' \<and> list_all ident_char s)
      | phpTokIdent \<Rightarrow> (case tk_value t of [] \<Rightarrow> False | c # s \<Rightarrow> (isAlpha c \<or> c = CHR ''_'') \<and> list_all ident_char s)
      | phpTokNumber \<Rightarrow> (case tk_value t of [] \<Rightarrow> False | c # s \<Rightarrow> is_digit c \<and> list_all (\<lambda>d. is_digit d \<or> d = CHR ''.'') s)
      | phpTokString \<Rightarrow> CHR 0x27 \<notin> set (tk_value t) \<and> CHR 0x5C \<notin> set (tk_value t)
      | phpTokPunct \<Rightarrow> (case tk_value t of [c] \<Rightarrow> punct_char c | _ \<Rightarrow> False)
      | _ \<Rightarrow> False)"

lemma class_facts: "\<not> ident_char (CHR '' '')" "\<not> isAlpha (CHR ''$'')" "\<not> isAlpha (CHR 0x27)" "\<not> is_digit (CHR '' '')"
  by (simp_all add: ident_char_def isAlpha_def char_class_defs)

lemma alpha_first: "isAlpha c \<or> c = CHR ''_'' \<Longrightarrow>
    c \<notin> {CHR '' '', CHR 0x09, CHR 0x0D, CHR 0x0A, CHR ''/'', CHR ''#'', CHR ''$'', CHR 0x27, CHR 0x22, CHR ''?''}"
  by (auto simp: isAlpha_def char_class_defs)

lemma digit_first: "is_digit c \<Longrightarrow>
    c \<notin> {CHR '' '', CHR 0x09, CHR 0x0D, CHR 0x0A, CHR ''/'', CHR ''#'', CHR ''$'', CHR 0x27, CHR 0x22, CHR ''?'', CHR ''_''} \<and> \<not> isAlpha c"
  by (auto simp: isAlpha_def char_class_defs)

lemma takeWhile_stop: "list_all P s \<Longrightarrow> \<not> P d \<Longrightarrow> takeWhile P (s @ d # r) = s \<and> dropWhile P (s @ d # r) = d # r"
  by (induction s) auto

lemma scan_quoted_plain:
  "q \<notin> set v \<Longrightarrow> CHR 0x5C \<notin> set v \<Longrightarrow> q \<noteq> CHR 0x5C \<Longrightarrow> scan_quoted q (v @ q # d # r) = (v @ [q], d # r)"
proof (induction v)
  case (Cons c v)
  then show ?case by (cases "v @ q # d # r") auto
qed auto

lemma lex_code_tok:
  assumes "printable_tok t"
  shows "lex_code (print_tok t @ CHR '' '' # r) = (case lex_code r of (us, q) \<Rightarrow> (t # us, q))"
proof -
  have space: "lex_code (CHR '' '' # r) = lex_code r" by (simp add: lex_step_def split: prod.split)
  obtain c s where cs: "print_tok t = c # s" "\<not> (c = CHR ''?'' \<and> HasPrefix (s @ CHR '' '' # r) ''>'')"
      "lex_step c (s @ CHR '' '' # r) = ([t], CHR '' '' # r)"
  proof (cases "tk_kind t")
    case phpTokIdent
    then obtain c s where v: "tk_value t = c # s" "isAlpha c \<or> c = CHR ''_''" "list_all ident_char s"
      using assms by (auto simp: printable_tok_def split: list.splits)
    show ?thesis
      by (rule that [of c s]) (use v phpTokIdent alpha_first [OF v(2)] takeWhile_stop [OF v(3) class_facts(1), of r] in
        \<open>auto simp: print_tok_def lex_step_def tok_def\<close>)
  next
    case phpTokVar
    then obtain s where v: "tk_value t = CHR ''$'' # s" "list_all ident_char s"
      using assms by (auto simp: printable_tok_def split: list.splits)
    show ?thesis
      by (rule that [of "CHR ''$''" s]) (use v phpTokVar takeWhile_stop [OF v(2) class_facts(1), of r] in
        \<open>auto simp: print_tok_def lex_step_def tok_def\<close>)
  next
    case phpTokString
    then have v: "CHR 0x27 \<notin> set (tk_value t)" "CHR 0x5C \<notin> set (tk_value t)"
      using assms by (auto simp: printable_tok_def)
    show ?thesis
      by (rule that [of "CHR 0x27" "tk_value t @ [CHR 0x27]"]) (use v phpTokString scan_quoted_plain [OF v, of "CHR '' ''" r] in
        \<open>auto simp: print_tok_def lex_step_def tok_def\<close>)
  next
    case phpTokPunct
    then obtain c where v: "tk_value t = [c]" "punct_char c"
      using assms by (auto simp: printable_tok_def split: list.splits)
    show ?thesis
      by (rule that [of c "[]"]) (use v phpTokPunct in
        \<open>auto simp: print_tok_def lex_step_def tok_def punct_char_def ident_char_def rune_string_def\<close>)
  next
    case phpTokNumber
    then obtain c s where v: "tk_value t = c # s" "is_digit c" "list_all (\<lambda>d. is_digit d \<or> d = CHR ''.'') s"
      using assms by (auto simp: printable_tok_def split: list.splits)
    have "\<not> (is_digit (CHR '' '') \<or> CHR '' '' = CHR ''.'')" by (simp add: is_digit_def)
    from takeWhile_stop [OF v(3) this, of r] show ?thesis
      by (intro that [of c s]) (use v phpTokNumber digit_first [OF v(2)] in \<open>auto simp: print_tok_def lex_step_def tok_def\<close>)
  qed (use assms in \<open>auto simp: printable_tok_def\<close>)
  then show ?thesis using space by (auto split: prod.split)
qed


lemma lex_code_print: "list_all printable_tok ts \<Longrightarrow> lex_code (concat (map (\<lambda>t. print_tok t @ '' '') ts)) = (ts, [])"
  by (induction ts) (simp_all add: lex_code_tok del: lex_code.simps(2))

lemma tokenize_printed:
  assumes "list_all printable_tok ts"
  shows "tokenizePHP (print_php ts) = tok phpTokOpen ''<?'' # ts"
proof -
  let ?body = "concat (map (\<lambda>t. print_tok t @ '' '') ts)"
  have "skip_open (CHR '' '' # ?body) = CHR '' '' # ?body" by (simp add: skip_open_def)
  moreover have "lex_code (CHR '' '' # ?body) = (ts, [])"
    using lex_code_print [OF assms] by (simp add: lex_step_def)
  ultimately show ?thesis
    by (subst tokenizePHP.simps) (simp add: print_php_def tokenizePHP.simps [of "[]"] del: lex_code.simps(2))
qed

text \<open>
  C26. The PHP lexer reads back what was printed: the tokens of the text of any printable tokens are
  the opening tag and those tokens.
\<close>

theorem tokenize_print: "list_all printable_tok ts \<Longrightarrow> tokenizePHP (print_php ts) = tok phpTokOpen ''<?'' # ts"
  by (rule tokenize_printed)

section \<open>Flows that are found\<close>

definition is_paren :: "phpToken \<Rightarrow> bool" where "is_paren t \<longleftrightarrow> tk_value t \<in> {''('', '')''}"

text \<open>A dangerous call with simple arguments.\<close>

definition sink_call :: "string \<Rightarrow> phpToken list \<Rightarrow> phpToken list" where
  "sink_call f args = tok phpTokIdent f # tok phpTokPunct ''('' # args @ [tok phpTokPunct '')'']"

definition assignment :: "string \<Rightarrow> phpToken list \<Rightarrow> phpToken list" where
  "assignment x rhs = tok phpTokVar x # tok phpTokPunct ''='' # rhs @ [tok phpTokPunct '';'']"

lemma tok_simps [simp]: "tk_kind (tok k v) = k" "tk_value (tok k v) = v" "tok k v = tok k' v' \<longleftrightarrow> k = k' \<and> v = v'"
  by (simp_all add: tok_def)

lemma php_tok_eq: "u = tok k v \<longleftrightarrow> tk_kind u = k \<and> tk_value u = v"
  by (cases u) (simp add: tok_def)

lemma sliceCallArgs_plain:
  "list_all (\<lambda>t. \<not> is_paren t) args \<Longrightarrow> sliceCallArgs d (args @ post) = args @ sliceCallArgs d post"
  by (induction args) (auto simp: is_paren_def)

lemma sink_call_hit:
  assumes "f \<in> set dangerousSinks" "list_all (\<lambda>t. \<not> is_paren t) args" "list_ex (uses_taint e) args"
  shows "fst (taint_walk e (sink_call f args @ post))"
  using assms by (simp add: sink_call_def is_assign_def is_sink_def sliceCallArgs_plain rhsUsesTaint_def)

text \<open>Whatever comes before a hit, there is a hit.\<close>

lemma taint_walk_append:
  assumes "\<And>e. fst (taint_walk e post)"
  shows "fst (taint_walk e (pre @ post))"
  using assms by (induction pre arbitrary: e) auto

lemma uses_taint_source: "uses_taint [] t \<Longrightarrow> uses_taint e t"
  by (auto simp: uses_taint_def gget_def)

lemma assign_taint_other: "y \<noteq> x \<Longrightarrow> gget False (assign_taint y rhs e) x = gget False e x"
  by (simp add: assign_taint_def gget_def)

lemma taint_persists:
  assumes "gget False e x" "tok phpTokVar x \<notin> set mid" "\<And>e. gget False e x \<Longrightarrow> fst (taint_walk e post)"
  shows "fst (taint_walk e (mid @ post))"
  using assms(1,2)
proof (induction mid arbitrary: e)
  case (Cons u mid)
  then have "tk_kind u = phpTokVar \<Longrightarrow> tk_value u \<noteq> x" by (auto simp: php_tok_eq)
  then show ?case using Cons by (auto simp: is_assign_def assign_taint_other)
qed (use assms(3) in simp)

lemma sliceRHS_plain:
  "list_all (\<lambda>t. t \<noteq> tok phpTokPunct '';'' \<and> t \<noteq> tok phpTokPunct [CHR 0x0A]) rhs \<Longrightarrow> sliceRHS (rhs @ tok phpTokPunct '';'' # post) = rhs"
  by (induction rhs) (auto simp: sliceRHS_def php_tok_eq)

lemma assignment_taints:
  assumes "list_all (\<lambda>t. t \<noteq> tok phpTokPunct '';'' \<and> t \<noteq> tok phpTokPunct [CHR 0x0A]) rhs" "list_ex (uses_taint e) rhs"
    and "tok phpTokVar x \<notin> set rhs" "\<And>e. gget False e x \<Longrightarrow> fst (taint_walk e post)"
  shows "fst (taint_walk e (assignment x rhs @ post))"
proof -
  have "gget False (assign_taint x rhs e) x" using assms(2) by (simp add: assign_taint_def rhsUsesTaint_def gget_def)
  then have "fst (taint_walk (assign_taint x rhs e) ((tok phpTokPunct ''='' # rhs @ [tok phpTokPunct '';'']) @ post))"
    by (rule taint_persists) (use assms(3,4) in auto)
  then show ?thesis
    using sliceRHS_plain [OF assms(1), of post] by (simp add: assignment_def is_assign_def)
qed


text \<open>
  A file in which the arguments of a dangerous call use a request variable, or use a variable that
  was assigned from one and is not mentioned in between.
\<close>

definition request_flow :: "phpToken list \<Rightarrow> string \<Rightarrow> phpToken list \<Rightarrow> phpToken list \<Rightarrow> bool" where
  "request_flow pre f args post \<longleftrightarrow>
     list_all printable_tok (pre @ sink_call f args @ post) \<and> f \<in> set dangerousSinks \<and> list_all (\<lambda>t. \<not> is_paren t) args \<and>
     (list_ex (uses_taint []) args \<or>
      (\<exists>p0 x rhs mid. pre = p0 @ assignment x rhs @ mid \<and> list_ex (uses_taint []) rhs \<and> tok phpTokVar x \<in> set args \<and>
         list_all (\<lambda>t. t \<noteq> tok phpTokPunct '';'' \<and> t \<noteq> tok phpTokPunct [CHR 0x0A]) rhs \<and> tok phpTokVar x \<notin> set (rhs @ mid)))"

lemma flow_found:
  assumes "request_flow pre f args post"
  shows "fst (scanPHPTaintFlow (print_php (pre @ sink_call f args @ post)))"
proof -
  note assms = assms [unfolded request_flow_def, THEN conjunct1] assms [unfolded request_flow_def, THEN conjunct2, THEN conjunct1]
    assms [unfolded request_flow_def, THEN conjunct2, THEN conjunct2, THEN conjunct1]
    assms [unfolded request_flow_def, THEN conjunct2, THEN conjunct2, THEN conjunct2]
  have "fst (taint_walk e (pre @ sink_call f args @ post))" for e
    using assms(4)
  proof
    assume "list_ex (uses_taint []) args"
    then have "list_ex (uses_taint e) args" for e using uses_taint_source by (auto simp: list_ex_iff)
    then have "fst (taint_walk e (sink_call f args @ post))" for e by (rule sink_call_hit [OF assms(2,3)])
    then show ?thesis by (rule taint_walk_append)
  next
    assume "\<exists>p0 x rhs mid. pre = p0 @ assignment x rhs @ mid \<and> list_ex (uses_taint []) rhs \<and> tok phpTokVar x \<in> set args \<and>
      list_all (\<lambda>t. t \<noteq> tok phpTokPunct '';'' \<and> t \<noteq> tok phpTokPunct [CHR 0x0A]) rhs \<and> tok phpTokVar x \<notin> set (rhs @ mid)"
    then obtain p0 x rhs mid where pre: "pre = p0 @ assignment x rhs @ mid" and rhs: "list_ex (uses_taint []) rhs"
        "list_all (\<lambda>t. t \<noteq> tok phpTokPunct '';'' \<and> t \<noteq> tok phpTokPunct [CHR 0x0A]) rhs" "tok phpTokVar x \<notin> set rhs"
      and x: "tok phpTokVar x \<in> set args" "tok phpTokVar x \<notin> set mid" by auto
    have call: "fst (taint_walk e (sink_call f args @ post))" if "gget False e x" for e
      using that x(1) by (intro sink_call_hit [OF assms(2,3)]) (force simp: list_ex_iff uses_taint_def)
    have "fst (taint_walk e (assignment x rhs @ mid @ sink_call f args @ post))" for e
    proof (rule assignment_taints [OF rhs(2) _ rhs(3)])
      show "list_ex (uses_taint e) rhs" using rhs(1) uses_taint_source by (auto simp: list_ex_iff)
      show "fst (taint_walk e (mid @ sink_call f args @ post))" if "gget False e x" for e
        by (rule taint_persists [OF that x(2) call])
    qed
    then show ?thesis unfolding pre append_assoc by (rule taint_walk_append)
  qed
  moreover have "\<not> is_assign (tok phpTokOpen ''<?'') ts" "\<not> is_sink (tok phpTokOpen ''<?'') ts" for ts
    by (simp_all add: is_assign_def is_sink_def)
  moreover have "Contains (print_php ts) ''<?''" for ts by (simp add: print_php_def)
  ultimately show ?thesis by (simp add: scanPHPTaintFlow_def tokenize_printed [OF assms(1)])
qed

text \<open>
  A flow from a request variable to a dangerous call is found in the text of a file, whatever
  else the file contains: if the arguments of the call use a source directly, or use a variable that
  was assigned from a source and is not mentioned in between.
\<close>

theorem flow_flagged: "request_flow pre f args post \<Longrightarrow> fst (scanPHPTaintFlow (print_php (pre @ sink_call f args @ post)))"
  by (rule flow_found)

lemma sample_flow: "request_flow (assignment ''$c'' [tok phpTokVar ''$_POST'']) ''system'' [tok phpTokVar ''$c''] []"
  unfolding request_flow_def
proof (intro conjI)
  let ?a = "assignment ''$c'' [tok phpTokVar ''$_POST'']"
  have "?a = [] @ assignment ''$c'' [tok phpTokVar ''$_POST''] @ [] \<and> list_ex (uses_taint []) [tok phpTokVar ''$_POST''] \<and>
      tok phpTokVar ''$c'' \<in> set [tok phpTokVar ''$c''] \<and>
      list_all (\<lambda>t. t \<noteq> tok phpTokPunct '';'' \<and> t \<noteq> tok phpTokPunct [CHR 0x0A]) [tok phpTokVar ''$_POST''] \<and>
      tok phpTokVar ''$c'' \<notin> set ([tok phpTokVar ''$_POST''] @ [])"
    by (simp add: uses_taint_def TrimPrefix_def taintedSources_def)
  then show "list_ex (uses_taint []) [tok phpTokVar ''$c''] \<or> (\<exists>p0 x rhs mid. ?a = p0 @ assignment x rhs @ mid \<and>
      list_ex (uses_taint []) rhs \<and> tok phpTokVar x \<in> set [tok phpTokVar ''$c''] \<and>
      list_all (\<lambda>t. t \<noteq> tok phpTokPunct '';'' \<and> t \<noteq> tok phpTokPunct [CHR 0x0A]) rhs \<and> tok phpTokVar x \<notin> set (rhs @ mid))"
    by blast
  show "list_all printable_tok (?a @ sink_call ''system'' [tok phpTokVar ''$c''] @ [])" by code_simp
  show "''system'' \<in> set dangerousSinks" by (simp add: dangerousSinks_def)
  show "list_all (\<lambda>t. \<not> is_paren t) [tok phpTokVar ''$c'']" by (simp add: is_paren_def)
qed

theorem flow_flagged_witness:
  "fst (scanPHPTaintFlow (print_php (assignment ''$c'' [tok phpTokVar ''$_POST''] @ sink_call ''system'' [tok phpTokVar ''$c''] @ [])))"
  by (rule flow_flagged [OF sample_flow])

theorem tokenize_print_witness:
  "tokenizePHP (print_php [tok phpTokVar ''$x'', tok phpTokPunct ''='', tok phpTokString ''a b'', tok phpTokPunct '';'']) =
     [tok phpTokOpen ''<?'', tok phpTokVar ''$x'', tok phpTokPunct ''='', tok phpTokString ''a b'', tok phpTokPunct '';'']"
  by (rule tokenize_print) (simp add: printable_tok_def punct_char_def ident_char_def isAlpha_def char_class_defs)

section \<open>Flows that are missed\<close>

text \<open>The arguments of a call are delimited by the values of tokens, so a string that is a closing bracket ends them.\<close>

lemma bracket_string_hides_flow:
  "scanPHPTaintFlow (''<?php eval('' @ [CHR 0x27] @ '')'' @ [CHR 0x27] @ ''.$_GET[1]);'') = (False, [])"
  by code_simp

text \<open>PHP functions are found by name in any case, the sinks only in lower case.\<close>

lemma upper_case_sink_missed: "scanPHPTaintFlow ''<?php SYSTEM($_GET[1]);'' = (False, [])"
  by code_simp

end
