(* ===== verification/GC_Integrity.thy ===== *)
theory GC_Integrity
  imports GC_Host
begin

text \<open>
  \<^verbatim>\<open>detect/integrity\<close>: the inventories of set-id binaries and file capabilities, and the comparison of
  binaries with the package database. An inventory and its baseline are an instance of the locale
  \<open>inventory\<close>. MD5 is an argument, and so is the reader of the capability attribute.
\<close>

definition SrcInventory :: string where "SrcInventory = ''INVENTORY''"

definition RuleBinaryMD5Mismatch :: string where "RuleBinaryMD5Mismatch = ''LIB_HASH_MISMATCH''"
definition RuleSUIDAnomaly :: string where "RuleSUIDAnomaly = ''SUID_INVENTORY_DELTA''"
definition RuleSUIDUnpackaged :: string where "RuleSUIDUnpackaged = ''SUID_UNPACKAGED''"
definition RuleSUIDWritablePath :: string where "RuleSUIDWritablePath = ''SUID_IN_WRITABLE_PATH''"
definition RuleCapabilityAnomaly :: string where "RuleCapabilityAnomaly = ''FILE_CAPABILITY_DELTA''"

section \<open>The package database\<close>

definition dpkg_owner_line :: "string \<Rightarrow> string option" where
  "dpkg_owner_line l =
     (case IndexByte (TrimSpace l) (CHR '':'') of
        None \<Rightarrow> None
      | Some i \<Rightarrow> if i = 0 then None else Some (TrimSpace (take i (TrimSpace l))))"

definition dpkgOwningPackage :: "host \<Rightarrow> string \<Rightarrow> string option" where
  "dpkgOwningPackage H absPath =
     (case hs_run H [''dpkg-query'', ''-S'', absPath] of
        None \<Rightarrow> None
      | Some out \<Rightarrow> (case List.map_filter dpkg_owner_line (SplitByte (TrimSpace out) (CHR 0x0A)) of [] \<Rightarrow> None | p # _ \<Rightarrow> Some p))"

definition dpkgOwned :: "host \<Rightarrow> string \<Rightarrow> bool" where
  "dpkgOwned H path \<longleftrightarrow> dpkgOwningPackage H path \<noteq> None"

definition md5_line :: "string \<Rightarrow> string \<Rightarrow> string option" where
  "md5_line absPath line =
     (let parts = Fields (TrimSpace line);
          rel = TrimPrefix (TrimPrefix (parts ! 1) ''./'') ''/'';
          tgt = TrimPrefix (Clean absPath) ''/''
      in if length parts \<noteq> 2 then None
         else if rel = tgt \<or> rel = TrimPrefix tgt ''/'' \<or> ''/'' @ rel = absPath \<or> rel = TrimPrefix absPath ''/''
         then Some (parts ! 0) else None)"

definition md5FromDpkgInfo :: "host \<Rightarrow> string \<Rightarrow> string \<Rightarrow> string option" where
  "md5FromDpkgInfo H pkg absPath =
     (case hs_read H (PathJoin [''/var/lib/dpkg/info'', pkg @ ''.md5sums'']) of
        None \<Rightarrow> None
      | Some b \<Rightarrow> (case List.map_filter (md5_line absPath) (scan_lines b) of [] \<Rightarrow> None | d # _ \<Rightarrow> Some d))"

definition mismatch_event :: "(string \<Rightarrow> string) \<Rightarrow> time \<Rightarrow> Pack \<Rightarrow> string \<Rightarrow> string \<Rightarrow> string \<Rightarrow> string list \<Rightarrow> string \<Rightarrow> Event" where
  "mismatch_event h now pack agentVer ident path sigs evidence =
     (let conf = floored 85 pack RuleBinaryMD5Mismatch sigs
      in NormalizeDedup h (zero_Event\<lparr>
           ev_SchemaVersion := SchemaVersion, ev_AgentVersion := agentVer, ev_Timestamp := now,
           ev_RuleID := RuleBinaryMD5Mismatch, ev_RulePackVersion := pack_Version pack,
           ev_TechniqueIDs := [''T1036'', ''T1574.006''], ev_Tactic := ''defense-evasion'', ev_Confidence := conf,
           ev_Severity := SeverityFromConfidence conf False,
           ev_Entity := \<lparr>ent_Type = EntityFile, ent_ID = ident, ent_Path = path, ent_User = []\<rparr>,
           ev_Signals := sigs, ev_Evidence := evidence, ev_LearningOnly := False\<rparr>))"

definition resolved :: "host \<Rightarrow> string \<Rightarrow> string" where
  "resolved H p = (case hs_links H (Clean p) of None \<Rightarrow> Clean p | Some r \<Rightarrow> Clean r)"

text \<open>The package that owns a file, the digest the package lists for it, and the digest it has.\<close>

definition dpkg_digests :: "(string \<Rightarrow> string) \<Rightarrow> host \<Rightarrow> string \<Rightarrow> (string \<times> string \<times> string) option" where
  "dpkg_digests md5 H full =
     (case (hs_read H full, hs_stat H full) of
        (Some b, Some st) \<Rightarrow>
          if fi_IsDir st then None
          else
            (case dpkgOwningPackage H full of
               None \<Rightarrow> None
             | Some pkg \<Rightarrow>
                 if pkg = [] then None
                 else
                   (case md5FromDpkgInfo H pkg full of
                      None \<Rightarrow> None
                    | Some expected \<Rightarrow> if expected = [] then None else Some (pkg, expected, md5 b)))
      | _ \<Rightarrow> None)"

definition look_dpkg :: "(string \<Rightarrow> string) \<Rightarrow> (string \<Rightarrow> string) \<Rightarrow> time \<Rightarrow> Pack \<Rightarrow> string \<Rightarrow> host \<Rightarrow> string \<Rightarrow> Event option" where
  "look_dpkg h md5 now pack agentVer H p =
     (let full = resolved H p
      in case dpkg_digests md5 H full of
           None \<Rightarrow> None
         | Some (pkg, expected, digest) \<Rightarrow>
             if EqualFold digest expected then None
             else Some (mismatch_event h now pack agentVer digest full [''md5_mismatch_vs_dpkg'', ''package:'' @ pkg]
                    (''path='' @ full @ '' expected_md5='' @ expected @ '' actual_md5='' @ digest @ '' pkg='' @ pkg)))"

definition scanDpkg :: "(string \<Rightarrow> string) \<Rightarrow> (string \<Rightarrow> string) \<Rightarrow> time \<Rightarrow> Config \<Rightarrow> Pack \<Rightarrow> string \<Rightarrow> host \<Rightarrow> Event list" where
  "scanDpkg h md5 now cfg pack agentVer H = List.map_filter (look_dpkg h md5 now pack agentVer H) (cfg_IntegrityPaths cfg)"

definition look_rpm :: "(string \<Rightarrow> string) \<Rightarrow> time \<Rightarrow> Config \<Rightarrow> Pack \<Rightarrow> string \<Rightarrow> string \<Rightarrow> Event option" where
  "look_rpm h now cfg pack agentVer line =
     (let fields = Fields line; path = last fields; flags = hd fields
      in if length line < 12 \<or> length fields < 2 then None
         else if \<not> list_ex (\<lambda>c. c \<in> set ''5MUGT P'') flags then None
         else if cfg_IntegrityPaths cfg \<noteq> [] \<and> path \<notin> set (cfg_IntegrityPaths cfg) then None
         else Some (mismatch_event h now pack agentVer path path
                ([''rpm_va_mismatch'', ''flags:'' @ flags] @ (if Contains flags ''5'' then [''digest_mismatch''] else [])) line))"

definition scanRPM :: "(string \<Rightarrow> string) \<Rightarrow> time \<Rightarrow> Config \<Rightarrow> Pack \<Rightarrow> string \<Rightarrow> host \<Rightarrow> Event list" where
  "scanRPM h now cfg pack agentVer H =
     List.map_filter (look_rpm h now cfg pack agentVer) (scan_lines (hs_output H [''rpm'', ''--nosignature'', ''-Va'']))"

section \<open>Set-id binaries\<close>

definition suidScanDirs :: "string list" where
  "suidScanDirs = [''/bin'', ''/sbin'', ''/usr/bin'', ''/usr/sbin'', ''/usr/local/bin'', ''/usr/local/sbin'', ''/lib'', ''/usr/lib'',
     ''/lib64'', ''/usr/lib64'', ''/usr/libexec'', ''/opt'']"

text \<open>The entries below the directories of a list that exist.\<close>

definition walked_files :: "host \<Rightarrow> string list \<Rightarrow> string list" where
  "walked_files H dirs = concat (map (\<lambda>d. walkFiles H d []) dirs)"

definition hashFilePinned :: "(string \<Rightarrow> string) \<Rightarrow> host \<Rightarrow> string \<Rightarrow> string option" where
  "hashFilePinned h H path = map_option h (hs_read H path)"

definition suid_hash :: "(string \<Rightarrow> string) \<Rightarrow> host \<Rightarrow> string \<Rightarrow> string option" where
  "suid_hash h H path =
     (case hs_info H path of None \<Rightarrow> None | Some fi \<Rightarrow> if fi_SetUID fi \<or> fi_SetGID fi then hashFilePinned h H path else None)"

definition enumerateSUIDBinaries :: "(string \<Rightarrow> string) \<Rightarrow> host \<Rightarrow> (string, string) gomap" where
  "enumerateSUIDBinaries h H = record_all (suid_hash h H) (walked_files H suidScanDirs) []"

definition looksLikePackagedBinary :: "string \<Rightarrow> bool" where
  "looksLikePackagedBinary path \<longleftrightarrow>
     list_ex (HasPrefix path) [''/bin/'', ''/sbin/'', ''/usr/bin/'', ''/usr/sbin/'', ''/usr/libexec/'', ''/usr/lib/'', ''/lib/'']"

definition isWritablePathSUID :: "string \<Rightarrow> bool" where
  "isWritablePathSUID path \<longleftrightarrow> list_ex (HasPrefix path) [''/tmp/'', ''/var/tmp/'', ''/dev/shm/'', ''/home/'']"

definition suid_class :: "host \<Rightarrow> string \<Rightarrow> bool \<Rightarrow> string \<times> string list" where
  "suid_class H path known =
     (let writable = isWritablePathSUID path;
          unpackaged = (\<not> looksLikePackagedBinary path \<or> \<not> dpkgOwned H path);
          ruleID = (if writable then RuleSUIDWritablePath else if unpackaged then RuleSUIDUnpackaged else RuleSUIDAnomaly)
      in (ruleID, [''suid_binary_present'', if known then ''suid_binary_hash_changed'' else ''new_suid_binary''] @
            (if writable then [''suid_in_world_writable_path''] else []) @ (if unpackaged then [''suid_unpackaged''] else [])))"

definition suid_event :: "(string \<Rightarrow> string) \<Rightarrow> time \<Rightarrow> Config \<Rightarrow> Pack \<Rightarrow> string \<Rightarrow> host \<Rightarrow> Snapshot \<Rightarrow> bool \<Rightarrow> string \<times> string \<Rightarrow> Event" where
  "suid_event h now cfg pack agentVer H s known pd =
     (let (path, hash) = pd; (ruleID, sigs) = suid_class H path known;
          score = fst (Score pack ruleID sigs); conf = (if \<not> known \<and> score < 90 then 90 else score); learning = learning_for cfg s
      in NormalizeDedup h (zero_Event\<lparr>
           ev_SchemaVersion := SchemaVersion, ev_AgentVersion := agentVer, ev_Timestamp := now,
           ev_RuleID := ruleID, ev_RulePackVersion := pack_Version pack,
           ev_TechniqueIDs := [''T1548.001''], ev_Tactic := ''privilege-escalation'', ev_Confidence := conf,
           ev_Severity := SeverityFromConfidence conf learning,
           ev_Entity := \<lparr>ent_Type = EntityFile, ent_ID = hash, ent_Path = path, ent_User = []\<rparr>,
           ev_Signals := sigs, ev_Evidence := ''path='' @ path @ '' sha256='' @ hash,
           ev_LearningOnly := learning \<or> conf < cfg_MinConfidenceAlert cfg, ev_Src := SrcInventory, ev_Type := TypeDelta\<rparr>))"

definition suid_removed_event :: "(string \<Rightarrow> string) \<Rightarrow> time \<Rightarrow> Pack \<Rightarrow> string \<Rightarrow> string \<Rightarrow> Event" where
  "suid_removed_event h now pack agentVer path =
     NormalizeDedup h (zero_Event\<lparr>
       ev_SchemaVersion := SchemaVersion, ev_AgentVersion := agentVer, ev_Timestamp := now,
       ev_RuleID := RuleSUIDAnomaly, ev_RulePackVersion := pack_Version pack,
       ev_TechniqueIDs := [''T1548.001''], ev_Tactic := ''privilege-escalation'', ev_Confidence := 40, ev_Severity := SeverityInfo,
       ev_Entity := \<lparr>ent_Type = EntityFile, ent_ID = ''removed:'' @ path, ent_Path = path, ent_User = []\<rparr>,
       ev_Signals := [''suid_binary_removed''], ev_Evidence := ''SUID binary no longer present'', ev_LearningOnly := True\<rparr>)"

definition base_map :: "('k, 'v) gomap option \<Rightarrow> ('k, 'v) gomap" where
  "base_map m = (case m of None \<Rightarrow> [] | Some x \<Rightarrow> x)"

definition scanSUID :: "(string \<Rightarrow> string) \<Rightarrow> time \<Rightarrow> Config \<Rightarrow> Pack \<Rightarrow> string \<Rightarrow> host \<Rightarrow> Snapshot \<Rightarrow> Event list" where
  "scanSUID h now cfg pack agentVer H s =
     (let current = enumerateSUIDBinaries h H; base = base_map (sn_SUIDInventory s)
      in map (\<lambda>pd. suid_event h now cfg pack agentVer H s (map_of base (fst pd) \<noteq> None) pd)
           (filter (\<lambda>pd. map_of base (fst pd) \<noteq> Some (snd pd)) current) @
         (if IsCommitted s
          then map (suid_removed_event h now pack agentVer) (filter (\<lambda>p. map_of current p = None) (gkeys base)) else []))"

definition BuildBaselineSUID :: "(string \<Rightarrow> string) \<Rightarrow> host \<Rightarrow> Snapshot \<Rightarrow> Snapshot" where
  "BuildBaselineSUID h H s = s\<lparr>sn_SUIDInventory := Some (enumerateSUIDBinaries h H)\<rparr>"

section \<open>File capabilities\<close>

definition capsScanDirs :: "string list" where
  "capsScanDirs = [''/bin'', ''/sbin'', ''/usr/bin'', ''/usr/sbin'', ''/usr/local/bin'', ''/usr/local/sbin'']"

definition enumerateCapabilities :: "host \<Rightarrow> (string, string) gomap" where
  "enumerateCapabilities H =
     record_all (\<lambda>p. let c = hs_caps H p in if c = [] then None else Some c) (walked_files H capsScanDirs) []"

definition caps_event :: "(string \<Rightarrow> string) \<Rightarrow> time \<Rightarrow> Config \<Rightarrow> Pack \<Rightarrow> string \<Rightarrow> Snapshot \<Rightarrow> bool \<Rightarrow> string \<times> string \<Rightarrow> Event" where
  "caps_event h now cfg pack agentVer s known pc =
     (let (path, cap) = pc; sigs = [''file_capability_present'', if known then ''file_capability_changed'' else ''new_file_capability''];
          score = fst (Score pack RuleCapabilityAnomaly sigs); conf = (if \<not> known \<and> score < 85 then 85 else score);
          learning = learning_for cfg s
      in NormalizeDedup h (zero_Event\<lparr>
           ev_SchemaVersion := SchemaVersion, ev_AgentVersion := agentVer, ev_Timestamp := now,
           ev_RuleID := RuleCapabilityAnomaly, ev_RulePackVersion := pack_Version pack,
           ev_TechniqueIDs := [''T1548.001''], ev_Tactic := ''privilege-escalation'', ev_Confidence := conf,
           ev_Severity := SeverityFromConfidence conf learning,
           ev_Entity := \<lparr>ent_Type = EntityFile, ent_ID = cap, ent_Path = path, ent_User = []\<rparr>,
           ev_Signals := sigs, ev_Evidence := ''path='' @ path @ '' cap='' @ cap,
           ev_LearningOnly := learning \<or> conf < cfg_MinConfidenceAlert cfg\<rparr>))"

definition scanCapabilities :: "(string \<Rightarrow> string) \<Rightarrow> time \<Rightarrow> Config \<Rightarrow> Pack \<Rightarrow> string \<Rightarrow> host \<Rightarrow> Snapshot \<Rightarrow> Event list" where
  "scanCapabilities h now cfg pack agentVer H s =
     (let base = base_map (sn_FileCapabilities s)
      in map (\<lambda>pc. caps_event h now cfg pack agentVer s (map_of base (fst pc) \<noteq> None) pc)
           (filter (\<lambda>pc. map_of base (fst pc) \<noteq> Some (snd pc)) (enumerateCapabilities H)))"

definition BuildBaselineCapabilities :: "host \<Rightarrow> Snapshot \<Rightarrow> Snapshot" where
  "BuildBaselineCapabilities H s = s\<lparr>sn_FileCapabilities := Some (enumerateCapabilities H)\<rparr>"

section \<open>The scan\<close>

datatype distro = distroUnknown | distroDpkg | distroRpm

definition trim_quotes :: "string \<Rightarrow> string" where
  "trim_quotes s = rev (dropWhile (\<lambda>c. c = CHR 0x22) (rev (dropWhile (\<lambda>c. c = CHR 0x22) s)))"

text \<open>The backend one line of \<^verbatim>\<open>os-release\<close> names, if any.\<close>

definition distro_line :: "string \<Rightarrow> distro option" where
  "distro_line line =
     (if HasPrefix line ''ID='' \<or> HasPrefix line ''ID_LIKE=''
      then (let v = ToLower (trim_quotes (tl (dropWhile (\<lambda>c. c \<noteq> CHR ''='') line)))
            in if contains_any v [''debian'', ''ubuntu''] then Some distroDpkg
               else if contains_any v [''rhel'', ''centos'', ''fedora'', ''rocky'', ''suse'', ''amzn''] then Some distroRpm
               else None)
      else None)"

definition detectDistro :: "host \<Rightarrow> distro" where
  "detectDistro H =
     (if exists_on H ''/var/lib/dpkg/status'' then distroDpkg
      else if exists_on H ''/var/lib/rpm/Packages'' then distroRpm
      else if exists_on H ''/var/lib/rpm/rpmdb.sqlite'' then distroRpm
      else
        (case hs_read H ''/etc/os-release'' of
           None \<Rightarrow> distroUnknown
         | Some b \<Rightarrow> (case List.map_filter distro_line (scan_lines b) of [] \<Rightarrow> distroUnknown | d # _ \<Rightarrow> d)))"

definition integrity_Scan ::
  "(string \<Rightarrow> string) \<Rightarrow> (string \<Rightarrow> string) \<Rightarrow> time \<Rightarrow> Config \<Rightarrow> Pack \<Rightarrow> string \<Rightarrow> host \<Rightarrow> Snapshot \<Rightarrow> Event list" where
  "integrity_Scan h md5 now cfg pack agentVer H s =
     (if \<not> cfg_IntegrityVerifyEnabled cfg then []
      else (case detectDistro H of
              distroDpkg \<Rightarrow> scanDpkg h md5 now cfg pack agentVer H
            | distroRpm \<Rightarrow> scanRPM h now cfg pack agentVer H
            | distroUnknown \<Rightarrow> []) @
           scanSUID h now cfg pack agentVer H s @ scanCapabilities h now cfg pack agentVer H s)"

definition BuildBaselineIntegrity :: "(string \<Rightarrow> string) \<Rightarrow> host \<Rightarrow> Snapshot \<Rightarrow> Snapshot" where
  "BuildBaselineIntegrity h H s = BuildBaselineCapabilities H (BuildBaselineSUID h H s)"

section \<open>The contract of an inventory\<close>

text \<open>
  An inventory maps what it finds on the host to a value, and a scan compares it with the map of the
  baseline: it reports exactly the entries whose value the baseline does not hold.
\<close>

locale inventory =
  fixes current :: "host \<Rightarrow> (string, string) gomap"
    and base :: "Snapshot \<Rightarrow> (string, string) gomap"
    and scan :: "host \<Rightarrow> Snapshot \<Rightarrow> Event list"
    and commit :: "host \<Rightarrow> Snapshot \<Rightarrow> Snapshot"
    and gone :: "string \<Rightarrow> Event"
    and tracks_gone :: bool
  assumes one_entry: "distinct (gkeys (current H))"
    and reported: "e \<in> set (scan H s) \<Longrightarrow>
      (\<exists>p d. map_of (current H) p = Some d \<and> map_of (base s) p \<noteq> Some d \<and> ent_Path (ev_Entity e) = p \<and> ent_ID (ev_Entity e) = d) \<or>
      tracks_gone \<and> (\<exists>p \<in> set (gkeys (base s)). map_of (current H) p = None \<and> e = gone p)"
    and complete: "map_of (current H) p = Some d \<Longrightarrow> map_of (base s) p \<noteq> Some d \<Longrightarrow>
      \<exists>e \<in> set (scan H s). ent_Path (ev_Entity e) = p \<and> ent_ID (ev_Entity e) = d"
    and committed: "base (commit H s) = current H"
begin

lemma quiet: "scan H (commit H s) = []"
proof (rule ccontr)
  assume "scan H (commit H s) \<noteq> []"
  then obtain e where "e \<in> set (scan H (commit H s))" by (cases "scan H (commit H s)") auto
  from reported [OF this] show False by (auto simp: committed map_of_eq_None_iff)
qed

lemma detects:
  assumes "map_of (current H') p = Some d" "map_of (current H) p \<noteq> Some d"
  shows "\<exists>e \<in> set (scan H' (commit H s)). ent_Path (ev_Entity e) = p \<and> ent_ID (ev_Entity e) = d"
  by (rule complete [OF assms(1)]) (simp add: committed assms(2))

end

lemma distinct_record_all: "distinct (gkeys m) \<Longrightarrow> distinct (gkeys (record_all f ks m))"
  unfolding record_all_def by (induction ks arbitrary: m) (auto split: option.split)

text \<open>The entries of a map that the baseline does not hold, each passed to a builder.\<close>

lemma delta_iff:
  assumes "distinct (gkeys m)"
  shows "e \<in> set (map F (filter (\<lambda>pd. map_of b (fst pd) \<noteq> Some (snd pd)) m)) \<longleftrightarrow>
    (\<exists>p d. map_of m p = Some d \<and> map_of b p \<noteq> Some d \<and> e = F (p, d))"
  by (simp only: set_map set_filter image_def mem_Collect_eq map_of_eq_Some_iff [OF assms] Bex_def split_paired_Ex fst_conv snd_conv) blast

lemma suid_event_entity:
  "ev_Entity (suid_event h now cfg pack v H s known (p, d)) = \<lparr>ent_Type = EntityFile, ent_ID = d, ent_Path = p, ent_User = []\<rparr>"
  by (simp add: suid_event_def split_beta Let_def zero_Event_def)

lemma caps_event_entity:
  "ev_Entity (caps_event h now cfg pack v s known (p, d)) = \<lparr>ent_Type = EntityFile, ent_ID = d, ent_Path = p, ent_User = []\<rparr>"
  by (simp add: caps_event_def Let_def zero_Event_def)

lemma distinct_SUID: "distinct (gkeys (enumerateSUIDBinaries h H))"
  and distinct_Capabilities: "distinct (gkeys (enumerateCapabilities H))"
  unfolding enumerateSUIDBinaries_def enumerateCapabilities_def by (simp_all add: distinct_record_all)

interpretation suid: inventory "enumerateSUIDBinaries h" "\<lambda>s. base_map (sn_SUIDInventory s)" "scanSUID h now cfg pack agentVer"
    "BuildBaselineSUID h" "suid_removed_event h now pack agentVer" True
  for h now cfg pack agentVer
proof
  fix e H s assume "e \<in> set (scanSUID h now cfg pack agentVer H s)"
  then show "(\<exists>p d. map_of (enumerateSUIDBinaries h H) p = Some d \<and> map_of (base_map (sn_SUIDInventory s)) p \<noteq> Some d \<and>
        ent_Path (ev_Entity e) = p \<and> ent_ID (ev_Entity e) = d) \<or>
      True \<and> (\<exists>p \<in> set (gkeys (base_map (sn_SUIDInventory s))). map_of (enumerateSUIDBinaries h H) p = None \<and>
        e = suid_removed_event h now pack agentVer p)"
    unfolding scanSUID_def Let_def set_append Un_iff delta_iff [OF distinct_SUID]
    by (elim disjE exE conjE) (auto simp: suid_event_entity split: if_splits)
next
  fix p d H and s :: Snapshot assume "map_of (enumerateSUIDBinaries h H) p = Some d" "map_of (base_map (sn_SUIDInventory s)) p \<noteq> Some d"
  then have "suid_event h now cfg pack agentVer H s (map_of (base_map (sn_SUIDInventory s)) p \<noteq> None) (p, d)
      \<in> set (scanSUID h now cfg pack agentVer H s)"
    unfolding scanSUID_def Let_def set_append Un_iff delta_iff [OF distinct_SUID] by fastforce
  then show "\<exists>e \<in> set (scanSUID h now cfg pack agentVer H s). ent_Path (ev_Entity e) = p \<and> ent_ID (ev_Entity e) = d"
    by (rule bexI [rotated]) (simp add: suid_event_entity)
qed (simp_all add: distinct_SUID BuildBaselineSUID_def base_map_def)

interpretation caps: inventory enumerateCapabilities "\<lambda>s. base_map (sn_FileCapabilities s)" "scanCapabilities h now cfg pack agentVer"
    BuildBaselineCapabilities "\<lambda>p. zero_Event" False
  for h now cfg pack agentVer
proof
  fix e H s assume "e \<in> set (scanCapabilities h now cfg pack agentVer H s)"
  then show "(\<exists>p d. map_of (enumerateCapabilities H) p = Some d \<and> map_of (base_map (sn_FileCapabilities s)) p \<noteq> Some d \<and>
        ent_Path (ev_Entity e) = p \<and> ent_ID (ev_Entity e) = d) \<or>
      False \<and> (\<exists>p \<in> set (gkeys (base_map (sn_FileCapabilities s))). map_of (enumerateCapabilities H) p = None \<and> e = zero_Event)"
    unfolding scanCapabilities_def Let_def delta_iff [OF distinct_Capabilities] by (elim exE conjE) (auto simp: caps_event_entity)
next
  fix p d H and s :: Snapshot assume "map_of (enumerateCapabilities H) p = Some d" "map_of (base_map (sn_FileCapabilities s)) p \<noteq> Some d"
  then have "caps_event h now cfg pack agentVer s (map_of (base_map (sn_FileCapabilities s)) p \<noteq> None) (p, d)
      \<in> set (scanCapabilities h now cfg pack agentVer H s)"
    unfolding scanCapabilities_def Let_def delta_iff [OF distinct_Capabilities] by fastforce
  then show "\<exists>e \<in> set (scanCapabilities h now cfg pack agentVer H s). ent_Path (ev_Entity e) = p \<and> ent_ID (ev_Entity e) = d"
    by (rule bexI [rotated]) (simp add: caps_event_entity)
qed (simp_all add: distinct_Capabilities BuildBaselineCapabilities_def base_map_def)

section \<open>Contracts of the scan\<close>

definition integrity_rules :: "string list" where
  "integrity_rules = [RuleBinaryMD5Mismatch, RuleSUIDAnomaly, RuleSUIDUnpackaged, RuleSUIDWritablePath, RuleCapabilityAnomaly]"

lemma mismatch_event_ok:
  "sigs \<noteq> [] \<Longrightarrow> finding_ok h pack v integrity_rules (mismatch_event h now pack v i p sigs evi)"
  unfolding mismatch_event_def Let_def by (rule finding_okI) (simp_all add: zero_Event_def integrity_rules_def floored_le)

lemma suid_event_ok: "finding_ok h pack v integrity_rules (suid_event h now cfg pack v H s known pd)"
  unfolding suid_event_def split_beta Let_def
  by (rule finding_okI) (simp_all add: zero_Event_def integrity_rules_def suid_class_def Let_def Score_le_100)

lemma caps_event_ok: "finding_ok h pack v integrity_rules (caps_event h now cfg pack v s known pd)"
  unfolding caps_event_def split_beta Let_def
  by (rule finding_okI) (simp_all add: zero_Event_def integrity_rules_def Score_le_100)

lemma suid_removed_event_ok: "finding_ok h pack v integrity_rules (suid_removed_event h now pack v p)"
  unfolding suid_removed_event_def by (rule finding_okI) (simp_all add: zero_Event_def integrity_rules_def)

lemma look_dpkg_ok: "look_dpkg h md5 now pack v H p = Some e \<Longrightarrow> finding_ok h pack v integrity_rules e"
  by (auto simp: look_dpkg_def Let_def mismatch_event_ok split: option.splits if_splits)

lemma look_rpm_ok: "look_rpm h now cfg pack v l = Some e \<Longrightarrow> finding_ok h pack v integrity_rules e"
  by (auto simp: look_rpm_def Let_def mismatch_event_ok split: if_splits)

interpretation integrity: reporter h pack agentVer "\<lambda>(H, s). integrity_Scan h md5 now cfg pack agentVer H s" integrity_rules
  for h pack agentVer md5 now cfg
  by unfold_locales
    (auto simp: integrity_Scan_def scanDpkg_def scanRPM_def map_filter_Some scanSUID_def scanCapabilities_def Let_def suid_event_ok
      caps_event_ok suid_removed_event_ok dest: look_dpkg_ok look_rpm_ok split: if_splits distro.splits)

section \<open>Correctness\<close>

text \<open>
  C17. The inventories are exact: after a commit the scan of an unchanged host reports nothing, and the
  scan of any later state reports every set-id binary that is new or whose hash differs and every file
  whose capabilities are new or differ, with the path and the new value.
\<close>

theorem inventory_exact:
  assumes "cfg_IntegrityVerifyEnabled cfg"
  shows "scanSUID h now cfg pack agentVer H (BuildBaselineIntegrity h H s) = [] \<and>
    scanCapabilities h now cfg pack agentVer H (BuildBaselineIntegrity h H s) = [] \<and>
    (\<forall>p d. map_of (enumerateSUIDBinaries h H') p = Some d \<and> map_of (enumerateSUIDBinaries h H) p \<noteq> Some d \<or>
           map_of (enumerateCapabilities H') p = Some d \<and> map_of (enumerateCapabilities H) p \<noteq> Some d \<longrightarrow>
      (\<exists>e \<in> set (integrity_Scan h md5 now cfg pack agentVer H' (BuildBaselineIntegrity h H s)).
         ent_Path (ev_Entity e) = p \<and> ent_ID (ev_Entity e) = d))"
proof -
  let ?s = "BuildBaselineIntegrity h H s"
  have su: "BuildBaselineIntegrity h H s = BuildBaselineSUID h H (BuildBaselineCapabilities H s)"
    and ca: "BuildBaselineIntegrity h H s = BuildBaselineCapabilities H (BuildBaselineSUID h H s)"
    by (simp_all add: BuildBaselineIntegrity_def BuildBaselineSUID_def BuildBaselineCapabilities_def)
  have "\<exists>e \<in> set (integrity_Scan h md5 now cfg pack agentVer H' ?s). ent_Path (ev_Entity e) = p \<and> ent_ID (ev_Entity e) = d"
    if "map_of (enumerateSUIDBinaries h H') p = Some d \<and> map_of (enumerateSUIDBinaries h H) p \<noteq> Some d \<or>
        map_of (enumerateCapabilities H') p = Some d \<and> map_of (enumerateCapabilities H) p \<noteq> Some d" for p d
    using that suid.detects [of h H' p d H now cfg pack agentVer, folded su]
      caps.detects [of H' p d H h now cfg pack agentVer "BuildBaselineSUID h H s", folded ca] assms
    by (auto simp: integrity_Scan_def su)
  then show ?thesis using suid.quiet [where H = H] caps.quiet [where H = H] su ca by metis
qed

text \<open>A host with one set-id binary of the given content.\<close>

definition suid_host :: "string \<Rightarrow> host" where
  "suid_host b =
     (let dir = \<lparr>fi_IsDir = True, fi_Perm = 0, fi_SetUID = False, fi_SetGID = False, fi_UID = 0, fi_Size = 0, fi_ModTime = 0\<rparr>
      in \<lparr>hs_read = (\<lambda>p. Some b), hs_stat = (\<lambda>p. if p = ''/usr/bin'' then Some dir else None),
          hs_info = (\<lambda>p. Some (dir\<lparr>fi_IsDir := False, fi_SetUID := True\<rparr>)), hs_readdir = (\<lambda>d. None),
          hs_walk = (\<lambda>d. [(''/usr/bin'', True), (''/usr/bin/su'', False)]), hs_glob = (\<lambda>g. []), hs_links = (\<lambda>p. None),
          hs_run = (\<lambda>c. None), hs_output = (\<lambda>c. []), hs_caps = (\<lambda>p. []), hs_user = None\<rparr>)"

lemma suid_host_current: "map_of (enumerateSUIDBinaries (\<lambda>b. ''h'' @ b) (suid_host b)) ''/usr/bin/su'' = Some (CHR ''h'' # b)"
  by (simp add: enumerateSUIDBinaries_def map_of_record_all suid_hash_def hashFilePinned_def walked_files_def walkFiles_def
      suidScanDirs_def suid_host_def Let_def)

theorem inventory_exact_witness:
  "list_ex (\<lambda>e. ent_Path (ev_Entity e) = ''/usr/bin/su'' \<and> ent_ID (ev_Entity e) = ''htrojan'')
    (integrity_Scan (\<lambda>b. ''h'' @ b) (\<lambda>b. b) 9 (Default\<lparr>cfg_IntegrityVerifyEnabled := True\<rparr>) \<lparr>pack_Version = [], pack_Rules = []\<rparr> ''1''
      (suid_host ''trojan'') (BuildBaselineIntegrity (\<lambda>b. ''h'' @ b) (suid_host ''clean'') EmptySnapshot))"
  unfolding list_ex_iff
  by (rule inventory_exact [THEN conjunct2, THEN conjunct2, rule_format], simp, rule disjI1, simp only: suid_host_current) simp

section \<open>Deviations\<close>

text \<open>
  The rule for set-id binaries in world-writable directories cannot fire: no such directory is among
  those walked. A walk visits the root and what lies below it.
\<close>

lemma walked_below:
  assumes "\<And>root p d. (p, d) \<in> set (hs_walk H root) \<Longrightarrow> p = root \<or> HasPrefix p (root @ ''/'')" "p \<in> set (walked_files H dirs)"
  shows "\<exists>root \<in> set dirs. p = root \<or> HasPrefix p (root @ ''/'')"
  using assms by (fastforce simp: walked_files_def walkFiles_def split: option.splits if_splits)

lemma writable_rule_dead:
  assumes "\<And>root p d. (p, d) \<in> set (hs_walk H root) \<Longrightarrow> p = root \<or> HasPrefix p (root @ ''/'')"
    and "map_of (enumerateSUIDBinaries h H) p = Some d"
  shows "\<not> isWritablePathSUID p"
proof -
  have "p \<in> set (walked_files H suidScanDirs)"
    using assms(2) by (auto simp: enumerateSUIDBinaries_def map_of_record_all split: if_splits)
  from walked_below [OF assms(1) this] show ?thesis
    by (auto simp: suidScanDirs_def isWritablePathSUID_def HasPrefix_iff)
qed

end
