(* ===== verification/GC_FIM.thy ===== *)
theory GC_FIM
  imports GC_Cron
begin

text \<open>
  \<^verbatim>\<open>detect/fimextra\<close>: the table of watched paths and what each entry looks for, the comparison with the
  baseline and the four scans the table does not cover.
\<close>

unbundle bit_operations_syntax

record pathRule =
  pr_ruleID :: string
  pr_paths :: "string list"
  pr_match :: "host \<Rightarrow> string \<Rightarrow> string \<Rightarrow> bool"
  pr_signal :: string

section \<open>The match functions\<close>

definition match_any :: "host \<Rightarrow> string \<Rightarrow> string \<Rightarrow> bool" where
  "match_any H name full \<longleftrightarrow> True"

definition match_suffix :: "string \<Rightarrow> host \<Rightarrow> string \<Rightarrow> string \<Rightarrow> bool" where
  "match_suffix suf H name full \<longleftrightarrow> HasSuffix name suf"

definition match_content :: "string list \<Rightarrow> host \<Rightarrow> string \<Rightarrow> string \<Rightarrow> bool" where
  "match_content toks H name full \<longleftrightarrow> (case hs_read H full of None \<Rightarrow> False | Some b \<Rightarrow> contains_any b toks)"

definition match_hostkey :: "host \<Rightarrow> string \<Rightarrow> string \<Rightarrow> bool" where
  "match_hostkey H name full \<longleftrightarrow> HasPrefix name ''ssh_host_'' \<and> \<not> HasSuffix name ''.pub''"

definition match_dropin :: "host \<Rightarrow> string \<Rightarrow> string \<Rightarrow> bool" where
  "match_dropin H name full \<longleftrightarrow> Contains full ''.d/'' \<and> HasSuffix name ''.conf''"

definition executable :: "fileinfo \<Rightarrow> bool" where
  "executable st \<longleftrightarrow> fi_Perm st AND 0x49 \<noteq> 0"

definition match_executable :: "host \<Rightarrow> string \<Rightarrow> string \<Rightarrow> bool" where
  "match_executable H name full \<longleftrightarrow> (case hs_stat H full of None \<Rightarrow> False | Some st \<Rightarrow> executable st)"

definition match_empty :: "host \<Rightarrow> string \<Rightarrow> string \<Rightarrow> bool" where
  "match_empty H name full \<longleftrightarrow> (case hs_stat H full of None \<Rightarrow> False | Some st \<Rightarrow> fi_Size st = 0)"

section \<open>The table\<close>

definition path_rule :: "string \<Rightarrow> string list \<Rightarrow> string \<Rightarrow> (host \<Rightarrow> string \<Rightarrow> string \<Rightarrow> bool) \<Rightarrow> pathRule" where
  "path_rule r ps sg m = \<lparr>pr_ruleID = r, pr_paths = ps, pr_match = m, pr_signal = sg\<rparr>"

text \<open>The user units have no match function; the scan never asks for it.\<close>

definition ruleset :: "pathRule list" where
  "ruleset =
    [path_rule ''SSHD_DROPIN_NEW'' [''/etc/ssh/sshd_config.d''] ''sshd_dropin'' (match_suffix ''.conf''),
     path_rule ''SSH_RC_HOOK'' [''/etc/ssh/sshrc''] ''ssh_rc_hook'' match_any,
     path_rule ''SSH_SOCKET_OVERRIDE'' [''/etc/systemd/system/ssh.socket.d'', ''/etc/systemd/system/ssh.service.d''] ''ssh_socket_override''
       (match_suffix ''.conf''),
     path_rule ''SSH_HOSTKEY_CHANGE'' [''/etc/ssh''] ''ssh_hostkey_change'' match_hostkey,
     path_rule ''CRON_DROPIN_NEW''
       [''/etc/cron.d'', ''/etc/cron.hourly'', ''/etc/cron.daily'', ''/etc/cron.weekly'', ''/etc/cron.monthly'', ''/etc/crontab'']
       ''cron_dropin'' match_any,
     path_rule ''CRON_SPOOL_CHANGE'' [''/var/spool/cron/crontabs''] ''cron_spool'' match_any,
     path_rule ''AT_JOB_NEW'' [''/var/spool/cron/atjobs''] ''at_job'' match_any,
     path_rule ''SYSTEMD_GENERATOR_NEW'' [''/etc/systemd/system-generators'', ''/usr/lib/systemd/system-generators''] ''systemd_generator'' match_any,
     path_rule ''SYSTEMD_DROPIN_OVERRIDE'' [''/etc/systemd/system''] ''systemd_dropin'' match_dropin,
     path_rule ''SYSTEMD_USER_PERSISTENCE'' [] ''systemd_user'' match_any,
     path_rule ''PAM_CONFIG_PROFILE_NEW'' [''/usr/share/pam-configs''] ''pam_config_profile'' match_any,
     path_rule ''NSS_CONFIG_CHANGE'' [''/etc/nsswitch.conf''] ''nsswitch_change'' match_any,
     path_rule ''APT_HOOK_PERSISTENCE'' [''/etc/apt/apt.conf.d''] ''apt_hook'' (match_content [''Pre-Invoke'', ''Post-Invoke'']),
     path_rule ''MOTD_SCRIPT_NEW'' [''/etc/update-motd.d''] ''motd_script'' match_any,
     path_rule ''ENVIRONMENT_FILE_CHANGE'' [''/etc/environment'', ''/etc/default''] ''environment_file'' match_any,
     path_rule ''NETWORK_DISPATCHER_HOOK''
       [''/etc/networkd-dispatcher'', ''/etc/NetworkManager/dispatcher.d'', ''/etc/network/if-up.d''] ''network_dispatcher'' match_any,
     path_rule ''UDEV_RUN_RULE'' [''/etc/udev/rules.d''] ''udev_run'' (match_content [''RUN+='']),
     path_rule ''POLKIT_RULE_NEW'' [''/etc/polkit-1/rules.d''] ''polkit_rule'' (match_suffix ''.rules''),
     path_rule ''NEEDRESTART_HOOK'' [''/etc/needrestart/conf.d''] ''needrestart_hook'' match_any,
     path_rule ''RC_LOCAL_REVIVED'' [''/etc/rc.local''] ''rc_local'' match_executable,
     path_rule ''INITRAMFS_HOOK'' [''/etc/initramfs-tools/hooks'', ''/etc/initramfs-tools/scripts''] ''initramfs_hook'' match_any,
     path_rule ''GRUB_CMDLINE_CHANGE'' [''/etc/default/grub''] ''grub_cmdline'' (match_content [''init='', ''apparmor=0'', ''selinux=0'']),
     path_rule ''XDG_AUTOSTART_NEW'' [''/etc/xdg/autostart''] ''xdg_autostart'' (match_suffix ''.desktop''),
     path_rule ''APPARMOR_PROFILE_DISABLED'' [''/etc/apparmor.d/disable''] ''apparmor_disabled'' match_any,
     path_rule ''RSYSLOG_CONFIG_TAMPER'' [''/etc/rsyslog.conf'', ''/etc/rsyslog.d''] ''rsyslog_tamper'' match_any,
     path_rule ''LOG_TRUNCATE''
       [''/var/log/auth.log'', ''/var/log/syslog'', ''/var/log/wtmp'', ''/var/log/btmp'', ''/var/log/lastlog'', ''/var/log/dpkg.log'']
       ''log_truncate'' match_empty]"

section \<open>One path\<close>

text \<open>The content of a path; what exists but cannot be read counts as empty.\<close>

definition fim_data :: "host \<Rightarrow> string \<Rightarrow> string option" where
  "fim_data H path = (case hs_read H path of None \<Rightarrow> if exists_on H path then Some [] else None | Some b \<Rightarrow> Some b)"

definition fim_event ::
  "(string \<Rightarrow> string) \<Rightarrow> time \<Rightarrow> Config \<Rightarrow> Pack \<Rightarrow> string \<Rightarrow> bool \<Rightarrow> int \<Rightarrow> string \<Rightarrow> string \<Rightarrow> string \<Rightarrow> string list \<Rightarrow> string \<Rightarrow> Event" where
  "fim_event h now cfg pack agentVer learning fl ruleID hash path sigs evidence =
     (let conf = floored fl pack ruleID sigs
      in NormalizeDedup h (zero_Event\<lparr>
           ev_SchemaVersion := SchemaVersion, ev_AgentVersion := agentVer, ev_Timestamp := now,
           ev_RuleID := ruleID, ev_RulePackVersion := pack_Version pack,
           ev_Confidence := conf, ev_Severity := SeverityFromConfidence conf learning,
           ev_Entity := \<lparr>ent_Type = EntityFile, ent_ID = hash, ent_Path = path, ent_User = []\<rparr>,
           ev_Signals := sigs, ev_Evidence := evidence,
           ev_LearningOnly := learning \<or> conf < cfg_MinConfidenceAlert cfg, ev_Src := SrcFIM, ev_Type := TypeDelta\<rparr>))"

definition emitIfNew ::
  "(string \<Rightarrow> string) \<Rightarrow> time \<Rightarrow> Config \<Rightarrow> Pack \<Rightarrow> string \<Rightarrow> host \<Rightarrow> Snapshot \<Rightarrow> bool \<Rightarrow> string \<Rightarrow> string \<Rightarrow> string \<Rightarrow> Event option" where
  "emitIfNew h now cfg pack agentVer H s learning ruleID signal path =
     (case fim_data H path of
        None \<Rightarrow> None
      | Some b \<Rightarrow>
          if known_file s path = Some (h b) then None
          else Some (fim_event h now cfg pack agentVer learning 60 ruleID (h b) path [signal, ''path:'' @ path] path))"

section \<open>The scan\<close>

text \<open>The paths an entry of the table stands for on this host.\<close>

definition path_targets :: "host \<Rightarrow> pathRule \<Rightarrow> string \<Rightarrow> string list" where
  "path_targets H pr p =
     (case hs_stat H p of
        None \<Rightarrow> []
      | Some st \<Rightarrow>
          if \<not> fi_IsDir st then (if pr_match pr H (Base p) p then [p] else [])
          else
            (case hs_readdir H p of
               None \<Rightarrow> []
             | Some es \<Rightarrow> map (\<lambda>n. PathJoin [p, n]) (filter (\<lambda>n. pr_match pr H n (PathJoin [p, n])) (map fst es))))"

definition rule_targets :: "host \<Rightarrow> pathRule \<Rightarrow> string list" where
  "rule_targets H pr = concat (map (path_targets H pr) (pr_paths pr))"

definition user_unit_targets :: "host \<Rightarrow> string list" where
  "user_unit_targets H =
     concat (map (\<lambda>dir.
       case hs_readdir H dir of
         None \<Rightarrow> []
       | Some es \<Rightarrow> map (\<lambda>(n, _). PathJoin [dir, n]) (filter (\<lambda>(n, _). HasSuffix n ''.service'' \<or> HasSuffix n ''.timer'') es))
       (hs_glob H ''/home/*/.config/systemd/user'' @ [''/root/.config/systemd/user'']))"

definition runparts_targets :: "host \<Rightarrow> string list" where
  "runparts_targets H =
     concat (map (\<lambda>d.
       case hs_readdir H d of
         None \<Rightarrow> []
       | Some es \<Rightarrow>
           filter (\<lambda>full. match_executable H [] full)
             (map (\<lambda>(n, _). PathJoin [d, n]) (filter (\<lambda>(n, _). Contains n ''.'' \<or> HasSuffix n ''~'') es)))
       [''/etc/cron.hourly'', ''/etc/cron.daily'', ''/etc/cron.weekly'', ''/etc/cron.monthly''])"

definition forced_targets :: "host \<Rightarrow> string list" where
  "forced_targets H =
     filter (\<lambda>f. match_content [''ForceCommand'', ''AuthorizedKeysCommand''] H [] f)
       (''/etc/ssh/sshd_config'' # hs_glob H ''/etc/ssh/sshd_config.d/*.conf'')"

text \<open>The rule, signal and path of everything the scan compares by hash, in its order.\<close>

definition fim_watch :: "host \<Rightarrow> (string \<times> string \<times> string) list" where
  "fim_watch H =
     concat (map (\<lambda>pr.
       map (\<lambda>p. (pr_ruleID pr, pr_signal pr, p))
         (if pr_ruleID pr = ''SYSTEMD_USER_PERSISTENCE'' then user_unit_targets H else rule_targets H pr)) ruleset) @
     map (\<lambda>p. (''CRON_RUNPARTS_EVASION'', ''cron_runparts_evasion'', p)) (runparts_targets H) @
     map (\<lambda>p. (''SSHD_FORCED_COMMAND'', ''sshd_forced_command'', p)) (forced_targets H)"

definition priv_groups :: "string list" where
  "priv_groups = [''sudo'', ''admin'', ''lxd'', ''docker'', ''microk8s'', ''adm'', ''disk'', ''shadow'']"

definition group_hit :: "string \<Rightarrow> string option" where
  "group_hit line =
     (let parts = SplitByte line (CHR '':'')
      in if length parts < 4 \<or> parts ! 0 \<notin> set priv_groups \<or> TrimSpace (parts ! 3) = [] then None
         else Some (parts ! 0 @ ''='' @ parts ! 3))"

definition scanUserPrivGroups ::
  "(string \<Rightarrow> string) \<Rightarrow> time \<Rightarrow> Config \<Rightarrow> Pack \<Rightarrow> string \<Rightarrow> host \<Rightarrow> Snapshot \<Rightarrow> bool \<Rightarrow> Event list" where
  "scanUserPrivGroups h now cfg pack agentVer H s learning =
     (case hs_read H ''/etc/group'' of
        None \<Rightarrow> []
      | Some b \<Rightarrow>
          let hits = List.map_filter group_hit (SplitByte b (CHR 0x0A))
          in if known_file s ''/etc/group'' = Some (h b) \<or> hits = [] then []
             else [fim_event h now cfg pack agentVer learning 70 ''USER_PRIV_GROUP_ADD'' (h b) ''/etc/group''
                     [''user_priv_group'', ''groups:'' @ Join hits '',''] (Join hits ''; '')])"

definition fimextra_Scan ::
  "(string \<Rightarrow> string) \<Rightarrow> time \<Rightarrow> Config \<Rightarrow> Pack \<Rightarrow> string \<Rightarrow> host \<Rightarrow> Snapshot \<Rightarrow> Event list" where
  "fimextra_Scan h now cfg pack agentVer H s =
     List.map_filter (\<lambda>(r, sg, p). emitIfNew h now cfg pack agentVer H s (learning_for cfg s) r sg p) (fim_watch H) @
     scanUserPrivGroups h now cfg pack agentVer H s (learning_for cfg s)"

section \<open>What an entry watches\<close>

text \<open>
  An entry stands for a path it names that is not a directory, or for what lies directly in a
  directory it names, if its condition holds.
\<close>

definition names_path :: "host \<Rightarrow> string \<Rightarrow> string \<Rightarrow> string \<Rightarrow> bool" where
  "names_path H q name p \<longleftrightarrow>
     (case hs_stat H q of
        None \<Rightarrow> False
      | Some st \<Rightarrow>
          if fi_IsDir st
          then (case hs_readdir H q of None \<Rightarrow> False | Some es \<Rightarrow> name \<in> set (map fst es) \<and> p = PathJoin [q, name])
          else name = Base q \<and> p = q)"

lemma path_targets_iff: "p \<in> set (path_targets H pr q) \<longleftrightarrow> (\<exists>n. names_path H q n p \<and> pr_match pr H n p)"
proof (cases "hs_stat H q")
  case (Some st)
  then show ?thesis
    by (cases "fi_IsDir st"; cases "hs_readdir H q") (auto simp: path_targets_def names_path_def)
qed (simp add: path_targets_def names_path_def)

lemma rule_targets_iff: "p \<in> set (rule_targets H pr) \<longleftrightarrow> (\<exists>q \<in> set (pr_paths pr). \<exists>n. names_path H q n p \<and> pr_match pr H n p)"
  by (simp add: rule_targets_def path_targets_iff)

lemma emitIfNew_iff:
  "emitIfNew h now cfg pack v H s l r sg p = Some e \<longleftrightarrow>
     (\<exists>b. fim_data H p = Some b \<and> known_file s p \<noteq> Some (h b) \<and> e = fim_event h now cfg pack v l 60 r (h b) p [sg, ''path:'' @ p] p)"
  by (auto simp: emitIfNew_def split: option.split)

lemma fim_event_fields [simp]:
  "ev_RuleID (fim_event h now cfg pack v l fl r d p sigs evi) = r"
  "ev_Entity (fim_event h now cfg pack v l fl r d p sigs evi) = \<lparr>ent_Type = EntityFile, ent_ID = d, ent_Path = p, ent_User = []\<rparr>"
  "ev_Signals (fim_event h now cfg pack v l fl r d p sigs evi) = sigs"
  "ev_Confidence (fim_event h now cfg pack v l fl r d p sigs evi) = floored fl pack r sigs"
  "ev_LearningOnly (fim_event h now cfg pack v l fl r d p sigs evi) \<longleftrightarrow> l \<or> floored fl pack r sigs < cfg_MinConfidenceAlert cfg"
  by (simp_all add: fim_event_def Let_def zero_Event_def)

lemma fim_event_ok:
  "r \<in> set rs \<Longrightarrow> fl \<le> 100 \<Longrightarrow> sigs \<noteq> [] \<Longrightarrow> finding_ok h pack v rs (fim_event h now cfg pack v l fl r d p sigs evi)"
  unfolding fim_event_def Let_def by (rule finding_okI) (simp_all add: zero_Event_def floored_le)

definition fim_rules :: "string list" where
  "fim_rules = map pr_ruleID ruleset @ [''CRON_RUNPARTS_EVASION'', ''SSHD_FORCED_COMMAND'', ''USER_PRIV_GROUP_ADD'']"

lemma fim_watch_rules: "(r, sg, p) \<in> set (fim_watch H) \<Longrightarrow> r \<in> set fim_rules"
  by (auto simp: fim_watch_def fim_rules_def)

lemma scanUserPrivGroups_rule:
  "e \<in> set (scanUserPrivGroups h now cfg pack v H s l) \<Longrightarrow>
     ev_RuleID e = ''USER_PRIV_GROUP_ADD'' \<and> 70 \<le> ev_Confidence e \<and> finding_ok h pack v fim_rules e"
  by (auto simp: scanUserPrivGroups_def Let_def fim_rules_def floored_ge split: option.splits if_splits intro!: fim_event_ok)

interpretation fim: detector h pack agentVer "\<lambda>(H, s). fimextra_Scan h now cfg pack agentVer H s" fim_rules 60
proof
  fix e i assume e: "e \<in> set (case i of (H, s) \<Rightarrow> fimextra_Scan h now cfg pack agentVer H s)"
  obtain H s where i: "i = (H, s)" by (cases i)
  consider (watch) r sg p where "(r, sg, p) \<in> set (fim_watch H)"
      "emitIfNew h now cfg pack agentVer H s (learning_for cfg s) r sg p = Some e"
    | (groups) "e \<in> set (scanUserPrivGroups h now cfg pack agentVer H s (learning_for cfg s))"
    using e by (auto simp: i fimextra_Scan_def map_filter_Some)
  then show "finding_ok h pack agentVer fim_rules e" "60 \<le> ev_Confidence e"
    by (cases; force simp: emitIfNew_iff floored_ge dest: fim_watch_rules scanUserPrivGroups_rule intro!: fim_event_ok)+
qed

section \<open>Correctness\<close>

lemma ruleset_distinct: "distinct (map pr_ruleID ruleset)"
  by (simp add: ruleset_def path_rule_def)

lemma ruleset_unique: "pr \<in> set ruleset \<Longrightarrow> pr' \<in> set ruleset \<Longrightarrow> pr_ruleID pr = pr_ruleID pr' \<Longrightarrow> pr = pr'"
  using ruleset_distinct by (simp add: distinct_map inj_on_def)

lemma table_rules: "pr \<in> set ruleset \<Longrightarrow> pr_ruleID pr \<notin> {''CRON_RUNPARTS_EVASION'', ''SSHD_FORCED_COMMAND'', ''USER_PRIV_GROUP_ADD''}"
  by (simp add: ruleset_def path_rule_def) auto

lemma fim_watch_iff:
  "(r, sg, p) \<in> set (fim_watch H) \<longleftrightarrow>
     (\<exists>pr \<in> set ruleset. r = pr_ruleID pr \<and> sg = pr_signal pr \<and>
        p \<in> set (if pr_ruleID pr = ''SYSTEMD_USER_PERSISTENCE'' then user_unit_targets H else rule_targets H pr)) \<or>
     r = ''CRON_RUNPARTS_EVASION'' \<and> sg = ''cron_runparts_evasion'' \<and> p \<in> set (runparts_targets H) \<or>
     r = ''SSHD_FORCED_COMMAND'' \<and> sg = ''sshd_forced_command'' \<and> p \<in> set (forced_targets H)"
proof -
  define T where "T pr = (if pr_ruleID pr = ''SYSTEMD_USER_PERSISTENCE'' then user_unit_targets H else rule_targets H pr)" for pr
  have "(r, sg, p) \<in> set (concat (map (\<lambda>pr. map (\<lambda>p. (pr_ruleID pr, pr_signal pr, p)) (T pr)) ruleset)) \<longleftrightarrow>
      (\<exists>pr \<in> set ruleset. r = pr_ruleID pr \<and> sg = pr_signal pr \<and> p \<in> set (T pr))"
    by auto
  then show ?thesis unfolding fim_watch_def T_def [symmetric] by auto
qed

lemma fim_watch_table:
  assumes "pr \<in> set ruleset" "pr_ruleID pr \<noteq> ''SYSTEMD_USER_PERSISTENCE''"
  shows "(pr_ruleID pr, sg, p) \<in> set (fim_watch H) \<longleftrightarrow> sg = pr_signal pr \<and> p \<in> set (rule_targets H pr)"
proof -
  have "pr_ruleID pr \<noteq> ''CRON_RUNPARTS_EVASION''" "pr_ruleID pr \<noteq> ''SSHD_FORCED_COMMAND''"
    using table_rules [OF assms(1)] by simp_all
  moreover have "(\<exists>pr' \<in> set ruleset. pr_ruleID pr = pr_ruleID pr' \<and> Q pr') \<longleftrightarrow> Q pr" for Q
    using ruleset_unique [OF assms(1)] assms(1) by blast
  ultimately show ?thesis unfolding fim_watch_iff using assms(2) by simp
qed

text \<open>
  The table of watched paths means what it says: an entry reports a path exactly when the entry
  names the path, or the directory the path lies in, its condition holds, and the baseline does not
  hold the hash the path has now; the report carries that hash.
\<close>

theorem fim_table_exact:
  assumes "pr \<in> set ruleset" "pr_ruleID pr \<noteq> ''SYSTEMD_USER_PERSISTENCE''"
  shows "(\<exists>e \<in> set (fimextra_Scan h now cfg pack agentVer H s).
            ev_RuleID e = pr_ruleID pr \<and> ent_Path (ev_Entity e) = p \<and> ent_ID (ev_Entity e) = d) \<longleftrightarrow>
         (\<exists>q n b. q \<in> set (pr_paths pr) \<and> names_path H q n p \<and> pr_match pr H n p \<and>
            fim_data H p = Some b \<and> d = h b \<and> known_file s p \<noteq> Some d)"
proof -
  have "(\<exists>e \<in> set (fimextra_Scan h now cfg pack agentVer H s).
            ev_RuleID e = pr_ruleID pr \<and> ent_Path (ev_Entity e) = p \<and> ent_ID (ev_Entity e) = d) \<longleftrightarrow>
      (\<exists>sg b. (pr_ruleID pr, sg, p) \<in> set (fim_watch H) \<and> fim_data H p = Some b \<and> d = h b \<and> known_file s p \<noteq> Some d)"
    (is "?l \<longleftrightarrow> ?r")
  proof
    assume ?l
    then obtain e where e: "e \<in> set (fimextra_Scan h now cfg pack agentVer H s)" "ev_RuleID e = pr_ruleID pr"
        "ent_Path (ev_Entity e) = p" "ent_ID (ev_Entity e) = d" by blast
    have "ev_RuleID e \<noteq> ''USER_PRIV_GROUP_ADD''" using table_rules [OF assms(1)] e(2) by simp
    then obtain r sg q where "(r, sg, q) \<in> set (fim_watch H)"
        "emitIfNew h now cfg pack agentVer H s (learning_for cfg s) r sg q = Some e"
      using e(1) scanUserPrivGroups_rule by (auto simp: fimextra_Scan_def map_filter_Some)
    then show ?r using e by (auto simp: emitIfNew_iff)
  next
    assume ?r
    then show ?l by (force simp: fimextra_Scan_def map_filter_Some emitIfNew_iff)
  qed
  then show ?thesis using fim_watch_table [OF assms] by (simp add: rule_targets_iff) blast
qed

text \<open>A host where only the given files exist.\<close>

definition files_host :: "(string, string) gomap \<Rightarrow> host" where
  "files_host m =
     \<lparr>hs_read = map_of m,
      hs_stat = (\<lambda>p. map_option (\<lambda>b. \<lparr>fi_IsDir = False, fi_Perm = 0, fi_SetUID = False, fi_SetGID = False, fi_UID = 0, fi_Size = int (length b), fi_ModTime = 0\<rparr>) (map_of m p)),
      hs_info = (\<lambda>p. None), hs_readdir = (\<lambda>d. None), hs_walk = (\<lambda>d. []), hs_glob = (\<lambda>g. []), hs_links = (\<lambda>p. None),
      hs_run = (\<lambda>c. None), hs_output = (\<lambda>c. []), hs_caps = (\<lambda>p. []), hs_user = None\<rparr>"

theorem fim_table_exact_witness:
  "list_ex (\<lambda>e. ev_RuleID e = ''NSS_CONFIG_CHANGE'' \<and> ent_Path (ev_Entity e) = ''/etc/nsswitch.conf'' \<and> ent_ID (ev_Entity e) = ''hfiles'')
     (fimextra_Scan (\<lambda>b. ''h'' @ b) 9 Default no_rules ''1'' (files_host [(''/etc/nsswitch.conf'', ''files'')]) EmptySnapshot)"
proof -
  let ?pr = "path_rule ''NSS_CONFIG_CHANGE'' [''/etc/nsswitch.conf''] ''nsswitch_change'' match_any"
  let ?H = "files_host [(''/etc/nsswitch.conf'', ''files'')]"
  have pr: "?pr \<in> set ruleset" "pr_ruleID ?pr \<noteq> ''SYSTEMD_USER_PERSISTENCE''"
    by (simp_all add: ruleset_def path_rule_def)
  have "names_path ?H ''/etc/nsswitch.conf'' (Base ''/etc/nsswitch.conf'') ''/etc/nsswitch.conf''"
    "fim_data ?H ''/etc/nsswitch.conf'' = Some ''files''" "known_file EmptySnapshot ''/etc/nsswitch.conf'' = None"
    by (simp_all add: names_path_def files_host_def fim_data_def known_file_def EmptySnapshot_def)
  then show ?thesis
    using fim_table_exact [OF pr, where h = "\<lambda>b. ''h'' @ b" and now = "9" and cfg = Default and pack = no_rules and agentVer = "''1''" and H = ?H and s = EmptySnapshot and p = "''/etc/nsswitch.conf''" and d = "''hfiles''"]
    by (auto simp: list_ex_iff path_rule_def match_any_def)
qed

section \<open>Entries that do not do what they are for\<close>

text \<open>
  The drop-in entry lists one directory level and wants a directory in the path that ends in
  \<^verbatim>\<open>.d\<close> below it, which a listed name cannot have.
\<close>

lemma dropin_override_dead:
  assumes "hs_readdir H ''/etc/systemd/system'' = Some es" "n \<in> set (map fst es)" "CHR ''/'' \<notin> set n"
  shows "\<not> match_dropin H n (PathJoin [''/etc/systemd/system'', n])"
proof -
  have no: "\<not> Contains n ''.d/''" using assms(3) by (auto simp: Contains_iff)
  have "SplitByte (''/etc/systemd/system/'' @ n) (CHR ''/'') = [[], ''etc'', ''systemd'', ''system'', n]"
    using assms(3) by (simp add: SplitByte_none)
  then have "PathJoin [''/etc/systemd/system'', n] \<in>
      {''/etc/systemd/system'', ''/etc/systemd'', ''/etc/systemd/system/'' @ n}"
    by (auto simp: PathJoin_def Let_def Clean_def HasPrefix_iff)
  then show ?thesis using no by (auto simp: match_dropin_def HasPrefix_iff)
qed

text \<open>
  Committing the baseline does not record the paths of the table: on a host with nothing but a name
  service configuration, the scan right after the commit reports it, and so does every later scan.
\<close>

lemma commit_misses_table:
  fixes t :: time
  assumes "IsCommitted (commit_persistence h pk t H EmptySnapshot)" "H = files_host [(''/etc/nsswitch.conf'', ''files'')]"
    and "\<not> cfg_LearningMode cfg" "cfg_MinConfidenceAlert cfg \<le> 60"
  shows "\<exists>e \<in> set (fimextra_Scan h now cfg pack v H (commit_persistence h pk t H EmptySnapshot)).
    ev_RuleID e = ''NSS_CONFIG_CHANGE'' \<and> \<not> ev_LearningOnly e"
proof -
  let ?s = "commit_persistence h pk t H EmptySnapshot"
  let ?sigs = "[''nsswitch_change'', ''path:'' @ ''/etc/nsswitch.conf'']"
  let ?e = "fim_event h now cfg pack v (learning_for cfg ?s) 60 ''NSS_CONFIG_CHANGE'' (h ''files'') ''/etc/nsswitch.conf'' ?sigs ''/etc/nsswitch.conf''"
  have "''/etc/nsswitch.conf'' \<notin> set (recorded_files H)"
    unfolding recorded_files_def set_append Un_iff de_Morgan_disj
    by (intro conjI)
      (simp_all add: assms(2) files_host_def systemd_targets_def collectPAMTargets_def collectShellRCTargets_def collectSudoersTargets_def collectSSHDTargets_def userFiles_def
        collectModuleConfigTargets_def collectLDConfTargets_def systemdUnitDirs_def globalShellRC_def globalShellRCDirs_def pamModuleDirs_def
        sudoersTargets_def sshdFiles_def moduleConfigDirs_def moduleConfigFiles_def ldConfFiles_def walkFiles_def exists_on_def passwdUsers_def)
  then have "known_file ?s ''/etc/nsswitch.conf'' = None"
    using commit_known [of EmptySnapshot h pk t H "''/etc/nsswitch.conf''"] by (simp add: EmptySnapshot_def known_file_def)
  moreover have "fim_data H ''/etc/nsswitch.conf'' = Some ''files''" by (simp add: assms(2) files_host_def fim_data_def)
  moreover have "(''NSS_CONFIG_CHANGE'', ''nsswitch_change'', ''/etc/nsswitch.conf'') \<in> set (fim_watch H)"
    unfolding fim_watch_iff
    by (rule disjI1, rule bexI [of _ "path_rule ''NSS_CONFIG_CHANGE'' [''/etc/nsswitch.conf''] ''nsswitch_change'' match_any"])
      (simp_all add: rule_targets_def path_targets_def path_rule_def match_any_def assms(2) files_host_def ruleset_def)
  ultimately have "?e \<in> set (fimextra_Scan h now cfg pack v H ?s)"
    by (force simp: fimextra_Scan_def map_filter_Some emitIfNew_iff)
  moreover have "\<not> ev_LearningOnly ?e"
    using assms(1,3,4) floored_ge [of 60 pack "''NSS_CONFIG_CHANGE''" ?sigs] by (simp add: learning_for_def)
  ultimately show ?thesis by (intro bexI [of _ ?e]) simp_all
qed

end
