(* ===== verification/GC_Web.thy ===== *)
theory GC_Web
  imports GC_WebText GC_Integrity GC_Routes GC_FIM
begin

text \<open>
  \<^verbatim>\<open>detect/web\<close>: the web shell scan with its baseline, the scans for files in upload directories and for
  changed application files, and the scan of what web workers have started. Regular expressions are
  decided by \<open>rx\<close>, and \<open>fmt\<close> prints the entropy with two decimals. The live route for writes below a
  document root is in \<open>GC_Routes\<close>.
\<close>

definition RuleWebShell :: string where "RuleWebShell = ''WEB_SHELL_PATTERN''"
definition RuleAppFileTamper :: string where "RuleAppFileTamper = ''WEB_APP_FILE_TAMPER''"

definition smallWebshellBytes :: int where "smallWebshellBytes = 512"

definition shellChildPattern :: string where
  "shellChildPattern = rex ''(?i)/(ba)?sh$|perl|python[0-9.]*$|php$''"

section \<open>Web workers\<close>

definition findWebWorkerPIDs :: "procfs \<Rightarrow> Config \<Rightarrow> int list" where
  "findWebWorkerPIDs fs cfg =
     (case Processes fs of
        None \<Rightarrow> []
      | Some pids \<Rightarrow>
          remdups (filter (\<lambda>pid.
            IsWatchedUnit (ai_SystemdUnit (FromPID fs pid)) (cfg_WatchedUnits cfg) \<or>
            (case Comm fs pid of
               None \<Rightarrow> False
             | Some comm \<Rightarrow> ToLower (TrimSpace comm) \<in> set (map ToLower (cfg_TargetProcessNames cfg)))) pids))"

definition looks_like_shell :: "(string \<Rightarrow> string \<Rightarrow> bool) \<Rightarrow> procfs \<Rightarrow> int \<Rightarrow> bool" where
  "looks_like_shell rx fs c \<longleftrightarrow>
     ResolveExe fs c \<noteq> [] \<and> rx shellChildPattern (ResolveExe fs c) \<or>
     (case Cmdline fs c of Some (a # _) \<Rightarrow> rx shellChildPattern a | _ \<Rightarrow> False)"

text \<open>The first argument is the number of levels that are left.\<close>

fun walkChildrenForShell :: "(string \<Rightarrow> string \<Rightarrow> bool) \<Rightarrow> procfs \<Rightarrow> nat \<Rightarrow> int \<Rightarrow> bool" where
  "walkChildrenForShell rx fs 0 pid \<longleftrightarrow> False"
| "walkChildrenForShell rx fs (Suc n) pid \<longleftrightarrow>
     (case Children fs pid of
        None \<Rightarrow> False
      | Some kids \<Rightarrow> list_ex (\<lambda>c. looks_like_shell rx fs c \<or> walkChildrenForShell rx fs n c) kids)"

definition treeHasShellChild :: "(string \<Rightarrow> string \<Rightarrow> bool) \<Rightarrow> procfs \<Rightarrow> int \<Rightarrow> bool" where
  "treeHasShellChild rx fs pid = walkChildrenForShell rx fs 5 pid"

section \<open>The web shell scan\<close>

definition web_pathAllowlisted :: "string \<Rightarrow> string list \<Rightarrow> bool" where
  "web_pathAllowlisted path prefixes \<longleftrightarrow> list_ex (\<lambda>p. p \<noteq> [] \<and> HasPrefix path (Clean p)) prefixes"

definition baselineMetaMatches :: "fileinfo \<Rightarrow> WebFileRecord \<Rightarrow> bool" where
  "baselineMetaMatches st rec \<longleftrightarrow>
     wf_SHA256 rec \<noteq> [] \<and> fi_ModTime st div second = wf_Mtime rec div second \<and> \<not> (wf_Size rec > 0 \<and> fi_Size st \<noteq> wf_Size rec)"

definition ownerLooksLikeWebUser :: "nat \<Rightarrow> bool" where
  "ownerLooksLikeWebUser uid \<longleftrightarrow> uid = 33 \<or> uid = 48 \<or> uid = 99"

text \<open>What the content of a file shows.\<close>

record webFacts =
  wx_matched :: "string list"
  wx_exec :: bool
  wx_input :: bool
  wx_obfusc :: bool
  wx_packed :: bool
  wx_taint :: bool
  wx_sink :: string

definition web_facts :: "(string \<Rightarrow> string \<Rightarrow> bool) \<Rightarrow> string \<Rightarrow> string \<Rightarrow> webFacts" where
  "web_facts rx path b =
     (let matched = matchingPatterns rx b; (hasExec, hasInput, hasObfusc) = classifyPatternCategories matched;
          (phpTaint, phpSink) = (if list_ex (HasSuffix (ToLower path)) [''.php'', ''.phar'', ''.phtml''] then scanPHPTaintFlow b else (False, []))
      in \<lparr>wx_matched = matched, wx_exec = (hasExec \<or> phpTaint), wx_input = (hasInput \<or> phpTaint), wx_obfusc = hasObfusc,
          wx_packed = (shannonEntropy b \<ge> entropyThreshold), wx_taint = phpTaint, wx_sink = phpSink\<rparr>)"

definition web_signals :: "webFacts \<Rightarrow> fileinfo \<Rightarrow> bool \<Rightarrow> bool \<Rightarrow> bool \<Rightarrow> bool \<Rightarrow> string list" where
  "web_signals f st polyglot childSig newOrChanged isRecent =
     (if wx_matched f \<noteq> [] then [''suspicious_web_pattern:'' @ Join (wx_matched f) '',''] else []) @
     (if wx_exec f then [''exec_primitive''] else []) @
     (if wx_input f then [''input_channel''] else []) @
     (if wx_obfusc f then [''obfuscation_booster''] else []) @
     (if wx_taint f then [''php_taint_flow:'' @ wx_sink f] else []) @
     (if wx_packed f then [''high_entropy_content''] else []) @
     (if polyglot then [''polyglot_magic_mismatch''] else []) @
     (if fi_SetUID st then [''setuid_script_file''] else []) @
     (if fi_SetGID st then [''setgid_script_file''] else []) @
     (if fi_UID st \<noteq> 0 \<and> ownerLooksLikeWebUser (fi_UID st) then [''owned_by_web_user''] else []) @
     (if fi_Size st \<le> smallWebshellBytes \<and> wx_matched f \<noteq> [] then [''tiny_high_signal_file''] else []) @
     (if childSig then [''web_worker_shell_child''] else []) @
     (if newOrChanged then [''file_new_or_changed_vs_baseline''] else []) @
     (if isRecent then [''mtime_within_recent_window''] else [])"

definition line_matches :: "(string \<Rightarrow> string \<Rightarrow> bool) \<Rightarrow> string \<Rightarrow> bool" where
  "line_matches rx line \<longleftrightarrow> list_ex (\<lambda>p. rx (np_re p) line) webPatterns"

definition evidenceSnippet :: "(string \<Rightarrow> string \<Rightarrow> bool) \<Rightarrow> (real \<Rightarrow> string) \<Rightarrow> string \<Rightarrow> string list \<Rightarrow> real \<Rightarrow> string" where
  "evidenceSnippet rx fmt content matched entropy =
     (case filter (\<lambda>(i, line). line_matches rx line) (List.enumerate 1 (SplitByte content (CHR 0x0A))) of
        (i, line) # _ \<Rightarrow>
          ''line:'' @ Itoa (int i) @ '' '' @ truncate_to (TrimSpace line) 200 @ '' rules:'' @ Join matched '','' @ '' entropy:'' @ fmt entropy
      | [] \<Rightarrow> if matched \<noteq> [] then ''matched:'' @ Join matched '','' @ '' entropy:'' @ fmt entropy else ''entropy:'' @ fmt entropy)"

text \<open>\<^verbatim>\<open>bhvCombo\<close> of the code, and whether the file is reported with its full score.\<close>

definition web_combo :: "webFacts \<Rightarrow> bool" where
  "web_combo f \<longleftrightarrow> wx_exec f \<and> wx_input f \<or> wx_taint f"

definition web_silent :: "webFacts \<Rightarrow> bool \<Rightarrow> string list \<Rightarrow> bool" where
  "web_silent f polyglot sigs \<longleftrightarrow>
     sigs = [] \<or>
     \<not> web_combo f \<and> \<not> polyglot \<and> (\<not> wx_exec f \<or> \<not> wx_input f) \<and> (wx_obfusc f \<or> wx_packed f) \<or>
     wx_matched f = [] \<and> \<not> polyglot \<and> \<not> wx_packed f \<and> \<not> wx_taint f"

definition web_event ::
  "time \<Rightarrow> Config \<Rightarrow> Pack \<Rightarrow> string \<Rightarrow> bool \<Rightarrow> bool \<Rightarrow> bool \<Rightarrow> string \<Rightarrow> string \<Rightarrow> string list \<Rightarrow> string \<Rightarrow> Event" where
  "web_event now cfg pack agentVer learning high childSig hash path sigs evidence =
     (let score = fst (Score pack RuleWebShell sigs); conf = (if high then score else min score 50)
      in zero_Event\<lparr>
           ev_SchemaVersion := SchemaVersion, ev_AgentVersion := agentVer, ev_Timestamp := now,
           ev_RuleID := RuleWebShell, ev_RulePackVersion := pack_Version pack,
           ev_TechniqueIDs := ''T1505.003'' # (if childSig then [''T1059.004''] else []), ev_Tactic := ''persistence'',
           ev_Confidence := conf, ev_Severity := (if high then SeverityFromConfidence conf learning else SeverityInfo),
           ev_Entity := \<lparr>ent_Type = EntityFile, ent_ID = hash, ent_Path = path, ent_User = []\<rparr>,
           ev_Signals := sigs, ev_Evidence := evidence,
           ev_LearningOnly := \<not> high \<or> learning \<or> conf < cfg_MinConfidenceAlert cfg\<rparr>)"

definition file_recent :: "time \<Rightarrow> Config \<Rightarrow> fileinfo \<Rightarrow> bool" where
  "file_recent now cfg st \<longleftrightarrow> time_sub now (fi_ModTime st) \<le> wrap64 (cfg_WebRecentDays cfg * (24 * 60 * minute))"

definition web_new :: "Snapshot \<Rightarrow> string \<Rightarrow> string \<Rightarrow> bool" where
  "web_new s path hash \<longleftrightarrow> (case map_of (base_map (sn_WebFiles s)) path of None \<Rightarrow> True | Some rec \<Rightarrow> wf_SHA256 rec \<noteq> hash)"

definition evaluateWebFile ::
  "(string \<Rightarrow> string) \<Rightarrow> (string \<Rightarrow> string \<Rightarrow> bool) \<Rightarrow> (real \<Rightarrow> string) \<Rightarrow> time \<Rightarrow> Config \<Rightarrow> Pack \<Rightarrow> string \<Rightarrow> Snapshot \<Rightarrow> bool \<Rightarrow> bool \<Rightarrow> bool \<Rightarrow>
   string \<Rightarrow> string \<Rightarrow> fileinfo \<Rightarrow> Event option" where
  "evaluateWebFile h rx fmt now cfg pack agentVer s childSig learning polyglot path b st =
     (let f = web_facts rx path b; newOrChanged = web_new s path (h b); isRecent = file_recent now cfg st;
          sigs = web_signals f st polyglot childSig newOrChanged isRecent;
          high = (web_combo f \<and> (childSig \<or> newOrChanged \<or> polyglot \<or> \<not> IsCommitted s \<and> isRecent))
      in if web_silent f polyglot sigs then None
         else Some (web_event now cfg pack agentVer learning high childSig (h b) path
                (sigs @ (if childSig then [''correlated_T1059''] else []))
                (evidenceSnippet rx fmt b (wx_matched f) (shannonEntropy b))))"

definition look_web ::
  "(string \<Rightarrow> string) \<Rightarrow> (string \<Rightarrow> string \<Rightarrow> bool) \<Rightarrow> (real \<Rightarrow> string) \<Rightarrow> time \<Rightarrow> Config \<Rightarrow> Pack \<Rightarrow> string \<Rightarrow> host \<Rightarrow> Snapshot \<Rightarrow> bool \<Rightarrow>
   string \<times> bool \<Rightarrow> Event option" where
  "look_web h rx fmt now cfg pack agentVer H s childSig entry =
     (let (path, isdir) = entry; suspicious = hasSuspiciousExtension path
      in if isdir \<or> web_pathAllowlisted path (cfg_PathAllowlist cfg) then None
         else
           (case hs_info H path of
              None \<Rightarrow> None
            | Some st \<Rightarrow>
                if \<not> suspicious \<and> fi_Size st > 2 ^ 20 then None
                else if (case map_of (base_map (sn_WebFiles s)) path of None \<Rightarrow> False | Some rec \<Rightarrow> baselineMetaMatches st rec) then None
                else
                  (case hs_read H path of
                     None \<Rightarrow> None
                   | Some b \<Rightarrow>
                       (let polyglot = magicByteMismatch path b
                        in if \<not> suspicious \<and> \<not> polyglot then None
                           else evaluateWebFile h rx fmt now cfg pack agentVer s childSig (learning_for cfg s) polyglot path b st))))"

definition web_entries :: "host \<Rightarrow> Config \<Rightarrow> (string \<times> bool) list" where
  "web_entries H cfg = concat (map (\<lambda>r. hs_walk H (Clean r)) (cfg_DocumentRoots cfg))"

definition web_Scan ::
  "(string \<Rightarrow> string) \<Rightarrow> (string \<Rightarrow> string \<Rightarrow> bool) \<Rightarrow> (real \<Rightarrow> string) \<Rightarrow> procfs \<Rightarrow> time \<Rightarrow> Config \<Rightarrow> Pack \<Rightarrow> string \<Rightarrow> host \<Rightarrow> Snapshot \<Rightarrow> Event list" where
  "web_Scan h rx fmt fs now cfg pack agentVer H s =
     (let childSig = list_ex (treeHasShellChild rx fs) (findWebWorkerPIDs fs cfg)
      in List.map_filter (look_web h rx fmt now cfg pack agentVer H s childSig) (web_entries H cfg))"

section \<open>The baseline of web files\<close>

definition web_record :: "(string \<Rightarrow> string) \<Rightarrow> Config \<Rightarrow> host \<Rightarrow> string \<Rightarrow> WebFileRecord option" where
  "web_record h cfg H path =
     (if \<not> hasSuspiciousExtension path \<or> web_pathAllowlisted path (cfg_PathAllowlist cfg) then None
      else
        (case (hs_info H path, hs_read H path) of
           (Some st, Some b) \<Rightarrow> Some \<lparr>wf_SHA256 = h b, wf_Mtime = fi_ModTime st, wf_Size = fi_Size st\<rparr>
         | _ \<Rightarrow> None))"

definition BuildBaselineWebFiles :: "(string \<Rightarrow> string) \<Rightarrow> Config \<Rightarrow> host \<Rightarrow> Snapshot \<Rightarrow> Snapshot" where
  "BuildBaselineWebFiles h cfg H s =
     s\<lparr>sn_WebFiles := Some (record_all (web_record h cfg H) (map fst (filter (\<lambda>(p, isdir). \<not> isdir) (web_entries H cfg))) (base_map (sn_WebFiles s)))\<rparr>"

section \<open>Upload directories and application files\<close>

definition docroot_event ::
  "(string \<Rightarrow> string) \<Rightarrow> time \<Rightarrow> Config \<Rightarrow> Pack \<Rightarrow> string \<Rightarrow> bool \<Rightarrow> int \<Rightarrow> string \<Rightarrow> string \<Rightarrow> string \<Rightarrow> string \<Rightarrow> string \<Rightarrow> string \<Rightarrow> string \<Rightarrow> Event" where
  "docroot_event h now cfg pack agentVer learning fl ruleID signal path ident evidence src band =
     (let sigs = [signal, ''path:'' @ path]; conf = floored fl pack ruleID sigs
      in NormalizeDedup h (zero_Event\<lparr>
           ev_SchemaVersion := SchemaVersion, ev_AgentVersion := agentVer, ev_Timestamp := now,
           ev_RuleID := ruleID, ev_RulePackVersion := pack_Version pack,
           ev_Confidence := conf, ev_Severity := SeverityFromConfidence conf learning,
           ev_Entity := \<lparr>ent_Type = EntityFile, ent_ID = ident, ent_Path = path, ent_User = []\<rparr>,
           ev_Signals := sigs, ev_Evidence := evidence,
           ev_LearningOnly := learning \<or> conf < cfg_MinConfidenceAlert cfg, ev_Src := src, ev_Type := TypeDelta, ev_ConfBand := band\<rparr>))"

definition look_upload ::
  "(string \<Rightarrow> string) \<Rightarrow> time \<Rightarrow> Config \<Rightarrow> Pack \<Rightarrow> string \<Rightarrow> host \<Rightarrow> Snapshot \<Rightarrow> string \<times> bool \<Rightarrow> Event option" where
  "look_upload h now cfg pack agentVer H s entry =
     (let (path, isdir) = entry
      in case hs_info H path of
           None \<Rightarrow> None
         | Some st \<Rightarrow>
             if isdir \<or> ToLower (Ext path) \<notin> set interpretableExt \<or> \<not> inUploadDir path \<or>
               (case map_of (base_map (sn_WebFiles s)) path of
                  None \<Rightarrow> False
                | Some rec \<Rightarrow> baselineMetaMatches st rec \<or> fileSHA h H path \<noteq> [] \<and> wf_SHA256 rec = fileSHA h H path)
             then None
             else Some (docroot_event h now cfg pack agentVer (learning_for cfg s) 80 RuleUploadDirExec ''web_upload_dir_exec''
                    path path path SrcFIM ConfHigh))"

definition ScanUploadDirs ::
  "(string \<Rightarrow> string) \<Rightarrow> time \<Rightarrow> Config \<Rightarrow> Pack \<Rightarrow> string \<Rightarrow> host \<Rightarrow> Snapshot \<Rightarrow> Event list" where
  "ScanUploadDirs h now cfg pack agentVer H s =
     List.map_filter (look_upload h now cfg pack agentVer H s) (concat (map (hs_walk H) (cfg_DocumentRoots cfg)))"

definition look_tamper ::
  "(string \<Rightarrow> string) \<Rightarrow> time \<Rightarrow> Config \<Rightarrow> Pack \<Rightarrow> string \<Rightarrow> host \<Rightarrow> string \<times> WebFileRecord \<Rightarrow> Event option" where
  "look_tamper h now cfg pack agentVer H entry =
     (let (path, rec) = entry; d = fileSHA h H path
      in case hs_stat H path of
           None \<Rightarrow> None
         | Some st \<Rightarrow>
             if baselineMetaMatches st rec \<or> d = [] \<or> d = wf_SHA256 rec then None
             else Some (docroot_event h now cfg pack agentVer (cfg_LearningMode cfg) 60 RuleAppFileTamper ''web_app_file_tamper''
                    path d ''hash changed vs baseline'' SrcInventory ConfMedium))"

definition ScanAppTamper ::
  "(string \<Rightarrow> string) \<Rightarrow> time \<Rightarrow> Config \<Rightarrow> Pack \<Rightarrow> string \<Rightarrow> host \<Rightarrow> Snapshot \<Rightarrow> Event list" where
  "ScanAppTamper h now cfg pack agentVer H s =
     (if \<not> IsCommitted s then [] else List.map_filter (look_tamper h now cfg pack agentVer H) (base_map (sn_WebFiles s)))"

section \<open>Children of web workers\<close>

definition RuleWebReconChild :: string where "RuleWebReconChild = ''WEB_WORKER_RECON_CHILD''"
definition RuleWebShellChild :: string where "RuleWebShellChild = ''WEB_WORKER_SHELL_CHILD''"
definition RuleWebInterpChild :: string where "RuleWebInterpChild = ''WEB_WORKER_INTERP_CHILD''"
definition RuleWebDownloaderChild :: string where "RuleWebDownloaderChild = ''WEB_WORKER_DOWNLOADER_CHILD''"
definition RuleProcPtySpawn :: string where "RuleProcPtySpawn = ''PROC_PTY_SPAWN''"

definition reconArgvPatterns :: "string list" where
  "reconArgvPatterns =
    [rex ''(?i)~bwhoami~b'',
     rex ''(?i)~bifconfig~b'',
     rex ''(?i)~buname(~s+|$)'',
     rex ''(?i)~bid(~s+|$)'',
     rex ''(?i)~bhostname(~s+|$)'',
     rex ''(?i)~bnetstat~b'',
     rex ''(?i)~biptables~b'',
     rex ''(?i)~bip~s+addr~b'',
     rex ''(?i)~bss(~s+|$)'',
     rex ''(?i)~bps(~s+|$)'',
     rex ''(?i)~bfind(~s+|$)'',
     rex ''(?i)~bcat~s+/etc/passwd'']"

definition interpFlag :: string where
  "interpFlag = rex ''(?i)~b(python[0-9.]*|perl|php|ruby|node|nodejs)~b.*~s(-c|-e|-r)~b''"

definition ptySpawn :: string where
  "ptySpawn = rex ''(?i)(pty~.spawn|openpty|script~s+-qc|python.*pty)''"

definition shellBasenames :: "string list" where
  "shellBasenames = [''sh'', ''bash'', ''dash'', ''zsh'', ''ksh'']"

definition downloaderBasenames :: "string list" where
  "downloaderBasenames = [''curl'', ''wget'', ''nc'', ''ncat'', ''netcat'', ''socat'', ''ftp'', ''tftp'', ''busybox'']"

definition child_base :: "string \<Rightarrow> string \<Rightarrow> string" where
  "child_base exe line =
     (let base = ToLower (Base exe)
      in if base = [] then (case Fields line of [] \<Rightarrow> base | w # _ \<Rightarrow> ToLower (Base w)) else base)"

definition classifyWebChild :: "(string \<Rightarrow> string \<Rightarrow> bool) \<Rightarrow> string \<Rightarrow> string \<Rightarrow> (string \<times> string) option" where
  "classifyWebChild rx exe line =
     (let base = child_base exe line
      in if rx ptySpawn line then Some (RuleProcPtySpawn, ''web_worker_pty_spawn'')
         else if base \<in> set shellBasenames then Some (RuleWebShellChild, ''web_worker_shell_child'')
         else if rx interpFlag line then Some (RuleWebInterpChild, ''web_worker_interp_child'')
         else if base \<in> set downloaderBasenames \<and> \<not> (base = ''busybox'' \<and> \<not> Contains (ToLower line) ''wget'')
           then Some (RuleWebDownloaderChild, ''web_worker_downloader_child'')
         else if list_ex (\<lambda>re. rx re line) reconArgvPatterns then Some (RuleWebReconChild, ''web_worker_recon_child'')
         else None)"

text \<open>The calls of the callback, in order: a child comes before what it started.\<close>

fun walkWorkerChildren :: "procfs \<Rightarrow> nat \<Rightarrow> int \<Rightarrow> (int \<times> string \<times> string) list" where
  "walkWorkerChildren fs 0 pid = []"
| "walkWorkerChildren fs (Suc n) pid =
     (case Children fs pid of
        None \<Rightarrow> []
      | Some kids \<Rightarrow>
          concat (map (\<lambda>c. (c, ResolveExe fs c, Join (case Cmdline fs c of None \<Rightarrow> [] | Some argv \<Rightarrow> argv) '' '') #
                           walkWorkerChildren fs n c) kids))"

definition recon_event ::
  "(string \<Rightarrow> string) \<Rightarrow> procfs \<Rightarrow> time \<Rightarrow> Config \<Rightarrow> Pack \<Rightarrow> string \<Rightarrow> bool \<Rightarrow> int \<Rightarrow> string \<times> string \<Rightarrow> int \<times> string \<times> string \<Rightarrow> Event" where
  "recon_event h fs now cfg pack agentVer learning wpid class child =
     (let (ruleID, sig) = class; (childPID, exe, line) = child; ainfo = FromPID fs wpid;
          sigs = [sig, ''parent_worker_pid:'' @ Itoa wpid] @
            (if ai_SystemdUnit ainfo \<noteq> [] then [''parent_unit:'' @ ai_SystemdUnit ainfo] else []) @
            (if exe \<noteq> [] then [''child_exe:'' @ exe] else []);
          conf = floored 70 pack ruleID sigs
      in NormalizeDedup h (zero_Event\<lparr>
           ev_SchemaVersion := SchemaVersion, ev_AgentVersion := agentVer, ev_Timestamp := now,
           ev_RuleID := ruleID, ev_RulePackVersion := pack_Version pack,
           ev_TechniqueIDs := [''T1059.004'', ''T1505.003''], ev_Tactic := ''execution'',
           ev_Confidence := conf, ev_Severity := SeverityFromConfidence conf learning,
           ev_Entity := \<lparr>ent_Type = EntityProcess, ent_ID = Itoa childPID, ent_Path = exe, ent_User = []\<rparr>,
           ev_Signals := sigs, ev_Evidence := truncate_to line 400,
           ev_LearningOnly := learning \<or> conf < cfg_MinConfidenceAlert cfg, ev_Src := SrcProcScan, ev_Type := TypeEvent,
           ev_Anchor := ai_Anchor ainfo, ev_ConfBand := ConfHigh\<rparr>))"

text \<open>The callback over all children of all workers, with the keys it has seen.\<close>

fun recon_walk ::
  "(string \<Rightarrow> string) \<Rightarrow> (string \<Rightarrow> string \<Rightarrow> bool) \<Rightarrow> procfs \<Rightarrow> time \<Rightarrow> Config \<Rightarrow> Pack \<Rightarrow> string \<Rightarrow> bool \<Rightarrow> string list \<Rightarrow>
   (int \<times> int \<times> string \<times> string) list \<Rightarrow> Event list" where
  "recon_walk h rx fs now cfg pack agentVer learning keys [] = []"
| "recon_walk h rx fs now cfg pack agentVer learning keys ((wpid, c, exe, line) # rest) =
     (case classifyWebChild rx exe line of
        None \<Rightarrow> recon_walk h rx fs now cfg pack agentVer learning keys rest
      | Some (ruleID, sig) \<Rightarrow>
          (let key = ruleID @ '':'' @ Itoa c
           in if key \<in> set keys then recon_walk h rx fs now cfg pack agentVer learning keys rest
              else recon_event h fs now cfg pack agentVer learning wpid (ruleID, sig) (c, exe, line) #
                   recon_walk h rx fs now cfg pack agentVer learning (key # keys) rest))"

definition worker_children :: "procfs \<Rightarrow> Config \<Rightarrow> (int \<times> int \<times> string \<times> string) list" where
  "worker_children fs cfg = concat (map (\<lambda>w. map (Pair w) (walkWorkerChildren fs 6 w)) (findWebWorkerPIDs fs cfg))"

definition ScanReconChildren ::
  "(string \<Rightarrow> string) \<Rightarrow> (string \<Rightarrow> string \<Rightarrow> bool) \<Rightarrow> procfs \<Rightarrow> time \<Rightarrow> Config \<Rightarrow> Pack \<Rightarrow> string \<Rightarrow> Snapshot \<Rightarrow> Event list" where
  "ScanReconChildren h rx fs now cfg pack agentVer s =
     (if \<not> cfg_WebReconChildScanEnabled cfg then []
      else recon_walk h rx fs now cfg pack agentVer (learning_for cfg s) [] (worker_children fs cfg))"

section \<open>Shape of the findings\<close>

lemma Itoa_inj [simp]: "Itoa i = Itoa j \<longleftrightarrow> i = j"
proof
  have "\<not> is_digit (CHR ''-'')" by (simp add: is_digit_def)
  then have sign: "nat_digits n \<noteq> CHR ''-'' # r" for n r using hd_nat_digits_digit [of n] by auto
  have inj: "nat_digits m = nat_digits n \<Longrightarrow> m = n" for m n by (metis digits_val_nat_digits)
  assume "Itoa i = Itoa j"
  then show "i = j"
    using sign inj [of "nat (- i)" "nat (- j)"] inj [of "nat i" "nat j"] by (auto simp: Itoa_def dest: sym split: if_splits)
qed simp

definition web_rules :: "string list" where
  "web_rules = [RuleWebShell, RuleUploadDirExec, RuleAppFileTamper, RuleProcPtySpawn, RuleWebShellChild, RuleWebInterpChild,
     RuleWebDownloaderChild, RuleWebReconChild]"

lemma web_event_fields [simp]:
  "ev_Entity (web_event now cfg pack v l hi ch hash path sigs evi) = \<lparr>ent_Type = EntityFile, ent_ID = hash, ent_Path = path, ent_User = []\<rparr>"
  "ev_RuleID (web_event now cfg pack v l hi ch hash path sigs evi) = RuleWebShell"
  "ev_Signals (web_event now cfg pack v l hi ch hash path sigs evi) = sigs"
  "ev_LearningOnly (web_event now cfg pack v l hi ch hash path sigs evi) \<longleftrightarrow>
     \<not> hi \<or> l \<or> ev_Confidence (web_event now cfg pack v l hi ch hash path sigs evi) < cfg_MinConfidenceAlert cfg"
  by (simp_all add: web_event_def Let_def zero_Event_def)

lemma web_event_ok: "sigs \<noteq> [] \<Longrightarrow> finding_ok h pack v web_rules (web_event now cfg pack v l hi ch hash path sigs evi)"
  unfolding web_event_def Let_def
  by (rule finding_okI) (simp_all add: zero_Event_def web_rules_def Score_le_100 min.coboundedI1)

lemma docroot_event_fields [simp]:
  "ev_Entity (docroot_event h now cfg pack v l fl r sg path ident evi src band) = \<lparr>ent_Type = EntityFile, ent_ID = ident, ent_Path = path, ent_User = []\<rparr>"
  "ev_RuleID (docroot_event h now cfg pack v l fl r sg path ident evi src band) = r"
  by (simp_all add: docroot_event_def Let_def zero_Event_def)

lemma docroot_event_ok:
  "r \<in> set web_rules \<Longrightarrow> fl \<le> 100 \<Longrightarrow> finding_ok h pack v web_rules (docroot_event h now cfg pack v l fl r sg path ident evi src band)"
  unfolding docroot_event_def Let_def by (rule finding_okI) (simp_all add: zero_Event_def floored_le)

lemma recon_event_fields [simp]:
  "ev_RuleID (recon_event h fs now cfg pack v l w cl ch) = fst cl"
  "ent_ID (ev_Entity (recon_event h fs now cfg pack v l w cl ch)) = Itoa (fst ch)"
  by (simp_all add: recon_event_def Let_def split_beta zero_Event_def)

lemma recon_event_ok: "fst cl \<in> set web_rules \<Longrightarrow> finding_ok h pack v web_rules (recon_event h fs now cfg pack v l w cl ch)"
  unfolding recon_event_def Let_def split_beta by (rule finding_okI) (simp_all add: zero_Event_def floored_le)

lemma classify_rule: "classifyWebChild rx exe line = Some (r, sg) \<Longrightarrow> r \<in> set web_rules \<and> CHR '':'' \<notin> set r"
  by (auto simp: classifyWebChild_def Let_def web_rules_def RuleProcPtySpawn_def RuleWebShellChild_def RuleWebInterpChild_def
    RuleWebDownloaderChild_def RuleWebReconChild_def split: if_splits)

lemma evaluateWebFile_ok:
  "evaluateWebFile h rx fmt now cfg pack v s ch l pg path b st = Some e \<Longrightarrow> finding_ok h pack v web_rules e"
  by (auto simp: evaluateWebFile_def Let_def web_silent_def split: if_splits intro!: web_event_ok)

lemma look_web_Some:
  assumes "look_web h rx fmt now cfg pack v H s ch (path, isdir) = Some e"
  shows "\<exists>b st. hs_read H path = Some b \<and>
    evaluateWebFile h rx fmt now cfg pack v s ch (learning_for cfg s) (magicByteMismatch path b) path b st = Some e"
  using assms by (auto simp: look_web_def Let_def split: option.splits if_splits)

lemma recon_walk_sound:
  assumes "e \<in> set (recon_walk h rx fs now cfg pack v l keys cs)"
  shows "\<exists>w c exe line r sg. (w, c, exe, line) \<in> set cs \<and> classifyWebChild rx exe line = Some (r, sg) \<and>
    r @ '':'' @ Itoa c \<notin> set keys \<and> e = recon_event h fs now cfg pack v l w (r, sg) (c, exe, line)"
  using assms
proof (induction cs arbitrary: keys)
  case (Cons x cs)
  obtain w c exe line where x: "x = (w, c, exe, line)" by (metis prod.exhaust)
  show ?case
  proof (cases "classifyWebChild rx exe line")
    case None
    then have "e \<in> set (recon_walk h rx fs now cfg pack v l keys cs)" using Cons.prems by (simp add: x)
    from Cons.IH [OF this] show ?thesis by force
  next
    case (Some rs)
    obtain r sg where rs: "rs = (r, sg)" by (cases rs)
    show ?thesis
    proof (cases "r @ '':'' @ Itoa c \<in> set keys")
      case True
      then have "e \<in> set (recon_walk h rx fs now cfg pack v l keys cs)" using Cons.prems Some by (simp add: x rs)
      from Cons.IH [OF this] show ?thesis by force
    next
      case False
      then consider "e = recon_event h fs now cfg pack v l w (r, sg) (c, exe, line)"
        | "e \<in> set (recon_walk h rx fs now cfg pack v l ((r @ '':'' @ Itoa c) # keys) cs)"
        using Cons.prems Some by (auto simp: x rs Let_def)
      then show ?thesis
      proof cases
        case 1
        show ?thesis
          by (intro exI [of _ w] exI [of _ c] exI [of _ exe] exI [of _ line] exI [of _ r] exI [of _ sg]) (use 1 Some False x rs in simp)
      next
        case 2
        from Cons.IH [OF this] show ?thesis by force
      qed
    qed
  qed
qed simp

lemma recon_walk_ok:
  "e \<in> set (recon_walk h rx fs now cfg pack v l keys cs) \<Longrightarrow> finding_ok h pack v web_rules e"
  by (auto dest!: recon_walk_sound classify_rule intro: recon_event_ok)

lemma web_scans_ok:
  "e \<in> set (web_Scan h rx fmt fs now cfg pack v H s) \<Longrightarrow> finding_ok h pack v web_rules e"
  "e \<in> set (ScanUploadDirs h now cfg pack v H s) \<Longrightarrow> finding_ok h pack v web_rules e"
  "e \<in> set (ScanAppTamper h now cfg pack v H s) \<Longrightarrow> finding_ok h pack v web_rules e"
  by (force simp: web_Scan_def Let_def map_filter_Some dest: look_web_Some intro: evaluateWebFile_ok,
      auto simp: ScanUploadDirs_def look_upload_def ScanAppTamper_def look_tamper_def map_filter_Some Let_def web_rules_def
        intro!: docroot_event_ok [unfolded web_rules_def] split: option.splits if_splits)

interpretation web: reporter h pack agentVer
  "\<lambda>(fs, H, s). web_Scan h rx fmt fs now cfg pack agentVer H s @ ScanReconChildren h rx fs now cfg pack agentVer s @
     ScanUploadDirs h now cfg pack agentVer H s @ ScanAppTamper h now cfg pack agentVer H s" web_rules
  by unfold_locales (auto simp: ScanReconChildren_def intro: web_scans_ok recon_walk_ok split: if_splits)

section \<open>Web shells\<close>

lemma taint_combo:
  assumes "list_ex (HasSuffix (ToLower path)) [''.php'', ''.phar'', ''.phtml'']" "fst (scanPHPTaintFlow b)"
  shows "wx_taint (web_facts rx path b)" "web_combo (web_facts rx path b)"
  using assms by (simp_all add: web_facts_def web_combo_def Let_def split_beta)

lemma evaluate_tainted:
  assumes "wx_taint (web_facts rx path b)" "web_new s path (h b)"
  shows "\<exists>e. evaluateWebFile h rx fmt now cfg pack v s ch l pg path b st = Some e \<and> ev_RuleID e = RuleWebShell \<and>
    ent_Path (ev_Entity e) = path \<and> ent_ID (ev_Entity e) = h b \<and>
    (ev_LearningOnly e \<longleftrightarrow> l \<or> ev_Confidence e < cfg_MinConfidenceAlert cfg)"
proof -
  have combo: "web_combo (web_facts rx path b)" using assms(1) by (simp add: web_combo_def)
  then have "\<not> web_silent (web_facts rx path b) pg (web_signals (web_facts rx path b) st pg ch True r)" for r
    using assms(1) by (simp add: web_silent_def web_signals_def)
  then show ?thesis using combo assms(2) by (simp add: evaluateWebFile_def Let_def)
qed

text \<open>A file the scan opens: not a directory, not allowlisted, readable, and not skipped as unchanged.\<close>

definition web_opened :: "Config \<Rightarrow> host \<Rightarrow> Snapshot \<Rightarrow> string \<Rightarrow> string \<Rightarrow> bool" where
  "web_opened cfg H s path b \<longleftrightarrow>
     (path, False) \<in> set (web_entries H cfg) \<and> \<not> web_pathAllowlisted path (cfg_PathAllowlist cfg) \<and> hs_read H path = Some b \<and>
     (case hs_info H path of
        None \<Rightarrow> False
      | Some st \<Rightarrow> (case map_of (base_map (sn_WebFiles s)) path of None \<Rightarrow> True | Some rec \<Rightarrow> \<not> baselineMetaMatches st rec))"

lemma php_suspicious:
  "list_ex (HasSuffix (ToLower path)) [''.php'', ''.phar'', ''.phtml''] \<Longrightarrow> hasSuspiciousExtension path"
  by (auto simp: hasSuspiciousExtension_def suspiciousExtensions_def)

lemma tainted_reported:
  assumes "fst (scanPHPTaintFlow b)" "list_ex (HasSuffix (ToLower path)) [''.php'', ''.phar'', ''.phtml'']"
    and "web_opened cfg H s path b" "web_new s path (h b)"
  shows "\<exists>e \<in> set (web_Scan h rx fmt fs now cfg pack agentVer H s). ev_RuleID e = RuleWebShell \<and>
    ent_Path (ev_Entity e) = path \<and> ent_ID (ev_Entity e) = h b \<and>
    (ev_LearningOnly e \<longleftrightarrow> learning_for cfg s \<or> ev_Confidence e < cfg_MinConfidenceAlert cfg)"
proof -
  let ?ch = "list_ex (treeHasShellChild rx fs) (findWebWorkerPIDs fs cfg)"
  have "wx_taint (web_facts rx path b)" by (rule taint_combo(1) [OF assms(2,1)])
  moreover obtain st where st: "hs_info H path = Some st" "hs_read H path = Some b" "(path, False) \<in> set (web_entries H cfg)"
      "\<not> web_pathAllowlisted path (cfg_PathAllowlist cfg)"
      "case map_of (base_map (sn_WebFiles s)) path of None \<Rightarrow> True | Some rec \<Rightarrow> \<not> baselineMetaMatches st rec"
    using assms(3) by (auto simp: web_opened_def split: option.splits)
  moreover have "look_web h rx fmt now cfg pack agentVer H s ?ch (path, False) =
      evaluateWebFile h rx fmt now cfg pack agentVer s ?ch (learning_for cfg s) (magicByteMismatch path b) path b st"
    using st php_suspicious [OF assms(2)] by (auto simp: look_web_def Let_def split: option.splits)
  ultimately obtain e where "look_web h rx fmt now cfg pack agentVer H s ?ch (path, False) = Some e" "ev_RuleID e = RuleWebShell"
      "ent_Path (ev_Entity e) = path" "ent_ID (ev_Entity e) = h b"
      "ev_LearningOnly e \<longleftrightarrow> learning_for cfg s \<or> ev_Confidence e < cfg_MinConfidenceAlert cfg"
    using evaluate_tainted [where h = h and fmt = fmt and pack = pack and v = agentVer and ch = ?ch and pg = "magicByteMismatch path b" and
        st = st and now = now and l = "learning_for cfg s", OF _ assms(4)] by metis
  moreover from this(1) have "e \<in> set (web_Scan h rx fmt fs now cfg pack agentVer H s)"
    using st(3) by (force simp: web_Scan_def Let_def map_filter_Some)
  ultimately show ?thesis by blast
qed


text \<open>
  C16. The web shell scan never alerts on obfuscation alone: an alert is about a file whose content has
  both a way to execute code and an input channel among the matched patterns, or a PHP flow from a
  request variable to a dangerous call.
\<close>

theorem web_alert_needs_flow:
  assumes "e \<in> set (web_Scan h rx fmt fs now cfg pack agentVer H s)" "\<not> ev_LearningOnly e"
  shows "\<exists>path isdir b. (path, isdir) \<in> set (web_entries H cfg) \<and> hs_read H path = Some b \<and>
    ent_Path (ev_Entity e) = path \<and> ent_ID (ev_Entity e) = h b \<and>
    (fst (scanPHPTaintFlow b) \<or>
     list_ex (\<lambda>m. m \<in> set execPrimitivePatterns \<or> m \<in> set combined_patterns) (matchingPatterns rx b) \<and>
     list_ex (\<lambda>m. m \<in> set inputChannelPatterns \<or> m \<in> set combined_patterns) (matchingPatterns rx b))"
proof -
  obtain path isdir ch where p: "(path, isdir) \<in> set (web_entries H cfg)"
      "look_web h rx fmt now cfg pack agentVer H s ch (path, isdir) = Some e"
    using assms(1) by (force simp: web_Scan_def Let_def map_filter_Some)
  obtain b st where b: "hs_read H path = Some b"
      "evaluateWebFile h rx fmt now cfg pack agentVer s ch (learning_for cfg s) (magicByteMismatch path b) path b st = Some e"
    using look_web_Some [OF p(2)] by blast
  have "ent_Path (ev_Entity e) = path \<and> ent_ID (ev_Entity e) = h b \<and> web_combo (web_facts rx path b)"
    using b(2) assms(2) by (auto simp: evaluateWebFile_def Let_def split: if_splits)
  then show ?thesis using p(1) b(1)
    by (auto simp: web_combo_def web_facts_def classifyPatternCategories_def Let_def split_beta split: if_splits)
qed

section \<open>Children of web workers are reported once\<close>

lemma key_inj:
  assumes "d \<notin> set r" "d \<notin> set r'"
  shows "r @ d # x = r' @ d # y \<longleftrightarrow> r = r' \<and> x = y"
proof
  assume eq: "r @ d # x = r' @ d # y"
  have "takeWhile (\<lambda>c. c \<noteq> d) (r @ d # x) = r" "takeWhile (\<lambda>c. c \<noteq> d) (r' @ d # y) = r'"
    using assms by (subst takeWhile_append2; auto)+
  then show "r = r' \<and> x = y" using eq by simp
qed simp

lemma recon_walk_complete:
  assumes "(w, c, exe, line) \<in> set cs" "classifyWebChild rx exe line = Some (r, sg)" "r @ '':'' @ Itoa c \<notin> set keys"
  shows "\<exists>e \<in> set (recon_walk h rx fs now cfg pack v l keys cs). ev_RuleID e = r \<and> ent_ID (ev_Entity e) = Itoa c"
  using assms(1,3)
proof (induction cs arbitrary: keys)
  case (Cons x cs)
  obtain w' c' exe' line' where x: "x = (w', c', exe', line')" by (metis prod.exhaust)
  show ?case
  proof (cases "classifyWebChild rx exe' line'")
    case None
    then have "(w, c, exe, line) \<in> set cs" using Cons.prems assms(2) x by auto
    then show ?thesis using Cons.IH [OF _ Cons.prems(2)] None by (simp add: x)
  next
    case (Some rs)
    obtain r' sg' where rs: "rs = (r', sg')" by (cases rs)
    let ?key = "r' @ '':'' @ Itoa c'"
    have colon: "CHR '':'' \<notin> set r" "CHR '':'' \<notin> set r'" using classify_rule assms(2) Some rs by blast+
    show ?thesis
    proof (cases "?key = r @ '':'' @ Itoa c")
      case True
      then have "r' = r" "c' = c" using key_inj [OF colon(2,1)] by auto
      then show ?thesis using Cons.prems(2) Some by (simp add: x rs Let_def)
    next
      case False
      then have "(w, c, exe, line) \<in> set cs" using Cons.prems(1) assms(2) Some rs x by auto
      then show ?thesis
        using Cons.IH [of keys] Cons.IH [of "?key # keys"] Cons.prems(2) False Some by (auto simp: x rs Let_def)
    qed
  qed
qed simp

lemma recon_walk_distinct: "distinct (map (\<lambda>e. (ev_RuleID e, ent_ID (ev_Entity e))) (recon_walk h rx fs now cfg pack v l keys cs))"
proof (induction cs arbitrary: keys)
  case (Cons x cs)
  obtain w c exe line where x: "x = (w, c, exe, line)" by (metis prod.exhaust)
  show ?case
  proof (cases "classifyWebChild rx exe line")
    case (Some rs)
    obtain r sg where rs: "rs = (r, sg)" by (cases rs)
    let ?key = "r @ '':'' @ Itoa c"
    have "(r, Itoa c) \<notin> (\<lambda>e. (ev_RuleID e, ent_ID (ev_Entity e))) ` set (recon_walk h rx fs now cfg pack v l (?key # keys) cs)"
      by (force dest!: recon_walk_sound)
    then show ?thesis using Cons.IH [of keys] Cons.IH [of "?key # keys"] Some by (simp add: x rs Let_def)
  qed (use Cons x in simp)
qed simp

text \<open>
  The children of web workers are reported exactly and once: the pairs of rule and process in the
  report are those of the processes below a worker that fall in a class, without repetition.
\<close>

theorem recon_exact:
  assumes "cfg_WebReconChildScanEnabled cfg"
  shows "distinct (map (\<lambda>e. (ev_RuleID e, ent_ID (ev_Entity e))) (ScanReconChildren h rx fs now cfg pack agentVer s)) \<and>
    (\<lambda>e. (ev_RuleID e, ent_ID (ev_Entity e))) ` set (ScanReconChildren h rx fs now cfg pack agentVer s) =
      {(r, Itoa c) | r c. \<exists>w exe line sg. (w, c, exe, line) \<in> set (worker_children fs cfg) \<and> classifyWebChild rx exe line = Some (r, sg)}"
    (is "?d \<and> ?f ` set ?es = ?S")
proof (intro conjI set_eqI iffI)
  have es: "?es = recon_walk h rx fs now cfg pack agentVer (learning_for cfg s) [] (worker_children fs cfg)"
    using assms by (simp add: ScanReconChildren_def)
  then show ?d by (simp add: recon_walk_distinct)
  show "x \<in> ?S" if "x \<in> ?f ` set ?es" for x
    using that unfolding es by (fastforce dest!: recon_walk_sound)
  show "x \<in> ?f ` set ?es" if S: "x \<in> ?S" for x
  proof -
    obtain r c w exe line sg where "x = (r, Itoa c)" "(w, c, exe, line) \<in> set (worker_children fs cfg)" "classifyWebChild rx exe line = Some (r, sg)"
      using S by blast
    with recon_walk_complete [of w c exe line "worker_children fs cfg" rx r sg "[]" h fs now cfg pack agentVer "learning_for cfg s"]
    show ?thesis unfolding es by force
  qed
qed

section \<open>Changed application files\<close>

lemma map_filter_key:
  assumes "distinct (gkeys m)" "\<And>q x e. f (q, x) = Some e \<Longrightarrow> ent_Path (ev_Entity e) = q"
  shows "(\<exists>e \<in> set (List.map_filter f m). P e \<and> ent_Path (ev_Entity e) = p) \<longleftrightarrow>
    (\<exists>x e. map_of m p = Some x \<and> f (p, x) = Some e \<and> P e)"
proof
  assume "\<exists>e \<in> set (List.map_filter f m). P e \<and> ent_Path (ev_Entity e) = p"
  then obtain q x e where "(q, x) \<in> set m" "f (q, x) = Some e" "P e" "ent_Path (ev_Entity e) = p" by (auto simp: map_filter_Some)
  then show "\<exists>x e. map_of m p = Some x \<and> f (p, x) = Some e \<and> P e"
    using assms(2) [of q x e] assms(1) by (auto intro: map_of_is_SomeI)
next
  assume "\<exists>x e. map_of m p = Some x \<and> f (p, x) = Some e \<and> P e"
  then show "\<exists>e \<in> set (List.map_filter f m). P e \<and> ent_Path (ev_Entity e) = p"
    using assms(2) by (fastforce simp: map_filter_Some dest: map_of_SomeD)
qed

lemma look_tamper_iff:
  "look_tamper h now cfg pack v H (p, rec) = Some e \<longleftrightarrow>
     (\<exists>st. hs_stat H p = Some st \<and> \<not> baselineMetaMatches st rec \<and> fileSHA h H p \<notin> {[], wf_SHA256 rec} \<and>
        e = docroot_event h now cfg pack v (cfg_LearningMode cfg) 60 RuleAppFileTamper ''web_app_file_tamper'' p (fileSHA h H p)
          ''hash changed vs baseline'' SrcInventory ConfMedium)"
  by (auto simp: look_tamper_def Let_def split: option.split)

lemma tamper_path: "look_tamper h now cfg pack v H (q, x) = Some e \<Longrightarrow> ent_Path (ev_Entity e) = q"
  by (auto simp: look_tamper_iff)

text \<open>
  After a commit, a recorded application file is reported on a later host exactly when it can be
  read, its hash is not the recorded one, and its modification second or its size differs: unchanged
  content is never reported, and a change that keeps both is not seen.
\<close>

theorem tamper_after_commit:
  assumes "web_record h cfg H p = Some rec" "(p, False) \<in> set (web_entries H cfg)" "distinct (gkeys (base_map (sn_WebFiles s)))" "t \<noteq> 0"
    and "hs_stat H' p = Some st"
  shows "(\<exists>e \<in> set (ScanAppTamper h now cfg pack agentVer H' ((BuildBaselineWebFiles h cfg H s)\<lparr>sn_CommittedAt := t\<rparr>)).
            ev_RuleID e = RuleAppFileTamper \<and> ent_Path (ev_Entity e) = p) \<longleftrightarrow>
         fileSHA h H' p \<notin> {[], wf_SHA256 rec} \<and> \<not> baselineMetaMatches st rec"
proof -
  let ?s = "(BuildBaselineWebFiles h cfg H s)\<lparr>sn_CommittedAt := t\<rparr>"
  let ?ps = "map fst (filter (\<lambda>(p, isdir). \<not> isdir) (web_entries H cfg))"
  have files: "base_map (sn_WebFiles ?s) = record_all (web_record h cfg H) ?ps (base_map (sn_WebFiles s))"
    by (simp add: BuildBaselineWebFiles_def base_map_def)
  have "p \<in> set ?ps" using assms(2) by force
  then have rec: "map_of (base_map (sn_WebFiles ?s)) p = Some rec" unfolding files using assms(1) by (simp add: map_of_record_all)
  have dist: "distinct (gkeys (base_map (sn_WebFiles ?s)))" unfolding files by (rule distinct_record_all [OF assms(3)])
  have "IsCommitted ?s" using assms(4) by (simp add: IsCommitted_def)
  then have "(\<exists>e \<in> set (ScanAppTamper h now cfg pack agentVer H' ?s). ev_RuleID e = RuleAppFileTamper \<and> ent_Path (ev_Entity e) = p) \<longleftrightarrow>
      (\<exists>e. look_tamper h now cfg pack agentVer H' (p, rec) = Some e \<and> ev_RuleID e = RuleAppFileTamper)"
    using map_filter_key [OF dist, where f = "look_tamper h now cfg pack agentVer H'" and P = "\<lambda>e. ev_RuleID e = RuleAppFileTamper" and p = p]
      tamper_path unfolding rec by (simp add: ScanAppTamper_def)
  also have "\<dots> \<longleftrightarrow> fileSHA h H' p \<notin> {[], wf_SHA256 rec} \<and> \<not> baselineMetaMatches st rec"
    using assms(5) by (auto simp: look_tamper_iff)
  finally show ?thesis .
qed

section \<open>What the classification does not do\<close>

text \<open>\<^verbatim>\<open>filepath.Base\<close> is never empty, so the name is never taken from the command line.\<close>

lemma argv_fallback_dead: "child_base exe line = ToLower (Base exe)"
proof -
  have "Base exe \<noteq> []"
  proof (cases "dropWhile (\<lambda>c. c = CHR ''/'') (rev exe)")
    case (Cons c r)
    then have "c \<noteq> CHR ''/''" by (simp add: dropWhile_eq_Cons_conv)
    then show ?thesis by (auto simp: Base_def Let_def TrimRightByte_def Cons)
  qed (auto simp: Base_def Let_def TrimRightByte_def)
  then show ?thesis by (simp add: child_base_def Let_def ToLower_def)
qed

lemma unreadable_shell_missed:
  "\<not> rx ptySpawn ''bash'' \<Longrightarrow> \<not> rx interpFlag ''bash'' \<Longrightarrow> list_all (\<lambda>re. \<not> rx re ''bash'') reconArgvPatterns \<Longrightarrow>
     classifyWebChild rx [] ''bash'' = None"
  unfolding classifyWebChild_def argv_fallback_dead Let_def
  by (simp add: Base_def ToLower_def lower_char_def is_upper_def shellBasenames_def downloaderBasenames_def list_all_iff list_ex_iff)

section \<open>Instances\<close>

definition sample_shell :: string where
  "sample_shell = print_php (assignment ''$c'' [tok phpTokVar ''$_POST''] @ sink_call ''system'' [tok phpTokVar ''$c''] @ [])"

definition web_host :: "string \<Rightarrow> time \<Rightarrow> host" where
  "web_host b m =
     (let st = \<lparr>fi_IsDir = False, fi_Perm = 0, fi_SetUID = False, fi_SetGID = False, fi_UID = 0, fi_Size = int (length b), fi_ModTime = m\<rparr>
      in (files_host [(''/srv/x.php'', b)])\<lparr>hs_stat := (\<lambda>p. Some st), hs_info := (\<lambda>p. Some st),
           hs_walk := (\<lambda>d. if d = ''/srv'' then [(''/srv/x.php'', False)] else [])\<rparr>)"

definition web_cfg :: Config where
  "web_cfg = Default\<lparr>cfg_DocumentRoots := [''/srv''], cfg_PathAllowlist := [], cfg_LearningMode := False, cfg_FirstRunAllowAlerts := True,
     cfg_MinConfidenceAlert := 0, cfg_WebReconChildScanEnabled := True\<rparr>"

definition no_procs :: procfs where
  "no_procs = \<lparr>pf_file = (\<lambda>p f. None), pf_exe = (\<lambda>p. None), pf_root = None, pf_children = (\<lambda>p. [])\<rparr>"

text \<open>A web worker that has started a shell.\<close>

definition shell_procs :: procfs where
  "shell_procs = \<lparr>pf_file = (\<lambda>p f. if p = 10 \<and> f = ''comm'' then Some ''nginx'' else None), pf_exe = (\<lambda>p. if p = 11 then Some ''/bin/sh'' else None),
     pf_root = Some [(''10'', True)], pf_children = (\<lambda>p. if p = 10 then [Some ''11''] else [])\<rparr>"

lemma web_cfg_fields:
  "cfg_DocumentRoots web_cfg = [''/srv'']" "cfg_PathAllowlist web_cfg = []" "cfg_MinConfidenceAlert web_cfg = 0"
  "cfg_WebReconChildScanEnabled web_cfg" "\<not> learning_for web_cfg s" "cfg_LearningMode web_cfg = False"
  by (simp_all add: web_cfg_def learning_for_def)

lemma web_host_fields:
  "hs_read (web_host b m) ''/srv/x.php'' = Some b"
  "hs_info (web_host b m) p = Some \<lparr>fi_IsDir = False, fi_Perm = 0, fi_SetUID = False, fi_SetGID = False, fi_UID = 0, fi_Size = int (length b), fi_ModTime = m\<rparr>"
  "hs_stat (web_host b m) p = hs_info (web_host b m) p"
  by (simp_all add: web_host_def files_host_def Let_def)

lemma web_host_entries: "web_entries (web_host b m) web_cfg = [(''/srv/x.php'', False)]"
proof -
  have "Clean ''/srv'' = ''/srv''" by code_simp
  then show ?thesis by (simp add: web_entries_def web_cfg_fields(1)) (simp add: web_host_def Let_def)
qed

lemma sample_opened: "web_opened web_cfg (web_host b m) EmptySnapshot ''/srv/x.php'' b"
  by (simp add: web_opened_def web_host_entries web_host_fields web_cfg_fields web_pathAllowlisted_def base_map_def EmptySnapshot_def)

lemma sample_new: "web_new EmptySnapshot p d"
  by (simp add: web_new_def base_map_def EmptySnapshot_def)

lemma sample_php: "list_ex (HasSuffix (ToLower ''/srv/x.php'')) [''.php'', ''.phar'', ''.phtml'']"
  by code_simp


theorem web_alert_needs_flow_witness:
  "list_ex (\<lambda>e. \<not> ev_LearningOnly e \<and> (\<exists>path isdir b. (path, isdir) \<in> set (web_entries (web_host sample_shell 0) web_cfg) \<and>
       hs_read (web_host sample_shell 0) path = Some b \<and> ent_Path (ev_Entity e) = path \<and> fst (scanPHPTaintFlow b)))
     (web_Scan (\<lambda>b. ''h'' @ b) (\<lambda>p s. False) (\<lambda>r. []) no_procs 9 web_cfg no_rules ''1'' (web_host sample_shell 0) EmptySnapshot)"
proof -
  let ?es = "web_Scan (\<lambda>b. ''h'' @ b) (\<lambda>p s. False) (\<lambda>r. []) no_procs 9 web_cfg no_rules ''1'' (web_host sample_shell 0) EmptySnapshot"
  have "fst (scanPHPTaintFlow sample_shell)" unfolding sample_shell_def by (rule flow_found [OF sample_flow])
  from tainted_reported [OF this sample_php sample_opened sample_new, where h = "\<lambda>b. ''h'' @ b" and
      rx = "\<lambda>p s. False" and fmt = "\<lambda>r. []" and fs = no_procs and now = "9" and pack = no_rules and agentVer = "''1''"]
  obtain e where e: "e \<in> set ?es" "ev_LearningOnly e \<longleftrightarrow> ev_Confidence e < 0" by (auto simp: web_cfg_fields)
  have "0 \<le> ev_Confidence e"
    using e(1) by (auto simp: web_Scan_def map_filter_Some look_web_def evaluateWebFile_def web_event_def zero_Event_def Let_def Score_def no_rules_def
      ByID_def split: option.splits if_splits)
  then have "\<not> ev_LearningOnly e" using e(2) by simp
  moreover have "matchingPatterns (\<lambda>p s. False) b = []" for b by (simp add: matchingPatterns_def)
  ultimately show ?thesis using e(1) web_alert_needs_flow [OF e(1)] by (auto simp: list_ex_iff intro!: bexI [of _ e])
qed

lemma shell_children: "worker_children shell_procs web_cfg = [(10, 11, ''/bin/sh'', [])]"
  by code_simp

theorem recon_exact_witness:
  "list_ex (\<lambda>e. ev_RuleID e = RuleWebShellChild \<and> ent_ID (ev_Entity e) = ''11'')
     (ScanReconChildren (\<lambda>b. b) (\<lambda>p s. False) shell_procs 9 web_cfg no_rules ''1'' EmptySnapshot)"
proof -
  let ?es = "ScanReconChildren (\<lambda>b. b) (\<lambda>p s. False) shell_procs 9 web_cfg no_rules ''1'' EmptySnapshot"
  have "classifyWebChild (\<lambda>p s. False) ''/bin/sh'' [] = Some (RuleWebShellChild, ''web_worker_shell_child'')" "Itoa 11 = ''11''" by code_simp+
  then have "(RuleWebShellChild, ''11'') \<in> (\<lambda>e. (ev_RuleID e, ent_ID (ev_Entity e))) ` set ?es"
    using recon_exact [OF web_cfg_fields(4), where h = "\<lambda>b. b" and rx = "\<lambda>p s. False" and fs = shell_procs and now = 9 and pack = no_rules and
      agentVer = "''1''" and s = EmptySnapshot] by (force simp: shell_children)
  then show ?thesis by (force simp: list_ex_iff)
qed

theorem tamper_after_commit_witness:
  "list_ex (\<lambda>e. ev_RuleID e = RuleAppFileTamper \<and> ent_Path (ev_Entity e) = ''/srv/x.php'')
     (ScanAppTamper (\<lambda>b. ''h'' @ b) 9 web_cfg no_rules ''1'' (web_host ''evil'' (2 * second))
       ((BuildBaselineWebFiles (\<lambda>b. ''h'' @ b) web_cfg (web_host ''good'' 0) EmptySnapshot)\<lparr>sn_CommittedAt := 5\<rparr>))"
proof -
  have rec: "web_record (\<lambda>b. ''h'' @ b) web_cfg (web_host ''good'' 0) ''/srv/x.php'' = Some \<lparr>wf_SHA256 = ''hgood'', wf_Mtime = 0, wf_Size = 4\<rparr>"
    using php_suspicious [OF sample_php] by (simp add: web_record_def web_host_fields web_cfg_fields web_pathAllowlisted_def)
  have "(''/srv/x.php'', False) \<in> set (web_entries (web_host ''good'' 0) web_cfg)" by (simp add: web_host_entries)
  from tamper_after_commit [OF rec this, where s = EmptySnapshot and t = 5 and H' = "web_host ''evil'' (2 * second)" and now = 9 and
      pack = no_rules and agentVer = "''1''"]
  show ?thesis
    by (simp add: list_ex_iff base_map_def EmptySnapshot_def web_host_fields fileSHA_def baselineMetaMatches_def duration_defs)
qed

end
