(* ===== verification/GC_Yara.thy ===== *)
theory GC_Yara
  imports GC_Host
begin

text \<open>
  YARA scanning (\<^verbatim>\<open>detect/yara\<close>). The compiler and the matcher of libyara are a third-party library:
  the record \<open>yaralib\<close> holds its compiler, a value of \<open>yrRules\<close> its compiled rules. What the package
  adds is modelled: which files become rules, which files and processes are matched, and the events.
\<close>

section \<open>The scanner\<close>

text \<open>A match of libyara: the name of the rule and its tags. \<open>None\<close> is an error.\<close>

type_synonym yrMatch = "string \<times> string list"

record yrRules =
  yr_ScanFile :: "string \<Rightarrow> yrMatch list option"
  yr_ScanProc :: "int \<Rightarrow> yrMatch list option"

record 'c yaralib =
  yl_NewCompiler :: "'c option"
  yl_AddFile :: "'c \<Rightarrow> string \<Rightarrow> string \<Rightarrow> bool \<times> 'c"
  yl_GetRules :: "'c \<Rightarrow> yrRules option"

record Match =
  mt_RuleID :: string
  mt_Tags :: "string list"
  mt_Path :: string
  mt_Pid :: int
  mt_Region :: string
  mt_Offset :: nat
  mt_Excerpt :: string

text \<open>A scanner that was closed has no rules.\<close>

type_synonym Scanner = "yrRules option"

definition yara_Close :: "Scanner \<Rightarrow> Scanner" where "yara_Close s = None"

definition toMatchesFile :: "string \<Rightarrow> yrMatch list \<Rightarrow> Match list" where
  "toMatchesFile path ms =
     map (\<lambda>(r, ts). \<lparr>mt_RuleID = r, mt_Tags = ts, mt_Path = path, mt_Pid = 0, mt_Region = [], mt_Offset = 0, mt_Excerpt = []\<rparr>) ms"

definition ScanFile :: "Scanner \<Rightarrow> string \<Rightarrow> Match list option" where
  "ScanFile s path = (case s of None \<Rightarrow> Some [] | Some rules \<Rightarrow> map_option (toMatchesFile path) (yr_ScanFile rules path))"

definition ScanProcess :: "Scanner \<Rightarrow> int \<Rightarrow> Match list option" where
  "ScanProcess s pid =
     (case s of
        None \<Rightarrow> Some []
      | Some rules \<Rightarrow>
          map_option (map (\<lambda>(r, ts). \<lparr>mt_RuleID = r, mt_Tags = ts, mt_Path = [], mt_Pid = pid, mt_Region = [], mt_Offset = 0, mt_Excerpt = []\<rparr>))
            (yr_ScanProc rules pid))"

section \<open>Compiling a directory of rules\<close>

definition is_rule_file :: "string \<Rightarrow> bool" where
  "is_rule_file p \<longleftrightarrow> HasSuffix (ToLower (Base p)) ''.yar'' \<or> HasSuffix (ToLower (Base p)) ''.yara''"

definition add_rule_file :: "'c yaralib \<Rightarrow> host \<Rightarrow> string \<times> bool \<Rightarrow> 'c \<times> nat \<Rightarrow> 'c \<times> nat" where
  "add_rule_file lib H entry st =
     (case (entry, st) of ((p, isdir), (c, added)) \<Rightarrow>
        if isdir \<or> \<not> is_rule_file p then (c, added)
        else (case hs_read H p of
                None \<Rightarrow> (c, added)
              | Some b \<Rightarrow> (let (ok, c') = yl_AddFile lib c b (Base p) in (c', if ok then added + 1 else added))))"

definition yara_New :: "'c yaralib \<Rightarrow> host \<Rightarrow> string \<Rightarrow> string + Scanner" where
  "yara_New lib H dir =
     (case yl_NewCompiler lib of
        None \<Rightarrow> Inl ''compiler''
      | Some c0 \<Rightarrow>
          (let (c, added) = fold (add_rule_file lib H) (hs_walk H dir) (c0, 0)
           in if added = 0 then Inl (''yara: no rule files under '' @ dir)
              else case yl_GetRules lib c of None \<Rightarrow> Inl ''rules'' | Some r \<Rightarrow> Inr (Some r)))"

section \<open>Events\<close>

definition RuleYARADisk :: string where "RuleYARADisk = ''YARA_DISK_MATCH''"
definition RuleYARAProcess :: string where "RuleYARAProcess = ''YARA_PROCESS_MATCH''"

text \<open>\<^verbatim>\<open>%v\<close> of a list of strings.\<close>

definition show_tags :: "string list \<Rightarrow> string" where "show_tags ts = ''['' @ Join ts '' '' @ '']''"

definition nonzero_score :: "int \<Rightarrow> Pack \<Rightarrow> string \<Rightarrow> string list \<Rightarrow> int" where
  "nonzero_score d pack rule sigs = (let (conf, _) = Score pack rule sigs in if conf = 0 then d else conf)"

definition makeFileEvent :: "Match \<Rightarrow> Pack \<Rightarrow> string \<Rightarrow> time \<Rightarrow> bool \<Rightarrow> Event" where
  "makeFileEvent m pack agentVer now learning =
     (let sigs = (''yara_rule:'' @ mt_RuleID m) # map (\<lambda>t. ''yara_tag:'' @ t) (mt_Tags m);
          conf = nonzero_score 80 pack RuleYARADisk sigs
      in zero_Event\<lparr>ev_SchemaVersion := SchemaVersion, ev_AgentVersion := agentVer, ev_Timestamp := now,
           ev_RuleID := RuleYARADisk, ev_RulePackVersion := pack_Version pack, ev_Tactic := ''discovery'', ev_Confidence := conf,
           ev_Severity := SeverityFromConfidence conf learning,
           ev_Entity := \<lparr>ent_Type = EntityFile, ent_ID = ToLower (mt_RuleID m), ent_Path = mt_Path m, ent_User = []\<rparr>,
           ev_Signals := sigs,
           ev_Evidence := ''yara rule='' @ mt_RuleID m @ '' tags='' @ show_tags (mt_Tags m) @ '' path='' @ mt_Path m,
           ev_LearningOnly := learning\<rparr>)"

definition makeProcEvent :: "Match \<Rightarrow> Pack \<Rightarrow> string \<Rightarrow> time \<Rightarrow> bool \<Rightarrow> Event" where
  "makeProcEvent m pack agentVer now learning =
     (let sigs = [''yara_rule:'' @ mt_RuleID m, ''memory_match''] @ map (\<lambda>t. ''yara_tag:'' @ t) (mt_Tags m);
          conf = nonzero_score 85 pack RuleYARAProcess sigs
      in zero_Event\<lparr>ev_SchemaVersion := SchemaVersion, ev_AgentVersion := agentVer, ev_Timestamp := now,
           ev_RuleID := RuleYARAProcess, ev_RulePackVersion := pack_Version pack, ev_Tactic := ''defense-evasion'', ev_Confidence := conf,
           ev_Severity := SeverityFromConfidence conf learning,
           ev_Entity := \<lparr>ent_Type = EntityProcess, ent_ID = Itoa (mt_Pid m), ent_Path = [], ent_User = []\<rparr>,
           ev_Signals := sigs,
           ev_Evidence := ''yara rule='' @ mt_RuleID m @ '' pid='' @ Itoa (mt_Pid m) @ '' tags='' @ show_tags (mt_Tags m),
           ev_LearningOnly := learning\<rparr>)"

section \<open>The scan\<close>

definition scanTree :: "Scanner \<Rightarrow> host \<Rightarrow> string \<Rightarrow> Match list" where
  "scanTree s H root =
     concat (map (\<lambda>(p, isdir). if isdir then [] else case ScanFile s p of None \<Rightarrow> [] | Some ms \<Rightarrow> ms) (hs_walk H root))"

definition scan_pid :: "Scanner \<Rightarrow> procfs \<Rightarrow> Config \<Rightarrow> int \<Rightarrow> Match list" where
  "scan_pid s fs cfg pid =
     (case Comm fs pid of
        None \<Rightarrow> []
      | Some comm \<Rightarrow>
          if comm \<notin> set (cfg_TargetProcessNames cfg) \<union> set (cfg_MapsWatchProcesses cfg) then []
          else (case ScanProcess s pid of None \<Rightarrow> [] | Some ms \<Rightarrow> ms))"

text \<open>The pointer to the scanner may be nil: \<open>None\<close>.\<close>

definition yara_Scan :: "Scanner option \<Rightarrow> procfs \<Rightarrow> host \<Rightarrow> time \<Rightarrow> Config \<Rightarrow> Pack \<Rightarrow> string \<Rightarrow> Event list" where
  "yara_Scan scanner fs H now cfg pack agentVer =
     (case scanner of
        None \<Rightarrow> []
      | Some s \<Rightarrow>
          map (\<lambda>m. makeFileEvent m pack agentVer now (cfg_LearningMode cfg)) (concat (map (scanTree s H) (cfg_DocumentRoots cfg))) @
          map (\<lambda>m. makeProcEvent m pack agentVer now (cfg_LearningMode cfg))
            (concat (map (scan_pid s fs cfg) (case Processes fs of None \<Rightarrow> [] | Some pids \<Rightarrow> pids))))"

section \<open>Contracts\<close>

definition yara_rules :: "string list" where "yara_rules = [RuleYARADisk, RuleYARAProcess]"

lemma nonzero_score_le: "capped_pack pack \<Longrightarrow> d \<le> 100 \<Longrightarrow> nonzero_score d pack r sigs \<le> 100"
  using Score_le_100 [of pack r sigs] by (simp add: nonzero_score_def split_beta Let_def)

lemma makeFileEvent_ok: "finding_ok h pack v yara_rules (makeFileEvent m pack v now l)"
  unfolding makeFileEvent_def Let_def
  by (rule finding_okI) (simp_all add: zero_Event_def yara_rules_def nonzero_score_le)

lemma makeProcEvent_ok: "finding_ok h pack v yara_rules (makeProcEvent m pack v now l)"
  unfolding makeProcEvent_def Let_def
  by (rule finding_okI) (simp_all add: zero_Event_def yara_rules_def nonzero_score_le)

interpretation yara: reporter h pack agentVer "\<lambda>(fs, H, now, cfg). yara_Scan scanner fs H now cfg pack agentVer" yara_rules
  for h pack agentVer scanner
  by unfold_locales
    (auto simp: yara_Scan_def makeFileEvent_ok makeProcEvent_ok split: option.splits)

text \<open>A closed scanner finds nothing.\<close>

lemma yara_closed: "yara_Scan (Some (yara_Close s)) fs H now cfg pack v = []"
  by (auto simp: yara_Scan_def yara_Close_def scanTree_def scan_pid_def ScanFile_def ScanProcess_def split: option.splits)

text \<open>A scanner is built only with rules, from a directory with a readable rule file.\<close>

lemma no_rule_files:
  assumes "\<not> list_ex (\<lambda>(p, isdir). \<not> isdir \<and> is_rule_file p \<and> hs_read H p \<noteq> None) es"
  shows "fold (add_rule_file lib H) es st = st"
  using assms by (induction es arbitrary: st) (auto simp: add_rule_file_def split: prod.splits option.splits)

lemma yara_New_needs_rule:
  assumes "yara_New lib H dir = Inr s"
  shows "s \<noteq> None \<and> list_ex (\<lambda>(p, isdir). \<not> isdir \<and> is_rule_file p \<and> hs_read H p \<noteq> None) (hs_walk H dir)"
proof
  show "s \<noteq> None" using assms by (auto simp: yara_New_def Let_def split: option.splits prod.splits if_splits dest: sym)
  show "list_ex (\<lambda>(p, isdir). \<not> isdir \<and> is_rule_file p \<and> hs_read H p \<noteq> None) (hs_walk H dir)"
  proof (rule ccontr)
    assume n: "\<not> ?thesis"
    show False using assms no_rule_files [OF n, of lib] by (simp add: yara_New_def split: option.splits)
  qed
qed

text \<open>
  The entity of a memory match is the process alone: two YARA rules that match the same process give
  events with one deduplication key, so within the window only the first of them passes the gates.
\<close>

lemma proc_matches_collide:
  assumes "mt_Pid m = mt_Pid m'"
  shows "ev_DedupKey (NormalizeDedup h (makeProcEvent m pack v now l)) = ev_DedupKey (NormalizeDedup h (makeProcEvent m' pack v' now' l'))"
  using makeProcEvent_ok [of h pack v m now l] makeProcEvent_ok [of h pack v' m' now' l'] assms
  by (simp add: finding_ok_def dedup_preimage_def makeProcEvent_def Let_def zero_Event_def)

end
