(* ===== verification/GC_Scan.thy ===== *)
theory GC_Scan
  imports GC_LivePath GC_Process GC_Web GC_Yara
begin

text \<open>
  The scans of \<^verbatim>\<open>runner/runner.go\<close>: the full scan, the light scan of files and the inventory. A scan
  reads the baseline through the cache, runs its detectors, and hands what they found to the pipeline
  in one batch; detectors that fail abort it. Scans of several callers exclude each other. The
  state is the runner, the variables of the network detector and the cache; what a scan sees of the
  host and of the clock is the record \<open>scan_view\<close>.
\<close>

section \<open>What a scan sees\<close>

text \<open>
  \<open>sv_times\<close>: the clock as the \<open>i\<close>-th detector reads it. \<open>sv_due\<close>, \<open>sv_netTimes\<close> and \<open>sv_netDone\<close> are the
  readings around the network scan. \<open>sv_hash1\<close> and \<open>sv_hash2\<close> are the two reads of the page cache check.
\<close>

record scan_view =
  sv_host :: host
  sv_disk :: "string \<Rightarrow> file_state"
  sv_unmarshal :: "string \<Rightarrow> Snapshot option"
  sv_rx :: "string \<Rightarrow> string \<Rightarrow> bool"
  sv_fmt :: "real \<Rightarrow> string"
  sv_md5 :: "string \<Rightarrow> string"
  sv_parseKey :: "string \<Rightarrow> string option"
  sv_fds :: "int \<Rightarrow> string option list option"
  sv_hash1 :: "string \<Rightarrow> string option"
  sv_hash2 :: "string \<Rightarrow> string option"
  sv_yara :: "Scanner option"
  sv_times :: "nat \<Rightarrow> time"
  sv_due :: time
  sv_netTimes :: "time \<times> time \<times> time"
  sv_netDone :: time

datatype scan_failure = BaselineFailed | MapsFailed | NetworkFailed string

type_synonym scan_state = "Runner \<times> netstate \<times> Cache"

type_synonym 'x scan_result = "scan_failure option \<times> (input \<times> outcome) list \<times> Runner \<times> 'x"

section \<open>The detectors of a scan\<close>

definition get_baseline :: "scan_view \<Rightarrow> Runner \<Rightarrow> Cache \<Rightarrow> Snapshot option \<times> Cache" where
  "get_baseline v rn c = CacheGet (sv_unmarshal v) (sv_disk v) c (cfg_BaselinePath (rn_cfg rn))"

definition integrity_events :: "env \<Rightarrow> scan_view \<Rightarrow> Runner \<Rightarrow> Snapshot \<Rightarrow> Event list" where
  "integrity_events en v rn s =
     integrity_Scan (en_sha en) (sv_md5 v) (sv_times v 0) (rn_cfg rn) (rn_pack rn) AgentVersion (sv_host v) s"

definition network_part :: "env \<Rightarrow> scan_view \<Rightarrow> Runner \<Rightarrow> netstate \<Rightarrow> (string + Event list) \<times> Runner \<times> netstate" where
  "network_part en v rn st =
     (if \<not> networkScanDue rn (sv_due v) then (Inr [], rn, st)
      else
        (case network_Scan (en_sha en) (en_net en) (en_fs en) (hs_read (sv_host v)) (sv_fds v) (sv_netTimes v)
                (rn_cfg rn) (rn_pack rn) AgentVersion st of
           (Inl c, st') \<Rightarrow> (Inl c, rn, st')
         | (Inr es, st') \<Rightarrow> (Inr es, rn\<lparr>rn_lastNetworkScan := sv_netDone v\<rparr>, st')))"

definition collectFIM :: "env \<Rightarrow> scan_view \<Rightarrow> Runner \<Rightarrow> Snapshot \<Rightarrow> Event list" where
  "collectFIM en v rn s =
     (let h = en_sha en; cfg = rn_cfg rn; pack = rn_pack rn; H = sv_host v
      in persistence_Scan h (sv_parseKey v) (sv_times v 5) cfg pack AgentVersion H s @
         ldpreload_Scan h (en_fs en) (sv_times v 6) cfg pack AgentVersion H s @
         web_Scan h (sv_rx v) (sv_fmt v) (en_fs en) (sv_times v 7) cfg pack AgentVersion H s @
         ScanUploadDirs h (sv_times v 8) cfg pack AgentVersion H s @
         ScanAppTamper h (sv_times v 9) cfg pack AgentVersion H s @
         fimextra_Scan h (sv_times v 10) cfg pack AgentVersion H s @
         defense_ScanState h (hs_read H) (sv_times v 11) cfg (IsCommitted s) pack AgentVersion)"

text \<open>What follows the network scan; none of it fails.\<close>

definition late_events :: "env \<Rightarrow> scan_view \<Rightarrow> Runner \<Rightarrow> Snapshot \<Rightarrow> Event list" where
  "late_events en v rn s =
     (let h = en_sha en; cfg = rn_cfg rn; pack = rn_pack rn
      in (if cf_Enabled (cfg_CopyFail cfg) then copyfail_Scan h (sv_hash1 v) (sv_hash2 v) (sv_times v 2) cfg pack AgentVersion else []) @
         (if cfg_AncestryScanEnabled cfg then ancestry_Scan (en_fs en) (sv_times v 3) cfg pack AgentVersion s else []) @
         yara_Scan (sv_yara v) (en_fs en) (sv_host v) (sv_times v 4) cfg pack AgentVersion @
         ScanReconChildren h (sv_rx v) (en_fs en) (sv_times v 12) cfg pack AgentVersion s @
         collectFIM en v rn s)"

section \<open>The scans\<close>

text \<open>The findings of a scan carry no time of observation and share one reading of the clock.\<close>

definition process_batch :: "env \<Rightarrow> (nat \<Rightarrow> clocks \<times> delivery) \<Rightarrow> time \<Rightarrow> Event list \<Rightarrow> Runner \<Rightarrow> (input \<times> outcome) list \<times> Runner" where
  "process_batch en ds now es rn = dispatch_all en (\<lambda>i. (fst (ds i), snd (ds i), now)) 0 0 es rn"

text \<open>
  A scan first collects the findings of its detectors, then processes them: an error of the first part ends it, with the scan
  times and the cache as they are then.
\<close>

definition collect_full :: "env \<Rightarrow> scan_view \<Rightarrow> scan_state \<Rightarrow> (scan_failure + Event list) \<times> scan_state" where
  "collect_full en v st =
     (case st of (rn, net, c) \<Rightarrow>
        (case get_baseline v rn c of
           (None, c') \<Rightarrow> (Inl BaselineFailed, rn, net, c')
         | (Some s, c') \<Rightarrow>
             (let evInt = (if cfg_IntegrityVerifyEnabled (rn_cfg rn) \<and> cfg_IntegrityScanInterval (rn_cfg rn) \<le> 0
                           then integrity_events en v rn s else [])
              in case memorymaps_Scan (en_sha en) (en_fs en) (sv_times v 13) (rn_cfg rn) (rn_pack rn) AgentVersion s of
                   None \<Rightarrow> (Inl MapsFailed, rn, net, c')
                 | Some evMap \<Rightarrow>
                     (case network_part en v rn net of
                        (Inl cidr, rn1, net1) \<Rightarrow> (Inl (NetworkFailed cidr), rn1, net1, c')
                      | (Inr evNet, rn1, net1) \<Rightarrow> (Inr (evInt @ evMap @ evNet @ late_events en v rn1 s), rn1, net1, c')))))"

definition collect_fim :: "env \<Rightarrow> scan_view \<Rightarrow> scan_state \<Rightarrow> (scan_failure + Event list) \<times> scan_state" where
  "collect_fim en v st =
     (case st of (rn, net, c) \<Rightarrow>
        (case get_baseline v rn c of
           (None, c') \<Rightarrow> (Inl BaselineFailed, rn, net, c')
         | (Some s, c') \<Rightarrow> (Inr (collectFIM en v rn s), rn, net, c')))"

definition collect_inventory :: "env \<Rightarrow> scan_view \<Rightarrow> scan_state \<Rightarrow> (scan_failure + Event list) \<times> scan_state" where
  "collect_inventory en v st =
     (case st of (rn, net, c) \<Rightarrow>
        if \<not> cfg_IntegrityVerifyEnabled (rn_cfg rn) then (Inr [], rn, net, c)
        else (case get_baseline v rn c of
                (None, c') \<Rightarrow> (Inl BaselineFailed, rn, net, c')
              | (Some s, c') \<Rightarrow> (Inr (integrity_events en v rn s), rn, net, c')))"

definition process_collected :: "env \<Rightarrow> (nat \<Rightarrow> clocks \<times> delivery) \<Rightarrow> time \<Rightarrow> (scan_failure + Event list) \<times> Runner \<times> 'x \<Rightarrow> 'x scan_result" where
  "process_collected en ds now r =
     (case r of
        (Inl err, rn, x) \<Rightarrow> (Some err, [], rn, x)
      | (Inr es, rn, x) \<Rightarrow> (let (ios, rn') = process_batch en ds now es rn in (None, ios, rn', x)))"

definition scanFull :: "env \<Rightarrow> scan_view \<Rightarrow> (nat \<Rightarrow> clocks \<times> delivery) \<Rightarrow> time \<Rightarrow> scan_state \<Rightarrow> (netstate \<times> Cache) scan_result" where
  "scanFull en v ds now st = process_collected en ds now (collect_full en v st)"

definition scanFIM :: "env \<Rightarrow> scan_view \<Rightarrow> (nat \<Rightarrow> clocks \<times> delivery) \<Rightarrow> time \<Rightarrow> scan_state \<Rightarrow> (netstate \<times> Cache) scan_result" where
  "scanFIM en v ds now st = process_collected en ds now (collect_fim en v st)"

definition scanInventory :: "env \<Rightarrow> scan_view \<Rightarrow> (nat \<Rightarrow> clocks \<times> delivery) \<Rightarrow> time \<Rightarrow> scan_state \<Rightarrow> (netstate \<times> Cache) scan_result" where
  "scanInventory en v ds now st = process_collected en ds now (collect_inventory en v st)"

text \<open>
  The lock is taken if it is free; a caller that finds it taken is counted and turned away, without
  an error and without an entry of the budget counters.
\<close>

definition tryScan :: "Runner \<Rightarrow> bool \<times> Runner" where
  "tryScan rn =
     (if rn_scanLocked rn then (False, rn\<lparr>rn_overlappingSkipped := addU64 (rn_overlappingSkipped rn) 1\<rparr>)
      else (True, rn\<lparr>rn_scanLocked := True\<rparr>))"

definition endScan :: "duration \<Rightarrow> Runner \<times> budget \<Rightarrow> Runner \<times> budget" where
  "endScan d st = (case st of (rn, bud) \<Rightarrow> (rn\<lparr>rn_scanLocked := False\<rparr>, fst (ObserveScan bud d)))"

definition runScan :: "(Runner \<times> 'x \<Rightarrow> 'x scan_result) \<Rightarrow> duration \<Rightarrow> budget \<Rightarrow> Runner \<times> 'x \<Rightarrow> 'x scan_result \<times> budget" where
  "runScan body d bud st =
     (case st of (rn, x) \<Rightarrow>
        (case tryScan rn of
           (False, rn') \<Rightarrow> ((None, [], rn', x), bud)
         | (True, rn') \<Rightarrow>
             (let (err, ios, rn1, x1) = body (rn', x); (rn2, bud2) = endScan d (rn1, bud) in ((err, ios, rn2, x1), bud2))))"

definition RunOnce :: "env \<Rightarrow> scan_view \<Rightarrow> (nat \<Rightarrow> clocks \<times> delivery) \<Rightarrow> time \<Rightarrow> duration \<Rightarrow> budget \<Rightarrow> scan_state \<Rightarrow> (netstate \<times> Cache) scan_result \<times> budget" where
  "RunOnce en v ds now d = runScan (scanFull en v ds now) d"

definition RunFIMOnce :: "env \<Rightarrow> scan_view \<Rightarrow> (nat \<Rightarrow> clocks \<times> delivery) \<Rightarrow> time \<Rightarrow> duration \<Rightarrow> budget \<Rightarrow> scan_state \<Rightarrow> (netstate \<times> Cache) scan_result \<times> budget" where
  "RunFIMOnce en v ds now d = runScan (scanFIM en v ds now) d"

definition RunInventoryOnce :: "env \<Rightarrow> scan_view \<Rightarrow> (nat \<Rightarrow> clocks \<times> delivery) \<Rightarrow> time \<Rightarrow> duration \<Rightarrow> budget \<Rightarrow> scan_state \<Rightarrow> (netstate \<times> Cache) scan_result \<times> budget" where
  "RunInventoryOnce en v ds now d = runScan (scanInventory en v ds now) d"

text \<open>
  The rounds of \<^verbatim>\<open>RunLoop\<close>: a full scan, whose error is dropped, and the check of the binary. A round is
  given what it sees of the host and of the clock. The result lists, for every round, what its scan
  processed and what the check of the binary did to the host.
\<close>

record round_io =
  ri_env :: env
  ri_view :: scan_view
  ri_batch :: "nat \<Rightarrow> clocks \<times> delivery"
  ri_now :: time
  ri_took :: duration
  ri_readBin :: "string \<Rightarrow> string + string"
  ri_check :: "clocks \<times> delivery \<times> time \<times> time"

definition loop_round :: "round_io \<Rightarrow> scan_state \<times> budget \<Rightarrow> (scan_failure option \<times> (input \<times> outcome) list \<times> effect list) \<times> scan_state \<times> budget" where
  "loop_round r st =
     (let ((err, ios, rn1, x), bud) = RunOnce (ri_env r) (ri_view r) (ri_batch r) (ri_now r) (ri_took r) (snd st) (fst st);
          (ck, dl, t1, t2) = ri_check r;
          (rn2, fx) = checkBinaryHash (ri_readBin r) (ri_env r) ck dl t1 t2 rn1
      in ((err, ios, fx), (rn2, x), bud))"

fun RunLoop :: "round_io list \<Rightarrow> scan_state \<times> budget \<Rightarrow> (scan_failure option \<times> (input \<times> outcome) list \<times> effect list) list" where
  "RunLoop [] st = []"
| "RunLoop (r # rs) st = (let (out, st') = loop_round r st in out # RunLoop rs st')"

section \<open>A batch is a run of the pipeline\<close>

lemma dispatch_all_traced:
  assumes "traced en rn ios rn1" "dispatch_all en ds i obs es rn1 = (new, rn2)"
  shows "traced en rn (ios @ new) rn2"
  using assms
proof (induction es arbitrary: ios i rn1 new rn2)
  case (Cons e es)
  obtain io r where d: "dispatchEvent en (ds i) rn1 e obs = (io, r)" by (metis surj_pair)
  obtain n2 r2 where a: "dispatch_all en ds (Suc i) obs es r = (n2, r2)" by (metis surj_pair)
  show ?case
    using Cons.IH [OF traced_dispatch [OF Cons.prems(1) d] a] Cons.prems(2) by (simp add: d a)
qed simp

lemma dispatch_all_inputs:
  "dispatch_all en ds i obs es rn = (ios, rn') \<Longrightarrow>
     map fst ios = map (\<lambda>(k, e). (fst (ds k), fst (snd (ds k)), e, obs, snd (snd (ds k)))) (zip [i..<i + length es] es)"
proof (induction es arbitrary: i rn ios rn')
  case (Cons e es)
  obtain io r where d: "dispatchEvent en (ds i) rn e obs = (io, r)" by (metis surj_pair)
  obtain n2 r2 where a: "dispatch_all en ds (Suc i) obs es r = (n2, r2)" by (metis surj_pair)
  have z: "[i..<i + length (e # es)] = i # [Suc i..<Suc i + length es]" by (simp add: upt_rec)
  have "fst io = (fst (ds i), fst (snd (ds i)), e, obs, snd (snd (ds i)))"
    using d by (auto simp: dispatchEvent_def split: prod.splits)
  then show ?case unfolding z using Cons.IH [OF a] Cons.prems by (auto simp: d a)
qed simp

lemma process_batch_run:
  assumes "process_batch en ds now es rn = (ios, rn')"
  shows "map fst ios = map (\<lambda>(k, e). (fst (ds k), snd (ds k), e, 0, now)) (zip [0..<length es] es)"
    and "map snd ios = process_all en rn (map fst ios)" and "dispatched ios = es"
proof -
  note d = assms [unfolded process_batch_def]
  show f: "map fst ios = map (\<lambda>(k, e). (fst (ds k), snd (ds k), e, 0, now)) (zip [0..<length es] es)"
    using dispatch_all_inputs [OF d] by simp
  show "map snd ios = process_all en rn (map fst ios)"
    using dispatch_all_traced [OF _ d, of rn "[]"] by (simp add: traced_def)
  have "dispatched ios = map (\<lambda>(ck, dl, e, obs, now). e) (map fst ios)"
    by (auto simp: dispatched_def)
  also have "\<dots> = map snd (zip [0..<length es] es)" unfolding f by (simp add: comp_def split_beta)
  finally show "dispatched ios = es" by simp
qed

lemmas scanFull_defs = scanFull_def collect_full_def process_collected_def

section \<open>When a full scan fails\<close>

definition allowlist_broken :: "env \<Rightarrow> scan_view \<Rightarrow> Runner \<Rightarrow> bool" where
  "allowlist_broken en v rn \<longleftrightarrow> ReadNetSockets (hs_read (sv_host v)) \<noteq> None \<and> Processes (en_fs en) \<noteq> None \<and>
     (case parseCIDRs (en_net en) (cfg_NetworkAllowlist (rn_cfg rn)) of Inl _ \<Rightarrow> True | Inr _ \<Rightarrow> False)"

lemma networkScanDue_enabled: "networkScanDue rn t \<Longrightarrow> cfg_NetworkScanEnabled (rn_cfg rn)"
  by (auto simp: networkScanDue_def split: if_splits)

lemma network_part_fails:
  assumes "network_part en v rn net = (r, rn1, net1)"
  shows "(case r of Inl _ \<Rightarrow> True | Inr _ \<Rightarrow> False) \<longleftrightarrow> networkScanDue rn (sv_due v) \<and> allowlist_broken en v rn"
    and "r = Inl c \<Longrightarrow> rn1 = rn"
  using assms networkScanDue_enabled [of rn "sv_due v"]
  by (auto simp: network_part_def network_Scan_def allowlist_broken_def Let_def split: if_splits option.splits prod.splits sum.splits)

definition maps_fail :: "env \<Rightarrow> Runner \<Rightarrow> bool" where
  "maps_fail en rn \<longleftrightarrow> cfg_MapsScanEnabled (rn_cfg rn) \<and> Processes (en_fs en) = None"

lemma memorymaps_fails: "memorymaps_Scan h (en_fs en) t (rn_cfg rn) pack ver s = None \<longleftrightarrow> maps_fail en rn"
  by (auto simp: memorymaps_Scan_def maps_fail_def)

text \<open>The events of a full scan that does not fail.\<close>

definition full_events :: "env \<Rightarrow> scan_view \<Rightarrow> Runner \<Rightarrow> netstate \<Rightarrow> Snapshot \<Rightarrow> Event list" where
  "full_events en v rn net s =
     (if cfg_IntegrityVerifyEnabled (rn_cfg rn) \<and> cfg_IntegrityScanInterval (rn_cfg rn) \<le> 0 then integrity_events en v rn s else []) @
     (case memorymaps_Scan (en_sha en) (en_fs en) (sv_times v 13) (rn_cfg rn) (rn_pack rn) AgentVersion s of None \<Rightarrow> [] | Some es \<Rightarrow> es) @
     (case fst (network_part en v rn net) of Inl _ \<Rightarrow> [] | Inr es \<Rightarrow> es) @ late_events en v rn s"

lemma late_events_net [simp]: "late_events en v (rn\<lparr>rn_lastNetworkScan := t\<rparr>) s = late_events en v rn s"
  by (simp add: late_events_def collectFIM_def)

lemma late_events_after: "network_part en v rn net = (r, rn1, net1) \<Longrightarrow> late_events en v rn1 s = late_events en v rn s"
  by (auto simp: network_part_def split: if_splits prod.splits sum.splits)

lemma scanFull_cases:
  "scanFull en v ds now (rn, net, c) = (err, ios, rn', net', c') \<Longrightarrow>
   (if fst (get_baseline v rn c) = None \<or> maps_fail en rn \<or> networkScanDue rn (sv_due v) \<and> allowlist_broken en v rn
    then err \<noteq> None \<and> ios = [] \<and> rn' = rn
    else err = None \<and> (\<exists>s rn1. fst (get_baseline v rn c) = Some s \<and> (rn1 = rn \<or> rn1 = rn\<lparr>rn_lastNetworkScan := sv_netDone v\<rparr>) \<and>
           process_batch en ds now (full_events en v rn net s) rn1 = (ios, rn')))"
proof -
  assume a: "scanFull en v ds now (rn, net, c) = (err, ios, rn', net', c')"
  obtain os c1 where g: "get_baseline v rn c = (os, c1)" by (metis surj_pair)
  obtain r rn1 net1 where n: "network_part en v rn net = (r, rn1, net1)" by (metis prod_cases3)
  have r1: "rn1 = rn \<or> rn1 = rn\<lparr>rn_lastNetworkScan := sv_netDone v\<rparr>"
    using n by (auto simp: network_part_def split: if_splits prod.splits sum.splits)
  show ?thesis
  proof (cases "os = None \<or> maps_fail en rn")
    case True
    then consider (base) "os = None" | (maps) s where "os = Some s" "maps_fail en rn" by blast
    then show ?thesis
    proof cases
      case base
      then show ?thesis using a g by (auto simp: scanFull_defs)
    next
      case maps
      then show ?thesis using a g memorymaps_fails [THEN iffD2, OF maps(2)] by (auto simp: scanFull_defs)
    qed
  next
    case False
    then obtain s maps where s: "os = Some s"
      and m: "memorymaps_Scan (en_sha en) (en_fs en) (sv_times v 13) (rn_cfg rn) (rn_pack rn) AgentVersion s = Some maps"
      by (metis memorymaps_fails not_None_eq)
    show ?thesis
    proof (cases r)
      case (Inl cidr)
      then show ?thesis
        using a network_part_fails [OF n] by (auto simp: scanFull_defs g s m n)
    next
      case (Inr es)
      have "process_batch en ds now (full_events en v rn net s) rn1 = (ios, rn')" "err = None"
        using a by (auto simp: scanFull_defs g s m n Inr full_events_def late_events_after [OF n] Let_def split: prod.splits)
      then show ?thesis using network_part_fails(1) [OF n] False r1 by (auto simp: Inr g s)
    qed
  qed
qed

section \<open>What a scan reports\<close>

definition full_catalog :: "string list" where
  "full_catalog = integrity_rules @ map_rules @ network_rules @ [RulePageCachePois, RuleRareAncestry] @ yara_rules @ web_rules @
     persistence_rules @ preload_rules @ fim_rules @ defense_rules"

lemma catalog_sets:
  "set integrity_rules \<subseteq> set full_catalog" "set map_rules \<subseteq> set full_catalog" "set network_rules \<subseteq> set full_catalog"
  "set [RulePageCachePois] \<subseteq> set full_catalog" "set [RuleRareAncestry] \<subseteq> set full_catalog" "set yara_rules \<subseteq> set full_catalog"
  "set web_rules \<subseteq> set full_catalog" "set persistence_rules \<subseteq> set full_catalog" "set preload_rules \<subseteq> set full_catalog"
  "set fim_rules \<subseteq> set full_catalog" "set defense_rules \<subseteq> set full_catalog"
  by (auto simp: full_catalog_def)

lemma integrity_events_ok: "e \<in> set (integrity_events en v rn s) \<Longrightarrow> finding_ok (en_sha en) (rn_pack rn) AgentVersion full_catalog e"
  using integrity.reported [where i = "(sv_host v, s)", of e] finding_ok_mono [OF _ catalog_sets(1)] by (fastforce simp: integrity_events_def)

lemma network_part_ok:
  assumes "network_part en v rn net = (Inr es, rn1, net1)" "e \<in> set es"
  shows "finding_ok (en_sha en) (rn_pack rn) AgentVersion full_catalog e"
proof -
  have "e \<in> set (scan_events (network_Scan (en_sha en) (en_net en) (en_fs en) (hs_read (sv_host v)) (sv_fds v) (sv_netTimes v)
      (rn_cfg rn) (rn_pack rn) AgentVersion net))"
    using assms by (auto simp: network_part_def scan_events_def split: if_splits prod.splits sum.splits)
  then have "finding_ok (en_sha en) (rn_pack rn) AgentVersion network_rules e"
    using network.reported [where i = "(en_net en, en_fs en, hs_read (sv_host v), sv_fds v, sv_netTimes v, rn_cfg rn, net)"] by simp
  then show ?thesis by (rule finding_ok_mono) (rule catalog_sets)
qed

lemma collectFIM_ok:
  assumes "e \<in> set (collectFIM en v rn s)"
  shows "finding_ok (en_sha en) (rn_pack rn) AgentVersion full_catalog e"
proof -
  let ?ok = "\<lambda>r. finding_ok (en_sha en) (rn_pack rn) AgentVersion r e"
  have "?ok persistence_rules \<or> ?ok preload_rules \<or> ?ok web_rules \<or> ?ok fim_rules \<or> ?ok defense_rules"
    using assms persistence.reported [where i = "(sv_host v, s)", of e] ldpreload.reported [where i = "(sv_host v, s)", of e]
      fim.reported [where i = "(sv_host v, s)", of e] defense_state.reported [of e _ _ _ _ "IsCommitted s"]
      web_scans_ok [of e]
    by (auto simp: collectFIM_def Let_def)
  then show ?thesis using catalog_sets finding_ok_mono by metis
qed

lemma late_events_ok:
  assumes "e \<in> set (late_events en v rn s)"
  shows "finding_ok (en_sha en) (rn_pack rn) AgentVersion full_catalog e"
proof -
  let ?ok = "\<lambda>r. finding_ok (en_sha en) (rn_pack rn) AgentVersion r e"
  have "?ok [RulePageCachePois] \<or> ?ok [RuleRareAncestry] \<or> ?ok yara_rules \<or> ?ok web_rules \<or> ?ok full_catalog"
    using assms copyfail_scan.reported [where i = "(sv_hash1 v, sv_hash2 v)", of e] ancestry.reported [of e]
      yara.reported [where i = "(en_fs en, sv_host v, sv_times v 4, rn_cfg rn)", of e] recon_walk_ok [of e] collectFIM_ok [of e en v rn s]
    by (auto simp: late_events_def Let_def ScanReconChildren_def split: if_splits)
  then show ?thesis using catalog_sets finding_ok_mono by metis
qed

lemma full_events_ok: "list_all (finding_ok (en_sha en) (rn_pack rn) AgentVersion full_catalog) (full_events en v rn net s)"
proof -
  have "finding_ok (en_sha en) (rn_pack rn) AgentVersion full_catalog e" if e: "e \<in> set (full_events en v rn net s)" for e
  proof -
    obtain r rn1 net1 where n: "network_part en v rn net = (r, rn1, net1)" by (metis prod_cases3)
    have m: "finding_ok (en_sha en) (rn_pack rn) AgentVersion map_rules e"
      if "memorymaps_Scan (en_sha en) (en_fs en) (sv_times v 13) (rn_cfg rn) (rn_pack rn) AgentVersion s = Some es" "e \<in> set es" for es
      using memorymaps.reported [of e "en_sha en" "en_fs en" "sv_times v 13" "rn_cfg rn" "rn_pack rn" AgentVersion s] that by simp
    show ?thesis
      using e m [THEN finding_ok_mono, OF _ _ catalog_sets(2)] network_part_ok [of en v rn net _ rn1 net1 e] integrity_events_ok late_events_ok
      by (auto simp: full_events_def n split: if_splits option.splits sum.splits dest: sym)
  qed
  then show ?thesis by (simp add: list_all_iff)
qed

section \<open>The loop\<close>

text \<open>The pipeline leaves the lock, its counter and the time of the last network scan alone.\<close>

lemma act_event_scan:
  "act_event en ck rn e r obs = (rn', e', fx) \<Longrightarrow>
     rn_scanLocked rn' = rn_scanLocked rn \<and> rn_overlappingSkipped rn' = rn_overlappingSkipped rn \<and> rn_lastNetworkScan rn' = rn_lastNetworkScan rn"
  by (auto simp: act_event_def split: option.splits prod.splits)

lemma gates_scan:
  "gates ck rn e = (v, rn') \<Longrightarrow>
     rn_scanLocked rn' = rn_scanLocked rn \<and> rn_overlappingSkipped rn' = rn_overlappingSkipped rn \<and> rn_lastNetworkScan rn' = rn_lastNetworkScan rn"
  by (auto simp: gates_def shouldDedup_def Let_def split: if_splits prod.splits)

lemma emit_scan:
  "emit en dl rn e = (rn', e', fx) \<Longrightarrow>
     rn_scanLocked rn' = rn_scanLocked rn \<and> rn_overlappingSkipped rn' = rn_overlappingSkipped rn \<and> rn_lastNetworkScan rn' = rn_lastNetworkScan rn"
  by (auto simp: emit_def Let_def split: option.splits)

lemma processEvent_scan:
  assumes "processEvent en ck dl rn e obs now = (v, rn', e', fx)"
  shows "rn_scanLocked rn' = rn_scanLocked rn" "rn_overlappingSkipped rn' = rn_overlappingSkipped rn"
    "rn_lastNetworkScan rn' = rn_lastNetworkScan rn"
proof -
  from processEvent_stages [OF assms] obtain rn1 rn2 e2 fx1 rn3 where s:
    "rn1 = rn\<lparr>rn_correlator := addFull (rn_correlator rn) (ev_RuleID e) (ent_ID (ev_Entity e))
        (ev_Anchor (prepare en rn now e)) (ev_ConfBand (prepare en rn now e)) now\<rparr>"
    "act_event en ck rn1 (prepare en rn now e) (rule_for rn (prepare en rn now e)) obs = (rn2, e2, fx1)"
    "gates ck rn2 e2 = (v, rn3)"
    "if v = EmittedQuiet \<or> v = Alerted then \<exists>fx2. emit en dl rn3 e2 = (rn', e', fx2) \<and> fx = fx1 @ fx2
     else rn' = rn3 \<and> e' = e2 \<and> fx = fx1" .
  have "rn_scanLocked rn' = rn_scanLocked rn3 \<and> rn_overlappingSkipped rn' = rn_overlappingSkipped rn3 \<and> rn_lastNetworkScan rn' = rn_lastNetworkScan rn3"
    using s(4) emit_scan by (metis (no_types, lifting))
  then show "rn_scanLocked rn' = rn_scanLocked rn" "rn_overlappingSkipped rn' = rn_overlappingSkipped rn"
    "rn_lastNetworkScan rn' = rn_lastNetworkScan rn"
    using act_event_scan [OF s(2)] gates_scan [OF s(3)] by (simp_all add: s(1))
qed

lemma checkBinaryHash_scan:
  assumes "checkBinaryHash readBin en ck dl t1 t2 rn = (rn', fx)"
  shows "rn_scanLocked rn' = rn_scanLocked rn" "rn_lastNetworkScan rn' = rn_lastNetworkScan rn" "rn_cfg rn' = rn_cfg rn"
  using assms by (auto simp: checkBinaryHash_def Let_def processEvent_scan processEvent_frame(1) split: if_splits option.splits prod.splits)

text \<open>A runner that has never scanned the network and whose allowlist does not parse.\<close>

definition blinded :: "netlib \<Rightarrow> Runner \<Rightarrow> bool" where
  "blinded nl rn \<longleftrightarrow> \<not> rn_scanLocked rn \<and> cfg_NetworkScanEnabled (rn_cfg rn) \<and> IsZero (rn_lastNetworkScan rn) \<and>
     (case parseCIDRs nl (cfg_NetworkAllowlist (rn_cfg rn)) of Inl _ \<Rightarrow> True | Inr _ \<Rightarrow> False)"

definition sees_host :: "netlib \<Rightarrow> round_io \<Rightarrow> bool" where
  "sees_host nl r \<longleftrightarrow> en_net (ri_env r) = nl \<and> ReadNetSockets (hs_read (sv_host (ri_view r))) \<noteq> None \<and> Processes (en_fs (ri_env r)) \<noteq> None"

lemma blinded_round:
  assumes "blinded nl rn" "sees_host nl r" "loop_round r ((rn, x), bud) = ((err, ios, fx), (rn', x'), bud')"
  shows "err \<noteq> None \<and> ios = [] \<and> blinded nl rn'"
proof -
  let ?rn = "rn\<lparr>rn_scanLocked := True\<rparr>"
  obtain net c where x: "x = (net, c)" by (cases x)
  obtain e1 ios1 rn1 net1 c1 where f: "scanFull (ri_env r) (ri_view r) (ri_batch r) (ri_now r) (?rn, net, c) = (e1, ios1, rn1, net1, c1)"
    by (metis prod_cases5)
  have "networkScanDue ?rn (sv_due (ri_view r))" "allowlist_broken (ri_env r) (ri_view r) ?rn"
    using assms(1,2) by (auto simp: blinded_def sees_host_def networkScanDue_def allowlist_broken_def)
  then have s: "e1 \<noteq> None" "ios1 = []" "rn1 = ?rn" using scanFull_cases [OF f] by auto
  obtain ck dl t1 t2 where c: "ri_check r = (ck, dl, t1, t2)" by (metis prod_cases4)
  have l: "\<not> rn_scanLocked rn" using assms(1) by (simp add: blinded_def)
  obtain rn2 fx2 where b: "checkBinaryHash (ri_readBin r) (ri_env r) ck dl t1 t2 (?rn\<lparr>rn_scanLocked := False\<rparr>) = (rn2, fx2)" by (metis surj_pair)
  have "err = e1" "ios = ios1" "rn' = rn2"
    using assms(3) l b by (simp_all add: loop_round_def RunOnce_def runScan_def tryScan_def endScan_def x f s c Let_def)
  then show ?thesis
    using s assms(1) checkBinaryHash_scan [OF b] by (simp add: blinded_def)
qed

text \<open>
  One network allowlist entry that does not parse blinds the main loop: with network scans on and none
  made yet, every round that sees sockets and processes ends with an error, and no finding of any detector is
  ever processed, in whatever state the host is.
\<close>

lemma bad_allowlist_blinds:
  assumes "blinded nl rn" "list_all (sees_host nl) rs"
  shows "list_all (\<lambda>(err, ios, fx). err \<noteq> None \<and> ios = []) (RunLoop rs ((rn, x), bud))"
  using assms
proof (induction rs arbitrary: rn x bud)
  case (Cons r rs)
  obtain err ios fx rn' x' bud' where l: "loop_round r ((rn, x), bud) = ((err, ios, fx), (rn', x'), bud')" by (metis prod_cases4 surj_pair)
  have "err \<noteq> None \<and> ios = [] \<and> blinded nl rn'" using blinded_round [OF Cons.prems(1) _ l] Cons.prems(2) by simp
  then show ?case using Cons.IH [of rn' x' bud'] Cons.prems(2) by (simp add: l)
qed simp

section \<open>Scans exclude each other\<close>

text \<open>
  Several goroutines start scans: the loop, the watchers, the inventory. A step is an attempt to start one,
  its end, or an event of any goroutine that goes through the pipeline. \<open>sd_running\<close> lists the callers
  inside a scan; the counters of attempts and of ends are those of an observer.
\<close>

record sched =
  sd_runner :: Runner
  sd_budget :: budget
  sd_running :: "nat list"
  sd_attempts :: nat
  sd_done :: nat

inductive sched_step :: "sched \<Rightarrow> sched \<Rightarrow> bool" where
  attempt: "tryScan (sd_runner s) = (ok, rn') \<Longrightarrow>
    sched_step s (s\<lparr>sd_runner := rn', sd_running := (if ok then g # sd_running s else sd_running s), sd_attempts := sd_attempts s + 1\<rparr>)"
| finish: "g \<in> set (sd_running s) \<Longrightarrow> endScan d (sd_runner s, sd_budget s) = (rn', bud') \<Longrightarrow>
    sched_step s (s\<lparr>sd_runner := rn', sd_budget := bud', sd_running := remove1 g (sd_running s), sd_done := sd_done s + 1\<rparr>)"
| event: "processEvent en ck dl (sd_runner s) e obs now = (v, rn', e', fx) \<Longrightarrow> sched_step s (s\<lparr>sd_runner := rn'\<rparr>)"

definition sched_start :: "Runner \<Rightarrow> budget \<Rightarrow> sched" where
  "sched_start rn bud = \<lparr>sd_runner = rn, sd_budget = bud, sd_running = [], sd_attempts = 0, sd_done = 0\<rparr>"

definition sched_inv :: "sched \<Rightarrow> bool" where
  "sched_inv s \<longleftrightarrow> length (sd_running s) = (if rn_scanLocked (sd_runner s) then 1 else 0) \<and>
     (rn_overlappingSkipped (sd_runner s) + length (sd_running s) + sd_done s) mod 2 ^ 64 = sd_attempts s mod 2 ^ 64 \<and>
     bud_scanCount (sd_budget s) mod 2 ^ 64 = sd_done s mod 2 ^ 64"

lemma Suc_wrap: "a mod n = c mod n \<Longrightarrow> Suc a mod n = Suc c mod n" for n :: nat
  by (metis mod_Suc_eq)

lemma wrap_count:
  fixes n :: nat
  assumes "Suc (a + d) mod n = c mod n"
  shows "Suc (Suc a mod n + d) mod n = Suc c mod n"
proof -
  have "(Suc a mod n + Suc d) mod n = (Suc a + Suc d) mod n" by (rule mod_add_left_eq)
  then show ?thesis using Suc_wrap [OF assms] by simp
qed

lemma sched_inv_step:
  assumes "sched_inv s" "sched_step s t"
  shows "sched_inv t"
  using assms(2)
proof (cases rule: sched_step.cases)
  case (attempt ok rn' g)
  show ?thesis
  proof (cases "rn_scanLocked (sd_runner s)")
    case True
    then show ?thesis using attempt assms(1) by (auto simp: sched_inv_def tryScan_def addU64_def intro: wrap_count)
  next
    case False
    then show ?thesis using attempt assms(1) by (auto simp: sched_inv_def tryScan_def intro: Suc_wrap)
  qed
next
  case (finish g d rn' bud')
  then have "rn_scanLocked (sd_runner s)" "sd_running s = [g]"
    using assms(1) by (auto simp: sched_inv_def length_Suc_conv split: if_splits)
  then show ?thesis
    using finish assms(1) by (auto simp: sched_inv_def endScan_def ObserveScan_def Let_def addU64_def intro: Suc_wrap)
next
  case (event en ck dl e obs now v rn' e' fx)
  then show ?thesis using assms(1) processEvent_scan [OF event(2)] by (auto simp: sched_inv_def)
qed

lemma sched_inv_reachable:
  assumes "sched_step\<^sup>*\<^sup>* (sched_start rn bud) s" "\<not> rn_scanLocked rn" "rn_overlappingSkipped rn = 0" "bud_scanCount bud = 0"
  shows "sched_inv s"
  using assms
proof (induction rule: rtranclp_induct)
  case base
  then show ?case by (simp add: sched_start_def sched_inv_def)
qed (blast intro: sched_inv_step)

section \<open>Sample scans\<close>

text \<open>A host with one file below the document root, one process and one socket, and YARA rules that match the file.\<close>

definition socket_table :: string where
  "socket_table = ''sl'' @ [CHR 0x0A] @ ''0: 0100007F:0016 00000000:0000 0A 0 0 0 x 0 x''"

definition scan_view0 :: scan_view where
  "scan_view0 = \<lparr>sv_host = (web_host ''x'' 0)\<lparr>hs_read := (\<lambda>p. if p = ''/proc/net/tcp'' then Some socket_table else None)\<rparr>,
     sv_disk = (\<lambda>p. Missing), sv_unmarshal = (\<lambda>b. None), sv_rx = (\<lambda>p s. False), sv_fmt = (\<lambda>r. []), sv_md5 = id,
     sv_parseKey = (\<lambda>l. None), sv_fds = (\<lambda>p. None), sv_hash1 = (\<lambda>p. None), sv_hash2 = (\<lambda>p. None),
     sv_yara = Some (Some \<lparr>yr_ScanFile = (\<lambda>p. Some [(''Eicar'', [''test''])]), yr_ScanProc = (\<lambda>pid. Some [])\<rparr>),
     sv_times = (\<lambda>i. 7), sv_due = 7, sv_netTimes = (7, 7, 7), sv_netDone = 7\<rparr>"

definition scan_env :: env where
  "scan_env = \<lparr>en_sha = (\<lambda>s. ''h'' @ s), en_rx = (\<lambda>p. None), en_dur = (\<lambda>s. None),
     en_net = \<lparr>nl_parseIP = (\<lambda>s. None), nl_parseCIDR = (\<lambda>s. None), nl_ipString = (\<lambda>a. [])\<rparr>,
     en_fs = \<lparr>pf_file = (\<lambda>p f. None), pf_exe = (\<lambda>p. None), pf_root = Some [(''42'', True)], pf_children = (\<lambda>p. [])\<rparr>,
     en_json = (\<lambda>e. None), en_world = sample_world, en_map = None\<rparr>"

definition scan_runner :: "string list \<Rightarrow> Runner" where
  "scan_runner allow = NewRunner (Default\<lparr>cfg_DocumentRoots := [''/srv''], cfg_NetworkScanEnabled := True, cfg_NetworkAllowlist := allow\<rparr>)
     no_rules None NewFeed False None"

definition scan_round :: round_io where
  "scan_round = \<lparr>ri_env = scan_env, ri_view = scan_view0,
     ri_batch = (\<lambda>i. (\<lparr>ck_act = (7, 7, 7), ck_dedup = (7, 7, 7), ck_limit = 7\<rparr>, \<lparr>dl_syslog = None, dl_sinks = [], dl_io = (\<lambda>i. no_faults)\<rparr>)),
     ri_now = 7, ri_took = 1, ri_readBin = (\<lambda>p. Inl []),
     ri_check = (\<lparr>ck_act = (7, 7, 7), ck_dedup = (7, 7, 7), ck_limit = 7\<rparr>, \<lparr>dl_syslog = None, dl_sinks = [], dl_io = (\<lambda>i. no_faults)\<rparr>, 7, 7)\<rparr>"

definition zero_budget :: budget where
  "zero_budget = \<lparr>bud_scanCount = 0, bud_lastScanMs = 0, bud_procReads = 0, bud_hashBytes = 0, bud_scansLogged = 0\<rparr>"

lemma scan_runner_fields [simp]:
  "rn_cfg (scan_runner al) = Default\<lparr>cfg_DocumentRoots := [''/srv''], cfg_NetworkScanEnabled := True, cfg_NetworkAllowlist := al\<rparr>"
  "rn_scanLocked (scan_runner al) = False" "rn_overlappingSkipped (scan_runner al) = 0" "rn_pack (scan_runner al) = no_rules" "IsZero (rn_lastNetworkScan (scan_runner al))"
  by (simp_all add: scan_runner_def NewRunner_def)

lemma scan_env_sha: "en_sha scan_env = (\<lambda>s. ''h'' @ s)"
  by (simp add: scan_env_def)

definition socket_line :: string where
  "socket_line = ''0: 0100007F:0016 00000000:0000 0A 0 0 0 x 0 x''"

lemma socket_line_fields:
  "Fields socket_line = [''0:'', ''0100007F:0016'', ''00000000:0000'', ''0A'', ''0'', ''0'', ''0'', ''x'', ''0'', ''x'']"
  by code_simp

lemma socket_line_parses: "parseSocketLine ''tcp'' socket_line \<noteq> None"
proof -
  have p: "ParseHexInt 32 ''0016'' = Some 22" "ParseHexInt 32 ''0000'' = Some 0" "ParseHexUint 8 ''0A'' = Some 10"
    by (simp_all add: ParseHexInt_def ParseHexUint_def ParseHexNat_def hex_val_def is_digit_def)
  have "IndexByte ''0100007F:0016'' (CHR '':'') = Some 8" "IndexByte ''00000000:0000'' (CHR '':'') = Some 8"
    "DecodeHex ''0100007F'' = Some [1, 0, 0, 127]" "DecodeHex ''00000000'' = Some [0, 0, 0, 0]"
    by code_simp+
  then have "parseHexAddr ''0100007F:0016'' = Some (swap_groups [1, 0, 0, 127], 22)"
    "parseHexAddr ''00000000:0000'' = Some (swap_groups [0, 0, 0, 0], 0)"
    by (simp_all add: parseHexAddr_def p)
  then show ?thesis by (simp add: parseSocketLine_def socket_line_fields Let_def p)
qed

lemma raw_lines_table: "raw_lines socket_table = [''sl'', socket_line]"
  by code_simp

lemma scan_sockets: "ReadNetSockets (hs_read (sv_host scan_view0)) \<noteq> None"
proof -
  have len: "length socket_line < line_limit" "length ''sl'' < line_limit" "drop_cr socket_line = socket_line"
    by (simp_all add: socket_line_def line_limit_def drop_cr_def)
  obtain row where "parseSocketLine ''tcp'' socket_line = Some row" using socket_line_parses by blast
  then have "readSocketFile (hs_read (sv_host scan_view0)) ''/proc/net/tcp'' = Some [row]"
    using len by (simp add: readSocketFile_def scan_error_def scan_lines_def raw_lines_table scan_view0_def map_filter_def)
  then show ?thesis by (simp add: ReadNetSockets_def Let_def)
qed

lemma mistyped_allowlist_blinds:
  "list_all (\<lambda>(err, ios, fx). err \<noteq> None \<and> ios = [])
     (RunLoop (replicate n scan_round) ((scan_runner [''10.0.0/8''], zero_netstate, zero_Cache), zero_budget))"
proof -
  let ?rn = "scan_runner [''10.0.0/8'']"
  have t: "TrimSpace ''10.0.0/8'' = ''10.0.0/8''" by code_simp
  have "blinded (en_net scan_env) ?rn" by (simp add: blinded_def scan_env_def t)
  moreover have "list_all (sees_host (en_net scan_env)) (replicate n scan_round)"
    using scan_sockets by (simp add: sees_host_def scan_round_def scan_env_def Processes_def list_all_iff)
  ultimately show ?thesis by (rule bad_allowlist_blinds)
qed

section \<open>Correctness\<close>

text \<open>
  C8. A full scan is all or nothing. It fails exactly when the baseline cannot be read, the process
  table cannot be listed while maps are scanned, or a network scan is due and meets an allowlist that does not
  parse; a scan that fails has processed no event and left the runner as it was.
\<close>

theorem full_scan_fails_iff:
  "case scanFull en v ds now (rn, net, c) of (err, ios, rn', net', c') \<Rightarrow>
     (err \<noteq> None \<longleftrightarrow> fst (get_baseline v rn c) = None \<or> maps_fail en rn \<or> networkScanDue rn (sv_due v) \<and> allowlist_broken en v rn) \<and>
     (err = None \<or> ios = [] \<and> rn' = rn)"
proof -
  obtain err ios rn' net' c' where f: "scanFull en v ds now (rn, net, c) = (err, ios, rn', net', c')" by (metis prod_cases5)
  show ?thesis using scanFull_cases [OF f] by (auto simp: f split: if_splits)
qed

text \<open>
  C6. A full scan that succeeds is a run of the pipeline on the findings of all its detectors, taken
  against one snapshot of the baseline, each processed once, in the order of the detectors, with one reading of the clock
  and no time of observation; every one of them is a finding of the scan catalogue.
\<close>

theorem full_scan_refines:
  assumes "scanFull en v ds now (rn, net, c) = (None, ios, rn', net', c')"
  shows "\<exists>s rn1. fst (get_baseline v rn c) = Some s \<and> (rn1 = rn \<or> rn1 = rn\<lparr>rn_lastNetworkScan := sv_netDone v\<rparr>) \<and>
    map fst ios = map (\<lambda>(k, e). (fst (ds k), snd (ds k), e, 0, now)) (zip [0..<length (full_events en v rn net s)] (full_events en v rn net s)) \<and>
    map snd ios = process_all en rn1 (map fst ios) \<and>
    list_all (finding_ok (en_sha en) (rn_pack rn) AgentVersion full_catalog) (dispatched ios)"
proof -
  obtain s rn1 where s: "fst (get_baseline v rn c) = Some s" "rn1 = rn \<or> rn1 = rn\<lparr>rn_lastNetworkScan := sv_netDone v\<rparr>"
    and b: "process_batch en ds now (full_events en v rn net s) rn1 = (ios, rn')"
    using scanFull_cases [OF assms] by (auto split: if_splits)
  show ?thesis using s process_batch_run [OF b] full_events_ok [of en rn v net s] by (intro exI [of _ s] exI [of _ rn1]) simp
qed

theorem full_scan_refines_witness:
  "case scanFull scan_env scan_view0 (ri_batch scan_round) 7 (scan_runner [], zero_netstate, zero_Cache) of (err, ios, rn', net', c') \<Rightarrow>
     err = None \<and> list_ex (\<lambda>e. ev_RuleID e = RuleYARADisk) (dispatched ios) \<and>
     list_all (finding_ok (\<lambda>s. ''h'' @ s) no_rules AgentVersion full_catalog) (dispatched ios)"
proof -
  let ?rn = "scan_runner []"
  obtain err ios rn' net' c' where f: "scanFull scan_env scan_view0 (ri_batch scan_round) 7 (?rn, zero_netstate, zero_Cache) = (err, ios, rn', net', c')"
    by (metis prod_cases5)
  have g: "fst (get_baseline scan_view0 ?rn zero_Cache) = Some EmptySnapshot"
    by (simp add: get_baseline_def CacheGet_def scan_view0_def zero_Cache_def)
  have "\<not> maps_fail scan_env ?rn" "\<not> allowlist_broken scan_env scan_view0 ?rn"
    by (simp_all add: maps_fail_def allowlist_broken_def scan_env_def Processes_def)
  then have e: "err = None" using scanFull_cases [OF f] g by (auto split: if_splits)
  have "RuleYARADisk \<in> ev_RuleID ` set (full_events scan_env scan_view0 ?rn zero_netstate EmptySnapshot)"
    by (simp add: full_events_def late_events_def yara_Scan_def scan_view0_def scanTree_def ScanFile_def toMatchesFile_def web_host_def
        Let_def makeFileEvent_def image_Un)
  moreover obtain s rn1 where s: "fst (get_baseline scan_view0 ?rn zero_Cache) = Some s"
    "map fst ios = map (\<lambda>(k, e). (fst (ri_batch scan_round k), snd (ri_batch scan_round k), e, 0, 7))
       (zip [0..<length (full_events scan_env scan_view0 ?rn zero_netstate s)] (full_events scan_env scan_view0 ?rn zero_netstate s))"
    "list_all (finding_ok (en_sha scan_env) (rn_pack ?rn) AgentVersion full_catalog) (dispatched ios)"
    using full_scan_refines [OF f [unfolded e]] by blast
  moreover have "dispatched ios = map (\<lambda>(ck, dl, e, obs, now). e) (map fst ios)" by (auto simp: dispatched_def)
  ultimately have "RuleYARADisk \<in> ev_RuleID ` set (dispatched ios)"
    using g by (simp add: comp_def split_beta)
  then have "list_ex (\<lambda>e. ev_RuleID e = RuleYARADisk) (dispatched ios)" unfolding list_ex_iff image_iff by metis
  then show ?thesis using e s(3) by (simp add: f scan_env_sha)
qed

text \<open>
  C9. Scans exclude each other. Whatever goroutines try to scan and whatever events go through the
  pipeline meanwhile, from a fresh runner at most one caller is inside a scan, exactly while the lock is held;
  every attempt is counted as skipped, as running or as done, and the budget counts the scans done.
\<close>

theorem scans_exclusive:
  assumes "sched_step\<^sup>*\<^sup>* (sched_start (NewRunner cfg pack spool feed vault mapping) zero_budget) s"
  shows "length (sd_running s) = (if rn_scanLocked (sd_runner s) then 1 else 0) \<and>
    (rn_overlappingSkipped (sd_runner s) + length (sd_running s) + sd_done s) mod 2 ^ 64 = sd_attempts s mod 2 ^ 64 \<and>
    bud_scanCount (sd_budget s) mod 2 ^ 64 = sd_done s mod 2 ^ 64"
proof -
  have "sched_inv s" by (rule sched_inv_reachable [OF assms]) (simp_all add: NewRunner_def zero_budget_def)
  then show ?thesis unfolding sched_inv_def .
qed

theorem scans_exclusive_witness:
  "\<exists>s. sched_step\<^sup>*\<^sup>* (sched_start (scan_runner []) zero_budget) s \<and> sd_running s = [1] \<and> sd_attempts s = 2 \<and> sd_done s = 0 \<and>
     rn_overlappingSkipped (sd_runner s) mod 2 ^ 64 = 1"
proof -
  let ?s0 = "sched_start (scan_runner []) zero_budget"
  let ?s1 = "?s0\<lparr>sd_runner := (scan_runner [])\<lparr>rn_scanLocked := True\<rparr>, sd_running := [1], sd_attempts := 1\<rparr>"
  let ?s2 = "?s1\<lparr>sd_runner := (scan_runner [])\<lparr>rn_scanLocked := True, rn_overlappingSkipped := 1\<rparr>, sd_attempts := Suc 1\<rparr>"
  have "sched_step ?s0 ?s1"
    using sched_step.attempt [where s = ?s0 and ok = True and g = 1] by (simp add: tryScan_def sched_start_def)
  moreover have "sched_step ?s1 ?s2"
    using sched_step.attempt [where s = ?s1 and ok = False and g = 2] by (simp add: tryScan_def sched_start_def addU64_def)
  ultimately have r: "sched_step\<^sup>*\<^sup>* ?s0 ?s2" by (meson converse_rtranclp_into_rtranclp rtranclp.rtrancl_refl)
  show ?thesis
    using r scans_exclusive [OF r [unfolded scan_runner_def]] by (intro exI [of _ ?s2]) (simp add: sched_start_def)
qed

end
