(* ===== verification/GC_Watch.thy ===== *)
theory GC_Watch
  imports GC_Cron GC_WebText
begin

text \<open>
  The file watchers (\<^verbatim>\<open>watch\<close>): which directories are watched, which notifications count, and the
  debounced trigger of the light scan. The notifications of fsnotify are the input; a watcher is a machine
  that is given them with the time they arrive and what the file system looks like then. The trigger is
  shared by both watchers: the locale \<open>debounced\<close> states what it promises.
\<close>

section \<open>Sensitive paths\<close>

record SensitivePathSpec =
  wp_Path :: string
  wp_Recursive :: bool
  wp_FilenameFilter :: "(string \<Rightarrow> bool) option"

definition sensitive_table :: "(string \<times> bool) list" where
  "sensitive_table =
     [(''/etc/ld.so.preload'', False), (''/etc/ld.so.conf'', False), (''/etc/ld.so.conf.d'', True), (''/etc/crontab'', False),
      (''/etc/anacrontab'', False), (''/etc/cron.d'', True), (''/etc/cron.hourly'', True), (''/etc/cron.daily'', True), (''/etc/cron.weekly'', True),
      (''/etc/cron.monthly'', True), (''/var/spool/cron'', True), (''/var/spool/at'', True), (''/var/spool/atjobs'', True),
      (''/etc/systemd/system'', True), (''/lib/systemd/system'', True), (''/usr/lib/systemd/system'', True), (''/run/systemd/system'', True),
      (''/etc/sudoers'', False), (''/etc/sudoers.d'', True), (''/etc/pam.d'', True), (''/etc/ssh/sshd_config'', False),
      (''/etc/ssh/sshd_config.d'', True), (''/etc/passwd'', False), (''/etc/shadow'', False), (''/etc/group'', False),
      (''/etc/nsswitch.conf'', False), (''/etc/modules'', False), (''/etc/modules-load.d'', True), (''/etc/modprobe.d'', True),
      (''/etc/apt/apt.conf.d'', True), (''/etc/update-motd.d'', True), (''/etc/profile'', False), (''/etc/profile.d'', True),
      (''/etc/bash.bashrc'', False), (''/etc/environment'', False), (''/etc/default'', True), (''/etc/networkd-dispatcher'', True),
      (''/etc/NetworkManager/dispatcher.d'', True), (''/etc/network/if-up.d'', True), (''/etc/udev/rules.d'', True),
      (''/etc/polkit-1/rules.d'', True), (''/etc/needrestart/conf.d'', True), (''/etc/rc.local'', False), (''/etc/initramfs-tools'', True),
      (''/etc/default/grub'', False), (''/etc/xdg/autostart'', True), (''/etc/apparmor.d/disable'', True), (''/usr/share/pam-configs'', True),
      (''/etc/ssh'', False), (''/etc/rsyslog.conf'', False), (''/etc/rsyslog.d'', True)]"

definition script_exts :: "string list" where
  "script_exts = [''.php'', ''.phtml'', ''.phar'', ''.inc'', ''.jsp'', ''.jspx'', ''.asp'', ''.aspx'', ''.ashx'', ''.cfm'', ''.pl'', ''.cgi'', ''.py'']"

definition script_name :: "string \<Rightarrow> bool" where
  "script_name name \<longleftrightarrow> list_ex (HasSuffix name) script_exts"

definition DefaultSensitivePaths :: "string list \<Rightarrow> SensitivePathSpec list" where
  "DefaultSensitivePaths documentRoots =
     map (\<lambda>(p, r). \<lparr>wp_Path = p, wp_Recursive = r, wp_FilenameFilter = None\<rparr>) sensitive_table @
     map (\<lambda>root. \<lparr>wp_Path = root, wp_Recursive = True, wp_FilenameFilter = Some script_name\<rparr>) documentRoots"

definition pathUnder :: "string \<Rightarrow> string \<Rightarrow> bool" where
  "pathUnder top_dir path =
     (if top_dir = [] \<or> path = [] then False
      else Clean path = Clean top_dir \<or> HasPrefix (Clean path) (Clean top_dir @ ''/''))"

text \<open>\<^verbatim>\<open>filepath.Dir\<close>.\<close>

definition PathDir :: "string \<Rightarrow> string" where
  "PathDir p = Clean (rev (dropWhile (\<lambda>c. c \<noteq> CHR ''/'') (rev p)))"

definition is_dir :: "host \<Rightarrow> string \<Rightarrow> bool" where
  "is_dir H p = (case hs_stat H p of None \<Rightarrow> False | Some st \<Rightarrow> fi_IsDir st)"

definition register :: "host \<Rightarrow> string \<Rightarrow> string list" where
  "register H dir = (if is_dir H dir then [dir] else [])"

definition spec_dirs :: "host \<Rightarrow> SensitivePathSpec \<Rightarrow> string list" where
  "spec_dirs H s =
     (if \<not> is_dir H (wp_Path s) then register H (PathDir (wp_Path s))
      else if wp_Recursive s then concat (map (\<lambda>(p, isdir). if isdir then register H p else []) (hs_walk H (wp_Path s)))
      else register H (wp_Path s))"

section \<open>The trigger\<close>

text \<open>Times at which the scan was triggered are kept in order; a pending timer holds the time it fires.\<close>

record watch_state =
  ws_dirs :: "string list"
  ws_timer :: "time option"
  ws_fired :: "time list"

definition fire_until :: "time \<Rightarrow> watch_state \<Rightarrow> watch_state" where
  "fire_until t st =
     (case ws_timer st of
        None \<Rightarrow> st
      | Some d \<Rightarrow> if d \<le> t then st\<lparr>ws_timer := None, ws_fired := ws_fired st @ [d]\<rparr> else st)"

definition schedule :: "duration \<Rightarrow> time \<Rightarrow> watch_state \<Rightarrow> watch_state" where
  "schedule delay t st = st\<lparr>ws_timer := Some (t + delay)\<rparr>"

text \<open>No more notifications: a pending timer fires.\<close>

definition settle :: "watch_state \<Rightarrow> watch_state" where
  "settle st = (case ws_timer st of None \<Rightarrow> st | Some d \<Rightarrow> fire_until d st)"

section \<open>The watchers\<close>

datatype fsop = OpWrite | OpCreate | OpRemove | OpRename | OpChmod

record notification =
  nf_time :: time
  nf_name :: string
  nf_ops :: "fsop list"
  nf_host :: host

definition sensitive_keep :: "SensitivePathSpec list \<Rightarrow> string \<Rightarrow> bool" where
  "sensitive_keep specs name =
     (case find (\<lambda>s. wp_FilenameFilter s \<noteq> None \<and> pathUnder (wp_Path s) name) specs of
        None \<Rightarrow> True
      | Some s \<Rightarrow> (case wp_FilenameFilter s of None \<Rightarrow> True | Some f \<Rightarrow> f (Base name)))"

definition sensitive_step :: "SensitivePathSpec list \<Rightarrow> duration \<Rightarrow> notification \<Rightarrow> watch_state \<Rightarrow> watch_state" where
  "sensitive_step specs delay n st0 =
     (let st = fire_until (nf_time n) st0
      in if nf_ops n = [] then st
         else
           (let st1 = (if OpCreate \<in> set (nf_ops n) then st\<lparr>ws_dirs := ws_dirs st @ register (nf_host n) (nf_name n)\<rparr> else st)
            in if sensitive_keep specs (nf_name n) then schedule delay (nf_time n) st1 else st1))"

definition RunSensitive :: "SensitivePathSpec list \<Rightarrow> duration \<Rightarrow> host \<Rightarrow> notification list \<Rightarrow> watch_state" where
  "RunSensitive specs delay H ns =
     fold (sensitive_step specs delay) ns \<lparr>ws_dirs = concat (map (spec_dirs H) specs), ws_timer = None, ws_fired = []\<rparr>"

definition keys_keep :: "notification \<Rightarrow> bool" where
  "keys_keep n \<longleftrightarrow> list_ex (\<lambda>p. p \<noteq> OpChmod) (nf_ops n) \<and> (Base (nf_name n) = ''authorized_keys'' \<or> Base (nf_name n) = ''.ssh'')"

definition keys_step :: "duration \<Rightarrow> notification \<Rightarrow> watch_state \<Rightarrow> watch_state" where
  "keys_step delay n st0 =
     (let st = fire_until (nf_time n) st0 in if keys_keep n then schedule delay (nf_time n) st else st)"

definition keys_dirs :: "host \<Rightarrow> string list" where
  "keys_dirs H =
     (let dirs = remdups (map PathDir (AuthorizedKeysPaths H))
      in filter (is_dir H) dirs @ filter (is_dir H) (map PathDir dirs))"

definition RunAuthorizedKeys :: "duration \<Rightarrow> host \<Rightarrow> notification list \<Rightarrow> watch_state" where
  "RunAuthorizedKeys delay H ns = fold (keys_step delay) ns \<lparr>ws_dirs = keys_dirs H, ws_timer = None, ws_fired = []\<rparr>"

section \<open>What the trigger promises\<close>

fun in_order :: "time \<Rightarrow> notification list \<Rightarrow> bool" where
  "in_order T [] \<longleftrightarrow> True"
| "in_order T (n # ns) \<longleftrightarrow> T \<le> nf_time n \<and> in_order (nf_time n) ns"

definition last_time :: "time \<Rightarrow> notification list \<Rightarrow> time" where
  "last_time T ns = (if ns = [] then T else nf_time (last ns))"

lemma in_order_last: "in_order T ns \<Longrightarrow> T \<le> last_time T ns"
proof (induction ns arbitrary: T)
  case (Cons n ns)
  then have "nf_time n \<le> last_time (nf_time n) ns" "T \<le> nf_time n" by simp_all
  then show ?case by (cases ns) (auto simp: last_time_def)
qed (simp add: last_time_def)

locale debounced =
  fixes step :: "notification \<Rightarrow> watch_state \<Rightarrow> watch_state"
    and kept :: "notification \<Rightarrow> bool"
    and delay :: duration
  assumes step_fired: "ws_fired (step n st) = ws_fired (fire_until (nf_time n) st)"
    and step_timer: "ws_timer (step n st) = (if kept n then Some (nf_time n + delay) else ws_timer (fire_until (nf_time n) st))"
begin

text \<open>What was fired stays fired; a pending timer fires or is set again later.\<close>

definition due :: "time \<Rightarrow> watch_state \<Rightarrow> bool" where
  "due t st \<longleftrightarrow> (\<exists>f \<in> set (ws_fired st). t \<le> f) \<or> (\<exists>d. ws_timer st = Some d \<and> t \<le> d)"

lemma due_step: "due t st \<Longrightarrow> t \<le> nf_time n + delay \<Longrightarrow> due t (step n st)"
  unfolding due_def step_fired step_timer by (auto simp: fire_until_def split: option.splits if_splits)

lemma due_kept: "kept n \<Longrightarrow> due (nf_time n + delay) (step n st)"
  by (simp add: due_def step_timer)

lemma due_fold: "in_order T ns \<Longrightarrow> due t st \<Longrightarrow> t \<le> T + delay \<Longrightarrow> due t (fold step ns st)"
proof (induction ns arbitrary: T st)
  case (Cons n ns)
  show ?case using Cons.IH [of "nf_time n" "step n st"] Cons.prems due_step [of t st n] by simp
qed simp

lemma run_due: "in_order T ns \<Longrightarrow> n \<in> set ns \<Longrightarrow> kept n \<Longrightarrow> due (nf_time n + delay) (fold step ns st)"
proof (induction ns arbitrary: T st)
  case (Cons m ns)
  show ?case
  proof (cases "n = m")
    case True
    then show ?thesis using Cons.prems due_kept [of n st] due_fold [of "nf_time n" ns] by simp
  next
    case False
    then show ?thesis using Cons.IH [of "nf_time m" "step m st"] Cons.prems by simp
  qed
qed simp

text \<open>Nothing fires later than the last notification and the delay.\<close>

definition bounded :: "time \<Rightarrow> watch_state \<Rightarrow> bool" where
  "bounded T st \<longleftrightarrow> (\<forall>f \<in> set (ws_fired st). f \<le> T) \<and> (\<forall>d. ws_timer st = Some d \<longrightarrow> d \<le> T + delay)"

lemma bounded_step: "bounded T st \<Longrightarrow> T \<le> nf_time n \<Longrightarrow> bounded (nf_time n) (step n st)"
  unfolding bounded_def step_fired step_timer by (auto simp: fire_until_def split: option.splits if_splits; force)

lemma bounded_fold: "in_order T ns \<Longrightarrow> bounded T st \<Longrightarrow> bounded (last_time T ns) (fold step ns st)"
proof (induction ns arbitrary: T st)
  case (Cons n ns)
  have "bounded (nf_time n) (step n st)" using bounded_step Cons.prems by simp
  then have "bounded (last_time (nf_time n) ns) (fold step ns (step n st))" using Cons.IH Cons.prems(1) by simp
  then show ?case by (cases ns) (simp_all add: last_time_def)
qed (simp add: last_time_def)

lemma triggers:
  assumes "in_order T ns" "n \<in> set ns" "kept n" "bounded T st" "0 \<le> delay"
  shows "\<exists>f \<in> set (ws_fired (settle (fold step ns st))). nf_time n + delay \<le> f \<and> f \<le> last_time T ns + delay"
  using run_due [OF assms(1-3), of st] bounded_fold [OF assms(1,4)] assms(5)
  by (auto simp: due_def bounded_def settle_def fire_until_def split: option.splits; fastforce)

end

interpretation sensitive: debounced "sensitive_step specs delay" "\<lambda>n. nf_ops n \<noteq> [] \<and> sensitive_keep specs (nf_name n)" delay
  for specs delay
  by unfold_locales (auto simp: sensitive_step_def schedule_def Let_def)

interpretation keys: debounced "keys_step delay" keys_keep delay
  for delay
  by unfold_locales (auto simp: keys_step_def schedule_def Let_def)

section \<open>Correctness\<close>


lemma key_change_triggers_scan:
  assumes "in_order 0 ns" "n \<in> set ns" "keys_keep n" "0 \<le> delay"
  shows "\<exists>f \<in> set (ws_fired (settle (RunAuthorizedKeys delay H ns))). nf_time n + delay \<le> f \<and> f \<le> last_time 0 ns + delay"
  unfolding RunAuthorizedKeys_def
  by (rule keys.triggers) (use assms in \<open>simp_all add: keys.bounded_def\<close>)

section \<open>Sample notifications\<close>

definition sudoers_write :: "time \<Rightarrow> notification" where
  "sudoers_write t = \<lparr>nf_time = t, nf_name = ''/etc/sudoers'', nf_ops = [OpWrite], nf_host = sample_host []\<rparr>"

lemma sudoers_kept: "sensitive_keep (DefaultSensitivePaths []) ''/etc/sudoers''"
proof -
  have "find (\<lambda>s. wp_FilenameFilter s \<noteq> None \<and> pathUnder (wp_Path s) ''/etc/sudoers'') (DefaultSensitivePaths []) = None"
    by (auto simp: find_None_iff DefaultSensitivePaths_def)
  then show ?thesis by (simp add: sensitive_keep_def)
qed


section \<open>Deviations\<close>

text \<open>
  Every notification starts the delay again: as long as notifications come in more often than the delay, no scan
  is triggered at all, however long that goes on.
\<close>

lemma steady_changes_starve:
  assumes "ws_fired st = []" "\<forall>n \<in> set ns. nf_ops n \<noteq> [] \<and> sensitive_keep specs (nf_name n)"
    and "in_order T ns" "\<forall>i < length ns. nf_time (ns ! i) < (if i = 0 then T else nf_time (ns ! (i - 1))) + delay" "0 < delay"
    and "\<forall>d. ws_timer st = Some d \<longrightarrow> T + delay \<le> d"
  shows "ws_fired (fold (sensitive_step specs delay) ns st) = []"
  using assms
proof (induction ns arbitrary: T st)
  case (Cons n ns)
  have lt: "nf_time n < T + delay" using Cons.prems(4) by force
  have f: "fire_until (nf_time n) st = st"
    using Cons.prems(6) lt by (auto simp: fire_until_def split: option.split)
  have next_: "\<forall>i < length ns. nf_time (ns ! i) < (if i = 0 then nf_time n else nf_time (ns ! (i - 1))) + delay"
  proof (intro allI impI)
    fix i assume "i < length ns"
    then show "nf_time (ns ! i) < (if i = 0 then nf_time n else nf_time (ns ! (i - 1))) + delay"
      using Cons.prems(4) [rule_format, of "Suc i"] by (cases i) auto
  qed
  have s: "ws_fired (sensitive_step specs delay n st) = []" "ws_timer (sensitive_step specs delay n st) = Some (nf_time n + delay)"
    using Cons.prems(1,2) f by (simp_all add: sensitive.step_fired sensitive.step_timer)
  show ?case using Cons.IH [of "sensitive_step specs delay n st" "nf_time n"] s next_ Cons.prems(2,3,5) by simp
qed simp

text \<open>The filter of a document root compares extensions as they are written; the web scan it should trigger folds case.\<close>

lemma upper_case_script_not_watched: "\<not> script_name ''x.PHP'' \<and> hasSuspiciousExtension ''x.PHP''"
  by code_simp

end
