(* ===== verification/GC_Sigma.thy ===== *)
theory GC_Sigma
  imports GC_Rules GC_Expr_Roundtrip
begin

text \<open>
  The Sigma converter, \<^verbatim>\<open>internal/rules/sigma_lite.go\<close>: Sigma documents are turned into
  rules whose expression is generated as text and then compiled. A decoded YAML value is a
  \<open>yaml\<close>; a YAML mapping is an association list in the order in which the converter iterates
  over it (Go leaves that order open). The last section shows that the generated text always
  compiles, and what the compiled expression means.
\<close>

section \<open>The converter\<close>

datatype yaml = YStr string | YSeq "yaml list" | YMap "(string \<times> yaml) list" | YOther

record sigmaDoc =
  sd_Title :: string
  sd_ID :: string
  sd_Level :: string
  sd_Description :: string
  sd_Tags :: "string list"
  sd_Detection :: "(string \<times> yaml) list"
  sd_Fields :: "string list"

definition sigmaFieldMap :: "string \<Rightarrow> string" where
  "sigmaFieldMap f =
     (let l = ToLower f
      in if l \<in> {''commandline'', ''process_command_line'', ''argv''} then ''entity_path''
         else if l \<in> {''image'', ''process''} then ''comm''
         else if l \<in> {''path'', ''targetfilename''} then ''entity_path''
         else if l \<in> {''user'', ''username''} then ''comm''
         else if l = ''ruleid'' then ''rule_id''
         else [])"

fun yaml_str :: "yaml \<Rightarrow> string option" where
  "yaml_str (YStr s) = Some s"
| "yaml_str _ = None"

fun toStringSlice :: "yaml \<Rightarrow> string list" where
  "toStringSlice (YStr s) = [s]"
| "toStringSlice (YSeq vs) = List.map_filter yaml_str vs"
| "toStringSlice _ = []"

definition escape :: "string \<Rightarrow> string" where
  "escape s = ReplaceByte (ReplaceByte s backslash [backslash, backslash]) quote_char [backslash, quote_char]"

definition sigmaCompare :: "string \<Rightarrow> string \<Rightarrow> string \<Rightarrow> string" where
  "sigmaCompare field md value =
     (if md = ''contains'' \<or> md = [] then field @ '' contains '' @ [quote_char] @ escape value @ [quote_char]
      else if md = ''endswith'' then
        ''matches('' @ field @ '', '' @ [quote_char] @ escape value @ ''$'' @ [quote_char] @ '')''
      else if md = ''startswith'' then
        ''matches('' @ field @ '', '' @ [quote_char] @ ''^'' @ escape value @ [quote_char] @ '')''
      else if md = ''re'' then
        ''matches('' @ field @ '', '' @ [quote_char] @ escape value @ [quote_char] @ '')''
      else field @ '' == '' @ [quote_char] @ escape value @ [quote_char])"

text \<open>The key of a selection entry: field name and modifier, separated by the first bar.\<close>

definition split_key :: "string \<Rightarrow> string \<times> string" where
  "split_key key =
     (case IndexByte key (CHR ''|'') of
        None \<Rightarrow> (key, [])
      | Some i \<Rightarrow> (take i key, drop (Suc i) key))"

definition sigmaFieldToExpr :: "string \<Rightarrow> yaml \<Rightarrow> string" where
  "sigmaFieldToExpr key raw =
     (let field = fst (split_key key);
          md = snd (split_key key);
          our = sigmaFieldMap field;
          values = toStringSlice raw
      in if our = [] then []
         else if values = [] then []
         else ''('' @ Join (map (sigmaCompare our md) values) '' or '' @ '')'')"

definition sanitize_char :: "char \<Rightarrow> string" where
  "sanitize_char c =
     (if is_upper c \<or> is_digit c then [c]
      else if is_lower c then [upper_char c]
      else if c = CHR '' '' \<or> c = CHR ''-'' \<or> c = CHR ''.'' then ''_''
      else [])"

definition sanitizeID :: "string \<Rightarrow> string" where
  "sanitizeID s = concat (map sanitize_char s)"

definition selection_parts :: "(string \<times> yaml) list \<Rightarrow> string list" where
  "selection_parts sel =
     filter (\<lambda>p. p \<noteq> []) (map (\<lambda>(k, raw). sigmaFieldToExpr k raw)
       (filter (\<lambda>(k, raw). \<not> (EqualFold k ''timeframe'' \<or> EqualFold k ''count'')) sel))"

definition sigmaToRule :: "sigmaDoc \<Rightarrow> Rule option" where
  "sigmaToRule d =
     (case map_of (sd_Detection d) ''selection'' of
        Some (YMap sel) \<Rightarrow>
          (let parts = selection_parts sel
           in if parts = [] then None
              else Some (zero_Rule
                \<lparr>rule_ID := (if sd_ID d = [] then ''SIGMA_'' @ sanitizeID (sd_Title d) else sd_ID d),
                 rule_Tactic := ''sigma'',
                 rule_Techniques := map (\<lambda>t. ToUpper (TrimPrefix t ''attack.''))
                     (filter (\<lambda>t. HasPrefix t ''attack.t'') (sd_Tags d)),
                 rule_Description := sd_Description d,
                 rule_BaseScore := 60, rule_PerSignal := 10, rule_CapScore := 90,
                 rule_MinSignals := 1,
                 rule_Expr := Join parts '' and ''\<rparr>))
      | _ \<Rightarrow> None)"

text \<open>
  A directory entry is its name and whether it is a directory; reading the file of an
  entry and decoding it are the parameters \<open>readFile\<close> (of the directory and the name, which the
  source joins) and \<open>unmarshal\<close>. \<open>readDir\<close> is \<open>None\<close> when the directory cannot
  be read.
\<close>

definition sigma_entry ::
  "(string \<Rightarrow> string \<Rightarrow> string option) \<Rightarrow> (string \<Rightarrow> sigmaDoc option) \<Rightarrow> string \<Rightarrow> string \<times> bool \<Rightarrow> Rule option" where
  "sigma_entry readFile unmarshal dir e =
     (let name = ToLower (fst e)
      in if snd e then None
         else if \<not> HasSuffix name ''.yml'' \<and> \<not> HasSuffix name ''.yaml'' then None
         else (case readFile dir (fst e) of
                 None \<Rightarrow> None
               | Some data \<Rightarrow> (case unmarshal data of None \<Rightarrow> None | Some doc \<Rightarrow> sigmaToRule doc)))"

definition LoadSigmaLiteDir ::
  "(string \<Rightarrow> (string \<times> bool) list option) \<Rightarrow> (string \<Rightarrow> string \<Rightarrow> string option) \<Rightarrow>
   (string \<Rightarrow> sigmaDoc option) \<Rightarrow> string \<Rightarrow> load_error + Pack" where
  "LoadSigmaLiteDir readDir readFile unmarshal dir =
     (case readDir dir of
        None \<Rightarrow> Inl (ReadFailed dir)
      | Some ents \<Rightarrow>
          (let rules = List.map_filter (sigma_entry readFile unmarshal dir) ents
           in if rules = [] then Inl (NoSigmaRules dir)
              else (case compile_rules compile_rule rules of
                      Inl e \<Rightarrow> Inl e
                    | Inr rs \<Rightarrow> Inr \<lparr>pack_Version = ''sigma-lite'', pack_Rules = rs\<rparr>)))"

section \<open>The generated text and its tree\<close>

definition sigma_node :: "string \<Rightarrow> string \<Rightarrow> string \<Rightarrow> node" where
  "sigma_node field md value =
     (if md = ''contains'' \<or> md = [] then BinOpNode ''contains'' (IdentNode field) (StrLit value)
      else if md = ''endswith'' then CallNode ''matches'' [IdentNode field, StrLit (value @ ''$'')]
      else if md = ''startswith'' then CallNode ''matches'' [IdentNode field, StrLit (''^'' @ value)]
      else if md = ''re'' then CallNode ''matches'' [IdentNode field, StrLit value]
      else BinOpNode ''=='' (IdentNode field) (StrLit value))"

fun op_tree :: "string \<Rightarrow> node list \<Rightarrow> node" where
  "op_tree op [] = BoolLit True"
| "op_tree op (n # ns) = foldl (BinOpNode op) n ns"

lemma quoted_append [simp]: "quoted (s @ t) = quoted s @ quoted t"
  by (simp add: quoted_def)

lemma escape_quoted: "escape s = quoted s"
  by (induction s) (simp_all add: escape_def ReplaceByte_def)

lemma sigmaFieldMap_range: "sigmaFieldMap f \<in> {[], ''entity_path'', ''comm'', ''rule_id''}"
  by (simp add: sigmaFieldMap_def Let_def)

lemma sigma_field_ident: "f \<in> {''entity_path'', ''comm'', ''rule_id''} \<Longrightarrow> ident_ok f"
  by (elim insertE; simp add: ident_ok_def is_ident_start_def is_ident_char_def is_lower_def opSet_def)

definition tokenizes :: "string \<Rightarrow> token list \<Rightarrow> bool" where
  "tokenizes s ts \<longleftrightarrow> (\<forall>r. delim_start r \<longrightarrow> tokenize (s @ r) = ts @ tokenize r)"

lemma tok_punct:
  "tokenize (CHR '' '' # s) = tokenize s"
  "tokenize (CHR ''('' # s) = LPtok # tokenize s"
  "tokenize (CHR '')'' # s) = RPtok # tokenize s"
  "tokenize (CHR '','' # s) = Commatok # tokenize s"
  by simp_all

lemma tok_ident: "ident_ok x \<Longrightarrow> delim_start r \<Longrightarrow> tokenize (x @ r) = Token tokIdent x # tokenize r"
  by (simp add: ident_ok_def tokenize_word del: tokenize.simps)

lemma tok_word_op: "w \<in> set opSet \<Longrightarrow> delim_start r \<Longrightarrow> tokenize (w @ r) = Token tokOp w # tokenize r"
  using tokenize_text [of "Token tokOp w" r] by (simp add: tok_text_def del: tokenize.simps)

lemma tok_contains:
  "tokenize (CHR ''c'' # CHR ''o'' # CHR ''n'' # CHR ''t'' # CHR ''a'' # CHR ''i'' # CHR ''n'' # CHR ''s'' # CHR '' '' # s)
   = Token tokOp ''contains'' # tokenize s"
  using tok_word_op [of "''contains''" "CHR '' '' # s"] by (simp add: tok_punct opSet_def del: tokenize.simps)

lemma matches_ident: "ident_ok ''matches''"
  by (simp add: ident_ok_def is_ident_start_def is_ident_char_def is_lower_def opSet_def)

lemma tok_matches:
  "tokenize (CHR ''m'' # CHR ''a'' # CHR ''t'' # CHR ''c'' # CHR ''h'' # CHR ''e'' # CHR ''s'' # CHR ''('' # s)
   = Token tokIdent ''matches'' # LPtok # tokenize s"
  using tok_ident [OF matches_ident, of "CHR ''('' # s"] by (simp add: tok_punct del: tokenize.simps)

lemma tok_eq: "tokenize (CHR ''='' # CHR ''='' # CHR '' '' # s) = Token tokOp ''=='' # tokenize s"
  using tokenize_sym [of "''==''" "CHR '' '' # s"] by (simp add: tok_punct sym_ops_def del: tokenize.simps)

lemma quoted_dollar [simp]: "quoted ''$'' = ''$''" "quoted ''^'' = ''^''"
  by (simp_all add: quoted_def quote_char_def backslash_def)

lemma tok_str_suffix: "tokenize (quote_char # quoted s @ CHR ''$'' # quote_char # r) = Token tokStr (s @ ''$'') # tokenize r"
  using tokenize_str [of "s @ ''$''" r] by (simp del: tokenize.simps quoted_Cons)

lemma tok_str_prefix: "tokenize (quote_char # CHR ''^'' # quoted s @ quote_char # r) = Token tokStr (''^'' @ s) # tokenize r"
  using tokenize_str [of "''^'' @ s" r] quoted_append [of "''^''" s] by (simp del: tokenize.simps quoted_Cons quoted_append)

lemmas tok_steps = tok_punct tok_ident tok_contains tok_matches tok_eq tokenize_str tok_str_suffix tok_str_prefix

lemma sigmaCompare_tokenizes: "ident_ok f \<Longrightarrow> tokenizes (sigmaCompare f md v) (pp 2 (sigma_node f md v))"
  unfolding tokenizes_def sigmaCompare_def sigma_node_def escape_quoted
  by (simp add: tok_steps wrap_def Let_def literal_defs lit_toks_def del: tokenize.simps)

fun join_toks :: "token \<Rightarrow> token list list \<Rightarrow> token list" where
  "join_toks op [] = []"
| "join_toks op [ts] = ts"
| "join_toks op (ts # us # tss) = ts @ op # join_toks op (us # tss)"

lemma tokenizes_Join:
  assumes "list_all2 tokenizes ss tss" "ss \<noteq> []" "w \<in> set opSet"
  shows "tokenizes (Join ss (CHR '' '' # w @ '' '')) (join_toks (Token tokOp w) tss)"
  using assms(1,2)
proof (induction ss arbitrary: tss rule: induct_list012)
  case (2 s)
  then show ?case by (auto simp: list_all2_Cons1)
next
  case (3 s t ss)
  then obtain ts tss' where tss: "tss = ts # tss'" "tokenizes s ts" "list_all2 tokenizes (t # ss) tss'"
    by (auto simp: list_all2_Cons1)
  then have IH: "tokenizes (Join (t # ss) (CHR '' '' # w @ '' '')) (join_toks (Token tokOp w) tss')"
    using "3.IH"(2) by simp
  obtain us tss2 where tss2: "tss' = us # tss2" using tss(3) by (auto simp: list_all2_Cons1)
  have "tokenize (w @ CHR '' '' # r) = Token tokOp w # tokenize r" for r
    using assms(3) by (simp add: tok_word_op tok_punct del: tokenize.simps)
  then show ?case using tss(2) IH tss2
    by (simp add: tss(1) tokenizes_def tok_punct del: tokenize.simps)
qed simp

lemma tokenizes_paren: "tokenizes s ts \<Longrightarrow> tokenizes (''('' @ s @ '')'') (LPtok # ts @ [RPtok])"
  by (simp add: tokenizes_def tok_punct del: tokenize.simps)

section \<open>Parsing the generated tokens\<close>

lemma parseCmp_paren:
  assumes "printable n" "okC r" "length (LPtok # pp 0 n @ RPtok # r) \<le> k"
  shows "parseCmp (parseDisj k) k (LPtok # pp 0 n @ RPtok # r) = POk n r"
proof -
  from assms(3) obtain j where k: "k = Suc j" by (cases k) auto
  have "parseDisj (Suc j) (pp 0 n @ RPtok # r) = POk n (RPtok # r)"
    using assms printable_Pall [of n] k by (intro P0_parseDisj okD_closing) (auto simp: Pall_def)
  then show ?thesis
    using assms(2) k
    by (simp add: parseCmp_def parseUnary_def parsePrimary_def expect_def okC_def del: parseDisj.simps)
qed

abbreviation paren_toks :: "node \<Rightarrow> token list" where
  "paren_toks n \<equiv> LPtok # pp 0 n @ [RPtok]"

lemma conjLoop_parens:
  assumes "\<And>n. n \<in> set ns \<Longrightarrow> printable n" "okJ r" "length ns < i"
    "length (concat (map (\<lambda>n. Token tokOp ''and'' # paren_toks n) ns) @ r) \<le> k"
  shows "conjLoop (parseDisj k) k i m (concat (map (\<lambda>n. Token tokOp ''and'' # paren_toks n) ns) @ r)
    = POk (foldl (BinOpNode ''and'') m ns) r"
  using assms
proof (induction ns arbitrary: i m)
  case Nil
  then show ?case by (simp add: conjLoop_stop okJ_def)
next
  case (Cons n ns)
  let ?rest = "concat (map (\<lambda>n. Token tokOp ''and'' # paren_toks n) ns) @ r"
  from Cons.prems obtain j where i: "i = Suc j" by (cases i) auto
  have "okC ?rest" using Cons.prems(2) by (cases ns) simp_all
  then have "parseCmp (parseDisj k) k (LPtok # pp 0 n @ RPtok # ?rest) = POk n ?rest"
    using Cons.prems by (intro parseCmp_paren) auto
  moreover have "conjLoop (parseDisj k) k j (BinOpNode ''and'' m n) ?rest
      = POk (foldl (BinOpNode ''and'') (BinOpNode ''and'' m n) ns) r"
    using Cons.prems i by (intro Cons.IH) auto
  ultimately show ?case by (simp add: i del: parseDisj.simps)
qed

lemma join_toks_concat: "join_toks t (ts # tss) = ts @ concat (map (\<lambda>us. t # us) tss)"
  by (induction tss arbitrary: ts) auto

lemma parse_conjunction:
  assumes "\<And>n. n \<in> set ns \<Longrightarrow> printable n" "ns \<noteq> []"
  defines "ts \<equiv> join_toks (Token tokOp ''and'') (map paren_toks ns) @ [EOFtok]"
  shows "parseDisj (parse_fuel ts) ts = POk (op_tree ''and'' ns) [EOFtok]"
proof -
  obtain n ms where ns: "ns = n # ms" using assms(2) by (cases ns) auto
  let ?rest = "concat (map (\<lambda>n. Token tokOp ''and'' # paren_toks n) ms) @ [EOFtok]"
  let ?k = "length ts"
  have ts: "ts = LPtok # pp 0 n @ RPtok # ?rest"
    by (simp add: ts_def ns join_toks_concat map_concat comp_def)
  have J: "okJ [EOFtok]" by (simp add: okD_closing)
  have "okC ?rest" using J by (cases ms) simp_all
  then have "parseCmp (parseDisj ?k) ?k ts = POk n ?rest"
    unfolding ts using assms(1) ns by (intro parseCmp_paren) auto
  moreover have "length ms < ?k"
    unfolding ts by (induction ms) auto
  then have "conjLoop (parseDisj ?k) ?k ?k n ?rest = POk (foldl (BinOpNode ''and'') n ms) [EOFtok]"
    using assms(1) ns J by (intro conjLoop_parens) (auto simp: ts)
  moreover have "disjLoop (parseDisj ?k) ?k ?k m [EOFtok] = POk m [EOFtok]" for m
    by (rule disjLoop_stop) (simp_all add: ts)
  ultimately show ?thesis by (simp add: parse_fuel_def parseConj_def ns)
qed

text \<open>The alternatives of one field are a disjunction of comparisons.\<close>

lemma pp_or_tree:
  assumes "\<And>n. n \<in> set ns \<Longrightarrow> 2 \<le> prec n"
  shows "pp 0 (foldl (BinOpNode ''or'') m ns) = pp 0 m @ concat (map (\<lambda>n. Token tokOp ''or'' # pp 2 n) ns)"
  using assms
proof (induction ns arbitrary: m)
  case (Cons n ns)
  have "pp 1 n = pp 2 n" using pp_level [of n 1] Cons.prems [of n] by (simp add: numeral_eq_Suc)
  then show ?case using Cons by (simp add: wrap_def)
qed simp

lemma pp_low: "2 \<le> prec n \<Longrightarrow> pp 0 n = pp 2 n"
  using pp_level [of n 0] pp_level [of n 1] by (simp add: numeral_eq_Suc)

lemma pp_op_tree:
  "ns \<noteq> [] \<Longrightarrow> (\<And>n. n \<in> set ns \<Longrightarrow> 2 \<le> prec n) \<Longrightarrow>
   pp 0 (op_tree ''or'' ns) = join_toks (Token tokOp ''or'') (map (pp 2) ns)"
  by (cases ns) (simp_all add: pp_or_tree join_toks_concat pp_low comp_def)

lemma printable_op_tree:
  "ns \<noteq> [] \<Longrightarrow> (\<And>n. n \<in> set ns \<Longrightarrow> printable n) \<Longrightarrow> printable (op_tree ''or'' ns)"
proof (cases ns)
  case (Cons m ms)
  assume "\<And>n. n \<in> set ns \<Longrightarrow> printable n"
  with Cons have "printable m" "\<And>n. n \<in> set ms \<Longrightarrow> printable n" by auto
  then have "printable (foldl (BinOpNode ''or'') m ms)"
    by (induction ms arbitrary: m) auto
  with Cons show ?thesis by simp
qed simp

lemma lit_ok_str: "printable (StrLit s)"
  by (simp add: literal_defs lit_ok_def)

lemma sigma_node_printable: "ident_ok f \<Longrightarrow> printable (sigma_node f md v)"
  using matches_ident lit_ok_str by (simp add: sigma_node_def cmp_ops_def)

lemma sigma_node_prec: "2 \<le> prec (sigma_node f md v)"
  by (simp add: sigma_node_def)

section \<open>The compiled selection\<close>

text \<open>The entries of a selection that the converter uses, with mapped field, modifier, values.\<close>

definition usable_entry :: "string \<times> yaml \<Rightarrow> (string \<times> string \<times> string list) option" where
  "usable_entry e =
     (case e of (k, raw) \<Rightarrow>
        (let our = sigmaFieldMap (fst (split_key k)); vs = toStringSlice raw
         in if EqualFold k ''timeframe'' \<or> EqualFold k ''count'' \<or> our = [] \<or> vs = [] then None
            else Some (our, snd (split_key k), vs)))"

definition usable :: "(string \<times> yaml) list \<Rightarrow> (string \<times> string \<times> string list) list" where
  "usable sel = List.map_filter usable_entry sel"

fun entry_node :: "string \<times> string \<times> string list \<Rightarrow> node" where
  "entry_node (our, md, vs) = op_tree ''or'' (map (sigma_node our md) vs)"

fun entry_text :: "string \<times> string \<times> string list \<Rightarrow> string" where
  "entry_text (our, md, vs) = ''('' @ Join (map (sigmaCompare our md) vs) '' or '' @ '')''"

lemma usable_entry_ok: "usable_entry e = Some (our, md, vs) \<Longrightarrow> ident_ok our \<and> our \<in> {''entity_path'', ''comm'', ''rule_id''} \<and> vs \<noteq> []"
  using sigmaFieldMap_range sigma_field_ident
  by (fastforce simp: usable_entry_def Let_def split: prod.splits if_splits)

lemma usable_ok: "(our, md, vs) \<in> set (usable sel) \<Longrightarrow> ident_ok our \<and> our \<in> {''entity_path'', ''comm'', ''rule_id''} \<and> vs \<noteq> []"
  unfolding usable_def using usable_entry_ok by (fastforce simp: List.map_filter_def)

lemma selection_parts_usable: "selection_parts sel = map entry_text (usable sel)"
proof (induction sel)
  case (Cons e sel)
  then show ?case
    by (cases e)
       (auto simp: selection_parts_def usable_def usable_entry_def List.map_filter_def
         sigmaFieldToExpr_def Let_def)
qed (simp add: selection_parts_def usable_def List.map_filter_def)

lemma entry_text_tokenizes:
  assumes "ident_ok our" "vs \<noteq> []"
  shows "tokenizes (entry_text (our, md, vs)) (paren_toks (entry_node (our, md, vs)))"
proof -
  have "list_all2 tokenizes (map (sigmaCompare our md) vs) (map (\<lambda>v. pp 2 (sigma_node our md v)) vs)"
    using assms(1) by (simp add: list_all2_conv_all_nth sigmaCompare_tokenizes)
  then have "tokenizes (Join (map (sigmaCompare our md) vs) (CHR '' '' # ''or'' @ '' ''))
      (join_toks (Token tokOp ''or'') (map (\<lambda>v. pp 2 (sigma_node our md v)) vs))"
    using assms(2) by (intro tokenizes_Join) (simp_all add: opSet_def)
  moreover have "pp 0 (entry_node (our, md, vs)) = join_toks (Token tokOp ''or'') (map (\<lambda>v. pp 2 (sigma_node our md v)) vs)"
    using assms(2) sigma_node_prec by (subst entry_node.simps, subst pp_op_tree) (auto simp: comp_def)
  ultimately show ?thesis using tokenizes_paren by (simp add: append_assoc)
qed

lemma Join_ends:
  "ss \<noteq> [] \<Longrightarrow> (\<And>s. s \<in> set ss \<Longrightarrow> s \<noteq> []) \<Longrightarrow>
   Join ss sep \<noteq> [] \<and> hd (Join ss sep) = hd (hd ss) \<and> last (Join ss sep) = last (last ss)"
proof (induction ss rule: induct_list012)
  case (3 s t ss)
  have "Join (t # ss) sep \<noteq> [] \<and> last (Join (t # ss) sep) = last (last (t # ss))"
    using "3.IH"(2) "3.prems" by simp
  moreover have "s \<noteq> []" using "3.prems" by simp
  ultimately show ?case by simp
qed simp_all

lemma entry_text_ends: "entry_text e \<noteq> [] \<and> hd (entry_text e) = CHR ''('' \<and> last (entry_text e) = CHR '')''"
  by (cases e) simp

text \<open>The text the converter generates compiles to the conjunction of the usable entries.\<close>

lemma selection_compiles:
  assumes "usable sel \<noteq> []"
  defines "src \<equiv> Join (selection_parts sel) '' and ''"
  shows "CompileExpr src = Inr \<lparr>expr_node = op_tree ''and'' (map entry_node (usable sel)), expr_src = src\<rparr>"
proof -
  let ?es = "usable sel"
  let ?ts = "join_toks (Token tokOp ''and'') (map paren_toks (map entry_node ?es)) @ [EOFtok]"
  have parts: "selection_parts sel = map entry_text ?es" by (rule selection_parts_usable)
  have "tokenizes (entry_text e) (paren_toks (entry_node e))" if "e \<in> set ?es" for e
    using that by (cases e rule: prod_cases3) (metis usable_ok entry_text_tokenizes)
  then have "list_all2 tokenizes (map entry_text ?es) (map paren_toks (map entry_node ?es))"
    by (simp add: list_all2_conv_all_nth)
  then have "tokenizes (Join (map entry_text ?es) (CHR '' '' # ''and'' @ '' ''))
      (join_toks (Token tokOp ''and'') (map paren_toks (map entry_node ?es)))"
    using assms(1) by (intro tokenizes_Join) (simp_all add: opSet_def)
  then have "tokenizes src (join_toks (Token tokOp ''and'') (map paren_toks (map entry_node ?es)))"
    by (simp add: src_def parts)
  then have toks: "tokenize src = ?ts"
    unfolding tokenizes_def by (metis append_Nil2 delim_simps(1) tokenize.simps(1))
  have "src \<noteq> [] \<and> hd src = CHR ''('' \<and> last src = CHR '')''"
  proof -
    have "Join (map entry_text ?es) '' and '' \<noteq> []
        \<and> hd (Join (map entry_text ?es) '' and '') = hd (hd (map entry_text ?es))
        \<and> last (Join (map entry_text ?es) '' and '') = last (last (map entry_text ?es))"
      using assms(1) entry_text_ends by (intro Join_ends) auto
    then show ?thesis using assms(1) entry_text_ends unfolding src_def parts by (simp add: hd_map last_map)
  qed
  then have trim: "TrimSpace src = src" "src \<noteq> []"
    using TrimSpace_ends [of src] by (simp_all add: is_space_def)
  have "printable n" if "n \<in> set (map entry_node ?es)" for n
  proof -
    from that obtain our md vs where n: "(our, md, vs) \<in> set ?es" "n = entry_node (our, md, vs)" by auto
    from usable_ok [OF n(1)] show ?thesis
      unfolding n(2) entry_node.simps by (intro printable_op_tree) (auto intro: sigma_node_printable)
  qed
  then have "parseDisj (parse_fuel ?ts) ?ts = POk (op_tree ''and'' (map entry_node ?es)) [EOFtok]"
    using assms(1) by (intro parse_conjunction) auto
  with toks trim show ?thesis by (simp add: CompileExpr_def Let_def)
qed

section \<open>What a converted rule means\<close>

definition sigma_field :: "EventFacts \<Rightarrow> string \<Rightarrow> string" where
  "sigma_field f our =
     (if our = ''entity_path'' then facts_EntityPath f
      else if our = ''comm'' then facts_Comm f else facts_RuleID f)"

text \<open>The pattern a modifier gives, if it is a regular-expression modifier.\<close>

definition sigma_pattern :: "string \<Rightarrow> string \<Rightarrow> string option" where
  "sigma_pattern md v =
     (if md = ''endswith'' then Some (v @ ''$'') else if md = ''startswith'' then Some (''^'' @ v)
      else if md = ''re'' then Some v else None)"

definition sigma_holds :: "regexp \<Rightarrow> EventFacts \<Rightarrow> string \<Rightarrow> string \<Rightarrow> string \<Rightarrow> bool" where
  "sigma_holds rx f our md v =
     (case sigma_pattern md v of
        Some p \<Rightarrow> (case rx p of Some m \<Rightarrow> m (sigma_field f our) | None \<Rightarrow> False)
      | None \<Rightarrow> if md = ''contains'' \<or> md = [] then Contains (sigma_field f our) v
                else sigma_field f our = v)"

definition patterns_compile :: "regexp \<Rightarrow> (string \<times> string \<times> string list) list \<Rightarrow> bool" where
  "patterns_compile rx es \<longleftrightarrow>
     (\<forall>(our, md, vs) \<in> set es. \<forall>v \<in> set vs. \<forall>p. sigma_pattern md v = Some p \<longrightarrow> rx p \<noteq> None)"

lemma ident_eval_sigma:
  "our \<in> {''entity_path'', ''comm'', ''rule_id''} \<Longrightarrow> ident_eval f our = Inr (VStr (sigma_field f our))"
  by (elim insertE; simp add: ident_eval_def sigma_field_def)

lemma eval_sigma_node:
  assumes "our \<in> {''entity_path'', ''comm'', ''rule_id''}"
    and "\<And>p. sigma_pattern md v = Some p \<Longrightarrow> rx p \<noteq> None"
  shows "eval rx f (sigma_node our md v) = Inr (VBool (sigma_holds rx f our md v))"
  using assms(2) ident_eval_sigma [OF assms(1), of f]
  by (auto simp: sigma_node_def sigma_holds_def sigma_pattern_def cmpEval_def split: option.splits)

lemma eval_or_and:
  assumes "eval rx f a = Inr (VBool b)" "eval rx f c = Inr (VBool d)"
  shows "eval rx f (BinOpNode ''or'' a c) = Inr (VBool (b \<or> d))"
    and "eval rx f (BinOpNode ''and'' a c) = Inr (VBool (b \<and> d))"
  using assms by (simp_all split: bool.splits)

lemma eval_or_tree:
  assumes "ns \<noteq> []" "\<And>n. n \<in> set ns \<Longrightarrow> eval rx f n = Inr (VBool (P n))"
  shows "eval rx f (op_tree ''or'' ns) = Inr (VBool (\<exists>n \<in> set ns. P n))"
proof -
  have "eval rx f (foldl (BinOpNode ''or'') m ms) = Inr (VBool (b \<or> (\<exists>n \<in> set ms. P n)))"
    if "eval rx f m = Inr (VBool b)" "\<And>n. n \<in> set ms \<Longrightarrow> eval rx f n = Inr (VBool (P n))" for m b ms
    using that
  proof (induction ms arbitrary: m b)
    case (Cons n ms)
    then show ?case using Cons.IH [OF eval_or_and(1) [of rx f m b n "P n"]] by (simp del: eval.simps)
  qed simp
  then show ?thesis using assms by (cases ns) auto
qed

lemma eval_and_tree:
  assumes "ns \<noteq> []" "\<And>n. n \<in> set ns \<Longrightarrow> eval rx f n = Inr (VBool (P n))"
  shows "eval rx f (op_tree ''and'' ns) = Inr (VBool (\<forall>n \<in> set ns. P n))"
proof -
  have "eval rx f (foldl (BinOpNode ''and'') m ms) = Inr (VBool (b \<and> (\<forall>n \<in> set ms. P n)))"
    if "eval rx f m = Inr (VBool b)" "\<And>n. n \<in> set ms \<Longrightarrow> eval rx f n = Inr (VBool (P n))" for m b ms
    using that
  proof (induction ms arbitrary: m b)
    case (Cons n ms)
    then show ?case using Cons.IH [OF eval_or_and(2) [of rx f m b n "P n"]] by (simp del: eval.simps)
  qed simp
  then show ?thesis using assms by (cases ns) auto
qed

fun entry_holds :: "regexp \<Rightarrow> EventFacts \<Rightarrow> string \<times> string \<times> string list \<Rightarrow> bool" where
  "entry_holds rx f (our, md, vs) \<longleftrightarrow> (\<exists>v \<in> set vs. sigma_holds rx f our md v)"

lemma eval_entry_node:
  assumes "e \<in> set (usable sel)" "patterns_compile rx (usable sel)"
  shows "eval rx f (entry_node e) = Inr (VBool (entry_holds rx f e))"
proof -
  obtain our md vs where e: "e = (our, md, vs)" by (cases e rule: prod_cases3)
  have ok: "our \<in> {''entity_path'', ''comm'', ''rule_id''}" "vs \<noteq> []"
    using usable_ok assms(1) unfolding e by blast+
  have "eval rx f (op_tree ''or'' (map (sigma_node our md) vs))
      = Inr (VBool (\<exists>n \<in> set (map (sigma_node our md) vs). eval rx f n = Inr (VBool True)))"
  proof (rule eval_or_tree)
    fix n assume "n \<in> set (map (sigma_node our md) vs)"
    then obtain v where v: "v \<in> set vs" "n = sigma_node our md v" by auto
    have "\<And>p. sigma_pattern md v = Some p \<Longrightarrow> rx p \<noteq> None"
      using assms v(1) unfolding patterns_compile_def e by blast
    from eval_sigma_node [OF ok(1) this] v(2)
    show "eval rx f n = Inr (VBool (eval rx f n = Inr (VBool True)))" by simp
  qed (use ok in simp)
  moreover have "eval rx f (sigma_node our md v) = Inr (VBool (sigma_holds rx f our md v))" if "v \<in> set vs" for v
    by (rule eval_sigma_node [OF ok(1)]) (use assms that in \<open>unfold patterns_compile_def e, blast\<close>)
  ultimately show ?thesis by (simp add: e)
qed

lemma sigmaToRule_Some:
  "sigmaToRule d = Some r \<longleftrightarrow>
   (\<exists>sel. map_of (sd_Detection d) ''selection'' = Some (YMap sel) \<and> usable sel \<noteq> [] \<and>
      sigmaToRule d = Some r \<and> rule_Expr r = Join (selection_parts sel) '' and '')"
  by (auto simp: sigmaToRule_def Let_def selection_parts_usable split: option.splits yaml.splits if_splits)

lemma sigma_rule_meaning:
  assumes "sigmaToRule d = Some r" "map_of (sd_Detection d) ''selection'' = Some (YMap sel)"
    and "patterns_compile rx (usable sel)"
  shows "\<exists>e. CompileExpr (rule_Expr r) = Inr e \<and>
    Eval rx e f = Inr (\<forall>c \<in> set (usable sel). entry_holds rx f c)"
proof -
  have u: "usable sel \<noteq> []" and src: "rule_Expr r = Join (selection_parts sel) '' and ''"
    using assms(1,2) sigmaToRule_Some [of d r] by auto
  let ?n = "op_tree ''and'' (map entry_node (usable sel))"
  have "eval rx f ?n = Inr (VBool (\<forall>n \<in> set (map entry_node (usable sel)). eval rx f n = Inr (VBool True)))"
    using u eval_entry_node [OF _ assms(3)] by (intro eval_and_tree) auto
  also have "(\<forall>n \<in> set (map entry_node (usable sel)). eval rx f n = Inr (VBool True))
      \<longleftrightarrow> (\<forall>c \<in> set (usable sel). entry_holds rx f c)"
    using eval_entry_node [OF _ assms(3)] by auto
  finally show ?thesis
    using selection_compiles [OF u] by (simp add: src Eval_def)
qed

lemma sigma_entry_sigmaToRule:
  "sigma_entry readFile unmarshal dir e = Some r \<Longrightarrow> \<exists>d. sigmaToRule d = Some r"
  by (auto simp: sigma_entry_def Let_def split: if_splits option.splits)

lemma sigma_rule_compiles: "sigmaToRule d = Some r \<Longrightarrow> \<exists>r'. compile_rule r = Inr r'"
proof -
  assume "sigmaToRule d = Some r"
  then obtain sel where "usable sel \<noteq> []" "rule_Expr r = Join (selection_parts sel) '' and ''"
    using sigmaToRule_Some [of d r] by blast
  then show ?thesis using selection_compiles [of sel] by (simp add: compile_rule_def)
qed

text \<open>So loading a directory never fails on an expression: the converter's own text compiles.\<close>

lemma LoadSigmaLiteDir_total:
  assumes "readDir dir = Some ents" "e \<in> set ents" "sigma_entry readFile unmarshal dir e = Some r"
  shows "\<exists>p. LoadSigmaLiteDir readDir readFile unmarshal dir = Inr p \<and> length (pack_Rules p)
    = length (List.map_filter (sigma_entry readFile unmarshal dir) ents)"
proof -
  let ?rs = "List.map_filter (sigma_entry readFile unmarshal dir) ents"
  have r: "r \<in> set ?rs" using assms(2,3) by (force simp: List.map_filter_def)
  have "\<exists>x'. compile_rule x = Inr x'" if "x \<in> set ?rs" for x
    using that sigma_entry_sigmaToRule sigma_rule_compiles by (fastforce simp: List.map_filter_def)
  then obtain rs' where rs': "compile_rules compile_rule ?rs = Inr rs'"
    using compile_rules_total [of compile_rule ?rs] by blast
  then have "length rs' = length ?rs" using compile_rules_Inr list_all2_lengthD by metis
  with rs' r assms(1) show ?thesis by (auto simp: LoadSigmaLiteDir_def Let_def)
qed

section \<open>Correctness\<close>


definition sample_doc :: sigmaDoc where
  "sample_doc = \<lparr>sd_Title = ''Web shell'', sd_ID = [], sd_Level = ''high'', sd_Description = [], sd_Tags = [''attack.t1505''],
     sd_Detection = [(''selection'', YMap [(''CommandLine|contains'', YSeq [YStr ''a\"b'', YStr ''c'']), (''Image'', YStr ''sh'')]),
       (''condition'', YStr ''selection'')], sd_Fields = []\<rparr>"


text \<open>
  A bad Sigma file cannot take the loader down: if at least one file of the directory
  converts, loading succeeds with exactly the rules of the files that convert.
\<close>

theorem sigma_dir_loads:
  assumes "readDir dir = Some ents" "e \<in> set ents" "sigma_entry readFile unmarshal dir e = Some r"
  shows "\<exists>p. LoadSigmaLiteDir readDir readFile unmarshal dir = Inr p \<and>
    list_all2 (\<lambda>r r'. compile_rule r = Inr r') (List.map_filter (sigma_entry readFile unmarshal dir) ents) (pack_Rules p)"
proof -
  obtain p where p: "LoadSigmaLiteDir readDir readFile unmarshal dir = Inr p"
    using LoadSigmaLiteDir_total [of readDir dir ents e readFile unmarshal r] assms by blast
  then have "compile_rules compile_rule (List.map_filter (sigma_entry readFile unmarshal dir) ents) = Inr (pack_Rules p)"
    using assms(1) by (auto simp: LoadSigmaLiteDir_def Let_def split: if_splits sum.splits)
  then show ?thesis using p compile_rules_Inr by blast
qed

theorem sigma_dir_loads_witness:
  "\<exists>p. LoadSigmaLiteDir (\<lambda>d. Some [(''a.yml'', False), (''bad.yaml'', False), (''b.txt'', False)])
      (\<lambda>d n. Some n) (\<lambda>b. if b = ''a.yml'' then Some sample_doc else None) ''/sigma'' = Inr p \<and> length (pack_Rules p) = 1"
proof -
  let ?u = "\<lambda>b. if b = ''a.yml'' then Some sample_doc else None"
  have a: "sigma_entry (\<lambda>d n. Some n) ?u ''/sigma'' (''a.yml'', False) = sigmaToRule sample_doc"
    "sigma_entry (\<lambda>d n. Some n) ?u ''/sigma'' (''bad.yaml'', False) = None"
    "sigma_entry (\<lambda>d n. Some n) ?u ''/sigma'' (''b.txt'', False) = None"
    by (simp_all add: sigma_entry_def HasSuffix_def HasPrefix_def ToLower_def lower_char_def is_upper_def)
  have "sigmaToRule sample_doc \<noteq> None" by code_simp
  then obtain r where "sigmaToRule sample_doc = Some r" by auto
  then show ?thesis
    using sigma_dir_loads [of "\<lambda>d. Some [(''a.yml'', False), (''bad.yaml'', False), (''b.txt'', False)]" "''/sigma''" _
        "(''a.yml'', False)" "\<lambda>d n. Some n" ?u r]
    by (auto simp: a map_filter_def list_all2_Cons1)
qed

section \<open>Deviations\<close>

text \<open>
  The documented modifier \<^verbatim>\<open>contains|all\<close> becomes a disjunction of equalities, and a
  condition on an unknown field is dropped while the rule is kept.
\<close>

lemma sigma_contains_all:
  "sigmaFieldToExpr ''Image|contains|all'' (YSeq [YStr ''a'', YStr ''b'']) = ''(comm == \"a\" or comm == \"b\")''"
  by code_simp

lemma sigma_unknown_field_dropped: "usable [(''Image'', YStr ''sh''), (''ParentImage'', YStr ''x'')] = [(''comm'', [], [''sh''])]"
  by code_simp

end
