(* ===== verification/GC_Command.thy ===== *)
theory GC_Command
  imports GC_Sigma GC_Process GC_Web GC_Integrity
begin

text \<open>
  The agent command (\<^verbatim>\<open>cmd/agent/main.go\<close>): loading a configuration with its rule pack, checking a
  configuration, and committing a baseline, with \<^verbatim>\<open>Save\<close> of \<^verbatim>\<open>baseline/baseline.go\<close>. A command that exits
  with an error is a value on the left of a sum. The environment, the files and the decoders are
  the record \<open>shell\<close>.
\<close>

section \<open>The environment of a command\<close>

text \<open>
  The rule pack is read twice, to verify it and to load it: \<open>sh_readFirst\<close> and \<open>sh_read\<close>. \<open>sh_disk\<close> is the
  state of the baseline and its temporary file. \<open>sh_yamlPack\<close>, \<open>sh_yamlConfig\<close>, \<open>sh_yamlSigma\<close>, \<open>sh_unmarshal\<close> and
  \<open>sh_marshal\<close> are the decoders and the encoder, \<open>sh_b64\<close> and \<open>sh_verify\<close> base64 and Ed25519, all of Go
  libraries. A write that fails leaves the temporary file in some state, \<open>sh_writeFails\<close>.
\<close>

record shell =
  sh_read :: "string \<Rightarrow> string option"
  sh_readFirst :: "string \<Rightarrow> string option"
  sh_readDir :: "string \<Rightarrow> (string \<times> bool) list option"
  sh_yamlConfig :: "string \<Rightarrow> Config \<Rightarrow> Config option"
  sh_yamlPack :: "string \<Rightarrow> Pack option"
  sh_yamlSigma :: "string \<Rightarrow> sigmaDoc option"
  sh_b64 :: "string \<Rightarrow> string option"
  sh_verify :: "string \<Rightarrow> string \<Rightarrow> string \<Rightarrow> bool"
  sh_getenv :: "string \<Rightarrow> string"
  sh_euid :: int
  sh_disk :: "string \<Rightarrow> file_state"
  sh_unmarshal :: "string \<Rightarrow> Snapshot option"
  sh_marshal :: "Snapshot \<Rightarrow> string option"
  sh_writeFails :: "file_state option"
  sh_renameFails :: bool
  sh_mtime :: time
  sh_sha :: "string \<Rightarrow> string"
  sh_parseKey :: "string \<Rightarrow> string option"
  sh_host :: host
  sh_procfs :: procfs
  sh_now :: time

datatype command_error =
    ConfigLoad config_error
  | ConfigInvalid config_error
  | BadSignature verify_error
  | PackLoad load_error
  | TokenUnset
  | TokenMismatch
  | NotRoot
  | BaselineLoad
  | LDPreloadBaseline
  | BaselineSave

section \<open>Configuration and rules\<close>

definition load_config :: "shell \<Rightarrow> string \<Rightarrow> config_error + Config" where
  "load_config sh path = LoadConfig (sh_read sh) (sh_yamlConfig sh) path"

definition load_pack :: "shell \<Rightarrow> Config \<Rightarrow> load_error + Pack" where
  "load_pack sh cfg = LoadPack (sh_read sh) (sh_yamlPack sh) (cfg_RulePackPath cfg)"

definition load_sigma :: "shell \<Rightarrow> string \<Rightarrow> load_error + Pack" where
  "load_sigma sh dir = LoadSigmaLiteDir (sh_readDir sh) (\<lambda>d name. sh_read sh (PathJoin [d, name])) (sh_yamlSigma sh) dir"

definition verify_pack :: "shell \<Rightarrow> Config \<Rightarrow> verify_error option" where
  "verify_pack sh cfg =
     (if cfg_RulePackPubKey cfg \<noteq> [] \<and> cfg_RulePackSigPath cfg \<noteq> []
      then VerifyPackSignature (sh_readFirst sh) (sh_b64 sh) (sh_verify sh) (cfg_RulePackPath cfg) (cfg_RulePackSigPath cfg) (cfg_RulePackPubKey cfg)
      else None)"

definition loadCfgAndPack :: "shell \<Rightarrow> string \<Rightarrow> command_error + (Config \<times> Pack)" where
  "loadCfgAndPack sh path =
     (case load_config sh path of
        Inl e \<Rightarrow> Inl (ConfigLoad e)
      | Inr cfg \<Rightarrow>
          (case Validate cfg of
             Some e \<Rightarrow> Inl (ConfigInvalid e)
           | None \<Rightarrow>
               (case verify_pack sh cfg of
                  Some e \<Rightarrow> Inl (BadSignature e)
                | None \<Rightarrow>
                    (case load_pack sh cfg of
                       Inl e \<Rightarrow> Inl (PackLoad e)
                     | Inr pack \<Rightarrow>
                         (if cfg_SigmaLiteDir cfg = [] then Inr (cfg, pack)
                          else (case load_sigma sh (cfg_SigmaLiteDir cfg) of
                                  Inl _ \<Rightarrow> Inr (cfg, pack)
                                | Inr extra \<Rightarrow> Inr (cfg, Merge pack (Some extra))))))))"

definition checkConfig :: "shell \<Rightarrow> string \<Rightarrow> command_error option" where
  "checkConfig sh path =
     (case load_config sh path of
        Inl e \<Rightarrow> Some (ConfigLoad e)
      | Inr cfg \<Rightarrow>
          (case Validate cfg of
             Some e \<Rightarrow> Some (ConfigInvalid e)
           | None \<Rightarrow> (case load_pack sh cfg of Inl e \<Rightarrow> Some (PackLoad e) | Inr _ \<Rightarrow> None)))"

section \<open>Committing a baseline\<close>

text \<open>\<^verbatim>\<open>Save\<close>: whether it fails, and the files afterwards.\<close>

definition Save :: "shell \<Rightarrow> string \<Rightarrow> Snapshot \<Rightarrow> bool \<times> (string \<Rightarrow> file_state)" where
  "Save sh path s =
     (let tmp = path @ ''.tmp''
      in case sh_marshal sh s of
           None \<Rightarrow> (False, sh_disk sh)
         | Some b \<Rightarrow>
             (case sh_writeFails sh of
                Some st \<Rightarrow> (False, (sh_disk sh)(tmp := st))
              | None \<Rightarrow>
                  (let new = Present (sh_mtime sh) (int (length b)) b
                   in if sh_renameFails sh then (False, (sh_disk sh)(tmp := new))
                      else (True, (sh_disk sh)(tmp := Missing, path := new)))))"

text \<open>What is recorded, in the order of the command; only the preload baseline can fail.\<close>

definition collect_baseline :: "shell \<Rightarrow> Config \<Rightarrow> Snapshot \<Rightarrow> Snapshot option" where
  "collect_baseline sh cfg s0 =
     (let h = sh_sha sh; H = sh_host sh;
          s1 = BuildBaselineWebFiles h cfg H (BuildBaselineCron h H (BuildBaselineAuthKeys (sh_parseKey sh) H s0))
      in case BuildBaselineLDPreload (sh_procfs sh) cfg s1 of
           None \<Rightarrow> None
         | Some s2 \<Rightarrow>
             (let s3 = BuildBaselineLDConf h H (BuildBaselineKernelModules h H (BuildBaselineUsers h H (BuildBaselineSSHD h H
                         (BuildBaselineSudoers h H (BuildBaselineShellRC h H (BuildBaselinePAM h H (BuildBaselineSystemd h H s2)))))));
                  s4 = BuildBaselineIntegrity h H s3;
                  s5 = (case BuildBaselineAncestry (sh_procfs sh) of None \<Rightarrow> s4 | Some pairs \<Rightarrow> s4\<lparr>sn_ProcessAncestry := pairs\<rparr>)
              in Some (s5\<lparr>sn_CommittedAt := sh_now sh\<rparr>)))"

definition commit_refused :: "shell \<Rightarrow> Config \<Rightarrow> string \<Rightarrow> command_error option" where
  "commit_refused sh cfg token =
     (let want = sh_getenv sh (cfg_BaselineCommitTokenEnv cfg)
      in if cfg_BaselineCommitTokenEnv cfg \<noteq> [] \<and> want = [] then Some TokenUnset
         else if cfg_BaselineCommitTokenEnv cfg \<noteq> [] \<and> token \<noteq> want then Some TokenMismatch
         else if cfg_RequireRoot cfg \<and> sh_euid sh \<noteq> 0 then Some NotRoot
         else None)"

definition baselineCommit :: "shell \<Rightarrow> string \<Rightarrow> string \<Rightarrow> (command_error + Snapshot) \<times> (string \<Rightarrow> file_state)" where
  "baselineCommit sh path token =
     (case load_config sh path of
        Inl e \<Rightarrow> (Inl (ConfigLoad e), sh_disk sh)
      | Inr cfg \<Rightarrow>
          (case commit_refused sh cfg token of
             Some e \<Rightarrow> (Inl e, sh_disk sh)
           | None \<Rightarrow>
               (case LoadBaseline (sh_unmarshal sh) (sh_disk sh (cfg_BaselinePath cfg)) of
                  None \<Rightarrow> (Inl BaselineLoad, sh_disk sh)
                | Some s0 \<Rightarrow>
                    (case collect_baseline sh cfg s0 of
                       None \<Rightarrow> (Inl LDPreloadBaseline, sh_disk sh)
                     | Some s \<Rightarrow>
                         (case Save sh (cfg_BaselinePath cfg) s of
                            (True, disk) \<Rightarrow> (Inr s, disk)
                          | (False, disk) \<Rightarrow> (Inl BaselineSave, disk))))))"

section \<open>What a commit records\<close>

lemma collect_baseline_iff: "(\<exists>s. collect_baseline sh cfg s0 = Some s) \<longleftrightarrow> Processes (sh_procfs sh) \<noteq> None"
  by (auto simp: collect_baseline_def BuildBaselineLDPreload_def Let_def split: option.splits)

lemma systemd_records: "BuildBaselineSystemd h H s = record_files h H (concat (map (\<lambda>d. walkFiles H d unit_exts) systemdUnitDirs)) s"
  by (simp add: BuildBaselineSystemd_def fold_record_files)

lemmas builder_defs = commit_persistence_def BuildBaselineLDConf_def BuildBaselineKernelModules_def BuildBaselineUsers_def
  BuildBaselineSSHD_def BuildBaselineSudoers_def BuildBaselineShellRC_def BuildBaselinePAM_def systemd_records record_files_def
  BuildBaselineCron_def BuildBaselineAuthKeys_def

text \<open>The commit is the commit of the persistence detectors on a snapshot with the other parts filled in.\<close>

lemma collect_baseline_parts:
  assumes "collect_baseline sh cfg s0 = Some s" "Processes (sh_procfs sh) = Some pids"
  shows "s = commit_persistence (sh_sha sh) (sh_parseKey sh) (sh_now sh) (sh_host sh)
    (BuildBaselineIntegrity (sh_sha sh) (sh_host sh) (the (BuildBaselineLDPreload (sh_procfs sh) cfg
      (BuildBaselineWebFiles (sh_sha sh) cfg (sh_host sh) s0)))\<lparr>sn_ProcessAncestry := the (BuildBaselineAncestry (sh_procfs sh))\<rparr>)"
proof -
  have "s = the (collect_baseline sh cfg s0)" using assms(1) by simp
  then show ?thesis
    by (simp only:, intro Snapshot.equality)
      (simp_all add: collect_baseline_def builder_defs BuildBaselineLDPreload_def BuildBaselineAncestry_def BuildBaselineWebFiles_def
        BuildBaselineIntegrity_def BuildBaselineSUID_def BuildBaselineCapabilities_def Let_def assms(2))
qed

lemma commit_persistence_other:
  "sn_SUIDInventory (commit_persistence h pk t H s) = sn_SUIDInventory s"
  "sn_FileCapabilities (commit_persistence h pk t H s) = sn_FileCapabilities s"
  "sn_ProcessAncestry (commit_persistence h pk t H s) = sn_ProcessAncestry s"
  "sn_LDPreload (commit_persistence h pk t H s) = sn_LDPreload s"
  "sn_WebFiles (commit_persistence h pk t H s) = sn_WebFiles s"
  by (simp_all add: builder_defs)

text \<open>The fields of a committed snapshot that the other detectors look at.\<close>

lemma collect_baseline_fields:
  assumes "collect_baseline sh cfg s0 = Some s" "Processes (sh_procfs sh) = Some pids"
  shows "base_map (sn_SUIDInventory s) = enumerateSUIDBinaries (sh_sha sh) (sh_host sh)"
    "base_map (sn_FileCapabilities s) = enumerateCapabilities (sh_host sh)"
    "BuildBaselineAncestry (sh_procfs sh) = Some (sn_ProcessAncestry s)"
    "sn_LDPreload s = remdups (map snd (List.map_filter (preload_value (sh_procfs sh) cfg) pids))"
    "sn_WebFiles s = sn_WebFiles (BuildBaselineWebFiles (sh_sha sh) cfg (sh_host sh) s0)" "sn_CommittedAt s = sh_now sh"
  unfolding collect_baseline_parts [OF assms]
  by (simp_all add: commit_persistence_other commit_fields BuildBaselineIntegrity_def BuildBaselineSUID_def BuildBaselineCapabilities_def
      BuildBaselineAncestry_def BuildBaselineLDPreload_def BuildBaselineWebFiles_def base_map_def assms(2))

lemma ancestry_quiet:
  assumes "BuildBaselineAncestry fs = Some (sn_ProcessAncestry s)"
  shows "ancestry_Scan fs now cfg pack v s = []"
proof -
  have "rare_lineage fs s pid = None" if "pid \<in> set pids" "Processes fs = Some pids" for pid pids
  proof (cases "rare_lineage fs s pid")
    case (Some l)
    then show ?thesis using BuildBaselineAncestry_set [OF assms that(2,1)] rare_lineage_iff by (cases l) force
  qed
  then show ?thesis by (auto simp: ancestry_Scan_def map_filter_def split: option.splits)
qed

lemma preload_quiet:
  assumes "Processes fs = Some pids" "sn_LDPreload s = remdups (map snd (List.map_filter (preload_value fs cfg) pids))" "IsCommitted s"
  shows "RuleProcLDPreload \<notin> set (map ev_RuleID (ldpreload_Scan h fs now cfg pack v H s))"
proof -
  have "val \<in> set (sn_LDPreload s)" if "pid \<in> set pids" "preload_value fs cfg pid = Some (c, val)" for pid c val
    using that by (force simp: assms(2) map_filter_Some)
  then have "preload_event h fs now cfg pack v s pid = None" if "pid \<in> set pids" for pid
    using that assms(3) by (auto simp: preload_event_def split: option.split)
  then show ?thesis
    using assms(1) by (auto simp: ldpreload_Scan_def map_filter_Some preload_file_event_def zero_Event_def Let_def RuleLdSoPreload_def
        RuleProcLDPreload_def split: option.splits if_splits)
qed

lemma suid_quiet:
  assumes "base_map (sn_SUIDInventory s) = enumerateSUIDBinaries h H"
  shows "scanSUID h now cfg pack v H s = []"
proof (rule ccontr)
  assume "scanSUID h now cfg pack v H s \<noteq> []"
  then obtain e where "e \<in> set (scanSUID h now cfg pack v H s)" by fastforce
  from suid.reported [OF this] show False by (auto simp: assms map_of_eq_None_iff)
qed

lemma caps_quiet:
  assumes "base_map (sn_FileCapabilities s) = enumerateCapabilities H"
  shows "scanCapabilities h now cfg pack v H s = []"
proof (rule ccontr)
  assume "scanCapabilities h now cfg pack v H s \<noteq> []"
  then obtain e where "e \<in> set (scanCapabilities h now cfg pack v H s)" by fastforce
  from caps.reported [OF this] show False by (auto simp: assms)
qed

section \<open>Saving\<close>

lemma Save_iff: "fst (Save sh path s) \<longleftrightarrow> sh_marshal sh s \<noteq> None \<and> sh_writeFails sh = None \<and> \<not> sh_renameFails sh"
  by (auto simp: Save_def Let_def split: option.splits)

lemma tmp_differs [simp]: "path \<noteq> path @ ''.tmp''" by simp

lemma Save_result:
  "snd (Save sh path s) path = (if fst (Save sh path s) then Present (sh_mtime sh) (int (length (the (sh_marshal sh s)))) (the (sh_marshal sh s))
     else sh_disk sh path)"
  by (auto simp: Save_def Let_def split: option.splits)

lemma Save_others: "q \<noteq> path \<Longrightarrow> q \<noteq> path @ ''.tmp'' \<Longrightarrow> snd (Save sh path s) q = sh_disk sh q"
  by (auto simp: Save_def Let_def split: option.splits)

section \<open>Correctness\<close>


definition committed_snapshot :: "shell \<Rightarrow> Config \<Rightarrow> Snapshot option" where
  "committed_snapshot sh cfg =
     (case LoadBaseline (sh_unmarshal sh) (sh_disk sh (cfg_BaselinePath cfg)) of None \<Rightarrow> None | Some s0 \<Rightarrow> collect_baseline sh cfg s0)"

lemma committed_snapshot_iff:
  "committed_snapshot sh cfg \<noteq> None \<longleftrightarrow>
     LoadBaseline (sh_unmarshal sh) (sh_disk sh (cfg_BaselinePath cfg)) \<noteq> None \<and> Processes (sh_procfs sh) \<noteq> None"
  using collect_baseline_iff [of sh cfg] by (auto simp: committed_snapshot_def split: option.splits)

lemma commit_refused_iff:
  "commit_refused sh cfg token = None \<longleftrightarrow>
     (cfg_BaselineCommitTokenEnv cfg = [] \<or> token \<noteq> [] \<and> token = sh_getenv sh (cfg_BaselineCommitTokenEnv cfg)) \<and>
     (\<not> cfg_RequireRoot cfg \<or> sh_euid sh = 0)"
  by (auto simp: commit_refused_def Let_def)

lemma baselineCommit_cases:
  assumes "load_config sh path = Inr cfg"
  shows "baselineCommit sh path token =
    (case commit_refused sh cfg token of
       Some e \<Rightarrow> (Inl e, sh_disk sh)
     | None \<Rightarrow>
         (case committed_snapshot sh cfg of
            None \<Rightarrow> (Inl (if LoadBaseline (sh_unmarshal sh) (sh_disk sh (cfg_BaselinePath cfg)) = None then BaselineLoad else LDPreloadBaseline), sh_disk sh)
          | Some s \<Rightarrow> (if fst (Save sh (cfg_BaselinePath cfg) s) then Inr s else Inl BaselineSave, snd (Save sh (cfg_BaselinePath cfg) s))))"
  by (simp add: baselineCommit_def committed_snapshot_def assms split: option.splits bool.splits prod.splits)

text \<open>
  C11. A baseline is committed exactly when the token matches the variable the configuration names, the
  caller is root if that is required, the old baseline can be read and decoded, processes can be listed and the
  file can be encoded, written and renamed. Then the file holds the snapshot that was collected; otherwise it
  is as it was.
\<close>

theorem commit_succeeds_iff:
  assumes "load_config sh path = Inr cfg" "baselineCommit sh path token = (r, disk)"
  shows "((\<exists>s. r = Inr s) \<longleftrightarrow>
      (cfg_BaselineCommitTokenEnv cfg = [] \<or> token \<noteq> [] \<and> token = sh_getenv sh (cfg_BaselineCommitTokenEnv cfg)) \<and>
      (\<not> cfg_RequireRoot cfg \<or> sh_euid sh = 0) \<and>
      LoadBaseline (sh_unmarshal sh) (sh_disk sh (cfg_BaselinePath cfg)) \<noteq> None \<and> Processes (sh_procfs sh) \<noteq> None \<and>
      sh_marshal sh (the (committed_snapshot sh cfg)) \<noteq> None \<and> sh_writeFails sh = None \<and> \<not> sh_renameFails sh) \<and>
    disk (cfg_BaselinePath cfg) =
      (case r of
         Inl _ \<Rightarrow> sh_disk sh (cfg_BaselinePath cfg)
       | Inr s \<Rightarrow> Present (sh_mtime sh) (int (length (the (sh_marshal sh s)))) (the (sh_marshal sh s)))"
proof (cases "commit_refused sh cfg token")
  case (Some e)
  then show ?thesis using assms(2) commit_refused_iff [of sh cfg token] unfolding baselineCommit_cases [OF assms(1)] by auto
next
  case None
  then have ok: "cfg_BaselineCommitTokenEnv cfg = [] \<or> token \<noteq> [] \<and> token = sh_getenv sh (cfg_BaselineCommitTokenEnv cfg)"
    "\<not> cfg_RequireRoot cfg \<or> sh_euid sh = 0" using commit_refused_iff by blast+
  show ?thesis
  proof (cases "committed_snapshot sh cfg")
    case none: None
    then show ?thesis
      using assms(2) committed_snapshot_iff [of sh cfg] unfolding baselineCommit_cases [OF assms(1)] by (auto simp: None)
  next
    case (Some s)
    then have "LoadBaseline (sh_unmarshal sh) (sh_disk sh (cfg_BaselinePath cfg)) \<noteq> None" "Processes (sh_procfs sh) \<noteq> None"
      using committed_snapshot_iff [of sh cfg] by simp_all
    moreover have "r = (if fst (Save sh (cfg_BaselinePath cfg) s) then Inr s else Inl BaselineSave)" "disk = snd (Save sh (cfg_BaselinePath cfg) s)"
      using assms(2) unfolding baselineCommit_cases [OF assms(1)] by (simp_all add: None Some)
    ultimately show ?thesis using ok by (simp add: Some Save_iff Save_result)
  qed
qed

lemma make_if_nil_Some [simp]: "make_if_nil x \<noteq> None" "\<exists>y. make_if_nil x = Some y"
  by (simp_all add: make_if_nil_def split: option.split)

lemma LoadBaseline_maps:
  assumes "LoadBaseline unm f = Some s"
  shows "sn_AuthKeys s \<noteq> None \<and> sn_CronLines s \<noteq> None \<and> sn_WebFiles s \<noteq> None \<and> sn_PersistenceFiles s \<noteq> None \<and>
    sn_SUIDInventory s \<noteq> None \<and> sn_FileCapabilities s \<noteq> None \<and> sn_LoadedLibraries s \<noteq> None"
proof (cases f)
  case Missing
  then have "s = EmptySnapshot" using assms by (simp add: LoadBaseline_def)
  then show ?thesis by (simp add: EmptySnapshot_def)
next
  case (Present m n b)
  then show ?thesis using assms Present by (auto simp: LoadBaseline_def split: option.splits)
qed (use assms in \<open>simp add: LoadBaseline_def\<close>)

lemma make_if_nil_id [simp]: "m \<noteq> None \<Longrightarrow> make_if_nil m = m"
  by (auto simp: make_if_nil_def)

lemma LoadBaseline_id:
  assumes "unm b = Some s" "sn_AuthKeys s \<noteq> None" "sn_CronLines s \<noteq> None" "sn_WebFiles s \<noteq> None" "sn_PersistenceFiles s \<noteq> None"
    "sn_SUIDInventory s \<noteq> None" "sn_FileCapabilities s \<noteq> None" "sn_LoadedLibraries s \<noteq> None"
  shows "LoadBaseline unm (Present m n b) = Some s"
  using assms by (simp add: LoadBaseline_def)

lemma collect_baseline_maps:
  assumes "collect_baseline sh cfg s0 = Some s" "Processes (sh_procfs sh) = Some pids" "LoadBaseline unm f = Some s0" "unm' b = Some s"
  shows "LoadBaseline unm' (Present m n b) = Some s"
proof (rule LoadBaseline_id)
  note defs = commit_persistence_other commit_fields BuildBaselineIntegrity_def BuildBaselineSUID_def BuildBaselineCapabilities_def
    BuildBaselineLDPreload_def BuildBaselineWebFiles_def assms(2) recordPersistenceBaseline_def option.map_disc_iff
  note s = collect_baseline_parts [OF assms(1,2)] and s0 = LoadBaseline_maps [OF assms(3)]
  show "unm' b = Some s" by (rule assms(4))
  show "sn_AuthKeys s \<noteq> None" "sn_CronLines s \<noteq> None" "sn_WebFiles s \<noteq> None" "sn_PersistenceFiles s \<noteq> None"
    "sn_SUIDInventory s \<noteq> None" "sn_FileCapabilities s \<noteq> None"
    unfolding s using s0 by (simp_all only: defs) simp_all
  have "sn_LoadedLibraries (commit_persistence h pk t H x) = sn_LoadedLibraries x" for h pk t H x by (simp add: builder_defs)
  then show "sn_LoadedLibraries s \<noteq> None" unfolding s using s0 by (simp only: defs) simp
qed


section \<open>Sample commands\<close>

text \<open>A configuration that requires a token, a host with two processes, and codecs that keep one snapshot.\<close>

definition cmd_cfg :: Config where
  "cmd_cfg = Default\<lparr>cfg_BaselineCommitTokenEnv := ''GC_TOKEN'', cfg_RulePackPath := ''/p'', cfg_BaselinePath := ''/b'',
     cfg_RulePackPubKey := ''/k'', cfg_RulePackSigPath := ''/s''\<rparr>"

definition cmd_shell0 :: shell where
  "cmd_shell0 = \<lparr>sh_read = (\<lambda>p. Some p), sh_readFirst = (\<lambda>p. Some p), sh_readDir = (\<lambda>p. None), sh_yamlConfig = (\<lambda>b c. Some cmd_cfg),
     sh_yamlPack = (\<lambda>b. Some \<lparr>pack_Version = ''1'', pack_Rules = []\<rparr>), sh_yamlSigma = (\<lambda>b. None), sh_b64 = (\<lambda>b. Some (replicate 32 (CHR ''k''))),
     sh_verify = (\<lambda>k m s. m = ''/p''), sh_getenv = (\<lambda>n. ''secret''), sh_euid = 1000, sh_disk = (\<lambda>p. Missing), sh_unmarshal = (\<lambda>b. None),
     sh_marshal = (\<lambda>s. Some ''json''), sh_writeFails = None, sh_renameFails = False, sh_mtime = 3, sh_sha = (\<lambda>b. ''h'' @ b),
     sh_parseKey = (\<lambda>l. None), sh_host = sample_host [], sh_procfs = sample_procs, sh_now = 5\<rparr>"

definition cmd_shell :: shell where
  "cmd_shell = cmd_shell0\<lparr>sh_unmarshal := (\<lambda>b. committed_snapshot cmd_shell0 cmd_cfg)\<rparr>"

lemma repair_cmd: "repair cmd_cfg = cmd_cfg"
  by (simp add: repair_def cmd_cfg_def Default_def Let_def duration_defs)

lemma cmd_config: "load_config cmd_shell ''c'' = Inr cmd_cfg"
proof -
  have "cfg_BaselinePath cmd_cfg = ''/b''" "cfg_RulePackPath cmd_cfg = ''/p''" by (simp_all add: cmd_cfg_def)
  then show ?thesis by (simp add: load_config_def LoadConfig_def cmd_shell_def cmd_shell0_def repair_cmd)
qed

lemma collect_unmarshal: "collect_baseline (sh\<lparr>sh_unmarshal := u\<rparr>) cfg s = collect_baseline sh cfg s"
  by (simp add: collect_baseline_def Let_def cong: option.case_cong)

lemma cmd_committed: "committed_snapshot cmd_shell cmd_cfg = committed_snapshot cmd_shell0 cmd_cfg"
proof -
  have "sh_disk cmd_shell0 p = Missing" for p by (simp add: cmd_shell0_def)
  then show ?thesis by (simp add: committed_snapshot_def cmd_shell_def Load_missing collect_unmarshal)
qed

lemma cmd_fields:
  "cfg_BaselineCommitTokenEnv cmd_cfg = ''GC_TOKEN''" "\<not> cfg_RequireRoot cmd_cfg" "sh_getenv cmd_shell n = ''secret''"
  "sh_disk cmd_shell p = Missing" "sh_marshal cmd_shell s = Some ''json''" "sh_writeFails cmd_shell = None" "\<not> sh_renameFails cmd_shell"
  "sh_procfs cmd_shell = sample_procs" "sh_now cmd_shell = 5" "sh_mtime cmd_shell = 3"
  by (simp_all add: cmd_cfg_def cmd_shell_def cmd_shell0_def Default_def)

lemma cmd_success: "\<exists>s disk. baselineCommit cmd_shell ''c'' ''secret'' = (Inr s, disk) \<and> committed_snapshot cmd_shell cmd_cfg = Some s"
proof -
  obtain s where s: "committed_snapshot cmd_shell cmd_cfg = Some s"
    using committed_snapshot_iff [of cmd_shell cmd_cfg] by (auto simp: cmd_fields Load_missing sample_procs_pids)
  have "commit_refused cmd_shell cmd_cfg ''secret'' = None" by (simp add: commit_refused_iff cmd_fields)
  then show ?thesis by (simp add: baselineCommit_cases [OF cmd_config] s Save_iff cmd_fields)
qed

theorem commit_succeeds_iff_witness:
  "(case baselineCommit cmd_shell ''c'' ''secret'' of (r, disk) \<Rightarrow> (\<exists>s. r = Inr s) \<and> disk (cfg_BaselinePath cmd_cfg) = Present 3 4 ''json'') \<and>
   (case baselineCommit cmd_shell ''c'' ''guess'' of (r, disk) \<Rightarrow> \<not> (\<exists>s. r = Inr s) \<and> disk (cfg_BaselinePath cmd_cfg) = Missing)"
proof -
  obtain r disk where g: "baselineCommit cmd_shell ''c'' ''guess'' = (r, disk)" by (metis surj_pair)
  obtain s disk' where ok: "baselineCommit cmd_shell ''c'' ''secret'' = (Inr s, disk')" using cmd_success by blast
  show ?thesis
    using commit_succeeds_iff [OF cmd_config g] commit_succeeds_iff [OF cmd_config ok]
    by (auto simp: g ok cmd_fields split: sum.splits)
qed



section \<open>Deviations\<close>

text \<open>
  A public key without a signature path, or the reverse, switches the verification off: any pack is accepted.
  Nor does \<^verbatim>\<open>check-config\<close> verify a signature.
\<close>

lemma half_configured_unverified: "cfg_RulePackPubKey cfg = [] \<or> cfg_RulePackSigPath cfg = [] \<Longrightarrow> verify_pack sh cfg = None"
  by (auto simp: verify_pack_def)

end
