(* ===== verification/GC_Agent.thy ===== *)
theory GC_Agent
  imports GC_Scan GC_Watch GC_Command
begin

text \<open>
  The agent as a whole (\<^verbatim>\<open>RunLoop\<close> of \<^verbatim>\<open>runner/runner.go\<close> and \<^verbatim>\<open>runCmd\<close> of \<^verbatim>\<open>cmd/agent/main.go\<close>): the
  loops it starts, and what they do to the shared runner. A step of the agent is the start or the end of a scan, one event of a
  running scan, a sensor record, a tick of the credential snapshot or a check of the binary; the steps of the loops
  interleave in any order, so live records are handled while a scan goes through its findings. However
  they do, what comes out is a run of the pipeline.
\<close>

section \<open>Starting\<close>

definition runCmd :: "shell \<Rightarrow> string \<Rightarrow> command_error + (Config \<times> Pack)" where
  "runCmd sh path =
     (case loadCfgAndPack sh path of
        Inl e \<Rightarrow> Inl e
      | Inr (cfg, pack) \<Rightarrow> if cfg_RequireRoot cfg \<and> sh_euid sh \<noteq> 0 then Inl NotRoot else Inr (cfg, pack))"

datatype worker =
    KeysWatcher duration
  | SensitiveWatcher "SensitivePathSpec list" duration
  | SensorReader backend
  | SuddenRootLoop duration
  | InventoryLoop duration
  | WatchdogLoop duration
  | ScanLoop duration

definition suddenRoot_interval :: "Config \<Rightarrow> duration" where
  "suddenRoot_interval cfg = (let i = sr_SnapshotInterval (cfg_SuddenRoot cfg) in if i \<le> 0 then 10 * second else i)"

definition inventory_interval :: "Config \<Rightarrow> duration" where
  "inventory_interval cfg = (let i = cfg_IntegrityScanInterval cfg in if i \<le> 0 then 6 * (60 * minute) else i)"

text \<open>
  The interval of the ticker of a loop, for the loops that have one. A ticker panics unless its interval is positive; \<open>start_loops\<close> is
  \<open>None\<close> then. The scan loop is the one the caller waits for.
\<close>

definition tick_interval :: "worker \<Rightarrow> duration option" where
  "tick_interval w =
     (case w of
        SuddenRootLoop i \<Rightarrow> Some i | InventoryLoop i \<Rightarrow> Some i | WatchdogLoop i \<Rightarrow> Some i | ScanLoop i \<Rightarrow> Some i
      | _ \<Rightarrow> None)"

definition workers :: "bool \<Rightarrow> bool \<Rightarrow> string \<Rightarrow> Config \<Rightarrow> worker list" where
  "workers ebpf auditd watchdogUsec cfg =
     (if cfg_WatchAuthorizedKeys cfg then [KeysWatcher (cfg_WatchDebounce cfg)] else []) @
     (if cfg_WatchSensitivePaths cfg then [SensitiveWatcher (DefaultSensitivePaths (cfg_DocumentRoots cfg)) (cfg_WatchDebounce cfg)] else []) @
     (case OpenSource ebpf auditd (sc_Backend (cfg_Sensor cfg)) of Inl _ \<Rightarrow> [] | Inr b \<Rightarrow> [SensorReader b]) @
     (if sr_Enabled (cfg_SuddenRoot cfg) then [SuddenRootLoop (suddenRoot_interval cfg)] else []) @
     (if cfg_IntegrityVerifyEnabled cfg \<and> cfg_IntegrityScanInterval cfg > 0 then [InventoryLoop (inventory_interval cfg)] else []) @
     (let wd = WatchdogInterval watchdogUsec
      in if sg_Enabled (cfg_SelfGuard cfg) \<and> sg_SystemdWatchdog (cfg_SelfGuard cfg) \<and> wd > 0 then [WatchdogLoop wd] else []) @
     [ScanLoop (cfg_ScanInterval cfg)]"

definition start_loops :: "bool \<Rightarrow> bool \<Rightarrow> string \<Rightarrow> Config \<Rightarrow> worker list option" where
  "start_loops ebpf auditd watchdogUsec cfg =
     (let ws = workers ebpf auditd watchdogUsec cfg
      in if list_all (\<lambda>w. case tick_interval w of None \<Rightarrow> True | Some i \<Rightarrow> 0 < i) ws then Some ws else None)"

text \<open>Only the interval of the main loop can be wrong: every other one is made positive or switches its loop off.\<close>

lemma start_loops_iff: "start_loops ebpf auditd usec cfg \<noteq> None \<longleftrightarrow> 0 < cfg_ScanInterval cfg"
proof -
  have "0 < suddenRoot_interval cfg" "0 < inventory_interval cfg"
    by (simp_all add: suddenRoot_interval_def inventory_interval_def Let_def duration_defs)
  then show ?thesis by (auto simp: start_loops_def workers_def tick_interval_def Let_def split: sum.splits)
qed

section \<open>The watchdog\<close>

text \<open>\<^verbatim>\<open>selfguard.NotifyWatchdog\<close>: the error, and the datagrams that reach the socket the service manager named in the environment.\<close>

datatype notify_error = NotifyDialFailed | NotifyWriteFailed

definition NotifyWatchdog :: "string \<Rightarrow> bool \<Rightarrow> bool \<Rightarrow> notify_error option \<times> string list" where
  "NotifyWatchdog addr dials writes =
     (if addr = [] then (None, [])
      else if \<not> dials then (Some NotifyDialFailed, [])
      else if \<not> writes then (Some NotifyWriteFailed, [])
      else (None, [''WATCHDOG=1'']))"

text \<open>The ticks of \<^verbatim>\<open>watchdogLoop\<close>, which drops errors.\<close>

definition watchdogLoop :: "string \<Rightarrow> (bool \<times> bool) list \<Rightarrow> string list" where
  "watchdogLoop addr ticks = concat (map (\<lambda>(dials, writes). snd (NotifyWatchdog addr dials writes)) ticks)"

text \<open>A failed tick costs one ping and nothing else: every other tick sends its own.\<close>

lemma watchdogLoop_pings:
  "addr \<noteq> [] \<Longrightarrow> watchdogLoop addr ticks = replicate (length (filter (\<lambda>(dials, writes). dials \<and> writes) ticks)) ''WATCHDOG=1''"
  by (induction ticks) (auto simp: watchdogLoop_def NotifyWatchdog_def split: if_splits)

section \<open>Steps of the agent\<close>

definition selfCheck :: "(string \<Rightarrow> (string + string)) \<Rightarrow> env \<Rightarrow> clocks \<Rightarrow> delivery \<Rightarrow> time \<Rightarrow> time \<Rightarrow> Runner \<Rightarrow> (input \<times> outcome) list \<times> Runner" where
  "selfCheck readBin en ck dl t1 t2 rn =
     (let sg = cfg_SelfGuard (rn_cfg rn)
      in if \<not> sg_Enabled sg \<or> sg_BinaryPath sg = [] \<or> sg_ExpectedBinarySHA256 sg = [] then ([], rn)
         else (case BinaryMatches readBin (en_sha en) (sg_BinaryPath sg) (sg_ExpectedBinarySHA256 sg) of
                 None \<Rightarrow> ([], rn)
               | Some err \<Rightarrow> (let (io, rn') = dispatchEvent en (ck, dl, t2) rn (tampered_event t1 rn err) 0 in ([io], rn'))))"

lemma selfCheck_effects:
  "selfCheck readBin en ck dl t1 t2 rn = (ios, rn') \<Longrightarrow> checkBinaryHash readBin en ck dl t1 t2 rn = (rn', concat (map (\<lambda>(i, v, e, fx). fx) ios))"
  by (auto simp: selfCheck_def checkBinaryHash_def dispatchEvent_def Let_def split: if_splits option.splits prod.splits)

datatype scan_kind = FullScan | FIMScan | InventoryScan

definition collect_scan :: "scan_kind \<Rightarrow> env \<Rightarrow> scan_view \<Rightarrow> scan_state \<Rightarrow> (scan_failure + Event list) \<times> scan_state" where
  "collect_scan k = (case k of FullScan \<Rightarrow> collect_full | FIMScan \<Rightarrow> collect_fim | InventoryScan \<Rightarrow> collect_inventory)"

text \<open>
  A scan goes on from \<open>StartScan\<close>, which takes the lock and collects, through one \<open>ScanNext\<close> for every finding, to \<open>FinishScan\<close>. A step that
  has no place in the state of the agent changes nothing.
\<close>

datatype action =
    StartScan scan_kind scan_view time
  | ScanNext clocks delivery
  | FinishScan duration
  | SensorRecord live_io SensorEvent
  | SuddenTick "ProcessKey list \<Rightarrow> ProcessKey list" time time "nat \<Rightarrow> dispatch"
  | SelfCheck "string \<Rightarrow> string + string" clocks delivery time time

text \<open>The running scan, if there is one: the time it gives its events and the findings it has still to process.\<close>

record agent =
  ag_runner :: Runner
  ag_net :: netstate
  ag_cache :: Cache
  ag_budget :: budget
  ag_debouncer :: "Debouncer option"
  ag_mass :: massCounter
  ag_scan :: "(time \<times> Event list) option"

definition start_scan :: "scan_kind \<Rightarrow> env \<Rightarrow> scan_view \<Rightarrow> time \<Rightarrow> agent \<Rightarrow> agent" where
  "start_scan k en v now ag =
     (case tryScan (ag_runner ag) of
        (False, rn) \<Rightarrow> ag\<lparr>ag_runner := rn\<rparr>
      | (True, rn) \<Rightarrow>
          (case collect_scan k en v (rn, ag_net ag, ag_cache ag) of
             (found, rn', net, c) \<Rightarrow>
               ag\<lparr>ag_runner := rn', ag_net := net, ag_cache := c, ag_scan := Some (now, case found of Inl _ \<Rightarrow> [] | Inr es \<Rightarrow> es)\<rparr>))"

definition finish_scan :: "duration \<Rightarrow> agent \<Rightarrow> agent" where
  "finish_scan d ag =
     (let (rn, bud) = endScan d (ag_runner ag, ag_budget ag) in ag\<lparr>ag_runner := rn, ag_budget := bud, ag_scan := None\<rparr>)"

fun agent_step :: "env \<Rightarrow> action \<Rightarrow> agent \<Rightarrow> (input \<times> outcome) list \<times> agent" where
  "agent_step en (StartScan k v now) ag = ([], start_scan k en v now ag)"
| "agent_step en (ScanNext ck dl) ag =
     (case ag_scan ag of
        Some (now, e # es) \<Rightarrow>
          (let (io, rn) = dispatchEvent en (ck, dl, now) (ag_runner ag) e 0 in ([io], ag\<lparr>ag_runner := rn, ag_scan := Some (now, es)\<rparr>))
      | _ \<Rightarrow> ([], ag))"
| "agent_step en (FinishScan d) ag = ([], case ag_scan ag of Some (_, []) \<Rightarrow> finish_scan d ag | _ \<Rightarrow> ag)"
| "agent_step en (SensorRecord io ev) ag =
     (let (ios, deb, rn, m) = consume_one en io ev (ag_debouncer ag, ag_runner ag, ag_mass ag)
      in (ios, ag\<lparr>ag_runner := rn, ag_debouncer := deb, ag_mass := m\<rparr>))"
| "agent_step en (SuddenTick ord scan now ds) ag =
     (let (ios, rn) = suddenRoot_tick en ord scan now ds (ag_runner ag) in (ios, ag\<lparr>ag_runner := rn\<rparr>))"
| "agent_step en (SelfCheck readBin ck dl t1 t2) ag =
     (let (ios, rn) = selfCheck readBin en ck dl t1 t2 (ag_runner ag) in (ios, ag\<lparr>ag_runner := rn\<rparr>))"

text \<open>Every step is given its own view of the host; what it processed is kept together with that view.\<close>

fun agent_run :: "(env \<times> action) list \<Rightarrow> agent \<Rightarrow> ((env \<times> input) \<times> outcome) list \<times> agent" where
  "agent_run [] ag = ([], ag)"
| "agent_run ((en, a) # as) ag =
     (let (ios, ag1) = agent_step en a ag; (ios', ag2) = agent_run as ag1 in (map (\<lambda>(i, out). ((en, i), out)) ios @ ios', ag2))"

definition new_agent :: "Runner \<Rightarrow> agent" where
  "new_agent rn = \<lparr>ag_runner = rn, ag_net = zero_netstate, ag_cache = zero_Cache, ag_budget = zero_budget,
     ag_debouncer = NewDebouncer (wrap64 (sc_DebounceMS (cfg_Sensor (rn_cfg rn)) * millisecond)), ag_mass = [], ag_scan = None\<rparr>"

section \<open>What the pipeline does not look at\<close>

text \<open>The tracker, the lock, its counter and the time of the last network scan are the loops' own.\<close>

definition aside :: "Tracker \<Rightarrow> bool \<Rightarrow> nat \<Rightarrow> time \<Rightarrow> Runner \<Rightarrow> Runner" where
  "aside t l k n rn = rn\<lparr>rn_privesc := t, rn_scanLocked := l, rn_overlappingSkipped := k, rn_lastNetworkScan := n\<rparr>"

lemma aside_fields [simp]:
  "rn_scanLocked (aside t l k n rn) = l" "rn_cfg (aside t l k n rn) = rn_cfg rn" "rn_pack (aside t l k n rn) = rn_pack rn" "rn_correlator (aside t l k n rn) = rn_correlator rn"
  by (simp_all add: aside_def)

lemma aside_aside [simp]: "aside t l k n (aside t' l' k' n' rn) = aside t l k n rn"
  by (simp add: aside_def)

lemma prepare_aside [simp]: "prepare en (aside t l k n rn) now e = prepare en rn now e"
  by (simp add: aside_def prepare_def orient_def Let_def split: option.splits)

lemma rule_for_aside [simp]: "rule_for (aside t l k n rn) e = rule_for rn e"
  by (simp add: rule_for_def)

lemma act_event_aside:
  "act_event en ck (aside t l k n rn) e r obs = (case act_event en ck rn e r obs of (rn', e', fx) \<Rightarrow> (aside t l k n rn', e', fx))"
  by (simp add: aside_def act_event_def split: option.splits prod.splits)

lemma shouldDedup_aside:
  "shouldDedup ds (aside t l k n rn) key = (case shouldDedup ds rn key of (b, rn') \<Rightarrow> (b, aside t l k n rn'))"
  by (simp add: aside_def shouldDedup_def split: prod.splits)

lemma gates_aside: "gates ck (aside t l k n rn) e = (case gates ck rn e of (v, rn') \<Rightarrow> (v, aside t l k n rn'))"
  unfolding gates_def Let_def shouldDedup_aside by (simp add: aside_def split: prod.splits)

lemma emit_aside: "emit en dl (aside t l k n rn) e = (case emit en dl rn e of (rn', e', fx) \<Rightarrow> (aside t l k n rn', e', fx))"
  by (simp add: aside_def emit_def legacy_quarantine_def Let_def split: option.splits)

lemma correlator_aside: "(aside t l k n rn)\<lparr>rn_correlator := c\<rparr> = aside t l k n (rn\<lparr>rn_correlator := c\<rparr>)"
  by (simp add: aside_def)

lemma processEvent_aside:
  "processEvent en ck dl (aside t l k n rn) e obs now =
     (case processEvent en ck dl rn e obs now of (v, rn', e', fx) \<Rightarrow> (v, aside t l k n rn', e', fx))"
proof -
  let ?e = "prepare en rn now e"
  let ?c = "addFull (rn_correlator rn) (ev_RuleID ?e) (ent_ID (ev_Entity ?e)) (ev_Anchor ?e) (ev_ConfBand ?e) now"
  obtain rn2 e2 fx where a: "act_event en ck (rn\<lparr>rn_correlator := ?c\<rparr>) ?e (rule_for rn ?e) obs = (rn2, e2, fx)"
    by (metis prod_cases3)
  obtain v rn3 where g: "gates ck rn2 e2 = (v, rn3)" by (metis surj_pair)
  obtain rn4 e3 fx' where m: "emit en dl rn3 e2 = (rn4, e3, fx')" by (metis prod_cases3)
  show ?thesis
    unfolding processEvent_def Let_def
    by (simp add: correlator_aside act_event_aside a g m gates_aside emit_aside del: prepare_frame)
qed


definition pipe_equal :: "Runner \<Rightarrow> Runner \<Rightarrow> bool" where
  "pipe_equal rn rn' \<longleftrightarrow> (\<exists>t l k n. rn' = aside t l k n rn)"

lemma pipe_equal_aside [simp]: "pipe_equal rn (aside t l k n rn)"
  by (auto simp: pipe_equal_def)

lemma aside_self: "aside (rn_privesc rn) (rn_scanLocked rn) (rn_overlappingSkipped rn) (rn_lastNetworkScan rn) rn = rn"
  by (simp add: aside_def)

lemma pipe_equal_refl [simp]: "pipe_equal rn rn"
  unfolding pipe_equal_def by (metis aside_self)

lemma pipe_equal_trans: "pipe_equal a b \<Longrightarrow> pipe_equal b c \<Longrightarrow> pipe_equal a c"
  unfolding pipe_equal_def by (metis aside_aside)

lemma pipe_equal_updates [simp]:
  "pipe_equal rn (rn\<lparr>rn_privesc := t\<rparr>)" "pipe_equal rn (rn\<lparr>rn_scanLocked := l\<rparr>)"
  "pipe_equal rn (rn\<lparr>rn_overlappingSkipped := k\<rparr>)" "pipe_equal rn (rn\<lparr>rn_lastNetworkScan := n\<rparr>)"
  unfolding pipe_equal_def
  subgoal by (rule exI [of _ t], rule exI [of _ "rn_scanLocked rn"], rule exI [of _ "rn_overlappingSkipped rn"], rule exI [of _ "rn_lastNetworkScan rn"]) (simp add: aside_def)
  subgoal by (rule exI [of _ "rn_privesc rn"], rule exI [of _ l], rule exI [of _ "rn_overlappingSkipped rn"], rule exI [of _ "rn_lastNetworkScan rn"]) (simp add: aside_def)
  subgoal by (rule exI [of _ "rn_privesc rn"], rule exI [of _ "rn_scanLocked rn"], rule exI [of _ k], rule exI [of _ "rn_lastNetworkScan rn"]) (simp add: aside_def)
  subgoal by (rule exI [of _ "rn_privesc rn"], rule exI [of _ "rn_scanLocked rn"], rule exI [of _ "rn_overlappingSkipped rn"], rule exI [of _ n]) (simp add: aside_def)
  done

lemma same_but_tracker_pipe: "same_but_tracker rn rn' \<Longrightarrow> pipe_equal rn rn'"
  by (auto simp: same_but_tracker_def)

section \<open>Every step is a run of the pipeline\<close>

definition advance :: "(env \<times> input) list \<Rightarrow> Runner \<Rightarrow> Runner" where
  "advance = fold (\<lambda>(en, ck, dl, e, obs, now) r. fst (snd (processEvent en ck dl r e obs now)))"

lemma advance_simps [simp]:
  "advance [] rn = rn"
  "advance ((en, ck, dl, e, obs, now) # xs) rn = advance xs (fst (snd (processEvent en ck dl rn e obs now)))"
  "advance (xs @ ys) rn = advance ys (advance xs rn)"
  by (simp_all add: advance_def)

lemma process_each_append: "process_each rn (xs @ ys) = process_each rn xs @ process_each (advance xs rn) ys"
  by (induction rn xs rule: process_each.induct) (auto split: prod.splits)

lemma advance_aside: "advance xs (aside t l k n rn) = aside t l k n (advance xs rn)"
  by (induction xs arbitrary: rn) (auto simp: processEvent_aside split: prod.splits)

lemma process_each_aside [simp]: "process_each (aside t l k n rn) xs = process_each rn xs"
  by (induction rn xs rule: process_each.induct) (auto simp: processEvent_aside split: prod.splits)

text \<open>What was given and what was answered, from \<open>rn\<close> to \<open>rn'\<close>.\<close>

definition ran :: "Runner \<Rightarrow> ((env \<times> input) \<times> outcome) list \<Rightarrow> Runner \<Rightarrow> bool" where
  "ran rn ios rn' \<longleftrightarrow> map snd ios = process_each rn (map fst ios) \<and> pipe_equal (advance (map fst ios) rn) rn'"

lemma ran_append:
  assumes "ran rn xs rn1" "ran rn1 ys rn2"
  shows "ran rn (xs @ ys) rn2"
proof -
  obtain t l k n where a: "rn1 = aside t l k n (advance (map fst xs) rn)" using assms(1) by (auto simp: ran_def pipe_equal_def)
  have "pipe_equal (advance (map fst ys) (advance (map fst xs) rn)) rn2"
    using assms(2) by (auto simp: ran_def a advance_aside intro: pipe_equal_trans [OF pipe_equal_aside])
  then show ?thesis using assms by (simp add: ran_def a process_each_append)
qed

lemma ran_quiet: "pipe_equal rn rn' \<Longrightarrow> ran rn [] rn'"
  by (simp add: ran_def)

abbreviation in_view :: "env \<Rightarrow> (input \<times> outcome) list \<Rightarrow> ((env \<times> input) \<times> outcome) list" where
  "in_view en ios \<equiv> map (\<lambda>(i, out). ((en, i), out)) ios"

lemma ran_after: "pipe_equal rn rn1 \<Longrightarrow> ran rn1 ios rn2 \<Longrightarrow> ran rn ios rn2"
  using ran_append [OF ran_quiet] by fastforce

lemma ran_then: "ran rn ios rn1 \<Longrightarrow> pipe_equal rn1 rn2 \<Longrightarrow> ran rn ios rn2"
  using ran_append [OF _ ran_quiet] by fastforce

lemma traced_ran:
  assumes "traced en rn ios rn'"
  shows "ran rn (in_view en ios) rn'"
proof -
  have f: "map fst (in_view en ios) = map (Pair en) (map fst ios)" "map snd (in_view en ios) = map snd ios" by auto
  have "advance (map (Pair en) (map fst ios)) rn =
    fold (\<lambda>(ck, dl, e, obs, now) r. fst (snd (processEvent en ck dl r e obs now))) (map fst ios) rn"
    by (simp add: advance_def fold_map comp_def)
  then show ?thesis using assms unfolding ran_def f traced_def by (simp add: process_all_each same_but_tracker_pipe)
qed

lemma dispatch_all_ran: "dispatch_all en ds i obs es rn = (ios, rn') \<Longrightarrow> ran rn (in_view en ios) rn'"
  using dispatch_all_traced [of en rn "[]" rn] by (auto intro: traced_ran)

lemma process_batch_ran: "process_batch en ds now es rn = (ios, rn') \<Longrightarrow> ran rn (in_view en ios) rn'"
  unfolding process_batch_def by (rule dispatch_all_ran)

lemma network_part_pipe: "network_part en v rn net = (r, rn1, net1) \<Longrightarrow> pipe_equal rn rn1"
  by (auto simp: network_part_def split: if_splits prod.splits sum.splits)

lemma collect_scan_pipe: "collect_scan k en v (rn, x) = (found, rn', x') \<Longrightarrow> pipe_equal rn rn'"
  by (auto simp: collect_scan_def collect_full_def collect_fim_def collect_inventory_def Let_def dest: network_part_pipe
      split: scan_kind.splits option.splits prod.splits sum.splits if_splits)

lemma tryScan_pipe: "tryScan rn = (ok, rn') \<Longrightarrow> pipe_equal rn rn'"
  by (auto simp: tryScan_def split: if_splits)

lemma start_scan_pipe: "pipe_equal (ag_runner ag) (ag_runner (start_scan k en v now ag))"
proof -
  obtain ok rn where l: "tryScan (ag_runner ag) = (ok, rn)" by (metis surj_pair)
  show ?thesis using tryScan_pipe [OF l] collect_scan_pipe [of k en v rn "(ag_net ag, ag_cache ag)"]
    by (auto simp: start_scan_def l intro: pipe_equal_trans split: bool.splits prod.splits)
qed

lemma finish_scan_pipe: "pipe_equal (ag_runner ag) (ag_runner (finish_scan d ag))"
  by (simp add: finish_scan_def endScan_def)

lemma dispatchEvent_ran: "dispatchEvent en d rn e obs = (io, rn') \<Longrightarrow> ran rn (in_view en [io]) rn'"
  using traced_dispatch [of en rn "[]" rn d e obs io rn'] by (intro traced_ran) simp

lemma selfCheck_ran: "selfCheck readBin en ck dl t1 t2 rn = (ios, rn') \<Longrightarrow> ran rn (in_view en ios) rn'"
  using traced_dispatch [of en rn "[]" rn]
  by (auto simp: selfCheck_def Let_def intro!: traced_ran ran_quiet split: if_splits option.splits prod.splits)

lemma suddenRoot_tick_ran: "suddenRoot_tick en ord scan now ds rn = (ios, rn') \<Longrightarrow> ran rn (in_view en ios) rn'"
  by (auto simp: suddenRoot_tick_def Let_def intro: ran_quiet ran_after [OF pipe_equal_updates(1) dispatch_all_ran] split: option.splits prod.splits)

lemma agent_step_ran:
  assumes "agent_step en a ag = (ios, ag')"
  shows "ran (ag_runner ag) (in_view en ios) (ag_runner ag')"
proof (cases a)
  case (SensorRecord io ev)
  obtain ios1 deb rn m where c: "consume_one en io ev (ag_debouncer ag, ag_runner ag, ag_mass ag) = (ios1, deb, rn, m)" by (metis prod_cases4)
  have "traced en (ag_runner ag) ios1 rn" using consume_one_traced [OF _ c, of "ag_runner ag" "[]"] by simp
  then show ?thesis using assms SensorRecord c by (auto intro: traced_ran)
next
  case (ScanNext ck dl)
  then show ?thesis using assms dispatchEvent_ran by (fastforce intro: ran_quiet split: option.splits prod.splits list.splits)
qed (use assms in \<open>auto intro: ran_quiet start_scan_pipe finish_scan_pipe suddenRoot_tick_ran selfCheck_ran split: prod.splits option.splits list.splits\<close>)

lemma agent_run_ran: "agent_run as ag = (ios, ag') \<Longrightarrow> ran (ag_runner ag) ios (ag_runner ag')"
proof (induction as ag arbitrary: ios ag' rule: agent_run.induct)
  case (2 en a as ag)
  obtain ios1 ag1 where s: "agent_step en a ag = (ios1, ag1)" by (metis surj_pair)
  obtain ios2 ag2 where r: "agent_run as ag1 = (ios2, ag2)" by (metis surj_pair)
  show ?case using ran_append [OF agent_step_ran [OF s] "2.IH" [OF s [symmetric] refl r]] "2.prems" by (simp add: s r)
qed (simp add: ran_quiet)

section \<open>Scans that nothing interrupts\<close>

text \<open>On an idle agent the steps of a scan, one after the other, are the scan as a whole.\<close>

definition run_once_of :: "scan_kind \<Rightarrow> env \<Rightarrow> scan_view \<Rightarrow> (nat \<Rightarrow> clocks \<times> delivery) \<Rightarrow> time \<Rightarrow> duration \<Rightarrow> budget \<Rightarrow> scan_state \<Rightarrow> (netstate \<times> Cache) scan_result \<times> budget" where
  "run_once_of k = (case k of FullScan \<Rightarrow> RunOnce | FIMScan \<Rightarrow> RunFIMOnce | InventoryScan \<Rightarrow> RunInventoryOnce)"

definition scan_steps :: "scan_kind \<Rightarrow> env \<Rightarrow> scan_view \<Rightarrow> (nat \<Rightarrow> clocks \<times> delivery) \<Rightarrow> time \<Rightarrow> duration \<Rightarrow> nat \<Rightarrow> (env \<times> action) list" where
  "scan_steps k en v ds now d n =
     map (Pair en) (StartScan k v now # map (\<lambda>i. ScanNext (fst (ds i)) (snd (ds i))) [0..<n] @ [FinishScan d])"

lemma run_once_of_collect:
  "run_once_of k en v ds now d = runScan (\<lambda>st. process_collected en ds now (collect_scan k en v st)) d"
  by (cases k) (simp_all add: run_once_of_def collect_scan_def RunOnce_def RunFIMOnce_def RunInventoryOnce_def scanFull_def [abs_def]
      scanFIM_def [abs_def] scanInventory_def [abs_def])

lemma agent_run_append: "agent_run (xs @ ys) ag = (let (ios, ag1) = agent_run xs ag; (ios', ag2) = agent_run ys ag1 in (ios @ ios', ag2))"
  by (induction xs ag rule: agent_run.induct) (auto simp: Let_def split: prod.splits)

lemma scan_next_run:
  assumes "ag_scan ag = Some (now, es)" "dispatch_all en (\<lambda>i. (fst (ds i), snd (ds i), now)) j 0 es (ag_runner ag) = (ios, rn)"
  shows "agent_run (map (Pair en) (map (\<lambda>i. ScanNext (fst (ds i)) (snd (ds i))) [j..<j + length es])) ag =
    (in_view en ios, ag\<lparr>ag_runner := rn, ag_scan := Some (now, [])\<rparr>)"
  using assms
proof (induction es arbitrary: j ag ios)
  case (Cons e es)
  obtain io rn1 where d: "dispatchEvent en (fst (ds j), snd (ds j), now) (ag_runner ag) e 0 = (io, rn1)" by (metis surj_pair)
  obtain ios1 where r: "dispatch_all en (\<lambda>i. (fst (ds i), snd (ds i), now)) (Suc j) 0 es rn1 = (ios1, rn)" "ios = io # ios1"
    using Cons.prems(2) d by (auto split: prod.splits)
  have u: "[j..<j + length (e # es)] = j # [Suc j..<Suc j + length es]" by (simp add: upt_conv_Cons del: upt_Suc)
  show ?case unfolding u using Cons.IH [of "ag\<lparr>ag_runner := rn1, ag_scan := Some (now, es)\<rparr>" "Suc j" ios1] Cons.prems(1) d r
    by (simp del: upt_Suc split: prod.splits)
qed simp

lemma uninterrupted_scan:
  assumes "ag_scan ag = None" "\<not> rn_scanLocked (ag_runner ag)"
    and "run_once_of k en v ds now d (ag_budget ag) (ag_runner ag, ag_net ag, ag_cache ag) = ((err, ios, rn, net, c), bud)"
    and "n = length ios"
  shows "agent_run (scan_steps k en v ds now d n) ag =
    (in_view en ios, ag\<lparr>ag_runner := rn, ag_net := net, ag_cache := c, ag_budget := bud\<rparr>)"
proof -
  obtain found rn1 net1 c1 where f: "collect_scan k en v ((ag_runner ag)\<lparr>rn_scanLocked := True\<rparr>, ag_net ag, ag_cache ag) = (found, rn1, net1, c1)"
    by (metis prod_cases4)
  let ?es = "case found of Inl _ \<Rightarrow> [] | Inr es \<Rightarrow> es"
  obtain ios1 rn2 where b: "process_batch en ds now ?es rn1 = (ios1, rn2)" by (metis surj_pair)
  have e: "ios = ios1" "(rn, bud) = endScan d (rn2, ag_budget ag)" "net = net1" "c = c1"
    using assms(2,3) f b by (auto simp: run_once_of_collect runScan_def tryScan_def process_collected_def process_batch_def split: sum.splits prod.splits)
  have n: "n = length ?es"
    using assms(4) process_batch_run(1) [OF b] by (metis (no_types, lifting) e(1) length_map length_upt length_zip min.idem minus_nat.diff_0)
  let ?ag1 = "ag\<lparr>ag_runner := rn1, ag_net := net1, ag_cache := c1, ag_scan := Some (now, ?es)\<rparr>"
  have s: "start_scan k en v now ag = ?ag1" using assms(2) f by (simp add: start_scan_def tryScan_def)
  have x: "agent_run (map (Pair en) (map (\<lambda>i. ScanNext (fst (ds i)) (snd (ds i))) [0..<n])) ?ag1 =
    (in_view en ios, ?ag1\<lparr>ag_runner := rn2, ag_scan := Some (now, [])\<rparr>)"
    using scan_next_run [of ?ag1 now ?es en ds 0 ios1 rn2] b by (simp add: n e(1) process_batch_def)
  have "ag\<lparr>ag_net := net1, ag_cache := c1, ag_runner := rn, ag_budget := bud, ag_scan := None\<rparr> =
    ag\<lparr>ag_runner := rn, ag_net := net, ag_cache := c, ag_budget := bud\<rparr>"
    using assms(1) e(3,4) by (intro agent.equality) simp_all
  then show ?thesis
    using x unfolding scan_steps_def by (simp add: s agent_run_append finish_scan_def e(2) [symmetric] del: map_map)
qed

section \<open>One scan at a time\<close>

text \<open>The lock is held exactly while a scan is under way.\<close>

lemma processEvent_lock: "rn_scanLocked (fst (snd (processEvent en ck dl rn e obs now))) = rn_scanLocked rn"
proof -
  obtain v rn' e' fx where p: "processEvent en ck dl rn e obs now = (v, rn', e', fx)" by (metis prod_cases4)
  have "rn' = aside (rn_privesc rn) (rn_scanLocked rn) (rn_overlappingSkipped rn) (rn_lastNetworkScan rn) rn'"
    using processEvent_aside [of en ck dl "rn_privesc rn" "rn_scanLocked rn" "rn_overlappingSkipped rn" "rn_lastNetworkScan rn" rn e obs now]
    unfolding aside_self p by simp
  then show ?thesis unfolding p by (metis aside_fields(1) fst_conv snd_conv)
qed

lemma traced_lock: "traced en rn ios rn' \<Longrightarrow> rn_scanLocked rn' = rn_scanLocked rn"
proof -
  assume "traced en rn ios rn'"
  moreover have "rn_scanLocked (fold (\<lambda>(ck, dl, e, obs, now) r. fst (snd (processEvent en ck dl r e obs now))) xs rn) = rn_scanLocked rn" for xs
  proof (induction xs arbitrary: rn)
    case (Cons x xs)
    then show ?case by (cases x) (simp add: processEvent_lock)
  qed simp
  ultimately show ?thesis unfolding traced_def same_but_tracker_def by (elim conjE exE) simp
qed

lemma network_part_lock: "network_part en v rn net = (r, rn1, net1) \<Longrightarrow> rn_scanLocked rn1 = rn_scanLocked rn"
  by (auto simp: network_part_def split: if_splits prod.splits sum.splits)

lemma collect_scan_lock: "collect_scan k en v (rn, x) = (found, rn', x') \<Longrightarrow> rn_scanLocked rn' = rn_scanLocked rn"
  by (auto simp: collect_scan_def collect_full_def collect_fim_def collect_inventory_def Let_def dest: network_part_lock
      split: scan_kind.splits option.splits prod.splits sum.splits if_splits)

lemma dispatchEvent_lock: "dispatchEvent en d rn e obs = (io, rn') \<Longrightarrow> rn_scanLocked rn' = rn_scanLocked rn"
  using traced_lock [OF traced_dispatch [of en rn "[]" rn]] by simp

lemma dispatch_all_lock: "dispatch_all en ds i obs es rn = (ios, rn') \<Longrightarrow> rn_scanLocked rn' = rn_scanLocked rn"
  using traced_lock [OF dispatch_all_traced [of en rn "[]" rn]] by simp

lemma agent_step_lock:
  assumes "agent_step en a ag = (ios, ag')" "rn_scanLocked (ag_runner ag) \<longleftrightarrow> ag_scan ag \<noteq> None"
  shows "rn_scanLocked (ag_runner ag') \<longleftrightarrow> ag_scan ag' \<noteq> None"
proof (cases a)
  case (StartScan k v now)
  obtain found rn' x where "collect_scan k en v ((ag_runner ag)\<lparr>rn_scanLocked := True\<rparr>, ag_net ag, ag_cache ag) = (found, rn', x)" by (metis prod_cases3)
  then show ?thesis using assms StartScan collect_scan_lock by (fastforce simp: start_scan_def tryScan_def split: if_splits prod.splits)
next
  case (SensorRecord io ev)
  obtain ios1 deb rn m where c: "consume_one en io ev (ag_debouncer ag, ag_runner ag, ag_mass ag) = (ios1, deb, rn, m)" by (metis prod_cases4)
  have "rn_scanLocked rn = rn_scanLocked (ag_runner ag)" using traced_lock [OF consume_one_traced [OF _ c, of "ag_runner ag" "[]"]] by simp
  then show ?thesis using assms SensorRecord c by auto
next
  case (SuddenTick ord scan now ds)
  then show ?thesis using assms dispatch_all_lock
    by (fastforce simp: suddenRoot_tick_def Let_def split: option.splits prod.splits)
qed (use assms dispatchEvent_lock in \<open>auto simp: finish_scan_def endScan_def selfCheck_def Let_def split: option.splits prod.splits list.splits if_splits\<close>)

lemma agent_run_lock:
  "agent_run as ag = (ios, ag') \<Longrightarrow> rn_scanLocked (ag_runner ag) \<longleftrightarrow> ag_scan ag \<noteq> None \<Longrightarrow> rn_scanLocked (ag_runner ag') \<longleftrightarrow> ag_scan ag' \<noteq> None"
proof (induction as ag arbitrary: ios rule: agent_run.induct)
  case (2 en a as ag)
  obtain ios1 ag1 where s: "agent_step en a ag = (ios1, ag1)" by (metis surj_pair)
  obtain ios2 where "agent_run as ag1 = (ios2, ag')" using "2.prems"(1) s by (auto split: prod.splits)
  then show ?case using "2.IH" [OF s [symmetric] refl] agent_step_lock [OF s "2.prems"(2)] by blast
qed simp

end
