(* ===== verification/GC_Report.thy ===== *)
theory GC_Report
  imports GC_Web "HOL-Library.Char_ord" "HOL-Library.List_Lexorder" "HOL-Library.Multiset"
begin

text \<open>
  The reports of the agent command: coverage of the ATT&CK catalogue by a rule pack (\<^verbatim>\<open>attack\<close>) and the
  evaluation of the detectors on a labelled corpus (\<^verbatim>\<open>eval\<close>). Ratios of counts are real numbers here; the
  program rounds them to floating point.
\<close>

section \<open>Coverage\<close>

record TechniqueMeta =
  tm_ID :: string
  tm_Tactic :: string
  tm_Name :: string

definition BaselineTechniques :: "TechniqueMeta list" where
  "BaselineTechniques =
     [\<lparr>tm_ID = ''T1059.004'', tm_Tactic = ''execution'', tm_Name = ''Unix Shell''\<rparr>,
      \<lparr>tm_ID = ''T1059.006'', tm_Tactic = ''execution'', tm_Name = ''Python''\<rparr>,
      \<lparr>tm_ID = ''T1053.003'', tm_Tactic = ''persistence'', tm_Name = ''Cron''\<rparr>,
      \<lparr>tm_ID = ''T1053.006'', tm_Tactic = ''persistence'', tm_Name = ''Systemd Timers''\<rparr>,
      \<lparr>tm_ID = ''T1098.004'', tm_Tactic = ''persistence'', tm_Name = ''SSH Authorized Keys''\<rparr>,
      \<lparr>tm_ID = ''T1574.006'', tm_Tactic = ''defense-evasion'', tm_Name = ''LD_PRELOAD''\<rparr>,
      \<lparr>tm_ID = ''T1014'', tm_Tactic = ''defense-evasion'', tm_Name = ''Rootkit''\<rparr>,
      \<lparr>tm_ID = ''T1055'', tm_Tactic = ''defense-evasion'', tm_Name = ''Process Injection''\<rparr>,
      \<lparr>tm_ID = ''T1055.001'', tm_Tactic = ''defense-evasion'', tm_Name = ''Dynamic-link Library Injection''\<rparr>,
      \<lparr>tm_ID = ''T1068'', tm_Tactic = ''privilege-escalation'', tm_Name = ''Exploitation for Privilege Escalation''\<rparr>,
      \<lparr>tm_ID = ''T1036'', tm_Tactic = ''defense-evasion'', tm_Name = ''Masquerading''\<rparr>,
      \<lparr>tm_ID = ''T1036.005'', tm_Tactic = ''defense-evasion'', tm_Name = ''Match Legitimate Name or Location''\<rparr>,
      \<lparr>tm_ID = ''T1505.003'', tm_Tactic = ''persistence'', tm_Name = ''Web Shell''\<rparr>,
      \<lparr>tm_ID = ''T1071.001'', tm_Tactic = ''command-and-control'', tm_Name = ''Web Protocols''\<rparr>,
      \<lparr>tm_ID = ''T1048'', tm_Tactic = ''exfiltration'', tm_Name = ''Exfiltration Over Alternative Protocol''\<rparr>,
      \<lparr>tm_ID = ''T1003'', tm_Tactic = ''credential-access'', tm_Name = ''OS Credential Dumping''\<rparr>,
      \<lparr>tm_ID = ''T1003.008'', tm_Tactic = ''credential-access'', tm_Name = ''/etc/passwd and /etc/shadow''\<rparr>,
      \<lparr>tm_ID = ''T1552.001'', tm_Tactic = ''credential-access'', tm_Name = ''Credentials In Files''\<rparr>,
      \<lparr>tm_ID = ''T1552.004'', tm_Tactic = ''credential-access'', tm_Name = ''Private Keys''\<rparr>,
      \<lparr>tm_ID = ''T1552.005'', tm_Tactic = ''credential-access'', tm_Name = ''Cloud Instance Metadata API''\<rparr>,
      \<lparr>tm_ID = ''T1021.004'', tm_Tactic = ''lateral-movement'', tm_Name = ''SSH''\<rparr>,
      \<lparr>tm_ID = ''T1547.006'', tm_Tactic = ''persistence'', tm_Name = ''Kernel Modules and Extensions''\<rparr>,
      \<lparr>tm_ID = ''T1562.001'', tm_Tactic = ''defense-evasion'', tm_Name = ''Disable or Modify Tools''\<rparr>,
      \<lparr>tm_ID = ''T1548.001'', tm_Tactic = ''privilege-escalation'', tm_Name = ''Setuid and Setgid''\<rparr>,
      \<lparr>tm_ID = ''T1543.003'', tm_Tactic = ''persistence'', tm_Name = ''Systemd Service''\<rparr>,
      \<lparr>tm_ID = ''T1611'', tm_Tactic = ''privilege-escalation'', tm_Name = ''Escape to Host''\<rparr>,
      \<lparr>tm_ID = ''T1620'', tm_Tactic = ''defense-evasion'', tm_Name = ''Reflective Code Loading''\<rparr>,
      \<lparr>tm_ID = ''T1070.002'', tm_Tactic = ''defense-evasion'', tm_Name = ''Clear Linux or Mac System Logs''\<rparr>]"

record Coverage =
  cov_ByTactic :: "(string, string list) gomap"
  cov_Covered :: "string list"
  cov_Uncovered :: "string list"
  cov_RuleCount :: nat
  cov_TechCount :: nat

text \<open>The covered techniques, in the order they are met, and those first met under each tactic.\<close>

definition add_technique :: "string \<Rightarrow> string \<Rightarrow> string list \<times> (string, string list) gomap \<Rightarrow> string list \<times> (string, string list) gomap" where
  "add_technique tac tid acc =
     (case acc of (covered, byTactic) \<Rightarrow>
        if tid = [] \<or> tid \<in> set covered then acc
        else (covered @ [tid], gput tac (gget [] byTactic tac @ [tid]) byTactic))"

definition add_rule :: "Rule \<Rightarrow> string list \<times> (string, string list) gomap \<Rightarrow> string list \<times> (string, string list) gomap" where
  "add_rule r = fold (add_technique (if rule_Tactic r = [] then ''unknown'' else rule_Tactic r)) (rule_Techniques r)"

definition Analyze :: "Pack \<Rightarrow> Coverage" where
  "Analyze pack =
     (let (covered, byTactic) = fold add_rule (pack_Rules pack) ([], [])
      in \<lparr>cov_ByTactic = map (\<lambda>(tac, tids). (tac, sort tids)) byTactic, cov_Covered = covered,
          cov_Uncovered = sort (filter (\<lambda>tid. tid \<notin> set covered) (remdups (map tm_ID BaselineTechniques))),
          cov_RuleCount = length (pack_Rules pack), cov_TechCount = length covered\<rparr>)"

definition SummaryText :: "Pack \<Rightarrow> string" where
  "SummaryText pack =
     (let cov = Analyze pack; nl = [CHR 0x0A]
      in ''Rule pack '' @ pack_Version pack @ '': '' @ Itoa (int (cov_RuleCount cov)) @ '' rules, '' @ Itoa (int (cov_TechCount cov)) @
         '' unique techniques'' @ nl @
         concat (map (\<lambda>tac. ''  '' @ tac @ '': '' @ Join (gget [] (cov_ByTactic cov) tac) '', '' @ nl) (sort (gkeys (cov_ByTactic cov)))) @
         (if cov_Uncovered cov = [] then ''Gaps vs baseline: none'' @ nl
          else ''Gaps vs baseline ('' @ Itoa (int (length (cov_Uncovered cov))) @ ''): '' @ Join (cov_Uncovered cov) '', '' @ nl))"

record NavigatorTechnique =
  nt_TechniqueID :: string
  nt_Score :: int
  nt_Comment :: string

record NavigatorLayer =
  nv_Name :: string
  nv_Versions :: "(string, string) gomap"
  nv_Techniques :: "NavigatorTechnique list"
  nv_Colors :: "string list"
  nv_MinValue :: int
  nv_MaxValue :: int

definition BuildNavigatorLayer :: "Pack \<Rightarrow> NavigatorLayer" where
  "BuildNavigatorLayer pack =
     \<lparr>nv_Name = ''GhostCatcher '' @ pack_Version pack,
      nv_Versions = [(''attack'', ''15''), (''navigator'', ''5''), (''layer'', ''4.5'')],
      nv_Techniques = map (\<lambda>tid. \<lparr>nt_TechniqueID = tid, nt_Score = 1, nt_Comment = ''ghostcatcher rule pack''\<rparr>) (sort (cov_Covered (Analyze pack))),
      nv_Colors = [''#ff6666'', ''#ffe766'', ''#8ec843''], nv_MinValue = 0, nv_MaxValue = 1\<rparr>"

section \<open>Evaluation\<close>

record Result =
  re_TP :: nat
  re_FP :: nat
  re_TN :: nat
  re_FN :: nat

definition Precision :: "Result \<Rightarrow> real" where
  "Precision r = (if re_TP r + re_FP r = 0 then 0 else real (re_TP r) / real (re_TP r + re_FP r))"

definition Recall :: "Result \<Rightarrow> real" where
  "Recall r = (if re_TP r + re_FN r = 0 then 0 else real (re_TP r) / real (re_TP r + re_FN r))"

definition F1 :: "Result \<Rightarrow> real" where
  "F1 r = (let p = Precision r; rec = Recall r in if p + rec = 0 then 0 else 2 * p * rec / (p + rec))"

definition count_hit :: "bool \<Rightarrow> bool \<Rightarrow> Result \<Rightarrow> Result" where
  "count_hit malicious hit r =
     (if malicious then (if hit then r\<lparr>re_TP := re_TP r + 1\<rparr> else r\<lparr>re_FN := re_FN r + 1\<rparr>)
      else (if hit then r\<lparr>re_FP := re_FP r + 1\<rparr> else r\<lparr>re_TN := re_TN r + 1\<rparr>))"

text \<open>The labels and their directories.\<close>

definition labels :: "(string \<times> bool) list" where "labels = [(''malicious'', True), (''benign'', False)]"

definition eval_cfg :: "Config \<Rightarrow> string \<Rightarrow> Config" where
  "eval_cfg cfg dir = cfg\<lparr>cfg_LearningMode := False, cfg_FirstRunAllowAlerts := True, cfg_MinConfidenceAlert := 60,
     cfg_DocumentRoots := [dir], cfg_PathAllowlist := []\<rparr>"

definition web_hits :: "(string \<Rightarrow> string) \<Rightarrow> (string \<Rightarrow> string \<Rightarrow> bool) \<Rightarrow> (real \<Rightarrow> string) \<Rightarrow> procfs \<Rightarrow> time \<Rightarrow> Config \<Rightarrow> Pack \<Rightarrow> host \<Rightarrow> string \<Rightarrow> string list" where
  "web_hits h rx fmt fs now cfg pack H dir =
     map (\<lambda>e. ent_Path (ev_Entity e)) (web_Scan h rx fmt fs now (eval_cfg cfg dir) pack ''eval'' H EmptySnapshot)"

definition corpus_files :: "host \<Rightarrow> string \<Rightarrow> string list" where
  "corpus_files H dir = (if exists_on H dir then map fst (filter (\<lambda>(p, isdir). \<not> isdir) (hs_walk H dir)) else [])"

definition eval_web :: "(string \<Rightarrow> string list) \<Rightarrow> host \<Rightarrow> string \<Rightarrow> Result \<Rightarrow> Result" where
  "eval_web hits H top_dir =
     fold (\<lambda>(name, malicious). let dir = PathJoin [top_dir, name] in fold (\<lambda>p. count_hit malicious (p \<in> set (hits dir))) (corpus_files H dir)) labels"

definition corpus_lines :: "host \<Rightarrow> string \<Rightarrow> string \<Rightarrow> string list" where
  "corpus_lines H dir name =
     (case hs_read H (PathJoin [dir, name @ ''.txt'']) of None \<Rightarrow> [] | Some b \<Rightarrow> filter (\<lambda>l. l \<noteq> []) (map TrimSpace (scan_lines b)))"

definition runCronLines :: "host \<Rightarrow> string \<Rightarrow> Result \<Rightarrow> Result" where
  "runCronLines H dir = fold (\<lambda>(name, malicious). fold (\<lambda>l. count_hit malicious (EvalCronLine l)) (corpus_lines H dir name)) labels"

definition eval_Run :: "(string \<Rightarrow> string) \<Rightarrow> (string \<Rightarrow> string \<Rightarrow> bool) \<Rightarrow> (real \<Rightarrow> string) \<Rightarrow> procfs \<Rightarrow> time \<Rightarrow> string \<Rightarrow> Config \<Rightarrow> Pack option \<Rightarrow> host \<Rightarrow> Result" where
  "eval_Run h rx fmt fs now top_dir cfg pack H =
     (let pk = (case pack of None \<Rightarrow> \<lparr>pack_Version = ''eval'', pack_Rules = []\<rparr> | Some p \<Rightarrow> p);
          res = eval_web (web_hits h rx fmt fs now cfg pk H) H top_dir \<lparr>re_TP = 0, re_FP = 0, re_TN = 0, re_FN = 0\<rparr>;
          cronDir = PathJoin [top_dir, ''cron'']
      in if exists_on H cronDir then runCronLines H cronDir res else res)"

section \<open>What is counted\<close>

lemma mset_gput: "mset (concat (map snd (gput k (gget [] m k @ [x]) m))) = mset (concat (map snd m)) + {#x#}"
  by (induction m) (auto simp: gput_def gget_def)

text \<open>The techniques under the tactics are the covered ones, each once.\<close>

definition filed :: "string set \<Rightarrow> string list \<times> (string, string list) gomap \<Rightarrow> bool" where
  "filed T acc \<longleftrightarrow> distinct (fst acc) \<and> set (fst acc) = T \<and> mset (concat (map snd (snd acc))) = mset (fst acc)"

lemma filed_add_technique: "filed T acc \<Longrightarrow> filed (T \<union> ({tid} - {[]})) (add_technique tac tid acc)"
  by (auto simp: filed_def add_technique_def mset_gput split: prod.splits)

lemma filed_techniques: "filed T acc \<Longrightarrow> filed (T \<union> (set tids - {[]})) (fold (add_technique tac) tids acc)"
proof (induction tids arbitrary: T acc)
  case (Cons t ts)
  have "T \<union> ({t} - {[]}) \<union> (set ts - {[]}) = T \<union> (set (t # ts) - {[]})" by auto
  with Cons.IH [OF filed_add_technique [OF Cons.prems], of t tac] show ?case by simp
qed simp

lemma filed_rules: "filed T acc \<Longrightarrow> filed (T \<union> (\<Union> (set ` rule_Techniques ` set rs) - {[]})) (fold add_rule rs acc)"
proof (induction rs arbitrary: T acc)
  case (Cons r rs)
  have "filed (T \<union> (set (rule_Techniques r) - {[]})) (add_rule r acc)" unfolding add_rule_def by (rule filed_techniques [OF Cons.prems])
  from Cons.IH [OF this] show ?case by (simp add: Un_Diff Un_assoc)
qed simp

lemma concat_sorted: "mset (concat (map snd (map (\<lambda>(k, v). (k, sort v)) m))) = mset (concat (map snd m))"
  by (induction m) (auto split: prod.splits)

text \<open>
  The coverage report is exact: the covered techniques are those of the rules of the pack, each filed under exactly one
  tactic and counted once, and the gaps are the techniques of the catalogue that no rule names, sorted and without
  repetition.
\<close>

theorem coverage_exact:
  "let cov = Analyze pack; named = \<Union> (set ` rule_Techniques ` set (pack_Rules pack)) - {[]}
   in set (cov_Covered cov) = named \<and> cov_TechCount cov = card named \<and>
      mset (concat (map snd (cov_ByTactic cov))) = mset_set named \<and>
      set (cov_Uncovered cov) = tm_ID ` set BaselineTechniques - named \<and> sorted (cov_Uncovered cov) \<and> distinct (cov_Uncovered cov)"
proof -
  obtain covered byTactic where f: "fold add_rule (pack_Rules pack) ([], []) = (covered, byTactic)" by (metis surj_pair)
  have "filed ({} \<union> (\<Union> (set ` rule_Techniques ` set (pack_Rules pack)) - {[]})) (covered, byTactic)"
    unfolding f [symmetric] by (rule filed_rules) (simp add: filed_def)
  then have i: "distinct covered" "set covered = \<Union> (set ` rule_Techniques ` set (pack_Rules pack)) - {[]}" "mset (concat (map snd byTactic)) = mset covered"
    by (simp_all add: filed_def)
  have m: "mset covered = mset_set (\<Union> (set ` rule_Techniques ` set (pack_Rules pack)) - {[]})"
    using mset_set_set [OF i(1)] unfolding i(2) by (rule sym)
  have c: "length covered = card (\<Union> (set ` rule_Techniques ` set (pack_Rules pack)) - {[]})"
    using distinct_card [OF i(1)] unfolding i(2) by (rule sym)
  have "mset (concat (map snd (map (\<lambda>(k, v). (k, sort v)) byTactic))) = mset_set (\<Union> (set ` rule_Techniques ` set (pack_Rules pack)) - {[]})"
    using concat_sorted [of byTactic] i(3) m by (rule trans [OF _ trans])
  then show ?thesis unfolding Let_def Analyze_def f using i(2) c by auto
qed

text \<open>Each labelled file or line is counted once, on the side of its label.\<close>

lemma count_hits:
  "fold (\<lambda>x. count_hit mal (P x)) xs r =
     (if mal then r\<lparr>re_TP := re_TP r + length (filter P xs), re_FN := re_FN r + length (filter (\<lambda>x. \<not> P x) xs)\<rparr>
      else r\<lparr>re_FP := re_FP r + length (filter P xs), re_TN := re_TN r + length (filter (\<lambda>x. \<not> P x) xs)\<rparr>)"
  by (induction xs arbitrary: r) (simp_all add: count_hit_def)

lemma harmonic:
  fixes a u v :: real
  assumes "0 < a" "0 < u" "0 < v"
  shows "2 * (a / u) * (a / v) / (a / u + a / v) = 2 * a / (u + v)"
proof -
  have "a / u + a / v = a * (u + v) / (u * v)" using assms by (simp add: field_simps)
  moreover have "2 * (a / u) * (a / v) = 2 * a * a / (u * v)" by simp
  ultimately show ?thesis using assms by simp
qed

lemma F1_closed:
  "F1 r = (if re_TP r = 0 then 0 else 2 * real (re_TP r) / real (2 * re_TP r + re_FP r + re_FN r)) \<and> 0 \<le> F1 r \<and> F1 r \<le> 1"
proof (cases "re_TP r = 0")
  case True
  then show ?thesis by (simp add: F1_def Precision_def Recall_def)
next
  case False
  define a b c where "a = real (re_TP r)" and "b = real (re_FP r)" and "c = real (re_FN r)"
  have p: "0 < a" "0 \<le> b" "0 \<le> c" using False by (simp_all add: a_def b_def c_def)
  have "F1 r = 2 * (a / (a + b)) * (a / (a + c)) / (a / (a + b) + a / (a + c))"
    using False p by (simp add: F1_def Precision_def Recall_def Let_def a_def b_def c_def add_pos_pos)
  also have "\<dots> = 2 * a / ((a + b) + (a + c))" using p by (intro harmonic) simp_all
  finally have "F1 r = 2 * a / (2 * a + b + c)" by (simp add: algebra_simps)
  then show ?thesis using False p by (simp add: a_def b_def c_def)
qed

definition corpus :: "host \<Rightarrow> string \<Rightarrow> string \<Rightarrow> nat" where
  "corpus H top_dir name = length (corpus_files H (PathJoin [top_dir, name])) +
     (if exists_on H (PathJoin [top_dir, ''cron'']) then length (corpus_lines H (PathJoin [top_dir, ''cron'']) name) else 0)"


end
