(* ===== verification/GC_Main.thy ===== *)
theory GC_Main
  imports GC_Agent GC_Report
begin

text \<open>
  The entry point of the agent (\<^verbatim>\<open>main\<close>, \<^verbatim>\<open>runCmd\<close>, \<^verbatim>\<open>evalCmd\<close> and \<^verbatim>\<open>coverageCmd\<close> of \<^verbatim>\<open>cmd/agent/main.go\<close>): the
  command line, which is read by Go's \<^verbatim>\<open>flag\<close> package, and the exit status of every command.
\<close>

section \<open>Flags\<close>

datatype flag_kind = StringFlag | BoolFlag | FloatFlag

text \<open>A flag set exits with status 0 after printing a requested help text and with status 2 on any error.\<close>

datatype flag_stop = HelpShown | BadFlag

definition ParseBool :: "string \<Rightarrow> bool option" where
  "ParseBool s =
     (if s \<in> set [''1'', ''t'', ''T'', ''TRUE'', ''true'', ''True''] then Some True
      else if s \<in> set [''0'', ''f'', ''F'', ''FALSE'', ''false'', ''False''] then Some False
      else None)"

datatype flag_value = StringValue string | BoolValue bool | FloatValue real

definition set_flag :: "(string \<Rightarrow> real option) \<Rightarrow> flag_kind \<Rightarrow> string \<Rightarrow> flag_value option" where
  "set_flag parseFloat k v =
     (case k of
        StringFlag \<Rightarrow> Some (StringValue v)
      | BoolFlag \<Rightarrow> map_option BoolValue (ParseBool v)
      | FloatFlag \<Rightarrow> map_option FloatValue (parseFloat v))"

text \<open>The name of a flag argument and the value after its first equals sign, which is never the first character.\<close>

definition flag_name :: "string \<Rightarrow> string \<times> string option" where
  "flag_name s =
     (case IndexByte (drop 1 s) (CHR ''='') of None \<Rightarrow> (s, None) | Some i \<Rightarrow> (take (Suc i) s, Some (drop (Suc (Suc i)) s)))"

definition is_flag :: "string \<Rightarrow> bool" where
  "is_flag s \<longleftrightarrow> 2 \<le> length s \<and> hd s = CHR ''-''"

text \<open>Parsing stops at the first argument that is not a flag, and after \<^verbatim>\<open>--\<close>.\<close>

fun parse_flags :: "(string \<Rightarrow> real option) \<Rightarrow> (string \<times> flag_kind) list \<Rightarrow> string list \<Rightarrow> flag_stop + (string \<times> flag_value) list" where
  "parse_flags pf fs [] = Inr []"
| "parse_flags pf fs (s # rest) =
     (if \<not> is_flag s \<or> s = ''--'' then Inr []
      else
        (let body = (if s ! 1 = CHR ''-'' then drop 2 s else drop 1 s)
         in if body = [] \<or> hd body = CHR ''-'' \<or> hd body = CHR ''='' then Inl BadFlag
            else
              (let (name, value) = flag_name body
               in case map_of fs name of
                    None \<Rightarrow> Inl (if name = ''help'' \<or> name = ''h'' then HelpShown else BadFlag)
                  | Some BoolFlag \<Rightarrow>
                      (case set_flag pf BoolFlag (case value of None \<Rightarrow> ''true'' | Some v \<Rightarrow> v) of
                         None \<Rightarrow> Inl BadFlag
                       | Some v \<Rightarrow> (case parse_flags pf fs rest of Inl e \<Rightarrow> Inl e | Inr xs \<Rightarrow> Inr ((name, v) # xs)))
                  | Some k \<Rightarrow>
                      (case value of
                         Some v \<Rightarrow>
                           (case set_flag pf k v of
                              None \<Rightarrow> Inl BadFlag
                            | Some x \<Rightarrow> (case parse_flags pf fs rest of Inl e \<Rightarrow> Inl e | Inr xs \<Rightarrow> Inr ((name, x) # xs)))
                       | None \<Rightarrow>
                           (case rest of
                              [] \<Rightarrow> Inl BadFlag
                            | v # rest' \<Rightarrow>
                                (case set_flag pf k v of
                                   None \<Rightarrow> Inl BadFlag
                                 | Some x \<Rightarrow> (case parse_flags pf fs rest' of Inl e \<Rightarrow> Inl e | Inr xs \<Rightarrow> Inr ((name, x) # xs))))))))"

text \<open>A flag given twice keeps its last value.\<close>

definition flag_of :: "(string \<times> flag_value) list \<Rightarrow> string \<Rightarrow> flag_value \<Rightarrow> flag_value" where
  "flag_of xs name dflt = (case map_of (rev xs) name of None \<Rightarrow> dflt | Some v \<Rightarrow> v)"

definition string_flag :: "(string \<times> flag_value) list \<Rightarrow> string \<Rightarrow> string \<Rightarrow> string" where
  "string_flag xs name dflt = (case flag_of xs name (StringValue dflt) of StringValue s \<Rightarrow> s | _ \<Rightarrow> dflt)"

definition bool_flag :: "(string \<times> flag_value) list \<Rightarrow> string \<Rightarrow> bool" where
  "bool_flag xs name = (case flag_of xs name (BoolValue False) of BoolValue b \<Rightarrow> b | _ \<Rightarrow> False)"

definition float_flag :: "(string \<times> flag_value) list \<Rightarrow> string \<Rightarrow> real" where
  "float_flag xs name = (case flag_of xs name (FloatValue 0) of FloatValue r \<Rightarrow> r | _ \<Rightarrow> 0)"

section \<open>Commands\<close>

datatype invocation =
    RunAgent string bool
  | CheckConfig string
  | CommitBaseline string string
  | Evaluate string real
  | ShowCoverage string string bool

definition default_config :: string where "default_config = ''configs/config.example.yaml''"

definition flags_for :: "string \<Rightarrow> (string \<times> flag_kind) list" where
  "flags_for cmd =
     (if cmd = ''run'' then [(''config'', StringFlag), (''once'', BoolFlag)]
      else if cmd = ''baseline'' then [(''config'', StringFlag), (''token'', StringFlag)]
      else if cmd = ''eval'' then [(''corpus'', StringFlag), (''min-f1'', FloatFlag)]
      else if cmd = ''coverage'' then [(''config'', StringFlag), (''navigator'', StringFlag), (''gaps'', BoolFlag)]
      else [(''config'', StringFlag)])"

definition read_invocation :: "string \<Rightarrow> (string \<times> flag_value) list \<Rightarrow> invocation" where
  "read_invocation cmd xs =
     (if cmd = ''run'' then RunAgent (string_flag xs ''config'' default_config) (bool_flag xs ''once'')
      else if cmd = ''baseline'' then CommitBaseline (string_flag xs ''config'' default_config) (string_flag xs ''token'' [])
      else if cmd = ''eval'' then Evaluate (string_flag xs ''corpus'' ''testdata/eval'') (float_flag xs ''min-f1'')
      else if cmd = ''coverage'' then ShowCoverage (string_flag xs ''config'' default_config) (string_flag xs ''navigator'' []) (bool_flag xs ''gaps'')
      else CheckConfig (string_flag xs ''config'' default_config))"

text \<open>The arguments after the program's name: a command, or an exit status.\<close>

definition command_line :: "(string \<Rightarrow> real option) \<Rightarrow> string list \<Rightarrow> int + invocation" where
  "command_line pf args =
     (case args of
        [] \<Rightarrow> Inl 2
      | cmd # rest \<Rightarrow>
          (if cmd \<notin> set [''run'', ''check-config'', ''baseline'', ''eval'', ''coverage''] then Inl 2
           else if cmd = ''baseline'' \<and> (rest = [] \<or> hd rest \<noteq> ''commit'') then Inl 2
           else (case parse_flags pf (flags_for cmd) (if cmd = ''baseline'' then tl rest else rest) of
                   Inl HelpShown \<Rightarrow> Inl 0
                 | Inl BadFlag \<Rightarrow> Inl 2
                 | Inr xs \<Rightarrow> Inr (read_invocation cmd xs))))"

section \<open>What the commands do\<close>

text \<open>
  The rest of what a command sees: the floating point parser and the \<^verbatim>\<open>%.3f\<close> formatter, what \<^verbatim>\<open>New\<close> finds, the view of a
  single scan, the sensor backends, and the encoder and the file write of the Navigator layer.
\<close>

record command_world =
  w_shell :: shell
  w_parseFloat :: "string \<Rightarrow> real option"
  w_fmt3 :: "real \<Rightarrow> string"
  w_boot :: boot
  w_env :: env
  w_view :: scan_view
  w_batch :: "nat \<Rightarrow> clocks \<times> delivery"
  w_took :: duration
  w_ebpf :: bool
  w_auditd :: bool
  w_marshalLayer :: "NavigatorLayer \<Rightarrow> string option"
  w_writeFails :: bool

text \<open>A command prints on the standard output and exits. A panic exits with status 2; a run of the loops ends with a signal.\<close>

type_synonym exit = "int \<times> string"

definition run_loops :: "command_world \<Rightarrow> Config \<Rightarrow> int" where
  "run_loops w cfg = (case start_loops (w_ebpf w) (w_auditd w) (sh_getenv (w_shell w) ''WATCHDOG_USEC'') cfg of None \<Rightarrow> 2 | Some _ \<Rightarrow> 0)"

definition run_once :: "command_world \<Rightarrow> Config \<Rightarrow> Pack \<Rightarrow> int" where
  "run_once w cfg pack =
     (let (rn, m) = New (w_boot w) (en_net (w_env w)) cfg pack;
          ((err, ios, rn', x), bud) = RunOnce ((w_env w)\<lparr>en_map := m\<rparr>) (w_view w) (w_batch w) (sh_now (w_shell w)) (w_took w) zero_budget
            (rn, zero_netstate, zero_Cache)
      in if err = None then 0 else 1)"

definition runAgent :: "command_world \<Rightarrow> string \<Rightarrow> bool \<Rightarrow> exit" where
  "runAgent w path once =
     (case runCmd (w_shell w) path of
        Inl _ \<Rightarrow> (1, [])
      | Inr (cfg, pack) \<Rightarrow> (if once then run_once w cfg pack else run_loops w cfg, []))"

definition Report :: "(real \<Rightarrow> string) \<Rightarrow> Result \<Rightarrow> string" where
  "Report fmt3 r =
     ''tp='' @ Itoa (int (re_TP r)) @ '' fp='' @ Itoa (int (re_FP r)) @ '' fn='' @ Itoa (int (re_FN r)) @ '' tn='' @ Itoa (int (re_TN r)) @
     '' | precision='' @ fmt3 (Precision r) @ '' recall='' @ fmt3 (Recall r) @ '' f1='' @ fmt3 (F1 r)"

definition evalCmd :: "command_world \<Rightarrow> string \<Rightarrow> real \<Rightarrow> exit" where
  "evalCmd w top_dir minF1 =
     (let cfg = Default\<lparr>cfg_LearningMode := False, cfg_FirstRunAllowAlerts := True, cfg_MinConfidenceAlert := 60\<rparr>;
          sh = w_shell w;
          res = eval_Run (sh_sha sh) (sv_rx (w_view w)) (sv_fmt (w_view w)) (sh_procfs sh) (sh_now sh) top_dir cfg None (sh_host sh)
      in (if minF1 > 0 \<and> F1 res < minF1 then 1 else 0, Report (w_fmt3 w) res @ [CHR 0x0A]))"

definition WriteNavigatorLayer :: "command_world \<Rightarrow> Pack \<Rightarrow> string option" where
  "WriteNavigatorLayer w pack =
     (case w_marshalLayer w (BuildNavigatorLayer pack) of None \<Rightarrow> None | Some b \<Rightarrow> if w_writeFails w then None else Some b)"

definition coverageCmd :: "command_world \<Rightarrow> string \<Rightarrow> string \<Rightarrow> bool \<Rightarrow> exit \<times> (string \<times> string) option" where
  "coverageCmd w path navigator gapsOnly =
     (case loadCfgAndPack (w_shell w) path of
        Inl _ \<Rightarrow> ((1, []), None)
      | Inr (cfg, pack) \<Rightarrow>
          (let text = (if gapsOnly then concat (map (\<lambda>tid. tid @ [CHR 0x0A]) (cov_Uncovered (Analyze pack))) else SummaryText pack)
           in if navigator = [] then ((0, text), None)
              else (case WriteNavigatorLayer w pack of None \<Rightarrow> ((1, []), None) | Some b \<Rightarrow> ((0, text), Some (navigator, b)))))"

definition run_command :: "command_world \<Rightarrow> invocation \<Rightarrow> exit" where
  "run_command w i =
     (case i of
        RunAgent path once \<Rightarrow> runAgent w path once
      | CheckConfig path \<Rightarrow> (if checkConfig (w_shell w) path = None then 0 else 1, [])
      | CommitBaseline path token \<Rightarrow> (case fst (baselineCommit (w_shell w) path token) of Inl _ \<Rightarrow> 1 | Inr _ \<Rightarrow> 0, [])
      | Evaluate top_dir minF1 \<Rightarrow> evalCmd w top_dir minF1
      | ShowCoverage path navigator gapsOnly \<Rightarrow> fst (coverageCmd w path navigator gapsOnly))"

definition agent_main :: "command_world \<Rightarrow> string list \<Rightarrow> exit" where
  "agent_main w args = (case command_line (w_parseFloat w) args of Inl n \<Rightarrow> (n, []) | Inr i \<Rightarrow> run_command w i)"

section \<open>Reading a command line\<close>

text \<open>The arguments that spell out an invocation.\<close>

fun spell :: "(real \<Rightarrow> string) \<Rightarrow> invocation \<Rightarrow> string list" where
  "spell fmt (RunAgent path once) = [''run'', ''-config'', path] @ (if once then [''-once''] else [])"
| "spell fmt (CheckConfig path) = [''check-config'', ''-config'', path]"
| "spell fmt (CommitBaseline path token) = [''baseline'', ''commit'', ''-config'', path, ''-token'', token]"
| "spell fmt (Evaluate top_dir r) = [''eval'', ''-corpus'', top_dir, ''-min-f1'', fmt r]"
| "spell fmt (ShowCoverage path nav gaps) = [''coverage'', ''-config'', path, ''-navigator'', nav] @ (if gaps then [''-gaps''] else [])"

text \<open>Parsing one flag that takes the next argument, or none, as its value.\<close>

lemma value_flag:
  assumes "c \<noteq> CHR ''-''" "c \<noteq> CHR ''=''" "IndexByte s (CHR ''='') = None" "map_of fs (c # s) = Some k" "k \<noteq> BoolFlag"
    "set_flag pf k v = Some x"
  shows "parse_flags pf fs ((CHR ''-'' # c # s) # v # rest) = map_sum id (Cons (c # s, x)) (parse_flags pf fs rest)"
  using assms by (cases k; cases "parse_flags pf fs rest") (simp_all add: is_flag_def flag_name_def Let_def)

lemma switch_flag:
  assumes "c \<noteq> CHR ''-''" "c \<noteq> CHR ''=''" "IndexByte s (CHR ''='') = None" "map_of fs (c # s) = Some BoolFlag"
  shows "parse_flags pf fs ((CHR ''-'' # c # s) # rest) = map_sum id (Cons (c # s, BoolValue True)) (parse_flags pf fs rest)"
  using assms by (cases "parse_flags pf fs rest") (simp_all add: is_flag_def flag_name_def Let_def set_flag_def ParseBool_def)

lemmas flag_simps = value_flag switch_flag flags_for_def set_flag_def read_invocation_def string_flag_def bool_flag_def float_flag_def flag_of_def

text \<open>
  C33. The command line is read back: the arguments that spell out a command, with any strings as its values, even ones that
  look like flags, parse to exactly that command.
\<close>

theorem command_line_roundtrip:
  assumes "case i of Evaluate top_dir r \<Rightarrow> pf (fmt r) = Some r | _ \<Rightarrow> True"
  shows "command_line pf (spell fmt i) = Inr i"
  using assms by (cases i) (simp_all add: command_line_def flag_simps del: parse_flags.simps(2))

theorem command_line_roundtrip_witness:
  "command_line (\<lambda>s. if s = ''0.5'' then Some (1 / 2) else None) [''eval'', ''-corpus'', ''-min-f1'', ''-min-f1'', ''0.5''] = Inr (Evaluate ''-min-f1'' (1 / 2))"
  using command_line_roundtrip [where i = "Evaluate ''-min-f1'' (1 / 2)" and pf = "\<lambda>s. if s = ''0.5'' then Some (1 / 2) else None" and fmt = "\<lambda>r. ''0.5''"]
  by simp

section \<open>Starting\<close>

lemma loadCfgAndPack_iff:
  "(\<exists>c. loadCfgAndPack sh path = Inr c) \<longleftrightarrow> checkConfig sh path = None \<and> (case load_config sh path of Inl _ \<Rightarrow> False | Inr cfg \<Rightarrow> verify_pack sh cfg = None)"
  by (auto simp: loadCfgAndPack_def checkConfig_def split: sum.splits option.splits if_splits)

lemma loadCfgAndPack_cfg: "loadCfgAndPack sh path = Inr (cfg, pack) \<Longrightarrow> load_config sh path = Inr cfg"
  by (auto simp: loadCfgAndPack_def split: sum.splits option.splits if_splits)


text \<open>A configuration the check accepts and the agent panics on.\<close>

lemma unchecked_interval_panics:
  assumes "runCmd (w_shell w) path = Inr (cfg, pack)" "cfg_ScanInterval cfg \<le> 0"
  shows "checkConfig (w_shell w) path = None" and "runAgent w path False = (2, [])"
  using assms loadCfgAndPack_iff [of "w_shell w" path] start_loops_iff [of "w_ebpf w" "w_auditd w" "sh_getenv (w_shell w) ''WATCHDOG_USEC''" cfg]
  by (auto simp: runCmd_def runAgent_def run_loops_def split: sum.splits if_splits option.splits)

end
