(* ===== verification/GC_EBPF.thy ===== *)
theory GC_EBPF
  imports GC_LivePath GC_Watch
begin

text \<open>
  The eBPF backend of the sensor (\<^verbatim>\<open>sensor/ebpf_linux.go\<close>, \<^verbatim>\<open>ebpf_stub.go\<close>) and the constructors of the other backends. The
  loader, the ring buffer and the tracepoints belong to a third-party package: whether its calls succeed, and what the ring
  buffer returns, are parameters. What the source opens and closes is an explicit list.
\<close>

section \<open>Opening the source\<close>

datatype resource = CollectionHandle | ReaderHandle | LinkHandle string

datatype ebpf_error =
    NotBuilt
  | RlimitFailed
  | ObjectNotFound
  | LoadSpecFailed
  | NewCollectionFailed
  | EventsMapMissing
  | ReaderFailed
  | NoTracepoints

text \<open>
  The library, as one call of \<^verbatim>\<open>newEBPF\<close> sees it: the agent was built with it, the memory lock limit was lifted, the executable's path,
  the files that exist, the specs that load, the collection that is made (its programs, in the order Go iterates over them, and
  whether it has the map of events), the reader, and the tracepoints that attach.
\<close>

record ebpf_lib =
  el_built :: bool
  el_memlock :: bool
  el_exe :: "string option"
  el_exists :: "string \<Rightarrow> bool"
  el_loads :: "string \<Rightarrow> bool"
  el_collection :: "(string list \<times> bool) option"
  el_reader :: bool
  el_attaches :: "string \<Rightarrow> bool"

definition object_candidates :: "ebpf_lib \<Rightarrow> string list" where
  "object_candidates lib =
     [''/etc/ghostcatcher/ebpf/sensor.bpf.o'', ''/usr/lib/ghostcatcher/sensor.bpf.o''] @
     (case el_exe lib of None \<Rightarrow> [] | Some exe \<Rightarrow> [PathJoin [PathDir exe, ''sensor.bpf.o'']])"

definition findObj :: "ebpf_lib \<Rightarrow> string option" where
  "findObj lib = find (el_exists lib) (object_candidates lib)"

text \<open>The result, and the resources that are left open.\<close>

definition newEBPF :: "ebpf_lib \<Rightarrow> (ebpf_error + resource list) \<times> resource list" where
  "newEBPF lib =
     (if \<not> el_built lib then (Inl NotBuilt, [])
      else if \<not> el_memlock lib then (Inl RlimitFailed, [])
      else case findObj lib of
             None \<Rightarrow> (Inl ObjectNotFound, [])
           | Some obj \<Rightarrow>
               (if \<not> el_loads lib obj then (Inl LoadSpecFailed, [])
                else case el_collection lib of
                       None \<Rightarrow> (Inl NewCollectionFailed, [])
                     | Some (programs, hasEvents) \<Rightarrow>
                         (let opened = [CollectionHandle]
                          in if \<not> hasEvents then (Inl EventsMapMissing, removeAll CollectionHandle opened)
                             else if \<not> el_reader lib then (Inl ReaderFailed, removeAll CollectionHandle opened)
                             else
                               (let links = map LinkHandle (filter (el_attaches lib) programs);
                                    opened = opened @ [ReaderHandle] @ links
                                in if links = []
                                   then (Inl NoTracepoints, removeAll CollectionHandle (removeAll ReaderHandle opened))
                                   else (Inr opened, opened)))))"

text \<open>\<^verbatim>\<open>Close\<close> of a source closes its links, its reader and its collection.\<close>

definition close_source :: "resource list \<Rightarrow> resource list \<Rightarrow> resource list" where
  "close_source src opened = filter (\<lambda>r. r \<notin> set src) opened"

text \<open>The constructors of the other backends: the audit log must open and seek; polling always works.\<close>

definition newAuditd :: "bool \<Rightarrow> bool \<Rightarrow> bool" where
  "newAuditd opens seeks \<longleftrightarrow> opens \<and> seeks"

section \<open>Draining the ring buffer\<close>

datatype ring_read = Sample nat | ReadFailed | RingClosed

definition placeholder :: "time \<Rightarrow> nat \<Rightarrow> SensorEvent" where
  "placeholder now n = zero_SensorEvent\<lparr>se_Kind := KindExec, se_When := now, se_Extra := [(''raw_len'', Itoa (int n))]\<rparr>"

text \<open>
  A read comes with the time, the state of the context and the consumer's takes from the channel before the send. The loop ends when
  the reader is closed.
\<close>

record ring_io =
  rg_read :: ring_read
  rg_now :: time
  rg_done :: bool
  rg_pick :: bool
  rg_taken :: nat

fun drain :: "ring_io list \<Rightarrow> chan \<Rightarrow> Stats \<Rightarrow> SensorEvent list \<Rightarrow> SensorEvent list \<times> chan \<times> Stats" where
  "drain [] ch st taken = (taken, ch, st)"
| "drain (r # rs) ch st taken =
     (let k = min (rg_taken r) (length (ch_buf ch));
          taken1 = taken @ take k (ch_buf ch); ch1 = ch\<lparr>ch_buf := drop k (ch_buf ch)\<rparr>
      in case rg_read r of
           RingClosed \<Rightarrow> (taken1, ch1, st)
         | ReadFailed \<Rightarrow> drain rs ch1 (NoteRingbufOverrun st) taken1
         | Sample n \<Rightarrow> (let (ok, ch2, st2) = TryEmit (rg_done r) (rg_pick r) ch1 st (placeholder (rg_now r) n) in drain rs ch2 st2 taken1))"

definition ebpf_Start :: "ring_io list \<Rightarrow> Stats \<Rightarrow> SensorEvent list \<times> chan \<times> Stats" where
  "ebpf_Start rs st = drain rs \<lparr>ch_cap = 1024, ch_buf = []\<rparr> st []"

section \<open>Resources\<close>

lemma newEBPF_open: "newEBPF lib = (r, opened) \<Longrightarrow> case r of Inl _ \<Rightarrow> opened = [] | Inr src \<Rightarrow> opened = src \<and> ReaderHandle \<in> set src \<and> CollectionHandle \<in> set src"
  by (auto simp: newEBPF_def Let_def split: if_splits option.splits)

lemma newEBPF_iff:
  "(\<exists>src. fst (newEBPF lib) = Inr src) \<longleftrightarrow>
     el_built lib \<and> el_memlock lib \<and> (case findObj lib of None \<Rightarrow> False | Some obj \<Rightarrow> el_loads lib obj) \<and>
     (case el_collection lib of None \<Rightarrow> False | Some (programs, hasEvents) \<Rightarrow> hasEvents \<and> el_reader lib \<and> list_ex (el_attaches lib) programs)"
  by (auto simp: newEBPF_def Let_def filter_empty_conv list_ex_iff split: if_splits option.splits)

section \<open>Counting\<close>

text \<open>Every read of an open ring buffer is counted once: as emitted, as dropped or as an overrun, unless the context is done.\<close>

fun reads_before_close :: "ring_io list \<Rightarrow> ring_io list" where
  "reads_before_close [] = []"
| "reads_before_close (r # rs) = (if rg_read r = RingClosed then [] else r # reads_before_close rs)"

definition counted :: "Stats \<Rightarrow> nat" where
  "counted st = sts_Emitted st + sts_ChannelDrop st + sts_RingbufOverrun st"

definition same64 :: "nat \<Rightarrow> nat \<Rightarrow> bool" where
  "same64 a b \<longleftrightarrow> a mod 2 ^ 64 = b mod 2 ^ 64"

lemma same64_refl [simp]: "same64 a a"
  and same64_trans: "same64 a b \<Longrightarrow> same64 b c \<Longrightarrow> same64 a c"
  by (simp_all only: same64_def)

lemma same64_add: "same64 a b \<Longrightarrow> same64 (a + k) (b + k)"
  unfolding same64_def by (metis mod_add_left_eq)

lemma same64_count: "same64 (add64 a + b) (Suc (a + b))"
  unfolding same64_def add64_def by (metis add_Suc mod_add_left_eq)

lemma counted_step:
  "same64 (counted (st\<lparr>sts_Emitted := add64 (sts_Emitted st)\<rparr>)) (Suc (counted st))"
  "same64 (counted (st\<lparr>sts_ChannelDrop := add64 (sts_ChannelDrop st)\<rparr>)) (Suc (counted st))"
  "same64 (counted (NoteRingbufOverrun st)) (Suc (counted st))"
  using same64_count [of "sts_Emitted st" "sts_ChannelDrop st + sts_RingbufOverrun st"]
    same64_count [of "sts_ChannelDrop st" "sts_Emitted st + sts_RingbufOverrun st"]
    same64_count [of "sts_RingbufOverrun st" "sts_Emitted st + sts_ChannelDrop st"]
  by (simp_all add: counted_def NoteRingbufOverrun_def ac_simps)

lemma drain_counts:
  assumes "drain rs ch st taken = (taken', ch', st')" "\<not> list_ex rg_done (reads_before_close rs)"
  shows "same64 (counted st') (counted st + length (reads_before_close rs))"
  using assms
proof (induction rs arbitrary: ch st taken)
  case (Cons r rs)
  let ?ch = "ch\<lparr>ch_buf := drop (min (rg_taken r) (length (ch_buf ch))) (ch_buf ch)\<rparr>"
  have step: "same64 (counted st') (counted st + length (reads_before_close (r # rs)))"
    if "same64 (counted st') (counted st2 + length (reads_before_close rs))" "same64 (counted st2) (Suc (counted st))" "rg_read r \<noteq> RingClosed" for st2
    using same64_trans [OF that(1) same64_add [OF that(2)]] that(3) by simp
  show ?case
  proof (cases "rg_read r")
    case (Sample n)
    obtain ok ch2 st2 where e: "TryEmit (rg_done r) (rg_pick r) ?ch st (placeholder (rg_now r) n) = (ok, ch2, st2)" by (metis prod_cases3)
    then have "same64 (counted st2) (Suc (counted st))"
      using Cons.prems(2) Sample by (auto simp: TryEmit_def Let_def counted_step split: if_splits)
    then show ?thesis using Cons.IH [of ch2 st2] Cons.prems Sample e by (intro step [of st2]) (simp_all add: Let_def)
  next
    case ReadFailed
    then show ?thesis using Cons.IH [of ?ch "NoteRingbufOverrun st"] Cons.prems step [OF _ counted_step(3)] by (simp add: Let_def)
  qed (use Cons.prems in \<open>simp add: Let_def\<close>)
qed simp

section \<open>What the records say\<close>

definition is_placeholder :: "SensorEvent \<Rightarrow> bool" where
  "is_placeholder ev \<longleftrightarrow> (\<exists>now n. ev = placeholder now n)"

lemma placeholder_is [simp]: "is_placeholder (placeholder t n)"
  by (auto simp: is_placeholder_def)

lemma drain_placeholders:
  assumes "drain rs ch st taken = (taken', ch', st')" "list_all is_placeholder taken" "list_all is_placeholder (ch_buf ch)"
  shows "list_all is_placeholder taken' \<and> list_all is_placeholder (ch_buf ch')"
  using assms
proof (induction rs arbitrary: ch st taken)
  case (Cons r rs)
  let ?k = "min (rg_taken r) (length (ch_buf ch))"
  have t: "list_all is_placeholder (taken @ take ?k (ch_buf ch))" "list_all is_placeholder (drop ?k (ch_buf ch))"
    using Cons.prems(2,3) by (auto simp: list_all_iff dest: in_set_takeD in_set_dropD)
  show ?case
  proof (cases "rg_read r")
    case (Sample n)
    obtain ok ch2 st2 where e: "TryEmit (rg_done r) (rg_pick r) (ch\<lparr>ch_buf := drop ?k (ch_buf ch)\<rparr>) st (placeholder (rg_now r) n) = (ok, ch2, st2)"
      by (metis prod_cases3)
    then have "list_all is_placeholder (ch_buf ch2)"
      using t(2) by (auto simp: TryEmit_def Let_def split: if_splits)
    then show ?thesis using Cons.IH [of ch2 st2 "taken @ take ?k (ch_buf ch)"] Cons.prems(1) Sample e t(1) by (simp add: Let_def)
  next
    case ReadFailed
    then show ?thesis using Cons.IH [OF _ t(1), of "ch\<lparr>ch_buf := drop ?k (ch_buf ch)\<rparr>"] t(2) Cons.prems(1) by (simp add: Let_def)
  qed (use Cons.prems(1) t in \<open>auto simp: Let_def\<close>)
qed simp

lemma blank_line: "classify_exec [] '' '' = None" "classify_escape_exec '' '' = None" "ToLower '' '' = '' ''" "ToLower [] = []"
  by code_simp+

lemma placeholder_fields [simp]:
  "se_Kind (placeholder t n) = KindExec" "se_PID (placeholder t n) = 0" "se_Argv (placeholder t n) = []" "se_Comm (placeholder t n) = []"
  "se_Path (placeholder t n) = []" "gget [] (se_Extra (placeholder t n)) ''exe'' = []"
  by (simp_all add: placeholder_def zero_SensorEvent_def gget_def)

lemma placeholder_routes:
  "sudden_route en ord c (placeholder t n) st = (None, st)"
  "defense_RouteExec h fs c cfg pack ver (placeholder t n) = None" "containeresc_RouteExec h fs c cfg pack ver (placeholder t n) = None"
  using blank_line
  by (simp_all add: sudden_route_def RouteSensorEvent_def defense_RouteExec_def containeresc_RouteExec_def split: prod.splits)

lemma placeholder_silent: "consume_one en io (placeholder t n) (deb, st) = ([], fst (snd (consume_one en io (placeholder t n) (deb, st))), st)"
  by (simp add: consume_one_def live_routes_def Let_def kind_defs placeholder_routes pure_route_def split: prod.splits)


definition sample_reads :: "ring_io list" where
  "sample_reads =
     [\<lparr>rg_read = Sample 40, rg_now = 5, rg_done = False, rg_pick = False, rg_taken = 0\<rparr>,
      \<lparr>rg_read = ReadFailed, rg_now = 6, rg_done = False, rg_pick = False, rg_taken = 1\<rparr>,
      \<lparr>rg_read = Sample 48, rg_now = 7, rg_done = False, rg_pick = False, rg_taken = 0\<rparr>,
      \<lparr>rg_read = RingClosed, rg_now = 8, rg_done = True, rg_pick = False, rg_taken = 1\<rparr>]"


end
