(* ===== verification/GC_Terminal.thy ===== *)
theory GC_Terminal
  imports GC_Procfs "HOL-Library.Multiset" "HOL-Library.Sublist"
begin

text \<open>
  The terminal of the demo console (\<^verbatim>\<open>cmd/demo-console/termhub.go\<close>): a log of numbered lines of which the last 4000 are kept, sent
  to any number of browser streams, and the writer that cuts the output of a remote command into lines. The lock
  makes each operation one step; the buffered channel of a stream, the goroutines that wait for a full one, and the
  stream's handler are steps of their own, in any order.
\<close>

section \<open>Lines and streams\<close>

record termLine =
  tl_Seq :: nat
  tl_Text :: string
  tl_Kind :: string

text \<open>
  A subscriber: the buffer of its channel and the lines that goroutines still try to send. Three fields only record what
  happened: the lines taken from the channel, the lines whose goroutine gave up, and the number of the last line at the
  time of the subscription.
\<close>

record stream =
  sm_buf :: "termLine list"
  sm_spill :: "termLine list"
  sm_sent :: "termLine list"
  sm_lost :: "termLine list"
  sm_since :: nat

text \<open>\<open>th_log\<close> records every line there ever was; the code keeps \<open>th_lines\<close>.\<close>

record termHub =
  th_seq :: nat
  th_lines :: "termLine list"
  th_maxKeep :: nat
  th_subs :: "(nat, stream) gomap"
  th_log :: "termLine list"

definition newTermHub :: termHub where
  "newTermHub = \<lparr>th_seq = 0, th_lines = [], th_maxKeep = 4000, th_subs = [], th_log = []\<rparr>"

definition stream_cap :: nat where "stream_cap = 512"

definition send_line :: "termLine \<Rightarrow> stream \<Rightarrow> stream" where
  "send_line l s =
     (if length (sm_buf s) < stream_cap then s\<lparr>sm_buf := sm_buf s @ [l]\<rparr> else s\<lparr>sm_spill := sm_spill s @ [l]\<rparr>)"

definition broadcast :: "termLine \<Rightarrow> termHub \<Rightarrow> termHub" where
  "broadcast l h = h\<lparr>th_subs := map (\<lambda>(c, s). (c, send_line l s)) (th_subs h)\<rparr>"

section \<open>Operations of the hub\<close>

definition keep_last :: "nat \<Rightarrow> 'a list \<Rightarrow> 'a list" where
  "keep_last n xs = (if length xs > n then drop (length xs - n) xs else xs)"

definition add_line :: "string \<Rightarrow> string \<Rightarrow> termHub \<Rightarrow> termHub" where
  "add_line kind p h =
     (let l = \<lparr>tl_Seq = Suc (th_seq h), tl_Text = p, tl_Kind = kind\<rparr>
      in broadcast l (h\<lparr>th_seq := Suc (th_seq h), th_lines := keep_last (th_maxKeep h) (th_lines h @ [l]), th_log := th_log h @ [l]\<rparr>))"

text \<open>\<^verbatim>\<open>strings.ReplaceAll\<close> of carriage return and line feed by line feed, then of carriage return.\<close>

fun crlf_to_lf :: "string \<Rightarrow> string" where
  "crlf_to_lf [] = []"
| "crlf_to_lf [c] = [c]"
| "crlf_to_lf (c # d # s) = (if c = CHR 0x0D \<and> d = CHR 0x0A then CHR 0x0A # crlf_to_lf s else c # crlf_to_lf (d # s))"

definition plain_newlines :: "string \<Rightarrow> string" where
  "plain_newlines text = ReplaceByte (crlf_to_lf text) (CHR 0x0D) [CHR 0x0A]"

fun write_parts :: "string \<Rightarrow> string list \<Rightarrow> termHub \<Rightarrow> termHub" where
  "write_parts kind [] h = h"
| "write_parts kind (p # ps) h = (if p = [] \<and> ps = [] then h else write_parts kind ps (add_line kind p h))"

definition hub_Write :: "string \<Rightarrow> string \<Rightarrow> termHub \<Rightarrow> termHub" where
  "hub_Write kind text h = write_parts kind (SplitByte (plain_newlines text) (CHR 0x0A)) h"

definition hub_Snapshot :: "termHub \<Rightarrow> termLine list" where
  "hub_Snapshot h = th_lines h"

definition em_dash_bytes :: string where "em_dash_bytes = [CHR 0xE2, CHR 0x80, CHR 0x94]"

definition hub_Clear :: "termHub \<Rightarrow> termHub" where
  "hub_Clear h =
     (let l = \<lparr>tl_Seq = Suc (th_seq h), tl_Text = em_dash_bytes @ '' terminal cleared '' @ em_dash_bytes, tl_Kind = ''meta''\<rparr>
      in broadcast l (h\<lparr>th_seq := Suc (th_seq h), th_lines := [l], th_log := th_log h @ [l]\<rparr>))"

definition hub_Subscribe :: "nat \<Rightarrow> termHub \<Rightarrow> termHub" where
  "hub_Subscribe c h = h\<lparr>th_subs := gput c \<lparr>sm_buf = [], sm_spill = [], sm_sent = [], sm_lost = [], sm_since = length (th_log h)\<rparr> (th_subs h)\<rparr>"

definition hub_unsub :: "nat \<Rightarrow> termHub \<Rightarrow> termHub" where
  "hub_unsub c h = h\<lparr>th_subs := filter (\<lambda>(c', s). c' \<noteq> c) (th_subs h)\<rparr>"

section \<open>The writer of remote output\<close>

lemma IndexByte_None: "IndexByte s d = None \<longleftrightarrow> d \<notin> set s"
  by (induction s) auto

lemma IndexByte_Some: "IndexByte s d = Some i \<Longrightarrow> i < length s \<and> IndexByte (s @ t) d = Some i"
  by (induction s arbitrary: i) (auto split: if_splits)

text \<open>Complete lines go to the hub, without the carriage returns at their end; the rest waits.\<close>

function tw_lines :: "string \<Rightarrow> string \<Rightarrow> termHub \<Rightarrow> string \<times> termHub" where
  "tw_lines kind buf h =
     (case IndexByte buf (CHR 0x0A) of
        None \<Rightarrow> (buf, h)
      | Some i \<Rightarrow> tw_lines kind (drop (Suc i) buf) (hub_Write kind (TrimRightByte (take i buf) (CHR 0x0D)) h))"
  by pat_completeness auto
termination
  by (relation "measure (\<lambda>(kind, buf, h). length buf)") (auto dest: IndexByte_Some [where t = "[]"])

declare tw_lines.simps [simp del]

definition tw_Write :: "string \<Rightarrow> string \<Rightarrow> string \<times> termHub \<Rightarrow> string \<times> termHub" where
  "tw_Write kind p st = tw_lines kind (fst st @ p) (snd st)"

definition tw_Flush :: "string \<Rightarrow> string \<times> termHub \<Rightarrow> string \<times> termHub" where
  "tw_Flush kind st = (if fst st = [] then st else ([], hub_Write kind (fst st) (snd st)))"

lemma tw_lines_append: "tw_lines kind (buf @ q) h = (case tw_lines kind buf h of (rest, h1) \<Rightarrow> tw_lines kind (rest @ q) h1)"
proof (induction kind buf h rule: tw_lines.induct)
  case (1 kind buf h)
  show ?case
  proof (cases "IndexByte buf (CHR 0x0A)")
    case None
    then show ?thesis by (simp add: tw_lines.simps [of kind buf])
  next
    case (Some i)
    note s = IndexByte_Some [OF Some, of q]
    have "tw_lines kind (buf @ q) h = tw_lines kind (drop (Suc i) buf @ q) (hub_Write kind (TrimRightByte (take i buf) (CHR 0x0D)) h)"
      using s by (subst tw_lines.simps) simp
    also have "\<dots> = (case tw_lines kind buf h of (rest, h1) \<Rightarrow> tw_lines kind (rest @ q) h1)"
      using "1.IH" [OF Some] Some by (simp add: tw_lines.simps [of kind buf])
    finally show ?thesis .
  qed
qed

lemma tw_lines_rest: "tw_lines kind buf h = (rest, h1) \<Longrightarrow> IndexByte rest (CHR 0x0A) = None"
proof (induction kind buf h rule: tw_lines.induct)
  case (1 kind buf h)
  then show ?case by (subst (asm) (2) tw_lines.simps) (auto split: option.splits)
qed

text \<open>
  The terminal shows the output of a remote command whatever pieces it arrives in: writing the pieces one after the other leaves the
  same lines in the hub, and the same unfinished line, as writing their concatenation at once.
\<close>

theorem stream_chunking: "fold (tw_Write kind) (p # ps) st = tw_Write kind (concat (p # ps)) st"
proof (induction ps arbitrary: p st)
  case (Cons q qs)
  have "tw_Write kind q (tw_Write kind p st) = tw_Write kind (p @ q) st"
    using tw_lines_append [of kind "fst st @ p" q "snd st"] by (simp add: tw_Write_def split: prod.splits)
  then show ?case using Cons.IH [of "p @ q" st] Cons.IH [of q "tw_Write kind p st"] by simp
qed simp

section \<open>Steps\<close>

inductive hub_step :: "termHub \<Rightarrow> termHub \<Rightarrow> bool" where
  wrote: "hub_step h (hub_Write kind text h)"
| cleared: "hub_step h (hub_Clear h)"
| joined: "c \<notin> set (gkeys (th_subs h)) \<Longrightarrow> hub_step h (hub_Subscribe c h)"
| parted: "hub_step h (hub_unsub c h)"
| received: "map_of (th_subs h) c = Some s \<Longrightarrow> sm_buf s = l # b \<Longrightarrow>
    hub_step h (h\<lparr>th_subs := gput c (s\<lparr>sm_buf := b, sm_sent := sm_sent s @ [l]\<rparr>) (th_subs h)\<rparr>)"
| spill_sent: "map_of (th_subs h) c = Some s \<Longrightarrow> sm_spill s = xs @ l # ys \<Longrightarrow> length (sm_buf s) < stream_cap \<Longrightarrow>
    hub_step h (h\<lparr>th_subs := gput c (s\<lparr>sm_buf := sm_buf s @ [l], sm_spill := xs @ ys\<rparr>) (th_subs h)\<rparr>)"
| give_up: "map_of (th_subs h) c = Some s \<Longrightarrow> sm_spill s = xs @ l # ys \<Longrightarrow>
    hub_step h (h\<lparr>th_subs := gput c (s\<lparr>sm_spill := xs @ ys, sm_lost := sm_lost s @ [l]\<rparr>) (th_subs h)\<rparr>)"

definition stream_inv :: "termLine list \<Rightarrow> stream \<Rightarrow> bool" where
  "stream_inv lg s \<longleftrightarrow>
     (let new = drop (sm_since s) lg
      in sm_since s \<le> length lg \<and> length (sm_buf s) \<le> stream_cap \<and>
         mset (sm_sent s) + mset (sm_buf s) + mset (sm_spill s) + mset (sm_lost s) = mset new \<and>
         (length new \<le> stream_cap \<longrightarrow> sm_spill s = [] \<and> sm_lost s = [] \<and> sm_sent s @ sm_buf s = new))"

definition hub_inv :: "termHub \<Rightarrow> bool" where
  "hub_inv h \<longleftrightarrow>
     th_maxKeep h = 4000 \<and> length (th_lines h) \<le> 4000 \<and> suffix (th_lines h) (th_log h) \<and> th_seq h = length (th_log h) \<and>
     map tl_Seq (th_log h) = map Suc [0..<length (th_log h)] \<and> distinct (gkeys (th_subs h)) \<and>
     (\<forall>c s. map_of (th_subs h) c = Some s \<longrightarrow> stream_inv (th_log h) s)"

lemma stream_inv_send:
  assumes "stream_inv lg s"
  shows "stream_inv (lg @ [l]) (send_line l s)"
proof -
  let ?new = "drop (sm_since s) lg"
  have d: "drop (sm_since s) (lg @ [l]) = ?new @ [l]" using assms by (simp add: stream_inv_def Let_def)
  have m: "mset (sm_sent s) + mset (sm_buf s) + mset (sm_spill s) + mset (sm_lost s) = mset ?new" using assms by (simp add: stream_inv_def Let_def)
  then have "size (mset (sm_sent s) + mset (sm_buf s) + mset (sm_spill s) + mset (sm_lost s)) = length ?new" by simp
  then have "length (sm_buf s) \<le> length ?new" by simp
  then show ?thesis
    using assms m by (auto simp: stream_inv_def send_line_def d Let_def)
qed

lemma map_of_broadcast: "map_of (map (\<lambda>(c, s). (c, f s)) m) c = map_option f (map_of m c)"
  by (induction m) auto

lemma suffix_keep:
  assumes "suffix xs ys"
  shows "suffix (keep_last n (xs @ [l])) (ys @ [l])"
proof -
  have "suffix (keep_last n (xs @ [l])) (xs @ [l])" unfolding keep_last_def by (simp only: suffix_drop suffix_order.refl split: if_split) simp
  also have "suffix (xs @ [l]) (ys @ [l])" using assms by (auto simp: suffix_def)
  finally show ?thesis .
qed

lemma length_keep: "length (keep_last n xs) \<le> n"
  by (simp add: keep_last_def)

lemma hub_inv_line:
  assumes "hub_inv h" "tl_Seq l = Suc (th_seq h)" "length ls \<le> 4000" "suffix ls (th_log h @ [l])"
  shows "hub_inv (broadcast l (h\<lparr>th_seq := Suc (th_seq h), th_lines := ls, th_log := th_log h @ [l]\<rparr>))"
  using assms stream_inv_send
  by (auto simp: hub_inv_def broadcast_def map_of_broadcast comp_def split_beta)

lemma hub_inv_add: "hub_inv h \<Longrightarrow> hub_inv (add_line kind p h)"
  unfolding add_line_def Let_def
  by (rule hub_inv_line) (use length_keep [of 4000] in \<open>auto simp: hub_inv_def simp del: suffix_snoc intro: suffix_keep\<close>)

lemma hub_inv_parts: "hub_inv h \<Longrightarrow> hub_inv (write_parts kind ps h)"
  by (induction ps arbitrary: h) (auto intro: hub_inv_add)

lemma hub_inv_clear: "hub_inv h \<Longrightarrow> hub_inv (hub_Clear h)"
  unfolding hub_Clear_def Let_def by (rule hub_inv_line) (auto simp: suffix_def)

lemma hub_inv_stream:
  assumes "hub_inv h" "stream_inv (th_log h) s"
  shows "hub_inv (h\<lparr>th_subs := gput c s (th_subs h)\<rparr>)"
  using assms by (auto simp: hub_inv_def)

lemma hub_inv_step:
  assumes "hub_step h h'" "hub_inv h"
  shows "hub_inv h'"
  using assms(1)
proof (cases rule: hub_step.cases)
  case (wrote kind body)
  then show ?thesis using assms(2) by (simp add: hub_Write_def hub_inv_parts)
next
  case cleared
  then show ?thesis using assms(2) by (simp add: hub_inv_clear)
next
  case (joined c)
  then show ?thesis using assms(2) by (auto simp: hub_Subscribe_def stream_inv_def intro: hub_inv_stream)
next
  case (parted c)
  have "map_of (filter (\<lambda>(c', s). c' \<noteq> c) m) x = (if x = c then None else map_of m x)" for m :: "(nat, stream) gomap" and x
    by (induction m) auto
  moreover have "distinct (gkeys m) \<Longrightarrow> distinct (gkeys (filter (\<lambda>(c', s). c' \<noteq> c) m))" for m :: "(nat, stream) gomap"
    by (induction m) auto
  ultimately show ?thesis using assms(2) parted by (auto simp: hub_inv_def hub_unsub_def split: if_splits)
next
  case (received c s l b)
  have i: "stream_inv (th_log h) s" using assms(2) received(2) by (simp add: hub_inv_def)
  show ?thesis unfolding received(1) by (rule hub_inv_stream [OF assms(2)]) (use i received(3) in \<open>auto simp: stream_inv_def Let_def\<close>)
next
  case (spill_sent c s xs l ys)
  have i: "stream_inv (th_log h) s" using assms(2) spill_sent(2) by (simp add: hub_inv_def)
  show ?thesis unfolding spill_sent(1) by (rule hub_inv_stream [OF assms(2)]) (use i spill_sent(3,4) in \<open>auto simp: stream_inv_def Let_def\<close>)
next
  case (give_up c s xs l ys)
  have i: "stream_inv (th_log h) s" using assms(2) give_up(2) by (simp add: hub_inv_def)
  show ?thesis unfolding give_up(1) by (rule hub_inv_stream [OF assms(2)]) (use i give_up(3) in \<open>auto simp: stream_inv_def Let_def\<close>)
qed

lemma hub_inv_new: "hub_inv newTermHub"
  by (simp add: hub_inv_def newTermHub_def)

lemma hub_inv_reachable: "hub_step\<^sup>*\<^sup>* newTermHub h \<Longrightarrow> hub_inv h"
  by (induction rule: rtranclp_induct) (auto intro: hub_inv_new hub_inv_step)

text \<open>
  C37. The terminal log under any interleaving of writers, streams and clears: at most 4000 lines are kept, they are the latest ones and
  are numbered without gaps up to the last line; and every line since a stream subscribed is, once, among those the
  stream took, those in its channel, those still being retried or those given up. A stream that has seen at most as many lines as its
  channel holds has taken or buffers exactly those lines, in order.
\<close>

theorem terminal_streams:
  assumes "hub_step\<^sup>*\<^sup>* newTermHub h" "map_of (th_subs h) c = Some s"
  shows "length (th_lines h) \<le> 4000 \<and> map tl_Seq (th_lines h) = [Suc (th_seq h) - length (th_lines h)..<Suc (th_seq h)] \<and>
    mset (sm_sent s) + mset (sm_buf s) + mset (sm_spill s) + mset (sm_lost s) = mset (drop (sm_since s) (th_log h)) \<and>
    length (sm_buf s) \<le> 512 \<and>
    (512 < length (drop (sm_since s) (th_log h)) \<or> sm_sent s @ sm_buf s = drop (sm_since s) (th_log h))"
proof -
  have i: "hub_inv h" using hub_inv_reachable [OF assms(1)] .
  then have s: "stream_inv (th_log h) s" using assms(2) by (simp add: hub_inv_def)
  obtain old where o: "th_log h = old @ th_lines h" using i by (auto simp: hub_inv_def suffix_def)
  have l: "length (th_log h) = length old + length (th_lines h)" by (simp add: o)
  have "map tl_Seq old @ map tl_Seq (th_lines h) = map Suc [0..<length old] @ map Suc [length old..<length (th_log h)]"
    using i upt_add_eq_append [of 0 "length old" "length (th_lines h)"] unfolding hub_inv_def l by (metis map_append o zero_le)
  then have "map tl_Seq (th_lines h) = map Suc [length old..<length (th_log h)]" by (simp add: append_eq_append_conv)
  then have "map tl_Seq (th_lines h) = [Suc (length old)..<Suc (length (th_log h))]" unfolding map_Suc_upt .
  moreover have "Suc (th_seq h) - length (th_lines h) = Suc (length old)" using i l by (simp add: hub_inv_def)
  ultimately show ?thesis using i s by (auto simp: hub_inv_def stream_inv_def stream_cap_def Let_def)
qed

lemma join_then_write: "hub_step\<^sup>*\<^sup>* newTermHub (hub_Write kind body (hub_Subscribe c newTermHub))"
proof -
  have "hub_step newTermHub (hub_Subscribe c newTermHub)" by (rule hub_step.joined) (simp add: newTermHub_def)
  then show ?thesis using hub_step.wrote [of "hub_Subscribe c newTermHub" kind body] by (meson converse_rtranclp_into_rtranclp rtranclp.rtrancl_refl)
qed

theorem terminal_streams_witness:
  "\<exists>h s. hub_step\<^sup>*\<^sup>* newTermHub h \<and> map_of (th_subs h) 7 = Some s \<and> map tl_Text (th_lines h) = [''a'', ''b''] \<and>
     map tl_Seq (th_lines h) = [1, 2] \<and> sm_sent s @ sm_buf s = th_log h"
proof -
  let ?h = "hub_Write ''out'' [CHR ''a'', CHR 0x0D, CHR 0x0A, CHR ''b''] (hub_Subscribe 7 newTermHub)"
  have r: "hub_step\<^sup>*\<^sup>* newTermHub ?h"
    by (rule join_then_write)
  have h: "th_seq ?h = 2" "map tl_Text (th_lines ?h) = [''a'', ''b'']" "length (th_lines ?h) = 2" "length (th_log ?h) = 2"
    "map_option sm_since (map_of (th_subs ?h) 7) = Some 0"
    by code_simp+
  then obtain s where s: "map_of (th_subs ?h) 7 = Some s" "sm_since s = 0" by auto
  have u: "[Suc 2 - 2..<Suc 2] = [1, 2::nat]" by code_simp
  have "map tl_Seq (th_lines ?h) = [Suc 2 - 2..<Suc 2]" "sm_sent s @ sm_buf s = th_log ?h"
    using terminal_streams [OF r s(1)] unfolding h(1,3) s(2) by (simp_all add: h(4))
  then show ?thesis unfolding u using r s(1) h(2) by (intro exI [of _ ?h] exI [of _ s] conjI)
qed

section \<open>Blank lines, lost lines and repeated lines\<close>

text \<open>Writing an empty text adds no line, so the blank separators that the engine prints never appear.\<close>

lemma blank_writes_nothing: "hub_Write kind [] h = h"
  by (simp add: hub_Write_def plain_newlines_def ReplaceByte_def)

text \<open>The lines of a burst that a stream does not take in time: those beyond its channel wait, and each can be given up.\<close>

lemma send_burst:
  assumes "sm_buf s = []" "sm_spill s = []"
  shows "fold send_line ls s = s\<lparr>sm_buf := take stream_cap ls, sm_spill := drop stream_cap ls\<rparr>"
proof (induction ls rule: rev_induct)
  case (snoc l ls)
  then show ?case by (cases "length ls < stream_cap") (simp_all add: send_line_def)
qed (use assms in simp)

lemma write_parts_subs:
  "\<exists>ls. length ls = length ps \<and> th_subs (write_parts kind (ps @ [[]]) h) = map (\<lambda>(c, s). (c, fold send_line ls s)) (th_subs h)"
proof (induction ps arbitrary: h)
  case (Cons p ps)
  obtain l where l: "th_subs (add_line kind p h) = map (\<lambda>(c, s). (c, send_line l s)) (th_subs h)"
    by (auto simp: add_line_def broadcast_def Let_def)
  obtain ls where "length ls = length ps"
    "th_subs (write_parts kind (ps @ [[]]) (add_line kind p h)) = map (\<lambda>(c, s). (c, fold send_line ls s)) (th_subs (add_line kind p h))"
    using Cons.IH by blast
  then show ?case by (intro exI [of _ "l # ls"]) (simp add: l comp_def split_beta)
qed (auto intro!: exI [of _ "[]"])

lemma newlines_split: "SplitByte (plain_newlines (replicate n (CHR 0x0A))) (CHR 0x0A) = replicate n [] @ [[]]"
proof -
  have "crlf_to_lf (replicate n (CHR 0x0A)) = replicate n (CHR 0x0A)"
  proof (induction n)
    case (Suc n)
    then show ?case by (cases n) simp_all
  qed simp
  moreover have "ReplaceByte (replicate n (CHR 0x0A)) (CHR 0x0D) r = replicate n (CHR 0x0A)" for r
    by (induction n) (simp_all add: ReplaceByte_def)
  moreover have "SplitByte (replicate n (CHR 0x0A)) (CHR 0x0A) = replicate n [] @ [[]]" by (induction n) simp_all
  ultimately show ?thesis by (simp add: plain_newlines_def)
qed

lemma lines_can_be_lost: "\<exists>h s. hub_step\<^sup>*\<^sup>* newTermHub h \<and> map_of (th_subs h) 7 = Some s \<and> sm_lost s \<noteq> []"
proof -
  let ?s0 = "\<lparr>sm_buf = [], sm_spill = [], sm_sent = [], sm_lost = [], sm_since = 0\<rparr>"
  let ?h = "hub_Write ''out'' (replicate (Suc stream_cap) (CHR 0x0A)) (hub_Subscribe 7 newTermHub)"
  have j: "hub_step\<^sup>*\<^sup>* newTermHub ?h"
    by (rule join_then_write)
  have n: "th_subs (hub_Subscribe 7 newTermHub) = [(7, ?s0)]" by (simp add: hub_Subscribe_def newTermHub_def gput_def)
  obtain ls where ls: "length ls = Suc stream_cap" "th_subs ?h = [(7, fold send_line ls ?s0)]"
    using write_parts_subs [of "replicate (Suc stream_cap) []" "''out''" "hub_Subscribe 7 newTermHub"]
    unfolding hub_Write_def newlines_split n by auto
  have "drop stream_cap ls \<noteq> []" using ls(1) by simp
  then obtain l rest where d: "drop stream_cap ls = l # rest" by (meson list.exhaust)
  have m: "map_of (th_subs ?h) 7 = Some (?s0\<lparr>sm_buf := take stream_cap ls, sm_spill := drop stream_cap ls\<rparr>)"
    unfolding ls(2) using send_burst [of ?s0 ls] by simp
  have "hub_step ?h (?h\<lparr>th_subs := gput 7 (?s0\<lparr>sm_buf := take stream_cap ls, sm_spill := rest, sm_lost := [l]\<rparr>) (th_subs ?h)\<rparr>)" (is "hub_step _ ?h'")
    using hub_step.give_up [OF m, of "[]" l rest] d by simp
  then have "hub_step\<^sup>*\<^sup>* newTermHub ?h'" using j by (rule rtranclp.rtrancl_into_rtrancl [rotated])
  moreover have "map_of (th_subs ?h') 7 = Some (?s0\<lparr>sm_buf := take stream_cap ls, sm_spill := rest, sm_lost := [l]\<rparr>)" by simp
  moreover have "sm_lost (?s0\<lparr>sm_buf := take stream_cap ls, sm_spill := rest, sm_lost := [l]\<rparr>) \<noteq> []" by simp
  ultimately show ?thesis by blast
qed

text \<open>
  A stream subscribes first and replays the kept lines then: what is written in between is both replayed and in its channel.
\<close>

definition serveSSE_output :: "termLine list \<Rightarrow> stream \<Rightarrow> termLine list" where
  "serveSSE_output replayed s = replayed @ sm_sent s"

lemma replay_repeats:
  "\<exists>h h' s l. hub_step\<^sup>*\<^sup>* newTermHub h \<and> hub_step h h' \<and> map_of (th_subs h') 7 = Some s \<and>
     count (mset (serveSSE_output (hub_Snapshot h) s)) l = 2"
proof -
  let ?l = "\<lparr>tl_Seq = 1, tl_Text = ''x'', tl_Kind = ''out''\<rparr>"
  let ?h = "hub_Write ''out'' ''x'' (hub_Subscribe 7 newTermHub)"
  let ?s = "\<lparr>sm_buf = [?l], sm_spill = [], sm_sent = [], sm_lost = [], sm_since = 0\<rparr>"
  have m: "map_of (th_subs ?h) 7 = Some ?s" "th_lines ?h = [?l]" by code_simp+
  have c: "hub_step ?h (?h\<lparr>th_subs := gput 7 (?s\<lparr>sm_buf := [], sm_sent := [?l]\<rparr>) (th_subs ?h)\<rparr>)" (is "hub_step _ ?h'")
    using hub_step.received [OF m(1), of ?l "[]"] by simp
  have "map_of (th_subs ?h') 7 = Some (?s\<lparr>sm_buf := [], sm_sent := [?l]\<rparr>)" by simp
  moreover have "count (mset (serveSSE_output (hub_Snapshot ?h) (?s\<lparr>sm_buf := [], sm_sent := [?l]\<rparr>))) ?l = 2"
    using m(2) by (simp add: serveSSE_output_def hub_Snapshot_def)
  ultimately show ?thesis using join_then_write c by blast
qed

end
