(* ===== verification/GC_DemoSteps.thy ===== *)
theory GC_DemoSteps
  imports GC_Terminal GC_Scan
begin

text \<open>
  The lab steps of the demo console (\<^verbatim>\<open>cmd/demo-console/catalog.go\<close>) and what it tells about an alert found in Elasticsearch
  (\<^verbatim>\<open>evidence.go\<close>). Texts are bytes; the characters outside ASCII are spelled in UTF-8.
\<close>

section \<open>The steps\<close>

definition arrow_bytes :: string where "arrow_bytes = [CHR 0xE2, CHR 0x86, CHR 0x92]"
definition left_quote :: string where "left_quote = [CHR 0xE2, CHR 0x80, CHR 0x9C]"
definition right_quote :: string where "right_quote = [CHR 0xE2, CHR 0x80, CHR 0x9D]"
definition middle_dot :: string where "middle_dot = [CHR 0xC2, CHR 0xB7]"
definition double_bars :: string where "double_bars = concat (replicate 3 [CHR 0xE2, CHR 0x95, CHR 0x90])"

record StepDef =
  sd_ID :: string
  sd_Index :: nat
  sd_Group :: string
  sd_Title :: string
  sd_Narration :: string
  sd_RuleIDs :: "string list"
  sd_RemoteCmd :: string
  sd_WaitSecs :: int
  sd_ExpectRules :: bool

definition scenarioCmd :: "string \<Rightarrow> string" where
  "scenarioCmd name = ''LAB_ROOT=/opt/ghostcatcher-lab/lab bash /opt/ghostcatcher-lab/lab/scenarios/'' @ name @ ''.sh''"

definition step_def :: "string \<Rightarrow> string \<Rightarrow> string \<Rightarrow> string \<Rightarrow> string list \<Rightarrow> string \<Rightarrow> int \<Rightarrow> bool \<Rightarrow> StepDef" where
  "step_def i g ti na rs cmd w ex =
     \<lparr>sd_ID = i, sd_Index = 0, sd_Group = g, sd_Title = ti, sd_Narration = na, sd_RuleIDs = rs, sd_RemoteCmd = cmd, sd_WaitSecs = w, sd_ExpectRules = ex\<rparr>"

definition kill_chain_steps :: "StepDef list" where
  "kill_chain_steps =
     [step_def ''reset'' ''Kill chain'' (''Reset lab'') (''Clear kill-chain + matrix artifacts for a clean run.'') [] (''/opt/ghostcatcher-lab/demo-killchain.sh --reset-only; /opt/ghostcatcher-lab/lab/reset-matrix.sh'') 0 False,
      step_def ''webshell'' ''Kill chain'' (''Act 0 '' @ em_dash_bytes @ '' Webshell (wp2shell)'') (''WordPress Batch desync '' @ arrow_bytes @ '' PHP webshell on disk.'') [''WEB_SHELL_PATTERN''] (''bash /opt/ghostcatcher-lab/killchain/01-webshell.sh wp2shell'') 60 True,
      step_def ''sudden_root'' ''Kill chain'' (''Act 1 '' @ em_dash_bytes @ '' Sudden root'') (''Unprivileged process flips to euid=0 (CAP_SETUID sim).'') [''PROC_SUDDEN_ROOT''] (''bash /opt/ghostcatcher-lab/killchain/02-sudden-root.sh sim'') 60 True,
      step_def ''persist'' ''Kill chain'' (''Act 2 '' @ em_dash_bytes @ '' Persistence'') (''ld.so.preload + labuser authorized_keys after '' @ left_quote @ ''root'' @ right_quote @ ''.'') [''LD_SO_PRELOAD_FILE'', ''SSH_AUTHKEY_NEW''] (''bash /opt/ghostcatcher-lab/killchain/03-persist-evasion.sh'') 60 True,
      step_def ''reverse_shell'' ''Kill chain'' (''Act 3 '' @ em_dash_bytes @ '' Reverse shell'') (''bash /dev/tcp reverse shell (self-listener).'') [''PROC_SOCKET_STDIO''] (''bash /opt/ghostcatcher-lab/killchain/04-reverse-shell.sh'') 90 True]"

definition web_steps :: "StepDef list" where
  "web_steps =
     [step_def ''web-shell'' ''Web'' (''Web shell fixture'') (''Drop attack-shell.php under /var/www/html.'') [''WEB_SHELL_PATTERN''] (scenarioCmd ''web-shell'') 90 True,
      step_def ''web-recon'' ''Web'' (''Web worker recon child'') (''HTTP hit that spawns recon under the web worker.'') [''WEB_WORKER_RECON_CHILD''] (scenarioCmd ''web-recon'') 90 True]"

definition persistence_steps :: "StepDef list" where
  "persistence_steps =
     [step_def ''cron'' ''Persistence'' (''High-risk cron'') (''Plant curl|bash style cron.d drop-in.'') [''CRON_HIGH_RISK''] (scenarioCmd ''cron'') 90 True,
      step_def ''ld-preload-file'' ''Persistence'' (''ld.so.preload file'') (''Non-empty /etc/ld.so.preload.'') [''LD_SO_PRELOAD_FILE''] (scenarioCmd ''ld-preload-file'') 90 True,
      step_def ''ld-preload-env'' ''Persistence'' (''LD_PRELOAD env'') (''Long-lived process with LD_PRELOAD set.'') [''PROC_LD_PRELOAD_ENV''] (scenarioCmd ''ld-preload-env'') 90 True,
      step_def ''ssh-key'' ''Persistence'' (''New SSH authorized key'') (''Append a new key fingerprint for a lab user.'') [''SSH_AUTHKEY_NEW''] (scenarioCmd ''ssh-key'') 90 True,
      step_def ''ssh-auth-invalid'' ''Persistence'' (''Invalid SSH key line'') (''Garbage line in authorized_keys.'') [''SSH_AUTHKEY_INVALID_LINE''] (scenarioCmd ''ssh-auth-invalid'') 90 True,
      step_def ''sudoers'' ''Persistence'' (''Sudoers persistence'') (''NOPASSWD / unrestricted sudoers drop-in.'') [''SUDOERS_PERSISTENCE''] (scenarioCmd ''sudoers'') 90 True,
      step_def ''systemd'' ''Persistence'' (''Systemd persistence'') (''Suspicious systemd unit ExecStart.'') [''SYSTEMD_PERSISTENCE''] (scenarioCmd ''systemd'') 90 True,
      step_def ''pam'' ''Persistence'' (''PAM persistence'') (''Suspicious PAM config / module path.'') [''PAM_PERSISTENCE''] (scenarioCmd ''pam'') 90 True,
      step_def ''shellrc'' ''Persistence'' (''Shell RC / profile hook'') (''Backdoor line in root .bashrc (PROFILE_HOOK).'') [''PROFILE_HOOK''] (scenarioCmd ''shellrc'') 90 True,
      step_def ''kmod'' ''Persistence'' (''Kernel modload path'') (''modules-load.d / modprobe.d change.'') [''KERNEL_MODLOAD_PATH_CHANGED''] (scenarioCmd ''kmod'') 90 True,
      step_def ''ldconf'' ''Persistence'' (''ld.so.conf change'') (''Extra path under ld.so.conf.d.'') [''LD_SO_CONF_CHANGED''] (scenarioCmd ''ldconf'') 90 True,
      step_def ''sshd-config'' ''Persistence'' (''sshd config anomaly'') (''High-risk sshd drop-in directive.'') [''SSHD_CONFIG_ANOMALY''] (scenarioCmd ''sshd-config'') 90 True,
      step_def ''user-account'' ''Persistence'' (''User account anomaly'') (''passwd/shadow change via lab user create.'') [''USER_ACCOUNT_ANOMALY''] (scenarioCmd ''user-account'') 90 True]"

definition privilege_steps :: "StepDef list" where
  "privilege_steps =
     [step_def ''suid'' ''Privilege'' (''SUID inventory delta'') (''Create a lab SUID binary.'') [''SUID_INVENTORY_DELTA''] (scenarioCmd ''suid'') 90 True,
      step_def ''capability'' ''Privilege'' (''File capability delta'') (''setcap on a lab helper binary.'') [''FILE_CAPABILITY_DELTA''] (scenarioCmd ''capability'') 90 True,
      step_def ''integrity-dpkg'' ''Privilege'' (''Binary integrity mismatch'') (''Mutate /usr/bin/yes '' @ arrow_bytes @ '' LIB_HASH_MISMATCH.'') [''LIB_HASH_MISMATCH''] (scenarioCmd ''integrity-dpkg'') 120 True]"

definition network_steps :: "StepDef list" where
  "network_steps =
     [step_def ''network-listen'' ''Network'' (''Unexpected listen'') (''Open a non-loopback listener.'') [''NETWORK_LISTEN_NEW''] (scenarioCmd ''network-listen'') 90 True,
      step_def ''network-reverse'' ''Network'' (''Reverse shell (matrix)'') (''bash /dev/tcp to a public IP (PROC_SOCKET_STDIO).'') [''PROC_SOCKET_STDIO''] (scenarioCmd ''network-reverse'') 90 True,
      step_def ''network-egress'' ''Network'' (''Web worker egress'') (''www-data PHP process opens outbound HTTP.'') [''NETWORK_WEB_WORKER_EGRESS''] (scenarioCmd ''network-egress'') 90 True]"

text \<open>The counter numbers the steps in the order they are listed.\<close>

definition allStepDefs :: "StepDef list" where
  "allStepDefs =
     (let defs = kill_chain_steps @ web_steps @ persistence_steps @ privilege_steps @ network_steps
      in map (\<lambda>(n, d). d\<lparr>sd_Index := n\<rparr>) (zip [0..<length defs] defs))"

section \<open>Evidence\<close>

text \<open>A decoded JSON value; numbers are real numbers here and floating point in the program.\<close>

datatype json = JNull | JBool bool | JNum real | JStr string | JArr "json list" | JObj "(string \<times> json) list"

text \<open>
  From the Go libraries: the decoder of a search answer (the sources of its hits), the default formatting of a value, and
  the conversion of a RFC 3339 time to the displayed form.
\<close>

record jsonlib =
  jl_hits :: "string \<Rightarrow> (string \<times> json) list list option"
  jl_sprint :: "json \<Rightarrow> string"
  jl_showTime :: "string \<Rightarrow> string option"

record Evidence =
  ed_Detected :: bool
  ed_RuleID :: string
  ed_Title :: string
  ed_Severity :: string
  ed_Confidence :: int
  ed_Timestamp :: string
  ed_Summary :: string
  ed_Bullets :: "string list"
  ed_RawPath :: string

definition zero_Evidence :: Evidence where
  "zero_Evidence = \<lparr>ed_Detected = False, ed_RuleID = [], ed_Title = [], ed_Severity = [], ed_Confidence = 0, ed_Timestamp = [],
     ed_Summary = [], ed_Bullets = [], ed_RawPath = []\<rparr>"

definition rule_titles :: "(string \<times> string) list" where
  "rule_titles =
     [(''WEB_SHELL_PATTERN'', ''Webshell on disk''),
      (''WEB_WORKER_RECON_CHILD'', ''Web worker recon child''),
      (''PROC_SUDDEN_ROOT'', ''Sudden root / privilege escalation''),
      (''LD_SO_PRELOAD_FILE'', ''ld.so.preload persistence''),
      (''PROC_LD_PRELOAD_ENV'', ''LD_PRELOAD in process env''),
      (''SSH_AUTHKEY_NEW'', ''New SSH authorized key''),
      (''SSH_AUTHKEY_INVALID_LINE'', ''Invalid SSH authorized_keys line''),
      (''PROC_SOCKET_STDIO'', ''Reverse shell / C2''),
      (''CRON_HIGH_RISK'', ''High-risk cron job''),
      (''SUDOERS_PERSISTENCE'', ''Sudoers persistence''),
      (''SYSTEMD_PERSISTENCE'', ''Systemd persistence''),
      (''PAM_PERSISTENCE'', ''PAM persistence''),
      (''PROFILE_HOOK'', ''Shell profile / RC hook''),
      (''KERNEL_MODLOAD_PATH_CHANGED'', ''Kernel module load path changed''),
      (''LD_SO_CONF_CHANGED'', ''ld.so.conf changed''),
      (''SSHD_CONFIG_ANOMALY'', ''sshd config anomaly''),
      (''USER_ACCOUNT_ANOMALY'', ''User account anomaly''),
      (''SUID_INVENTORY_DELTA'', ''SUID inventory delta''),
      (''FILE_CAPABILITY_DELTA'', ''File capability delta''),
      (''LIB_HASH_MISMATCH'', ''Binary / library hash mismatch''),
      (''NETWORK_LISTEN_NEW'', ''Unexpected network listener''),
      (''NETWORK_WEB_WORKER_EGRESS'', ''Web worker egress'')]"

definition humanRuleTitle :: "string \<Rightarrow> string" where
  "humanRuleTitle ruleID = (case map_of rule_titles ruleID of None \<Rightarrow> ruleID | Some ti \<Rightarrow> ti)"

definition field :: "(string \<times> json) list \<Rightarrow> string \<Rightarrow> json" where
  "field src key = (case map_of src key of None \<Rightarrow> JNull | Some v \<Rightarrow> v)"

definition json_str :: "jsonlib \<Rightarrow> json \<Rightarrow> string" where
  "json_str jl v = (case v of JStr s \<Rightarrow> s | JNull \<Rightarrow> [] | _ \<Rightarrow> jl_sprint jl v)"

text \<open>A number is truncated towards zero; any other value counts as zero.\<close>

definition intNum :: "json \<Rightarrow> int" where
  "intNum v = (case v of JNum r \<Rightarrow> if r < 0 then - \<lfloor>- r\<rfloor> else \<lfloor>r\<rfloor> | _ \<Rightarrow> 0)"

definition stringSlice :: "jsonlib \<Rightarrow> json \<Rightarrow> string list" where
  "stringSlice jl v = (case v of JArr xs \<Rightarrow> filter (\<lambda>s. s \<noteq> []) (map (json_str jl) xs) | _ \<Rightarrow> [])"

definition object_fields :: "json \<Rightarrow> (string \<times> json) list option" where
  "object_fields v = (case v of JObj kvs \<Rightarrow> Some kvs | _ \<Rightarrow> None)"

definition trim_text :: "string \<Rightarrow> nat \<Rightarrow> string" where
  "trim_text s n = (let s' = TrimSpace s in if length s' \<le> n then s' else take n s' @ ellipsis)"

definition firstLine :: "string \<Rightarrow> string" where
  "firstLine s = (let s' = TrimSpace s in case IndexByte s' (CHR 0x0A) of Some i \<Rightarrow> take i s' | None \<Rightarrow> trim_text s' 180)"

definition humanSummary :: "jsonlib \<Rightarrow> string \<Rightarrow> (string \<times> json) list \<Rightarrow> string" where
  "humanSummary jl ruleID src =
     (let evd = json_str jl (field src ''evidence'');
          ent = (\<lambda>key. case object_fields (field src ''entity'') of None \<Rightarrow> [] | Some kvs \<Rightarrow> json_str jl (field kvs key))
      in if ruleID = ''WEB_SHELL_PATTERN'' then ''GhostCatcher flagged a PHP webshell at '' @ ent ''path'' @ ''.''
         else if ruleID = ''PROC_SUDDEN_ROOT'' then ''Unprivileged process escalated to root: '' @ firstLine evd
         else if ruleID = ''LD_SO_PRELOAD_FILE'' then ''Global library preload set: '' @ firstLine evd
         else if ruleID = ''SSH_AUTHKEY_NEW'' then ''New SSH key added for user '' @ ent ''user'' @ ''.''
         else if ruleID = ''PROC_SOCKET_STDIO'' then ''Shell process opened outbound C2-like connection: '' @ firstLine evd
         else firstLine evd)"

definition bullet :: "string \<Rightarrow> string \<Rightarrow> string list" where
  "bullet label s = (if s = [] then [] else [label @ s])"

definition humanBullets :: "jsonlib \<Rightarrow> (string \<times> json) list \<Rightarrow> string list" where
  "humanBullets jl src =
     (let t = json_str jl (field src ''timestamp''); evd = json_str jl (field src ''evidence'')
      in bullet ''When: '' (if t = [] then [] else case jl_showTime jl t of Some s \<Rightarrow> s | None \<Rightarrow> t) @
         [''Severity: '' @ json_str jl (field src ''severity'') @ '' '' @ middle_dot @ '' confidence '' @ Itoa (intNum (field src ''confidence''))] @
         bullet ''MITRE: '' (Join (stringSlice jl (field src ''technique_id'')) '', '') @
         (case object_fields (field src ''entity'') of
            None \<Rightarrow> []
          | Some ent \<Rightarrow> bullet ''Path: '' (json_str jl (field ent ''path'')) @ bullet ''User: '' (json_str jl (field ent ''user''))) @
         (case object_fields (field src ''process'') of
            None \<Rightarrow> []
          | Some proc \<Rightarrow>
              bullet ''Process: '' (json_str jl (field proc ''exe'')) @
              (if intNum (field proc ''pid'') > 0 then [''PID: '' @ Itoa (intNum (field proc ''pid''))] else [])) @
         bullet ''Signals: '' (Join (stringSlice jl (field src ''signals'')) '', '') @
         (if evd = [] then [] else [''Evidence: '' @ trim_text evd 220]))"

definition parseESLatest :: "jsonlib \<Rightarrow> string \<Rightarrow> string \<Rightarrow> Evidence" where
  "parseESLatest jl ruleID raw =
     (let ev = zero_Evidence\<lparr>ed_RuleID := ruleID, ed_Title := humanRuleTitle ruleID, ed_Summary := ''No matching alert in Elasticsearch yet.''\<rparr>
      in case jl_hits jl raw of
           Some (src # _) \<Rightarrow>
             ev\<lparr>ed_Detected := True, ed_Severity := json_str jl (field src ''severity''), ed_Confidence := intNum (field src ''confidence''),
                ed_Timestamp := json_str jl (field src ''timestamp''), ed_Summary := humanSummary jl ruleID src, ed_Bullets := humanBullets jl src,
                ed_RawPath := (case object_fields (field src ''entity'') of None \<Rightarrow> [] | Some ent \<Rightarrow> json_str jl (field ent ''path''))\<rparr>
         | _ \<Rightarrow> ev)"

section \<open>The steps and the agent's rules\<close>

definition kill_chain_order :: "string list" where
  "kill_chain_order = [''reset'', ''webshell'', ''sudden_root'', ''persist'', ''reverse_shell'']"

lemma step_ids:
  "map sd_ID allStepDefs =
     [''reset'', ''webshell'', ''sudden_root'', ''persist'', ''reverse_shell'', ''web-shell'', ''web-recon'', ''cron'', ''ld-preload-file'',
      ''ld-preload-env'', ''ssh-key'', ''ssh-auth-invalid'', ''sudoers'', ''systemd'', ''pam'', ''shellrc'', ''kmod'', ''ldconf'', ''sshd-config'',
      ''user-account'', ''suid'', ''capability'', ''integrity-dpkg'', ''network-listen'', ''network-reverse'', ''network-egress'']"
  by code_simp

text \<open>
  The lab steps fit the agent: the steps have distinct names and are numbered by their position, the default order of a full run names
  existing steps, a step waits for alerts exactly when it lists rules, and every rule it waits for has a title of its own and is one
  that a scan or the live path of the agent can report.
\<close>

theorem steps_match_agent:
  "distinct (map sd_ID allStepDefs) \<and> map sd_Index allStepDefs = [0..<length allStepDefs] \<and>
   set kill_chain_order \<subseteq> set (map sd_ID allStepDefs) \<and>
   list_all (\<lambda>d. sd_ExpectRules d = (sd_RuleIDs d \<noteq> []) \<and>
     list_all (\<lambda>r. r \<in> set (map fst rule_titles) \<and> (r \<in> set full_catalog \<or> r \<in> set live_catalog)) (sd_RuleIDs d)) allStepDefs"
proof (intro conjI)
  show "distinct (map sd_ID allStepDefs)" unfolding step_ids by simp
  show "map sd_Index allStepDefs = [0..<length allStepDefs]" by code_simp
  show "set kill_chain_order \<subseteq> set (map sd_ID allStepDefs)" unfolding step_ids kill_chain_order_def by simp
  show "list_all (\<lambda>d. sd_ExpectRules d = (sd_RuleIDs d \<noteq> []) \<and>
     list_all (\<lambda>r. r \<in> set (map fst rule_titles) \<and> (r \<in> set full_catalog \<or> r \<in> set live_catalog)) (sd_RuleIDs d)) allStepDefs"
    by code_simp
qed

end
