(* ===== verification/GC_Demo.thy ===== *)
theory GC_Demo
  imports GC_DemoSteps GC_Export
begin

text \<open>
  The engine of the demo console (\<^verbatim>\<open>cmd/demo-console/steps.go\<close>, \<^verbatim>\<open>main.go\<close>, \<^verbatim>\<open>sshclient.go\<close>): running a lab step on the remote host,
  polling Elasticsearch until every rule of the step has a new alert or the time is up, the handlers of its web interface, and the
  address of the host. What the remote commands print, the times and the answers of Elasticsearch are given.
\<close>

section \<open>Steps and engine\<close>

datatype stepStatus = StatusIdle | StatusRunning | StatusDetected | StatusMissed | StatusOK | StatusError

record StepState =
  st_Def :: StepDef
  st_Status :: stepStatus
  st_Log :: string
  st_Error :: string
  st_Evidence :: "Evidence list"
  st_UpdatedAt :: string

record demoEngine =
  de_steps :: "StepState list"
  de_busy :: bool
  de_target :: string

definition newEngine :: "string \<Rightarrow> demoEngine" where
  "newEngine target =
     \<lparr>de_steps = map (\<lambda>d. \<lparr>st_Def = d, st_Status = StatusIdle, st_Log = [], st_Error = [], st_Evidence = [], st_UpdatedAt = []\<rparr>) allStepDefs,
      de_busy = False, de_target = target\<rparr>"

fun find_step :: "string \<Rightarrow> StepState list \<Rightarrow> nat option" where
  "find_step i [] = None"
| "find_step i (s # ss) = (if sd_ID (st_Def s) = i then Some 0 else map_option Suc (find_step i ss))"

definition on_step :: "nat \<Rightarrow> (StepState \<Rightarrow> StepState) \<Rightarrow> demoEngine \<Rightarrow> demoEngine" where
  "on_step k f eng = eng\<lparr>de_steps := (de_steps eng)[k := f (de_steps eng ! k)]\<rparr>"

datatype step_error = AnotherRunning | UnknownStep string

text \<open>The first section under the lock: the engine is claimed and the step is reset.\<close>

definition begin_step :: "string \<Rightarrow> string \<Rightarrow> demoEngine \<Rightarrow> (step_error + nat) \<times> demoEngine" where
  "begin_step i stamp eng =
     (if de_busy eng then (Inl AnotherRunning, eng)
      else case find_step i (de_steps eng) of
             None \<Rightarrow> (Inl (UnknownStep i), eng)
           | Some k \<Rightarrow>
               (Inr k, on_step k (\<lambda>s. s\<lparr>st_Status := StatusRunning, st_Error := [], st_Log := [], st_Evidence := [], st_UpdatedAt := stamp\<rparr>)
                  (eng\<lparr>de_busy := True\<rparr>)))"

definition set_log :: "nat \<Rightarrow> string \<Rightarrow> demoEngine \<Rightarrow> demoEngine" where
  "set_log k out = on_step k (\<lambda>s. s\<lparr>st_Log := trim_text out 4000\<rparr>)"

definition fail_step :: "nat \<Rightarrow> string \<Rightarrow> string \<Rightarrow> string \<Rightarrow> demoEngine \<Rightarrow> demoEngine" where
  "fail_step k err out stamp = on_step k (\<lambda>s. s\<lparr>st_Status := StatusError, st_Error := err @ [CHR 0x0A] @ firstLine out, st_UpdatedAt := stamp\<rparr>)"

definition finish_step :: "nat \<Rightarrow> stepStatus \<Rightarrow> Evidence list \<Rightarrow> string \<Rightarrow> demoEngine \<Rightarrow> demoEngine" where
  "finish_step k status evs stamp = on_step k (\<lambda>s. s\<lparr>st_Status := status, st_Evidence := evs, st_UpdatedAt := stamp\<rparr>)"

definition release :: "demoEngine \<Rightarrow> demoEngine" where
  "release eng = eng\<lparr>de_busy := False\<rparr>"

section \<open>Elasticsearch\<close>

fun StrIndex :: "string \<Rightarrow> string \<Rightarrow> nat option" where
  "StrIndex [] sub = (if sub = [] then Some 0 else None)"
| "StrIndex (c # s) sub = (if HasPrefix (c # s) sub then Some 0 else map_option Suc (StrIndex s sub))"

definition count_key :: string where "count_key = [CHR 0x22] @ ''count'' @ [CHR 0x22] @ '':''"

definition parse_count :: "string \<Rightarrow> int" where
  "parse_count raw =
     (case StrIndex raw count_key of
        None \<Rightarrow> 0
      | Some i \<Rightarrow> AtoiValue (takeWhile is_digit (dropWhile (\<lambda>c. c = CHR '' '') (drop (i + 8) raw))))"

text \<open>A count query that fails counts as zero.\<close>

definition esCount :: "(string \<Rightarrow> string option) \<Rightarrow> string \<Rightarrow> int" where
  "esCount query r = (case query r of None \<Rightarrow> 0 | Some raw \<Rightarrow> parse_count raw)"

text \<open>One round of polling: the time at its start, the answers for every rule, and the clock readings of a progress message.\<close>

record poll =
  po_now :: time
  po_search :: "string \<Rightarrow> string option"
  po_count :: "string \<Rightarrow> string option"
  po_times :: "string \<Rightarrow> time \<times> time \<times> time"

definition seconds_left :: "time \<Rightarrow> time \<Rightarrow> int" where
  "seconds_left deadline t = (if deadline < t then 0 else time_sub deadline t div second)"

definition progress_line :: "string \<Rightarrow> int \<Rightarrow> int \<Rightarrow> int \<Rightarrow> string" where
  "progress_line r before now left =
     ''  '' @ ellipsis @ '' still waiting for new '' @ r @ '' (before='' @ Itoa before @ '' now='' @ Itoa now @ '', '' @ Itoa left @ ''s left)''"

text \<open>The state of the loop: the evidence so far, whether every rule was fresh in this round, the time of the last progress message, the terminal.\<close>

type_synonym polling = "Evidence list \<times> bool \<times> time \<times> termHub"

definition poll_rule :: "jsonlib \<Rightarrow> (string \<Rightarrow> int) \<Rightarrow> time \<Rightarrow> poll \<Rightarrow> nat \<times> string \<Rightarrow> polling \<Rightarrow> polling" where
  "poll_rule jl before deadline po ir st =
     (case (ir, st) of ((i, r), (evs, fresh, lastP, hub)) \<Rightarrow>
        (case po_search po r of
           None \<Rightarrow> (evs, False, lastP, hub)
         | Some raw \<Rightarrow>
             (let ev = parseESLatest jl r raw; n = esCount (po_count po) r
              in if n \<le> before r then
                   (let ev' = ev\<lparr>ed_Detected := False, ed_Summary := ''No new '' @ r @ '' alert yet (count still '' @ Itoa n @ '').'', ed_Bullets := []\<rparr>;
                        (t1, t2, t3) = po_times po r
                    in if time_sub t1 lastP \<ge> 5 * second
                       then (evs[i := ev'], False, t3, hub_Write ''meta'' (progress_line r (before r) n (seconds_left deadline t2)) hub)
                       else (evs[i := ev'], False, lastP, hub))
                 else (evs[i := ev], fresh \<and> ed_Detected ev, lastP, hub))))"

definition poll_round :: "jsonlib \<Rightarrow> (string \<Rightarrow> int) \<Rightarrow> time \<Rightarrow> string list \<Rightarrow> poll \<Rightarrow> Evidence list \<times> time \<times> termHub \<Rightarrow> polling" where
  "poll_round jl before deadline rules po st =
     (case st of (evs, lastP, hub) \<Rightarrow> fold (poll_rule jl before deadline po) (zip [0..<length rules] rules) (evs, True, lastP, hub))"

text \<open>\<open>None\<close> stands for a loop that is still polling when the rounds are used up.\<close>

fun wait_loop :: "jsonlib \<Rightarrow> (string \<Rightarrow> int) \<Rightarrow> time \<Rightarrow> string list \<Rightarrow> poll list \<Rightarrow> Evidence list \<times> time \<times> termHub \<Rightarrow> (Evidence list \<times> termHub) option" where
  "wait_loop jl before deadline rules [] st = None"
| "wait_loop jl before deadline rules (po # pos) st =
     (if \<not> po_now po < deadline then Some (fst st, snd (snd st))
      else (case poll_round jl before deadline rules po st of
              (evs, fresh, lastP, hub) \<Rightarrow> if fresh then Some (evs, hub) else wait_loop jl before deadline rules pos (evs, lastP, hub)))"

definition waiting :: "string \<Rightarrow> Evidence" where
  "waiting r = zero_Evidence\<lparr>ed_RuleID := r, ed_Title := humanRuleTitle r, ed_Summary := ''Waiting for alert'' @ ellipsis\<rparr>"

definition waitEvidence :: "jsonlib \<Rightarrow> string list \<Rightarrow> (string \<Rightarrow> int) \<Rightarrow> int \<Rightarrow> time \<Rightarrow> poll list \<Rightarrow> termHub \<Rightarrow> (Evidence list \<times> termHub) option" where
  "waitEvidence jl rules before secs start pos hub =
     wait_loop jl before (start + wrap64 (secs * second)) rules pos (map waiting rules, 0, hub)"

section \<open>Running a step\<close>

text \<open>What a run of a step meets: the stamps of its updates, the counts before, the pieces of output and the error of the command, and the rounds.\<close>

record run_io =
  io_started :: string
  io_ended :: string
  io_before :: "string \<Rightarrow> string option"
  io_chunks :: "string list"
  io_err :: "string option"
  io_waitFrom :: time
  io_polls :: "poll list"

definition print_counts :: "(string \<Rightarrow> int) \<Rightarrow> string list \<Rightarrow> termHub \<Rightarrow> termHub" where
  "print_counts before rules = fold (\<lambda>r. hub_Write ''meta'' (''  '' @ r @ '' count='' @ Itoa (before r))) rules"

definition stream_output :: "string list \<Rightarrow> termHub \<Rightarrow> termHub" where
  "stream_output chunks hub = snd (tw_Flush ''out'' (fold (tw_Write ''out'') chunks ([], hub)))"

definition print_verdicts :: "Evidence list \<Rightarrow> termHub \<Rightarrow> termHub" where
  "print_verdicts =
     fold (\<lambda>ev. if ed_Detected ev then hub_Write ''meta'' (''DETECTED '' @ ed_RuleID ev @ '' '' @ em_dash_bytes @ '' '' @ firstLine (ed_Summary ev))
                else hub_Write ''err'' (''MISS '' @ ed_RuleID ev @ '' '' @ em_dash_bytes @ '' no new alert yet''))"

definition reset_evidence :: Evidence where
  "reset_evidence = zero_Evidence\<lparr>ed_Detected := True, ed_Title := ''Lab reset'',
     ed_Summary := ''Kill-chain artifacts cleared. Ready for a fresh run.'',
     ed_Bullets := [''Cleared webshell drops under docker/rce'', ''Restored ld.so.preload / lab SSH keys if present'']\<rparr>"

definition print_header :: "StepDef \<Rightarrow> termHub \<Rightarrow> termHub" where
  "print_header d hub =
     hub_Write ''cmd'' (''root@victim# '' @ sd_RemoteCmd d)
       (hub_Write ''meta'' (double_bars @ '' '' @ sd_Title d @ '' '' @ double_bars) (hub_Write ''meta'' [] hub))"

text \<open>
  After the claim: the counts, the command, the wait and the verdict. The result is the step's new state and the error that is returned,
  \<open>None\<close> while it polls.
\<close>

definition run_claimed :: "jsonlib \<Rightarrow> run_io \<Rightarrow> nat \<Rightarrow> demoEngine \<times> termHub \<Rightarrow> ((StepState \<times> string option) \<times> demoEngine \<times> termHub) option" where
  "run_claimed jl io k st =
     (let (eng, hub) = st; d = st_Def (de_steps eng ! k); rules = sd_RuleIDs d; before = esCount (io_before io);
          hub1 = print_header d hub;
          hub2 = (if sd_ExpectRules d
                  then print_counts before rules (hub_Write ''meta'' (''snapshot ES counts before trigger'' @ ellipsis) hub1) else hub1);
          hub3 = stream_output (io_chunks io) hub2; out = concat (io_chunks io); eng1 = set_log k out eng
      in case io_err io of
           Some err \<Rightarrow>
             (let eng2 = fail_step k err out (io_ended io) eng1
              in Some ((de_steps eng2 ! k, Some err), release eng2, hub_Write ''err'' (''exit: '' @ err) hub3))
         | None \<Rightarrow>
             (let hub4 = hub_Write ''meta'' ''command finished (exit 0)'' hub3
              in if \<not> sd_ExpectRules d then
                   (let eng2 = finish_step k StatusOK [reset_evidence] (io_ended io) eng1
                    in Some ((de_steps eng2 ! k, None), release eng2, hub_Write ''meta'' (''lab artifacts cleared '' @ em_dash_bytes @ '' ready for next act'') hub4))
                 else
                   (let hub5 = hub_Write ''meta'' (''waiting for GhostCatcher '' @ arrow_bytes @ '' Elasticsearch alerts'' @ ellipsis) hub4
                    in case waitEvidence jl rules before (sd_WaitSecs d) (io_waitFrom io) (io_polls io) hub5 of
                         None \<Rightarrow> None
                       | Some (evs, hub6) \<Rightarrow>
                           (let eng2 = finish_step k (if list_all ed_Detected evs then StatusDetected else StatusMissed) evs (io_ended io) eng1
                            in Some ((de_steps eng2 ! k, None), release eng2, print_verdicts evs hub6)))))"

definition runStep :: "jsonlib \<Rightarrow> run_io \<Rightarrow> string \<Rightarrow> demoEngine \<times> termHub \<Rightarrow> ((step_error + StepState \<times> string option) \<times> demoEngine \<times> termHub) option" where
  "runStep jl io i st =
     (case begin_step i (io_started io) (fst st) of
        (Inl e, eng) \<Rightarrow> Some (Inl e, eng, snd st)
      | (Inr k, eng) \<Rightarrow> map_option (\<lambda>(r, st'). (Inr r, st')) (run_claimed jl io k (eng, snd st)))"

section \<open>Handlers\<close>

text \<open>\<^verbatim>\<open>POST /api/steps/{id}/run\<close>: a refused run is a conflict, a failed command is still answered with the step's state.\<close>

definition step_error_text :: "step_error \<Rightarrow> string" where
  "step_error_text e = (case e of AnotherRunning \<Rightarrow> ''another step is already running'' | UnknownStep i \<Rightarrow> ''unknown step '' @ Quote i)"

datatype reply = Conflict string | StepReply StepState | RunAllReply bool "StepState option list" string

definition handle_run :: "step_error + StepState \<times> string option \<Rightarrow> reply" where
  "handle_run r =
     (case r of
        Inl e \<Rightarrow> Conflict (step_error_text e)
      | Inr (s, err) \<Rightarrow> (case err of Some m \<Rightarrow> if sd_ID (st_Def s) = [] then Conflict m else StepReply s | None \<Rightarrow> StepReply s))"

text \<open>\<^verbatim>\<open>POST /api/run-all\<close>: the steps in order, up to the first one after the reset that is refused or whose command fails.\<close>

definition run_all_steps :: "bool \<Rightarrow> demoEngine \<Rightarrow> string list" where
  "run_all_steps scope_all eng = (if scope_all then map (\<lambda>s. sd_ID (st_Def s)) (de_steps eng) else kill_chain_order)"

definition run_error :: "step_error + StepState \<times> string option \<Rightarrow> string option" where
  "run_error r = (case r of Inl e \<Rightarrow> Some (step_error_text e) | Inr (s, err) \<Rightarrow> err)"

definition run_state :: "step_error + StepState \<times> string option \<Rightarrow> StepState option" where
  "run_state r = (case r of Inl _ \<Rightarrow> None | Inr (s, _) \<Rightarrow> Some s)"

fun run_all :: "jsonlib \<Rightarrow> (string \<Rightarrow> run_io) \<Rightarrow> string list \<Rightarrow> StepState option list \<Rightarrow> demoEngine \<times> termHub \<Rightarrow> (reply \<times> demoEngine \<times> termHub) option" where
  "run_all jl ios [] results st = Some (RunAllReply True results [], st)"
| "run_all jl ios (i # order) results st =
     (case runStep jl (ios i) i st of
        None \<Rightarrow> None
      | Some (r, st') \<Rightarrow>
          (case run_error r of
             Some m \<Rightarrow> if i \<noteq> ''reset'' then Some (RunAllReply False (results @ [run_state r]) m, st')
                       else run_all jl ios order (results @ [run_state r]) st'
           | None \<Rightarrow> run_all jl ios order (results @ [run_state r]) st'))"

text \<open>The health map: fixed entries first, then every line of the form \<^verbatim>\<open>key=value\<close> of the output.\<close>

datatype health_value = HealthText string | HealthBool bool

definition health_lines :: "string \<Rightarrow> (string \<times> health_value) list" where
  "health_lines out =
     concat (map (\<lambda>l. let s = TrimSpace l in case IndexByte s (CHR ''='') of None \<Rightarrow> [] | Some i \<Rightarrow> [(take i s, HealthText (drop (Suc i) s))])
       (SplitByte out (CHR 0x0A)))"

definition health :: "string list \<Rightarrow> string option \<Rightarrow> demoEngine \<Rightarrow> termHub \<Rightarrow> (string, health_value) gomap \<times> termHub" where
  "health chunks err eng hub =
     (let out = concat chunks;
          hub1 = hub_Write ''cmd'' (''root@victim# systemctl is-active '' @ ellipsis @ ''; curl WP/ES'')
                   (hub_Write ''meta'' (double_bars @ '' host check '' @ double_bars) (hub_Write ''meta'' [] hub));
          hub2 = stream_output chunks hub1;
          h0 = [(''target'', HealthText (de_target eng)), (''ssh'', HealthBool (err = None)), (''raw'', HealthText (TrimSpace out))];
          h1 = (case err of None \<Rightarrow> h0 | Some m \<Rightarrow> gput ''error'' (HealthText m) h0);
          hub3 = (case err of None \<Rightarrow> hub_Write ''meta'' ''host check done'' hub2 | Some m \<Rightarrow> hub_Write ''err'' (''health check failed: '' @ m) hub2)
      in (fold (\<lambda>(k, v). gput k v) (health_lines out) h1, hub3))"

section \<open>The remote host\<close>

definition ssh_target :: "string \<Rightarrow> string \<times> string" where
  "ssh_target target =
     (let (user, host) = (case IndexByte target (CHR ''@'') of None \<Rightarrow> (''root'', target) | Some i \<Rightarrow> (take i target, drop (Suc i) target))
      in (user, if CHR '':'' \<in> set host then host else JoinHostPort host ''22''))"

definition expandHome :: "string option \<Rightarrow> string \<Rightarrow> string" where
  "expandHome home p = (if HasPrefix p ''~/'' then (case home of Some h \<Rightarrow> PathJoin [h, drop 2 p] | None \<Rightarrow> p) else p)"

datatype dial_error = ReadKeyFailed | ParseKeyFailed | DialFailed

definition dialSSH :: "string option \<Rightarrow> (string \<Rightarrow> string option) \<Rightarrow> (string \<Rightarrow> bool) \<Rightarrow> (string \<Rightarrow> string \<Rightarrow> bool) \<Rightarrow> string \<Rightarrow> string \<Rightarrow> dial_error + string" where
  "dialSSH home readFile parses dials target keyPath =
     (let (user, host) = ssh_target target
      in case readFile (expandHome home keyPath) of
           None \<Rightarrow> Inl ReadKeyFailed
         | Some key \<Rightarrow> if \<not> parses key then Inl ParseKeyFailed else if \<not> dials user host then Inl DialFailed else Inr target)"

text \<open>What \<^verbatim>\<open>main\<close> sets up once the connection is there.\<close>

definition env_or :: "string \<Rightarrow> string \<Rightarrow> string" where
  "env_or v def = (if v = [] then def else v)"

definition console_start :: "string \<Rightarrow> demoEngine \<times> termHub" where
  "console_start target =
     (newEngine target,
      hub_Write ''meta'' (''click a step '' @ em_dash_bytes @ '' commands and remote output stream here'')
        (hub_Write ''meta'' (''connected via SSH '' @ arrow_bytes @ '' '' @ target) newTermHub))"

section \<open>What a run establishes\<close>

lemma find_step_Some: "find_step i ss = Some k \<Longrightarrow> k < length ss \<and> sd_ID (st_Def (ss ! k)) = i"
  by (induction ss arbitrary: k) (auto split: if_splits)

lemma find_step_None: "find_step i ss = None \<longleftrightarrow> i \<notin> (\<lambda>s. sd_ID (st_Def s)) ` set ss"
  by (induction ss) auto

lemma on_step_simps [simp]:
  "length (de_steps (on_step k f eng)) = length (de_steps eng)" "de_busy (on_step k f eng) = de_busy eng" "de_target (on_step k f eng) = de_target eng"
  "k < length (de_steps eng) \<Longrightarrow> de_steps (on_step k f eng) ! k = f (de_steps eng ! k)"
  "j \<noteq> k \<Longrightarrow> de_steps (on_step k f eng) ! j = de_steps eng ! j"
  by (simp_all add: on_step_def)

lemma release_simps [simp]: "de_steps (release eng) = de_steps eng" "\<not> de_busy (release eng)" "de_target (release eng) = de_target eng"
  by (simp_all add: release_def)

text \<open>A new alert for a rule, as one round sees it.\<close>

definition new_alert :: "jsonlib \<Rightarrow> (string \<Rightarrow> int) \<Rightarrow> string \<Rightarrow> poll \<Rightarrow> bool" where
  "new_alert jl before r po \<longleftrightarrow>
     (case po_search po r of None \<Rightarrow> False | Some raw \<Rightarrow> ed_Detected (parseESLatest jl r raw)) \<and> before r < esCount (po_count po) r"

definition backed :: "jsonlib \<Rightarrow> (string \<Rightarrow> int) \<Rightarrow> string list \<Rightarrow> poll set \<Rightarrow> Evidence list \<Rightarrow> bool" where
  "backed jl before rules P evs \<longleftrightarrow> length evs = length rules \<and>
     (\<forall>i < length rules. ed_RuleID (evs ! i) = rules ! i \<and> (ed_Detected (evs ! i) \<longrightarrow> (\<exists>po \<in> P. new_alert jl before (rules ! i) po)))"

lemma parseESLatest_rule [simp]: "ed_RuleID (parseESLatest jl r raw) = r"
  by (simp add: parseESLatest_def Let_def split: option.splits list.splits)

lemma poll_rule_update:
  assumes "poll_rule jl before deadline po (i, r) (evs, fresh, lastP, hub) = (evs', fresh', lastP', hub')"
  shows "evs' = evs \<and> \<not> fresh' \<or>
    (\<exists>ev. evs' = evs[i := ev] \<and> ed_RuleID ev = r \<and> (ed_Detected ev \<longrightarrow> new_alert jl before r po) \<and> (fresh' \<longrightarrow> fresh \<and> ed_Detected ev))"
proof (cases "po_search po r")
  case (Some raw)
  let ?ev = "parseESLatest jl r raw" and ?n = "esCount (po_count po) r"
  show ?thesis
  proof (cases "?n \<le> before r")
    case True
    let ?ev' = "?ev\<lparr>ed_Detected := False, ed_Summary := ''No new '' @ r @ '' alert yet (count still '' @ Itoa ?n @ '').'', ed_Bullets := []\<rparr>"
    have "evs' = evs[i := ?ev'] \<and> \<not> fresh'" using assms Some True by (auto simp: poll_rule_def Let_def split: prod.splits if_splits)
    then show ?thesis by (intro disjI2 exI [of _ ?ev']) simp
  next
    case False
    then have "evs' = evs[i := ?ev] \<and> fresh' = (fresh \<and> ed_Detected ?ev)" using assms Some by (simp add: poll_rule_def Let_def)
    then show ?thesis using False Some by (intro disjI2 exI [of _ ?ev]) (simp add: new_alert_def)
  qed
qed (use assms in \<open>simp add: poll_rule_def\<close>)

lemma poll_rule_backed:
  assumes "backed jl before rules P evs" "po \<in> P" "i < length rules" "poll_rule jl before deadline po (i, rules ! i) (evs, fresh, lastP, hub) = (evs', fresh', lastP', hub')"
  shows "backed jl before rules P evs'" and "fresh' \<Longrightarrow> fresh \<and> ed_Detected (evs' ! i)" and "j \<noteq> i \<Longrightarrow> evs' ! j = evs ! j"
  using assms(1-3) poll_rule_update [OF assms(4)] by (auto simp: backed_def nth_list_update split: if_splits)

lemma poll_rules_backed:
  assumes "backed jl before rules P evs" "po \<in> P" "distinct (map fst irs)" "\<forall>(i, r) \<in> set irs. i < length rules \<and> r = rules ! i"
    and "fold (poll_rule jl before deadline po) irs (evs, fresh, lastP, hub) = (evs', fresh', lastP', hub')"
  shows "backed jl before rules P evs' \<and> (fresh' \<longrightarrow> fresh \<and> (\<forall>i \<in> fst ` set irs. ed_Detected (evs' ! i))) \<and> (\<forall>j. j \<notin> fst ` set irs \<longrightarrow> evs' ! j = evs ! j)"
  using assms
proof (induction irs arbitrary: evs fresh lastP hub)
  case (Cons ir irs)
  obtain i where ir: "ir = (i, rules ! i)" "i < length rules" using Cons.prems(4) by (cases ir) auto
  obtain evs1 fresh1 last1 hub1 where p: "poll_rule jl before deadline po (i, rules ! i) (evs, fresh, lastP, hub) = (evs1, fresh1, last1, hub1)"
    by (metis prod_cases4)
  note b = poll_rule_backed [OF Cons.prems(1,2) ir(2) p]
  have i: "i \<notin> fst ` set irs" using Cons.prems(3) ir by simp
  have "backed jl before rules P evs' \<and> (fresh' \<longrightarrow> fresh1 \<and> (\<forall>i \<in> fst ` set irs. ed_Detected (evs' ! i))) \<and> (\<forall>j. j \<notin> fst ` set irs \<longrightarrow> evs' ! j = evs1 ! j)"
    using Cons.IH [OF b(1) Cons.prems(2), of fresh1 last1 hub1] Cons.prems(3-5) ir(1) p by auto
  then show ?case using b(2,3) i ir(1) by auto
qed simp

lemma poll_round_backed:
  assumes "backed jl before rules P evs" "po \<in> P" "poll_round jl before deadline rules po (evs, lastP, hub) = (evs', fresh, lastP', hub')"
  shows "backed jl before rules P evs'" and "fresh \<Longrightarrow> list_all ed_Detected evs'"
proof -
  have z: "fst ` set (zip [0..<length rules] rules) = {0..<length rules}" by (simp flip: set_map)
  have d: "distinct (map fst (zip [0..<length rules] rules))" by simp
  have e: "\<forall>(i, r) \<in> set (zip [0..<length rules] rules). i < length rules \<and> r = rules ! i" by (auto simp: set_zip)
  have f: "fold (poll_rule jl before deadline po) (zip [0..<length rules] rules) (evs, True, lastP, hub) = (evs', fresh, lastP', hub')"
    using assms(3) by (simp add: poll_round_def)
  have "backed jl before rules P evs' \<and> (fresh \<longrightarrow> (\<forall>i \<in> {0..<length rules}. ed_Detected (evs' ! i)))"
    using poll_rules_backed [OF assms(1,2) d e f] unfolding z by simp
  then show "backed jl before rules P evs'" "fresh \<Longrightarrow> list_all ed_Detected evs'"
    by (auto simp: backed_def list_all_length)
qed

lemma wait_loop_backed:
  "wait_loop jl before deadline rules pos st = Some (evs, hub) \<Longrightarrow> set pos \<subseteq> P \<Longrightarrow> backed jl before rules P (fst st) \<Longrightarrow> backed jl before rules P evs"
proof (induction pos arbitrary: st)
  case (Cons po pos)
  obtain evs0 last0 hub0 where st: "st = (evs0, last0, hub0)" by (metis prod_cases3)
  obtain evs1 fresh last1 hub1 where r: "poll_round jl before deadline rules po (evs0, last0, hub0) = (evs1, fresh, last1, hub1)" by (metis prod_cases4)
  have b: "backed jl before rules P evs1" using poll_round_backed(1) [OF _ _ r] Cons.prems(2,3) st by auto
  show ?case using Cons.IH [of "(evs1, last1, hub1)"] Cons.prems b by (auto simp: st r split: if_splits)
qed simp

text \<open>The loop ends no later than the first round that starts after the deadline.\<close>

lemma wait_loop_ends: "list_ex (\<lambda>po. deadline \<le> po_now po) pos \<Longrightarrow> \<exists>x. wait_loop jl before deadline rules pos st = Some x"
  by (induction pos arbitrary: st) (auto split: prod.splits)

lemma waitEvidence_backed:
  assumes "waitEvidence jl rules before secs start pos hub = Some (evs, hub')"
  shows "backed jl before rules (set pos) evs"
proof -
  have "backed jl before rules (set pos) (map waiting rules)" by (simp add: backed_def waiting_def zero_Evidence_def)
  then show ?thesis using wait_loop_backed [OF assms [unfolded waitEvidence_def] order_refl] by simp
qed

text \<open>The claimed step, before and after its run.\<close>

lemma run_claimed_outcome:
  assumes "run_claimed jl io k (eng, hub) = Some ((s, err), eng', hub')" "k < length (de_steps eng)"
  defines "d \<equiv> st_Def (de_steps eng ! k)"
  shows "s = de_steps eng' ! k" "st_Def s = d" "err = io_err io" "\<not> de_busy eng'" "length (de_steps eng') = length (de_steps eng)"
    and "j \<noteq> k \<Longrightarrow> de_steps eng' ! j = de_steps eng ! j" and "st_Log s = trim_text (concat (io_chunks io)) 4000"
    and "st_Status s =
      (if io_err io \<noteq> None then StatusError else if \<not> sd_ExpectRules d then StatusOK
       else if list_all ed_Detected (st_Evidence s) then StatusDetected else StatusMissed)"
    and "io_err io = None \<Longrightarrow> sd_ExpectRules d \<Longrightarrow> backed jl (esCount (io_before io)) (sd_RuleIDs d) (set (io_polls io)) (st_Evidence s)"
  using assms
  by (auto simp: run_claimed_def Let_def set_log_def fail_step_def finish_step_def d_def
      dest: waitEvidence_backed split: option.splits if_splits prod.splits)

text \<open>A run returns once a round starts after the deadlines of all steps.\<close>

definition out_of_time :: "run_io \<Rightarrow> demoEngine \<Rightarrow> bool" where
  "out_of_time io eng \<longleftrightarrow>
     list_ex (\<lambda>po. list_all (\<lambda>s. io_waitFrom io + wrap64 (sd_WaitSecs (st_Def s) * second) \<le> po_now po) (de_steps eng)) (io_polls io)"

lemma run_claimed_returns: "out_of_time io eng \<Longrightarrow> k < length (de_steps eng) \<Longrightarrow> \<exists>x. run_claimed jl io k (eng, hub) = Some x"
proof -
  assume late: "out_of_time io eng" and k: "k < length (de_steps eng)"
  let ?d = "st_Def (de_steps eng ! k)"
  have "list_ex (\<lambda>po. io_waitFrom io + wrap64 (sd_WaitSecs ?d * second) \<le> po_now po) (io_polls io)"
    using late k by (auto simp: out_of_time_def list_ex_iff list_all_length)
  then have w: "\<exists>x. waitEvidence jl rules before (sd_WaitSecs ?d) (io_waitFrom io) (io_polls io) h = Some x" for rules before h
    unfolding waitEvidence_def by (rule wait_loop_ends)
  show ?thesis using w by (auto simp: run_claimed_def Let_def split: option.splits) (metis not_Some_eq)+
qed

lemma runStep_returns: "out_of_time io eng \<Longrightarrow> \<exists>r eng' hub'. runStep jl io i (eng, hub) = Some (r, eng', hub')"
proof -
  assume late: "out_of_time io eng"
  obtain b eng1 where b: "begin_step i (io_started io) eng = (b, eng1)" by (cases "begin_step i (io_started io) eng")
  show ?thesis
  proof (cases b)
    case (Inr k)
    then have "find_step i (de_steps eng) = Some k" and e: "eng1 = on_step k (\<lambda>s. s\<lparr>st_Status := StatusRunning, st_Error := [], st_Log := [],
        st_Evidence := [], st_UpdatedAt := io_started io\<rparr>) (eng\<lparr>de_busy := True\<rparr>)"
      using b by (auto simp: begin_step_def split: if_splits option.splits)
    then have k: "k < length (de_steps eng)" using find_step_Some by blast
    have "out_of_time io eng1" using late k by (auto simp: e out_of_time_def on_step_def list_ex_iff list_all_length nth_list_update)
    moreover have "k < length (de_steps eng1)" using k by (simp add: e on_step_def)
    ultimately obtain x where "run_claimed jl io k (eng1, hub) = Some x" using run_claimed_returns by blast
    then show ?thesis using b Inr by (cases x) (simp add: runStep_def)
  qed (simp add: runStep_def b)
qed


definition sample_json :: jsonlib where
  "sample_json = \<lparr>jl_hits = (\<lambda>raw. Some [[(''severity'', JStr ''high'')]]), jl_sprint = (\<lambda>v. []), jl_showTime = (\<lambda>s. None)\<rparr>"

definition counting :: "string \<Rightarrow> string" where "counting n = [CHR 0x7B] @ count_key @ n @ [CHR 0x7D]"

definition sample_run :: "(string \<Rightarrow> string option) \<Rightarrow> run_io" where
  "sample_run before = \<lparr>io_started = ''a'', io_ended = ''b'', io_before = before, io_chunks = [''do'', ''ne''], io_err = None, io_waitFrom = 0,
     io_polls = [\<lparr>po_now = 1, po_search = (\<lambda>r. Some []), po_count = (\<lambda>r. Some (counting ''5'')), po_times = (\<lambda>r. (1, 1, 1))\<rparr>,
       \<lparr>po_now = 100 * second, po_search = (\<lambda>r. None), po_count = (\<lambda>r. None), po_times = (\<lambda>r. (1, 1, 1))\<rparr>]\<rparr>"

definition status_of :: "((step_error + StepState \<times> string option) \<times> demoEngine \<times> termHub) option \<Rightarrow> stepStatus option" where
  "status_of x = (case x of Some (Inr (s, _), _) \<Rightarrow> Some (st_Status s) | _ \<Rightarrow> None)"

definition one_step :: demoEngine where
  "one_step = (newEngine ''t'')\<lparr>de_steps := [\<lparr>st_Def = step_def ''cron'' [] [] [] [''CRON_HIGH_RISK''] [] 90 True, st_Status = StatusIdle, st_Log = [],
     st_Error = [], st_Evidence = [], st_UpdatedAt = []\<rparr>]\<rparr>"

lemma sample_counts: "parse_count (counting ''4'') = 4" "parse_count (counting ''5'') = 5"
  by code_simp+

lemma sample_status: "before ''CRON_HIGH_RISK'' = None \<or> before ''CRON_HIGH_RISK'' = Some (counting ''4'') \<Longrightarrow>
    status_of (runStep sample_json (sample_run before) ''cron'' (one_step, newTermHub)) = Some StatusDetected"
  by (auto simp: status_of_def runStep_def begin_step_def one_step_def step_def_def on_step_def run_claimed_def set_log_def finish_step_def
      sample_run_def sample_json_def waitEvidence_def poll_round_def poll_rule_def esCount_def sample_counts parseESLatest_def Let_def duration_defs
      wrap64_def waiting_def zero_Evidence_def newEngine_def)


text \<open>
  A count query that fails before the command counts as zero, so an alert from an earlier run is taken for a new one: here the count is 5
  before and after.
\<close>

lemma stale_alert_detected: "status_of (runStep sample_json (sample_run (\<lambda>r. None)) ''cron'' (one_step, newTermHub)) = Some StatusDetected"
  by (rule sample_status) simp

section \<open>Concurrent requests\<close>

text \<open>
  Requests run in goroutines of their own. A run that was let in is a caller: the step it claimed and whether it has set the final status.
  Between its sections under the lock, other requests take their steps.
\<close>

inductive engine_step :: "demoEngine \<times> (nat \<times> bool) list \<Rightarrow> demoEngine \<times> (nat \<times> bool) list \<Rightarrow> bool" where
  claimed: "begin_step i stamp eng = (Inr k, eng') \<Longrightarrow> engine_step (eng, cs) (eng', (k, False) # cs)"
| refused: "begin_step i stamp eng = (Inl e, eng') \<Longrightarrow> engine_step (eng, cs) (eng', cs)"
| logged: "(k, False) \<in> set cs \<Longrightarrow> engine_step (eng, cs) (set_log k out eng, cs)"
| failed: "cs = xs @ (k, False) # ys \<Longrightarrow> engine_step (eng, cs) (fail_step k err out stamp eng, xs @ (k, True) # ys)"
| finished: "cs = xs @ (k, False) # ys \<Longrightarrow> status \<in> {StatusOK, StatusDetected, StatusMissed} \<Longrightarrow>
    engine_step (eng, cs) (finish_step k status evs stamp eng, xs @ (k, True) # ys)"
| released: "cs = xs @ (k, True) # ys \<Longrightarrow> engine_step (eng, cs) (release eng, xs @ ys)"

definition running_at :: "demoEngine \<Rightarrow> nat \<Rightarrow> bool" where
  "running_at eng j \<longleftrightarrow> j < length (de_steps eng) \<and> st_Status (de_steps eng ! j) = StatusRunning"

definition engine_inv :: "demoEngine \<times> (nat \<times> bool) list \<Rightarrow> bool" where
  "engine_inv ec \<longleftrightarrow>
     (case ec of (eng, cs) \<Rightarrow>
        map (st_Def) (de_steps eng) = allStepDefs \<and>
        (cs = [] \<and> \<not> de_busy eng \<and> (\<forall>j. \<not> running_at eng j) \<or>
         (\<exists>k f. cs = [(k, f)] \<and> de_busy eng \<and> k < length (de_steps eng) \<and> (\<forall>j. running_at eng j \<longleftrightarrow> j = k \<and> \<not> f))))"

lemma defs_on_step:
  assumes "\<And>s. st_Def (g s) = st_Def s"
  shows "map st_Def (de_steps (on_step k g eng)) = map st_Def (de_steps eng)"
proof (cases "k < length (de_steps eng)")
  case True
  then have "st_Def (g (de_steps eng ! k)) = map st_Def (de_steps eng) ! k" using assms by simp
  then show ?thesis by (simp add: on_step_def map_update)
qed (simp add: on_step_def list_update_beyond)

text \<open>A caller that changes its own step and may end its run.\<close>

lemma engine_inv_on_step:
  assumes "engine_inv (eng, [(k, f)])" "\<And>s. st_Def (g s) = st_Def s" "st_Status (g (de_steps eng ! k)) = StatusRunning \<longleftrightarrow> \<not> f'"
  shows "engine_inv (on_step k g eng, [(k, f')])"
proof -
  have k: "k < length (de_steps eng)" "de_busy eng" and r: "running_at eng j \<longleftrightarrow> j = k \<and> \<not> f" for j using assms(1) by (auto simp: engine_inv_def)
  have "running_at (on_step k g eng) j \<longleftrightarrow> j = k \<and> \<not> f'" for j
    using k assms(3) r [of j] by (cases "j = k") (simp_all add: running_at_def)
  then show ?thesis using assms(1) k defs_on_step [of g k eng] assms(2) by (simp add: engine_inv_def)
qed

lemma engine_inv_caller: "engine_inv (eng, cs) \<Longrightarrow> (k, f) \<in> set cs \<Longrightarrow> cs = [(k, f)]"
  by (auto simp: engine_inv_def)

lemma engine_inv_callers: "engine_inv (eng, xs @ (k, f) # ys) \<Longrightarrow> xs = [] \<and> ys = []"
  by (auto simp: engine_inv_def append_eq_Cons_conv)

lemma engine_inv_step:
  assumes "engine_step ec ec'" "engine_inv ec"
  shows "engine_inv ec'"
  using assms(1)
proof (cases rule: engine_step.cases)
  case (claimed i stamp eng k eng' cs)
  let ?g = "\<lambda>s. s\<lparr>st_Status := StatusRunning, st_Error := [], st_Log := [], st_Evidence := [], st_UpdatedAt := stamp\<rparr>"
  have e: "eng' = on_step k ?g (eng\<lparr>de_busy := True\<rparr>)" "\<not> de_busy eng" "k < length (de_steps eng)"
    using claimed(3) find_step_Some by (auto simp: begin_step_def split: if_splits option.splits)
  have q: "cs = []" "\<not> running_at eng j" "map st_Def (de_steps eng) = allStepDefs" for j using assms(2) e(2) claimed(1) by (auto simp: engine_inv_def)
  have "running_at eng' j \<longleftrightarrow> j = k" for j using q(2) [of j] e(3) by (cases "j = k") (simp_all add: e(1) running_at_def)
  then show ?thesis using q e(3) defs_on_step [of ?g k "eng\<lparr>de_busy := True\<rparr>"] by (simp add: engine_inv_def claimed(2) e(1)) blast
next
  case (refused i stamp eng e eng' cs)
  then have "eng' = eng" by (auto simp: begin_step_def split: if_splits option.splits)
  then show ?thesis using assms(2) refused by simp
next
  case (logged k cs eng out)
  have c: "cs = [(k, False)]" using engine_inv_caller assms(2) logged by blast
  then have "running_at eng k" using assms(2) logged(1) by (auto simp: engine_inv_def)
  then show ?thesis using assms(2) unfolding logged set_log_def c by (intro engine_inv_on_step) (simp_all add: running_at_def)
next
  case (failed cs xs k ys eng err out stamp)
  have c: "xs = []" "ys = []" using engine_inv_callers assms(2) failed(1,3) by blast+
  then show ?thesis using assms(2) failed(1,3) unfolding failed(2) fail_step_def by simp (rule engine_inv_on_step, auto)
next
  case (finished cs xs k ys status eng evs stamp)
  have c: "xs = []" "ys = []" using engine_inv_callers assms(2) finished(1,3) by blast+
  then show ?thesis using assms(2) finished(1,3,4) unfolding finished(2) finish_step_def by simp (rule engine_inv_on_step, auto)
next
  case (released cs xs k ys eng)
  have c: "xs = []" "ys = []" using engine_inv_callers assms(2) released(1,3) by blast+
  moreover have "running_at (release eng) j = running_at eng j" for j by (simp add: running_at_def)
  ultimately show ?thesis using assms(2) released by (auto simp: engine_inv_def)
qed

lemma engine_inv_reachable: "engine_step\<^sup>*\<^sup>* (newEngine target, []) ec \<Longrightarrow> engine_inv ec"
proof (induction rule: rtranclp_induct)
  case base
  show ?case by (auto simp: engine_inv_def newEngine_def running_at_def comp_def)
qed (rule engine_inv_step)

text \<open>
  C36. One lab step at a time. However the requests of the console interleave, at most one run is under way, the engine is busy exactly
  then, and the steps shown as running are exactly those of a run that has not ended; the list of steps itself never changes.
\<close>

theorem one_step_at_a_time:
  assumes "engine_step\<^sup>*\<^sup>* (newEngine target, []) (eng, cs)"
  shows "length cs \<le> 1 \<and> de_busy eng = (cs \<noteq> []) \<and> map st_Def (de_steps eng) = allStepDefs \<and>
    filter (running_at eng) [0..<length (de_steps eng)] = map fst (filter (\<lambda>(k, f). \<not> f) cs)"
proof -
  note i = engine_inv_reachable [OF assms]
  have one: "filter (\<lambda>j. j = k) [0..<n] = [k]" if "k < n" for k n :: nat
    using that by (induction n) (auto simp: less_Suc_eq)
  show ?thesis
  proof (cases cs)
    case Nil
    then show ?thesis using i by (auto simp: engine_inv_def)
  next
    case (Cons c cs')
    then obtain k f where c: "cs = [(k, f)]" "k < length (de_steps eng)" "\<And>j. running_at eng j \<longleftrightarrow> j = k \<and> \<not> f" and b: "de_busy eng" "map st_Def (de_steps eng) = allStepDefs"
      using i by (auto simp: engine_inv_def)
    have "running_at eng = (\<lambda>j. j = k \<and> \<not> f)" using c(3) by blast
    then show ?thesis using c(1) b one [OF c(2)] by (cases f) simp_all
  qed
qed

theorem one_step_at_a_time_witness:
  "\<exists>eng. engine_step\<^sup>*\<^sup>* (newEngine ''t'', []) (eng, [(0, False)]) \<and> de_busy eng \<and> filter (running_at eng) [0..<length (de_steps eng)] = [0]"
proof -
  have "find_step ''reset'' (de_steps (newEngine ''t'')) = Some 0" by code_simp
  then obtain eng where "begin_step ''reset'' [] (newEngine ''t'') = (Inr 0, eng)" by (simp add: begin_step_def newEngine_def)
  then have r: "engine_step\<^sup>*\<^sup>* (newEngine ''t'', []) (eng, [(0, False)])" by (intro r_into_rtranclp engine_step.claimed)
  then show ?thesis using one_step_at_a_time [OF r] by auto
qed

end
