(* ===== verification/Spec2Isabelle.thy ===== *)
theory Spec2Isabelle
  imports GC_Expr_Roundtrip GC_Vault GC_Export GC_Main GC_EBPF GC_Demo
begin

text \<open>
  GhostCatcher is a host agent that finds intrusions on a Linux machine and, when it is told to,
  responds to them. This development models the agent, written in Go under \<^verbatim>\<open>src/internal\<close> and
  \<^verbatim>\<open>src/cmd\<close>, and proves what the parts promise each other.

  \<^bold>\<open>How the program works.\<close> Detectors look at the host, either in periodic scans or for each record
  of a live sensor, and produce events. The runner takes each event through one pipeline: it is
  enriched with process, container, taxonomy and indicator data, its rule's precondition is
  evaluated, it is correlated with recent events, the response engine may act on the host, and the
  event is then suppressed as a duplicate, held back by a rate limit, or written to the output, the
  sinks and, if a sink fails, the spool. The agent runs several loops over one runner: periodic
  scans, file watchers that trigger light scans, the consumer of sensor records, credential
  snapshots and the watchdog. A console for demonstrations runs attack scenarios on a lab host and
  waits for the agent's alerts.

  \<^bold>\<open>Which theory models what.\<close> A Go struct is a record with the same fields (prefixed by a short
  name of the type), a function or method is a definition of the same name, an error is a value of
  an error datatype, and a pointer receiver is state passed in and returned.

  \<^item> \<open>GC_Prelude\<close>: 64-bit wrap-around, times and durations, the functions of \<^verbatim>\<open>strings\<close> and
    \<^verbatim>\<open>strconv\<close> the agent uses, and Go maps as association lists.
  \<^item> \<open>GC_Event\<close>: \<^verbatim>\<open>event/event.go\<close>, the event record and its deduplication key.
  \<^item> \<open>GC_Expr\<close>, \<open>GC_Expr_Parse\<close>, \<open>GC_Expr_Roundtrip\<close>: \<^verbatim>\<open>rules/expr.go\<close>, the rule expression
    language. Type soundness of evaluation, termination of the parser, and the round trip of a
    printer that is part of the development only.
  \<^item> \<open>GC_Rules\<close>: \<^verbatim>\<open>rules/pack.go\<close>, \<^verbatim>\<open>engine.go\<close>, \<^verbatim>\<open>verify.go\<close>, rule packs, their merge (a locale
    for rule stores), scoring and signatures.
  \<^item> \<open>GC_Sigma\<close>: \<^verbatim>\<open>rules/sigma_lite.go\<close>, Sigma documents as rules, and what the rules mean.
  \<^item> \<open>GC_Gate\<close>: the contract of a sliding-window gate as a locale, with the lemmas every gate shares;
    \<open>GC_Limiter\<close> (\<^verbatim>\<open>emit/limiter.go\<close>), \<open>GC_Sensor\<close> (debouncer), \<open>GC_Respond\<close> (action rate limit) and
    \<open>GC_Pipeline\<close> (duplicate check) interpret it.
  \<^item> \<open>GC_Spool\<close>: \<^verbatim>\<open>emit/spool.go\<close> with the failures of each system call, and \<^verbatim>\<open>budget/budget.go\<close>.
  \<^item> \<open>GC_Taxonomy\<close>: \<^verbatim>\<open>killchain/killchain.go\<close> and \<^verbatim>\<open>taxonomy/taxonomy.go\<close>.
  \<^item> \<open>GC_Correlator\<close>: \<^verbatim>\<open>runner/correlation.go\<close>.
  \<^item> \<open>GC_Config\<close>: \<^verbatim>\<open>config/config.go\<close>.
  \<^item> \<open>GC_Respond\<close>: \<^verbatim>\<open>respond/respond.go\<close>, \<^verbatim>\<open>kill_linux.go\<close>, \<^verbatim>\<open>isolate_linux.go\<close>.
  \<^item> \<open>GC_Procfs\<close>, \<open>GC_Anchor\<close>: the readers of \<^verbatim>\<open>procfs\<close>, \<^verbatim>\<open>container\<close> and \<^verbatim>\<open>anchor\<close>.
  \<^item> \<open>GC_Sensor\<close>: \<^verbatim>\<open>sensor\<close>, the choice of backend, the debouncer, the audit log reader;
    \<open>GC_EBPF\<close>: \<^verbatim>\<open>sensor/ebpf_linux.go\<close>, what it opens and closes, and the draining of its ring buffer.
  \<^item> \<open>GC_Privesc\<close>: \<^verbatim>\<open>detect/privesc\<close>, the sudden-root detector and its tracker.
  \<^item> \<open>GC_Intel\<close>: \<^verbatim>\<open>ioc/ioc.go\<close>, \<^verbatim>\<open>baseline\<close>, \<^verbatim>\<open>selfguard\<close>.
  \<^item> \<open>GC_Finding\<close>: what the detectors share, and their contract as the locales \<open>reporter\<close> and
    \<open>detector\<close>, interpreted for each of them.
  \<^item> \<open>GC_Routes\<close>: the live routes of \<^verbatim>\<open>detect/sensorlive\<close>, \<^verbatim>\<open>containeresc\<close>, \<^verbatim>\<open>defense\<close>, \<^verbatim>\<open>copyfail\<close> and
    \<^verbatim>\<open>web/docroot.go\<close>; \<open>GC_Credential\<close>: \<^verbatim>\<open>detect/credential\<close> with its mass-access window.
  \<^item> \<open>GC_Network\<close>: \<^verbatim>\<open>procfs/nettcp.go\<close> and \<^verbatim>\<open>detect/network\<close>.
  \<^item> \<open>GC_Host\<close>: the file system and commands the scans see, and the contract of a detector that compares
    files with the baseline, the locale \<open>watcher\<close>. \<open>GC_Persist\<close> and \<open>GC_Cron\<close>: \<^verbatim>\<open>detect/persistence\<close>, whose
    detectors interpret it, with the commit of their baselines. \<open>GC_FIM\<close>: \<^verbatim>\<open>detect/fimextra\<close>.
  \<^item> \<open>GC_Process\<close>: \<^verbatim>\<open>procfs/maps.go\<close>, \<^verbatim>\<open>detect/memorymaps\<close>, \<^verbatim>\<open>ancestry\<close> and \<^verbatim>\<open>ldpreload\<close>.
  \<^item> \<open>GC_Integrity\<close>: \<^verbatim>\<open>detect/integrity\<close>; an inventory with its baseline is the locale \<open>inventory\<close>.
  \<^item> \<open>GC_PHP\<close>, \<open>GC_WebText\<close>, \<open>GC_Web\<close>: \<^verbatim>\<open>detect/web\<close>, the PHP lexer and taint analysis
    (\<^verbatim>\<open>php_ast.go\<close>), the patterns and the normalisation before them, and the scans.
  \<^item> \<open>GC_Vault\<close>: \<^verbatim>\<open>quarantine/quarantine.go\<close> over an explicit file system; the contract of an
    evidence store is the locale \<open>evidence_store\<close>.
  \<^item> \<open>GC_LivePath\<close>: \<^verbatim>\<open>consumeSensor\<close>, \<^verbatim>\<open>dispatchEvent\<close> and the sudden-root tick of the runner, which
    compose the sensor, the routes and the pipeline.
  \<^item> \<open>GC_Yara\<close>: \<^verbatim>\<open>detect/yara\<close>.
  \<^item> \<open>GC_Runner\<close>, \<open>GC_Pipeline\<close>: \<^verbatim>\<open>runner/runner.go\<close>, and the lemmas on one event and on runs of
    events that the theorems below rest on.
  \<^item> \<open>GC_Scan\<close>: the full, file and inventory scans of the runner, each as the collection of findings and their
    processing, with the lock that keeps scans apart. When a scan fails, what it reports, and that it is a run of the pipeline.
  \<^item> \<open>GC_Watch\<close>: \<^verbatim>\<open>watch\<close>, the file watchers and their debounced trigger as machines over notifications.
  \<^item> \<open>GC_Agent\<close>: \<^verbatim>\<open>RunLoop\<close>, the loops it starts and a machine of their interleaved steps on the shared runner. Every
    run of it is a run of the pipeline, so that the bounds and the safety properties of runs hold of the whole agent.
  \<^item> \<open>GC_Export\<close>: \<^verbatim>\<open>export\<close>, framing and requests of the five exporters.
  \<^item> \<open>GC_Report\<close>: \<^verbatim>\<open>eval/eval.go\<close> and \<^verbatim>\<open>attack/catalog.go\<close>.
  \<^item> \<open>GC_Command\<close>, \<open>GC_Main\<close>: \<^verbatim>\<open>cmd/agent/main.go\<close>, loading of configuration and rules, the baseline commit, then the
    command line and the exit status of every command.
  \<^item> \<open>GC_Terminal\<close>, \<open>GC_DemoSteps\<close>, \<open>GC_Demo\<close>: \<^verbatim>\<open>cmd/demo-console\<close>, the shared terminal with its streams
    (\<^verbatim>\<open>termhub.go\<close>), the scenarios and the display of evidence (\<^verbatim>\<open>catalog.go\<close>, \<^verbatim>\<open>evidence.go\<close>), and the engine that runs
    them (\<^verbatim>\<open>steps.go\<close>, \<^verbatim>\<open>main.go\<close>, \<^verbatim>\<open>sshclient.go\<close>).

  \<^bold>\<open>Parameters.\<close> Code that is not part of the program is an argument of the definitions: regular
  expressions, YAML and JSON, SHA-256, ed25519, base64, libyara, the eBPF loader, SSH, fsnotify, the
  parsing of addresses and durations, the file system, the clock readings (one argument for each reading) and the outcome of each system
  call. Hypotheses on them are written in the theorems that need them: a hash is never empty, the
  clocks do not go back.

  \<^bold>\<open>Bounds and fuel.\<close> The parser takes fuel, one more than the number of tokens; \<open>parser_terminates\<close>
  shows that it is always enough. Ancestor and child walks take the depth the code passes. All other recursions
  are structural or have a termination proof. The console's wait for alerts is given the rounds it
  polls in; \<open>step_outcome_exact\<close> shows that it returns with the first round after its deadline. Integers are mathematical where the code cannot
  overflow them, and wrapped to 64 bits where it can. The entropy of a file is the real number its
  floating-point loop approximates.

  \<^bold>\<open>Interleaving.\<close> The loops of the agent interleave down to single events: a live record may be handled
  between two findings of a running scan. The processing of one event, the handling of one sensor record and the
  collection of a scan's findings are atomic; the code takes its locks inside them.

  \<^bold>\<open>Not modelled.\<close> What happens between two locks inside the processing of one event; the delays of
  tickers and the signal handler that ends the loops; sockets and TLS beyond success or failure of a send; log lines; the
  HTTP server of the console; stubs for other platforms (\<^verbatim>\<open>respond/kill_other.go\<close>, \<^verbatim>\<open>isolate_other.go\<close>), which only return an error.
\<close>

section \<open>Sample inputs\<close>

text \<open>Concrete environments, runners and runs, for the instances of the theorems below.\<close>

definition sample_env :: env where
  "sample_env = \<lparr>en_sha = (\<lambda>s. ''h'' @ s), en_rx = (\<lambda>p. None), en_dur = (\<lambda>s. None),
     en_net = \<lparr>nl_parseIP = (\<lambda>s. None), nl_parseCIDR = (\<lambda>s. None), nl_ipString = (\<lambda>a. [])\<rparr>,
     en_fs = \<lparr>pf_file = (\<lambda>p f. None), pf_exe = (\<lambda>p. None), pf_root = None, pf_children = (\<lambda>p. [])\<rparr>,
     en_json = (\<lambda>e. Some (ev_RuleID e)), en_world = sample_world, en_map = None\<rparr>"

definition sample_event :: "string \<Rightarrow> Event" where
  "sample_event path = zero_Event\<lparr>ev_RuleID := ''WEB_SHELL'', ev_Confidence := 90, ev_Severity := SeverityHigh,
     ev_Entity := \<lparr>ent_Type = EntityFile, ent_ID = [], ent_Path = path, ent_User = []\<rparr>\<rparr>"

definition clocks_at :: "time \<Rightarrow> clocks" where
  "clocks_at t = \<lparr>ck_act = (t, t, t), ck_dedup = (t, t, t), ck_limit = t\<rparr>"

definition no_sinks :: delivery where
  "no_sinks = \<lparr>dl_syslog = None, dl_sinks = [], dl_io = (\<lambda>i. no_faults)\<rparr>"

definition sample_runner :: "Config \<Rightarrow> Runner" where
  "sample_runner cfg = NewRunner cfg \<lparr>pack_Version = ''1'', pack_Rules = []\<rparr> None NewFeed False None"

definition quiet_cfg :: Config where
  "quiet_cfg = Default\<lparr>cfg_RateLimitPerRulePerMin := 2, cfg_Respond := zero_ResponseConfig\<rparr>"

definition enforcing_runner :: Runner where
  "enforcing_runner = sample_runner (Default\<lparr>cfg_Respond := defaultResponse\<lparr>rcf_Mode := ModeEnforce\<rparr>\<rparr>)"

definition strict_rule :: Rule where
  "strict_rule = zero_Rule\<lparr>rule_ID := ''WEB_SHELL'', rule_compiled := Some \<lparr>expr_node = BoolLit False, expr_src = ''false''\<rparr>\<rparr>"

definition strict_runner :: Runner where
  "strict_runner = NewRunner Default \<lparr>pack_Version = ''1'', pack_Rules = [strict_rule]\<rparr> None NewFeed False None"

definition spooling_runner :: Runner where
  "spooling_runner = NewRunner quiet_cfg \<lparr>pack_Version = ''1'', pack_Rules = []\<rparr>
     (Some \<lparr>sp_maxBytes = 100, sp_f = OpenFile, sp_cur = Some [], sp_old = None\<rparr>) NewFeed False None"

definition failing_sinks :: delivery where
  "failing_sinks = \<lparr>dl_syslog = Some False, dl_sinks = [True, False], dl_io = (\<lambda>i. no_faults)\<rparr>"

definition sample_inputs :: "input list" where
  "sample_inputs =
     [(clocks_at 10, no_sinks, sample_event ''/a'', 10, 10), (clocks_at 20, no_sinks, sample_event ''/b'', 20, 20),
      (clocks_at 30, no_sinks, sample_event ''/a'', 30, 30), (clocks_at 40, no_sinks, sample_event ''/c'', 40, 40)]"

lemma Default_fields:
  "cfg_ScanInterval Default = 5 * minute" "cfg_MinConfidenceAlert Default = 70" "cfg_Respond Default = defaultResponse"
  by (simp_all add: Default_def)

lemma sample_fields:
  "rn_pack (sample_runner cfg) = \<lparr>pack_Version = ''1'', pack_Rules = []\<rparr>"
  "rn_feed (sample_runner cfg) = NewFeed" "rn_lastDedup (sample_runner cfg) = []" "rn_dedupOps (sample_runner cfg) = 0"
  "rn_limiter (sample_runner cfg) = Some (NewLimiter (cfg_RateLimitPerRulePerMin cfg))" "rn_cfg (sample_runner cfg) = cfg"
  "rn_responder (sample_runner cfg) = Some (NewEngine (Some (cfg_Respond cfg)) False)" "rn_vault (sample_runner cfg) = False"
  by (simp_all add: sample_runner_def NewRunner_def)

text \<open>The definitions that evaluate a run, stage by stage.\<close>

lemmas orient_simps = prepare_def orient_def enrich_def enrich_ip_def enrich_hash_def enrich_process_def
  NormalizeDedup_def dedup_preimage_def ByID_def rule_for_def
lemmas act_simps = act_event_def Act_def NewEngine_def Decide_def ApplyPlan_def alertPlan_def mode_def mode_defs action_defs
lemmas gate_simps = gates_def shouldDedup_def dedupCore_def dedup_window_def Allow_def NewLimiter_def time_sub_def
  max_int64_def min_int64_def duration_defs gput_def gget_def
lemmas emit_simps = emit_def legacy_quarantine_def delivery_results_def
lemmas sample_simps = sample_fields sample_env_def sample_world_def sample_event_def clocks_at_def no_sinks_def quiet_cfg_def
  Default_fields zero_Event_def zero_ResponseConfig_def entity_defs
lemmas run_simps = processEvent_def Let_def orient_simps act_simps gate_simps emit_simps sample_simps
lemma sample_numbers: "Atoi ''4242'' = Some 4242" "parsePIDTarget ''pid:4242'' = Inr 4242" "Itoa 1 = ''1''"
  by code_simp+

lemmas enforce_simps = sample_numbers defaultResponse_def chosenAction_def defaultAction_def actionEnabled_def targetFor_def isProtected_def
  severityAtLeast_def sev_order_def sev_want_def severity_defs rateLimitOK_def killProcess_def
  zero_Rule_def EarlyPhase_def phase_defs ReadCgroup_def ReadStatus_def commProtected_def

lemma sample_verdicts:
  "map fst (process_all sample_env (sample_runner quiet_cfg) sample_inputs) = [Alerted, Alerted, Duplicate, RateLimited]"
  by (simp add: sample_inputs_def run_simps)

lemma sample_clocked: "clocked_inputs 0 sample_inputs"
  by (simp add: sample_inputs_def clocks_at_def readings_ok_def)

lemma sample_split: "butlast sample_inputs @ [last sample_inputs] = sample_inputs"
  by (simp add: sample_inputs_def)

lemma sample_last: "\<exists>outs v e' fx. process_all en rn (inps @ [x]) = outs @ [(v, e', fx)]"
  by (metis length_0_conv length_append_singleton nat.distinct(1) prod_cases3 process_all_length rev_exhaust)

section \<open>Alerts\<close>

text \<open>
  C2. No alert storms: whatever the loops of a newly started agent do and however they interleave, on whatever host, with a positive limit and
  monotone clocks at most the configured number of alerts of one rule leave the agent in any minute.
\<close>

theorem alert_rate_bounded:
  assumes "0 < cfg_RateLimitPerRulePerMin cfg"
    and "agent_run acts (new_agent (NewRunner cfg pack spool feed vault mapping)) = (ios, ag)"
    and "clocked_inputs T (map (snd \<circ> fst) ios)"
  shows "int (in_window minute (alerts (map (snd \<circ> fst) ios) (map snd ios)) rule x) \<le> cfg_RateLimitPerRulePerMin cfg"
proof -
  let ?rn = "NewRunner cfg pack spool feed vault mapping" and ?xs = "map fst ios"
  obtain n where n: "cfg_RateLimitPerRulePerMin cfg = int (Suc n)"
    using assms(1) by (metis gr0_implies_Suc zero_less_imp_eq_int)
  have l: "rn_limiter ?rn = Some (NewLimiter (int (Suc n)))" by (simp add: NewRunner_def n)
  have m: "map (snd \<circ> fst) ios = map snd ?xs" by simp
  have o: "map snd ios = process_each ?rn ?xs" using agent_run_ran [OF assms(2)] by (simp add: ran_def new_agent_def)
  have c: "clocked_inputs T (map snd ?xs)" using assms(3) by simp
  show ?thesis
    using lim.at_most_cap [OF limiter_clocked_each [OF c, of ?rn], of n rule x]
    unfolding m o alerts_admitted_each l by (simp add: n)
qed

definition guard_cfg :: Config where
  "guard_cfg = quiet_cfg\<lparr>cfg_SelfGuard := zero_SelfGuardConfig\<lparr>sg_Enabled := True, sg_BinaryPath := ''/a'', sg_ExpectedBinarySHA256 := ''x''\<rparr>\<rparr>"

definition self_checks :: "(env \<times> action) list" where
  "self_checks = map (\<lambda>t. (sample_env, SelfCheck (\<lambda>p. Inr ''bin'') (clocks_at t) no_sinks t t)) [10, 20]"

lemma guard_matches: "BinaryMatches (\<lambda>p. Inr ''bin'') ((#) (CHR ''h'')) ''/a'' ''x'' = Some (SGMismatch ''/a'' ''hbin'' ''x'')"
  by (simp add: BinaryMatches_def EqualFold_def ToLower_def)

lemma self_checks_run:
  "case agent_run self_checks (new_agent (sample_runner guard_cfg)) of (ios, ag) \<Rightarrow>
     map (fst \<circ> snd) ios = [Alerted, Duplicate] \<and> map (\<lambda>((en, ck, dl, e, obs, now), out). (ev_RuleID e, ck)) ios =
       [(''AGENT_TAMPERED'', clocks_at 10), (''AGENT_TAMPERED'', clocks_at 20)]"
  by (simp add: self_checks_def new_agent_def selfCheck_def dispatchEvent_def guard_cfg_def zero_SelfGuardConfig_def guard_matches
      tampered_event_def run_simps)

theorem alert_rate_bounded_witness:
  "case agent_run self_checks (new_agent (sample_runner guard_cfg)) of (ios, ag) \<Rightarrow>
     alerts (map (snd \<circ> fst) ios) (map snd ios) = [(''AGENT_TAMPERED'', 10)] \<and>
     int (in_window minute (alerts (map (snd \<circ> fst) ios) (map snd ios)) ''AGENT_TAMPERED'' 20) \<le> 2"
proof -
  obtain ios ag where r: "agent_run self_checks (new_agent (sample_runner guard_cfg)) = (ios, ag)" by (metis surj_pair)
  have v: "map (fst \<circ> snd) ios = [Alerted, Duplicate]"
    "map (\<lambda>((en, ck, dl, e, obs, now), out). (ev_RuleID e, ck)) ios = [(''AGENT_TAMPERED'', clocks_at 10), (''AGENT_TAMPERED'', clocks_at 20)]"
    using self_checks_run by (simp_all add: r)
  then obtain en1 dl1 e1 o1 n1 x1 en2 dl2 e2 o2 n2 x2 where
    i: "ios = [((en1, clocks_at 10, dl1, e1, o1, n1), Alerted, x1), ((en2, clocks_at 20, dl2, e2, o2, n2), Duplicate, x2)]"
    "ev_RuleID e1 = ''AGENT_TAMPERED''" "ev_RuleID e2 = ''AGENT_TAMPERED''"
    by (auto simp: map_eq_Cons_conv)
  have "clocked_inputs 0 (map (snd \<circ> fst) ios)" by (simp add: i clocks_at_def readings_ok_def)
  then have "int (in_window minute (alerts (map (snd \<circ> fst) ios) (map snd ios)) ''AGENT_TAMPERED'' 20) \<le> 2"
    using alert_rate_bounded [OF _ r [unfolded sample_runner_def]] by (simp add: guard_cfg_def quiet_cfg_def)
  moreover have "alerts (map (snd \<circ> fst) ios) (map snd ios) = [(''AGENT_TAMPERED'', 10)]"
    by (cases x1; cases x2) (simp add: i clocks_at_def)
  ultimately show ?thesis by (simp add: r)
qed

text \<open>
  Nothing is rate limited without reason: an event that reaches the limiter is turned away
  exactly when the limit's number of alerts of its rule went out in the minute before it.
\<close>

theorem rate_limited_iff_full:
  assumes "process_all en (NewRunner cfg pack spool feed vault mapping) (inps @ [(ck, dl, e, obs, now)]) = outs @ [(v, e', fx)]"
    and "v = Alerted \<or> v = RateLimited" "clocked_inputs T (inps @ [(ck, dl, e, obs, now)])" "0 < cfg_RateLimitPerRulePerMin cfg"
  shows "v = RateLimited \<longleftrightarrow>
    cfg_RateLimitPerRulePerMin cfg \<le> int (recent minute (alerts inps outs) (ev_RuleID e) (ck_limit ck))"
proof -
  let ?rn = "NewRunner cfg pack spool feed vault mapping"
  obtain n where n: "cfg_RateLimitPerRulePerMin cfg = int (Suc n)"
    using assms(4) by (metis gr0_implies_Suc zero_less_imp_eq_int)
  have l: "rn_limiter ?rn = Some (NewLimiter (int (Suc n)))" by (simp add: NewRunner_def n)
  have "outs = process_all en ?rn inps" using process_all_init [OF assms(1)] .
  then show ?thesis using limiter_drive_last [OF assms(1-3) l] unfolding n of_nat_le_iff by simp
qed

theorem rate_limited_iff_full_witness:
  "\<exists>outs v e' fx. process_all sample_env (sample_runner quiet_cfg) (butlast sample_inputs @ [last sample_inputs]) = outs @ [(v, e', fx)] \<and>
     v = RateLimited \<and> 2 \<le> int (recent minute (alerts (butlast sample_inputs) outs) ''WEB_SHELL'' 40)"
proof -
  obtain outs v e' fx where p: "process_all sample_env (sample_runner quiet_cfg) (butlast sample_inputs @ [last sample_inputs]) = outs @ [(v, e', fx)]"
    using sample_last [where inps = "butlast sample_inputs"] by blast
  then have v: "v = RateLimited" using sample_verdicts by (simp add: sample_split)
  have l: "last sample_inputs = (clocks_at 40, no_sinks, sample_event ''/c'', 40, 40)" "ev_RuleID (sample_event ''/c'') = ''WEB_SHELL''"
    by (simp_all add: sample_inputs_def sample_event_def)
  have "clocked_inputs 0 (butlast sample_inputs @ [last sample_inputs])"
    using sample_clocked by (simp add: sample_split)
  then show ?thesis
    using rate_limited_iff_full [OF p [unfolded l(1) sample_runner_def] _ _ _, of 0] p v
    by (auto simp: l quiet_cfg_def clocks_at_def)
qed

text \<open>
  C13. Duplicates are suppressed: with a hash that is never empty and monotone clocks, over any run
  of a new runner at most one event of a deduplication key passes the duplicate check in any
  deduplication window.
\<close>

theorem duplicates_suppressed:
  assumes "\<forall>s. en_sha en s \<noteq> []" "cfg_ScanInterval cfg \<le> max_int64" "clocked_inputs T inps"
  shows "in_window (dedup_window cfg) (passes en inps (process_all en (NewRunner cfg pack spool feed vault mapping) inps)) key x \<le> 1"
proof -
  let ?rn = "NewRunner cfg pack spool feed vault mapping"
  have w: "window_of (nat (dedup_window cfg - 1)) = dedup_window cfg"
    using assms(2) by (intro window_of_surj) (auto simp: dedup_window_def duration_defs max_int64_def)
  have st: "rn_lastDedup ?rn = []" "rn_dedupOps ?rn = 0" "rn_cfg ?rn = cfg" by (simp_all add: NewRunner_def)
  have ne: "\<And>s. en_sha en s \<noteq> []" using assms(1) by blast
  show ?thesis
    using dedup.at_most_cap [OF dedup_clocked [OF assms(3), of en ?rn], of "nat (dedup_window cfg - 1)" key x]
    unfolding passes_admitted [OF ne] st w by simp
qed

theorem duplicates_suppressed_witness:
  "in_window (dedup_window quiet_cfg) (passes sample_env sample_inputs (process_all sample_env (sample_runner quiet_cfg) sample_inputs))
     ''hWEB_SHELL:/a:'' 40 \<le> 1 \<and>
   map fst (process_all sample_env (sample_runner quiet_cfg) sample_inputs) = [Alerted, Alerted, Duplicate, RateLimited]"
proof -
  have "clocked_inputs 0 sample_inputs" by (simp add: sample_inputs_def clocks_at_def readings_ok_def)
  moreover have "\<forall>s. en_sha sample_env s \<noteq> []" by (simp add: sample_env_def)
  ultimately have "in_window (dedup_window quiet_cfg) (passes sample_env sample_inputs (process_all sample_env (sample_runner quiet_cfg) sample_inputs))
     ''hWEB_SHELL:/a:'' 40 \<le> 1"
    using duplicates_suppressed [of sample_env quiet_cfg 0 sample_inputs]
    by (simp add: sample_runner_def quiet_cfg_def Default_fields duration_defs max_int64_def)
  moreover have "map fst (process_all sample_env (sample_runner quiet_cfg) sample_inputs) = [Alerted, Alerted, Duplicate, RateLimited]"
    by (simp add: sample_inputs_def run_simps)
  ultimately show ?thesis by blast
qed

text \<open>
  Only duplicates are suppressed: an event that reaches the duplicate check is dropped there
  exactly when an event with the same deduplication key passed it within the window before.
\<close>

theorem duplicate_iff_recent:
  assumes "process_all en (NewRunner cfg pack spool feed vault mapping) (inps @ [(ck, dl, e, obs, now)]) = outs @ [(v, e', fx)]"
    and "v \<noteq> EmittedQuiet" "clocked_inputs T (inps @ [(ck, dl, e, obs, now)])" "\<forall>s. en_sha en s \<noteq> []"
    and "cfg_ScanInterval cfg \<le> max_int64"
  shows "v = Duplicate \<longleftrightarrow> 1 \<le> recent (dedup_window cfg) (passes en inps outs)
    (ev_DedupKey (NormalizeDedup (en_sha en) e)) (fst (ck_dedup ck))"
proof -
  let ?rn = "NewRunner cfg pack spool feed vault mapping"
  have w: "window_of (nat (dedup_window cfg - 1)) = dedup_window cfg"
    using assms(5) by (intro window_of_surj) (auto simp: dedup_window_def duration_defs max_int64_def)
  have st: "rn_lastDedup ?rn = []" "rn_dedupOps ?rn = 0" "dedup_window (rn_cfg ?rn) = window_of (nat (dedup_window cfg - 1))"
    by (simp_all add: NewRunner_def w)
  have ne: "\<And>s. en_sha en s \<noteq> []" using assms(4) by blast
  have "outs = process_all en ?rn inps" using process_all_init [OF assms(1)] .
  then show ?thesis using dedup_drive_last [OF assms(1-3) ne st] by (simp add: w)
qed

theorem duplicate_iff_recent_witness:
  "\<exists>outs v e' fx. process_all sample_env (sample_runner quiet_cfg) (take 2 sample_inputs @ [sample_inputs ! 2]) = outs @ [(v, e', fx)] \<and>
     v = Duplicate \<and> 1 \<le> recent (dedup_window quiet_cfg) (passes sample_env (take 2 sample_inputs) outs) ''hWEB_SHELL:/a:'' 30"
proof -
  obtain outs v e' fx where p: "process_all sample_env (sample_runner quiet_cfg) (take 2 sample_inputs @ [sample_inputs ! 2]) = outs @ [(v, e', fx)]"
    using sample_last [where inps = "take 2 sample_inputs"] by blast
  have "map fst (process_all sample_env (sample_runner quiet_cfg) (take 2 sample_inputs @ [sample_inputs ! 2])) = [Alerted, Alerted, Duplicate]"
    by (simp add: sample_inputs_def run_simps)
  then have v: "v = Duplicate" unfolding p by simp
  have l: "sample_inputs ! 2 = (clocks_at 30, no_sinks, sample_event ''/a'', 30, 30)" by (simp add: sample_inputs_def)
  have k: "ev_DedupKey (NormalizeDedup (en_sha sample_env) (sample_event ''/a'')) = ''hWEB_SHELL:/a:''"
    by (simp add: NormalizeDedup_def sample_event_def sample_env_def zero_Event_def dedup_preimage_def)
  have c: "clocked_inputs 0 (take 2 sample_inputs @ [sample_inputs ! 2])" by (simp add: sample_inputs_def clocks_at_def readings_ok_def)
  have h: "\<forall>s. en_sha sample_env s \<noteq> []" "cfg_ScanInterval quiet_cfg \<le> max_int64"
    by (simp_all add: sample_env_def quiet_cfg_def Default_fields duration_defs max_int64_def)
  show ?thesis
    using duplicate_iff_recent [OF p [unfolded l sample_runner_def] _ c [unfolded l] h] p v by (auto simp: l k clocks_at_def)
qed

section \<open>Host effects\<close>



text \<open>
  C31. Audit mode is inert: with active response on and its mode not enforce, nothing the loops of a newly started agent do, in any order and on any
  host, ever kills a process, quarantines a file or isolates the host.
\<close>

theorem audit_mode_inert:
  assumes "rcf_Enabled (cfg_Respond cfg)" "rcf_Mode (cfg_Respond cfg) \<noteq> ModeEnforce"
    and "agent_run acts (new_agent (NewRunner cfg pack spool feed vault mapping)) = (ios, ag)"
  shows "list_all (\<lambda>(i, v, e, fx). fx = []) ios"
proof -
  let ?rn = "NewRunner cfg pack spool feed vault mapping"
  have o: "map snd ios = process_each ?rn (map fst ios)" using agent_run_ran [OF assms(3)] by (simp add: ran_def new_agent_def)
  have "fx = []" if "(v, e, fx) \<in> set (process_each ?rn (map fst ios))" for v e fx
    using audit_run_each [OF _ _ _ that, of "NewEngine (Some (cfg_Respond cfg)) vault"] assms(1,2) by (simp add: NewRunner_def NewEngine_def)
  then have "list_all (\<lambda>(v, e, fx). fx = []) (map snd ios)" unfolding o by (auto simp: list_all_iff)
  then show ?thesis by (simp add: list_all_iff split_beta)
qed

theorem audit_mode_inert_witness:
  "case agent_run [hd self_checks] (new_agent (sample_runner (guard_cfg\<lparr>cfg_Respond := defaultResponse\<rparr>))) of (ios, ag) \<Rightarrow>
     length ios = 1 \<and> list_all (\<lambda>(i, v, e, fx). fx = []) ios"
proof -
  let ?cfg = "guard_cfg\<lparr>cfg_Respond := defaultResponse\<rparr>"
  obtain ios ag where r: "agent_run [hd self_checks] (new_agent (sample_runner ?cfg)) = (ios, ag)" by (metis surj_pair)
  have "list_all (\<lambda>(i, v, e, fx). fx = []) ios"
    using audit_mode_inert [OF _ _ r [unfolded sample_runner_def]] by (simp add: defaultResponse_def mode_defs)
  moreover have "length (fst (agent_run [hd self_checks] (new_agent (sample_runner ?cfg)))) = 1"
    by (simp add: self_checks_def new_agent_def selfCheck_def dispatchEvent_def guard_cfg_def zero_SelfGuardConfig_def guard_matches
        sample_fields sample_env_def Let_def split_beta)
  ultimately show ?thesis by (simp add: r)
qed

text \<open>
  C30. A rule's precondition is enforced: an event whose rule expression is false, or fails to
  evaluate, on the enriched event is learning-only; it is written out, has no effect on the host, is
  never counted as an alert, and leaves the duplicate and rate state alone.
\<close>

theorem precondition_enforced:
  assumes "processEvent en ck dl rn e0 obs now = (v, rn', e', fx)" "ByID (rn_pack rn) (ev_RuleID e0) = Some rule"
    and "\<not> expr_holds (en_rx en) rule (orient en rn (NormalizeDedup (en_sha en) e0))"
  shows "ev_LearningOnly e' \<and> v = EmittedQuiet \<and> fx = [] \<and> rn_limiter rn' = rn_limiter rn"
proof -
  have "ev_LearningOnly (prepare en rn now e0)"
    using assms(2,3) by (simp add: prepare_def Let_def correlate_learning)
  then show ?thesis
    using processEvent_learning [OF assms(1)] processEvent_frame(6) [OF assms(1)] processEvent_limiter [OF assms(1)] by simp
qed

theorem precondition_enforced_witness:
  "\<exists>rn' e' fx. processEvent sample_env (clocks_at 5) no_sinks strict_runner (sample_event ''/a'') 1 5 = (EmittedQuiet, rn', e', fx) \<and>
     ev_LearningOnly e' \<and> fx = []"
proof -
  obtain v rn' e' fx where p: "processEvent sample_env (clocks_at 5) no_sinks strict_runner (sample_event ''/a'') 1 5 = (v, rn', e', fx)"
    by (metis prod_cases4)
  have "ByID (rn_pack strict_runner) (ev_RuleID (sample_event ''/a'')) = Some strict_rule"
    by (simp add: strict_runner_def NewRunner_def strict_rule_def ByID_def sample_event_def)
  moreover have "\<not> expr_holds (en_rx sample_env) strict_rule (orient sample_env strict_runner (NormalizeDedup (en_sha sample_env) (sample_event ''/a'')))"
    by (simp add: expr_holds_def strict_rule_def CompiledExpr_def Eval_def)
  ultimately show ?thesis using precondition_enforced [OF p] p by simp
qed

text \<open>
  Enrichment and correlation only raise confidence, and never above 100: for an event that
  enters with a confidence from 0 to 100, and a correlation boost of its rule that fits the word,
  indicator matches, peers and chains keep it in range and never lower it.
\<close>

theorem confidence_monotone:
  assumes "processEvent en ck dl rn e0 obs now = (v, rn', e', fx)" "0 \<le> ev_Confidence e0" "ev_Confidence e0 \<le> 100"
    and "\<forall>r. ByID (rn_pack rn) (ev_RuleID e0) = Some r \<longrightarrow> rule_CorrelateBoost r < 2 ^ 61"
  shows "ev_Confidence e0 \<le> ev_Confidence e' \<and> ev_Confidence e' \<le> 100"
  using prepare_confidence [of e0 rn en now] processEvent_frame(5) [OF assms(1)] assms(2-4) by simp

theorem confidence_monotone_witness:
  "\<exists>v rn' e' fx. processEvent sample_env (clocks_at 5) no_sinks (sample_runner Default) (sample_event ''/a'') 1 5 = (v, rn', e', fx) \<and>
     90 \<le> ev_Confidence e' \<and> ev_Confidence e' \<le> 100"
proof -
  obtain v rn' e' fx where p: "processEvent sample_env (clocks_at 5) no_sinks (sample_runner Default) (sample_event ''/a'') 1 5 = (v, rn', e', fx)"
    by (metis prod_cases4)
  show ?thesis using confidence_monotone [OF p] p by (simp add: sample_event_def sample_fields ByID_def)
qed

section \<open>Delivery\<close>

text \<open>
  C29. Every emitted event is written and nothing undelivered is lost: an event that passes the
  gates appends its line to the output once, a suppressed one appends nothing, and if the spool is
  healthy, then after the event it holds one more copy of the line for every sink that failed.
\<close>

theorem delivery_complete:
  assumes "processEvent en ck dl rn e0 obs now = (v, rn', e', fx)" "rn_spool rn = Some s" "holds_records s ls"
    and "\<forall>i. dl_io dl i = no_faults"
  shows "\<exists>out s'. rn_out rn' = rn_out rn @ map (\<lambda>b. b @ [CHR 0x0A]) out \<and>
    out = (if v = EmittedQuiet \<or> v = Alerted then (case en_json en e' of None \<Rightarrow> [] | Some b \<Rightarrow> [b]) else []) \<and>
    rn_spool rn' = Some s' \<and>
    holds_records s' (ls @ concat (map (\<lambda>b. replicate (length (filter Not (delivery_results dl))) b) out))"
proof (cases "v = EmittedQuiet \<or> v = Alerted")
  case True
  show ?thesis
  proof (cases "en_json en e'")
    case (Some b)
    obtain s' where "spool_failures (dl_io dl) 0 (delivery_results dl) b (Some s) = Some s'"
      "holds_records s' (ls @ replicate (length (filter Not (delivery_results dl))) b)"
      using spool_failures_holds [OF assms(3), of "dl_io dl"] assms(4) by blast
    then show ?thesis using processEvent_out [OF assms(1)] assms(2) True Some by auto
  qed (use processEvent_out [OF assms(1)] assms(2,3) True in auto)
qed (use processEvent_out [OF assms(1)] assms(2,3) in auto)

theorem delivery_complete_witness:
  "\<exists>v rn' e' fx s'. processEvent sample_env (clocks_at 5) failing_sinks spooling_runner (sample_event ''/a'') 1 5 = (v, rn', e', fx) \<and>
     rn_spool rn' = Some s' \<and> holds_records s' [''WEB_SHELL'', ''WEB_SHELL'']"
proof -
  obtain v rn' e' fx where p: "processEvent sample_env (clocks_at 5) failing_sinks spooling_runner (sample_event ''/a'') 1 5 = (v, rn', e', fx)"
    by (metis prod_cases4)
  have "fst (processEvent sample_env (clocks_at 5) failing_sinks spooling_runner (sample_event ''/a'') 1 5) = Alerted"
    by (simp add: spooling_runner_def failing_sinks_def run_simps NewRunner_def)
  then have v: "v = Alerted" by (simp add: p)
  have s: "rn_spool spooling_runner = Some \<lparr>sp_maxBytes = 100, sp_f = OpenFile, sp_cur = Some [], sp_old = None\<rparr>"
    "holds_records \<lparr>sp_maxBytes = 100, sp_f = OpenFile, sp_cur = Some [], sp_old = None\<rparr> []" "\<forall>i. dl_io failing_sinks i = no_faults"
    "delivery_results failing_sinks = [False, True, False]"
    by (auto simp: spooling_runner_def NewRunner_def holds_records_def contents_def file_of_def failing_sinks_def delivery_results_def)
  have j: "en_json sample_env e' = Some ''WEB_SHELL''"
    using processEvent_rule [OF p] by (simp add: sample_env_def sample_event_def)
  show ?thesis using delivery_complete [OF p s(1-3)] p v by (simp add: s(4) j numeral_2_eq_2)
qed

section \<open>The live path\<close>


definition sample_ptrace :: SensorEvent where
  "sample_ptrace = zero_SensorEvent\<lparr>se_Kind := KindPtrace, se_When := 7, se_PID := 42, se_Comm := ''gdb''\<rparr>"

definition sample_io :: live_io where
  "sample_io = \<lparr>li_debounce = 7, li_observed = 7, li_reads = (\<lambda>i. 7), li_dispatch = (\<lambda>i. (clocks_at 7, no_sinks, 7)), li_order = id\<rparr>"




section \<open>Deviations\<close>

text \<open>
  The response runs before the gates: an event that the duplicate check then suppresses has
  already acted on the host.
\<close>

lemma duplicate_still_acts:
  "case processEvent sample_env (clocks_at 10) no_sinks (enforcing_runner\<lparr>rn_lastDedup := [(''hPROC_SUDDEN_ROOT::4242'', 5)]\<rparr>) sample_root_event 10 10 of
    (v, _, _, fx) \<Rightarrow> v = Duplicate \<and> fx = [KillSent 4242]"
  by (simp add: enforcing_runner_def sample_root_event_def run_simps enforce_simps recordRate_def)

end
